(* ===== verification/Riposte_Prelude.thy ===== *)
theory Riposte_Prelude
  imports Main "HOL-Library.Word" "HOL-Library.AList"
begin

text \<open>
  Shared vocabulary of the development.

  \<^item> Go errors: values that carry a text and, for package-level error variables, an
    identity that \<^verbatim>\<open>errors.Is\<close> sees through \<^verbatim>\<open>%w\<close> wrapping.
  \<^item> A fallible Go function returns \<open>'a res\<close>: \<open>Inl\<close> is the error, \<open>Inr\<close> the value.
  \<^item> Machine integers: an \<^verbatim>\<open>int\<close>/\<^verbatim>\<open>int64\<close> is an \<open>int\<close>; where a value that comes from outside
    is added to or multiplied, the 64-bit wrap-around is written out with \<open>wrap64\<close>.
  \<^item> Time: \<^verbatim>\<open>time.Time\<close> is a number of nanoseconds since the Unix epoch, with Go's zero time
    (1 January of year 1) as its own constant; \<^verbatim>\<open>time.Duration\<close> is a number of nanoseconds.
  \<^item> Go maps whose \<^verbatim>\<open>len\<close> the code reads are association lists updated with \<open>AList.update\<close>
    and \<open>AList.delete\<close>; maps that are only looked up are \<open>'k \<rightharpoonup> 'v\<close>.
  \<^item> Decimal printing and the substring test, because keys are built and errors are
    recognised by text.
  \<^item> XOR of byte strings and its algebra, which the slot table and the write protocol share.
\<close>

unbundle bit_operations_syntax

named_theorems xor_simps "algebra of XOR on byte strings"
named_theorems go_simps "unfolding of the modelled Go primitives"

type_synonym byte = "8 word"

section \<open>Errors and results\<close>

datatype go_error =
    ErrorString string                     \<comment> \<open>\<^verbatim>\<open>errors.New\<close>, or an error that crossed net/rpc\<close>
  | Sentinel string                        \<comment> \<open>a package-level \<^verbatim>\<open>var errX = errors.New(...)\<close>\<close>
  | Wrapped string go_error string         \<comment> \<open>\<^verbatim>\<open>fmt.Errorf("pre %w post", err)\<close>\<close>

type_synonym 'a res = "go_error + 'a"

primrec error_text :: "go_error \<Rightarrow> string" where
  "error_text (ErrorString s) = s"
| "error_text (Sentinel s) = s"
| "error_text (Wrapped p e q) = p @ error_text e @ q"

fun errors_Is :: "go_error \<Rightarrow> go_error \<Rightarrow> bool" where
  "errors_Is (Wrapped p e q) target \<longleftrightarrow> Wrapped p e q = target \<or> errors_Is e target"
| "errors_Is e target \<longleftrightarrow> e = target"

text \<open>net/rpc sends only the text of an error; the caller sees an \<^verbatim>\<open>rpc.ServerError\<close>.\<close>

definition rpc_error :: "go_error \<Rightarrow> go_error" where
  "rpc_error e = ErrorString (error_text e)"

lemma error_text_rpc [simp]: "error_text (rpc_error e) = error_text e"
  by (simp add: rpc_error_def)

lemma errors_Is_refl [simp]: "errors_Is e e"
  by (cases e) auto

lemma errors_Is_rpc_sentinel [simp]: "\<not> errors_Is (rpc_error e) (Sentinel s)"
  by (simp add: rpc_error_def)

section \<open>Machine integers\<close>

definition wrap64 :: "int \<Rightarrow> int" where
  "wrap64 x = (x + 2 ^ 63) mod 2 ^ 64 - 2 ^ 63"

definition max_int64 :: int where
  "max_int64 = 2 ^ 63 - 1"

definition in_int64 :: "int \<Rightarrow> bool" where
  "in_int64 x \<longleftrightarrow> - (2 ^ 63) \<le> x \<and> x < 2 ^ 63"

lemma wrap64_id: "in_int64 x \<Longrightarrow> wrap64 x = x"
  by (simp add: wrap64_def in_int64_def)

lemma wrap64_in_int64 [simp, intro]: "in_int64 (wrap64 x)"
proof -
  have "0 \<le> (x + 2 ^ 63) mod 2 ^ 64" "(x + 2 ^ 63) mod 2 ^ 64 < (2::int) ^ 64"
    by simp_all
  then show ?thesis by (simp add: wrap64_def in_int64_def)
qed

lemma wrap64_small: "0 \<le> x \<Longrightarrow> x \<le> max_int64 \<Longrightarrow> wrap64 x = x"
  by (rule wrap64_id) (simp add: in_int64_def max_int64_def)

section \<open>Time\<close>

type_synonym gotime = int
type_synonym duration = int

definition second :: duration where "second = 1000000000"
definition millisecond :: duration where "millisecond = 1000000"

definition zero_time :: gotime where
  "zero_time = - 62135596800 * 1000000000"

definition IsZero :: "gotime \<Rightarrow> bool" where
  "IsZero t \<longleftrightarrow> t = zero_time"

definition Before :: "gotime \<Rightarrow> gotime \<Rightarrow> bool" where
  "Before t u \<longleftrightarrow> t < u"

definition time_Unix :: "int \<Rightarrow> gotime" where
  "time_Unix s = s * 1000000000"

definition Unix :: "gotime \<Rightarrow> int" where
  "Unix t = t div 1000000000"

definition UnixMilli :: "gotime \<Rightarrow> int" where
  "UnixMilli t = t div 1000000"

definition time_UnixMilli :: "int \<Rightarrow> gotime" where
  "time_UnixMilli ms = ms * 1000000"

lemma Unix_time_Unix [simp]: "Unix (time_Unix s) = s"
  by (simp add: Unix_def time_Unix_def)

lemma UnixMilli_time_UnixMilli [simp]: "UnixMilli (time_UnixMilli s) = s"
  by (simp add: UnixMilli_def time_UnixMilli_def)

section \<open>Texts\<close>

definition digit_char :: "nat \<Rightarrow> char" where
  "digit_char d = char_of (48 + d)"

fun show_nat :: "nat \<Rightarrow> string" where
  "show_nat n = (if n < 10 then [digit_char n] else show_nat (n div 10) @ [digit_char (n mod 10)])"

declare show_nat.simps [simp del]

definition show_int :: "int \<Rightarrow> string" where
  "show_int i = (if i < 0 then CHR ''-'' # show_nat (nat (- i)) else show_nat (nat i))"

fun contains :: "string \<Rightarrow> string \<Rightarrow> bool" where
  "contains [] p \<longleftrightarrow> p = []"
| "contains (c # cs) p \<longleftrightarrow> take (length p) (c # cs) = p \<or> contains cs p"

definition has_prefix :: "string \<Rightarrow> string \<Rightarrow> bool" where
  "has_prefix s p \<longleftrightarrow> take (length p) s = p"

lemma contains_append_left: "contains s p \<Longrightarrow> contains (t @ s) p"
  by (induction t) auto

lemma contains_prefix: "contains (p @ s) p"
  by (cases p; cases s) auto

lemma contains_infix: "contains (t @ p @ s) p"
  by (intro contains_append_left contains_prefix)

lemma of_char_digit: "d < 10 \<Longrightarrow> of_char (digit_char d) = 48 + d"
  by (simp add: digit_char_def)

definition read_nat :: "string \<Rightarrow> nat" where
  "read_nat s = foldl (\<lambda>a c. a * 10 + (of_char c - 48)) 0 s"

lemma read_show_nat: "read_nat (show_nat n) = n"
proof (induction n rule: show_nat.induct)
  case (1 n)
  show ?case
  proof (cases "n < 10")
    case True
    then show ?thesis by (simp add: show_nat.simps [of n] read_nat_def of_char_digit)
  next
    case False
    with 1 show ?thesis
      by (simp add: show_nat.simps [of n] read_nat_def of_char_digit)
  qed
qed

lemma show_nat_inject [simp]: "show_nat m = show_nat n \<longleftrightarrow> m = n"
  by (metis read_show_nat)

lemma set_show_nat: "c \<in> set (show_nat n) \<Longrightarrow> \<exists>d < 10. c = digit_char d"
proof (induction n rule: show_nat.induct)
  case (1 n)
  then show ?case
    by (cases "n < 10") (auto simp: show_nat.simps [of n] intro: exI [of _ "n mod 10"])
qed

lemma digit_not_minus: "d < 10 \<Longrightarrow> digit_char d \<noteq> CHR ''-''"
proof
  assume "d < 10" "digit_char d = CHR ''-''"
  then have "48 + d = of_char (CHR ''-'')" using of_char_digit by metis
  then show False by simp
qed

lemma digit_not_hash: "d < 10 \<Longrightarrow> digit_char d \<noteq> CHR ''#''"
proof
  assume "d < 10" "digit_char d = CHR ''#''"
  then have "48 + d = of_char (CHR ''#'')" using of_char_digit by metis
  then show False by simp
qed

lemma hash_notin_show_int [simp]: "CHR ''#'' \<notin> set (show_int i)"
  by (auto simp: show_int_def dest!: set_show_nat digit_not_hash)

lemma show_nat_not_minus: "show_nat n \<noteq> CHR ''-'' # s"
proof
  assume "show_nat n = CHR ''-'' # s"
  then have "CHR ''-'' \<in> set (show_nat n)" by simp
  then show False using set_show_nat digit_not_minus by metis
qed

lemma show_int_inject [simp]: "show_int i = show_int j \<longleftrightarrow> i = j"
  using show_nat_not_minus [of "nat i"] show_nat_not_minus [of "nat j"]
  by (auto simp: show_int_def dest: sym split: if_splits)

lemma append_sep_inject:
  assumes "xs @ c # ys = us @ c # vs" "c \<notin> set xs" "c \<notin> set us"
  shows "xs = us \<and> ys = vs"
  using assms
proof (induction xs arbitrary: us)
  case Nil
  then show ?case by (cases us) auto
next
  case (Cons x xs)
  then show ?case by (cases us) auto
qed

section \<open>Go maps with a length\<close>

type_synonym ('k, 'v) gomap = "('k \<times> 'v) list"

abbreviation gm_get :: "('k, 'v) gomap \<Rightarrow> 'k \<Rightarrow> 'v option" where
  "gm_get m k \<equiv> map_of m k"

abbreviation gm_put :: "'k \<Rightarrow> 'v \<Rightarrow> ('k, 'v) gomap \<Rightarrow> ('k, 'v) gomap" where
  "gm_put k v m \<equiv> AList.update k v m"

abbreviation gm_del :: "'k \<Rightarrow> ('k, 'v) gomap \<Rightarrow> ('k, 'v) gomap" where
  "gm_del k m \<equiv> AList.delete k m"

definition gm_ok :: "('k, 'v) gomap \<Rightarrow> bool" where
  "gm_ok m \<longleftrightarrow> distinct (map fst m)"

lemma gm_ok_Nil [simp]: "gm_ok []"
  by (simp add: gm_ok_def)

lemma gm_ok_put [simp]: "gm_ok m \<Longrightarrow> gm_ok (gm_put k v m)"
  by (simp add: gm_ok_def distinct_update)

lemma gm_ok_del [simp]: "gm_ok m \<Longrightarrow> gm_ok (gm_del k m)"
  by (simp add: gm_ok_def distinct_delete)

lemma gm_get_put [simp]: "gm_get (gm_put k v m) k' = (if k' = k then Some v else gm_get m k')"
  by (simp add: update_conv')

lemma gm_get_del [simp]: "gm_get (gm_del k m) k' = (if k' = k then None else gm_get m k')"
  by (simp add: delete_conv')

lemma gm_put_not_Nil [simp]: "gm_put k v m \<noteq> []"
  by (cases m) auto

lemma length_gm_put_new: "k \<notin> fst ` set m \<Longrightarrow> length (gm_put k v m) = Suc (length m)"
  by (induction m) auto

lemma length_gm_put_old: "k \<in> fst ` set m \<Longrightarrow> length (gm_put k v m) = length m"
  by (induction m) auto

lemma gm_del_length_le: "length (gm_del k m) \<le> length m"
  by (induction m) auto

lemma gm_del_length_less: "k \<in> fst ` set m \<Longrightarrow> length (gm_del k m) < length m"
  by (induction m) (auto intro: le_imp_less_Suc gm_del_length_le)

lemma gm_get_None_iff: "gm_get m k = None \<longleftrightarrow> k \<notin> fst ` set m"
  by (simp add: map_of_eq_None_iff)

section \<open>Randomness\<close>

text \<open>
  The random source of the components (rand.Int over an AES-CTR stream, whose buffering \<open>Prg_Stream\<close>
  models) is a parameter: drawing an integer below a bound, and drawing bytes, each
  returning the source's next state. \<open>rng_ok\<close> is the documented contract of \<^verbatim>\<open>rand.Int\<close> (a value
  in \<open>[0, max)\<close>) and of filling a buffer (exactly the requested number of bytes).
\<close>

record 'r rng =
  rng_Int :: "'r \<Rightarrow> int \<Rightarrow> int \<times> 'r"
  rng_Bytes :: "'r \<Rightarrow> nat \<Rightarrow> byte list \<times> 'r"

definition rng_ok :: "'r rng \<Rightarrow> bool" where
  "rng_ok G \<longleftrightarrow>
     (\<forall>r m. 0 < m \<longrightarrow> 0 \<le> fst (rng_Int G r m) \<and> fst (rng_Int G r m) < m) \<and>
     (\<forall>r n. length (fst (rng_Bytes G r n)) = n)"

text \<open>A counter is a concrete source that meets the contract.\<close>

definition counter_rng :: "int rng" where
  "counter_rng = \<lparr>rng_Int = (\<lambda>r m. (r mod m, r + 1)),
                  rng_Bytes = (\<lambda>r n. (replicate n (word_of_int r), r + 1))\<rparr>"

lemma counter_rng_ok: "rng_ok counter_rng"
  by (simp add: rng_ok_def counter_rng_def)

section \<open>XOR of byte strings\<close>

definition xor_bytes :: "byte list \<Rightarrow> byte list \<Rightarrow> byte list" where
  "xor_bytes a b = map2 (XOR) a b"

lemma length_xor_bytes [simp]: "length (xor_bytes a b) = min (length a) (length b)"
  by (simp add: xor_bytes_def)

lemma nth_xor_bytes [simp]:
  "i < length a \<Longrightarrow> i < length b \<Longrightarrow> xor_bytes a b ! i = a ! i XOR b ! i"
  by (simp add: xor_bytes_def)

lemma xor_bytes_commute: "length a = length b \<Longrightarrow> xor_bytes a b = xor_bytes b a"
  by (rule nth_equalityI) (simp_all add: xor.commute)

lemma xor_bytes_assoc [xor_simps]:
  "length a = length b \<Longrightarrow> length b = length c
     \<Longrightarrow> xor_bytes (xor_bytes a b) c = xor_bytes a (xor_bytes b c)"
  by (rule nth_equalityI) (simp_all add: xor.assoc)

lemma xor_bytes_left_commute:
  "length a = length b \<Longrightarrow> length b = length c
     \<Longrightarrow> xor_bytes a (xor_bytes b c) = xor_bytes b (xor_bytes a c)"
  by (rule nth_equalityI) (simp_all add: xor.left_commute)

lemma xor_bytes_zero_right [simp]:
  "n = length a \<Longrightarrow> xor_bytes a (replicate n 0) = a"
  by (rule nth_equalityI) simp_all

lemma xor_bytes_zero_left [simp]:
  "n = length a \<Longrightarrow> xor_bytes (replicate n 0) a = a"
  by (rule nth_equalityI) simp_all

lemma xor_bytes_self [simp]: "xor_bytes a a = replicate (length a) 0"
  by (rule nth_equalityI) simp_all

lemma xor_bytes_cancel [simp]:
  "length a = length b \<Longrightarrow> xor_bytes a (xor_bytes a b) = b"
  by (rule nth_equalityI) (simp_all flip: xor.assoc)

lemma take_xor_bytes: "take n (xor_bytes a b) = xor_bytes (take n a) (take n b)"
  by (simp add: xor_bytes_def take_map take_zip)

lemma drop_xor_bytes: "drop n (xor_bytes a b) = xor_bytes (drop n a) (drop n b)"
  by (simp add: xor_bytes_def drop_map drop_zip)

end
