(* ===== verification/Field_Sharing.thy ===== *)
theory Field_Sharing
  imports Riposte_Prelude "HOL-Library.Monad_Syntax"
begin

text \<open>
  Additive secret sharing (\<^verbatim>\<open>src/prg/prg.go\<close>, \<^verbatim>\<open>src/utils/rand.go\<close>) and the proof that a product of
  shared values is right (\<^verbatim>\<open>src/mulproof/mulproof.go\<close>).

  The prover hides \<open>a\<close> and \<open>b\<close> as the values at 1 of two lines \<open>f\<close>, \<open>g\<close> with random values
  at 0, and shares \<open>f 0, g 0, h 0, h 2\<close> for \<open>h = f \<cdot> g\<close>; the claimed product \<open>c\<close> is \<open>h 1\<close>.
  Each server evaluates its shares at a common random point and the leader checks
  \<open>f R \<cdot> g R = h R\<close>. Shown here: shares add up to the secret, an honest proof is always
  accepted, and a proof that is accepted at three points whose differences are invertible
  has a correct product.
\<close>

section \<open>The random source of \<^verbatim>\<open>utils\<close>\<close>

definition RandInt :: "'r rng \<Rightarrow> int \<Rightarrow> 'r \<Rightarrow> int \<times> 'r" where
  "RandInt G m r = rng_Int G r m"

definition RandInt64 :: "'r rng \<Rightarrow> int \<Rightarrow> 'r \<Rightarrow> int \<times> 'r" where
  "RandInt64 G m r = RandInt G m r"

definition RandIntShort :: "'r rng \<Rightarrow> int \<Rightarrow> 'r \<Rightarrow> int \<times> 'r" where
  "RandIntShort G m r = RandInt64 G m r"

fun RandVectorBool :: "'r rng \<Rightarrow> nat \<Rightarrow> 'r \<Rightarrow> bool list \<times> 'r" where
  "RandVectorBool G 0 r = ([], r)"
| "RandVectorBool G (Suc n) r =
     (let (bit, r1) = RandIntShort G 2 r; (bs, r2) = RandVectorBool G n r1
      in ((bit \<noteq> 0) # bs, r2))"

definition RandBytes :: "'r rng \<Rightarrow> nat \<Rightarrow> 'r \<Rightarrow> byte list \<times> 'r" where
  "RandBytes G n r = rng_Bytes G r n"

section \<open>\<^verbatim>\<open>prg.Share\<close>\<close>

fun share_loop :: "'r rng \<Rightarrow> int \<Rightarrow> nat \<Rightarrow> int \<Rightarrow> int list \<Rightarrow> 'r \<Rightarrow> int list \<times> int \<times> 'r" where
  "share_loop G m 0 acc out r = (out, acc, r)"
| "share_loop G m (Suc k) acc out r =
     (let (x, r') = RandInt G m r in share_loop G m k (acc + x) (out @ [x]) r')"

text \<open>With no share to write the last assignment indexes out of range and panics: \<open>None\<close>.\<close>

definition Share :: "'r rng \<Rightarrow> int \<Rightarrow> nat \<Rightarrow> int \<Rightarrow> 'r \<Rightarrow> (int list \<times> 'r) option" where
  "Share G m nShares secret r =
     (if nShares = 0 then None
      else let (out, acc, r') = share_loop G m (nShares - 1) 0 [] r
           in Some (out @ [(secret - acc) mod m], r'))"

section \<open>\<^verbatim>\<open>mulproof\<close>\<close>

record ProofShare =
  F_0 :: int
  G_0 :: int
  H_0 :: int
  H_2 :: int

record AnsShare =
  F_R :: int
  G_R :: int
  H_R :: int

definition Prove ::
  "'r rng \<Rightarrow> int \<Rightarrow> nat \<Rightarrow> int \<Rightarrow> int \<Rightarrow> int \<Rightarrow> 'r \<Rightarrow> (ProofShare list \<times> 'r) option" where
  "Prove G m nShares a b c r =
     (let (f0, r) = RandInt G m r;
          (g0, r) = RandInt G m r;
          f2 = ((a - f0) * 2 + f0) mod m;
          g2 = ((b - g0) * 2 + g0) mod m;
          h0 = (f0 * g0) mod m;
          h2 = (f2 * g2) mod m
      in do {
        (f0Shares, r) \<leftarrow> Share G m nShares f0 r;
        (g0Shares, r) \<leftarrow> Share G m nShares g0 r;
        (h0Shares, r) \<leftarrow> Share G m nShares h0 r;
        (h2Shares, r) \<leftarrow> Share G m nShares h2 r;
        Some (map (\<lambda>i. \<lparr>F_0 = f0Shares ! i, G_0 = g0Shares ! i,
                        H_0 = h0Shares ! i, H_2 = h2Shares ! i\<rparr>) [0..<nShares], r)
      })"

text \<open>
  \<^verbatim>\<open>ModInverse\<close> of 2: for an odd modulus it is \<open>(m + 1) / 2\<close>; an even modulus has no inverse and the
  receiver keeps the value 2.
\<close>

definition two_inv :: "int \<Rightarrow> int" where
  "two_inv m = (if odd m then ((m + 1) div 2) mod m else 2)"

definition deg2Interp :: "int \<Rightarrow> int \<Rightarrow> int \<Rightarrow> int \<Rightarrow> int \<Rightarrow> int" where
  "deg2Interp m r h0 h1 h2 =
     (let twoInv = two_inv m;
          r1 = r - 1;
          r2 = r - 2;
          v0 = twoInv * r1 * r2 * h0;
          v1 = m - r * r2 * h1;
          v2 = twoInv * r * r1 * h2
      in (v0 + v1 + v2) mod m)"

definition Query :: "int \<Rightarrow> int \<Rightarrow> ProofShare \<Rightarrow> int \<Rightarrow> int \<Rightarrow> int \<Rightarrow> AnsShare" where
  "Query m r pf aShare bShare cShare =
     \<lparr>F_R = ((aShare - F_0 pf) * r + F_0 pf) mod m,
      G_R = ((bShare - G_0 pf) * r + G_0 pf) mod m,
      H_R = deg2Interp m r (H_0 pf) cShare (H_2 pf)\<rparr>"

definition Decide :: "int \<Rightarrow> AnsShare list \<Rightarrow> bool" where
  "Decide m pfs =
     (let fR = (\<Sum>p\<leftarrow>pfs. F_R p) mod m;
          gR = (\<Sum>p\<leftarrow>pfs. G_R p) mod m;
          hR = (\<Sum>p\<leftarrow>pfs. H_R p) mod m
      in (fR * gR) mod m = hR)"

section \<open>Shares add up to the secret\<close>

lemma share_loop_spec:
  "share_loop G m k acc out r = (out', acc', r') \<Longrightarrow>
     length out' = length out + k \<and> acc' = acc + sum_list out' - sum_list out"
proof (induction k arbitrary: acc out r)
  case (Suc k)
  obtain x r1 where x: "RandInt G m r = (x, r1)" by fastforce
  with Suc.prems have "share_loop G m k (acc + x) (out @ [x]) r1 = (out', acc', r')" by simp
  from Suc.IH [OF this] show ?case by simp
qed simp

lemma Share_Some:
  assumes "Share G m n s r = Some (out, r')"
  shows "length out = n" and "sum_list out mod m = s mod m"
proof -
  from assms obtain ys acc where ys: "share_loop G m (n - 1) 0 [] r = (ys, acc, r')"
    and out: "out = ys @ [(s - acc) mod m]" and n: "n \<noteq> 0"
    by (auto simp: Share_def split: if_splits prod.splits)
  from share_loop_spec [OF ys] have len: "length ys = n - 1" and acc: "acc = sum_list ys"
    by simp_all
  from len out n show "length out = n" by simp
  show "sum_list out mod m = s mod m"
    by (simp add: out acc mod_simps)
qed

lemma Share_total: "0 < n \<Longrightarrow> \<exists>out r'. Share G m n s r = Some (out, r')"
  by (auto simp: Share_def split: prod.splits)

section \<open>The interpolation polynomial\<close>

lemma two_inv_odd:
  assumes "odd m"
  shows "\<exists>k. 2 * two_inv m = 1 + k * m"
proof -
  from assms obtain j where j: "m = 2 * j + 1" by (elim oddE)
  have "two_inv m = (j + 1) mod m" by (simp add: two_inv_def j add.commute)
  also have "\<dots> = (j + 1) - m * ((j + 1) div m)" by (simp add: minus_mult_div_eq_mod)
  finally have "2 * two_inv m = 1 + (1 - 2 * ((j + 1) div m)) * m"
    by (simp add: j algebra_simps)
  then show ?thesis by blast
qed

text \<open>The unreduced value that \<^const>\<open>deg2Interp\<close> reduces, up to a multiple of the modulus.\<close>

definition lagrange2 :: "int \<Rightarrow> int \<Rightarrow> int \<Rightarrow> int \<Rightarrow> int \<Rightarrow> int" where
  "lagrange2 t r h0 h1 h2 =
     t * (r - 1) * (r - 2) * h0 - r * (r - 2) * h1 + t * r * (r - 1) * h2"

lemma deg2Interp_lagrange: "deg2Interp m r h0 h1 h2 = lagrange2 (two_inv m) r h0 h1 h2 mod m"
proof -
  have "two_inv m * (r - 1) * (r - 2) * h0 + (m - r * (r - 2) * h1) + two_inv m * r * (r - 1) * h2
        = lagrange2 (two_inv m) r h0 h1 h2 + m"
    by (simp add: lagrange2_def)
  then show ?thesis unfolding deg2Interp_def Let_def by (simp only: mod_add_self2)
qed

lemma lagrange2_sum:
  "(\<Sum>i\<in>A. lagrange2 t r (x i) (y i) (z i))
     = lagrange2 t r (\<Sum>i\<in>A. x i) (\<Sum>i\<in>A. y i) (\<Sum>i\<in>A. z i)"
  by (simp add: lagrange2_def sum.distrib sum_subtractf sum_distrib_left)

lemma lagrange2_cong:
  assumes "h0 mod m = h0' mod m" "h1 mod m = h1' mod m" "h2 mod m = h2' mod m"
  shows "lagrange2 t r h0 h1 h2 mod m = lagrange2 t r h0' h1' h2' mod (m::int)"
  unfolding lagrange2_def by (intro mod_add_cong mod_diff_cong mod_mult_cong refl assms)

text \<open>Interpolating the values of a product of two lines at 0, 1, 2 gives the product back.\<close>

lemma lagrange2_product:
  assumes "2 * t = 1 + k * m"
  shows "lagrange2 t r (f0 * g0) (a * b) ((2 * a - f0) * (2 * b - g0)) mod m
           = (((a - f0) * r + f0) * ((b - g0) * r + g0)) mod (m::int)"
proof -
  define X where "X = (r - 1) * (r - 1) * (f0 * g0)
    + r * (r - 1) * (f0 * (b - g0) + g0 * (a - f0) + 2 * (a - f0) * (b - g0))"
  have "lagrange2 t r (f0 * g0) (a * b) ((2 * a - f0) * (2 * b - g0))
        = 2 * t * X - r * (r - 2) * (a * b)"
    by (simp add: lagrange2_def X_def algebra_simps)
  also have "\<dots> = (X - r * (r - 2) * (a * b)) + m * (k * X)"
    by (simp only: assms) (simp add: algebra_simps)
  also have "X - r * (r - 2) * (a * b) = ((a - f0) * r + f0) * ((b - g0) * r + g0)"
    by (simp add: X_def algebra_simps)
  finally show ?thesis by simp
qed

section \<open>What \<^const>\<open>Decide\<close> tests\<close>

abbreviation answers ::
  "int \<Rightarrow> int \<Rightarrow> nat \<Rightarrow> ProofShare list \<Rightarrow> int list \<Rightarrow> int list \<Rightarrow> int list \<Rightarrow> AnsShare list" where
  "answers m r n pfs aS bS cS \<equiv> map (\<lambda>i. Query m r (pfs ! i) (aS ! i) (bS ! i) (cS ! i)) [0..<n]"

definition line :: "int \<Rightarrow> int \<Rightarrow> int \<Rightarrow> int" where
  "line f0 a r = (a - f0) * r + f0"

lemma line_sum: "(\<Sum>i\<in>A. line (x i) (y i) r) = line (\<Sum>i\<in>A. x i) (\<Sum>i\<in>A. y i) r"
  by (simp add: line_def sum.distrib left_diff_distrib sum_subtractf sum_distrib_right)

lemma sum_list_upt: "(\<Sum>i\<leftarrow>[0..<n]. f i) = (\<Sum>i<n. f i)"
  by (simp add: interv_sum_list_conv_sum_set_nat lessThan_atLeast0)

lemma Decide_answers:
  "Decide m (answers m r n pfs aS bS cS) \<longleftrightarrow>
     (line (\<Sum>i<n. F_0 (pfs ! i)) (\<Sum>i<n. aS ! i) r
        * line (\<Sum>i<n. G_0 (pfs ! i)) (\<Sum>i<n. bS ! i) r) mod m
     = lagrange2 (two_inv m) r (\<Sum>i<n. H_0 (pfs ! i)) (\<Sum>i<n. cS ! i) (\<Sum>i<n. H_2 (pfs ! i)) mod m"
  by (simp add: Decide_def Query_def deg2Interp_lagrange o_def sum_list_upt mod_sum_eq
      mod_mult_eq flip: line_def line_sum lagrange2_sum)

section \<open>Completeness and soundness\<close>

lemma nth_sum_list: "(\<Sum>i<length xs. xs ! i) = sum_list xs"
  by (simp add: sum_list_sum_nth lessThan_atLeast0)

lemma Prove_Some:
  assumes "Prove G m n a b c r = Some (pfs, r')"
  obtains f0 g0 where "length pfs = n"
    "(\<Sum>i<n. F_0 (pfs ! i)) mod m = f0 mod m"
    "(\<Sum>i<n. G_0 (pfs ! i)) mod m = g0 mod m"
    "(\<Sum>i<n. H_0 (pfs ! i)) mod m = (f0 * g0) mod m"
    "(\<Sum>i<n. H_2 (pfs ! i)) mod m = ((2 * a - f0) * (2 * b - g0)) mod m"
proof -
  obtain f0 r1 where 1: "RandInt G m r = (f0, r1)" by fastforce
  obtain g0 r2 where 2: "RandInt G m r1 = (g0, r2)" by fastforce
  define h2 where "h2 = (((a - f0) * 2 + f0) mod m) * (((b - g0) * 2 + g0) mod m) mod m"
  from assms obtain fs gs hs ks r3 r4 r5 where
    fs: "Share G m n f0 r2 = Some (fs, r3)" and gs: "Share G m n g0 r3 = Some (gs, r4)" and
    hs: "Share G m n (f0 * g0 mod m) r4 = Some (hs, r5)" and ks: "Share G m n h2 r5 = Some (ks, r')" and
    pfs: "pfs = map (\<lambda>i. \<lparr>F_0 = fs ! i, G_0 = gs ! i, H_0 = hs ! i, H_2 = ks ! i\<rparr>) [0..<n]"
    by (auto simp: Prove_def 1 2 h2_def bind_eq_Some_conv split: prod.splits)
  note S = Share_Some [OF fs] Share_Some [OF gs] Share_Some [OF hs] Share_Some [OF ks]
  have h2: "h2 mod m = ((2 * a - f0) * (2 * b - g0)) mod m"
    unfolding h2_def by (simp add: mod_mult_eq algebra_simps)
  show ?thesis
  proof (rule that)
    show "length pfs = n" by (simp add: pfs)
    show "(\<Sum>i<n. F_0 (pfs ! i)) mod m = f0 mod m" using S nth_sum_list [of fs] by (simp add: pfs)
    show "(\<Sum>i<n. G_0 (pfs ! i)) mod m = g0 mod m" using S nth_sum_list [of gs] by (simp add: pfs)
    show "(\<Sum>i<n. H_0 (pfs ! i)) mod m = (f0 * g0) mod m"
      using S nth_sum_list [of hs] by (simp add: pfs)
    show "(\<Sum>i<n. H_2 (pfs ! i)) mod m = ((2 * a - f0) * (2 * b - g0)) mod m"
      using S nth_sum_list [of ks] h2 by (simp add: pfs)
  qed
qed

lemma Prove_total: "0 < n \<Longrightarrow> \<exists>pfs r'. Prove G m n a b c r = Some (pfs, r')"
proof -
  assume n: "0 < n"
  obtain f0 r1 where 1: "RandInt G m r = (f0, r1)" by fastforce
  obtain g0 r2 where 2: "RandInt G m r1 = (g0, r2)" by fastforce
  obtain fs r3 where 3: "Share G m n f0 r2 = Some (fs, r3)"
    using Share_total [OF n, of G m f0 r2] by blast
  obtain gs r4 where 4: "Share G m n g0 r3 = Some (gs, r4)"
    using Share_total [OF n, of G m g0 r3] by blast
  obtain hs r5 where 5: "Share G m n (f0 * g0 mod m) r4 = Some (hs, r5)"
    using Share_total [OF n, of G m _ r4] by blast
  obtain ks r6 where 6: "Share G m n ((a * 2 - f0) mod m * ((b * 2 - g0) mod m) mod m) r5
      = Some (ks, r6)" using Share_total [OF n, of G m _ r5] by blast
  show ?thesis by (simp add: Prove_def 1 2 3 4 5 6)
qed

lemma line_cong:
  assumes "x mod m = x' mod m" "y mod m = y' mod (m::int)"
  shows "line x y r mod m = line x' y' r mod m"
  unfolding line_def by (intro mod_add_cong mod_diff_cong mod_mult_cong refl assms)

lemma mulproof_complete:
  assumes odd: "odd m"
    and pf: "Prove G m n a b c rnd = Some (pfs, rnd')"
    and a: "(\<Sum>i<n. aS ! i) mod m = a mod m"
    and b: "(\<Sum>i<n. bS ! i) mod m = b mod m"
    and c: "(\<Sum>i<n. cS ! i) mod m = (a * b) mod m"
  shows "Decide m (answers m r n pfs aS bS cS)"
proof -
  obtain f0 g0 where len: "length pfs = n"
    and F: "(\<Sum>i<n. F_0 (pfs ! i)) mod m = f0 mod m"
    and G: "(\<Sum>i<n. G_0 (pfs ! i)) mod m = g0 mod m"
    and H: "(\<Sum>i<n. H_0 (pfs ! i)) mod m = (f0 * g0) mod m"
    and K: "(\<Sum>i<n. H_2 (pfs ! i)) mod m = ((2 * a - f0) * (2 * b - g0)) mod m"
    by (rule Prove_Some [OF pf])
  obtain k where k: "2 * two_inv m = 1 + k * m" using two_inv_odd [OF odd] by blast
  have "(line (\<Sum>i<n. F_0 (pfs ! i)) (\<Sum>i<n. aS ! i) r
          * line (\<Sum>i<n. G_0 (pfs ! i)) (\<Sum>i<n. bS ! i) r) mod m
        = (line f0 a r * line g0 b r) mod m"
    by (intro mod_mult_cong line_cong F G a b)
  moreover have "lagrange2 (two_inv m) r (\<Sum>i<n. H_0 (pfs ! i)) (\<Sum>i<n. cS ! i) (\<Sum>i<n. H_2 (pfs ! i)) mod m
        = (line f0 a r * line g0 b r) mod m"
    unfolding lagrange2_cong [OF H c K] line_def by (rule lagrange2_product [OF k])
  ultimately show ?thesis by (simp only: Decide_answers)
qed

text \<open>
  A polynomial of degree two that vanishes modulo \<open>m\<close> at three points with invertible
  differences has all its coefficients divisible by \<open>m\<close>.
\<close>

lemma three_roots:
  assumes r: "\<And>x. x \<in> {x1, x2, x3} \<Longrightarrow> m dvd D0 + D1 * x + D2 * (x * x)"
    and c12: "coprime (x1 - x2) m" and c13: "coprime (x1 - x3) m" and c23: "coprime (x2 - x3) (m::int)"
  shows "m dvd D2" and "m dvd D1" and "m dvd D0"
proof -
  have e: "m dvd D1 + D2 * (x1 + y)" if y: "y \<in> {x2, x3}" for y
  proof -
    have "m dvd (D0 + D1 * x1 + D2 * (x1 * x1)) - (D0 + D1 * y + D2 * (y * y))"
      using y by (intro dvd_diff r) auto
    also have "(D0 + D1 * x1 + D2 * (x1 * x1)) - (D0 + D1 * y + D2 * (y * y))
        = (x1 - y) * (D1 + D2 * (x1 + y))"
      by (simp add: algebra_simps)
    finally show ?thesis using y c12 c13
      by (auto simp: coprime_dvd_mult_right_iff coprime_commute)
  qed
  have "m dvd (D1 + D2 * (x1 + x2)) - (D1 + D2 * (x1 + x3))"
    by (intro dvd_diff e) auto
  also have "(D1 + D2 * (x1 + x2)) - (D1 + D2 * (x1 + x3)) = (x2 - x3) * D2"
    by (simp add: algebra_simps)
  finally show D2: "m dvd D2"
    using c23 by (auto simp: coprime_dvd_mult_right_iff coprime_commute)
  have "m dvd (D1 + D2 * (x1 + x2)) - D2 * (x1 + x2)" using D2 e by (intro dvd_diff) auto
  then show D1: "m dvd D1" by simp
  have "m dvd D1 * x1 + D2 * (x1 * x1)" by (intro dvd_add dvd_mult2 D1 D2)
  from dvd_diff [OF r [of x1] this] show "m dvd D0" by simp
qed

text \<open>The difference \<open>f \<cdot> g - h\<close> as a polynomial in the challenge point.\<close>

lemma line_lagrange_poly:
  "line f0 a r * line g0 b r - lagrange2 t r h0 h1 h2
     = (f0 * g0 - 2 * t * h0)
       + (f0 * (b - g0) + g0 * (a - f0) + 3 * t * h0 - 2 * h1 + t * h2) * r
       + ((a - f0) * (b - g0) - t * h0 + h1 - t * h2) * (r * r)"
  by (simp add: line_def lagrange2_def algebra_simps)

lemma mulproof_sound:
  assumes acc: "\<And>r. r \<in> {r1, r2, r3} \<Longrightarrow> Decide m (answers m r n pfs aS bS cS)"
    and c12: "coprime (r1 - r2) m" and c13: "coprime (r1 - r3) m" and c23: "coprime (r2 - r3) m"
  shows "((\<Sum>i<n. aS ! i) * (\<Sum>i<n. bS ! i)) mod m = (\<Sum>i<n. cS ! i) mod m"
proof -
  define f0 g0 a b where "f0 = (\<Sum>i<n. F_0 (pfs ! i))" and "g0 = (\<Sum>i<n. G_0 (pfs ! i))"
    and "a = (\<Sum>i<n. aS ! i)" and "b = (\<Sum>i<n. bS ! i)"
  define h0 h1 h2 t where "h0 = (\<Sum>i<n. H_0 (pfs ! i))" and "h1 = (\<Sum>i<n. cS ! i)"
    and "h2 = (\<Sum>i<n. H_2 (pfs ! i))" and "t = two_inv m"
  define D0 D1 D2 where "D0 = f0 * g0 - 2 * t * h0"
    and "D1 = f0 * (b - g0) + g0 * (a - f0) + 3 * t * h0 - 2 * h1 + t * h2"
    and "D2 = (a - f0) * (b - g0) - t * h0 + h1 - t * h2"
  have root: "m dvd D0 + D1 * r + D2 * (r * r)" if "r \<in> {r1, r2, r3}" for r
  proof -
    from acc [OF that] have "m dvd line f0 a r * line g0 b r - lagrange2 t r h0 h1 h2"
      by (simp add: Decide_answers f0_def g0_def a_def b_def h0_def h1_def h2_def t_def
          mod_eq_dvd_iff)
    then show ?thesis by (simp only: line_lagrange_poly D0_def D1_def D2_def)
  qed
  note D = three_roots [OF root c12 c13 c23]
  have "m dvd D0 + D1 + D2" using D by (intro dvd_add)
  also have "D0 + D1 + D2 = a * b - h1"
    by (simp add: D0_def D1_def D2_def algebra_simps)
  finally show ?thesis by (simp add: mod_eq_dvd_iff a_def b_def h1_def)
qed

section \<open>Properties\<close>

text \<open>\<^verbatim>\<open>prg.Share\<close> with at least one share succeeds, returns exactly that many shares, and
  the shares add up to the secret modulo the modulus, whatever the random source returns.\<close>

theorem Share_correct:
  assumes "0 < nShares"
  shows "\<exists>out r'. Share G m nShares secret r = Some (out, r') \<and> length out = nShares
           \<and> sum_list out mod m = secret mod m"
  using Share_total [OF assms, of G m secret r] Share_Some by metis

theorem Share_correct_witness:
  "0 < (2::nat) \<and> (\<exists>out r'. Share counter_rng 11 2 7 5 = Some (out, r') \<and> length out = 2
     \<and> sum_list out mod 11 = (7::int) mod 11)"
  using Share_correct [of 2 counter_rng 11 7 5] by simp

text \<open>Completeness of \<^verbatim>\<open>mulproof\<close>: for an odd modulus, when the servers' shares of \<open>a\<close>, \<open>b\<close>
  and \<open>c\<close> add up to the prover's values and \<open>c\<close> is the product, the proof that \<^verbatim>\<open>Prove\<close> returns is
  accepted by \<^verbatim>\<open>Decide\<close> at every challenge point, for every number of servers.\<close>

theorem mulproof_completeness:
  assumes "odd m"
    and "Prove G m n a b c rnd = Some (pfs, rnd')"
    and "(\<Sum>i<n. aS ! i) mod m = a mod m"
    and "(\<Sum>i<n. bS ! i) mod m = b mod m"
    and "(\<Sum>i<n. cS ! i) mod m = c mod m"
    and "c mod m = (a * b) mod m"
  shows "Decide m (map (\<lambda>i. Query m r (pfs ! i) (aS ! i) (bS ! i) (cS ! i)) [0..<n])"
  using assms by (intro mulproof_complete) auto

theorem mulproof_completeness_witness:
  "\<exists>pfs r'. Prove counter_rng 11 2 3 4 1 0 = Some (pfs, r') \<and>
     Decide 11 (map (\<lambda>i. Query 11 6 (pfs ! i) ([1, 2] ! i) ([9, 6] ! i) ([5, 7] ! i)) [0..<2])"
proof -
  obtain pfs r' where p: "Prove counter_rng 11 2 3 4 1 0 = Some (pfs, r')"
    using Prove_total [of 2 counter_rng 11 3 4 1 0] by auto
  show ?thesis
    using p mulproof_completeness [OF _ p, of "[1, 2]" "[9, 6]" "[5, 7]" 6]
    by (simp add: lessThan_nat_numeral lessThan_Suc)
qed

text \<open>C4: Soundness of \<^verbatim>\<open>mulproof\<close>: whatever proof shares a (possibly malicious) client sends, if
  \<^verbatim>\<open>Decide\<close> accepts at three challenge points whose pairwise differences are invertible modulo the
  modulus, then the shared \<open>c\<close> is the product of the shared \<open>a\<close> and \<open>b\<close>. So over a prime modulus
  at most two of all challenge points let a wrong product through.\<close>

theorem mulproof_soundness:
  assumes "Decide m (map (\<lambda>i. Query m r1 (pfs ! i) (aS ! i) (bS ! i) (cS ! i)) [0..<n])"
    and "Decide m (map (\<lambda>i. Query m r2 (pfs ! i) (aS ! i) (bS ! i) (cS ! i)) [0..<n])"
    and "Decide m (map (\<lambda>i. Query m r3 (pfs ! i) (aS ! i) (bS ! i) (cS ! i)) [0..<n])"
    and "coprime (r1 - r2) m" and "coprime (r1 - r3) m" and "coprime (r2 - r3) m"
  shows "((\<Sum>i<n. aS ! i) * (\<Sum>i<n. bS ! i)) mod m = (\<Sum>i<n. cS ! i) mod m"
  using assms by (intro mulproof_sound [of r1 r2 r3]) auto

theorem mulproof_soundness_witness:
  "(sum (\<lambda>i. [1, 2] ! i) {..<2} * sum (\<lambda>i. [1, 3] ! i) {..<2}) mod 11
     = (sum (\<lambda>i. [5, 7] ! i) {..<2}) mod (11::int)"
proof (rule mulproof_soundness [where ?r1.0 = 0 and ?r2.0 = 1 and ?r3.0 = 2 and
      pfs = "[\<lparr>F_0 = 0, G_0 = 0, H_0 = 0, H_2 = 1\<rparr>, \<lparr>F_0 = 0, G_0 = 0, H_0 = 0, H_2 = 3\<rparr>]"])
qed (simp_all add: Decide_def Query_def deg2Interp_def two_inv_def upt_rec)

end
