(* ===== verification/Slot_Rows.thy ===== *)
theory Slot_Rows
  imports Field_Sharing
begin

text \<open>
  Rows and slots of the table, and the sketch values of the write proof
  (\<^verbatim>\<open>src/db/slot.go\<close>, \<^verbatim>\<open>src/db/proof.go\<close>, \<^verbatim>\<open>src/prf/prf.go\<close>, the sizes of \<^verbatim>\<open>src/db/types.go\<close>).

  AES and Poly1305 are outside the repository: \<open>crypto\<close> holds them as parameters, with the
  length of their outputs as the only contract (\<open>crypto_ok\<close>). A row is a byte list of
  \<open>ROW_LENGTH\<close> bytes, a matrix a list of \<open>TABLE_HEIGHT\<close> rows.

  Shown here: the word-wise XOR of \<^verbatim>\<open>xorEq\<close>, which reinterprets the byte arrays as 64-bit
  words, is the byte-wise XOR; and the closed form of the sketch a server adds up per row.
\<close>

section \<open>Sizes\<close>

definition TABLE_WIDTH :: nat where "TABLE_WIDTH = 256"
definition TABLE_HEIGHT :: nat where "TABLE_HEIGHT = 65536 div TABLE_WIDTH"
definition SLOT_LENGTH :: nat where "SLOT_LENGTH = 160"
definition NUM_SERVERS :: nat where "NUM_SERVERS = 2"
definition WORKER_THREADS :: nat where "WORKER_THREADS = 16"
definition ROW_LENGTH :: nat where "ROW_LENGTH = TABLE_WIDTH * SLOT_LENGTH"

lemma TABLE_HEIGHT_eq: "TABLE_HEIGHT = 256"
  by (simp add: TABLE_HEIGHT_def TABLE_WIDTH_def)

text \<open>The modulus of \<^verbatim>\<open>types.go\<close>: the hexadecimal numeral 80000000000000000000080001.\<close>

definition IntModulus :: int where
  "IntModulus = 0x80000000000000000000080001"

lemma IntModulus_odd: "odd IntModulus"
  by (simp add: IntModulus_def)

lemma IntModulus_pos: "0 < IntModulus"
  by (simp add: IntModulus_def)

section \<open>Word-wise XOR\<close>

definition le_word64 :: "byte list \<Rightarrow> 64 word" where
  "le_word64 bs = foldr (\<lambda>b w. push_bit 8 w OR ucast b) bs 0"

definition le_bytes :: "64 word \<Rightarrow> byte list" where
  "le_bytes w = map (\<lambda>i. ucast (drop_bit (8 * i) w)) [0..<8]"

text \<open>\<^verbatim>\<open>touint64\<close> reinterprets the memory of \<open>len / 8 * 8\<close> bytes as little-endian words.\<close>

fun touint64 :: "byte list \<Rightarrow> 64 word list" where
  "touint64 (a # b # c # d # e # f # g # h # xs) = le_word64 [a, b, c, d, e, f, g, h] # touint64 xs"
| "touint64 _ = []"

text \<open>\<^verbatim>\<open>a[i] ^= b[i]\<close> for every index of \<open>a\<close>: a shorter \<open>b\<close> is an index panic.\<close>

definition xoreq64 :: "64 word list \<Rightarrow> 64 word list \<Rightarrow> 64 word list option" where
  "xoreq64 a b = (if length b < length a then None else Some (map2 (XOR) a b))"

text \<open>\<^verbatim>\<open>xorEq\<close> returns the bytes that \<open>a\<close> holds afterwards; \<open>None\<close> is the panic.\<close>

definition xorEq :: "byte list \<Rightarrow> byte list \<Rightarrow> byte list option" where
  "xorEq a b =
     (if length a \<noteq> length b \<or> length a mod 8 \<noteq> 0 then None
      else map_option (\<lambda>ws. concat (map le_bytes ws)) (xoreq64 (touint64 a) (touint64 b)))"

section \<open>The cryptographic primitives the code calls\<close>

text \<open>
  \<open>aes_ctr k n\<close>: the first \<open>n\<close> bytes of the AES-CTR key stream under a zero IV; \<open>aes_block k b\<close>:
  one AES block encryption; \<open>poly1305 k m\<close>: the authenticator.
\<close>

record crypto =
  aes_ctr :: "byte list \<Rightarrow> nat \<Rightarrow> byte list"
  aes_block :: "byte list \<Rightarrow> byte list \<Rightarrow> byte list"
  poly1305 :: "byte list \<Rightarrow> byte list \<Rightarrow> byte list"

definition crypto_ok :: "crypto \<Rightarrow> bool" where
  "crypto_ok C \<longleftrightarrow> (\<forall>k n. length (aes_ctr C k n) = n)"

text \<open>A concrete instance of the parameter: every output byte depends on the first key byte.\<close>

definition toy_crypto :: crypto where
  "toy_crypto = \<lparr>aes_ctr = (\<lambda>k n. replicate n (hd (k @ [0]))),
                 aes_block = (\<lambda>k b. xor_bytes k b),
                 poly1305 = (\<lambda>k m. take 16 m)\<rparr>"

lemma toy_crypto_ok: "crypto_ok toy_crypto"
  by (simp add: crypto_ok_def toy_crypto_def)

section \<open>\<^verbatim>\<open>prf\<close>\<close>

definition KEY_LENGTH :: nat where "KEY_LENGTH = 16"

definition NewKey :: "'r rng \<Rightarrow> 'r \<Rightarrow> byte list \<times> 'r" where
  "NewKey G r = RandBytes G KEY_LENGTH r"

text \<open>\<^verbatim>\<open>aes.NewCipher\<close> refuses keys that are not 16, 24 or 32 bytes long.\<close>

definition NewPrf :: "byte list \<Rightarrow> byte list res" where
  "NewPrf k = (if length k \<in> {16, 24, 32} then Inr k
               else Inl (ErrorString (''crypto/aes: invalid key size '' @ show_nat (length k))))"

definition Evaluate :: "crypto \<Rightarrow> byte list \<Rightarrow> byte list \<Rightarrow> byte list" where
  "Evaluate C k to_encrypt = xor_bytes to_encrypt (aes_ctr C k (length to_encrypt))"

section \<open>\<^verbatim>\<open>slot.go\<close>\<close>

record Plaintext =
  Message :: "byte list"
  X :: int
  Y :: int

definition zero_row :: "byte list" where "zero_row = replicate ROW_LENGTH 0"

text \<open>The slice expression panics when the offset is outside the row.\<close>

definition MessageToRow :: "Plaintext \<Rightarrow> byte list option" where
  "MessageToRow msg =
     (let start = wrap64 (int SLOT_LENGTH * X msg) in
      if start < 0 \<or> int ROW_LENGTH < start then None
      else let s = nat start; m = take (ROW_LENGTH - s) (Message msg)
           in Some (take s zero_row @ m @ drop (s + length m) zero_row))"

text \<open>
  The operands of \<^verbatim>\<open>XorRows\<close> are rows by their static type, so \<^verbatim>\<open>xorEq\<close> cannot panic there
  (\<open>xorEq_bytes\<close>).
\<close>

definition XorRows :: "byte list \<Rightarrow> byte list \<Rightarrow> byte list" where
  "XorRows dest add = (case xorEq dest add of Some d \<Rightarrow> d | None \<Rightarrow> dest)"

definition RandomSlot :: "'r rng \<Rightarrow> 'r \<Rightarrow> byte list \<times> 'r" where
  "RandomSlot G r = RandBytes G SLOT_LENGTH r"

definition HashSlot :: "crypto \<Rightarrow> byte list \<Rightarrow> byte list \<Rightarrow> byte list" where
  "HashSlot C hashKey slot = poly1305 C hashKey slot"

text \<open>\<^verbatim>\<open>big.Int.SetBytes\<close> reads big-endian.\<close>

definition be_int :: "byte list \<Rightarrow> int" where
  "be_int bs = foldl (\<lambda>a b. a * 256 + uint b) 0 bs"

definition SlotToInt :: "crypto \<Rightarrow> byte list \<Rightarrow> byte list \<Rightarrow> bool \<Rightarrow> int" where
  "SlotToInt C hashKey slot modReduce =
     (let out = be_int (HashSlot C hashKey slot) in if modReduce then out mod IntModulus else out)"

definition RandomMessage :: "'r rng \<Rightarrow> 'r \<Rightarrow> Plaintext \<times> 'r" where
  "RandomMessage G r =
     (let (x, r) = RandIntShort G (int TABLE_WIDTH) r;
          (y, r) = RandIntShort G (int TABLE_HEIGHT) r;
          (m, r) = RandomSlot G r
      in (\<lparr>Message = m, X = x, Y = y\<rparr>, r))"

section \<open>\<^verbatim>\<open>proof.go\<close>\<close>

text \<open>The only use of \<^verbatim>\<open>xyToInt\<close> converts its result to \<^verbatim>\<open>uint64\<close>, which takes it modulo \<open>2 ^ 64\<close>.\<close>

definition xyToInt :: "int \<Rightarrow> int \<Rightarrow> int" where
  "xyToInt xIdx yIdx = xIdx * int TABLE_HEIGHT + yIdx"

definition proofPrfEval :: "crypto \<Rightarrow> byte list \<Rightarrow> int \<Rightarrow> bool \<Rightarrow> int" where
  "proofPrfEval C aesKey idx modReduce =
     (let inp = le_bytes (word_of_int idx) @ replicate 8 0;
          out = be_int (aes_block C aesKey inp)
      in if modReduce then out mod IntModulus else out)"

definition updateTestValues :: "int \<Rightarrow> int \<Rightarrow> int \<Rightarrow> int \<Rightarrow> int \<times> int" where
  "updateTestValues z1 z2 m r =
     (let tmp = r * m; z1 = z1 + tmp; tmp = tmp * r; z2 = z2 + tmp in (z1, z2))"

definition slot_of :: "byte list \<Rightarrow> nat \<Rightarrow> byte list" where
  "slot_of row x = take SLOT_LENGTH (drop (x * SLOT_LENGTH) row)"

definition updateRowTestValues ::
  "crypto \<Rightarrow> byte list \<Rightarrow> int \<Rightarrow> bool \<Rightarrow> byte list \<Rightarrow> byte list \<Rightarrow> int \<times> int \<Rightarrow> int \<times> int" where
  "updateRowTestValues C row yIdx isServerB hashKey aesKey z =
     (let (z1, z2) = foldl (\<lambda>(z1, z2) x.
            let msg = SlotToInt C hashKey (slot_of row x) False;
                msg = (if isServerB then IntModulus - msg else msg);
                r = proofPrfEval C aesKey (xyToInt (int x) yIdx) False
            in updateTestValues z1 z2 msg r) z [0..<TABLE_WIDTH]
      in (z1 mod IntModulus, z2 mod IntModulus))"

text \<open>The results are \<open>z1\<close>, \<open>z2\<close>, \<open>t1\<close>, \<open>t2\<close>; the caller passes zero for the first two.\<close>

definition getTestValues ::
  "crypto \<Rightarrow> byte list \<Rightarrow> byte list \<Rightarrow> Plaintext \<Rightarrow> int \<Rightarrow> int \<Rightarrow> int \<Rightarrow> int \<times> int \<times> int \<times> int" where
  "getTestValues C challenge hashKey plain msgInt z1 z2 =
     (let idx = xyToInt (X plain) (Y plain);
          r = proofPrfEval C challenge idx False;
          (z1, z2) = updateTestValues z1 z2 msgInt r;
          z1 = z1 mod IntModulus;
          z2 = z2 mod IntModulus;
          t1 = (z1 * z1) mod IntModulus;
          t2 = (z2 * msgInt) mod IntModulus
      in (z1, z2, t1, t2))"

section \<open>Word-wise XOR is byte-wise XOR\<close>

lemma length_le_bytes [simp]: "length (le_bytes w) = 8"
  by (simp add: le_bytes_def)

lemma bit_le_bytes: "i < 8 \<Longrightarrow> j < 8 \<Longrightarrow> bit (le_bytes w ! i) j \<longleftrightarrow> bit w (8 * i + j)"
  by (simp add: le_bytes_def bit_simps)

lemma bit_le_word64:
  "n < 64 \<Longrightarrow> bit (le_word64 bs) n \<longleftrightarrow> n div 8 < length bs \<and> bit (bs ! (n div 8)) (n mod 8)"
proof (induction bs arbitrary: n)
  case Nil
  then show ?case by (simp add: le_word64_def)
next
  case (Cons b bs)
  have step: "le_word64 (b # bs) = push_bit 8 (le_word64 bs) OR ucast b"
    by (simp add: le_word64_def)
  show ?case
  proof (cases "n < 8")
    case True
    then show ?thesis by (simp add: step bit_simps)
  next
    case False
    then obtain m where n: "n = 8 + m" using le_Suc_ex not_less by blast
    have "\<not> bit b n" using False by (simp add: bit_imp_le_length not_less impossible_bit)
    moreover have "n div 8 = Suc (m div 8)" "n mod 8 = m mod 8" by (simp_all add: n)
    ultimately show ?thesis using Cons.IH [of m] Cons.prems by (simp add: step n bit_simps)
  qed
qed

lemma le_bytes_xor: "le_bytes (v XOR w) = xor_bytes (le_bytes v) (le_bytes w)"
proof (rule nth_equalityI)
  fix i assume "i < length (le_bytes (v XOR w))"
  then have i: "i < 8" by simp
  have "bit (le_bytes (v XOR w) ! i) j = bit (le_bytes v ! i XOR le_bytes w ! i) j" if "j < 8" for j
    using i that by (simp add: bit_le_bytes bit_xor_iff)
  then have "le_bytes (v XOR w) ! i = le_bytes v ! i XOR le_bytes w ! i"
    by (intro bit_word_eqI) simp
  with i show "le_bytes (v XOR w) ! i = xor_bytes (le_bytes v) (le_bytes w) ! i" by simp
qed simp

lemma le_bytes_le_word64: "length bs = 8 \<Longrightarrow> le_bytes (le_word64 bs) = bs"
proof (rule nth_equalityI)
  fix i assume bs: "length bs = 8" and "i < length (le_bytes (le_word64 bs))"
  then have i: "i < 8" by simp
  have "bit (le_bytes (le_word64 bs) ! i) j = bit (bs ! i) j" if "j < 8" for j
    using i that bs by (simp add: bit_le_bytes bit_le_word64)
  then show "le_bytes (le_word64 bs) ! i = bs ! i" by (intro bit_word_eqI) simp
qed simp

lemma xor_bytes_append:
  "length a = length c \<Longrightarrow> xor_bytes (a @ b) (c @ d) = xor_bytes a c @ xor_bytes b d"
  by (simp add: xor_bytes_def)

lemma split8: "length xs = 8 * Suc k \<Longrightarrow> \<exists>a b c d e f g h ys. xs = a # b # c # d # e # f # g # h # ys \<and> length ys = 8 * k"
  by (auto simp: numeral_eq_Suc length_Suc_conv)

lemma touint64_xor:
  assumes "length a = 8 * k" "length b = 8 * k"
  shows "length (touint64 a) = k \<and> length (touint64 b) = k \<and>
    concat (map le_bytes (map2 (XOR) (touint64 a) (touint64 b))) = xor_bytes a b"
  using assms
proof (induction k arbitrary: a b)
  case 0
  then show ?case by (simp add: xor_bytes_def)
next
  case (Suc k)
  obtain p q r s t u v w xs where a: "a = [p, q, r, s, t, u, v, w] @ xs" "length xs = 8 * k"
    using split8 [OF Suc.prems(1)] by auto
  obtain p' q' r' s' t' u' v' w' ys where b: "b = [p', q', r', s', t', u', v', w'] @ ys" "length ys = 8 * k"
    using split8 [OF Suc.prems(2)] by auto
  have "le_bytes (le_word64 [p, q, r, s, t, u, v, w] XOR le_word64 [p', q', r', s', t', u', v', w'])
    = xor_bytes [p, q, r, s, t, u, v, w] [p', q', r', s', t', u', v', w']"
    by (simp add: le_bytes_xor le_bytes_le_word64)
  then have "concat (map le_bytes (map2 (XOR) (touint64 a) (touint64 b)))
    = xor_bytes [p, q, r, s, t, u, v, w] [p', q', r', s', t', u', v', w'] @ xor_bytes xs ys"
    using Suc.IH [OF a(2) b(2)] a b by simp
  also have "\<dots> = xor_bytes a b" unfolding a(1) b(1) by (rule xor_bytes_append [symmetric]) simp
  finally show ?case using Suc.IH [OF a(2) b(2)] a b by simp
qed

lemma xorEq_bytes:
  assumes "length a = length b" "8 dvd length a"
  shows "xorEq a b = Some (xor_bytes a b)"
proof -
  from assms(2) obtain k where "length a = 8 * k" by (elim dvdE)
  with touint64_xor [of a k b] assms show ?thesis by (simp add: xorEq_def xoreq64_def)
qed

section \<open>Rows\<close>

lemma length_zero_row [simp]: "length zero_row = ROW_LENGTH"
  by (simp add: zero_row_def)

lemma ROW_LENGTH_dvd [simp]: "8 dvd ROW_LENGTH" and SLOT_LENGTH_dvd [simp]: "8 dvd SLOT_LENGTH"
  by (simp_all add: ROW_LENGTH_def TABLE_WIDTH_def SLOT_LENGTH_def)

lemma XorRows_bytes [simp]:
  "length a = ROW_LENGTH \<Longrightarrow> length b = ROW_LENGTH \<Longrightarrow> XorRows a b = xor_bytes a b"
  by (simp add: XorRows_def xorEq_bytes)

lemma slot_of_xor: "slot_of (xor_bytes a b) x = xor_bytes (slot_of a x) (slot_of b x)"
  by (simp add: slot_of_def take_xor_bytes drop_xor_bytes)

lemma length_slot_of [simp]:
  assumes "length row = ROW_LENGTH" "x < TABLE_WIDTH"
  shows "length (slot_of row x) = SLOT_LENGTH"
proof -
  have "Suc x * SLOT_LENGTH \<le> TABLE_WIDTH * SLOT_LENGTH" using assms(2) by (intro mult_le_mono1) simp
  then show ?thesis using assms(1) by (simp add: slot_of_def ROW_LENGTH_def)
qed

lemma slot_of_zero_row [simp]: "x < TABLE_WIDTH \<Longrightarrow> slot_of zero_row x = replicate SLOT_LENGTH 0"
  using length_slot_of [of zero_row x] by (simp add: slot_of_def zero_row_def)

abbreviation plaintext_ok :: "Plaintext \<Rightarrow> bool" where
  "plaintext_ok msg \<equiv> length (Message msg) = SLOT_LENGTH \<and> 0 \<le> X msg \<and> X msg < int TABLE_WIDTH
     \<and> 0 \<le> Y msg \<and> Y msg < int TABLE_HEIGHT"

lemma slot_end_le: "x < TABLE_WIDTH \<Longrightarrow> x * SLOT_LENGTH + SLOT_LENGTH \<le> ROW_LENGTH"
  using mult_le_mono1 [of "Suc x" TABLE_WIDTH SLOT_LENGTH] by (simp add: ROW_LENGTH_def)

lemma MessageToRow_ok:
  assumes "plaintext_ok msg"
  defines "x \<equiv> nat (X msg)"
  shows "MessageToRow msg = Some (take (x * SLOT_LENGTH) zero_row @ Message msg
           @ drop (x * SLOT_LENGTH + SLOT_LENGTH) zero_row)"
proof -
  have x: "x < TABLE_WIDTH" "X msg = int x" using assms by auto
  from slot_end_le [OF x(1)] have le: "x * SLOT_LENGTH + SLOT_LENGTH \<le> ROW_LENGTH" .
  have small: "ROW_LENGTH \<le> 2 ^ 40" by (simp add: ROW_LENGTH_def TABLE_WIDTH_def SLOT_LENGTH_def)
  have "SLOT_LENGTH * x \<le> 2 ^ 40" using le small mult.commute [of SLOT_LENGTH x] by linarith
  then have "int (SLOT_LENGTH * x) \<le> int (2 ^ 40)" by (simp only: of_nat_le_iff)
  then have "wrap64 (int (SLOT_LENGTH * x)) = int (SLOT_LENGTH * x)"
    by (intro wrap64_small) (auto simp: max_int64_def)
  then have w: "wrap64 (int SLOT_LENGTH * X msg) = int (x * SLOT_LENGTH)"
    by (simp add: x(2) mult.commute)
  show ?thesis unfolding MessageToRow_def w Let_def nat_int
    using assms(1) le by (simp del: of_nat_mult)
qed

lemma MessageToRow_length: "MessageToRow msg = Some row \<Longrightarrow> length row = ROW_LENGTH"
  by (auto simp: MessageToRow_def Let_def split: if_splits)

lemma slot_of_MessageToRow:
  assumes ok: "plaintext_ok msg" and row: "MessageToRow msg = Some row" and x: "x < TABLE_WIDTH"
  shows "slot_of row x = (if x = nat (X msg) then Message msg else replicate SLOT_LENGTH 0)"
proof (rule nth_equalityI)
  have rl: "length row = ROW_LENGTH" using MessageToRow_length [OF row] .
  define xm where "xm = nat (X msg)"
  have xm: "xm < TABLE_WIDTH" using ok by (auto simp: xm_def)
  from slot_end_le [OF xm] have le: "xm * SLOT_LENGTH + SLOT_LENGTH \<le> ROW_LENGTH" .
  from slot_end_le [OF x] have lex: "x * SLOT_LENGTH + SLOT_LENGTH \<le> ROW_LENGTH" .
  have row': "row = take (xm * SLOT_LENGTH) zero_row @ Message msg
           @ drop (xm * SLOT_LENGTH + SLOT_LENGTH) zero_row"
    using MessageToRow_ok [OF ok] row by (simp add: xm_def)
  show "length (slot_of row x) = length (if x = nat (X msg) then Message msg else replicate SLOT_LENGTH 0)"
    using ok rl x by simp
  fix i assume "i < length (slot_of row x)"
  then have i: "i < SLOT_LENGTH" using rl x by simp
  have nth: "slot_of row x ! i = row ! (x * SLOT_LENGTH + i)"
    using rl lex i by (simp add: slot_of_def)
  consider "x = xm" | "x < xm" | "xm < x" by linarith
  then show "slot_of row x ! i = (if x = nat (X msg) then Message msg else replicate SLOT_LENGTH 0) ! i"
  proof cases
    case 1
    then show ?thesis using nth le i ok by (simp add: row' nth_append xm_def [symmetric])
  next
    case 2
    then have "Suc x * SLOT_LENGTH \<le> xm * SLOT_LENGTH" by (intro mult_le_mono1) simp
    then show ?thesis using 2 nth le i ok
      by (simp add: row' nth_append xm_def [symmetric] zero_row_def)
  next
    case 3
    then have "Suc xm * SLOT_LENGTH \<le> x * SLOT_LENGTH" by (intro mult_le_mono1) simp
    then have "\<not> x * SLOT_LENGTH + i - xm * SLOT_LENGTH < SLOT_LENGTH"
      "\<not> x * SLOT_LENGTH + i < xm * SLOT_LENGTH" by simp_all
    then show ?thesis using 3 nth le lex i ok
      by (simp add: row' nth_append xm_def [symmetric] zero_row_def)
  qed
qed

section \<open>The sketch of a row\<close>

definition slot_val :: "crypto \<Rightarrow> byte list \<Rightarrow> byte list \<Rightarrow> int" where
  "slot_val C hashKey slot = SlotToInt C hashKey slot False"

definition chal :: "crypto \<Rightarrow> byte list \<Rightarrow> int \<Rightarrow> int \<Rightarrow> int" where
  "chal C aesKey x y = proofPrfEval C aesKey (xyToInt x y) False"

definition signed_val :: "crypto \<Rightarrow> byte list \<Rightarrow> bool \<Rightarrow> byte list \<Rightarrow> int" where
  "signed_val C hashKey isB slot =
     (if isB then IntModulus - slot_val C hashKey slot else slot_val C hashKey slot)"

lemma foldl_testvalues:
  "foldl (\<lambda>(z1, z2) x. updateTestValues z1 z2 (m x) (r x)) (a, b) xs
     = (a + (\<Sum>x\<leftarrow>xs. r x * m x), b + (\<Sum>x\<leftarrow>xs. r x * m x * r x))"
  by (induction xs arbitrary: a b) (simp_all add: updateTestValues_def Let_def)

text \<open>What a server adds to its two sketch values for one row.\<close>

definition row_sketch :: "crypto \<Rightarrow> byte list \<Rightarrow> byte list \<Rightarrow> bool \<Rightarrow> int \<Rightarrow> byte list \<Rightarrow> int \<times> int" where
  "row_sketch C hashKey aesKey isB y row =
     ((\<Sum>x<TABLE_WIDTH. chal C aesKey (int x) y * signed_val C hashKey isB (slot_of row x)),
      (\<Sum>x<TABLE_WIDTH. chal C aesKey (int x) y * signed_val C hashKey isB (slot_of row x)
                         * chal C aesKey (int x) y))"

lemma updateRowTestValues_closed:
  "updateRowTestValues C row y isB hashKey aesKey (z1, z2) =
     ((z1 + fst (row_sketch C hashKey aesKey isB y row)) mod IntModulus,
      (z2 + snd (row_sketch C hashKey aesKey isB y row)) mod IntModulus)"
proof -
  have f: "(\<lambda>(z1, z2) x. let msg = SlotToInt C hashKey (slot_of row x) False;
                msg = (if isB then IntModulus - msg else msg);
                r = proofPrfEval C aesKey (xyToInt (int x) y) False
            in updateTestValues z1 z2 msg r)
      = (\<lambda>(z1, z2) x. updateTestValues z1 z2 (signed_val C hashKey isB (slot_of row x))
            (chal C aesKey (int x) y))"
    by (simp add: fun_eq_iff Let_def signed_val_def slot_val_def chal_def)
  show ?thesis unfolding updateRowTestValues_def f foldl_testvalues
    by (simp add: row_sketch_def sum_list_upt)
qed

section \<open>Properties\<close>

text \<open>The word-wise \<^verbatim>\<open>xorEq\<close>, which reinterprets both byte slices as little-endian 64-bit words,
  computes the byte-wise XOR of its operands whenever their lengths are equal and a multiple of
  eight, and panics in every other case.\<close>

theorem xorEq_correct:
  "xorEq a b = (if length a = length b \<and> 8 dvd length a then Some (xor_bytes a b) else None)"
  using xorEq_bytes [of a b] by (auto simp: xorEq_def dvd_eq_mod_eq_0)

text \<open>\<^verbatim>\<open>MessageToRow\<close> of a message with a valid column builds a row whose slot at that column is
  the message and whose other slots are all zero.\<close>

theorem MessageToRow_slots:
  assumes "length (Message msg) = SLOT_LENGTH" "0 \<le> X msg" "X msg < int TABLE_WIDTH"
    "0 \<le> Y msg" "Y msg < int TABLE_HEIGHT"
  shows "\<exists>row. MessageToRow msg = Some row \<and> length row = ROW_LENGTH \<and>
    (\<forall>x. x < TABLE_WIDTH \<longrightarrow>
       slot_of row x = (if x = nat (X msg) then Message msg else replicate SLOT_LENGTH 0))"
  using MessageToRow_ok [of msg] slot_of_MessageToRow [of msg] MessageToRow_length [of msg] assms
  by blast

theorem MessageToRow_slots_witness:
  "\<exists>row. MessageToRow \<lparr>Message = replicate SLOT_LENGTH 7, X = 3, Y = 5\<rparr> = Some row \<and>
     length row = ROW_LENGTH \<and>
     (\<forall>x. x < TABLE_WIDTH \<longrightarrow> slot_of row x =
        (if x = nat 3 then replicate SLOT_LENGTH 7 else replicate SLOT_LENGTH 0))"
  using MessageToRow_slots [of "\<lparr>Message = replicate SLOT_LENGTH 7, X = 3, Y = 5\<rparr>"]
  by (simp add: TABLE_WIDTH_def TABLE_HEIGHT_def cong: if_cong split del: if_split)

end
