(* ===== verification/Slot_Table.thy ===== *)
theory Slot_Table
  imports Slot_Rows "HOL-Library.Multiset"
begin

text \<open>
  The slot table of a server (\<^verbatim>\<open>src/db/table.go\<close>, \<^verbatim>\<open>revealCleartext\<close> of \<^verbatim>\<open>src/db/server.go\<close>).

  A \<open>SlotTable\<close> has a main matrix, one matrix per worker thread, and the channel of worker
  matrices that are free (a queue of indices). \<open>expandRow\<close> expands one row of a query, adds its
  sketch, takes a free worker matrix, XORs the row into it and gives the matrix back. A receive
  on an empty channel blocks and a failed cipher panics; both are \<open>None\<close>.

  \<open>contents\<close> is the abstraction of a table: the XOR of all its matrices. Shown here: a query adds
  exactly its expansion to the contents, in whatever order and through whichever worker matrices
  the rows are written; a dump returns the contents; and a dump does not empty the worker
  matrices, so what it returned is still part of the contents afterwards.
\<close>

section \<open>Data\<close>

type_synonym matrix = "byte list list"

record InsertQuery1 =
  KeyIndex :: int
  Keys :: "byte list list"
  KeyMask :: "bool list"
  MessageMask :: "byte list"

record InsertQuery2 =
  MsgShare :: int

record InsertQuery3 =
  TShare1 :: int
  TShare2 :: int
  TProof1 :: ProofShare
  TProof2 :: ProofShare

record InsertQueryTuple =
  iq_hashKey :: "byte list"
  iq_challenge :: "byte list"
  q1 :: InsertQuery1
  q2 :: InsertQuery2
  q3 :: InsertQuery3

record SlotTable =
  "table" :: matrix
  freeTables :: "nat list"
  localTables :: "matrix list"

definition zero_matrix :: matrix where
  "zero_matrix = replicate TABLE_HEIGHT zero_row"

definition NewSlotTable :: SlotTable where
  "NewSlotTable = \<lparr>table = zero_matrix, freeTables = [0..<WORKER_THREADS],
                   localTables = replicate WORKER_THREADS zero_matrix\<rparr>"

section \<open>Operations\<close>

text \<open>The row of the query before it is written: PRF output, masked where the key bit is set.\<close>

definition rowData :: "crypto \<Rightarrow> InsertQuery1 \<Rightarrow> nat \<Rightarrow> byte list option" where
  "rowData C query row =
     (case NewPrf (Keys query ! row) of
        Inl _ \<Rightarrow> None
      | Inr row_prf \<Rightarrow>
          let d = Evaluate C row_prf zero_row
          in Some (if KeyMask query ! row then XorRows d (MessageMask query) else d))"

definition xor_local :: "nat \<Rightarrow> nat \<Rightarrow> byte list \<Rightarrow> SlotTable \<Rightarrow> SlotTable" where
  "xor_local tIdx row d t =
     t\<lparr>localTables := (localTables t)[tIdx :=
        (localTables t ! tIdx)[row := XorRows (localTables t ! tIdx ! row) d]]\<rparr>"

definition expandRow ::
  "crypto \<Rightarrow> InsertQuery1 \<Rightarrow> nat \<Rightarrow> bool \<Rightarrow> byte list \<Rightarrow> byte list \<Rightarrow> SlotTable \<times> int \<times> int
     \<Rightarrow> (SlotTable \<times> int \<times> int) option" where
  "expandRow C query row isServerB hashKey aesKey = (\<lambda>(t, z).
     case rowData C query row of
       None \<Rightarrow> None
     | Some d \<Rightarrow>
         let z = updateRowTestValues C d (int row) isServerB hashKey aesKey z
         in case freeTables t of
              [] \<Rightarrow> None
            | tIdx # rest \<Rightarrow>
                Some ((xor_local tIdx row d (t\<lparr>freeTables := rest\<rparr>))\<lparr>freeTables := rest @ [tIdx]\<rparr>, z))"

fun expandRows ::
  "crypto \<Rightarrow> InsertQuery1 \<Rightarrow> nat list \<Rightarrow> bool \<Rightarrow> byte list \<Rightarrow> byte list \<Rightarrow> SlotTable \<times> int \<times> int
     \<Rightarrow> (SlotTable \<times> int \<times> int) option" where
  "expandRows C query [] isServerB hashKey aesKey st = Some st"
| "expandRows C query (i # is) isServerB hashKey aesKey st =
     (case expandRow C query i isServerB hashKey aesKey st of
        None \<Rightarrow> None
      | Some st' \<Rightarrow> expandRows C query is isServerB hashKey aesKey st')"

definition processQuery ::
  "crypto \<Rightarrow> InsertQueryTuple \<Rightarrow> bool \<Rightarrow> SlotTable \<times> int \<times> int \<Rightarrow> (SlotTable \<times> int \<times> int) option" where
  "processQuery C query isServerB st =
     expandRows C (q1 query) [0..<TABLE_HEIGHT] isServerB (iq_hashKey query) (iq_challenge query) st"

text \<open>XOR all of the rows of a matrix into one row.\<close>

definition xorTable :: "byte list \<Rightarrow> matrix \<Rightarrow> byte list" where
  "xorTable dst src = foldl (\<lambda>d i. XorRows d (src ! i)) dst [0..<TABLE_HEIGHT]"

text \<open>\<^verbatim>\<open>ForeachRow\<close> runs one goroutine per row; each one touches only its own row.\<close>

definition ForeachRow :: "(nat \<Rightarrow> byte list \<Rightarrow> byte list) \<Rightarrow> SlotTable \<Rightarrow> SlotTable" where
  "ForeachRow f t = t\<lparr>table := map (\<lambda>j. f j (table t ! j)) [0..<TABLE_HEIGHT]\<rparr>"

definition Clear :: "SlotTable \<Rightarrow> SlotTable" where
  "Clear t = ForeachRow (\<lambda>_ _. zero_row) t"

definition Xor :: "matrix \<Rightarrow> SlotTable \<Rightarrow> SlotTable" where
  "Xor other t = ForeachRow (\<lambda>idx row. XorRows row (other ! idx)) t"

text \<open>
  The dump takes every token of the channel first: with fewer than \<^verbatim>\<open>WORKER_THREADS\<close> tokens it
  blocks (\<open>None\<close>). The result is what \<^verbatim>\<open>dest\<close> holds afterwards, and the table.
\<close>

definition CopyToAndClear :: "SlotTable \<Rightarrow> (matrix \<times> SlotTable) option" where
  "CopyToAndClear t =
     (if length (freeTables t) < WORKER_THREADS then None
      else let t = t\<lparr>freeTables := drop WORKER_THREADS (freeTables t)\<rparr>;
               t = foldl (\<lambda>t i. Xor (localTables t ! i) t) t [0..<WORKER_THREADS];
               dest = map (\<lambda>idx. table t ! idx) [0..<TABLE_HEIGHT];
               t = ForeachRow (\<lambda>_ _. zero_row) t
           in Some (dest, t\<lparr>freeTables := freeTables t @ [0..<WORKER_THREADS]\<rparr>))"

definition revealCleartext :: "matrix list \<Rightarrow> matrix" where
  "revealCleartext tables =
     foldl (\<lambda>b serv. map (\<lambda>i. XorRows (b ! i) (tables ! serv ! i)) [0..<TABLE_HEIGHT])
       zero_matrix [0..<NUM_SERVERS]"

section \<open>Well-formed tables and their contents\<close>

definition matrix_ok :: "matrix \<Rightarrow> bool" where
  "matrix_ok m \<longleftrightarrow> length m = TABLE_HEIGHT \<and> (\<forall>i < TABLE_HEIGHT. length (m ! i) = ROW_LENGTH)"

definition table_ok :: "SlotTable \<Rightarrow> bool" where
  "table_ok t \<longleftrightarrow> matrix_ok (table t) \<and> length (localTables t) = WORKER_THREADS \<and>
     (\<forall>j < WORKER_THREADS. matrix_ok (localTables t ! j)) \<and>
     distinct (freeTables t) \<and> set (freeTables t) = {..<WORKER_THREADS}"

definition query_ok :: "InsertQuery1 \<Rightarrow> bool" where
  "query_ok q \<longleftrightarrow> length (Keys q) = TABLE_HEIGHT \<and> (\<forall>i < TABLE_HEIGHT. length (Keys q ! i) = KEY_LENGTH)
     \<and> length (KeyMask q) = TABLE_HEIGHT \<and> length (MessageMask q) = ROW_LENGTH"

definition contents :: "SlotTable \<Rightarrow> matrix" where
  "contents t = map (\<lambda>i. foldl xor_bytes (table t ! i) (map (\<lambda>m. m ! i) (localTables t))) [0..<TABLE_HEIGHT]"

definition xor_matrix :: "matrix \<Rightarrow> matrix \<Rightarrow> matrix" where
  "xor_matrix a b = map (\<lambda>i. xor_bytes (a ! i) (b ! i)) [0..<TABLE_HEIGHT]"

lemma nth_contents [simp]:
  "i < TABLE_HEIGHT \<Longrightarrow> contents t ! i = foldl xor_bytes (table t ! i) (map (\<lambda>m. m ! i) (localTables t))"
  by (simp add: contents_def)

lemma length_contents [simp]: "length (contents t) = TABLE_HEIGHT"
  by (simp add: contents_def)

lemma matrix_eqI:
  assumes "length a = TABLE_HEIGHT" "length b = TABLE_HEIGHT" "\<And>i. i < TABLE_HEIGHT \<Longrightarrow> a ! i = b ! i"
  shows "a = b"
  using assms by (intro nth_equalityI) simp_all

lemma nth_xor_matrix [simp]: "i < TABLE_HEIGHT \<Longrightarrow> xor_matrix a b ! i = xor_bytes (a ! i) (b ! i)"
  by (simp add: xor_matrix_def)

lemma length_xor_matrix [simp]: "length (xor_matrix a b) = TABLE_HEIGHT"
  by (simp add: xor_matrix_def)

lemma matrix_ok_zero [simp]: "matrix_ok zero_matrix"
  by (simp add: matrix_ok_def zero_matrix_def)

lemma matrix_ok_row [simp]: "matrix_ok m \<Longrightarrow> i < TABLE_HEIGHT \<Longrightarrow> length (m ! i) = ROW_LENGTH"
  by (simp add: matrix_ok_def)

lemma matrix_ok_length: "matrix_ok m \<Longrightarrow> length m = TABLE_HEIGHT"
  by (simp add: matrix_ok_def)

lemma matrix_ok_xor [simp]: "matrix_ok a \<Longrightarrow> matrix_ok b \<Longrightarrow> matrix_ok (xor_matrix a b)"
  by (simp add: matrix_ok_def)

lemma NewSlotTable_ok: "table_ok NewSlotTable"
  by (auto simp: table_ok_def NewSlotTable_def)

lemma foldl_xor_length:
  "length a = n \<Longrightarrow> (\<forall>m \<in> set ms. length m = n) \<Longrightarrow> length (foldl xor_bytes a ms) = n"
  by (induction ms arbitrary: a) simp_all

lemma foldl_xor_start:
  "length a = n \<Longrightarrow> length d = n \<Longrightarrow> (\<forall>m \<in> set ms. length m = n)
     \<Longrightarrow> foldl xor_bytes (xor_bytes a d) ms = xor_bytes (foldl xor_bytes a ms) d"
proof (induction ms arbitrary: a)
  case (Cons m ms)
  then have "xor_bytes (xor_bytes a d) m = xor_bytes (xor_bytes a m) d"
    by (simp add: xor_bytes_assoc xor_bytes_commute [of d m])
  with Cons show ?case by simp
qed simp

lemma foldl_xor_update:
  "length a = n \<Longrightarrow> length d = n \<Longrightarrow> (\<forall>m \<in> set ms. length m = n) \<Longrightarrow> j < length ms
     \<Longrightarrow> foldl xor_bytes a (ms[j := xor_bytes (ms ! j) d]) = xor_bytes (foldl xor_bytes a ms) d"
proof (induction ms arbitrary: a j)
  case (Cons m ms)
  show ?case
  proof (cases j)
    case 0
    have "xor_bytes a (xor_bytes m d) = xor_bytes (xor_bytes a m) d"
      using Cons.prems by (simp add: xor_bytes_assoc)
    with Cons.prems 0 show ?thesis by (simp add: foldl_xor_start)
  next
    case (Suc k)
    with Cons show ?thesis by simp
  qed
qed simp

lemma local_rows_length:
  "table_ok t \<Longrightarrow> i < TABLE_HEIGHT \<Longrightarrow> m \<in> set (localTables t) \<Longrightarrow> length (m ! i) = ROW_LENGTH"
  by (auto simp: table_ok_def in_set_conv_nth)

lemma contents_ok: "table_ok t \<Longrightarrow> matrix_ok (contents t)"
  unfolding matrix_ok_def
  by (auto intro!: foldl_xor_length simp: local_rows_length) (simp add: table_ok_def)

lemma table_row_length [simp]: "table_ok t \<Longrightarrow> i < TABLE_HEIGHT \<Longrightarrow> length (table t ! i) = ROW_LENGTH"
  by (simp add: table_ok_def)

section \<open>One row\<close>

lemma xor_local_ok:
  assumes t: "table_ok t" and j: "tIdx < WORKER_THREADS" and d: "length d = ROW_LENGTH"
    and row: "row < TABLE_HEIGHT"
  shows "matrix_ok ((localTables t ! tIdx)[row := XorRows (localTables t ! tIdx ! row) d])"
proof -
  have "matrix_ok (localTables t ! tIdx)" using t j by (simp add: table_ok_def)
  with d row show ?thesis by (auto simp: matrix_ok_def nth_list_update)
qed

lemma contents_xor_local:
  assumes t: "table_ok t" and j: "tIdx < WORKER_THREADS" and d: "length d = ROW_LENGTH"
    and row: "row < TABLE_HEIGHT"
  shows "contents (xor_local tIdx row d t) = (contents t)[row := xor_bytes (contents t ! row) d]"
proof (rule matrix_eqI)
  fix i assume i: "i < TABLE_HEIGHT"
  let ?ls = "map (\<lambda>m. m ! i) (localTables t)"
  have len: "length (localTables t) = WORKER_THREADS" and ok: "matrix_ok (localTables t ! tIdx)"
    using t j by (auto simp: table_ok_def)
  have ls: "\<forall>m \<in> set ?ls. length m = ROW_LENGTH" using local_rows_length [OF t i] by auto
  have "map (\<lambda>m. m ! i) (localTables (xor_local tIdx row d t))
      = ?ls[tIdx := (if i = row then xor_bytes (?ls ! tIdx) d else ?ls ! tIdx)]"
    using j len ok d i row by (simp add: xor_local_def map_update nth_list_update matrix_ok_length)
  then have "contents (xor_local tIdx row d t) ! i
      = foldl xor_bytes (table t ! i) (?ls[tIdx := (if i = row then xor_bytes (?ls ! tIdx) d else ?ls ! tIdx)])"
    using i by (simp add: xor_local_def)
  also have "\<dots> = (contents t)[row := xor_bytes (contents t ! row) d] ! i"
    using foldl_xor_update [of "table t ! i" ROW_LENGTH d ?ls tIdx] ls t i row d j len
    by (cases "i = row") (simp_all only: if_True if_False list_update_id, simp_all)
  finally show "contents (xor_local tIdx row d t) ! i
      = (contents t)[row := xor_bytes (contents t ! row) d] ! i" .
qed simp_all

lemma contents_freeTables [simp]: "contents (t\<lparr>freeTables := fs\<rparr>) = contents t"
  by (simp add: contents_def)

lemma length_Evaluate [simp]: "crypto_ok C \<Longrightarrow> length (Evaluate C k b) = length b"
  by (simp add: Evaluate_def crypto_ok_def)

lemma rowData_Some:
  assumes "crypto_ok C" "query_ok q" "row < TABLE_HEIGHT"
  shows "rowData C q row = Some (if KeyMask q ! row
           then xor_bytes (aes_ctr C (Keys q ! row) ROW_LENGTH) (MessageMask q)
           else aes_ctr C (Keys q ! row) ROW_LENGTH)"
proof -
  have "length (aes_ctr C (Keys q ! row) ROW_LENGTH) = ROW_LENGTH"
    using assms(1) by (simp add: crypto_ok_def)
  then have "Evaluate C (Keys q ! row) zero_row = aes_ctr C (Keys q ! row) ROW_LENGTH"
    by (simp add: Evaluate_def zero_row_def)
  then show ?thesis using assms
    by (simp add: rowData_def NewPrf_def query_ok_def KEY_LENGTH_def crypto_ok_def)
qed

lemma rowData_length:
  assumes "crypto_ok C" "query_ok q" "row < TABLE_HEIGHT"
  shows "length (the (rowData C q row)) = ROW_LENGTH"
  using assms by (simp add: rowData_Some query_ok_def crypto_ok_def)

lemma expandRow_spec:
  assumes C: "crypto_ok C" and q: "query_ok q" and row: "row < TABLE_HEIGHT" and t: "table_ok t"
  shows "\<exists>t'. expandRow C q row isB hashKey aesKey (t, z) =
           Some (t', updateRowTestValues C (the (rowData C q row)) (int row) isB hashKey aesKey z)
         \<and> table_ok t' \<and> table t' = table t
         \<and> contents t' = (contents t)[row := xor_bytes (contents t ! row) (the (rowData C q row))]"
proof -
  define d where "d = the (rowData C q row)"
  have d: "rowData C q row = Some d" using rowData_Some [OF C q row] by (simp add: d_def)
  have len: "length d = ROW_LENGTH" using rowData_length [OF C q row] by (simp add: d_def)
  have "0 \<in> set (freeTables t)" using t by (simp add: table_ok_def WORKER_THREADS_def)
  then have "freeTables t \<noteq> []" by auto
  then obtain tIdx rest where f: "freeTables t = tIdx # rest" by (meson neq_Nil_conv)
  then have j: "tIdx < WORKER_THREADS" and dist: "distinct (rest @ [tIdx])"
    and set: "set (rest @ [tIdx]) = {..<WORKER_THREADS}"
    using t by (auto simp: table_ok_def)
  define t' where "t' = (xor_local tIdx row d t)\<lparr>freeTables := rest @ [tIdx]\<rparr>"
  have "expandRow C q row isB hashKey aesKey (t, z)
      = Some (t', updateRowTestValues C d (int row) isB hashKey aesKey z)"
    by (simp add: expandRow_def d f t'_def xor_local_def Let_def)
  moreover have "table_ok t'"
  proof -
    have "matrix_ok (localTables t' ! k)" if "k < WORKER_THREADS" for k
      using xor_local_ok [OF t j len row] t that
      by (cases "k = tIdx") (simp_all add: t'_def xor_local_def table_ok_def)
    then show ?thesis using t dist set by (simp add: table_ok_def t'_def xor_local_def)
  qed
  moreover have "contents t' = (contents t)[row := xor_bytes (contents t ! row) d]"
    using contents_xor_local [OF t j len row] by (simp add: t'_def)
  moreover have "table t' = table t" by (simp add: t'_def xor_local_def)
  ultimately show ?thesis unfolding d_def by blast
qed

section \<open>A whole query\<close>

definition expansion :: "crypto \<Rightarrow> InsertQuery1 \<Rightarrow> matrix" where
  "expansion C q = map (\<lambda>i. the (rowData C q i)) [0..<TABLE_HEIGHT]"

text \<open>The two sketch values of a query, before reduction: the sums over all its rows.\<close>

definition query_sketch :: "crypto \<Rightarrow> InsertQuery1 \<Rightarrow> bool \<Rightarrow> byte list \<Rightarrow> byte list \<Rightarrow> nat \<Rightarrow> int \<times> int" where
  "query_sketch C q isB hashKey aesKey n =
     ((\<Sum>y<n. fst (row_sketch C hashKey aesKey isB (int y) (the (rowData C q y)))),
      (\<Sum>y<n. snd (row_sketch C hashKey aesKey isB (int y) (the (rowData C q y)))))"

lemma length_expansion [simp]: "length (expansion C q) = TABLE_HEIGHT"
  by (simp add: expansion_def)

lemma nth_expansion [simp]: "i < TABLE_HEIGHT \<Longrightarrow> expansion C q ! i = the (rowData C q i)"
  by (simp add: expansion_def)

lemma expansion_ok: "crypto_ok C \<Longrightarrow> query_ok q \<Longrightarrow> matrix_ok (expansion C q)"
  by (simp add: matrix_ok_def rowData_length)

lemma expandRows_append:
  "expandRows C q (xs @ ys) isB h a st =
     (case expandRows C q xs isB h a st of None \<Rightarrow> None | Some st' \<Rightarrow> expandRows C q ys isB h a st')"
  by (induction xs arbitrary: st) (auto split: option.splits)

lemma expandRows_spec:
  assumes C: "crypto_ok C" and q: "query_ok q" and t: "table_ok t" and n: "n \<le> TABLE_HEIGHT"
  shows "\<exists>t' w1 w2. expandRows C q [0..<n] isB hashKey aesKey (t, z1, z2) = Some (t', w1, w2)
     \<and> table_ok t' \<and> table t' = table t
     \<and> (\<forall>i < TABLE_HEIGHT. contents t' ! i =
          (if i < n then xor_bytes (contents t ! i) (the (rowData C q i)) else contents t ! i))
     \<and> w1 mod IntModulus = (z1 + fst (query_sketch C q isB hashKey aesKey n)) mod IntModulus
     \<and> w2 mod IntModulus = (z2 + snd (query_sketch C q isB hashKey aesKey n)) mod IntModulus"
  using n
proof (induction n)
  case 0
  then show ?case using t by (simp add: query_sketch_def)
next
  case (Suc n)
  from Suc obtain t1 u1 u2 where IH:
    "expandRows C q [0..<n] isB hashKey aesKey (t, z1, z2) = Some (t1, u1, u2)"
    "table_ok t1" "table t1 = table t"
    "\<forall>i < TABLE_HEIGHT. contents t1 ! i =
          (if i < n then xor_bytes (contents t ! i) (the (rowData C q i)) else contents t ! i)"
    "u1 mod IntModulus = (z1 + fst (query_sketch C q isB hashKey aesKey n)) mod IntModulus"
    "u2 mod IntModulus = (z2 + snd (query_sketch C q isB hashKey aesKey n)) mod IntModulus"
    by auto
  from Suc.prems have row: "n < TABLE_HEIGHT" by simp
  from expandRow_spec [OF C q row IH(2), of isB hashKey aesKey "(u1, u2)"] obtain t2 where E:
    "expandRow C q n isB hashKey aesKey (t1, u1, u2) =
       Some (t2, updateRowTestValues C (the (rowData C q n)) (int n) isB hashKey aesKey (u1, u2))"
    "table_ok t2" "table t2 = table t1"
    "contents t2 = (contents t1)[n := xor_bytes (contents t1 ! n) (the (rowData C q n))]" by blast
  let ?s = "row_sketch C hashKey aesKey isB (int n) (the (rowData C q n))"
  have "expandRows C q [0..<Suc n] isB hashKey aesKey (t, z1, z2)
      = Some (t2, (u1 + fst ?s) mod IntModulus, (u2 + snd ?s) mod IntModulus)"
    by (simp add: expandRows_append IH(1) E(1) updateRowTestValues_closed)
  moreover have "(u1 + fst ?s) mod IntModulus
      = (z1 + fst (query_sketch C q isB hashKey aesKey (Suc n))) mod IntModulus"
    using mod_add_cong [OF IH(5) refl, of "fst ?s"] by (simp add: query_sketch_def add.assoc)
  moreover have "(u2 + snd ?s) mod IntModulus
      = (z2 + snd (query_sketch C q isB hashKey aesKey (Suc n))) mod IntModulus"
    using mod_add_cong [OF IH(6) refl, of "snd ?s"] by (simp add: query_sketch_def add.assoc)
  moreover have "\<forall>i < TABLE_HEIGHT. contents t2 ! i =
      (if i < Suc n then xor_bytes (contents t ! i) (the (rowData C q i)) else contents t ! i)"
    unfolding E(4) using IH(4) row by (simp add: nth_list_update less_Suc_eq)
  ultimately show ?case using E(2) E(3) IH(3) by simp
qed

lemma processQuery_spec:
  assumes C: "crypto_ok C" and q: "query_ok (q1 query)" and t: "table_ok t"
  obtains t' w1 w2 where "processQuery C query isB (t, z1, z2) = Some (t', w1, w2)"
    "table_ok t'" "table t' = table t"
    "contents t' = xor_matrix (contents t) (expansion C (q1 query))"
    "w1 mod IntModulus = (z1 + fst (query_sketch C (q1 query) isB (iq_hashKey query) (iq_challenge query)
        TABLE_HEIGHT)) mod IntModulus"
    "w2 mod IntModulus = (z2 + snd (query_sketch C (q1 query) isB (iq_hashKey query) (iq_challenge query)
        TABLE_HEIGHT)) mod IntModulus"
proof -
  from expandRows_spec [OF C q t order_refl, of isB "iq_hashKey query" "iq_challenge query" z1 z2]
  obtain t' w1 w2 where E:
    "expandRows C (q1 query) [0..<TABLE_HEIGHT] isB (iq_hashKey query) (iq_challenge query) (t, z1, z2)
       = Some (t', w1, w2)" "table_ok t'" "table t' = table t"
    "\<forall>i < TABLE_HEIGHT. contents t' ! i = xor_bytes (contents t ! i) (the (rowData C (q1 query) i))"
    "w1 mod IntModulus = (z1 + fst (query_sketch C (q1 query) isB (iq_hashKey query) (iq_challenge query)
        TABLE_HEIGHT)) mod IntModulus"
    "w2 mod IntModulus = (z2 + snd (query_sketch C (q1 query) isB (iq_hashKey query) (iq_challenge query)
        TABLE_HEIGHT)) mod IntModulus"
    by auto
  have "contents t' = xor_matrix (contents t) (expansion C (q1 query))"
    using E(4) by - (rule matrix_eqI, simp_all)
  with E show ?thesis by (intro that [of t' w1 w2]) (simp_all add: processQuery_def)
qed

section \<open>Dumping and revealing\<close>

lemma Xor_fold:
  assumes "\<And>i. i \<in> set is \<Longrightarrow> matrix_ok (localTables t ! i)" "matrix_ok (table t)"
  shows "let u = foldl (\<lambda>t i. Xor (localTables t ! i) t) t is in
    localTables u = localTables t \<and> freeTables u = freeTables t \<and> matrix_ok (table u) \<and>
    (\<forall>j < TABLE_HEIGHT. table u ! j = foldl xor_bytes (table t ! j) (map (\<lambda>i. localTables t ! i ! j) is))"
  using assms
proof (induction "is" arbitrary: t)
  case (Cons k ks)
  let ?t = "Xor (localTables t ! k) t"
  have k: "matrix_ok (localTables t ! k)" using Cons.prems by simp
  have rows: "table ?t ! j = xor_bytes (table t ! j) (localTables t ! k ! j)" if "j < TABLE_HEIGHT" for j
    using that k Cons.prems(2) by (simp add: Xor_def ForeachRow_def)
  have same: "localTables ?t = localTables t" "freeTables ?t = freeTables t"
    by (simp_all add: Xor_def ForeachRow_def)
  have "length (table ?t) = TABLE_HEIGHT" by (simp add: Xor_def ForeachRow_def)
  then have "matrix_ok (table ?t)" using rows k Cons.prems(2) by (simp add: matrix_ok_def)
  from Cons.IH [of ?t, unfolded same, OF _ this] Cons.prems
  show ?case by (simp add: Let_def rows)
qed (simp add: Let_def)

lemma map_nth_locals: "length ls = n \<Longrightarrow> map (\<lambda>i. ls ! i ! j) [0..<n] = map (\<lambda>m. m ! j) ls"
  by (rule nth_equalityI) simp_all

lemma CopyToAndClear_spec:
  assumes t: "table_ok t"
  shows "CopyToAndClear t = Some (contents t,
     \<lparr>table = zero_matrix, freeTables = [0..<WORKER_THREADS], localTables = localTables t\<rparr>)"
proof -
  have free: "length (freeTables t) = WORKER_THREADS"
    using t distinct_card [of "freeTables t"] by (simp add: table_ok_def)
  define t0 where "t0 = t\<lparr>freeTables := drop WORKER_THREADS (freeTables t)\<rparr>"
  define u where "u = foldl (\<lambda>t i. Xor (localTables t ! i) t) t0 [0..<WORKER_THREADS]"
  have u: "localTables u = localTables t" "freeTables u = []"
    "\<forall>j < TABLE_HEIGHT. table u ! j
       = foldl xor_bytes (table t ! j) (map (\<lambda>i. localTables t ! i ! j) [0..<WORKER_THREADS])"
    using Xor_fold [of "[0..<WORKER_THREADS]" t0] t free by (auto simp: table_ok_def t0_def u_def Let_def)
  have "map (\<lambda>idx. table u ! idx) [0..<TABLE_HEIGHT] = contents t"
    using u(3) t by - (rule matrix_eqI, simp_all add: map_nth_locals table_ok_def)
  moreover have "map (\<lambda>j. zero_row) [0..<TABLE_HEIGHT] = zero_matrix"
    by (simp add: zero_matrix_def map_replicate_const)
  moreover have "CopyToAndClear t = Some (map (\<lambda>idx. table u ! idx) [0..<TABLE_HEIGHT],
      u\<lparr>table := map (\<lambda>j. zero_row) [0..<TABLE_HEIGHT], freeTables := freeTables u @ [0..<WORKER_THREADS]\<rparr>)"
    unfolding CopyToAndClear_def Let_def ForeachRow_def t0_def [symmetric] u_def [symmetric]
    using free by simp
  ultimately show ?thesis using u(1,2) by (simp add: SlotTable.equality)
qed

lemma CopyToAndClear_ok: "table_ok t \<Longrightarrow> CopyToAndClear t = Some (d, t') \<Longrightarrow> table_ok t'"
  by (auto simp: CopyToAndClear_spec) (auto simp: table_ok_def)

text \<open>The worker matrices keep what the dump returned.\<close>

lemma contents_after_dump:
  assumes t: "table_ok t" and dump: "CopyToAndClear t = Some (d, t')"
  shows "contents t' = xor_matrix (table t) (contents t)"
proof (rule matrix_eqI)
  fix i assume i: "i < TABLE_HEIGHT"
  let ?ls = "map (\<lambda>m. m ! i) (localTables t)"
  have ls: "\<forall>m \<in> set ?ls. length m = ROW_LENGTH" using local_rows_length [OF t i] by auto
  have L: "length (foldl xor_bytes zero_row ?ls) = ROW_LENGTH"
    by (rule foldl_xor_length) (simp, rule ls)
  have T: "length (table t ! i) = ROW_LENGTH" using t i by simp
  have "foldl xor_bytes (table t ! i) ?ls = foldl xor_bytes (xor_bytes zero_row (table t ! i)) ?ls"
    using T by (simp add: zero_row_def)
  also have "\<dots> = xor_bytes (foldl xor_bytes zero_row ?ls) (table t ! i)"
    by (rule foldl_xor_start [OF _ T ls]) simp
  also have "\<dots> = xor_bytes (table t ! i) (foldl xor_bytes zero_row ?ls)"
    by (rule xor_bytes_commute) (simp only: L T)
  finally have "xor_bytes (table t ! i) (contents t ! i) = foldl xor_bytes zero_row ?ls"
    using i L T by (simp only: nth_contents xor_bytes_cancel)
  moreover have "contents t' ! i = foldl xor_bytes zero_row ?ls"
    using dump i by (simp add: CopyToAndClear_spec [OF t] zero_matrix_def)
      (auto simp: zero_matrix_def i)
  ultimately show "contents t' ! i = xor_matrix (table t) (contents t) ! i" using i by simp
qed simp_all

lemma xor_matrix_zero [simp]:
  "matrix_ok m \<Longrightarrow> xor_matrix zero_matrix m = m"
  "matrix_ok m \<Longrightarrow> xor_matrix m zero_matrix = m"
  by (rule matrix_eqI; simp add: zero_matrix_def zero_row_def matrix_ok_length)+

lemma revealCleartext_two:
  assumes "matrix_ok a" "matrix_ok b"
  shows "revealCleartext [a, b] = xor_matrix a b"
proof -
  have "[0..<NUM_SERVERS] = [0, 1]" by (simp add: NUM_SERVERS_def upt_rec)
  then show ?thesis using assms
    by - (rule matrix_eqI, simp_all add: revealCleartext_def zero_matrix_def zero_row_def)
qed

section \<open>Interleavings\<close>

lemma foldl_xor_remove1:
  "length a = n \<Longrightarrow> (\<forall>m \<in> set ms. length m = n) \<Longrightarrow> d \<in> set ms
     \<Longrightarrow> foldl xor_bytes a ms = xor_bytes (foldl xor_bytes a (remove1 d ms)) d"
proof (induction ms arbitrary: a)
  case (Cons m ms)
  then show ?case by (cases "m = d") (simp_all add: foldl_xor_start)
qed simp

lemma foldl_xor_mset:
  "length a = n \<Longrightarrow> (\<forall>m \<in> set xs. length m = n) \<Longrightarrow> mset xs = mset ys
     \<Longrightarrow> foldl xor_bytes a xs = foldl xor_bytes a ys"
proof (induction xs arbitrary: ys)
  case (Cons x xs)
  have set: "set ys = set (x # xs)" using Cons.prems(3) by (metis set_mset_mset)
  then have x: "x \<in> set ys" by simp
  have "mset xs = mset (remove1 x ys)" using Cons.prems(3) by (simp flip: Cons.prems(3))
  with Cons have "foldl xor_bytes a xs = foldl xor_bytes a (remove1 x ys)" by simp
  then have "foldl xor_bytes a ys = xor_bytes (foldl xor_bytes a xs) x"
    using foldl_xor_remove1 [of a n ys x] Cons.prems set x by simp
  then show ?case using foldl_xor_start [of a n x xs] Cons.prems by simp
qed simp

text \<open>A schedule: which worker matrix gets which row of data next.\<close>

definition write_rows :: "(nat \<times> nat \<times> byte list) list \<Rightarrow> SlotTable \<Rightarrow> SlotTable" where
  "write_rows ws t = foldl (\<lambda>t (tIdx, row, d). xor_local tIdx row d t) t ws"

abbreviation write_ok :: "nat \<times> nat \<times> byte list \<Rightarrow> bool" where
  "write_ok w \<equiv> fst w < WORKER_THREADS \<and> fst (snd w) < TABLE_HEIGHT \<and> length (snd (snd w)) = ROW_LENGTH"

lemma xor_local_table_ok:
  assumes t: "table_ok t" and j: "tIdx < WORKER_THREADS" and d: "length d = ROW_LENGTH"
    and row: "row < TABLE_HEIGHT"
  shows "table_ok (xor_local tIdx row d t)"
proof -
  have "matrix_ok (localTables (xor_local tIdx row d t) ! k)" if "k < WORKER_THREADS" for k
    using xor_local_ok [OF t j d row] t that
    by (cases "k = tIdx") (simp_all add: xor_local_def table_ok_def)
  then show ?thesis using t by (simp add: table_ok_def xor_local_def)
qed

lemma write_rows_contents:
  "table_ok t \<Longrightarrow> \<forall>w \<in> set ws. write_ok w \<Longrightarrow>
     table_ok (write_rows ws t) \<and>
     (\<forall>i < TABLE_HEIGHT. contents (write_rows ws t) ! i
        = foldl xor_bytes (contents t ! i) (map snd (filter (\<lambda>rd. fst rd = i) (map snd ws))))"
proof (induction ws arbitrary: t)
  case Nil
  then show ?case by (simp add: write_rows_def)
next
  case (Cons w ws)
  obtain j r d where w: "w = (j, r, d)" by (cases w) auto
  let ?t = "xor_local j r d t"
  have ok: "j < WORKER_THREADS" "length d = ROW_LENGTH" "r < TABLE_HEIGHT" using Cons.prems w by auto
  have t': "table_ok ?t" by (rule xor_local_table_ok [OF Cons.prems(1) ok])
  have step: "write_rows (w # ws) t = write_rows ws ?t" by (simp add: write_rows_def w)
  show ?case unfolding step
    using Cons.IH [OF t'] Cons.prems
    by (simp add: contents_xor_local [OF Cons.prems(1) ok] w nth_list_update del: nth_contents)
qed

lemma write_rows_order:
  assumes t: "table_ok t" and ws: "\<forall>w \<in> set ws. write_ok w" and us: "\<forall>w \<in> set us. write_ok w"
    and same: "mset (map snd ws) = mset (map snd us)"
  shows "contents (write_rows ws t) = contents (write_rows us t)"
proof (rule matrix_eqI)
  fix i assume i: "i < TABLE_HEIGHT"
  let ?pick = "\<lambda>ws. map snd (filter (\<lambda>rd. fst rd = i) (map snd ws))"
  have "mset (?pick ws) = mset (?pick us)" using same by (simp only: mset_map mset_filter)
  moreover have "\<forall>m \<in> set (?pick ws). length m = ROW_LENGTH" using ws by auto
  ultimately have "foldl xor_bytes (contents t ! i) (?pick ws) = foldl xor_bytes (contents t ! i) (?pick us)"
    using contents_ok [OF t] i by (intro foldl_xor_mset [of _ ROW_LENGTH]) (simp_all del: nth_contents)
  then show "contents (write_rows ws t) ! i = contents (write_rows us t) ! i"
    using write_rows_contents [OF t ws] write_rows_contents [OF t us] i by simp
qed simp_all

section \<open>Properties\<close>

text \<open>C3: \<^verbatim>\<open>processQuery\<close> never blocks or panics on a well-formed query and table, keeps the table
  well formed, and XORs exactly the expansion of the query (one PRF row per key, masked where the
  key bit is set) into the contents of the table.\<close>

theorem processQuery_refines:
  assumes "crypto_ok C" "query_ok (q1 query)" "table_ok t"
  shows "\<exists>t' w. processQuery C query isServerB (t, z1, z2) = Some (t', w) \<and> table_ok t' \<and>
     contents t' = xor_matrix (contents t) (expansion C (q1 query))"
proof (rule processQuery_spec [OF assms])
  fix t' w1 w2
  assume "processQuery C query isServerB (t, z1, z2) = Some (t', w1, w2)" "table_ok t'"
    "contents t' = xor_matrix (contents t) (expansion C (q1 query))"
  then show ?thesis by blast
qed

definition sample_query :: InsertQueryTuple where
  "sample_query = \<lparr>iq_hashKey = replicate 32 1, iq_challenge = replicate 16 2,
     q1 = \<lparr>KeyIndex = 0, Keys = replicate TABLE_HEIGHT (replicate 16 5),
           KeyMask = replicate TABLE_HEIGHT True, MessageMask = replicate ROW_LENGTH 9\<rparr>,
     q2 = \<lparr>MsgShare = 0\<rparr>,
     q3 = \<lparr>TShare1 = 0, TShare2 = 0, TProof1 = \<lparr>F_0 = 0, G_0 = 0, H_0 = 0, H_2 = 0\<rparr>,
           TProof2 = \<lparr>F_0 = 0, G_0 = 0, H_0 = 0, H_2 = 0\<rparr>\<rparr>\<rparr>"

lemma sample_query_ok: "query_ok (q1 sample_query)"
  by (simp add: query_ok_def sample_query_def KEY_LENGTH_def)

theorem processQuery_refines_witness:
  "\<exists>t' w. processQuery toy_crypto sample_query True (NewSlotTable, 0, 0) = Some (t', w) \<and> table_ok t' \<and>
     contents t' = xor_matrix (contents NewSlotTable) (expansion toy_crypto (q1 sample_query))"
  by (rule processQuery_refines [OF toy_crypto_ok sample_query_ok NewSlotTable_ok])

text \<open>The order in which worker threads write rows, and the worker matrices they happen to
  take, do not matter: two schedules that write the same rows of data, in any order and through any
  worker matrices, leave the same contents.\<close>

theorem write_rows_schedule_independent:
  assumes "table_ok t"
    and "\<forall>w \<in> set ws. fst w < WORKER_THREADS \<and> fst (snd w) < TABLE_HEIGHT \<and> length (snd (snd w)) = ROW_LENGTH"
    and "\<forall>w \<in> set us. fst w < WORKER_THREADS \<and> fst (snd w) < TABLE_HEIGHT \<and> length (snd (snd w)) = ROW_LENGTH"
    and "mset (map snd ws) = mset (map snd us)"
  shows "contents (write_rows ws t) = contents (write_rows us t)"
  using assms by (rule write_rows_order)

theorem write_rows_schedule_independent_witness:
  "contents (write_rows [(0, 3, zero_row), (1, 4, replicate ROW_LENGTH 1)] NewSlotTable)
     = contents (write_rows [(7, 4, replicate ROW_LENGTH 1), (7, 3, zero_row)] NewSlotTable)"
  by (rule write_rows_schedule_independent [OF NewSlotTable_ok])
    (simp_all add: WORKER_THREADS_def TABLE_HEIGHT_eq add_mset_commute)

text \<open>A dump of a well-formed table does not block, returns its contents (the XOR of the main
  matrix and every worker matrix) and zeroes the main matrix. It leaves the worker matrices alone:
  when the main matrix was zero, as after every dump, the next dump returns the same contents
  again, so a published epoch is published once more with the following one.\<close>

theorem CopyToAndClear_keeps_worker_tables:
  assumes "table_ok t" "table t = zero_matrix"
  shows "\<exists>t'. CopyToAndClear t = Some (contents t, t') \<and> table_ok t' \<and> table t' = zero_matrix \<and>
     contents t' = contents t \<and> (\<exists>t''. CopyToAndClear t' = Some (contents t, t''))"
proof -
  let ?t' = "\<lparr>table = zero_matrix, freeTables = [0..<WORKER_THREADS], localTables = localTables t\<rparr>"
  have d: "CopyToAndClear t = Some (contents t, ?t')" by (rule CopyToAndClear_spec [OF assms(1)])
  have ok: "table_ok ?t'" by (rule CopyToAndClear_ok [OF assms(1) d])
  have c: "contents ?t' = contents t"
    using contents_after_dump [OF assms(1) d] contents_ok [OF assms(1)] assms(2) by simp
  show ?thesis using d ok c CopyToAndClear_spec [OF ok] by fastforce
qed

theorem CopyToAndClear_keeps_worker_tables_witness:
  "\<exists>t'. CopyToAndClear (xor_local 2 5 (replicate ROW_LENGTH 1) NewSlotTable)
       = Some (contents (xor_local 2 5 (replicate ROW_LENGTH 1) NewSlotTable), t') \<and>
     table_ok t' \<and> table t' = zero_matrix \<and>
     contents t' = contents (xor_local 2 5 (replicate ROW_LENGTH 1) NewSlotTable) \<and>
     (\<exists>t''. CopyToAndClear t' = Some (contents (xor_local 2 5 (replicate ROW_LENGTH 1) NewSlotTable), t''))"
  by (rule CopyToAndClear_keeps_worker_tables [OF xor_local_table_ok [OF NewSlotTable_ok]])
    (simp_all add: WORKER_THREADS_def TABLE_HEIGHT_eq xor_local_def NewSlotTable_def)

end
