(* ===== verification/Write_Protocol.thy ===== *)
theory Write_Protocol
  imports Slot_Table "HOL-Library.Countable"
begin

text \<open>
  The write protocol: what a client sends (\<^verbatim>\<open>src/db/args.go\<close>, \<^verbatim>\<open>src/db/encrypt.go\<close>), what each of the
  two servers does with it (\<^verbatim>\<open>Prepare\<close>, \<^verbatim>\<open>Commit\<close>, \<^verbatim>\<open>DumpTable\<close>, \<^verbatim>\<open>StorePlaintext\<close>, \<^verbatim>\<open>DumpPlaintext\<close> of
  \<^verbatim>\<open>src/db/server.go\<close>), and the leader's fan-out to both servers (\<^verbatim>\<open>submitPrepares\<close>, \<^verbatim>\<open>submitCommits\<close>).

  NaCl box and gob are outside the repository: \<open>sealing\<close> holds them as parameters, and
  \<open>sealing_ok\<close> is their documented round trip. The key pairs of \<^verbatim>\<open>src/utils/keys.go\<close> are constants
  the sealing functions are applied to.

  A call either returns, returns an error, or ends the process (\<^verbatim>\<open>panic\<close>, \<^verbatim>\<open>log.Fatal\<close>): \<open>go\<close>.

  Shown here: the two servers' shares of an honest upload reveal exactly the message; all three
  checks of the leader pass on it; and the leader commits whatever the checks say.
\<close>

section \<open>Outcomes of a call\<close>

datatype 'a go = Ok 'a | Err go_error | Panic

primrec go_of_option :: "'a option \<Rightarrow> 'a go" where
  "go_of_option None = Panic"
| "go_of_option (Some x) = Ok x"

primrec go_bind :: "'a go \<Rightarrow> ('a \<Rightarrow> 'b go) \<Rightarrow> 'b go" where
  "go_bind (Ok x) f = f x"
| "go_bind (Err e) f = Err e"
| "go_bind Panic f = Panic"

lemma go_bind_eq_Ok: "go_bind m f = Ok y \<longleftrightarrow> (\<exists>x. m = Ok x \<and> f x = Ok y)"
  by (cases m) auto

section \<open>Sealed queries\<close>

record EncryptedInsertQuery =
  SenderPublicKey :: "byte list"
  Nonce :: "byte list"
  Ciphertext :: "byte list"

record 'r sealing =
  box_GenerateKey :: "'r \<Rightarrow> (byte list \<times> byte list) \<times> 'r"
  box_Seal :: "byte list \<Rightarrow> byte list \<Rightarrow> byte list \<Rightarrow> byte list \<Rightarrow> byte list"
  box_Open :: "byte list \<Rightarrow> byte list \<Rightarrow> byte list \<Rightarrow> byte list \<Rightarrow> byte list option"
  ServerBoxPublicKeys :: "nat \<Rightarrow> byte list"
  ServerBoxPrivateKeys :: "nat \<Rightarrow> byte list"
  enc_q1 :: "InsertQuery1 \<Rightarrow> byte list res"
  dec_q1 :: "byte list \<Rightarrow> InsertQuery1 res"
  enc_q2 :: "InsertQuery2 \<Rightarrow> byte list res"
  dec_q2 :: "byte list \<Rightarrow> InsertQuery2 res"
  enc_q3 :: "InsertQuery3 \<Rightarrow> byte list res"
  dec_q3 :: "byte list \<Rightarrow> InsertQuery3 res"

text \<open>
  Opening with the matching keys what was sealed gives the plaintext back, for the key pairs
  that are generated and the key pairs of the two servers; gob decodes what it encoded.
\<close>

definition sealing_ok :: "'r sealing \<Rightarrow> bool" where
  "sealing_ok S \<longleftrightarrow>
     (\<forall>r pub priv r' i m n. box_GenerateKey S r = ((pub, priv), r') \<longrightarrow> i < NUM_SERVERS \<longrightarrow>
        box_Open S (box_Seal S m n (ServerBoxPublicKeys S i) priv) n pub (ServerBoxPrivateKeys S i) = Some m) \<and>
     (\<forall>q. \<exists>b. enc_q1 S q = Inr b \<and> dec_q1 S b = Inr q) \<and>
     (\<forall>q. \<exists>b. enc_q2 S q = Inr b \<and> dec_q2 S b = Inr q) \<and>
     (\<forall>q. \<exists>b. enc_q3 S q = Inr b \<and> dec_q3 S b = Inr q)"

definition encryptBytes ::
  "'r rng \<Rightarrow> 'r sealing \<Rightarrow> nat \<Rightarrow> byte list \<Rightarrow> 'r \<Rightarrow> EncryptedInsertQuery \<times> 'r" where
  "encryptBytes G S serverIdx buf r =
     (let serverPublicKey = ServerBoxPublicKeys S serverIdx;
          (nonce, r) = rng_Bytes G r 24;
          ((myPublicKey, myPrivateKey), r) = box_GenerateKey S r
      in (\<lparr>SenderPublicKey = myPublicKey, Nonce = nonce,
           Ciphertext = box_Seal S buf nonce serverPublicKey myPrivateKey\<rparr>, r))"

definition decryptBytes :: "'r sealing \<Rightarrow> nat \<Rightarrow> EncryptedInsertQuery \<Rightarrow> byte list res" where
  "decryptBytes S serverIdx enc =
     (case box_Open S (Ciphertext enc) (Nonce enc) (SenderPublicKey enc) (ServerBoxPrivateKeys S serverIdx) of
        None \<Rightarrow> Inl (ErrorString ''Could not decrypt'')
      | Some buf \<Rightarrow> Inr buf)"

definition EncryptQuery ::
  "'r rng \<Rightarrow> 'r sealing \<Rightarrow> ('q \<Rightarrow> byte list res) \<Rightarrow> nat \<Rightarrow> 'q \<Rightarrow> 'r \<Rightarrow> (EncryptedInsertQuery \<times> 'r) res" where
  "EncryptQuery G S enc serverIdx query r =
     (case enc query of Inl e \<Rightarrow> Inl e | Inr buf \<Rightarrow> Inr (encryptBytes G S serverIdx buf r))"

definition DecryptQuery ::
  "'r sealing \<Rightarrow> (byte list \<Rightarrow> 'q res) \<Rightarrow> nat \<Rightarrow> EncryptedInsertQuery \<Rightarrow> 'q res" where
  "DecryptQuery S dec serverIdx enc =
     (case decryptBytes S serverIdx enc of Inl e \<Rightarrow> Inl e | Inr buf \<Rightarrow> dec buf)"

text \<open>One sealed query per server, in order; a failed encoding ends the client.\<close>

fun encrypt_all ::
  "'r rng \<Rightarrow> 'r sealing \<Rightarrow> ('q \<Rightarrow> byte list res) \<Rightarrow> nat \<Rightarrow> 'q list \<Rightarrow> 'r
     \<Rightarrow> (EncryptedInsertQuery list \<times> 'r) go" where
  "encrypt_all G S enc i [] r = Ok ([], r)"
| "encrypt_all G S enc i (q # qs) r =
     (case EncryptQuery G S enc i q r of
        Inl _ \<Rightarrow> Panic
      | Inr (c, r) \<Rightarrow> go_bind (encrypt_all G S enc (Suc i) qs r) (\<lambda>(cs, r). Ok (c # cs, r)))"

section \<open>The client's three messages\<close>

record UploadArgs1 =
  RouteRow :: int
  UseAssignedSession :: bool
  AssignedUUID :: int
  AssignedHashKey :: "byte list"
  a1_Query :: "EncryptedInsertQuery list"

record UploadArgs2 =
  a2_Uuid :: int
  a2_HashKey :: "byte list"
  a2_Query :: "EncryptedInsertQuery list"

record UploadArgs3 =
  a3_Uuid :: int
  a3_HashKey :: "byte list"
  a3_Query :: "EncryptedInsertQuery list"

record UploadReply1 =
  r1_Uuid :: int
  r1_HashKey :: "byte list"

record UploadReply2 =
  Challenge :: "byte list"

fun randomVectorKeys :: "'r rng \<Rightarrow> nat \<Rightarrow> 'r \<Rightarrow> byte list list \<times> 'r" where
  "randomVectorKeys G 0 r = ([], r)"
| "randomVectorKeys G (Suc n) r =
     (let (k, r) = NewKey G r; (ks, r) = randomVectorKeys G n r in (k # ks, r))"

text \<open>A slice expression \<^verbatim>\<open>row[start:end]\<close>.\<close>

definition slice :: "byte list \<Rightarrow> int \<Rightarrow> int \<Rightarrow> byte list option" where
  "slice row s e = (if 0 \<le> s \<and> s \<le> e \<and> e \<le> int (length row)
                    then Some (take (nat e - nat s) (drop (nat s) row)) else None)"

text \<open>Copying into an array of \<open>SLOT_LENGTH\<close> zero bytes.\<close>

definition copy_slot :: "byte list \<Rightarrow> byte list" where
  "copy_slot b = take SLOT_LENGTH b @ drop (length b) (replicate SLOT_LENGTH 0)"

definition zero_slot :: "byte list" where
  "zero_slot = replicate SLOT_LENGTH 0"

definition computeMessageMask ::
  "crypto \<Rightarrow> byte list \<Rightarrow> byte list \<Rightarrow> Plaintext \<Rightarrow> bool \<Rightarrow> (byte list \<times> byte list list) go" where
  "computeMessageMask C key keyP msg xorBit =
     (case NewPrf key of Inl e \<Rightarrow> Err e | Inr prf0 \<Rightarrow>
      case NewPrf keyP of Inl e \<Rightarrow> Err e | Inr prf1 \<Rightarrow>
      let prfOut0 = Evaluate C prf0 zero_row;
          prfOut1 = Evaluate C prf1 zero_row
      in go_bind (go_of_option (MessageToRow msg)) (\<lambda>msg_row.
      let msgMask = XorRows zero_row prfOut0;
          msgMask = XorRows msgMask prfOut1;
          msgMask = XorRows msgMask msg_row;
          start = wrap64 (X msg * int SLOT_LENGTH);
          end = wrap64 ((X msg + 1) * int SLOT_LENGTH)
      in if xorBit then
           go_bind (go_of_option (xorEq zero_slot (Message msg))) (\<lambda>s0.
           go_bind (go_of_option (slice prfOut1 start end)) (\<lambda>p.
           go_bind (go_of_option (xorEq s0 p)) (\<lambda>s0.
           Ok (msgMask, [s0, copy_slot p]))))
         else
           go_bind (go_of_option (slice prfOut0 start end)) (\<lambda>p.
           go_bind (go_of_option (xorEq zero_slot p)) (\<lambda>s0.
           go_bind (go_of_option (xorEq zero_slot (Message msg))) (\<lambda>s1.
           go_bind (go_of_option (xorEq s1 p)) (\<lambda>s1.
           Ok (msgMask, [s0, s1])))))))"

text \<open>The plain queries: server 1 gets the other key and the other mask bit at the row.\<close>

definition plainQueries ::
  "byte list list \<Rightarrow> byte list list \<Rightarrow> bool list \<Rightarrow> bool list \<Rightarrow> byte list \<Rightarrow> InsertQuery1 list" where
  "plainQueries keys keysP keyMask keyMaskP msgMask =
     map (\<lambda>i. if odd i
              then \<lparr>KeyIndex = int i, Keys = keysP, KeyMask = keyMaskP, MessageMask = msgMask\<rparr>
              else \<lparr>KeyIndex = int i, Keys = keys, KeyMask = keyMask, MessageMask = msgMask\<rparr>)
         [0..<NUM_SERVERS]"

definition InitializeUploadArgs ::
  "'r rng \<Rightarrow> crypto \<Rightarrow> 'r sealing \<Rightarrow> UploadArgs1 \<Rightarrow> Plaintext \<Rightarrow> 'r
     \<Rightarrow> (UploadArgs1 \<times> byte list list \<times> 'r) go" where
  "InitializeUploadArgs G C S args msg r =
     (let args = args\<lparr>RouteRow := Y msg\<rparr>;
          (keys, r) = randomVectorKeys G TABLE_HEIGHT r;
          (keyMask, r) = RandVectorBool G TABLE_HEIGHT r
      in if Y msg < 0 \<or> int TABLE_HEIGHT \<le> Y msg then Panic
      else let y = nat (Y msg);
               keyMaskP = keyMask[y := \<not> keyMask ! y];
               (kP, r) = NewKey G r;
               keysP = keys[y := kP]
           in go_bind (computeMessageMask C (keys ! y) (keysP ! y) msg (keyMask ! y))
                (\<lambda>(msgMask, msgBitShares).
              go_bind (encrypt_all G S (enc_q1 S) 0 (plainQueries keys keysP keyMask keyMaskP msgMask) r)
                (\<lambda>(cs, r). Ok (args\<lparr>a1_Query := cs\<rparr>, msgBitShares, r))))"

definition msg_shares :: "crypto \<Rightarrow> byte list \<Rightarrow> byte list list \<Rightarrow> int list" where
  "msg_shares C hashKey msgBitShares =
     map (\<lambda>i. let s = SlotToInt C hashKey (msgBitShares ! i) True
              in if i = 1 then IntModulus - s else s) [0..<2]"

definition SetUploadArgs2 ::
  "'r rng \<Rightarrow> crypto \<Rightarrow> 'r sealing \<Rightarrow> byte list list \<Rightarrow> UploadReply1 \<Rightarrow> 'r \<Rightarrow> (int \<times> UploadArgs2 \<times> 'r) go" where
  "SetUploadArgs2 G C S msgBitShares upRes1 r =
     (let shares = msg_shares C (r1_HashKey upRes1) msgBitShares
      in go_bind (encrypt_all G S (enc_q2 S) 0 (map InsertQuery2.make shares) r)
           (\<lambda>(cs, r). Ok (sum_list shares mod IntModulus,
              \<lparr>a2_Uuid = r1_Uuid upRes1, a2_HashKey = r1_HashKey upRes1, a2_Query = cs\<rparr>, r)))"

text \<open>The plain third queries: shares of \<open>t1\<close>, \<open>t2\<close> and the two product proofs.\<close>

definition queries3 ::
  "'r rng \<Rightarrow> crypto \<Rightarrow> Plaintext \<Rightarrow> int \<Rightarrow> byte list \<Rightarrow> byte list \<Rightarrow> 'r \<Rightarrow> (InsertQuery3 list \<times> 'r) option" where
  "queries3 G C msg msgInt hashKey challenge r =
     (let (z1, z2, t1, t2) = getTestValues C challenge hashKey msg msgInt 0 0
      in do {
        (t1Shares, r) \<leftarrow> Share G IntModulus 2 t1 r;
        (t2Shares, r) \<leftarrow> Share G IntModulus 2 t2 r;
        (t1Proof, r) \<leftarrow> Prove G IntModulus 2 z1 z1 t1 r;
        (t2Proof, r) \<leftarrow> Prove G IntModulus 2 msgInt z2 t2 r;
        Some (map (\<lambda>i. \<lparr>TShare1 = t1Shares ! i, TShare2 = t2Shares ! i,
                        TProof1 = t1Proof ! i, TProof2 = t2Proof ! i\<rparr>) [0..<2], r)
      })"

definition SetUploadArgs3 ::
  "'r rng \<Rightarrow> crypto \<Rightarrow> 'r sealing \<Rightarrow> Plaintext \<Rightarrow> int \<Rightarrow> UploadReply1 \<Rightarrow> UploadReply2 \<Rightarrow> 'r
     \<Rightarrow> (UploadArgs3 \<times> 'r) go" where
  "SetUploadArgs3 G C S msg msgInt upRes1 upRes2 r =
     go_bind (go_of_option (queries3 G C msg msgInt (r1_HashKey upRes1) (Challenge upRes2) r))
       (\<lambda>(queries, r).
     go_bind (encrypt_all G S (enc_q3 S) 0 queries r)
       (\<lambda>(cs, r). Ok (\<lparr>a3_Uuid = r1_Uuid upRes1, a3_HashKey = r1_HashKey upRes1, a3_Query = cs\<rparr>, r)))"

definition ComputeProofVector :: "byte list list \<Rightarrow> bool list \<Rightarrow> byte list list option" where
  "ComputeProofVector keys keyMask =
     (if length keyMask < length keys then None
      else Some (map (\<lambda>i. (if keyMask ! i then 0x00 else 0xff) # keys ! i) [0..<length keys]))"

section \<open>The two servers\<close>

record PrepareArgs =
  p_Uuid :: int
  p_HashKey :: "byte list"
  p_Challenge :: "byte list"
  RandomPoint :: int
  p_Query1 :: EncryptedInsertQuery
  p_Query2 :: EncryptedInsertQuery
  p_Query3 :: EncryptedInsertQuery

record PrepareReply =
  AnsShare1 :: AnsShare
  AnsShare2 :: AnsShare
  OutShare :: int

record CommitArgs =
  c_Uuid :: int
  c_Commit :: bool

record DbServer =
  ServerIdx :: nat
  pending :: "int \<rightharpoonup> InsertQueryTuple"
  entries :: SlotTable
  plain :: matrix

text \<open>What \<^verbatim>\<open>Prepare\<close> does once the three queries are decrypted.\<close>

definition prepare_tuple ::
  "crypto \<Rightarrow> int \<Rightarrow> int \<Rightarrow> InsertQueryTuple \<Rightarrow> DbServer \<Rightarrow> (PrepareReply \<times> DbServer) go" where
  "prepare_tuple C uuid randomPoint tup s =
     (let s = s\<lparr>pending := (pending s)(uuid \<mapsto> tup)\<rparr>;
          outShare = (TShare1 (q3 tup) - TShare2 (q3 tup)) mod IntModulus
      in go_bind (go_of_option (processQuery C tup (ServerIdx s = 1) (entries s, 0, 0)))
           (\<lambda>(t, zShare1, zShare2).
              Ok (\<lparr>AnsShare1 = Query IntModulus randomPoint (TProof1 (q3 tup)) zShare1 zShare1 (TShare1 (q3 tup)),
                   AnsShare2 = Query IntModulus randomPoint (TProof2 (q3 tup)) (MsgShare (q2 tup)) zShare2
                                 (TShare2 (q3 tup)),
                   OutShare = outShare\<rparr>,
                  s\<lparr>entries := t\<rparr>)))"

definition Prepare ::
  "crypto \<Rightarrow> 'r sealing \<Rightarrow> PrepareArgs \<Rightarrow> DbServer \<Rightarrow> (PrepareReply \<times> DbServer) go" where
  "Prepare C S prep s =
     (case DecryptQuery S (dec_q1 S) (ServerIdx s) (p_Query1 prep) of Inl _ \<Rightarrow> Panic | Inr x1 \<Rightarrow>
      case DecryptQuery S (dec_q2 S) (ServerIdx s) (p_Query2 prep) of Inl _ \<Rightarrow> Panic | Inr x2 \<Rightarrow>
      case DecryptQuery S (dec_q3 S) (ServerIdx s) (p_Query3 prep) of Inl _ \<Rightarrow> Panic | Inr x3 \<Rightarrow>
      prepare_tuple C (p_Uuid prep) (RandomPoint prep)
        \<lparr>iq_hashKey = p_HashKey prep, iq_challenge = p_Challenge prep, q1 = x1, q2 = x2, q3 = x3\<rparr> s)"

definition Commit :: "CommitArgs \<Rightarrow> DbServer \<Rightarrow> (unit \<times> DbServer) go" where
  "Commit com s =
     (if pending s (c_Uuid com) = None
      then Err (ErrorString (''Got commit msg for unknown UUID: '' @ show_int (c_Uuid com)))
      else if \<not> c_Commit com then Panic
      else Ok ((), s\<lparr>pending := (pending s)(c_Uuid com := None)\<rparr>))"

definition StorePlaintext :: "matrix \<Rightarrow> DbServer \<Rightarrow> (unit \<times> DbServer) go" where
  "StorePlaintext p s = Ok ((), s\<lparr>plain := p\<rparr>)"

definition DumpTable :: "DbServer \<Rightarrow> (matrix \<times> DbServer) go" where
  "DumpTable s =
     go_bind (go_of_option (CopyToAndClear (entries s))) (\<lambda>(m, t). Ok (m, s\<lparr>entries := t\<rparr>))"

definition DumpPlaintext :: "DbServer \<Rightarrow> (matrix \<times> DbServer) go" where
  "DumpPlaintext s = Ok (plain s, s)"

section \<open>Fan-out from the leader\<close>

text \<open>A server process is up, or ended by a panic (net/rpc does not recover).\<close>

datatype proc = Up DbServer | Down

definition rpc_call :: "(DbServer \<Rightarrow> ('b \<times> DbServer) go) \<Rightarrow> proc \<Rightarrow> 'b res \<times> proc" where
  "rpc_call f p =
     (case p of
        Down \<Rightarrow> (Inl (ErrorString ''connection is shut down''), Down)
      | Up s \<Rightarrow> (case f s of
                  Ok (b, s') \<Rightarrow> (Inr b, Up s')
                | Err e \<Rightarrow> (Inl (rpc_error e), Up s)
                | Panic \<Rightarrow> (Inl (ErrorString ''unexpected EOF''), Down)))"

text \<open>
  Every server is called concurrently; the calls touch different processes. The first error to
  arrive is returned (\<open>order\<close> is the order of arrival). The calls that are still running go on.
\<close>

definition fanout ::
  "string \<Rightarrow> nat list \<Rightarrow> (nat \<Rightarrow> DbServer \<Rightarrow> ('b \<times> DbServer) go) \<Rightarrow> proc list \<Rightarrow> 'b list res \<times> proc list" where
  "fanout what order f ps =
     (let rs = map (\<lambda>i. rpc_call (f i) (ps ! i)) [0..<NUM_SERVERS];
          errs = [e. i \<leftarrow> order, e \<leftarrow> (case fst (rs ! i) of Inl e \<Rightarrow> [e] | Inr _ \<Rightarrow> [])]
      in (case errs of
            e # _ \<Rightarrow> Inl (Wrapped (what @ '' fanout failed: '') e '''')
          | [] \<Rightarrow> Inr (map (\<lambda>r. projr (fst r)) rs),
          map snd rs))"

record CompletedUploadMessage =
  m_ID :: string
  m_ReplicaID :: string
  m_EpochID :: int
  m_ShardID :: int
  m_Uuid :: int
  m_HashKey :: "byte list"
  m_Challenge :: "byte list"
  m_GlobalRow :: int
  m_LocalRow :: int
  m_EnqueuedAt :: gotime
  m_Attempts :: int
  m_Args1 :: UploadArgs1
  m_Args2 :: UploadArgs2
  m_Args3 :: UploadArgs3

definition preps :: "CompletedUploadMessage \<Rightarrow> int \<Rightarrow> nat \<Rightarrow> PrepareArgs" where
  "preps msg randPt i =
     \<lparr>p_Uuid = m_Uuid msg, p_HashKey = m_HashKey msg, p_Challenge = m_Challenge msg,
      RandomPoint = randPt, p_Query1 = a1_Query (m_Args1 msg) ! i,
      p_Query2 = a2_Query (m_Args2 msg) ! i, p_Query3 = a3_Query (m_Args3 msg) ! i\<rparr>"

text \<open>The failure lines the leader logs for the servers' replies.\<close>

definition prepare_log :: "PrepareReply list \<Rightarrow> string list" where
  "prepare_log replies =
     (if (\<Sum>i<NUM_SERVERS. OutShare (replies ! i)) mod IntModulus \<noteq> 0
      then [''FAIL!!!!!!!! <<<<< 1''] else []) @
     (if \<not> Decide IntModulus (map (\<lambda>i. AnsShare1 (replies ! i)) [0..<NUM_SERVERS])
      then [''Proof 1 FAIL!!!!!!!! <<<<< :(''] else []) @
     (if \<not> Decide IntModulus (map (\<lambda>i. AnsShare2 (replies ! i)) [0..<NUM_SERVERS])
      then [''Proof 2 FAIL!!!!!!!! <<<<< :(''] else [])"

text \<open>
  \<open>peers\<close> is the result of \<^verbatim>\<open>requirePeerRPCClients\<close>. The result is the decision, the failure lines,
  the random source and the server processes.
\<close>

definition submitPrepares ::
  "'r rng \<Rightarrow> crypto \<Rightarrow> 'r sealing \<Rightarrow> unit res \<Rightarrow> nat list \<Rightarrow> CompletedUploadMessage \<Rightarrow> 'r \<Rightarrow> proc list
     \<Rightarrow> bool res \<times> string list \<times> 'r \<times> proc list" where
  "submitPrepares G C S peers order msg r ps =
     (case peers of Inl e \<Rightarrow> (Inl e, [], r, ps) | Inr _ \<Rightarrow>
      let (randPt, r) = RandInt G IntModulus r;
          (res, ps) = fanout ''prepare'' order (\<lambda>i. Prepare C S (preps msg randPt i)) ps
      in case res of
           Inl e \<Rightarrow> (Inl e, [], r, ps)
         | Inr replies \<Rightarrow> (let okay = True in (Inr okay, prepare_log replies, r, ps)))"

definition submitCommits ::
  "unit res \<Rightarrow> nat list \<Rightarrow> int \<Rightarrow> bool \<Rightarrow> proc list \<Rightarrow> unit res \<times> proc list" where
  "submitCommits peers order uuid shouldCommit ps =
     (case peers of Inl e \<Rightarrow> (Inl e, ps) | Inr _ \<Rightarrow>
      let (res, ps) = fanout ''commit'' order (\<lambda>_. Commit \<lparr>c_Uuid = uuid, c_Commit = shouldCommit\<rparr>) ps
      in (map_sum id (\<lambda>_. ()) res, ps))"

section \<open>The mask of an honest upload\<close>

lemma randomVectorKeys_ok:
  "rng_ok G \<Longrightarrow> length (fst (randomVectorKeys G n r)) = n \<and>
     (\<forall>k \<in> set (fst (randomVectorKeys G n r)). length k = KEY_LENGTH)"
proof (induction n arbitrary: r)
  case (Suc n)
  obtain k r1 where k: "NewKey G r = (k, r1)" by fastforce
  have "length k = KEY_LENGTH"
    using Suc.prems k by (simp add: NewKey_def RandBytes_def rng_ok_def) (metis fst_conv)
  with Suc.IH [OF Suc.prems, of r1] show ?case by (simp add: k split_def Let_def)
qed simp

lemma RandVectorBool_length: "length (fst (RandVectorBool G n r)) = n"
  by (induction n arbitrary: r) (simp_all add: split_def Let_def)

lemma slice_slot:
  assumes "length row = ROW_LENGTH" "0 \<le> x" "x < int TABLE_WIDTH"
  shows "slice row (wrap64 (x * int SLOT_LENGTH)) (wrap64 ((x + 1) * int SLOT_LENGTH))
           = Some (slot_of row (nat x))"
proof -
  have x: "nat x < TABLE_WIDTH" using assms by simp
  have le: "nat x * SLOT_LENGTH + SLOT_LENGTH \<le> ROW_LENGTH" by (rule slot_end_le [OF x])
  have small: "ROW_LENGTH \<le> 2 ^ 40" by (simp add: ROW_LENGTH_def TABLE_WIDTH_def SLOT_LENGTH_def)
  have w: "wrap64 (int n) = int n" if "n \<le> ROW_LENGTH" for n
  proof (rule wrap64_small)
    have "int n \<le> int (2 ^ 40)" using that small by (subst of_nat_le_iff) simp
    then show "int n \<le> max_int64" by (simp add: max_int64_def)
  qed simp
  have e: "x * int SLOT_LENGTH = int (nat x * SLOT_LENGTH)"
    "(x + 1) * int SLOT_LENGTH = int (nat x * SLOT_LENGTH + SLOT_LENGTH)"
    using assms(2) by (simp_all add: distrib_right)
  show ?thesis unfolding e using w le assms(1)
    by (simp add: slice_def slot_of_def del: of_nat_add of_nat_mult)
qed

lemma copy_slot_id: "length b = SLOT_LENGTH \<Longrightarrow> copy_slot b = b"
  by (simp add: copy_slot_def)

lemma xorEq_slot:
  "length a = SLOT_LENGTH \<Longrightarrow> length b = SLOT_LENGTH \<Longrightarrow> xorEq a b = Some (xor_bytes a b)"
  by (simp add: xorEq_bytes)

lemma Evaluate_zero: "crypto_ok C \<Longrightarrow> Evaluate C k zero_row = aes_ctr C k ROW_LENGTH"
  by (simp add: Evaluate_def zero_row_def crypto_ok_def)

lemma length_aes_ctr [simp]: "crypto_ok C \<Longrightarrow> length (aes_ctr C k n) = n"
  by (simp add: crypto_ok_def)

lemma computeMessageMask_ok:
  assumes C: "crypto_ok C" and k: "length key = KEY_LENGTH" "length keyP = KEY_LENGTH"
    and ok: "plaintext_ok msg" and row: "MessageToRow msg = Some row"
  defines "p0 \<equiv> aes_ctr C key ROW_LENGTH" and "p1 \<equiv> aes_ctr C keyP ROW_LENGTH" and "x \<equiv> nat (X msg)"
  shows "computeMessageMask C key keyP msg xorBit =
     Ok (xor_bytes (xor_bytes p0 p1) row,
         if xorBit then [xor_bytes (Message msg) (slot_of p1 x), slot_of p1 x]
         else [slot_of p0 x, xor_bytes (Message msg) (slot_of p0 x)])"
proof -
  have len: "length p0 = ROW_LENGTH" "length p1 = ROW_LENGTH" "length row = ROW_LENGTH"
    using C MessageToRow_length [OF row] by (simp_all add: p0_def p1_def)
  have x: "x < TABLE_WIDTH" using ok by (auto simp: x_def)
  have sl: "length (slot_of p0 x) = SLOT_LENGTH" "length (slot_of p1 x) = SLOT_LENGTH"
    using len x by simp_all
  have slice: "slice p (wrap64 (X msg * int SLOT_LENGTH)) (wrap64 ((X msg + 1) * int SLOT_LENGTH))
      = Some (slot_of p x)" if "length p = ROW_LENGTH" for p
    unfolding x_def using that ok by (intro slice_slot) simp_all
  have m: "length (Message msg) = SLOT_LENGTH" using ok by simp
  have e: "Evaluate C key zero_row = p0" "Evaluate C keyP zero_row = p1"
    using C by (simp_all add: Evaluate_zero p0_def p1_def)
  have n: "NewPrf key = Inr key" "NewPrf keyP = Inr keyP" using k by (simp_all add: NewPrf_def KEY_LENGTH_def)
  have z: "xor_bytes zero_row p0 = p0" using len by (simp add: zero_row_def)
  have zs: "xorEq zero_slot b = Some b" if "length b = SLOT_LENGTH" for b
    using that by (simp add: xorEq_slot zero_slot_def)
  show ?thesis
    using slice [OF len(1)] slice [OF len(2)] len sl m
    by (cases xorBit)
      (simp_all add: computeMessageMask_def n e row Let_def z zs copy_slot_id xorEq_slot)
qed

section \<open>The rows of an honest pair of queries\<close>

text \<open>What the two plain queries of an honest upload have in common, and where they differ.\<close>

definition honest_pair ::
  "crypto \<Rightarrow> Plaintext \<Rightarrow> byte list list \<Rightarrow> InsertQuery1 \<Rightarrow> InsertQuery1 \<Rightarrow> bool" where
  "honest_pair C msg shares qa qb \<longleftrightarrow> query_ok qa \<and> query_ok qb \<and> length shares = 2 \<and>
     (\<exists>row. MessageToRow msg = Some row \<and>
       (\<forall>y < TABLE_HEIGHT. xor_bytes (the (rowData C qa y)) (the (rowData C qb y))
            = (if y = nat (Y msg) then row else zero_row)) \<and>
       slot_of (the (rowData C qa (nat (Y msg)))) (nat (X msg)) = shares ! 0 \<and>
       slot_of (the (rowData C qb (nat (Y msg)))) (nat (X msg)) = shares ! 1)"

lemma slot_xor_self:
  "length a = ROW_LENGTH \<Longrightarrow> length b = ROW_LENGTH \<Longrightarrow> x < TABLE_WIDTH
     \<Longrightarrow> slot_of (xor_bytes a b) x = replicate SLOT_LENGTH 0 \<Longrightarrow> slot_of a x = slot_of b x"
proof -
  assume l: "length a = ROW_LENGTH" "length b = ROW_LENGTH" and x: "x < TABLE_WIDTH"
    and z: "slot_of (xor_bytes a b) x = replicate SLOT_LENGTH 0"
  have sl: "length (slot_of a x) = SLOT_LENGTH" "length (slot_of b x) = SLOT_LENGTH" using l x by simp_all
  have "slot_of b x = xor_bytes (slot_of a x) (xor_bytes (slot_of a x) (slot_of b x))"
    using sl by simp
  also have "xor_bytes (slot_of a x) (slot_of b x) = replicate SLOT_LENGTH 0"
    using z by (simp add: slot_of_xor)
  finally show "slot_of a x = slot_of b x" using sl by simp
qed

lemma honest_pair_expansion:
  assumes "honest_pair C msg shares qa qb" "MessageToRow msg = Some row"
  shows "xor_matrix (expansion C qa) (expansion C qb)
           = zero_matrix[nat (Y msg) := row]"
  using assms
  by - (rule matrix_eqI, auto simp: honest_pair_def zero_matrix_def nth_list_update)

lemma honest_plain_pair:
  assumes C: "crypto_ok C" and ok: "plaintext_ok msg"
    and keys: "length keys = TABLE_HEIGHT" "\<forall>k \<in> set keys. length k = KEY_LENGTH"
    and kP: "length kP = KEY_LENGTH" and mask: "length keyMask = TABLE_HEIGHT"
    and y: "y = nat (Y msg)"
    and cm: "computeMessageMask C (keys ! y) kP msg (keyMask ! y) = Ok (msgMask, shares)"
  shows "honest_pair C msg shares
     \<lparr>KeyIndex = 0, Keys = keys, KeyMask = keyMask, MessageMask = msgMask\<rparr>
     \<lparr>KeyIndex = 1, Keys = keys[y := kP], KeyMask = keyMask[y := \<not> keyMask ! y], MessageMask = msgMask\<rparr>"
    (is "honest_pair C msg shares ?qa ?qb")
proof -
  have yH: "y < TABLE_HEIGHT" using ok y by auto
  have xW: "nat (X msg) < TABLE_WIDTH" using ok by auto
  obtain row where row: "MessageToRow msg = Some row" using MessageToRow_ok [OF ok] by blast
  have rl: "length row = ROW_LENGTH" by (rule MessageToRow_length [OF row])
  define p0 p1 where "p0 = aes_ctr C (keys ! y) ROW_LENGTH" and "p1 = aes_ctr C kP ROW_LENGTH"
  have pl: "length p0 = ROW_LENGTH" "length p1 = ROW_LENGTH" using C by (simp_all add: p0_def p1_def)
  have k0: "length (keys ! y) = KEY_LENGTH" using keys yH by simp
  from computeMessageMask_ok [OF C k0 kP ok row, of "keyMask ! y"] cm
  have mm: "msgMask = xor_bytes (xor_bytes p0 p1) row"
    and sh: "shares = (if keyMask ! y then [xor_bytes (Message msg) (slot_of p1 (nat (X msg))), slot_of p1 (nat (X msg))]
         else [slot_of p0 (nat (X msg)), xor_bytes (Message msg) (slot_of p0 (nat (X msg)))])"
    by (auto simp: p0_def p1_def)
  have ml: "length msgMask = ROW_LENGTH" using mm pl rl by simp
  have qok: "query_ok ?qa" "query_ok ?qb"
    using keys kP mask ml yH by (auto simp: query_ok_def nth_list_update)
  have same: "rowData C ?qa i = rowData C ?qb i" if "i \<noteq> y" for i
    using that by (simp add: rowData_def Let_def split: sum.split)
  have same_xor: "xor_bytes (the (rowData C ?qa i)) (the (rowData C ?qb i)) = zero_row"
    if "i < TABLE_HEIGHT" "i \<noteq> y" for i
    using that same [of i] rowData_length [OF C qok(1) that(1)] by (simp add: zero_row_def)
  have da: "the (rowData C ?qa y) = (if keyMask ! y then xor_bytes p1 row else p0)"
    using rowData_Some [OF C qok(1) yH] mm pl rl by (simp add: p0_def [symmetric] xor_bytes_assoc)
  have db: "the (rowData C ?qb y) = (if keyMask ! y then p1 else xor_bytes p0 row)"
    using rowData_Some [OF C qok(2) yH] mm pl rl keys mask yH
    by (simp add: p1_def [symmetric] xor_bytes_assoc xor_bytes_left_commute [of p0 p1 row])
  have xy: "xor_bytes (the (rowData C ?qa y)) (the (rowData C ?qb y)) = row"
    unfolding da db using pl rl by (simp add: xor_bytes_commute [of "xor_bytes p1 row" p1])
  have msl: "slot_of row (nat (X msg)) = Message msg" using slot_of_MessageToRow [OF ok row xW] by simp
  have sl: "length (slot_of p0 (nat (X msg))) = SLOT_LENGTH" "length (slot_of p1 (nat (X msg))) = SLOT_LENGTH"
    using pl xW by simp_all
  have "slot_of (the (rowData C ?qa y)) (nat (X msg)) = shares ! 0"
    "slot_of (the (rowData C ?qb y)) (nat (X msg)) = shares ! 1"
    unfolding da db sh using sl ok
    by (simp_all add: slot_of_xor msl xor_bytes_commute [of _ "Message msg"])
  with qok row same_xor xy y show ?thesis
    by (auto simp: honest_pair_def sh)
qed

section \<open>The sketches of an honest pair\<close>

lemma honest_slots_equal:
  assumes C: "crypto_ok C" and ok: "plaintext_ok msg" and h: "honest_pair C msg shares qa qb"
    and x: "x < TABLE_WIDTH" and y: "y < TABLE_HEIGHT" and other: "\<not> (y = nat (Y msg) \<and> x = nat (X msg))"
  shows "slot_of (the (rowData C qa y)) x = slot_of (the (rowData C qb y)) x"
proof (rule slot_xor_self)
  have q: "query_ok qa" "query_ok qb" using h by (auto simp: honest_pair_def)
  show "length (the (rowData C qa y)) = ROW_LENGTH" "length (the (rowData C qb y)) = ROW_LENGTH"
    using rowData_length [OF C _ y] q by simp_all
  obtain row where row: "MessageToRow msg = Some row" and
    xo: "xor_bytes (the (rowData C qa y)) (the (rowData C qb y)) = (if y = nat (Y msg) then row else zero_row)"
    using h y by (auto simp: honest_pair_def)
  show "slot_of (xor_bytes (the (rowData C qa y)) (the (rowData C qb y))) x = replicate SLOT_LENGTH 0"
    unfolding xo using other slot_of_MessageToRow [OF ok row x] x by auto
qed (rule x)

lemma double_delta:
  fixes xm ym :: nat
  shows "xm < W \<Longrightarrow> ym < H \<Longrightarrow>
     (\<Sum>y<H. \<Sum>x<W. if y = ym \<and> x = xm then f x y else (0::int)) = f xm ym"
proof -
  assume a: "xm < W" "ym < H"
  have "(\<Sum>y<H. \<Sum>x<W. if y = ym \<and> x = xm then f x y else (0::int))
      = (\<Sum>y<H. if y = ym then (\<Sum>x<W. if x = xm then f x y else 0) else 0)"
    by (intro sum.cong refl) (simp cong: if_cong)
  also have "\<dots> = f xm ym" using a by (simp add: sum.delta)
  finally show ?thesis .
qed

lemma pair_sum:
  assumes C: "crypto_ok C" and ok: "plaintext_ok msg" and h: "honest_pair C msg shares qa qb"
  defines "a \<equiv> \<lambda>x y. slot_of (the (rowData C qa y)) x" and "b \<equiv> \<lambda>x y. slot_of (the (rowData C qb y)) x"
  shows "((\<Sum>y<TABLE_HEIGHT. \<Sum>x<TABLE_WIDTH. w x y * signed_val C hk False (a x y))
        + (\<Sum>y<TABLE_HEIGHT. \<Sum>x<TABLE_WIDTH. w x y * signed_val C hk True (b x y))) mod IntModulus
     = (w (nat (X msg)) (nat (Y msg)) * (slot_val C hk (shares ! 0) - slot_val C hk (shares ! 1))) mod IntModulus"
proof -
  let ?v = "slot_val C hk"
  define K where "K = (\<Sum>y<TABLE_HEIGHT. \<Sum>x<TABLE_WIDTH. w x y)"
  have "(\<Sum>y<TABLE_HEIGHT. \<Sum>x<TABLE_WIDTH. w x y * signed_val C hk False (a x y))
        + (\<Sum>y<TABLE_HEIGHT. \<Sum>x<TABLE_WIDTH. w x y * signed_val C hk True (b x y))
      = (\<Sum>y<TABLE_HEIGHT. \<Sum>x<TABLE_WIDTH. w x y * (?v (a x y) - ?v (b x y)) + w x y * IntModulus)"
    by (simp add: signed_val_def sum.distrib [symmetric] algebra_simps)
  also have "\<dots> = (\<Sum>y<TABLE_HEIGHT. \<Sum>x<TABLE_WIDTH. w x y * (?v (a x y) - ?v (b x y))) + K * IntModulus"
    by (simp add: sum.distrib K_def sum_distrib_right)
  also have "(\<Sum>y<TABLE_HEIGHT. \<Sum>x<TABLE_WIDTH. w x y * (?v (a x y) - ?v (b x y)))
      = (\<Sum>y<TABLE_HEIGHT. \<Sum>x<TABLE_WIDTH. if y = nat (Y msg) \<and> x = nat (X msg)
            then w x y * (?v (a x y) - ?v (b x y)) else 0)"
    using honest_slots_equal [OF C ok h] by (intro sum.cong refl) (auto simp: a_def b_def)
  also have "\<dots> = w (nat (X msg)) (nat (Y msg)) * (?v (shares ! 0) - ?v (shares ! 1))"
    using ok h by (subst double_delta) (auto simp: a_def b_def honest_pair_def)
  finally show ?thesis by simp
qed

lemma honest_sketch:
  fixes hk ch :: "byte list"
  assumes C: "crypto_ok C" and ok: "plaintext_ok msg" and h: "honest_pair C msg shares qa qb"
  defines "d \<equiv> slot_val C hk (shares ! 0) - slot_val C hk (shares ! 1)"
    and "r \<equiv> chal C ch (X msg) (Y msg)"
  shows "(fst (query_sketch C qa False hk ch TABLE_HEIGHT) + fst (query_sketch C qb True hk ch TABLE_HEIGHT))
           mod IntModulus = (r * d) mod IntModulus"
    and "(snd (query_sketch C qa False hk ch TABLE_HEIGHT) + snd (query_sketch C qb True hk ch TABLE_HEIGHT))
           mod IntModulus = (r * r * d) mod IntModulus"
proof -
  have xy: "int (nat (X msg)) = X msg" "int (nat (Y msg)) = Y msg" using ok by simp_all
  show "(fst (query_sketch C qa False hk ch TABLE_HEIGHT) + fst (query_sketch C qb True hk ch TABLE_HEIGHT))
           mod IntModulus = (r * d) mod IntModulus"
    using pair_sum [OF C ok h, of "\<lambda>x y. chal C ch (int x) (int y)" hk] ok
    by (simp add: query_sketch_def row_sketch_def d_def r_def xy)
  show "(snd (query_sketch C qa False hk ch TABLE_HEIGHT) + snd (query_sketch C qb True hk ch TABLE_HEIGHT))
           mod IntModulus = (r * r * d) mod IntModulus"
    using pair_sum [OF C ok h, of "\<lambda>x y. chal C ch (int x) (int y) * chal C ch (int x) (int y)" hk] ok
    by (simp add: query_sketch_def row_sketch_def d_def r_def xy ac_simps)
qed

lemma mod_share_diff: "(a mod p + (p - b mod p)) mod p = (a - b) mod (p::int)"
proof -
  have "a mod p + (p - b mod p) = (a mod p - b mod p) + p" by simp
  then show ?thesis by (simp only: mod_add_self2 mod_diff_eq)
qed

lemma msg_shares_sum:
  "sum_list (msg_shares C hk shares) mod IntModulus
     = (slot_val C hk (shares ! 0) - slot_val C hk (shares ! 1)) mod IntModulus"
proof -
  have "sum_list (msg_shares C hk shares) = slot_val C hk (shares ! 0) mod IntModulus
      + (IntModulus - slot_val C hk (shares ! 1) mod IntModulus)"
    by (simp add: msg_shares_def SlotToInt_def slot_val_def upt_rec)
  then show ?thesis by (simp only: mod_share_diff)
qed

lemma length_msg_shares [simp]: "length (msg_shares C hk shares) = 2"
  by (simp add: msg_shares_def)

section \<open>The checks on an honest upload\<close>

lemma sum_two: "(\<Sum>i<2. f i) = f 0 + (f (Suc 0) :: int)"
  by (simp add: numeral_2_eq_2)

lemma queries3_honest:
  assumes q: "queries3 G C msg m hk ch r = Some (qs, r')"
    and rp: "rp = chal C ch (X msg) (Y msg)"
    and zA: "(zA0 + zA1) mod IntModulus = (rp * m) mod IntModulus"
    and zB: "(zB0 + zB1) mod IntModulus = (rp * rp * m) mod IntModulus"
    and mS: "(m0 + m1) mod IntModulus = m mod IntModulus"
  shows "length qs = 2"
    and "((TShare1 (qs ! 0) - TShare2 (qs ! 0)) + (TShare1 (qs ! 1) - TShare2 (qs ! 1))) mod IntModulus = 0"
    and "Decide IntModulus [Query IntModulus R (TProof1 (qs ! 0)) zA0 zA0 (TShare1 (qs ! 0)),
                            Query IntModulus R (TProof1 (qs ! 1)) zA1 zA1 (TShare1 (qs ! 1))]"
    and "Decide IntModulus [Query IntModulus R (TProof2 (qs ! 0)) m0 zB0 (TShare2 (qs ! 0)),
                            Query IntModulus R (TProof2 (qs ! 1)) m1 zB1 (TShare2 (qs ! 1))]"
proof -
  define z1 z2 where "z1 = (rp * m) mod IntModulus" and "z2 = (rp * m * rp) mod IntModulus"
  define t1 t2 where "t1 = (z1 * z1) mod IntModulus" and "t2 = (z2 * m) mod IntModulus"
  have tv: "getTestValues C ch hk msg m 0 0 = (z1, z2, t1, t2)"
    by (simp add: getTestValues_def Let_def updateTestValues_def z1_def z2_def t1_def t2_def rp chal_def)
  from q obtain s1 s2 p1 p2 ra rb rc where
    s1: "Share G IntModulus 2 t1 r = Some (s1, ra)" and s2: "Share G IntModulus 2 t2 ra = Some (s2, rb)" and
    p1: "Prove G IntModulus 2 z1 z1 t1 rb = Some (p1, rc)" and p2: "Prove G IntModulus 2 m z2 t2 rc = Some (p2, r')" and
    qs: "qs = map (\<lambda>i. \<lparr>TShare1 = s1 ! i, TShare2 = s2 ! i, TProof1 = p1 ! i, TProof2 = p2 ! i\<rparr>) [0..<2]"
    by (auto simp: queries3_def tv bind_eq_Some_conv split: prod.splits)
  have S1: "(s1 ! 0 + s1 ! 1) mod IntModulus = t1 mod IntModulus"
    using Share_Some [OF s1] nth_sum_list [of s1] by (simp add: sum_two)
  have S2: "(s2 ! 0 + s2 ! 1) mod IntModulus = t2 mod IntModulus"
    using Share_Some [OF s2] nth_sum_list [of s2] by (simp add: sum_two)
  show "length qs = 2" by (simp add: qs)
  have "t1 mod IntModulus = ((rp * m) * (rp * m)) mod IntModulus"
    by (simp only: t1_def z1_def mod_mult_eq mod_mod_trivial)
  moreover have "t2 mod IntModulus = ((rp * m * rp) * m) mod IntModulus"
    by (simp only: t2_def z2_def mod_mult_left_eq mod_mod_trivial)
  ultimately have t12: "t1 mod IntModulus = t2 mod IntModulus" by (simp only: ac_simps)
  have "((s1 ! 0 + s1 ! 1) - (s2 ! 0 + s2 ! 1)) mod IntModulus = (t1 - t1) mod IntModulus"
    using S1 S2 t12 by (intro mod_diff_cong) simp_all
  then show "((TShare1 (qs ! 0) - TShare2 (qs ! 0)) + (TShare1 (qs ! 1) - TShare2 (qs ! 1))) mod IntModulus = 0"
    by (simp add: qs upt_rec algebra_simps)
  have "Decide IntModulus (answers IntModulus R 2 p1 [zA0, zA1] [zA0, zA1] s1)"
    by (rule mulproof_complete [OF IntModulus_odd p1])
      (simp_all add: sum_two zA z1_def S1 [simplified] t1_def)
  then show "Decide IntModulus [Query IntModulus R (TProof1 (qs ! 0)) zA0 zA0 (TShare1 (qs ! 0)),
                            Query IntModulus R (TProof1 (qs ! 1)) zA1 zA1 (TShare1 (qs ! 1))]"
    by (simp add: qs upt_rec)
  have "Decide IntModulus (answers IntModulus R 2 p2 [m0, m1] [zB0, zB1] s2)"
    by (rule mulproof_complete [OF IntModulus_odd p2])
      (simp_all add: sum_two zB mS z2_def S2 [simplified] t2_def ac_simps)
  then show "Decide IntModulus [Query IntModulus R (TProof2 (qs ! 0)) m0 zB0 (TShare2 (qs ! 0)),
                            Query IntModulus R (TProof2 (qs ! 1)) m1 zB1 (TShare2 (qs ! 1))]"
    by (simp add: qs upt_rec)
qed

section \<open>Sealing round trip\<close>

lemma seal_round_trip:
  assumes S: "sealing_ok S" and i: "i < NUM_SERVERS"
    and enc: "enc q = Inr b" and dec: "dec b = Inr q"
  obtains c r' where "EncryptQuery G S enc i q r = Inr (c, r')" "DecryptQuery S dec i c = Inr q"
proof -
  obtain nonce r1 where n: "rng_Bytes G r 24 = (nonce, r1)" by fastforce
  obtain pub priv r2 where k: "box_GenerateKey S r1 = ((pub, priv), r2)" by (metis surj_pair)
  let ?c = "\<lparr>SenderPublicKey = pub, Nonce = nonce,
             Ciphertext = box_Seal S b nonce (ServerBoxPublicKeys S i) priv\<rparr>"
  have "EncryptQuery G S enc i q r = Inr (?c, r2)"
    by (simp add: EncryptQuery_def encryptBytes_def enc n k)
  moreover have "box_Open S (Ciphertext ?c) (Nonce ?c) (SenderPublicKey ?c) (ServerBoxPrivateKeys S i) = Some b"
    using S i k unfolding sealing_ok_def by simp blast
  then have "DecryptQuery S dec i ?c = Inr q" by (simp add: DecryptQuery_def decryptBytes_def dec)
  ultimately show ?thesis by (rule that)
qed

lemma encrypt_pair:
  assumes S: "sealing_ok S" and codec: "\<forall>q. \<exists>b. enc q = Inr b \<and> dec b = Inr q"
  obtains c0 c1 r' where "encrypt_all G S enc 0 [qa, qb] r = Ok ([c0, c1], r')"
    "DecryptQuery S dec 0 c0 = Inr qa" "DecryptQuery S dec 1 c1 = Inr qb"
proof -
  obtain b0 b1 where b: "enc qa = Inr b0" "dec b0 = Inr qa" "enc qb = Inr b1" "dec b1 = Inr qb"
    using codec by meson
  obtain c0 r0 where 0: "EncryptQuery G S enc 0 qa r = Inr (c0, r0)" "DecryptQuery S dec 0 c0 = Inr qa"
    using seal_round_trip [where enc = enc and dec = dec and i = 0 and G = G and r = r, OF S _ b(1,2)] by (auto simp: NUM_SERVERS_def)
  obtain c1 r1 where 1: "EncryptQuery G S enc 1 qb r0 = Inr (c1, r1)" "DecryptQuery S dec 1 c1 = Inr qb"
    using seal_round_trip [where enc = enc and dec = dec and i = 1 and G = G and r = r0, OF S _ b(3,4)] by (auto simp: NUM_SERVERS_def)
  from 0 1 show ?thesis by (intro that [of c0 c1 r1]) simp_all
qed

section \<open>The client's messages\<close>

lemma InitializeUploadArgs_honest:
  assumes G: "rng_ok G" and C: "crypto_ok C" and S: "sealing_ok S" and ok: "plaintext_ok msg"
  obtains c0 c1 shares qa qb r' where
    "InitializeUploadArgs G C S args msg r = Ok (args\<lparr>RouteRow := Y msg, a1_Query := [c0, c1]\<rparr>, shares, r')"
    "DecryptQuery S (dec_q1 S) 0 c0 = Inr qa" "DecryptQuery S (dec_q1 S) 1 c1 = Inr qb"
    "honest_pair C msg shares qa qb"
proof -
  obtain keys r1 where k: "randomVectorKeys G TABLE_HEIGHT r = (keys, r1)" by fastforce
  obtain keyMask r2 where m: "RandVectorBool G TABLE_HEIGHT r1 = (keyMask, r2)" by fastforce
  obtain kP r3 where p: "NewKey G r2 = (kP, r3)" by fastforce
  have kl: "length keys = TABLE_HEIGHT" "\<forall>k \<in> set keys. length k = KEY_LENGTH"
    using randomVectorKeys_ok [OF G, of TABLE_HEIGHT r] k by simp_all
  have ml: "length keyMask = TABLE_HEIGHT" using RandVectorBool_length [of G TABLE_HEIGHT r1] m by simp
  have pl: "length kP = KEY_LENGTH"
    using G p by (simp add: NewKey_def RandBytes_def rng_ok_def) (metis fst_conv)
  define y where "y = nat (Y msg)"
  have y: "y < TABLE_HEIGHT" using ok by (auto simp: y_def)
  obtain row where row: "MessageToRow msg = Some row" using MessageToRow_ok [OF ok] by blast
  have ky: "length (keys ! y) = KEY_LENGTH" using kl y by simp
  obtain mask shares where cm: "computeMessageMask C (keys ! y) kP msg (keyMask ! y) = Ok (mask, shares)"
    using computeMessageMask_ok [OF C ky pl ok row, of "keyMask ! y"] by blast
  let ?qa = "\<lparr>KeyIndex = 0, Keys = keys, KeyMask = keyMask, MessageMask = mask\<rparr>"
  let ?qb = "\<lparr>KeyIndex = 1, Keys = keys[y := kP], KeyMask = keyMask[y := \<not> keyMask ! y], MessageMask = mask\<rparr>"
  have pq: "plainQueries keys (keys[y := kP]) keyMask (keyMask[y := \<not> keyMask ! y]) mask = [?qa, ?qb]"
    by (simp add: plainQueries_def NUM_SERVERS_def upt_rec)
  obtain c0 c1 r4 where e: "encrypt_all G S (enc_q1 S) 0 [?qa, ?qb] r3 = Ok ([c0, c1], r4)"
    "DecryptQuery S (dec_q1 S) 0 c0 = Inr ?qa" "DecryptQuery S (dec_q1 S) 1 c1 = Inr ?qb"
    using encrypt_pair [OF S, of "enc_q1 S" "dec_q1 S" G ?qa ?qb r3] S unfolding sealing_ok_def by blast
  have "\<not> (Y msg < 0 \<or> int TABLE_HEIGHT \<le> Y msg)" using ok by simp
  then have "InitializeUploadArgs G C S args msg r
      = Ok (args\<lparr>RouteRow := Y msg, a1_Query := [c0, c1]\<rparr>, shares, r4)"
    using cm pq e(1) kl y
    by (simp add: InitializeUploadArgs_def k m p y_def [symmetric])
  then show ?thesis by (rule that [OF _ e(2,3) honest_plain_pair [OF C ok kl pl ml y_def cm]])
qed

lemma SetUploadArgs2_honest:
  assumes S: "sealing_ok S" and sh: "msg_shares C (r1_HashKey res1) shares = [m0, m1]"
  obtains c0 c1 r' where
    "SetUploadArgs2 G C S shares res1 r = Ok ((m0 + m1) mod IntModulus,
        \<lparr>a2_Uuid = r1_Uuid res1, a2_HashKey = r1_HashKey res1, a2_Query = [c0, c1]\<rparr>, r')"
    "DecryptQuery S (dec_q2 S) 0 c0 = Inr \<lparr>MsgShare = m0\<rparr>"
    "DecryptQuery S (dec_q2 S) 1 c1 = Inr \<lparr>MsgShare = m1\<rparr>"
proof -
  obtain c0 c1 r' where e: "encrypt_all G S (enc_q2 S) 0 [\<lparr>MsgShare = m0\<rparr>, \<lparr>MsgShare = m1\<rparr>] r = Ok ([c0, c1], r')"
    "DecryptQuery S (dec_q2 S) 0 c0 = Inr \<lparr>MsgShare = m0\<rparr>"
    "DecryptQuery S (dec_q2 S) 1 c1 = Inr \<lparr>MsgShare = m1\<rparr>"
    using encrypt_pair [OF S, of "enc_q2 S" "dec_q2 S" G "\<lparr>MsgShare = m0\<rparr>" "\<lparr>MsgShare = m1\<rparr>" r] S
    unfolding sealing_ok_def by blast
  then show ?thesis
    by (intro that [of c0 c1 r']) (simp_all add: SetUploadArgs2_def sh InsertQuery2.make_def)
qed

lemma queries3_total: "\<exists>qs r'. queries3 G C msg m hk ch r = Some (qs, r')"
proof -
  obtain z1 z2 t1 t2 where tv: "getTestValues C ch hk msg m 0 0 = (z1, z2, t1, t2)"
    by (metis prod_cases4)
  obtain s1 r1 where 1: "Share G IntModulus 2 t1 r = Some (s1, r1)"
    using Share_total [of 2 G IntModulus t1 r] by auto
  obtain s2 r2 where 2: "Share G IntModulus 2 t2 r1 = Some (s2, r2)"
    using Share_total [of 2 G IntModulus t2 r1] by auto
  obtain p1 r3 where 3: "Prove G IntModulus 2 z1 z1 t1 r2 = Some (p1, r3)"
    using Prove_total [of 2 G IntModulus z1 z1 t1 r2] by auto
  obtain p2 r4 where 4: "Prove G IntModulus 2 m z2 t2 r3 = Some (p2, r4)"
    using Prove_total [of 2 G IntModulus m z2 t2 r3] by auto
  show ?thesis by (simp add: queries3_def tv 1 2 3 4)
qed

lemma SetUploadArgs3_honest:
  assumes S: "sealing_ok S"
  obtains c0 c1 r' qs r'' where
    "SetUploadArgs3 G C S msg m res1 res2 r = Ok (\<lparr>a3_Uuid = r1_Uuid res1, a3_HashKey = r1_HashKey res1,
        a3_Query = [c0, c1]\<rparr>, r')"
    "queries3 G C msg m (r1_HashKey res1) (Challenge res2) r = Some (qs, r'')"
    "DecryptQuery S (dec_q3 S) 0 c0 = Inr (qs ! 0)"
    "DecryptQuery S (dec_q3 S) 1 c1 = Inr (qs ! 1)"
proof -
  obtain qs r1 where q: "queries3 G C msg m (r1_HashKey res1) (Challenge res2) r = Some (qs, r1)"
    using queries3_total [of G C msg m "r1_HashKey res1" "Challenge res2" r] by blast
  then have "length qs = 2" by (auto simp: queries3_def bind_eq_Some_conv split: prod.splits)
  then have qs: "qs = [qs ! 0, qs ! 1]" by (auto simp: numeral_2_eq_2 length_Suc_conv)
  obtain c0 c1 r' where e: "encrypt_all G S (enc_q3 S) 0 [qs ! 0, qs ! 1] r1 = Ok ([c0, c1], r')"
    "DecryptQuery S (dec_q3 S) 0 c0 = Inr (qs ! 0)" "DecryptQuery S (dec_q3 S) 1 c1 = Inr (qs ! 1)"
    using encrypt_pair [OF S, of "enc_q3 S" "dec_q3 S" G "qs ! 0" "qs ! 1" r1] S
    unfolding sealing_ok_def by blast
  have "encrypt_all G S (enc_q3 S) 0 qs r1 = Ok ([c0, c1], r')" using e(1) qs by metis
  then show ?thesis using q e(2,3) by (intro that [of c0 c1 r' qs r1]) (simp_all add: SetUploadArgs3_def)
qed

section \<open>Preparing and merging an honest upload\<close>

definition server_ok :: "nat \<Rightarrow> DbServer \<Rightarrow> bool" where
  "server_ok i s \<longleftrightarrow> ServerIdx s = i \<and> table_ok (entries s)"

lemma prepare_tuple_ok:
  assumes C: "crypto_ok C" and s: "server_ok i s" and q: "query_ok (q1 tup)"
  obtains t z1 z2 where
    "prepare_tuple C uuid R tup s = Ok
       (\<lparr>AnsShare1 = Query IntModulus R (TProof1 (q3 tup)) z1 z1 (TShare1 (q3 tup)),
         AnsShare2 = Query IntModulus R (TProof2 (q3 tup)) (MsgShare (q2 tup)) z2 (TShare2 (q3 tup)),
         OutShare = (TShare1 (q3 tup) - TShare2 (q3 tup)) mod IntModulus\<rparr>,
        s\<lparr>pending := (pending s)(uuid \<mapsto> tup), entries := t\<rparr>)"
    "table_ok t" "contents t = xor_matrix (contents (entries s)) (expansion C (q1 tup))"
    "z1 mod IntModulus = fst (query_sketch C (q1 tup) (i = 1) (iq_hashKey tup) (iq_challenge tup) TABLE_HEIGHT)
        mod IntModulus"
    "z2 mod IntModulus = snd (query_sketch C (q1 tup) (i = 1) (iq_hashKey tup) (iq_challenge tup) TABLE_HEIGHT)
        mod IntModulus"
proof -
  have t: "table_ok (entries s)" and i: "ServerIdx s = i" using s by (auto simp: server_ok_def)
  obtain t z1 z2 where P: "processQuery C tup (i = 1) (entries s, 0, 0) = Some (t, z1, z2)"
    "table_ok t" "table t = table (entries s)"
    "contents t = xor_matrix (contents (entries s)) (expansion C (q1 tup))"
    "z1 mod IntModulus = (0 + fst (query_sketch C (q1 tup) (i = 1) (iq_hashKey tup) (iq_challenge tup)
        TABLE_HEIGHT)) mod IntModulus"
    "z2 mod IntModulus = (0 + snd (query_sketch C (q1 tup) (i = 1) (iq_hashKey tup) (iq_challenge tup)
        TABLE_HEIGHT)) mod IntModulus"
    by (rule processQuery_spec [OF C q t, of "i = 1" 0 0])
  show ?thesis
    by (rule that [of z1 z2 t]) (use P i in \<open>simp_all add: prepare_tuple_def\<close>)
qed

lemma xor_matrix_interchange:
  assumes "matrix_ok a" "matrix_ok b" "matrix_ok c" "matrix_ok d"
  shows "xor_matrix (xor_matrix a b) (xor_matrix c d) = xor_matrix (xor_matrix a c) (xor_matrix b d)"
  using assms
  by - (rule matrix_eqI, simp_all add: xor_bytes_assoc xor_bytes_left_commute [of "b ! _" "c ! _" "d ! _"])

text \<open>The two servers' contents, XORed: what a merge would reveal now.\<close>

definition revealed :: "proc list \<Rightarrow> matrix" where
  "revealed ps = revealCleartext (map (\<lambda>p. case p of Up s \<Rightarrow> contents (entries s) | Down \<Rightarrow> zero_matrix) ps)"

lemma fanout_two:
  assumes "f 0 s0 = Ok (b0, s0')" "f 1 s1 = Ok (b1, s1')" "set order \<subseteq> {0, 1}"
  shows "fanout what order f [Up s0, Up s1] = (Inr [b0, b1], [Up s0', Up s1'])"
proof -
  let ?rs = "[(Inr b0 :: 'a res, Up s0'), (Inr b1, Up s1')]"
  have rs: "map (\<lambda>i. rpc_call (f i) ([Up s0, Up s1] ! i)) [0..<NUM_SERVERS] = ?rs"
    using assms by (simp add: NUM_SERVERS_def upt_rec rpc_call_def)
  have es: "[e. i \<leftarrow> order, e \<leftarrow> (case fst (?rs ! i) of Inl e \<Rightarrow> [e] | Inr _ \<Rightarrow> [])] = []"
    using assms(3) by (induction order) auto
  show ?thesis unfolding fanout_def Let_def rs es by simp
qed

lemma fanout_procs:
  "snd (fanout what order f ps) = map (\<lambda>i. snd (rpc_call (f i) (ps ! i))) [0..<NUM_SERVERS]"
  by (simp add: fanout_def Let_def o_def)

lemma honest_prepare:
  assumes C: "crypto_ok C" and ok: "plaintext_ok msg" and s0: "server_ok 0 s0" and s1: "server_ok 1 s1"
    and h: "honest_pair C msg shares qa qb" and row: "MessageToRow msg = Some row"
    and sh: "msg_shares C hk shares = [m0, m1]"
    and q3: "queries3 G C msg ((m0 + m1) mod IntModulus) hk ch r = Some (qs, r')"
  defines "ta \<equiv> \<lparr>iq_hashKey = hk, iq_challenge = ch, q1 = qa, q2 = \<lparr>MsgShare = m0\<rparr>, q3 = qs ! 0\<rparr>"
    and "tb \<equiv> \<lparr>iq_hashKey = hk, iq_challenge = ch, q1 = qb, q2 = \<lparr>MsgShare = m1\<rparr>, q3 = qs ! 1\<rparr>"
  obtains ra rb s0' s1' where
    "prepare_tuple C uuid R ta s0 = Ok (ra, s0')" "prepare_tuple C uuid R tb s1 = Ok (rb, s1')"
    "prepare_log [ra, rb] = []" "server_ok 0 s0'" "server_ok 1 s1'"
    "pending s0' = (pending s0)(uuid \<mapsto> ta)" "pending s1' = (pending s1)(uuid \<mapsto> tb)"
    "revealed [Up s0', Up s1'] = xor_matrix (revealed [Up s0, Up s1]) (zero_matrix[nat (Y msg) := row])"
proof -
  have q: "query_ok (q1 ta)" "query_ok (q1 tb)" using h by (simp_all add: honest_pair_def ta_def tb_def)
  define d where "d = slot_val C hk (shares ! 0) - slot_val C hk (shares ! 1)"
  define m where "m = (m0 + m1) mod IntModulus"
  have md: "m mod IntModulus = d mod IntModulus"
    using msg_shares_sum [of C hk shares] by (simp add: sh m_def d_def)
  obtain t0 x1 x2 where A:
    "prepare_tuple C uuid R ta s0 = Ok
       (\<lparr>AnsShare1 = Query IntModulus R (TProof1 (q3 ta)) x1 x1 (TShare1 (q3 ta)),
         AnsShare2 = Query IntModulus R (TProof2 (q3 ta)) (MsgShare (q2 ta)) x2 (TShare2 (q3 ta)),
         OutShare = (TShare1 (q3 ta) - TShare2 (q3 ta)) mod IntModulus\<rparr>,
        s0\<lparr>pending := (pending s0)(uuid \<mapsto> ta), entries := t0\<rparr>)" (is "_ = Ok (?ra, ?s0')")
    "table_ok t0" "contents t0 = xor_matrix (contents (entries s0)) (expansion C (q1 ta))"
    "x1 mod IntModulus = fst (query_sketch C (q1 ta) (0 = (1::nat)) (iq_hashKey ta) (iq_challenge ta) TABLE_HEIGHT)
        mod IntModulus"
    "x2 mod IntModulus = snd (query_sketch C (q1 ta) (0 = (1::nat)) (iq_hashKey ta) (iq_challenge ta) TABLE_HEIGHT)
        mod IntModulus"
    by (rule prepare_tuple_ok [OF C s0 q(1)])
  obtain t1 y1 y2 where B:
    "prepare_tuple C uuid R tb s1 = Ok
       (\<lparr>AnsShare1 = Query IntModulus R (TProof1 (q3 tb)) y1 y1 (TShare1 (q3 tb)),
         AnsShare2 = Query IntModulus R (TProof2 (q3 tb)) (MsgShare (q2 tb)) y2 (TShare2 (q3 tb)),
         OutShare = (TShare1 (q3 tb) - TShare2 (q3 tb)) mod IntModulus\<rparr>,
        s1\<lparr>pending := (pending s1)(uuid \<mapsto> tb), entries := t1\<rparr>)" (is "_ = Ok (?rb, ?s1')")
    "table_ok t1" "contents t1 = xor_matrix (contents (entries s1)) (expansion C (q1 tb))"
    "y1 mod IntModulus = fst (query_sketch C (q1 tb) (1 = (1::nat)) (iq_hashKey tb) (iq_challenge tb) TABLE_HEIGHT)
        mod IntModulus"
    "y2 mod IntModulus = snd (query_sketch C (q1 tb) (1 = (1::nat)) (iq_hashKey tb) (iq_challenge tb) TABLE_HEIGHT)
        mod IntModulus"
    by (rule prepare_tuple_ok [OF C s1 q(2)])
  define c where "c = chal C ch (X msg) (Y msg)"
  note sk = honest_sketch [OF C ok h, of hk ch]
  have "(x1 + y1) mod IntModulus = (c * d) mod IntModulus"
    using mod_add_cong [OF A(4) B(4)] sk(1) by (simp add: ta_def tb_def c_def d_def)
  then have zA: "(x1 + y1) mod IntModulus = (c * m) mod IntModulus"
    using mod_mult_cong [OF refl md] by metis
  have "(x2 + y2) mod IntModulus = (c * c * d) mod IntModulus"
    using mod_add_cong [OF A(5) B(5)] sk(2) by (simp add: ta_def tb_def c_def d_def)
  then have zB: "(x2 + y2) mod IntModulus = (c * c * m) mod IntModulus"
    using mod_mult_cong [OF refl md] by metis
  have mS: "(m0 + m1) mod IntModulus = ((m0 + m1) mod IntModulus) mod IntModulus" by simp
  note checks = queries3_honest [OF q3 c_def zA [unfolded m_def] zB [unfolded m_def] mS]
  have two: "[0..<NUM_SERVERS] = [0, 1]" "{..<NUM_SERVERS} = {0, 1}" by (auto simp: NUM_SERVERS_def upt_rec)
  have "prepare_log [?ra, ?rb] = []"
    unfolding prepare_log_def two using checks(2) checks(3,4) [of R] by (simp add: ta_def tb_def mod_simps)
  moreover have "revealed [Up ?s0', Up ?s1']
      = xor_matrix (revealed [Up s0, Up s1]) (zero_matrix[nat (Y msg) := row])"
  proof -
    have okm: "matrix_ok (contents (entries s0))" "matrix_ok (contents (entries s1))"
      "matrix_ok (expansion C qa)" "matrix_ok (expansion C qb)"
      using s0 s1 h by (auto simp: server_ok_def honest_pair_def intro: contents_ok expansion_ok [OF C])
    then show ?thesis
      using A(3) B(3) honest_pair_expansion [OF h row]
        xor_matrix_interchange [OF okm(1,3,2,4)]
      by (simp add: revealed_def revealCleartext_two ta_def tb_def)
  qed
  moreover have "server_ok 0 ?s0'" "server_ok 1 ?s1'"
    using s0 s1 A(2) B(2) by (simp_all add: server_ok_def)
  ultimately show ?thesis using A(1) B(1) by (intro that) simp_all
qed

section \<open>A concrete sealing\<close>

definition code1 :: "InsertQuery1 \<Rightarrow> nat" where
  "code1 q = to_nat (KeyIndex q, map (map uint) (Keys q), KeyMask q, map uint (MessageMask q))"

definition decode1 :: "nat \<Rightarrow> InsertQuery1" where
  "decode1 n = (let (i, ks, ms, mm) = from_nat n in
     \<lparr>KeyIndex = i, Keys = map (map word_of_int) ks, KeyMask = ms, MessageMask = map word_of_int mm\<rparr>)"

definition code_proof :: "ProofShare \<Rightarrow> int \<times> int \<times> int \<times> int" where
  "code_proof p = (F_0 p, G_0 p, H_0 p, H_2 p)"

definition decode_proof :: "int \<times> int \<times> int \<times> int \<Rightarrow> ProofShare" where
  "decode_proof = (\<lambda>(a, b, c, d). \<lparr>F_0 = a, G_0 = b, H_0 = c, H_2 = d\<rparr>)"

definition code3 :: "InsertQuery3 \<Rightarrow> nat" where
  "code3 q = to_nat (TShare1 q, TShare2 q, code_proof (TProof1 q), code_proof (TProof2 q))"

definition decode3 :: "nat \<Rightarrow> InsertQuery3" where
  "decode3 n = (let (a, b, c, d) = from_nat n in
     \<lparr>TShare1 = a, TShare2 = b, TProof1 = decode_proof c, TProof2 = decode_proof d\<rparr>)"

definition toy_sealing :: "'r sealing" where
  "toy_sealing = \<lparr>box_GenerateKey = (\<lambda>r. (([], []), r)),
     box_Seal = (\<lambda>m n pk sk. m), box_Open = (\<lambda>c n pk sk. Some c),
     ServerBoxPublicKeys = (\<lambda>_. []), ServerBoxPrivateKeys = (\<lambda>_. []),
     enc_q1 = (\<lambda>q. Inr (replicate (code1 q) 0)), dec_q1 = (\<lambda>b. Inr (decode1 (length b))),
     enc_q2 = (\<lambda>q. Inr (replicate (to_nat (MsgShare q)) 0)),
     dec_q2 = (\<lambda>b. Inr \<lparr>MsgShare = from_nat (length b)\<rparr>),
     enc_q3 = (\<lambda>q. Inr (replicate (code3 q) 0)), dec_q3 = (\<lambda>b. Inr (decode3 (length b)))\<rparr>"

lemma decode1_code1: "decode1 (code1 q) = q"
  by (simp add: decode1_def code1_def comp_def)

lemma decode3_code3: "decode3 (code3 q) = q"
  by (simp add: decode3_def code3_def decode_proof_def code_proof_def)

lemma toy_sealing_ok: "sealing_ok (toy_sealing :: 'r sealing)"
  by (simp add: sealing_ok_def toy_sealing_def decode1_code1 decode3_code3)

section \<open>Properties\<close>

lemma honest_upload:
  assumes "rng_ok G" "crypto_ok C" "sealing_ok S"
    and "length (Message msg) = SLOT_LENGTH" "0 \<le> X msg" "X msg < int TABLE_WIDTH"
      "0 \<le> Y msg" "Y msg < int TABLE_HEIGHT"
    and "server_ok 0 s0" "server_ok 1 s1" "set order \<subseteq> {0, 1}"
  shows "\<exists>args1 shares r1 mint args2 r2 args3 r3 r4 ps ps' row.
     InitializeUploadArgs G C S args msg r = Ok (args1, shares, r1) \<and>
     SetUploadArgs2 G C S shares res1 r1 = Ok (mint, args2, r2) \<and>
     SetUploadArgs3 G C S msg mint res1 res2 r2 = Ok (args3, r3) \<and>
     submitPrepares G C S (Inr ()) order
       (cu\<lparr>m_HashKey := r1_HashKey res1, m_Challenge := Challenge res2,
           m_Args1 := args1, m_Args2 := args2, m_Args3 := args3\<rparr>) rs [Up s0, Up s1]
       = (Inr True, [], r4, ps) \<and>
     submitCommits (Inr ()) order (m_Uuid cu) True ps = (Inr (), ps') \<and>
     MessageToRow msg = Some row \<and>
     revealed ps' = xor_matrix (revealed [Up s0, Up s1]) (zero_matrix[nat (Y msg) := row])"
proof -
  have ok: "plaintext_ok msg" using assms by simp
  obtain row where row: "MessageToRow msg = Some row" using MessageToRow_ok [OF ok] by blast
  obtain c0 c1 shares qa qb r1 where U1:
    "InitializeUploadArgs G C S args msg r = Ok (args\<lparr>RouteRow := Y msg, a1_Query := [c0, c1]\<rparr>, shares, r1)"
    "DecryptQuery S (dec_q1 S) 0 c0 = Inr qa" "DecryptQuery S (dec_q1 S) 1 c1 = Inr qb"
    "honest_pair C msg shares qa qb"
    by (rule InitializeUploadArgs_honest [OF assms(1,2,3) ok])
  obtain m0 m1 where sh: "msg_shares C (r1_HashKey res1) shares = [m0, m1]"
    by (simp add: msg_shares_def upt_rec)
  obtain d0 d1 r2 where U2:
    "SetUploadArgs2 G C S shares res1 r1 = Ok ((m0 + m1) mod IntModulus,
        \<lparr>a2_Uuid = r1_Uuid res1, a2_HashKey = r1_HashKey res1, a2_Query = [d0, d1]\<rparr>, r2)"
    "DecryptQuery S (dec_q2 S) 0 d0 = Inr \<lparr>MsgShare = m0\<rparr>"
    "DecryptQuery S (dec_q2 S) 1 d1 = Inr \<lparr>MsgShare = m1\<rparr>"
    by (rule SetUploadArgs2_honest [OF assms(3) sh])
  obtain e0 e1 r3 qs r3' where U3:
    "SetUploadArgs3 G C S msg ((m0 + m1) mod IntModulus) res1 res2 r2 = Ok (\<lparr>a3_Uuid = r1_Uuid res1,
        a3_HashKey = r1_HashKey res1, a3_Query = [e0, e1]\<rparr>, r3)"
    "queries3 G C msg ((m0 + m1) mod IntModulus) (r1_HashKey res1) (Challenge res2) r2 = Some (qs, r3')"
    "DecryptQuery S (dec_q3 S) 0 e0 = Inr (qs ! 0)"
    "DecryptQuery S (dec_q3 S) 1 e1 = Inr (qs ! 1)"
    by (rule SetUploadArgs3_honest [OF assms(3)])
  obtain R r4 where R: "RandInt G IntModulus rs = (R, r4)" by fastforce
  obtain ra rb s0' s1' where P:
    "prepare_tuple C (m_Uuid cu) R \<lparr>iq_hashKey = r1_HashKey res1, iq_challenge = Challenge res2, q1 = qa,
        q2 = \<lparr>MsgShare = m0\<rparr>, q3 = qs ! 0\<rparr> s0 = Ok (ra, s0')"
    "prepare_tuple C (m_Uuid cu) R \<lparr>iq_hashKey = r1_HashKey res1, iq_challenge = Challenge res2, q1 = qb,
        q2 = \<lparr>MsgShare = m1\<rparr>, q3 = qs ! 1\<rparr> s1 = Ok (rb, s1')"
    "prepare_log [ra, rb] = []" "server_ok 0 s0'" "server_ok 1 s1'"
    "pending s0' (m_Uuid cu) \<noteq> None" "pending s1' (m_Uuid cu) \<noteq> None"
    "revealed [Up s0', Up s1'] = xor_matrix (revealed [Up s0, Up s1]) (zero_matrix[nat (Y msg) := row])"
    by (rule honest_prepare [OF assms(2) ok assms(9,10) U1(4) row sh U3(2), of "m_Uuid cu" R]) auto
  let ?cu = "cu\<lparr>m_HashKey := r1_HashKey res1, m_Challenge := Challenge res2,
     m_Args1 := args\<lparr>RouteRow := Y msg, a1_Query := [c0, c1]\<rparr>,
     m_Args2 := \<lparr>a2_Uuid = r1_Uuid res1, a2_HashKey = r1_HashKey res1, a2_Query = [d0, d1]\<rparr>,
     m_Args3 := \<lparr>a3_Uuid = r1_Uuid res1, a3_HashKey = r1_HashKey res1, a3_Query = [e0, e1]\<rparr>\<rparr>"
  have idx: "ServerIdx s0 = 0" "ServerIdx s1 = 1" using assms(9,10) by (simp_all add: server_ok_def)
  have "fanout ''prepare'' order (\<lambda>i. Prepare C S (preps ?cu R i)) [Up s0, Up s1]
      = (Inr [ra, rb], [Up s0', Up s1'])"
    using U1 U2 U3 P(1,2) idx assms(11) by (intro fanout_two) (simp_all add: Prepare_def preps_def)
  then have "submitPrepares G C S (Inr ()) order ?cu rs [Up s0, Up s1] = (Inr True, [], r4, [Up s0', Up s1'])"
    using P(3) by (simp add: submitPrepares_def R)
  moreover obtain s0'' s1'' where Q: "Commit \<lparr>c_Uuid = m_Uuid cu, c_Commit = True\<rparr> s0' = Ok ((), s0'')"
    "Commit \<lparr>c_Uuid = m_Uuid cu, c_Commit = True\<rparr> s1' = Ok ((), s1'')"
    "entries s0'' = entries s0'" "entries s1'' = entries s1'"
    using P(6,7) by (simp add: Commit_def)
  have "submitCommits (Inr ()) order (m_Uuid cu) True [Up s0', Up s1'] = (Inr (), [Up s0'', Up s1''])"
    using fanout_two [of "\<lambda>_. Commit \<lparr>c_Uuid = m_Uuid cu, c_Commit = True\<rparr>" s0' "()" s0'' s1' "()" s1'' order]
      Q(1,2) assms(11) by (simp add: submitCommits_def)
  moreover have "revealed [Up s0'', Up s1''] = revealed [Up s0', Up s1']"
    using Q(3,4) by (simp add: revealed_def)
  ultimately show ?thesis using U1(1) U2(1) U3(1) P(8) row by metis
qed

text \<open>C1: End-to-end correctness of an honest upload. For every valid message the client's three
  messages can be built; when the leader submits them to two well-formed servers, none of the three
  checks (equal product shares, product proof 1, product proof 2) fails at any random point, the
  leader decides to commit and the commit succeeds on both servers; and what the two servers would
  reveal has changed by exactly the message, placed in its slot of its row.\<close>

theorem honest_upload_correct:
  assumes "rng_ok G" "crypto_ok C" "sealing_ok S"
    and "length (Message msg) = SLOT_LENGTH" "0 \<le> X msg" "X msg < int TABLE_WIDTH"
      "0 \<le> Y msg" "Y msg < int TABLE_HEIGHT"
    and "server_ok 0 s0" "server_ok 1 s1" "set order \<subseteq> {0, 1}"
  shows "\<exists>args1 shares r1 mint args2 r2 args3 r3 r4 ps ps' row.
     InitializeUploadArgs G C S args msg r = Ok (args1, shares, r1) \<and>
     SetUploadArgs2 G C S shares res1 r1 = Ok (mint, args2, r2) \<and>
     SetUploadArgs3 G C S msg mint res1 res2 r2 = Ok (args3, r3) \<and>
     submitPrepares G C S (Inr ()) order
       (cu\<lparr>m_HashKey := r1_HashKey res1, m_Challenge := Challenge res2,
           m_Args1 := args1, m_Args2 := args2, m_Args3 := args3\<rparr>) rs [Up s0, Up s1]
       = (Inr True, [], r4, ps) \<and>
     submitCommits (Inr ()) order (m_Uuid cu) True ps = (Inr (), ps') \<and>
     MessageToRow msg = Some row \<and>
     revealed ps' = xor_matrix (revealed [Up s0, Up s1]) (zero_matrix[nat (Y msg) := row])"
  using assms by (rule honest_upload)

definition sample_server :: "nat \<Rightarrow> DbServer" where
  "sample_server i = \<lparr>ServerIdx = i, pending = Map.empty, entries = NewSlotTable, plain = zero_matrix\<rparr>"

lemma sample_server_ok: "server_ok i (sample_server i)"
  by (simp add: server_ok_def sample_server_def NewSlotTable_ok)

definition sample_args1 :: UploadArgs1 where
  "sample_args1 = \<lparr>RouteRow = 0, UseAssignedSession = False, AssignedUUID = 0, AssignedHashKey = [],
                   a1_Query = []\<rparr>"

definition sample_cu :: CompletedUploadMessage where
  "sample_cu = \<lparr>m_ID = '''', m_ReplicaID = '''', m_EpochID = 1, m_ShardID = 0, m_Uuid = 77,
     m_HashKey = [], m_Challenge = [], m_GlobalRow = 5, m_LocalRow = 5, m_EnqueuedAt = 0, m_Attempts = 0,
     m_Args1 = sample_args1, m_Args2 = \<lparr>a2_Uuid = 77, a2_HashKey = [], a2_Query = []\<rparr>,
     m_Args3 = \<lparr>a3_Uuid = 77, a3_HashKey = [], a3_Query = []\<rparr>\<rparr>"

abbreviation sample_msg :: Plaintext where
  "sample_msg \<equiv> \<lparr>Message = replicate SLOT_LENGTH 7, X = 3, Y = 5\<rparr>"

theorem honest_upload_correct_witness:
  "\<exists>args1 shares r1 mint args2 r2 args3 r3 r4 ps ps' row.
     InitializeUploadArgs counter_rng toy_crypto toy_sealing sample_args1 sample_msg 0 = Ok (args1, shares, r1) \<and>
     SetUploadArgs2 counter_rng toy_crypto toy_sealing shares \<lparr>r1_Uuid = 77, r1_HashKey = replicate 32 4\<rparr> r1
       = Ok (mint, args2, r2) \<and>
     SetUploadArgs3 counter_rng toy_crypto toy_sealing sample_msg mint
       \<lparr>r1_Uuid = 77, r1_HashKey = replicate 32 4\<rparr> \<lparr>Challenge = replicate 16 6\<rparr> r2 = Ok (args3, r3) \<and>
     submitPrepares counter_rng toy_crypto toy_sealing (Inr ()) [1, 0]
       (sample_cu\<lparr>m_HashKey := replicate 32 4, m_Challenge := replicate 16 6,
           m_Args1 := args1, m_Args2 := args2, m_Args3 := args3\<rparr>) 9 [Up (sample_server 0), Up (sample_server 1)]
       = (Inr True, [], r4, ps) \<and>
     submitCommits (Inr ()) [1, 0] (m_Uuid sample_cu) True ps = (Inr (), ps') \<and>
     MessageToRow sample_msg = Some row \<and>
     revealed ps' = xor_matrix (revealed [Up (sample_server 0), Up (sample_server 1)])
       (zero_matrix[nat (Y sample_msg) := row])"
  using honest_upload_correct [OF counter_rng_ok toy_crypto_ok toy_sealing_ok _ _ _ _ _
      sample_server_ok sample_server_ok, where msg = sample_msg and args = sample_args1 and r = 0 and
      ?res1.0 = "\<lparr>r1_Uuid = 77, r1_HashKey = replicate 32 4\<rparr>" and ?res2.0 = "\<lparr>Challenge = replicate 16 6\<rparr>"
      and order = "[1, 0]" and cu = sample_cu and rs = 9]
  by (simp add: TABLE_WIDTH_def TABLE_HEIGHT_eq)

lemma submitPrepares_two:
  assumes C: "crypto_ok C" and s: "server_ok 0 s0" "server_ok 1 s1" and order: "set order \<subseteq> {0, 1}"
    and d1: "\<And>i. i < 2 \<Longrightarrow> DecryptQuery S (dec_q1 S) i (a1_Query (m_Args1 cu) ! i) = Inr (x1 i)"
    and d2: "\<And>i. i < 2 \<Longrightarrow> DecryptQuery S (dec_q2 S) i (a2_Query (m_Args2 cu) ! i) = Inr (x2 i)"
    and d3: "\<And>i. i < 2 \<Longrightarrow> DecryptQuery S (dec_q3 S) i (a3_Query (m_Args3 cu) ! i) = Inr (x3 i)"
    and ok: "\<And>i. i < 2 \<Longrightarrow> query_ok (x1 i)"
  obtains log r4 s0' s1' where
    "submitPrepares G C S (Inr ()) order cu rs [Up s0, Up s1] = (Inr True, log, r4, [Up s0', Up s1'])"
    "((TShare1 (x3 0) - TShare2 (x3 0)) + (TShare1 (x3 1) - TShare2 (x3 1))) mod IntModulus \<noteq> 0
       \<Longrightarrow> ''FAIL!!!!!!!! <<<<< 1'' \<in> set log"
    "contents (entries s0') = xor_matrix (contents (entries s0)) (expansion C (x1 0))"
    "contents (entries s1') = xor_matrix (contents (entries s1)) (expansion C (x1 1))"
proof -
  obtain R r4 where R: "RandInt G IntModulus rs = (R, r4)" by fastforce
  define tup where "tup i = \<lparr>iq_hashKey = m_HashKey cu, iq_challenge = m_Challenge cu,
     q1 = x1 i, q2 = x2 i, q3 = x3 i\<rparr>" for i
  have q: "query_ok (q1 (tup 0))" "query_ok (q1 (tup 1))" using ok by (simp_all add: tup_def)
  obtain ra s0' where A: "prepare_tuple C (m_Uuid cu) R (tup 0) s0 = Ok (ra, s0')"
    "OutShare ra = (TShare1 (x3 0) - TShare2 (x3 0)) mod IntModulus"
    "contents (entries s0') = xor_matrix (contents (entries s0)) (expansion C (x1 0))"
    by (rule prepare_tuple_ok [OF C s(1) q(1), of "m_Uuid cu" R]) (auto simp: tup_def)
  obtain rb s1' where B: "prepare_tuple C (m_Uuid cu) R (tup 1) s1 = Ok (rb, s1')"
    "OutShare rb = (TShare1 (x3 1) - TShare2 (x3 1)) mod IntModulus"
    "contents (entries s1') = xor_matrix (contents (entries s1)) (expansion C (x1 1))"
    by (rule prepare_tuple_ok [OF C s(2) q(2), of "m_Uuid cu" R]) (auto simp: tup_def)
  have idx: "ServerIdx s0 = 0" "ServerIdx s1 = 1" using s by (simp_all add: server_ok_def)
  have "fanout ''prepare'' order (\<lambda>i. Prepare C S (preps cu R i)) [Up s0, Up s1]
      = (Inr [ra, rb], [Up s0', Up s1'])"
    using A(1) B(1) d1 [of 0] d1 [of 1] d2 [of 0] d2 [of 1] d3 [of 0] d3 [of 1] idx order
    by (intro fanout_two) (simp_all add: Prepare_def preps_def tup_def)
  then have "submitPrepares G C S (Inr ()) order cu rs [Up s0, Up s1]
      = (Inr True, prepare_log [ra, rb], r4, [Up s0', Up s1'])"
    by (simp add: submitPrepares_def R)
  moreover have "''FAIL!!!!!!!! <<<<< 1'' \<in> set (prepare_log [ra, rb])"
    if "((TShare1 (x3 0) - TShare2 (x3 0)) + (TShare1 (x3 1) - TShare2 (x3 1))) mod IntModulus \<noteq> 0"
  proof -
    have "{..<NUM_SERVERS} = {0, 1}" by (auto simp: NUM_SERVERS_def)
    then have "(\<Sum>i<NUM_SERVERS. OutShare ([ra, rb] ! i)) mod IntModulus \<noteq> 0"
      using that by (simp add: A(2) B(2) mod_add_eq)
    then show ?thesis unfolding prepare_log_def by simp
  qed
  ultimately show ?thesis using A(3) B(3) by (rule that)
qed

text \<open>The leader's checks are not enforced. Whatever two well-formed servers answer,
  \<^verbatim>\<open>submitPrepares\<close> decides to commit; a failed check is only a log line. In particular, when the
  servers' shares of \<open>t1\<close> and \<open>t2\<close> do not add up to equal values the failure is logged and the
  malformed query stays in both tables.\<close>

theorem submitPrepares_ignores_failed_checks:
  assumes "crypto_ok C" "server_ok 0 s0" "server_ok 1 s1" "set order \<subseteq> {0, 1}"
    and "\<And>i. i < 2 \<Longrightarrow> DecryptQuery S (dec_q1 S) i (a1_Query (m_Args1 cu) ! i) = Inr (x1 i)"
    and "\<And>i. i < 2 \<Longrightarrow> DecryptQuery S (dec_q2 S) i (a2_Query (m_Args2 cu) ! i) = Inr (x2 i)"
    and "\<And>i. i < 2 \<Longrightarrow> DecryptQuery S (dec_q3 S) i (a3_Query (m_Args3 cu) ! i) = Inr (x3 i)"
    and "\<And>i. i < 2 \<Longrightarrow> query_ok (x1 i)"
    and "((TShare1 (x3 0) - TShare2 (x3 0)) + (TShare1 (x3 1) - TShare2 (x3 1))) mod IntModulus \<noteq> 0"
  shows "\<exists>log r' s0' s1'.
     submitPrepares G C S (Inr ()) order cu rs [Up s0, Up s1] = (Inr True, log, r', [Up s0', Up s1']) \<and>
     ''FAIL!!!!!!!! <<<<< 1'' \<in> set log \<and>
     contents (entries s0') = xor_matrix (contents (entries s0)) (expansion C (x1 0)) \<and>
     contents (entries s1') = xor_matrix (contents (entries s1)) (expansion C (x1 1))"
proof (rule submitPrepares_two [OF assms(1-8), of G rs])
  fix log r4 s0' s1'
  assume "submitPrepares G C S (Inr ()) order cu rs [Up s0, Up s1] = (Inr True, log, r4, [Up s0', Up s1'])"
    "((TShare1 (x3 0) - TShare2 (x3 0)) + (TShare1 (x3 1) - TShare2 (x3 1))) mod IntModulus \<noteq> 0
       \<Longrightarrow> ''FAIL!!!!!!!! <<<<< 1'' \<in> set log"
    "contents (entries s0') = xor_matrix (contents (entries s0)) (expansion C (x1 0))"
    "contents (entries s1') = xor_matrix (contents (entries s1)) (expansion C (x1 1))"
  then show ?thesis using assms(9) by blast
qed

definition plain_seal :: "byte list \<Rightarrow> EncryptedInsertQuery" where
  "plain_seal b = \<lparr>SenderPublicKey = [], Nonce = [], Ciphertext = b\<rparr>"

definition bad_q3 :: InsertQuery3 where
  "bad_q3 = \<lparr>TShare1 = 1, TShare2 = 0, TProof1 = \<lparr>F_0 = 0, G_0 = 0, H_0 = 0, H_2 = 0\<rparr>,
             TProof2 = \<lparr>F_0 = 0, G_0 = 0, H_0 = 0, H_2 = 0\<rparr>\<rparr>"

definition bad_cu :: CompletedUploadMessage where
  "bad_cu = sample_cu\<lparr>
     m_Args1 := sample_args1\<lparr>a1_Query := replicate 2 (plain_seal (replicate (code1 (q1 sample_query)) 0))\<rparr>,
     m_Args2 := \<lparr>a2_Uuid = 77, a2_HashKey = [], a2_Query = replicate 2 (plain_seal (replicate (to_nat (0::int)) 0))\<rparr>,
     m_Args3 := \<lparr>a3_Uuid = 77, a3_HashKey = [], a3_Query = replicate 2 (plain_seal (replicate (code3 bad_q3) 0))\<rparr>\<rparr>"

theorem submitPrepares_ignores_failed_checks_witness:
  "\<exists>log r' s0' s1'.
     submitPrepares counter_rng toy_crypto toy_sealing (Inr ()) [0, 1] bad_cu 3
       [Up (sample_server 0), Up (sample_server 1)] = (Inr True, log, r', [Up s0', Up s1']) \<and>
     ''FAIL!!!!!!!! <<<<< 1'' \<in> set log \<and>
     contents (entries s0') = xor_matrix (contents (entries (sample_server 0))) (expansion toy_crypto (q1 sample_query)) \<and>
     contents (entries s1') = xor_matrix (contents (entries (sample_server 1))) (expansion toy_crypto (q1 sample_query))"
proof -
  have dec: "DecryptQuery toy_sealing (dec_q1 toy_sealing) i (a1_Query (m_Args1 bad_cu) ! i) = Inr (q1 sample_query)"
    "DecryptQuery toy_sealing (dec_q2 toy_sealing) i (a2_Query (m_Args2 bad_cu) ! i) = Inr \<lparr>MsgShare = 0\<rparr>"
    "DecryptQuery toy_sealing (dec_q3 toy_sealing) i (a3_Query (m_Args3 bad_cu) ! i) = Inr bad_q3"
    if "i < 2" for i
    using that by (simp_all add: DecryptQuery_def decryptBytes_def toy_sealing_def bad_cu_def plain_seal_def
        decode1_code1 decode3_code3)
  show ?thesis
    by (rule submitPrepares_ignores_failed_checks [OF toy_crypto_ok sample_server_ok sample_server_ok _ dec])
      (simp_all add: sample_query_ok bad_q3_def IntModulus_def)
qed

text \<open>A single upload can end a server process. If a server cannot decrypt one of the client's
  queries, \<^verbatim>\<open>Prepare\<close> panics, the process is gone, and every later fan-out of the leader (prepare,
  commit or merge) fails, whatever it asks for.\<close>

theorem undecryptable_query_stops_the_pair:
  assumes "DecryptQuery S (dec_q1 S) (ServerIdx s1) (p_Query1 (p 1)) = Inl e"
    and "1 \<in> set order"
  shows "\<exists>res p0. fanout ''prepare'' order' (\<lambda>i. Prepare C S (p i)) [Up s0, Up s1] = (res, [p0, Down]) \<and>
     (\<exists>err. fst (fanout what order f [p0, Down]) = Inl err)"
proof -
  have "Prepare C S (p 1) s1 = Panic" using assms(1) by (simp add: Prepare_def)
  then obtain p0 where "snd (fanout ''prepare'' order' (\<lambda>i. Prepare C S (p i)) [Up s0, Up s1]) = [p0, Down]"
    by (simp add: fanout_procs NUM_SERVERS_def upt_rec rpc_call_def)
  moreover have "\<exists>err. fst (fanout what order f [p0, Down]) = Inl err" for p0
  proof -
    let ?rs = "map (\<lambda>i. rpc_call (f i) ([p0, Down] ! i)) [0..<NUM_SERVERS]"
    let ?errs = "[e. i \<leftarrow> order, e \<leftarrow> (case fst (?rs ! i) of Inl e \<Rightarrow> [e] | Inr _ \<Rightarrow> [])]"
    have "fst (?rs ! 1) = Inl (ErrorString ''connection is shut down'')"
      by (simp add: NUM_SERVERS_def rpc_call_def)
    then have "ErrorString ''connection is shut down'' \<in> set ?errs" using assms(2) by force
    then obtain e es where "?errs = e # es" by (meson list.set_cases)
    then show ?thesis unfolding fanout_def Let_def by (simp only: fst_conv list.case) blast
  qed
  ultimately show ?thesis by (metis prod.collapse)
qed

theorem undecryptable_query_stops_the_pair_witness:
  "\<exists>res p0. fanout ''prepare'' [0, 1] (\<lambda>i. Prepare toy_crypto (toy_sealing\<lparr>box_Open := (\<lambda>_ _ _ _. None)\<rparr>)
       (preps bad_cu 5 i)) [Up (sample_server 0), Up (sample_server 1)] = (res, [p0, Down]) \<and>
     (\<exists>err. fst (fanout ''merge'' [1, 0] (\<lambda>_. DumpTable) [p0, Down]) = Inl err)"
  by (rule undecryptable_query_stops_the_pair [where e = "ErrorString ''Could not decrypt''"])
    (simp_all add: DecryptQuery_def decryptBytes_def)

end
