(* ===== verification/Ingestion_Queue.thy ===== *)
theory Ingestion_Queue
  imports Write_Protocol
begin

text \<open>
  The queue of completed uploads (\<^verbatim>\<open>src/db/ingestion_queue.go\<close>): the interface
  \<^verbatim>\<open>completedUploadQueue\<close> as a locale with the laws its clients rely on, and the in-memory queue as
  its instance.

  A context that is already done is passed as \<open>Some err\<close>. \<^verbatim>\<open>Receive\<close> on an empty queue waits for a
  message: \<open>None\<close>. The mutex makes every operation one step. The \<^verbatim>\<open>notify\<close> channel only wakes waiting
  receivers, so it is not part of the state.

  The abstraction of a queue is the multiset of the uploads it still owes an acknowledgement.
  Shown here: the laws of the interface for the in-memory queue (its invariant included), first-in
  first-out delivery, and, for every queue that meets the interface, that the leader's test
  \<^verbatim>\<open>Depth == 0 && Inflight == 0\<close> holds exactly when every accepted upload was acknowledged.
\<close>

section \<open>The interface\<close>

record IngestionQueueStats =
  Depth :: int
  Inflight :: int

record QueuedCompletedUploadMessage =
  Message_of :: CompletedUploadMessage
  ReceiptHandle :: string

text \<open>The identity of an upload: what the ledger keys on.\<close>

definition upload_id :: "CompletedUploadMessage \<Rightarrow> int \<times> int \<times> int" where
  "upload_id m = (m_ShardID m, m_EpochID m, m_Uuid m)"

datatype queue_op =
    OpEnqueue CompletedUploadMessage gotime
  | OpReceive int
  | OpAck string

locale completed_upload_queue =
  fixes enqueue :: "gotime \<Rightarrow> CompletedUploadMessage \<Rightarrow> 'q \<Rightarrow> string res \<times> 'q"
    and receive :: "int \<Rightarrow> 'q \<Rightarrow> (QueuedCompletedUploadMessage list res \<times> 'q) option"
    and ack :: "string \<Rightarrow> 'q \<Rightarrow> unit res \<times> 'q"
    and stats :: "'q \<Rightarrow> IngestionQueueStats"
    and inv :: "'q \<Rightarrow> bool"
    and outstanding :: "'q \<Rightarrow> (int \<times> int \<times> int) multiset"
  assumes enqueue_inv: "inv q \<Longrightarrow> m_ID m = '''' \<Longrightarrow> inv (snd (enqueue t m q))"
    and receive_inv: "inv q \<Longrightarrow> receive n q = Some (r, q') \<Longrightarrow> inv q'"
    and ack_inv: "inv q \<Longrightarrow> inv (snd (ack h q))"
    and enqueue_ok: "inv q \<Longrightarrow> m_ID m = '''' \<Longrightarrow> enqueue t m q = (Inr i, q')
          \<Longrightarrow> outstanding q' = add_mset (upload_id m) (outstanding q)"
    and enqueue_err: "inv q \<Longrightarrow> m_ID m = '''' \<Longrightarrow> enqueue t m q = (Inl e, q') \<Longrightarrow> outstanding q' = outstanding q"
    and receive_keeps: "inv q \<Longrightarrow> receive n q = Some (r, q') \<Longrightarrow> outstanding q' = outstanding q"
    and receive_outstanding: "inv q \<Longrightarrow> receive n q = Some (Inr ms, q')
          \<Longrightarrow> x \<in> set ms \<Longrightarrow> upload_id (Message_of x) \<in># outstanding q"
    and ack_ok: "inv q \<Longrightarrow> ack h q = (Inr (), q') \<Longrightarrow> \<exists>u. outstanding q = add_mset u (outstanding q')"
    and ack_err: "inv q \<Longrightarrow> ack h q = (Inl e, q') \<Longrightarrow> outstanding q' = outstanding q"
    and drained: "inv q \<Longrightarrow> Depth (stats q) = 0 \<and> Inflight (stats q) = 0 \<longleftrightarrow> outstanding q = {#}"
begin

text \<open>A history of calls, with the number of accepted and of acknowledged uploads.\<close>

fun run :: "queue_op list \<Rightarrow> nat \<times> nat \<times> 'q \<Rightarrow> nat \<times> nat \<times> 'q" where
  "run [] s = s"
| "run (OpEnqueue m t # ops) (a, b, q) =
     (case enqueue t m q of (Inr _, q') \<Rightarrow> run ops (Suc a, b, q') | (Inl _, q') \<Rightarrow> run ops (a, b, q'))"
| "run (OpReceive n # ops) (a, b, q) =
     (case receive n q of None \<Rightarrow> run ops (a, b, q) | Some (_, q') \<Rightarrow> run ops (a, b, q'))"
| "run (OpAck h # ops) (a, b, q) =
     (case ack h q of (Inr _, q') \<Rightarrow> run ops (a, Suc b, q') | (Inl _, q') \<Rightarrow> run ops (a, b, q'))"

lemma run_balance:
  "inv q \<Longrightarrow> (\<forall>m t. OpEnqueue m t \<in> set ops \<longrightarrow> m_ID m = '''') \<Longrightarrow> run ops (a, b, q) = (a', b', q')
     \<Longrightarrow> inv q' \<and> a' + b + size (outstanding q) = a + b' + size (outstanding q')"
proof (induction ops "(a, b, q)" arbitrary: a b q rule: run.induct)
  case (2 m t ops a b q)
  obtain r q1 where e: "enqueue t m q = (r, q1)" by fastforce
  have i: "m_ID m = ''''" using 2 by simp
  have q1: "inv q1" using enqueue_inv [OF 2(3) i, of t] e by simp
  show ?case
  proof (cases r)
    case (Inl x)
    with 2(1) [OF e [symmetric] Inl q1] 2(4,5) e enqueue_err [OF 2(3) i] show ?thesis by fastforce
  next
    case (Inr x)
    with 2(2) [OF e [symmetric] Inr q1] 2(4,5) e enqueue_ok [OF 2(3) i] show ?thesis by fastforce
  qed
next
  case (3 n ops a b q)
  show ?case
  proof (cases "receive n q")
    case None
    with 3 show ?thesis by simp
  next
    case (Some p)
    obtain r q1 where p: "p = (r, q1)" by fastforce
    from 3(2) [of "(r, q1)" r q1] 3(3-5) Some p receive_inv [OF 3(3), of n r q1]
      receive_keeps [OF 3(3), of n r q1]
    show ?thesis by simp
  qed
next
  case (4 h ops a b q)
  obtain r q1 where e: "ack h q = (r, q1)" by fastforce
  have q1: "inv q1" using ack_inv [OF 4(3), of h] e by simp
  show ?case
  proof (cases r)
    case (Inl x)
    with 4(1) [OF e [symmetric] Inl q1] 4(4,5) e ack_err [OF 4(3)] show ?thesis by fastforce
  next
    case (Inr x)
    then obtain u where "outstanding q = add_mset u (outstanding q1)" using ack_ok [OF 4(3), of h q1] e by auto
    with Inr 4(2) [OF e [symmetric] Inr q1] 4(4,5) e show ?thesis by auto
  qed
qed auto

lemma drained_iff_all_acked:
  assumes "inv q" "outstanding q = {#}" "\<forall>m t. OpEnqueue m t \<in> set ops \<longrightarrow> m_ID m = ''''"
    and "run ops (0, 0, q) = (accepted, acked, q')"
  shows "Depth (stats q') = 0 \<and> Inflight (stats q') = 0 \<longleftrightarrow> acked = accepted"
  using run_balance [OF assms(1,3,4)] assms(2) drained [of q'] by auto

end

section \<open>The in-memory queue\<close>

record memoryCompletedUploadQueue =
  nextMessageID :: int
  nextReceiptID :: int
  available :: "string list"
  messages :: "(string, CompletedUploadMessage) gomap"
  inflight :: "(string, string) gomap"

definition newMemoryCompletedUploadQueue :: memoryCompletedUploadQueue where
  "newMemoryCompletedUploadQueue =
     \<lparr>nextMessageID = 0, nextReceiptID = 0, available = [], messages = [], inflight = []\<rparr>"

text \<open>\<^verbatim>\<open>%q\<close> of a text that has no character to escape.\<close>

definition quoted :: "string \<Rightarrow> string" where
  "quoted s = CHR 0x22 # s @ [CHR 0x22]"

definition message_id :: "int \<Rightarrow> string" where
  "message_id n = ''completed-upload-'' @ show_int n"

definition receipt_id :: "int \<Rightarrow> string" where
  "receipt_id n = ''completed-upload-receipt-'' @ show_int n"

definition Enqueue ::
  "go_error option \<Rightarrow> gotime \<Rightarrow> CompletedUploadMessage \<Rightarrow> memoryCompletedUploadQueue
     \<Rightarrow> string res \<times> memoryCompletedUploadQueue" where
  "Enqueue ctx now message q =
     (case ctx of Some err \<Rightarrow> (Inl err, q) | None \<Rightarrow>
      if m_EpochID message \<le> 0 then (Inl (ErrorString ''epoch id must be positive''), q)
      else if m_Uuid message \<le> 0 then (Inl (ErrorString ''upload uuid must be positive''), q)
      else let (message, q) = (if m_ID message = '''' then
                  let n = nextMessageID q + 1 in (message\<lparr>m_ID := message_id n\<rparr>, q\<lparr>nextMessageID := n\<rparr>)
                else (message, q));
               message = (if IsZero (m_EnqueuedAt message) then message\<lparr>m_EnqueuedAt := now\<rparr> else message)
           in if gm_get (messages q) (m_ID message) \<noteq> None
              then (Inl (ErrorString (''duplicate ingestion message id '' @ quoted (m_ID message))), q)
              else (Inr (m_ID message),
                    q\<lparr>messages := gm_put (m_ID message) message (messages q),
                      available := available q @ [m_ID message]\<rparr>))"

text \<open>One turn of the loop of \<^verbatim>\<open>Receive\<close>; \<open>None\<close> when the map has no such message, which the code
  would read as a zero message.\<close>

fun receive_loop ::
  "nat \<Rightarrow> memoryCompletedUploadQueue \<Rightarrow> QueuedCompletedUploadMessage list
     \<Rightarrow> (QueuedCompletedUploadMessage list \<times> memoryCompletedUploadQueue) option" where
  "receive_loop 0 q out = Some (out, q)"
| "receive_loop (Suc k) q out =
     (case available q of
        [] \<Rightarrow> None
      | messageID # rest \<Rightarrow>
          let n = nextReceiptID q + 1; receipt = receipt_id n in
          case gm_get (messages q) messageID of
            None \<Rightarrow> None
          | Some msg \<Rightarrow>
              let msg = msg\<lparr>m_Attempts := m_Attempts msg + 1\<rparr>
              in receive_loop k
                   (q\<lparr>available := rest, nextReceiptID := n,
                     inflight := gm_put receipt messageID (inflight q),
                     messages := gm_put messageID msg (messages q)\<rparr>)
                   (out @ [\<lparr>Message_of = msg, ReceiptHandle = receipt\<rparr>]))"

definition Receive ::
  "go_error option \<Rightarrow> int \<Rightarrow> memoryCompletedUploadQueue
     \<Rightarrow> (QueuedCompletedUploadMessage list res \<times> memoryCompletedUploadQueue) option" where
  "Receive ctx maxMessages q =
     (if maxMessages \<le> 0 then Some (Inl (ErrorString ''receive max messages must be positive''), q)
      else case ctx of
        Some err \<Rightarrow> Some (Inl err, q)
      | None \<Rightarrow>
          if available q = [] then None
          else map_option (map_prod Inr id)
                 (receive_loop (min (nat maxMessages) (length (available q))) q []))"

definition Ack ::
  "go_error option \<Rightarrow> string \<Rightarrow> memoryCompletedUploadQueue \<Rightarrow> unit res \<times> memoryCompletedUploadQueue" where
  "Ack ctx receiptHandle q =
     (case ctx of Some err \<Rightarrow> (Inl err, q) | None \<Rightarrow>
      case gm_get (inflight q) receiptHandle of
        None \<Rightarrow> (Inl (ErrorString (''unknown receipt handle '' @ quoted receiptHandle)), q)
      | Some messageID \<Rightarrow>
          (Inr (), q\<lparr>inflight := gm_del receiptHandle (inflight q),
                     messages := gm_del messageID (messages q)\<rparr>))"

definition Stats :: "memoryCompletedUploadQueue \<Rightarrow> IngestionQueueStats" where
  "Stats q = \<lparr>Depth = int (length (available q)), Inflight = int (length (inflight q))\<rparr>"

section \<open>The invariant of the in-memory queue\<close>

definition queue_ok :: "memoryCompletedUploadQueue \<Rightarrow> bool" where
  "queue_ok q \<longleftrightarrow> gm_ok (messages q) \<and> gm_ok (inflight q) \<and> 0 \<le> nextMessageID q \<and>
     distinct (available q @ map snd (inflight q)) \<and>
     set (available q @ map snd (inflight q)) = fst ` set (messages q) \<and>
     (\<forall>x \<in> set (messages q). m_ID (snd x) = fst x) \<and>
     (\<forall>i \<in> fst ` set (messages q). \<exists>n. n \<le> nextMessageID q \<and> i = message_id n) \<and>
     (\<forall>h \<in> fst ` set (inflight q). \<exists>n. n \<le> nextReceiptID q \<and> h = receipt_id n)"

definition owed :: "memoryCompletedUploadQueue \<Rightarrow> (int \<times> int \<times> int) multiset" where
  "owed q = image_mset (\<lambda>(_, m). upload_id m) (mset (messages q))"

lemma message_id_inject [simp]: "message_id m = message_id n \<longleftrightarrow> m = n"
  by (simp add: message_id_def)

lemma receipt_id_inject [simp]: "receipt_id m = receipt_id n \<longleftrightarrow> m = n"
  by (simp add: receipt_id_def)

lemma message_id_not_Nil [simp]: "message_id n \<noteq> []"
  by (simp add: message_id_def)

lemma new_queue_ok: "queue_ok newMemoryCompletedUploadQueue"
  by (simp add: queue_ok_def newMemoryCompletedUploadQueue_def)

lemma gm_put_new: "k \<notin> fst ` set m \<Longrightarrow> gm_put k v m = m @ [(k, v)]"
  by (induction m) auto

lemma gm_del_absent: "k \<notin> fst ` set m \<Longrightarrow> gm_del k m = m"
  by (induction m) auto

lemma gm_del_middle: "gm_ok (a @ (k, v) # b) \<Longrightarrow> gm_del k (a @ (k, v) # b) = a @ b"
  by (induction a) (auto simp: gm_ok_def gm_del_absent image_iff)

lemma gm_put_middle: "k \<notin> fst ` set a \<Longrightarrow> gm_put k w (a @ (k, v) # b) = a @ (k, w) # b"
  by (induction a) auto

lemma gm_split:
  assumes "gm_ok m" "gm_get m k = Some v"
  obtains a b where "m = a @ (k, v) # b" "k \<notin> fst ` set a" "k \<notin> fst ` set b"
proof -
  have "(k, v) \<in> set m" using assms(2) by (rule map_of_SomeD)
  then obtain a b where m: "m = a @ (k, v) # b" by (meson split_list)
  with assms(1) show ?thesis by (intro that [of a b]) (auto simp: gm_ok_def)
qed

lemma fresh_message_id:
  assumes "queue_ok q" shows "message_id (nextMessageID q + 1) \<notin> fst ` set (messages q)"
proof
  assume "message_id (nextMessageID q + 1) \<in> fst ` set (messages q)"
  then obtain n where "n \<le> nextMessageID q" "message_id (nextMessageID q + 1) = message_id n"
    using assms unfolding queue_ok_def by blast
  then show False by simp
qed

lemma fresh_receipt:
  assumes "queue_ok q" shows "receipt_id (nextReceiptID q + 1) \<notin> fst ` set (inflight q)"
proof
  assume "receipt_id (nextReceiptID q + 1) \<in> fst ` set (inflight q)"
  then obtain n where "n \<le> nextReceiptID q" "receipt_id (nextReceiptID q + 1) = receipt_id n"
    using assms unfolding queue_ok_def by blast
  then show False by simp
qed

text \<open>What an accepted message becomes, and what \<^const>\<open>Enqueue\<close> does on a well-formed queue.\<close>

definition stamped :: "gotime \<Rightarrow> memoryCompletedUploadQueue \<Rightarrow> CompletedUploadMessage \<Rightarrow> CompletedUploadMessage" where
  "stamped now q m = m\<lparr>m_ID := message_id (nextMessageID q + 1),
     m_EnqueuedAt := (if IsZero (m_EnqueuedAt m) then now else m_EnqueuedAt m)\<rparr>"

lemma Enqueue_spec:
  assumes q: "queue_ok q" and i: "m_ID m = ''''"
  shows "Enqueue None now m q =
     (if m_EpochID m \<le> 0 then (Inl (ErrorString ''epoch id must be positive''), q)
      else if m_Uuid m \<le> 0 then (Inl (ErrorString ''upload uuid must be positive''), q)
      else (Inr (message_id (nextMessageID q + 1)),
            q\<lparr>nextMessageID := nextMessageID q + 1,
              messages := messages q @ [(message_id (nextMessageID q + 1), stamped now q m)],
              available := available q @ [message_id (nextMessageID q + 1)]\<rparr>))"
proof -
  have f: "message_id (nextMessageID q + 1) \<notin> fst ` set (messages q)" by (rule fresh_message_id [OF q])
  then have "gm_get (messages q) (message_id (nextMessageID q + 1)) = None"
    by (simp add: gm_get_None_iff)
  with f show ?thesis using i
    by (auto simp: Enqueue_def Let_def stamped_def gm_put_new)
qed

lemma Enqueue_ok: "queue_ok q \<Longrightarrow> m_ID m = '''' \<Longrightarrow> queue_ok (snd (Enqueue None now m q))"
proof -
  assume q: "queue_ok q" and i: "m_ID m = ''''"
  let ?k = "message_id (nextMessageID q + 1)"
  have f: "?k \<notin> fst ` set (messages q)" by (rule fresh_message_id [OF q])
  have le: "\<exists>n \<le> nextMessageID q + 1. i = message_id n" if "i \<in> fst ` set (messages q)" for i
    using q that unfolding queue_ok_def by (meson le_add_same_cancel1 order_trans zero_le_one)
  have a: "?k \<notin> set (available q @ map snd (inflight q))" using q f unfolding queue_ok_def by simp
  show ?thesis
    unfolding Enqueue_spec [OF q i] using q f le a
    by (auto simp: queue_ok_def gm_ok_def stamped_def)
qed

lemma upload_id_stamped [simp]: "upload_id (stamped now q m) = upload_id m"
  by (simp add: upload_id_def stamped_def)

lemma Enqueue_owed:
  assumes "queue_ok q" "m_ID m = ''''" "Enqueue None now m q = (r, q')"
  shows "owed q' = (case r of Inl _ \<Rightarrow> owed q | Inr _ \<Rightarrow> add_mset (upload_id m) (owed q))"
  using assms(3) unfolding Enqueue_spec [OF assms(1,2)]
  by (auto simp: owed_def split: if_splits)

section \<open>Receiving\<close>

text \<open>Moving the head of the available list into flight.\<close>

definition take_one :: "memoryCompletedUploadQueue \<Rightarrow> string \<Rightarrow> CompletedUploadMessage \<Rightarrow> memoryCompletedUploadQueue" where
  "take_one q k msg = q\<lparr>available := tl (available q), nextReceiptID := nextReceiptID q + 1,
     inflight := gm_put (receipt_id (nextReceiptID q + 1)) k (inflight q),
     messages := gm_put k (msg\<lparr>m_Attempts := m_Attempts msg + 1\<rparr>) (messages q)\<rparr>"

lemma take_one_ok:
  assumes q: "queue_ok q" and a: "available q = k # rest"
  obtains msg where "gm_get (messages q) k = Some msg" "queue_ok (take_one q k msg)"
    "owed (take_one q k msg) = owed q" "upload_id msg \<in># owed q" "m_ID msg = k"
proof -
  have "k \<in> fst ` set (messages q)" using q a unfolding queue_ok_def by auto
  then obtain msg where g: "gm_get (messages q) k = Some msg"
    by (metis gm_get_None_iff option.exhaust)
  have mok: "gm_ok (messages q)" using q by (simp add: queue_ok_def)
  obtain xs ys where m: "messages q = xs @ (k, msg) # ys" "k \<notin> fst ` set xs" "k \<notin> fst ` set ys"
    by (rule gm_split [OF mok g])
  let ?r = "receipt_id (nextReceiptID q + 1)"
  have f: "?r \<notin> fst ` set (inflight q)" by (rule fresh_receipt [OF q])
  have in': "inflight (take_one q k msg) = inflight q @ [(?r, k)]"
    using f by (simp add: take_one_def gm_put_new)
  have ms': "messages (take_one q k msg) = xs @ (k, msg\<lparr>m_Attempts := m_Attempts msg + 1\<rparr>) # ys"
    using m by (simp add: take_one_def gm_put_middle)
  have dom: "fst ` set (messages (take_one q k msg)) = fst ` set (messages q)"
    using ms' m(1) by simp
  have le: "\<exists>n \<le> nextReceiptID q + 1. h = receipt_id n" if "h \<in> fst ` set (inflight q)" for h
    using q that unfolding queue_ok_def by (meson le_add_same_cancel1 order_trans zero_le_one)
  have gok: "gm_ok (messages (take_one q k msg))" using mok by (simp add: take_one_def)
  have ids: "\<forall>x \<in> set (messages (take_one q k msg)). m_ID (snd x) = fst x"
    using q m(1) ms' by (auto simp: queue_ok_def)
  have "queue_ok (take_one q k msg)"
    unfolding queue_ok_def dom in' using q f le a gok ids
    by (auto simp: queue_ok_def gm_ok_def take_one_def)
  moreover have "m_ID msg = k" using q m(1) by (auto simp: queue_ok_def)
  moreover have "owed (take_one q k msg) = owed q"
    using ms' m(1) by (simp add: owed_def upload_id_def)
  moreover have "upload_id msg \<in># owed q" using m(1) by (simp add: owed_def)
  ultimately show ?thesis using that [OF g] by blast
qed

lemma receive_loop_spec:
  assumes "queue_ok q" "k \<le> length (available q)"
  shows "\<exists>ms q'. receive_loop k q out = Some (out @ ms, q') \<and> queue_ok q' \<and> owed q' = owed q \<and>
     available q' = drop k (available q) \<and>
     map (\<lambda>x. m_ID (Message_of x)) ms = take k (available q) \<and>
     (\<forall>x \<in> set ms. upload_id (Message_of x) \<in># owed q)"
  using assms
proof (induction k arbitrary: q out)
  case (Suc k)
  then obtain i rest where a: "available q = i # rest" by (metis Suc_le_length_iff)
  obtain msg where t: "gm_get (messages q) i = Some msg" "queue_ok (take_one q i msg)"
    "owed (take_one q i msg) = owed q" "upload_id msg \<in># owed q" "m_ID msg = i"
    by (rule take_one_ok [OF Suc.prems(1) a])
  let ?m = "msg\<lparr>m_Attempts := m_Attempts msg + 1\<rparr>"
  let ?x = "\<lparr>Message_of = ?m, ReceiptHandle = receipt_id (nextReceiptID q + 1)\<rparr>"
  have k: "k \<le> length (available (take_one q i msg))" using Suc.prems(2) a by (simp add: take_one_def)
  have step: "receive_loop (Suc k) q out = receive_loop k (take_one q i msg) (out @ [?x])"
    using a t(1) by (simp add: take_one_def Let_def)
  from Suc.IH [OF t(2) k, of "out @ [?x]"] obtain ms q' where IH:
    "receive_loop k (take_one q i msg) (out @ [?x]) = Some (out @ [?x] @ ms, q')" "queue_ok q'"
    "owed q' = owed q" "available q' = drop k rest"
    "map (\<lambda>x. m_ID (Message_of x)) ms = take k rest"
    "\<forall>x \<in> set ms. upload_id (Message_of x) \<in># owed q"
    using a t(3) by (auto simp: take_one_def)
  have "upload_id ?m = upload_id msg" by (simp add: upload_id_def)
  with IH t(4,5) a show ?case unfolding step by (intro exI [of _ "?x # ms"] exI [of _ q']) simp
qed simp

lemma Receive_spec:
  assumes q: "queue_ok q" and R: "Receive ctx n q = Some (r, q')"
  shows "queue_ok q'" and "owed q' = owed q"
    and "r = Inr ms \<Longrightarrow> map (\<lambda>x. m_ID (Message_of x)) ms @ available q' = available q \<and> ms \<noteq> [] \<and>
           int (length ms) \<le> n \<and> (\<forall>x \<in> set ms. upload_id (Message_of x) \<in># owed q)"
proof -
  let ?k = "min (nat n) (length (available q))"
  obtain ms' q'' where L: "receive_loop ?k q [] = Some (ms', q'')" "queue_ok q''" "owed q'' = owed q"
    "available q'' = drop ?k (available q)" "map (\<lambda>x. m_ID (Message_of x)) ms' = take ?k (available q)"
    "\<forall>x \<in> set ms'. upload_id (Message_of x) \<in># owed q"
    using receive_loop_spec [OF q, of ?k "[]"] by auto
  have "length ms' = ?k" using L(5) by (metis length_map length_take min.idem min.commute min.cobounded2 min_absorb2)
  then have "0 < n \<Longrightarrow> available q \<noteq> [] \<Longrightarrow> ms' \<noteq> [] \<and> int (length ms') \<le> n"
    by (auto simp: min_def split: if_splits)
  then show "queue_ok q'" "owed q' = owed q"
    "r = Inr ms \<Longrightarrow> map (\<lambda>x. m_ID (Message_of x)) ms @ available q' = available q \<and> ms \<noteq> [] \<and>
       int (length ms) \<le> n \<and> (\<forall>x \<in> set ms. upload_id (Message_of x) \<in># owed q)"
    using R q L by (auto simp: Receive_def split: if_splits option.splits)
qed

section \<open>Acknowledging\<close>

lemma Ack_spec:
  assumes q: "queue_ok q" and A: "Ack None h q = (Inr u, q')"
  shows "queue_ok q'" and "\<exists>x. owed q = add_mset x (owed q')"
proof -
  from A obtain k where h: "gm_get (inflight q) h = Some k"
    and q': "q' = q\<lparr>inflight := gm_del h (inflight q), messages := gm_del k (messages q)\<rparr>"
    by (auto simp: Ack_def split: option.splits)
  have ok: "gm_ok (inflight q)" "gm_ok (messages q)" using q by (simp_all add: queue_ok_def)
  obtain a b where i: "inflight q = a @ (h, k) # b" "h \<notin> fst ` set a" "h \<notin> fst ` set b"
    by (rule gm_split [OF ok(1) h])
  have "k \<in> fst ` set (messages q)" using q i(1) by (auto simp: queue_ok_def)
  then obtain msg where "gm_get (messages q) k = Some msg" by (metis gm_get_None_iff option.exhaust)
  then obtain xs ys where m: "messages q = xs @ (k, msg) # ys" "k \<notin> fst ` set xs" "k \<notin> fst ` set ys"
    by (rule gm_split [OF ok(2)])
  have i': "inflight q' = a @ b" using ok(1) i by (simp add: q' gm_del_middle)
  have m': "messages q' = xs @ ys" using ok(2) m by (simp add: q' gm_del_middle)
  show "\<exists>x. owed q = add_mset x (owed q')" using m(1) m'
    by (intro exI [of _ "upload_id msg"]) (simp add: owed_def)
  have dist: "distinct (available q' @ map snd (inflight q'))"
    using q i i' by (auto simp: queue_ok_def q')
  have dom: "set (available q' @ map snd (inflight q')) = fst ` set (messages q')"
  proof -
    let ?A = "set (available q) \<union> snd ` set a \<union> snd ` set b"
    have "distinct (available q @ map snd (inflight q))"
      "set (available q @ map snd (inflight q)) = fst ` set (messages q)"
      using q by (simp_all add: queue_ok_def)
    then have "k \<notin> ?A" and "insert k ?A = insert k (fst ` set xs \<union> fst ` set ys)"
      unfolding i(1) m(1) by auto
    moreover have "k \<notin> fst ` set xs \<union> fst ` set ys" using m by simp
    ultimately have "?A = fst ` set xs \<union> fst ` set ys" by (metis insert_ident)
    then show ?thesis using i' m' by (auto simp: q')
  qed
  show "queue_ok q'" unfolding queue_ok_def using q dist dom ok i' m' i m
    by (auto simp: queue_ok_def gm_ok_def q')
qed

lemma Ack_err: "Ack None h q = (Inl e, q') \<Longrightarrow> q' = q"
  by (auto simp: Ack_def split: option.splits)

lemma owed_empty_iff: "queue_ok q \<Longrightarrow> owed q = {#} \<longleftrightarrow> available q = [] \<and> inflight q = []"
  by (auto simp: owed_def queue_ok_def)

interpretation mem_queue: completed_upload_queue
  "Enqueue None" "Receive None" "Ack None" Stats queue_ok owed
proof unfold_locales
  fix q q' :: memoryCompletedUploadQueue and m t n r h e i ms x
  assume q: "queue_ok q"
  show "queue_ok (snd (Ack None h q))"
    using Ack_spec(1) [OF q, of h] Ack_err [of h q] q by (cases "Ack None h q"; cases "fst (Ack None h q)") auto
  show "Depth (Stats q) = 0 \<and> Inflight (Stats q) = 0 \<longleftrightarrow> owed q = {#}"
    using owed_empty_iff [OF q] by (auto simp: Stats_def)
  show "m_ID m = '''' \<Longrightarrow> queue_ok (snd (Enqueue None t m q))" by (rule Enqueue_ok [OF q])
  show "m_ID m = '''' \<Longrightarrow> Enqueue None t m q = (Inr i, q') \<Longrightarrow> owed q' = add_mset (upload_id m) (owed q)"
    using Enqueue_owed [OF q, of m t "Inr i" q'] by simp
  show "m_ID m = '''' \<Longrightarrow> Enqueue None t m q = (Inl e, q') \<Longrightarrow> owed q' = owed q"
    using Enqueue_owed [OF q, of m t "Inl e" q'] by simp
  show "Receive None n q = Some (r, q') \<Longrightarrow> queue_ok q'" "Receive None n q = Some (r, q') \<Longrightarrow> owed q' = owed q"
    by (rule Receive_spec [OF q]; assumption)+
  show "Receive None n q = Some (Inr ms, q') \<Longrightarrow> x \<in> set ms \<Longrightarrow> upload_id (Message_of x) \<in># owed q"
    using Receive_spec(3) [OF q, of None n "Inr ms" q' ms] by blast
  show "Ack None h q = (Inr (), q') \<Longrightarrow> \<exists>u. owed q = add_mset u (owed q')"
    by (rule Ack_spec(2) [OF q])
  show "Ack None h q = (Inl e, q') \<Longrightarrow> owed q' = owed q"
    using Ack_err [of h q e q'] by simp
qed

section \<open>Properties\<close>

text \<open>C19: Start with an empty in-memory queue and make any calls (\<^verbatim>\<open>Enqueue\<close> of messages without an
  id, as the server makes them, \<^verbatim>\<open>Receive\<close>, \<^verbatim>\<open>Ack\<close>) in any order: the test the leader makes before it
  merges an epoch, no message available and none in flight, holds exactly when the number of
  acknowledged uploads equals the number of accepted ones. No upload is lost and none is
  acknowledged twice.\<close>

theorem memory_queue_drained_iff_all_acked:
  assumes "\<forall>m t. OpEnqueue m t \<in> set ops \<longrightarrow> m_ID m = ''''"
    and "mem_queue.run ops (0, 0, newMemoryCompletedUploadQueue) = (accepted, acked, q)"
  shows "Depth (Stats q) = 0 \<and> Inflight (Stats q) = 0 \<longleftrightarrow> acked = accepted"
  by (rule mem_queue.drained_iff_all_acked [OF new_queue_ok _ assms])
    (simp add: owed_def newMemoryCompletedUploadQueue_def)

theorem memory_queue_drained_iff_all_acked_witness:
  "\<exists>accepted acked q. mem_queue.run [OpEnqueue sample_cu 5, OpReceive 2, OpAck (receipt_id 1)]
      (0, 0, newMemoryCompletedUploadQueue) = (accepted, acked, q) \<and>
     (Depth (Stats q) = 0 \<and> Inflight (Stats q) = 0 \<longleftrightarrow> acked = accepted)"
proof -
  obtain accepted acked q where r: "mem_queue.run [OpEnqueue sample_cu 5, OpReceive 2, OpAck (receipt_id 1)]
      (0, 0, newMemoryCompletedUploadQueue) = (accepted, acked, q)" by (metis prod_cases3)
  have "\<forall>m t. OpEnqueue m t \<in> set [OpEnqueue sample_cu 5, OpReceive 2, OpAck (receipt_id 1)] \<longrightarrow> m_ID m = ''''"
    by (simp add: sample_cu_def)
  from memory_queue_drained_iff_all_acked [OF this r] r show ?thesis by blast
qed

text \<open>The in-memory queue is first-in first-out: on a well-formed queue \<^verbatim>\<open>Enqueue\<close> appends the new
  message at the end, and a successful \<^verbatim>\<open>Receive\<close> returns a non-empty prefix of the available messages
  of at most the requested length and leaves the rest, in order.\<close>

theorem memory_queue_fifo:
  assumes "queue_ok q" "m_ID m = ''''" "0 < m_EpochID m" "0 < m_Uuid m"
  shows "\<exists>i q'. Enqueue None now m q = (Inr i, q') \<and> available q' = available q @ [i] \<and> queue_ok q' \<and>
     (\<forall>n. 0 < n \<longrightarrow> (\<exists>ms q''. Receive None n q' = Some (Inr ms, q'') \<and> ms \<noteq> [] \<and> int (length ms) \<le> n \<and>
        map (\<lambda>x. m_ID (Message_of x)) ms @ available q'' = available q'))"
proof -
  let ?q = "snd (Enqueue None now m q)"
  have E: "Enqueue None now m q = (Inr (message_id (nextMessageID q + 1)), ?q)"
    "available ?q = available q @ [message_id (nextMessageID q + 1)]"
    using assms by (simp_all add: Enqueue_spec [OF assms(1,2)])
  have ok: "queue_ok ?q" by (rule Enqueue_ok [OF assms(1,2)])
  have "\<exists>ms q''. Receive None n ?q = Some (Inr ms, q'') \<and> ms \<noteq> [] \<and> int (length ms) \<le> n \<and>
        map (\<lambda>x. m_ID (Message_of x)) ms @ available q'' = available ?q" if "0 < n" for n
  proof -
    obtain ms q'' where "receive_loop (min (nat n) (length (available ?q))) ?q [] = Some (ms, q'')"
      using receive_loop_spec [OF ok, of "min (nat n) (length (available ?q))" "[]"] by auto
    then have "Receive None n ?q = Some (Inr ms, q'')" using that E(2) by (simp add: Receive_def)
    with Receive_spec(3) [OF ok this refl] show ?thesis by blast
  qed
  with E ok show ?thesis by metis
qed

theorem memory_queue_fifo_witness:
  "\<exists>i q'. Enqueue None 5 sample_cu newMemoryCompletedUploadQueue = (Inr i, q') \<and>
     available q' = available newMemoryCompletedUploadQueue @ [i] \<and> queue_ok q' \<and>
     (\<forall>n. 0 < n \<longrightarrow> (\<exists>ms q''. Receive None n q' = Some (Inr ms, q'') \<and> ms \<noteq> [] \<and> int (length ms) \<le> n \<and>
        map (\<lambda>x. m_ID (Message_of x)) ms @ available q'' = available q'))"
  by (rule memory_queue_fifo [OF new_queue_ok]) (simp_all add: sample_cu_def)

end
