(* ===== verification/Upload_Ledger.thy ===== *)
theory Upload_Ledger
  imports Ingestion_Queue
begin

text \<open>
  The ledger of completed uploads (\<^verbatim>\<open>src/db/completed_upload_ledger.go\<close>): a worker takes a processing
  lease on an upload before it applies it and turns the lease into a commit afterwards.

  The interface \<^verbatim>\<open>CompletedUploadLedger\<close> is a locale; the in-memory ledger is its instance. \<open>clock\<close> is
  what \<^verbatim>\<open>time.Now\<close> returns, used when the caller passes the zero time.

  Shown here: different uploads have different keys; a commit is permanent, and every later
  \<^verbatim>\<open>BeginProcessing\<close> reports it; while a lease has not expired no second one is granted; a lease
  that was overtaken cannot commit; and no error changes the ledger.
\<close>

definition CompletedUploadReplicaActive :: string where "CompletedUploadReplicaActive = ''active''"
definition CompletedUploadReplicaStandby :: string where "CompletedUploadReplicaStandby = ''standby''"
definition LedgerStateProcessing :: string where "LedgerStateProcessing = ''processing''"
definition LedgerStateCommitted :: string where "LedgerStateCommitted = ''committed''"
definition defaultCompletedUploadProcessingTTL :: duration where
  "defaultCompletedUploadProcessingTTL = 15 * 60 * second"
definition errCompletedUploadProcessingBusy :: go_error where
  "errCompletedUploadProcessingBusy = Sentinel ''completed upload processing is busy''"

record CompletedUploadProcessingLease =
  pl_ReplicaID :: string
  pl_ShardID :: int
  pl_EpochID :: int
  pl_Uuid :: int
  pl_AttemptID :: string

record CompletedUploadLedgerBeginResult =
  AlreadyCommitted :: bool
  br_Lease :: CompletedUploadProcessingLease

record completedUploadLedgerRecord =
  lr_State :: string
  lr_AttemptID :: string
  ProcessingExpiresAt :: gotime
  CommittedAt :: gotime
  UpdatedAt :: gotime

record memoryCompletedUploadLedger =
  nextID :: int
  records :: "string \<rightharpoonup> completedUploadLedgerRecord"

definition newMemoryCompletedUploadLedger :: memoryCompletedUploadLedger where
  "newMemoryCompletedUploadLedger = \<lparr>nextID = 0, records = Map.empty\<rparr>"

definition zero_lease :: CompletedUploadProcessingLease where
  "zero_lease = \<lparr>pl_ReplicaID = '''', pl_ShardID = 0, pl_EpochID = 0, pl_Uuid = 0, pl_AttemptID = ''''\<rparr>"

definition completedUploadLedgerKeyForReplica :: "string \<Rightarrow> int \<Rightarrow> int \<Rightarrow> int \<Rightarrow> string" where
  "completedUploadLedgerKeyForReplica replicaID shardID epochID uuid =
     (let replicaID = (if replicaID = '''' then CompletedUploadReplicaActive else replicaID)
      in ''completed-upload#replica#'' @ replicaID @ ''#shard#'' @ show_int shardID
           @ ''#epoch#'' @ show_int epochID @ ''#uuid#'' @ show_int uuid)"

definition completedUploadLedgerKey :: "int \<Rightarrow> int \<Rightarrow> int \<Rightarrow> string" where
  "completedUploadLedgerKey shardID epochID uuid =
     completedUploadLedgerKeyForReplica CompletedUploadReplicaActive shardID epochID uuid"

definition validateCompletedUploadReplicaID :: "string \<Rightarrow> unit res" where
  "validateCompletedUploadReplicaID replicaID =
     (if replicaID \<in> {'''', CompletedUploadReplicaActive, CompletedUploadReplicaStandby} then Inr ()
      else Inl (ErrorString (''unsupported completed upload replica id '' @ quoted replicaID)))"

definition validateCompletedUploadLedgerIdentity :: "int \<Rightarrow> int \<Rightarrow> int \<Rightarrow> unit res" where
  "validateCompletedUploadLedgerIdentity shardID epochID uuid =
     (if shardID < 0 then Inl (ErrorString ''completed upload ledger shard id must be non-negative'')
      else if epochID \<le> 0 then Inl (ErrorString ''completed upload ledger epoch id must be positive'')
      else if uuid \<le> 0 then Inl (ErrorString ''completed upload ledger uuid must be positive'')
      else Inr ())"

definition attempt_id :: "int \<Rightarrow> string" where
  "attempt_id n = ''memory-attempt-'' @ show_int n"

definition BeginProcessing ::
  "go_error option \<Rightarrow> gotime \<Rightarrow> CompletedUploadMessage \<Rightarrow> gotime \<Rightarrow> duration \<Rightarrow> memoryCompletedUploadLedger
     \<Rightarrow> CompletedUploadLedgerBeginResult res \<times> memoryCompletedUploadLedger" where
  "BeginProcessing ctx clock message now ttl l =
     (case ctx of Some err \<Rightarrow> (Inl err, l) | None \<Rightarrow>
      if ttl \<le> 0 then (Inl (ErrorString ''completed upload processing ttl must be positive''), l)
      else case validateCompletedUploadLedgerIdentity (m_ShardID message) (m_EpochID message) (m_Uuid message) of
        Inl err \<Rightarrow> (Inl err, l)
      | Inr _ \<Rightarrow>
      case validateCompletedUploadReplicaID (m_ReplicaID message) of
        Inl err \<Rightarrow> (Inl err, l)
      | Inr _ \<Rightarrow>
      let now = (if IsZero now then clock else now);
          replicaID = (if m_ReplicaID message = '''' then CompletedUploadReplicaActive else m_ReplicaID message);
          key = completedUploadLedgerKeyForReplica replicaID (m_ShardID message) (m_EpochID message) (m_Uuid message);
          grant = (let n = nextID l + 1;
                       lease = \<lparr>pl_ReplicaID = replicaID, pl_ShardID = m_ShardID message,
                                pl_EpochID = m_EpochID message, pl_Uuid = m_Uuid message,
                                pl_AttemptID = attempt_id n\<rparr>
                   in (Inr \<lparr>AlreadyCommitted = False, br_Lease = lease\<rparr>,
                       l\<lparr>nextID := n, records := (records l)(key \<mapsto>
                         \<lparr>lr_State = LedgerStateProcessing, lr_AttemptID = pl_AttemptID lease,
                          ProcessingExpiresAt = now + ttl, CommittedAt = zero_time, UpdatedAt = now\<rparr>)\<rparr>))
      in case records l key of
           None \<Rightarrow> grant
         | Some record \<Rightarrow>
             if lr_State record = LedgerStateCommitted
             then (Inr \<lparr>AlreadyCommitted = True, br_Lease = zero_lease\<rparr>, l)
             else if lr_State record = LedgerStateProcessing \<and> Before now (ProcessingExpiresAt record)
             then (Inl errCompletedUploadProcessingBusy, l)
             else grant)"

definition CompleteProcessing ::
  "go_error option \<Rightarrow> gotime \<Rightarrow> CompletedUploadProcessingLease \<Rightarrow> gotime \<Rightarrow> memoryCompletedUploadLedger
     \<Rightarrow> unit res \<times> memoryCompletedUploadLedger" where
  "CompleteProcessing ctx clock lease now l =
     (case ctx of Some err \<Rightarrow> (Inl err, l) | None \<Rightarrow>
      case validateCompletedUploadLedgerIdentity (pl_ShardID lease) (pl_EpochID lease) (pl_Uuid lease) of
        Inl err \<Rightarrow> (Inl err, l)
      | Inr _ \<Rightarrow>
      case validateCompletedUploadReplicaID (pl_ReplicaID lease) of
        Inl err \<Rightarrow> (Inl err, l)
      | Inr _ \<Rightarrow>
      if pl_AttemptID lease = ''''
      then (Inl (ErrorString ''completed upload processing attempt id is required''), l)
      else
      let now = (if IsZero now then clock else now);
          replicaID = (if pl_ReplicaID lease = '''' then CompletedUploadReplicaActive else pl_ReplicaID lease);
          key = completedUploadLedgerKeyForReplica replicaID (pl_ShardID lease) (pl_EpochID lease) (pl_Uuid lease)
      in case records l key of
           None \<Rightarrow> (Inl errCompletedUploadProcessingBusy, l)
         | Some record \<Rightarrow>
             if lr_State record = LedgerStateCommitted then (Inr (), l)
             else if lr_State record \<noteq> LedgerStateProcessing \<or> lr_AttemptID record \<noteq> pl_AttemptID lease
             then (Inl errCompletedUploadProcessingBusy, l)
             else (Inr (), l\<lparr>records := (records l)(key \<mapsto>
                     \<lparr>lr_State = LedgerStateCommitted, lr_AttemptID = pl_AttemptID lease,
                      ProcessingExpiresAt = zero_time, CommittedAt = now, UpdatedAt = now\<rparr>)\<rparr>))"

section \<open>Keys\<close>

lemma ledger_key_inject:
  assumes key: "completedUploadLedgerKeyForReplica r s e u = completedUploadLedgerKeyForReplica r' s' e' u'"
    and r: "CHR ''#'' \<notin> set r" "CHR ''#'' \<notin> set r'"
  shows "(if r = '''' then CompletedUploadReplicaActive else r) = (if r' = '''' then CompletedUploadReplicaActive else r')
    \<and> s = s' \<and> e = e' \<and> u = u'"
proof -
  define a where "a r = (if r = '''' then CompletedUploadReplicaActive else r)" for r :: string
  have an: "CHR ''#'' \<notin> set (a r)" "CHR ''#'' \<notin> set (a r')"
    using r by (simp_all add: a_def CompletedUploadReplicaActive_def)
  have "a r @ CHR ''#'' # (''shard#'' @ show_int s @ CHR ''#'' # ''epoch#'' @ show_int e @ CHR ''#'' # ''uuid#'' @ show_int u)
      = a r' @ CHR ''#'' # (''shard#'' @ show_int s' @ CHR ''#'' # ''epoch#'' @ show_int e' @ CHR ''#'' # ''uuid#'' @ show_int u')"
    using key by (simp add: completedUploadLedgerKeyForReplica_def a_def)
  from append_sep_inject [OF this an] have ar: "a r = a r'"
    and "show_int s @ CHR ''#'' # ''epoch#'' @ show_int e @ CHR ''#'' # ''uuid#'' @ show_int u
      = show_int s' @ CHR ''#'' # ''epoch#'' @ show_int e' @ CHR ''#'' # ''uuid#'' @ show_int u'"
    by simp_all
  from append_sep_inject [OF this(2)] have "s = s'"
    and "show_int e @ CHR ''#'' # ''uuid#'' @ show_int u = show_int e' @ CHR ''#'' # ''uuid#'' @ show_int u'"
    by simp_all
  with append_sep_inject [OF this(2)] ar show ?thesis by (simp add: a_def)
qed

lemma hash_notin_replicas [simp]:
  "CHR ''#'' \<notin> set CompletedUploadReplicaActive" "CHR ''#'' \<notin> set CompletedUploadReplicaStandby"
  by (simp_all add: CompletedUploadReplicaActive_def CompletedUploadReplicaStandby_def)

section \<open>The interface\<close>

definition message_key :: "CompletedUploadMessage \<Rightarrow> string" where
  "message_key m = completedUploadLedgerKeyForReplica (m_ReplicaID m) (m_ShardID m) (m_EpochID m) (m_Uuid m)"

definition lease_key :: "CompletedUploadProcessingLease \<Rightarrow> string" where
  "lease_key L = completedUploadLedgerKeyForReplica (pl_ReplicaID L) (pl_ShardID L) (pl_EpochID L) (pl_Uuid L)"

datatype ledger_op =
    LBegin CompletedUploadMessage gotime duration
  | LComplete CompletedUploadProcessingLease gotime

text \<open>\<open>holder l k\<close> is the attempt that holds the processing lease of key \<open>k\<close> and its expiry.\<close>

locale completed_upload_ledger =
  fixes begin_p :: "CompletedUploadMessage \<Rightarrow> gotime \<Rightarrow> duration \<Rightarrow> 'l \<Rightarrow> CompletedUploadLedgerBeginResult res \<times> 'l"
    and complete_p :: "CompletedUploadProcessingLease \<Rightarrow> gotime \<Rightarrow> 'l \<Rightarrow> unit res \<times> 'l"
    and committed :: "'l \<Rightarrow> string set"
    and holder :: "'l \<Rightarrow> string \<rightharpoonup> string \<times> gotime"
  assumes begin_skip: "begin_p m t d l = (Inr r, l') \<Longrightarrow> AlreadyCommitted r \<longleftrightarrow> message_key m \<in> committed l"
    and begin_committed: "begin_p m t d l = (br, l') \<Longrightarrow> committed l' = committed l"
    and begin_grant: "begin_p m t d l = (Inr r, l') \<Longrightarrow> \<not> AlreadyCommitted r \<Longrightarrow>
          holder l' = (holder l)(message_key m \<mapsto> (pl_AttemptID (br_Lease r), t + d)) \<and>
          lease_key (br_Lease r) = message_key m"
    and begin_no_grant: "begin_p m t d l = (br, l') \<Longrightarrow> (\<forall>x. br = Inr x \<longrightarrow> AlreadyCommitted x) \<Longrightarrow> l' = l"
    and begin_busy: "holder l (message_key m) = Some (a, e) \<Longrightarrow> t < e \<Longrightarrow> begin_p m t d l = (Inr r, l')
          \<Longrightarrow> AlreadyCommitted r"
    and complete_ok: "complete_p L t l = (Inr u, l') \<Longrightarrow> committed l' = insert (lease_key L) (committed l) \<and>
          (lease_key L \<in> committed l \<or> (\<exists>e. holder l (lease_key L) = Some (pl_AttemptID L, e)))"
    and complete_holder: "complete_p L t l = (cr, l') \<Longrightarrow> k \<noteq> lease_key L \<Longrightarrow> holder l' k = holder l k"
    and complete_err: "complete_p L t l = (Inl err, l') \<Longrightarrow> l' = l"
begin

definition step :: "ledger_op \<Rightarrow> 'l \<Rightarrow> 'l" where
  "step op l = (case op of LBegin m t d \<Rightarrow> snd (begin_p m t d l) | LComplete L t \<Rightarrow> snd (complete_p L t l))"

definition run :: "ledger_op list \<Rightarrow> 'l \<Rightarrow> 'l" where
  "run ops l = foldl (\<lambda>l op. step op l) l ops"

lemma complete_committed:
  "committed (snd (complete_p L t l)) = committed l \<or>
   committed (snd (complete_p L t l)) = insert (lease_key L) (committed l)"
  using complete_ok [of L t l] complete_err [of L t l]
  by (cases "complete_p L t l"; cases "fst (complete_p L t l)") auto

lemma step_committed: "committed l \<subseteq> committed (step op l)"
proof (cases op)
  case (LBegin m t d)
  then show ?thesis using begin_committed [of m t d l] by (cases "begin_p m t d l") (simp add: step_def)
next
  case (LComplete L t)
  then show ?thesis using complete_committed [of L t l] by (auto simp: step_def)
qed

lemma run_committed: "committed l \<subseteq> committed (run ops l)"
  using step_committed by (induction ops arbitrary: l) (simp_all add: run_def, blast)

text \<open>After a commit, whatever happens, nobody is asked to process the upload again.\<close>

lemma commit_is_final:
  assumes "complete_p L t l = (Inr u, l')" "message_key m = lease_key L"
    and "begin_p m t' d (run ops l') = (Inr r, l'')"
  shows "AlreadyCommitted r"
proof -
  have "lease_key L \<in> committed (run ops l')"
    using complete_ok [OF assms(1)] run_committed [of l' ops] by auto
  then show ?thesis using begin_skip [OF assms(3)] assms(2) by simp
qed

text \<open>While a lease has not expired, every other worker finds the upload busy or committed.\<close>

abbreviation held :: "string \<Rightarrow> string \<Rightarrow> gotime \<Rightarrow> 'l \<Rightarrow> bool" where
  "held k a e l \<equiv> holder l k = Some (a, e) \<or> k \<in> committed l"

lemma step_held:
  assumes h: "held k a e l" and t: "\<forall>m t d. op = LBegin m t d \<longrightarrow> t < e"
  shows "held k a e (step op l)"
proof (cases op)
  case (LBegin m t d)
  obtain r l' where b: "begin_p m t d l = (r, l')" by fastforce
  have s: "step op l = l'" using LBegin b by (simp add: step_def)
  show ?thesis
  proof (cases "\<forall>x. r = Inr x \<longrightarrow> AlreadyCommitted x")
    case True
    then show ?thesis using begin_no_grant [OF b] h s by simp
  next
    case False
    then obtain x where x: "r = Inr x" "\<not> AlreadyCommitted x" by blast
    have nk: "k \<noteq> message_key m \<or> k \<in> committed l"
      using h begin_busy [of l m a e t d x l'] b x t LBegin by auto
    then show ?thesis
      using begin_grant [of m t d l x l'] b x begin_committed [OF b] h s by auto
  qed
next
  case (LComplete L t)
  obtain r l' where c: "complete_p L t l = (r, l')" by fastforce
  have s: "step op l = l'" using LComplete c by (simp add: step_def)
  show ?thesis
  proof (cases "k = lease_key L")
    case True
    then show ?thesis using h s c complete_ok [of L t l] complete_err [of L t l] by (cases r) auto
  next
    case False
    then show ?thesis using complete_holder [OF c] step_committed [of l op] h s by auto
  qed
qed

lemma run_held:
  "held k a e l \<Longrightarrow> (\<forall>m t d. LBegin m t d \<in> set ops \<longrightarrow> t < e) \<Longrightarrow> held k a e (run ops l)"
proof (induction ops arbitrary: l)
  case (Cons op ops)
  have "held k a e (step op l)" using step_held [of l k a e op] Cons.prems by auto
  moreover have "\<forall>m t d. LBegin m t d \<in> set ops \<longrightarrow> t < e" using Cons.prems(2) by simp
  ultimately have "held k a e (run ops (step op l))" by (rule Cons.IH)
  then show ?case by (simp add: run_def)
qed (simp add: run_def)

lemma lease_excludes:
  assumes g: "begin_p m t d l = (Inr r, l')" "\<not> AlreadyCommitted r"
    and ops: "\<forall>m' t' d'. LBegin m' t' d' \<in> set ops \<longrightarrow> t' < t + d"
    and m: "message_key m' = message_key m" and t: "t' < t + d"
    and b: "begin_p m' t' d' (run ops l') = (Inr r', l'')"
  shows "AlreadyCommitted r'"
proof -
  have "held (message_key m) (pl_AttemptID (br_Lease r)) (t + d) l'" using begin_grant [OF g] by simp
  from run_held [OF this ops] show ?thesis
    using begin_busy [OF _ t b] begin_skip [OF b] m by auto
qed

text \<open>A lease that another attempt has overtaken commits nothing.\<close>

lemma stale_lease_refused:
  assumes "holder l (lease_key L) = Some (a, e)" "a \<noteq> pl_AttemptID L" "lease_key L \<notin> committed l"
  shows "\<exists>err. complete_p L t l = (Inl err, l)"
  using assms complete_ok [of L t l] complete_err [of L t l]
  by (cases "complete_p L t l"; cases "fst (complete_p L t l)") auto

end

section \<open>The in-memory ledger meets the interface\<close>

definition ledger_committed :: "memoryCompletedUploadLedger \<Rightarrow> string set" where
  "ledger_committed l = {k. \<exists>r. records l k = Some r \<and> lr_State r = LedgerStateCommitted}"

definition ledger_holder :: "memoryCompletedUploadLedger \<Rightarrow> string \<rightharpoonup> string \<times> gotime" where
  "ledger_holder l k = (case records l k of
     Some r \<Rightarrow> if lr_State r = LedgerStateProcessing then Some (lr_AttemptID r, ProcessingExpiresAt r) else None
   | None \<Rightarrow> None)"

abbreviation begin_at where "begin_at m t d l \<equiv> BeginProcessing None t m t d l"
abbreviation complete_at where "complete_at L t l \<equiv> CompleteProcessing None t L t l"

lemma states_distinct [simp]: "LedgerStateProcessing \<noteq> LedgerStateCommitted" "LedgerStateCommitted \<noteq> LedgerStateProcessing"
  by (simp_all add: LedgerStateProcessing_def LedgerStateCommitted_def)

lemma message_key_active:
  "completedUploadLedgerKeyForReplica (if r = '''' then CompletedUploadReplicaActive else r) s e u
     = completedUploadLedgerKeyForReplica r s e u"
  by (simp add: completedUploadLedgerKeyForReplica_def CompletedUploadReplicaActive_def)

text \<open>What the two operations do once their arguments are valid, over the key of the upload.\<close>

definition ledger_grant ::
  "CompletedUploadMessage \<Rightarrow> gotime \<Rightarrow> duration \<Rightarrow> memoryCompletedUploadLedger
     \<Rightarrow> CompletedUploadLedgerBeginResult res \<times> memoryCompletedUploadLedger" where
  "ledger_grant m t d l =
     (Inr \<lparr>AlreadyCommitted = False, br_Lease =
        \<lparr>pl_ReplicaID = (if m_ReplicaID m = '''' then CompletedUploadReplicaActive else m_ReplicaID m),
         pl_ShardID = m_ShardID m, pl_EpochID = m_EpochID m, pl_Uuid = m_Uuid m,
         pl_AttemptID = attempt_id (nextID l + 1)\<rparr>\<rparr>,
      l\<lparr>nextID := nextID l + 1, records := (records l)(message_key m \<mapsto>
         \<lparr>lr_State = LedgerStateProcessing, lr_AttemptID = attempt_id (nextID l + 1),
          ProcessingExpiresAt = t + d, CommittedAt = zero_time, UpdatedAt = t\<rparr>)\<rparr>)"

definition begin_valid :: "CompletedUploadMessage \<Rightarrow> duration \<Rightarrow> bool" where
  "begin_valid m d \<longleftrightarrow> 0 < d \<and>
     validateCompletedUploadLedgerIdentity (m_ShardID m) (m_EpochID m) (m_Uuid m) = Inr () \<and>
     validateCompletedUploadReplicaID (m_ReplicaID m) = Inr ()"

definition complete_valid :: "CompletedUploadProcessingLease \<Rightarrow> bool" where
  "complete_valid L \<longleftrightarrow>
     validateCompletedUploadLedgerIdentity (pl_ShardID L) (pl_EpochID L) (pl_Uuid L) = Inr () \<and>
     validateCompletedUploadReplicaID (pl_ReplicaID L) = Inr () \<and> pl_AttemptID L \<noteq> ''''"

lemma begin_invalid: "\<not> begin_valid m d \<Longrightarrow> \<exists>e. begin_at m t d l = (Inl e, l)"
  by (cases "validateCompletedUploadLedgerIdentity (m_ShardID m) (m_EpochID m) (m_Uuid m)";
      cases "validateCompletedUploadReplicaID (m_ReplicaID m)")
    (auto simp: begin_valid_def BeginProcessing_def)

lemma complete_invalid: "\<not> complete_valid L \<Longrightarrow> \<exists>e. complete_at L t l = (Inl e, l)"
  by (cases "validateCompletedUploadLedgerIdentity (pl_ShardID L) (pl_EpochID L) (pl_Uuid L)";
      cases "validateCompletedUploadReplicaID (pl_ReplicaID L)")
    (auto simp: complete_valid_def CompleteProcessing_def)

lemma begin_eq:
  "begin_valid m d \<Longrightarrow> begin_at m t d l =
     (case records l (message_key m) of
        None \<Rightarrow> ledger_grant m t d l
      | Some rec \<Rightarrow>
          if lr_State rec = LedgerStateCommitted then (Inr \<lparr>AlreadyCommitted = True, br_Lease = zero_lease\<rparr>, l)
          else if lr_State rec = LedgerStateProcessing \<and> t < ProcessingExpiresAt rec
          then (Inl errCompletedUploadProcessingBusy, l) else ledger_grant m t d l)"
  unfolding begin_valid_def BeginProcessing_def Let_def message_key_active message_key_def
    ledger_grant_def Before_def by (simp split: option.split)

lemma complete_eq:
  "complete_valid L \<Longrightarrow> complete_at L t l =
     (case records l (lease_key L) of
        None \<Rightarrow> (Inl errCompletedUploadProcessingBusy, l)
      | Some rec \<Rightarrow>
          if lr_State rec = LedgerStateCommitted then (Inr (), l)
          else if lr_State rec \<noteq> LedgerStateProcessing \<or> lr_AttemptID rec \<noteq> pl_AttemptID L
          then (Inl errCompletedUploadProcessingBusy, l)
          else (Inr (), l\<lparr>records := (records l)(lease_key L \<mapsto>
                 \<lparr>lr_State = LedgerStateCommitted, lr_AttemptID = pl_AttemptID L,
                  ProcessingExpiresAt = zero_time, CommittedAt = t, UpdatedAt = t\<rparr>)\<rparr>))"
  unfolding complete_valid_def CompleteProcessing_def Let_def message_key_active lease_key_def by simp

lemma lease_key_grant: "lease_key (\<lparr>pl_ReplicaID = (if m_ReplicaID m = '''' then CompletedUploadReplicaActive else m_ReplicaID m),
         pl_ShardID = m_ShardID m, pl_EpochID = m_EpochID m, pl_Uuid = m_Uuid m, pl_AttemptID = a\<rparr>) = message_key m"
  by (simp add: lease_key_def message_key_def message_key_active split del: if_split)

lemma BeginProcessing_cases:
  assumes b: "begin_at m t d l = (r, l')"
  obtains (err) e where "r = Inl e" "l' = l"
  | (skip) x where "r = Inr x" "AlreadyCommitted x" "l' = l" "message_key m \<in> ledger_committed l"
  | (grant) x where "r = Inr x" "\<not> AlreadyCommitted x" "message_key m \<notin> ledger_committed l"
      "lease_key (br_Lease x) = message_key m"
      "\<And>a e. ledger_holder l (message_key m) = Some (a, e) \<Longrightarrow> \<not> t < e"
      "l' = l\<lparr>nextID := nextID l + 1, records := (records l)(message_key m \<mapsto>
         \<lparr>lr_State = LedgerStateProcessing, lr_AttemptID = pl_AttemptID (br_Lease x),
          ProcessingExpiresAt = t + d, CommittedAt = zero_time, UpdatedAt = t\<rparr>)\<rparr>"
proof (cases "begin_valid m d")
  case False
  then show ?thesis using begin_invalid [OF False, of t l] b err by fastforce
next
  case True
  note eq = b [unfolded begin_eq [OF True]]
  consider (c) rec where "records l (message_key m) = Some rec" "lr_State rec = LedgerStateCommitted"
    | (b) "r = Inl errCompletedUploadProcessingBusy" "l' = l"
    | (g) "ledger_grant m t d l = (r, l')" "message_key m \<notin> ledger_committed l"
        "\<forall>a e. ledger_holder l (message_key m) = Some (a, e) \<longrightarrow> \<not> t < e"
    using eq by (cases "records l (message_key m)")
      (auto simp: ledger_committed_def ledger_holder_def split: if_splits)
  then show ?thesis
  proof cases
    case c
    then show ?thesis using eq by (intro skip) (auto simp: ledger_committed_def)
  next
    case b
    then show ?thesis by (rule err)
  next
    case g
    show ?thesis
      by (rule grant [OF _ _ g(2) _ g(3) [rule_format]])
        (use g(1) in \<open>auto simp: ledger_grant_def lease_key_grant simp del: fun_upd_apply split del: if_split\<close>)
  qed
qed

lemma CompleteProcessing_cases:
  assumes c: "complete_at L t l = (r, l')"
  obtains (err) e where "r = Inl e" "l' = l"
  | (already) "r = Inr ()" "l' = l" "lease_key L \<in> ledger_committed l"
  | (commit) rec where "r = Inr ()" "records l (lease_key L) = Some rec" "lr_State rec = LedgerStateProcessing"
      "lr_AttemptID rec = pl_AttemptID L"
      "l' = l\<lparr>records := (records l)(lease_key L \<mapsto>
         \<lparr>lr_State = LedgerStateCommitted, lr_AttemptID = pl_AttemptID L,
          ProcessingExpiresAt = zero_time, CommittedAt = t, UpdatedAt = t\<rparr>)\<rparr>"
proof (cases "complete_valid L")
  case False
  then show ?thesis using complete_invalid [OF False, of t l] c err by fastforce
next
  case True
  show ?thesis
  proof (cases "records l (lease_key L)")
    case None
    then show ?thesis using c complete_eq [OF True, of t l] err by auto
  next
    case (Some rec)
    then show ?thesis using c [unfolded complete_eq [OF True]] err already commit
      by (auto simp: ledger_committed_def split: if_splits)
  qed
qed

interpretation mem_ledger: completed_upload_ledger begin_at complete_at ledger_committed ledger_holder
proof unfold_locales
  fix m t d l r l' br L u cr err k a e
  show "begin_at m t d l = (Inr r, l') \<Longrightarrow> AlreadyCommitted r \<longleftrightarrow> message_key m \<in> ledger_committed l"
    by (erule BeginProcessing_cases) auto
  show "begin_at m t d l = (br, l') \<Longrightarrow> ledger_committed l' = ledger_committed l"
    by (erule BeginProcessing_cases) (auto simp: ledger_committed_def)
  show "begin_at m t d l = (Inr r, l') \<Longrightarrow> \<not> AlreadyCommitted r \<Longrightarrow>
      ledger_holder l' = (ledger_holder l)(message_key m \<mapsto> (pl_AttemptID (br_Lease r), t + d)) \<and>
      lease_key (br_Lease r) = message_key m"
    by (erule BeginProcessing_cases) (auto simp: ledger_holder_def fun_eq_iff)
  show "begin_at m t d l = (br, l') \<Longrightarrow> \<forall>x. br = Inr x \<longrightarrow> AlreadyCommitted x \<Longrightarrow> l' = l"
    by (erule BeginProcessing_cases) auto
  show "ledger_holder l (message_key m) = Some (a, e) \<Longrightarrow> t < e \<Longrightarrow> begin_at m t d l = (Inr r, l') \<Longrightarrow>
      AlreadyCommitted r"
    by (erule BeginProcessing_cases) auto
  show "complete_at L t l = (Inr u, l') \<Longrightarrow>
      ledger_committed l' = insert (lease_key L) (ledger_committed l) \<and>
      (lease_key L \<in> ledger_committed l \<or> (\<exists>e. ledger_holder l (lease_key L) = Some (pl_AttemptID L, e)))"
    by (erule CompleteProcessing_cases) (auto simp: ledger_committed_def ledger_holder_def)
  show "complete_at L t l = (cr, l') \<Longrightarrow> k \<noteq> lease_key L \<Longrightarrow> ledger_holder l' k = ledger_holder l k"
    by (erule CompleteProcessing_cases) (auto simp: ledger_holder_def)
  show "complete_at L t l = (Inl err, l') \<Longrightarrow> l' = l"
    by (erule CompleteProcessing_cases) auto
qed

section \<open>Properties\<close>

text \<open>The ledger keys of two uploads are equal only if the uploads agree in replica (the empty
  replica id counting as \<^verbatim>\<open>active\<close>), shard, epoch and uuid, for replica ids without the separator,
  which every valid replica id is.\<close>

theorem ledger_keys_distinct:
  assumes "completedUploadLedgerKeyForReplica r s e u = completedUploadLedgerKeyForReplica r' s' e' u'"
    and "validateCompletedUploadReplicaID r = Inr ()" "validateCompletedUploadReplicaID r' = Inr ()"
  shows "(r = r' \<or> {r, r'} = {'''', CompletedUploadReplicaActive}) \<and> s = s' \<and> e = e' \<and> u = u'"
proof -
  have r: "r \<in> {'''', CompletedUploadReplicaActive, CompletedUploadReplicaStandby}"
    "r' \<in> {'''', CompletedUploadReplicaActive, CompletedUploadReplicaStandby}"
    using assms(2,3) by (auto simp: validateCompletedUploadReplicaID_def split: if_splits)
  then have "CHR ''#'' \<notin> set r" "CHR ''#'' \<notin> set r'" by auto
  note inj = ledger_key_inject [OF assms(1) this]
  have "CompletedUploadReplicaActive \<noteq> CompletedUploadReplicaStandby"
    by (simp add: CompletedUploadReplicaActive_def CompletedUploadReplicaStandby_def)
  with inj r show ?thesis by (auto split: if_splits)
qed

theorem ledger_keys_distinct_witness:
  "(''standby'' = ''standby'' \<or> {''standby'', ''standby''} = {'''', CompletedUploadReplicaActive}) \<and>
     (2::int) = 2 \<and> (7::int) = 7 \<and> (9::int) = 9"
  by (rule ledger_keys_distinct [OF refl])
    (simp_all add: validateCompletedUploadReplicaID_def CompletedUploadReplicaStandby_def)

text \<open>A commit in the ledger is final. After \<^verbatim>\<open>CompleteProcessing\<close> of a lease succeeded, and after
  any further calls by any workers at any times, \<^verbatim>\<open>BeginProcessing\<close> of the same upload never asks
  for it to be processed again: it reports it as committed or returns an error.\<close>

theorem ledger_commit_is_final:
  assumes "CompleteProcessing None t L t l = (Inr u, l')"
    and "completedUploadLedgerKeyForReplica (m_ReplicaID m) (m_ShardID m) (m_EpochID m) (m_Uuid m)
       = completedUploadLedgerKeyForReplica (pl_ReplicaID L) (pl_ShardID L) (pl_EpochID L) (pl_Uuid L)"
    and "BeginProcessing None t' m t' ttl (mem_ledger.run ops l') = (Inr r, l'')"
  shows "AlreadyCommitted r"
  using mem_ledger.commit_is_final [OF assms(1) _ assms(3)] assms(2)
  by (simp add: message_key_def lease_key_def)

definition sample_lease :: CompletedUploadProcessingLease where
  "sample_lease = \<lparr>pl_ReplicaID = '''', pl_ShardID = 0, pl_EpochID = 1, pl_Uuid = 77, pl_AttemptID = attempt_id 1\<rparr>"

definition sample_ledger :: memoryCompletedUploadLedger where
  "sample_ledger = \<lparr>nextID = 1, records = [lease_key sample_lease \<mapsto>
     \<lparr>lr_State = LedgerStateProcessing, lr_AttemptID = attempt_id 1, ProcessingExpiresAt = 100,
      CommittedAt = zero_time, UpdatedAt = 0\<rparr>]\<rparr>"

lemma sample_lease_key: "lease_key sample_lease = message_key sample_cu"
  by (simp add: lease_key_def sample_lease_def message_key_def sample_cu_def)

lemma sample_valid: "complete_valid sample_lease" "begin_valid sample_cu 10"
  by (simp_all add: complete_valid_def sample_lease_def begin_valid_def sample_cu_def attempt_id_def
      validateCompletedUploadLedgerIdentity_def validateCompletedUploadReplicaID_def)

theorem ledger_commit_is_final_witness:
  "\<exists>r l' l''. CompleteProcessing None 20 sample_lease 20 sample_ledger = (Inr (), l') \<and>
     BeginProcessing None 500 sample_cu 500 10 (mem_ledger.run [] l') = (Inr r, l'') \<and> AlreadyCommitted r"
proof -
  have a: "pl_AttemptID sample_lease = attempt_id 1" by (simp add: sample_lease_def)
  obtain l' where c: "CompleteProcessing None 20 sample_lease 20 sample_ledger = (Inr (), l')"
    and k: "message_key sample_cu \<in> ledger_committed l'"
    unfolding complete_eq [OF sample_valid(1)]
    by (simp add: sample_ledger_def sample_lease_key ledger_committed_def a)
  obtain r where b: "BeginProcessing None 500 sample_cu 500 10 (mem_ledger.run [] l') = (Inr r, l')"
    using k unfolding begin_eq [OF sample_valid(2)] by (auto simp: ledger_committed_def mem_ledger.run_def)
  have "AlreadyCommitted r"
    by (rule ledger_commit_is_final [OF c _ b]) (simp add: sample_lease_def sample_cu_def)
  with b c show ?thesis by blast
qed

text \<open>A processing lease excludes other workers until it expires. After \<^verbatim>\<open>BeginProcessing\<close> granted
  a lease at time \<open>t\<close>, and after any further calls that begin before \<open>t + ttl\<close>, another
  \<^verbatim>\<open>BeginProcessing\<close> of the same upload before \<open>t + ttl\<close> is never granted a second lease.\<close>

theorem ledger_lease_excludes:
  assumes "BeginProcessing None t m t ttl l = (Inr r, l')" "\<not> AlreadyCommitted r"
    and "\<forall>m' t' d'. LBegin m' t' d' \<in> set ops \<longrightarrow> t' < t + ttl"
    and "completedUploadLedgerKeyForReplica (m_ReplicaID m') (m_ShardID m') (m_EpochID m') (m_Uuid m')
       = completedUploadLedgerKeyForReplica (m_ReplicaID m) (m_ShardID m) (m_EpochID m) (m_Uuid m)"
    and "t' < t + ttl"
    and "BeginProcessing None t' m' t' ttl' (mem_ledger.run ops l') = (Inr r', l'')"
  shows "AlreadyCommitted r'"
  using mem_ledger.lease_excludes [OF assms(1,2,3) _ assms(5,6)] assms(4) by (simp add: message_key_def)

theorem ledger_lease_excludes_witness:
  "\<exists>r l' r' l''. BeginProcessing None 0 sample_cu 0 10 newMemoryCompletedUploadLedger = (Inr r, l') \<and>
     BeginProcessing None 5 sample_cu 5 10
       (mem_ledger.run [LComplete (br_Lease r) 4] l') = (Inr r', l'') \<and> AlreadyCommitted r'"
proof -
  obtain r l' where b: "BeginProcessing None 0 sample_cu 0 10 newMemoryCompletedUploadLedger = (Inr r, l')"
    and g: "ledger_grant sample_cu 0 10 newMemoryCompletedUploadLedger = (Inr r, l')"
    unfolding begin_eq [OF sample_valid(2)]
    by (auto simp: newMemoryCompletedUploadLedger_def ledger_grant_def)
  have r: "\<not> AlreadyCommitted r" "lease_key (br_Lease r) = message_key sample_cu" "complete_valid (br_Lease r)"
    using g by (auto simp: ledger_grant_def lease_key_grant sample_cu_def complete_valid_def attempt_id_def
        validateCompletedUploadLedgerIdentity_def validateCompletedUploadReplicaID_def lease_key_def message_key_def
        CompletedUploadReplicaActive_def completedUploadLedgerKeyForReplica_def)
  have "message_key sample_cu \<in> ledger_committed (mem_ledger.run [LComplete (br_Lease r) 4] l')"
    using g r(2) by (simp add: mem_ledger.run_def mem_ledger.step_def complete_eq [OF r(3)] ledger_committed_def)
      (auto simp: ledger_grant_def)
  then obtain r' l'' where b': "BeginProcessing None 5 sample_cu 5 10
       (mem_ledger.run [LComplete (br_Lease r) 4] l') = (Inr r', l'')"
    unfolding begin_eq [OF sample_valid(2)] by (auto simp: ledger_committed_def)
  have "AlreadyCommitted r'" by (rule ledger_lease_excludes [OF b r(1) _ refl _ b']) simp_all
  with b b' show ?thesis by blast
qed

text \<open>A lease that was overtaken cannot commit: when another attempt holds the upload and it is
  not committed, \<^verbatim>\<open>CompleteProcessing\<close> returns an error and changes nothing.\<close>

theorem ledger_stale_lease_refused:
  assumes "records l (completedUploadLedgerKeyForReplica (pl_ReplicaID L) (pl_ShardID L) (pl_EpochID L) (pl_Uuid L))
       = Some rec" "lr_State rec = LedgerStateProcessing" "lr_AttemptID rec \<noteq> pl_AttemptID L"
  shows "\<exists>err. CompleteProcessing None t L t l = (Inl err, l)"
  by (rule mem_ledger.stale_lease_refused [of l L "lr_AttemptID rec" "ProcessingExpiresAt rec"])
    (use assms in \<open>auto simp: ledger_holder_def ledger_committed_def lease_key_def\<close>)

theorem ledger_stale_lease_refused_witness:
  "\<exists>err. CompleteProcessing None 20 (sample_lease\<lparr>pl_AttemptID := attempt_id 0\<rparr>) 20 sample_ledger
     = (Inl err, sample_ledger)"
  by (rule ledger_stale_lease_refused)
    (auto simp: sample_ledger_def lease_key_def sample_lease_def attempt_id_def)

end
