(* ===== verification/Leader_Control.thy ===== *)
theory Leader_Control
  imports Upload_Ledger
begin

text \<open>
  The control loop of a shard leader (\<^verbatim>\<open>runLeaderControl\<close> and the RPC handlers that talk to it,
  \<^verbatim>\<open>src/db/server.go\<close>; the types of \<^verbatim>\<open>src/db/types.go\<close>).

  The loop is a single goroutine that owns the runtime: every command is one step. A handler is a
  definition per command: it takes the leader and returns the reply it sends, the notifications it
  sends to goroutines that wait for a merge (\<open>finishEpoch\<close> calls, identified by a number), and the
  leader. The ingestion queue is an interface in the code; here it is a record of its operations.

  Shown here: the invariant of the runtime; at most one waiter is told to run a merge and only at
  a step that enters \<^verbatim>\<open>merging\<close>; an epoch that is closing starts to merge only when no admitted upload
  and no queued upload is left; uploads are admitted only while the epoch is active and to local
  rows; and three ways in which an epoch goes wrong: a failed merge leaves the leader in \<^verbatim>\<open>merging\<close> for
  good, an aborted epoch's sessions continue under the next epoch's id, and an idle epoch merges
  although uploads are still queued.
\<close>

section \<open>Data\<close>

datatype DbState = EpochStateNoActive | EpochStateActive | EpochStateClosing | EpochStateMerging
  | EpochStateCompleted

datatype PeerConnectionState = PeerConnectionsConnecting | PeerConnectionsReady | PeerConnectionsFailed

fun DbState_String :: "DbState \<Rightarrow> string" where
  "DbState_String EpochStateNoActive = ''no_active_epoch''"
| "DbState_String EpochStateActive = ''active''"
| "DbState_String EpochStateClosing = ''closing''"
| "DbState_String EpochStateMerging = ''merging''"
| "DbState_String EpochStateCompleted = ''completed''"

fun PeerConnectionState_String :: "PeerConnectionState \<Rightarrow> string" where
  "PeerConnectionState_String PeerConnectionsConnecting = ''connecting''"
| "PeerConnectionState_String PeerConnectionsReady = ''ready''"
| "PeerConnectionState_String PeerConnectionsFailed = ''failed''"

record EpochMeta =
  ep_ID :: int
  ep_State :: DbState
  ep_StartTime :: gotime
  ep_EndTime :: gotime
  ep_DurationSeconds :: int

definition no_epoch :: EpochMeta where
  "no_epoch = \<lparr>ep_ID = 0, ep_State = EpochStateNoActive, ep_StartTime = zero_time,
               ep_EndTime = zero_time, ep_DurationSeconds = 0\<rparr>"

record AcceptQueryTuple =
  aq_hashKey :: "byte list"
  aq_challenge :: "byte list"
  aq_args1 :: "UploadArgs1 option"
  aq_args2 :: "UploadArgs2 option"
  aq_args3 :: "UploadArgs3 option"

record leaderControlRuntime =
  epoch :: EpochMeta
  epochTimer :: "duration option"
  accepted :: "(int, AcceptQueryTuple) gomap"
  lastResultPath :: string
  peerState :: PeerConnectionState
  peerError :: string
  mergeWaiters :: "nat list"

definition initial_runtime :: leaderControlRuntime where
  "initial_runtime = \<lparr>epoch = no_epoch, epochTimer = None, accepted = [], lastResultPath = '''',
     peerState = PeerConnectionsConnecting, peerError = '''', mergeWaiters = []\<rparr>"

record 'q queue_ops =
  q_enqueue :: "gotime \<Rightarrow> CompletedUploadMessage \<Rightarrow> 'q \<Rightarrow> string res \<times> 'q"
  q_receive :: "int \<Rightarrow> 'q \<Rightarrow> (QueuedCompletedUploadMessage list res \<times> 'q) option"
  q_ack :: "string \<Rightarrow> 'q \<Rightarrow> unit res \<times> 'q"
  q_stats :: "'q \<Rightarrow> IngestionQueueStats"

definition mem_queue_ops :: "memoryCompletedUploadQueue queue_ops" where
  "mem_queue_ops = \<lparr>q_enqueue = Enqueue None, q_receive = Receive None, q_ack = Ack None, q_stats = Stats\<rparr>"

record 'q leader =
  ld_ServerIdx :: nat
  ld_ShardID :: int
  ld_replicaID :: string
  ld_standbyFanout :: bool
  ld_globalRowStart :: int
  ld_rpcClients :: "bool list"
  ld_queue :: 'q
  ld_ctl :: leaderControlRuntime

record StartEpochReply =
  se_EpochID :: int
  se_State :: string
  se_StartUnix :: int
  se_EndUnix :: int
  se_DurationSecs :: int

record EpochStatusReply =
  es_EpochID :: int
  es_State :: string
  es_StartUnix :: int
  es_EndUnix :: int
  es_DurationSecs :: int
  es_Accepting :: bool
  es_LastResult :: string

record controlSnapshot =
  cs_epoch :: EpochMeta
  cs_accepting :: bool
  cs_lastResult :: string
  cs_peerState :: PeerConnectionState
  cs_peerError :: string

record beginEpochMergeResult =
  bm_meta :: EpochMeta
  bm_shouldRun :: bool

type_synonym notification = "nat \<times> beginEpochMergeResult"

section \<open>Helpers of the loop\<close>

abbreviation ctl_update :: "(leaderControlRuntime \<Rightarrow> leaderControlRuntime) \<Rightarrow> 'q leader \<Rightarrow> 'q leader" where
  "ctl_update f s \<equiv> s\<lparr>ld_ctl := f (ld_ctl s)\<rparr>"

definition ingestionQueueDrained :: "'q queue_ops \<Rightarrow> 'q leader \<Rightarrow> bool" where
  "ingestionQueueDrained Q s =
     (let stats = q_stats Q (ld_queue s) in Depth stats = 0 \<and> Inflight stats = 0)"

definition startMergeIfDrained :: "'q queue_ops \<Rightarrow> 'q leader \<Rightarrow> notification list \<times> 'q leader" where
  "startMergeIfDrained Q s =
     (if ep_State (epoch (ld_ctl s)) \<noteq> EpochStateClosing \<or> accepted (ld_ctl s) \<noteq> [] \<or> \<not> ingestionQueueDrained Q s
      then ([], s)
      else let meta = (epoch (ld_ctl s))\<lparr>ep_State := EpochStateMerging\<rparr>;
               waiters = mergeWaiters (ld_ctl s)
           in (map (\<lambda>i. (waiters ! i, \<lparr>bm_meta = meta, bm_shouldRun = (i = 0)\<rparr>)) [0..<length waiters],
               ctl_update (\<lambda>c. c\<lparr>epoch := meta, mergeWaiters := []\<rparr>) s))"

definition releaseMergeWaiters :: "'q leader \<Rightarrow> notification list \<times> 'q leader" where
  "releaseMergeWaiters s =
     (map (\<lambda>w. (w, \<lparr>bm_meta = epoch (ld_ctl s), bm_shouldRun = False\<rparr>)) (mergeWaiters (ld_ctl s)),
      ctl_update (\<lambda>c. c\<lparr>mergeWaiters := []\<rparr>) s)"

section \<open>The commands\<close>

definition start_epoch_reply :: "EpochMeta \<Rightarrow> StartEpochReply" where
  "start_epoch_reply e = \<lparr>se_EpochID = ep_ID e, se_State = DbState_String (ep_State e),
     se_StartUnix = Unix (ep_StartTime e), se_EndUnix = Unix (ep_EndTime e),
     se_DurationSecs = ep_DurationSeconds e\<rparr>"

text \<open>\<open>clock\<close> is \<^verbatim>\<open>time.Now\<close>. The product with \<^verbatim>\<open>time.Second\<close> is computed in 64 bits.\<close>

definition startEpochCommand ::
  "gotime \<Rightarrow> int \<Rightarrow> int \<Rightarrow> int \<Rightarrow> 'q leader \<Rightarrow> StartEpochReply res \<times> 'q leader" where
  "startEpochCommand clock durationSeconds epochID startUnix s =
     (let c = ld_ctl s; st = ep_State (epoch c) in
      if durationSeconds \<le> 0 then (Inl (ErrorString ''Epoch duration must be positive''), s)
      else if st = EpochStateActive \<or> st = EpochStateClosing \<or> st = EpochStateMerging
      then (Inl (ErrorString ''An epoch is already in progress''), s)
      else let now = (if startUnix > 0 then time_Unix startUnix else clock);
               d = wrap64 (durationSeconds * second);
               e = \<lparr>ep_ID = (if epochID > 0 then epochID else wrap64 (ep_ID (epoch c) + 1)),
                    ep_State = EpochStateActive, ep_StartTime = now, ep_EndTime = now + d,
                    ep_DurationSeconds = durationSeconds\<rparr>
           in (Inr (start_epoch_reply e), ctl_update (\<lambda>c. c\<lparr>epoch := e, epochTimer := Some d\<rparr>) s))"

definition epochStatusCommand :: "'q leader \<Rightarrow> EpochStatusReply" where
  "epochStatusCommand s =
     (let e = epoch (ld_ctl s) in
      \<lparr>es_EpochID = ep_ID e, es_State = DbState_String (ep_State e), es_StartUnix = Unix (ep_StartTime e),
       es_EndUnix = Unix (ep_EndTime e), es_DurationSecs = ep_DurationSeconds e,
       es_Accepting = (ep_State e = EpochStateActive), es_LastResult = lastResultPath (ld_ctl s)\<rparr>)"

definition controlSnapshotCommand :: "'q leader \<Rightarrow> controlSnapshot" where
  "controlSnapshotCommand s =
     (let c = ld_ctl s in
      \<lparr>cs_epoch = epoch c, cs_accepting = (ep_State (epoch c) = EpochStateActive),
       cs_lastResult = lastResultPath c, cs_peerState = peerState c, cs_peerError = peerError c\<rparr>)"

definition updatePeerConnectionStateCommand :: "PeerConnectionState \<Rightarrow> string \<Rightarrow> 'q leader \<Rightarrow> 'q leader" where
  "updatePeerConnectionStateCommand st err s = ctl_update (\<lambda>c. c\<lparr>peerState := st, peerError := err\<rparr>) s"

text \<open>\<^verbatim>\<open>utils.RandomInt64(math.MaxInt64)\<close> and \<^verbatim>\<open>utils.RandBytes\<close> read the same random source here.\<close>

definition upload1Command ::
  "'r rng \<Rightarrow> UploadArgs1 \<Rightarrow> 'r \<Rightarrow> 'q leader \<Rightarrow> UploadReply1 res \<times> 'r \<times> 'q leader" where
  "upload1Command G args r s =
     (let c = ld_ctl s in
      if ep_State (epoch c) \<noteq> EpochStateActive then (Inl (ErrorString ''No active epoch''), r, s)
      else if RouteRow args < 0 \<or> int TABLE_HEIGHT \<le> RouteRow args
      then (Inl (ErrorString (''route row '' @ show_int (RouteRow args) @ '' outside local table height ''
              @ show_nat TABLE_HEIGHT)), r, s)
      else if UseAssignedSession args \<and> AssignedUUID args \<le> 0
      then (Inl (ErrorString ''assigned session uuid must be positive''), r, s)
      else if UseAssignedSession args \<and> gm_get (accepted c) (AssignedUUID args) \<noteq> None
      then (Inl (ErrorString ''assigned session uuid already exists''), r, s)
      else let (uuid, hashKey, r) =
                 (if UseAssignedSession args then (AssignedUUID args, AssignedHashKey args, r)
                  else let (u, r) = rng_Int G r max_int64; (h, r) = RandBytes G 32 r in (u, h, r));
               (challenge, r) = RandBytes G 16 r;
               tup = \<lparr>aq_hashKey = hashKey, aq_challenge = challenge, aq_args1 = Some args,
                      aq_args2 = None, aq_args3 = None\<rparr>
           in (Inr \<lparr>r1_Uuid = uuid, r1_HashKey = hashKey\<rparr>, r,
               ctl_update (\<lambda>c. c\<lparr>accepted := gm_put uuid tup (accepted c)\<rparr>) s))"

definition upload2Command :: "UploadArgs2 \<Rightarrow> 'q leader \<Rightarrow> UploadReply2 res \<times> 'q leader" where
  "upload2Command args s =
     (case gm_get (accepted (ld_ctl s)) (a2_Uuid args) of
        None \<Rightarrow> (Inl (ErrorString ''Bogus UUID''), s)
      | Some data \<Rightarrow>
          if aq_hashKey data \<noteq> a2_HashKey args then (Inl (ErrorString ''Bogus UUID''), s)
          else (Inr \<lparr>Challenge = aq_challenge data\<rparr>,
                ctl_update (\<lambda>c. c\<lparr>accepted := gm_put (a2_Uuid args) (data\<lparr>aq_args2 := Some args\<rparr>) (accepted c)\<rparr>) s))"

definition completedUploadMessageFromSession ::
  "'q leader \<Rightarrow> EpochMeta \<Rightarrow> int \<Rightarrow> AcceptQueryTuple \<Rightarrow> CompletedUploadMessage option" where
  "completedUploadMessageFromSession s e uuid tup =
     (case (aq_args1 tup, aq_args2 tup, aq_args3 tup) of
        (Some x1, Some x2, Some x3) \<Rightarrow>
          Some \<lparr>m_ID = '''', m_ReplicaID = '''', m_EpochID = ep_ID e, m_ShardID = ld_ShardID s, m_Uuid = uuid,
                m_HashKey = aq_hashKey tup, m_Challenge = aq_challenge tup,
                m_GlobalRow = ld_globalRowStart s + RouteRow x1, m_LocalRow = RouteRow x1,
                m_EnqueuedAt = zero_time, m_Attempts = 0, m_Args1 = x1, m_Args2 = x2, m_Args3 = x3\<rparr>
      | _ \<Rightarrow> None)"

text \<open>
  \<open>upload3_enqueue\<close> is the part of the handler after its guards; the session it is given has all
  three arguments, so the message exists (\<open>None\<close> would be a nil dereference).
\<close>

definition upload3_enqueue ::
  "'q queue_ops \<Rightarrow> gotime \<Rightarrow> UploadArgs3 \<Rightarrow> AcceptQueryTuple \<Rightarrow> 'q leader
     \<Rightarrow> unit res \<times> notification list \<times> 'q leader" where
  "upload3_enqueue Q clock args data s =
     (let data = data\<lparr>aq_args3 := Some args\<rparr>;
          s = ctl_update (\<lambda>c. c\<lparr>accepted := gm_put (a3_Uuid args) data (accepted c)\<rparr>) s
      in case completedUploadMessageFromSession s (epoch (ld_ctl s)) (a3_Uuid args) data of
           None \<Rightarrow> (Inl (ErrorString ''nil pointer''), [], s)
         | Some msg \<Rightarrow>
             (case q_enqueue Q clock msg (ld_queue s) of
                (Inl err, q) \<Rightarrow> (Inl err, [], s\<lparr>ld_queue := q\<rparr>)
              | (Inr _, q) \<Rightarrow>
                  let s = ctl_update (\<lambda>c. c\<lparr>accepted := gm_del (a3_Uuid args) (accepted c)\<rparr>) (s\<lparr>ld_queue := q\<rparr>);
                      (ns, s) = startMergeIfDrained Q s
                  in (Inr (), ns, s)))"

definition upload3Command ::
  "'q queue_ops \<Rightarrow> gotime \<Rightarrow> UploadArgs3 \<Rightarrow> 'q leader \<Rightarrow> unit res \<times> notification list \<times> 'q leader" where
  "upload3Command Q clock args s =
     (case gm_get (accepted (ld_ctl s)) (a3_Uuid args) of
        None \<Rightarrow> (Inl (ErrorString ''Bogus UUID''), [], s)
      | Some data \<Rightarrow>
          if aq_hashKey data \<noteq> a3_HashKey args then (Inl (ErrorString ''Bogus UUID''), [], s)
          else if aq_args1 data = None \<or> aq_args2 data = None
          then (Inl (ErrorString ''Incomplete upload session''), [], s)
          else upload3_enqueue Q clock args data s)"

definition beginEpochMergeCommand ::
  "'q queue_ops \<Rightarrow> nat \<Rightarrow> 'q leader \<Rightarrow> notification list \<times> 'q leader" where
  "beginEpochMergeCommand Q w s =
     (let c = ld_ctl s; st = ep_State (epoch c) in
      if st \<noteq> EpochStateActive then
        (if st = EpochStateClosing
         then ([], ctl_update (\<lambda>c. c\<lparr>mergeWaiters := mergeWaiters c @ [w]\<rparr>) s)
         else ([(w, \<lparr>bm_meta = epoch c, bm_shouldRun = False\<rparr>)], s))
      else let s = ctl_update (\<lambda>c. c\<lparr>epochTimer := None\<rparr>) s in
        if accepted c \<noteq> []
        then startMergeIfDrained Q (ctl_update (\<lambda>c. c\<lparr>epoch := (epoch c)\<lparr>ep_State := EpochStateClosing\<rparr>,
               mergeWaiters := mergeWaiters c @ [w]\<rparr>) s)
        else let meta = (epoch c)\<lparr>ep_State := EpochStateMerging\<rparr>
             in ([(w, \<lparr>bm_meta = meta, bm_shouldRun = True\<rparr>)], ctl_update (\<lambda>c. c\<lparr>epoch := meta\<rparr>) s))"

definition completeEpochMergeCommand ::
  "string \<Rightarrow> go_error option \<Rightarrow> 'q leader \<Rightarrow> 'q leader" where
  "completeEpochMergeCommand resultPath err s =
     ctl_update (\<lambda>c. c\<lparr>epochTimer := None\<rparr>)
       (case err of
          None \<Rightarrow> ctl_update (\<lambda>c. c\<lparr>epoch := (epoch c)\<lparr>ep_State := EpochStateCompleted\<rparr>,
                    lastResultPath := resultPath\<rparr>) s
        | Some _ \<Rightarrow> s)"

definition takeAcceptedSessionCommand ::
  "'q queue_ops \<Rightarrow> int \<Rightarrow> 'q leader \<Rightarrow> AcceptQueryTuple option \<times> notification list \<times> 'q leader" where
  "takeAcceptedSessionCommand Q uuid s =
     (let session = gm_get (accepted (ld_ctl s)) uuid;
          s = ctl_update (\<lambda>c. c\<lparr>accepted := gm_del uuid (accepted c)\<rparr>) s;
          (ns, s) = startMergeIfDrained Q s
      in (session, ns, s))"

definition ingestionQueueDrainedCommand :: "'q queue_ops \<Rightarrow> 'q leader \<Rightarrow> notification list \<times> 'q leader" where
  "ingestionQueueDrainedCommand Q s = startMergeIfDrained Q s"

definition stopEpochTimerCommand :: "'q leader \<Rightarrow> 'q leader" where
  "stopEpochTimerCommand s = ctl_update (\<lambda>c. c\<lparr>epochTimer := None\<rparr>) s"

definition abortEpochCommand :: "int \<Rightarrow> 'q leader \<Rightarrow> unit res \<times> notification list \<times> 'q leader" where
  "abortEpochCommand epochID s =
     (let e = epoch (ld_ctl s) in
      if ep_ID e \<noteq> epochID \<or> (ep_State e \<noteq> EpochStateActive \<and> ep_State e \<noteq> EpochStateClosing)
      then (Inl (ErrorString ''No matching active epoch to abort''), [], s)
      else let s = ctl_update (\<lambda>c. c\<lparr>epochTimer := None\<rparr>) s;
               (ns, s) = releaseMergeWaiters s
           in (Inr (), ns, ctl_update (\<lambda>c. c\<lparr>epoch := no_epoch\<rparr>) s))"

section \<open>The RPC handlers\<close>

definition isLeader :: "'q leader \<Rightarrow> bool" where
  "isLeader s \<longleftrightarrow> ld_ServerIdx s = 0"

definition upload_guard :: "'q leader \<Rightarrow> unit res" where
  "upload_guard s =
     (if \<not> isLeader s then Inl (ErrorString ''Only leader can accept uploads'')
      else if ld_replicaID s = CompletedUploadReplicaStandby
      then Inl (ErrorString ''standby replica cannot accept direct uploads'')
      else Inr ())"

text \<open>The token channels \<^verbatim>\<open>incoming1\<close> to \<^verbatim>\<open>incoming3\<close> only delay a call, so they are not modelled.\<close>

definition Upload1 :: "'r rng \<Rightarrow> UploadArgs1 \<Rightarrow> 'r \<Rightarrow> 'q leader \<Rightarrow> UploadReply1 res \<times> 'r \<times> 'q leader" where
  "Upload1 G args r s =
     (case upload_guard s of Inl e \<Rightarrow> (Inl e, r, s) | Inr _ \<Rightarrow> upload1Command G args r s)"

definition Upload2 :: "UploadArgs2 \<Rightarrow> 'q leader \<Rightarrow> UploadReply2 res \<times> 'q leader" where
  "Upload2 args s = (case upload_guard s of Inl e \<Rightarrow> (Inl e, s) | Inr _ \<Rightarrow> upload2Command args s)"

definition Upload3 ::
  "'q queue_ops \<Rightarrow> gotime \<Rightarrow> UploadArgs3 \<Rightarrow> 'q leader \<Rightarrow> unit res \<times> notification list \<times> 'q leader" where
  "Upload3 Q clock args s =
     (case upload_guard s of Inl e \<Rightarrow> (Inl e, [], s) | Inr _ \<Rightarrow> upload3Command Q clock args s)"

definition setPeerConnectionState :: "PeerConnectionState \<Rightarrow> go_error option \<Rightarrow> 'q leader \<Rightarrow> 'q leader" where
  "setPeerConnectionState st err s =
     (if \<not> isLeader s then s
      else updatePeerConnectionStateCommand st (case err of None \<Rightarrow> '''' | Some e \<Rightarrow> error_text e) s)"

definition requirePeerReady :: "string \<Rightarrow> 'q leader \<Rightarrow> unit res" where
  "requirePeerReady op s =
     (if \<not> isLeader s then Inr ()
      else let c = controlSnapshotCommand s in
        case cs_peerState c of
          PeerConnectionsReady \<Rightarrow> Inr ()
        | PeerConnectionsFailed \<Rightarrow>
            (if cs_peerError c \<noteq> ''''
             then Inl (ErrorString (''leader not ready for '' @ op @ '': peer RPC connection setup failed: '' @ cs_peerError c))
             else Inl (ErrorString (''leader not ready for '' @ op @ '': peer RPC connection setup failed'')))
        | PeerConnectionsConnecting \<Rightarrow>
            Inl (ErrorString (''leader not ready for '' @ op @ '': peer RPC connections still initializing'')))"

text \<open>\<open>ld_rpcClients\<close> says for each peer whether its connection is established.\<close>

definition requirePeerRPCClients :: "string \<Rightarrow> 'q leader \<Rightarrow> unit res" where
  "requirePeerRPCClients op s =
     (case requirePeerReady op s of Inl e \<Rightarrow> Inl e | Inr _ \<Rightarrow>
      case filter (\<lambda>i. \<not> ld_rpcClients s ! i) [0..<NUM_SERVERS] of
        [] \<Rightarrow> Inr ()
      | i # _ \<Rightarrow> Inl (ErrorString (''leader not ready for '' @ op @ '': peer RPC client '' @ show_nat i @ '' not established'')))"

definition StartEpoch ::
  "gotime \<Rightarrow> int \<Rightarrow> int \<Rightarrow> int \<Rightarrow> 'q leader \<Rightarrow> StartEpochReply res \<times> 'q leader" where
  "StartEpoch clock durationSeconds epochID startUnix s =
     (if \<not> isLeader s then (Inl (ErrorString ''Only leader can start epochs''), s)
      else case requirePeerReady ''start epoch'' s of
        Inl e \<Rightarrow> (Inl e, s)
      | Inr _ \<Rightarrow>
          let s = (if ld_replicaID s = CompletedUploadReplicaStandby
                   then s\<lparr>ld_replicaID := CompletedUploadReplicaActive, ld_standbyFanout := False\<rparr> else s)
          in startEpochCommand clock durationSeconds epochID startUnix s)"

definition EpochStatus :: "'q leader \<Rightarrow> EpochStatusReply" where
  "EpochStatus s = epochStatusCommand s"

definition AbortEpoch :: "int \<Rightarrow> 'q leader \<Rightarrow> unit res \<times> notification list \<times> 'q leader" where
  "AbortEpoch epochID s =
     (if \<not> isLeader s then (Inl (ErrorString ''Only leader can abort epochs''), [], s)
      else abortEpochCommand epochID s)"

text \<open>
  \<^verbatim>\<open>finishEpoch\<close> in two parts: it sends \<^verbatim>\<open>beginEpochMergeCommand\<close> and waits for its notification; then,
  if told to, it runs the merge and reports the outcome. \<open>mergeFn\<close> is \<^verbatim>\<open>Server.mergeFn\<close>.
\<close>

definition finishEpoch_begin :: "'q queue_ops \<Rightarrow> nat \<Rightarrow> 'q leader \<Rightarrow> unit res \<times> notification list \<times> 'q leader" where
  "finishEpoch_begin Q w s =
     (if \<not> isLeader s then (Inl (ErrorString ''Only leader can finish epochs''), [], s)
      else let (ns, s) = beginEpochMergeCommand Q w s in (Inr (), ns, s))"

definition finishEpoch_end ::
  "('w \<Rightarrow> string res \<times> 'w) \<Rightarrow> beginEpochMergeResult \<Rightarrow> 'q leader \<times> 'w \<Rightarrow> unit res \<times> 'q leader \<times> 'w" where
  "finishEpoch_end mergeFn begun = (\<lambda>(s, w).
     if \<not> bm_shouldRun begun then (Inr (), s, w)
     else let (res, w) = mergeFn w
          in case res of
               Inl err \<Rightarrow> (Inl err, completeEpochMergeCommand '''' (Some err) s, w)
             | Inr resultPath \<Rightarrow> (Inr (), completeEpochMergeCommand resultPath None s, w))"

section \<open>The loop as a state machine\<close>

text \<open>
  Besides the leader: the number of merges that were told to run and have not reported back, and
  two counters, of epochs started and of merges told to run. Workers change the queue at any time.
  \<^verbatim>\<open>completeEpochMergeCommand\<close> is sent only by a merge that was told to run.
\<close>

record 'q lsys =
  sy_leader :: "'q leader"
  sy_running :: nat
  sy_started :: nat
  sy_merges :: nat

definition runs :: "notification list \<Rightarrow> nat" where
  "runs ns = length (filter (\<lambda>n. bm_shouldRun (snd n)) ns)"

definition notified :: "notification list \<Rightarrow> 'q leader \<Rightarrow> 'q lsys \<Rightarrow> 'q lsys" where
  "notified ns s y = y\<lparr>sy_leader := s, sy_running := sy_running y + runs ns, sy_merges := sy_merges y + runs ns\<rparr>"

inductive lstep :: "'r rng \<Rightarrow> 'q queue_ops \<Rightarrow> 'q lsys \<Rightarrow> 'q lsys \<Rightarrow> bool" for G Q where
  Start: "startEpochCommand t d e u (sy_leader y) = (Inr rep, s) \<Longrightarrow>
     lstep G Q y (y\<lparr>sy_leader := s, sy_started := Suc (sy_started y)\<rparr>)"
| Peer: "lstep G Q y (y\<lparr>sy_leader := updatePeerConnectionStateCommand p err (sy_leader y)\<rparr>)"
| Up1: "upload1Command G a1 r (sy_leader y) = (res1, r', s) \<Longrightarrow> lstep G Q y (y\<lparr>sy_leader := s\<rparr>)"
| Up2: "upload2Command a2 (sy_leader y) = (res2, s) \<Longrightarrow> lstep G Q y (y\<lparr>sy_leader := s\<rparr>)"
| Up3: "upload3Command Q t a3 (sy_leader y) = (res3, ns, s) \<Longrightarrow> lstep G Q y (notified ns s y)"
| Begin: "beginEpochMergeCommand Q w (sy_leader y) = (ns, s) \<Longrightarrow> lstep G Q y (notified ns s y)"
| Complete: "0 < sy_running y \<Longrightarrow> lstep G Q y (y\<lparr>sy_leader := completeEpochMergeCommand path err (sy_leader y),
     sy_running := sy_running y - 1\<rparr>)"
| Take: "takeAcceptedSessionCommand Q uuid (sy_leader y) = (sess, ns, s) \<Longrightarrow> lstep G Q y (notified ns s y)"
| Drained: "ingestionQueueDrainedCommand Q (sy_leader y) = (ns, s) \<Longrightarrow> lstep G Q y (notified ns s y)"
| Stop: "lstep G Q y (y\<lparr>sy_leader := stopEpochTimerCommand (sy_leader y)\<rparr>)"
| Abort: "abortEpochCommand e (sy_leader y) = (res4, ns, s) \<Longrightarrow> lstep G Q y (notified ns s y)"
| Worker: "lstep G Q y (y\<lparr>sy_leader := (sy_leader y)\<lparr>ld_queue := q\<rparr>\<rparr>)"

inductive lreach :: "'r rng \<Rightarrow> 'q queue_ops \<Rightarrow> 'q lsys \<Rightarrow> 'q lsys \<Rightarrow> bool" for G Q y where
  Refl: "lreach G Q y y"
| Step: "lreach G Q y y' \<Longrightarrow> lstep G Q y' y'' \<Longrightarrow> lreach G Q y y''"

inductive_cases lstep_cases: "lstep G Q y y'"

section \<open>The invariant\<close>

definition runtime_ok :: "leaderControlRuntime \<Rightarrow> bool" where
  "runtime_ok c \<longleftrightarrow> gm_ok (accepted c) \<and> (mergeWaiters c \<noteq> [] \<longleftrightarrow> ep_State (epoch c) = EpochStateClosing)"

abbreviation st_of :: "'q leader \<Rightarrow> DbState" where
  "st_of s \<equiv> ep_State (epoch (ld_ctl s))"

definition open_epoch :: "'q leader \<Rightarrow> nat" where
  "open_epoch s = (if st_of s = EpochStateActive \<or> st_of s = EpochStateClosing then 1 else 0)"

text \<open>What a command without a start may do: keep the invariant, and tell at most one waiter to run,
  exactly when it moves the epoch into \<^verbatim>\<open>merging\<close>, which ends the open epoch; then no admitted upload
  is left, and, if the epoch was closing, no queued one.\<close>

definition good_step :: "'q queue_ops \<Rightarrow> 'q leader \<Rightarrow> notification list \<Rightarrow> 'q leader \<Rightarrow> bool" where
  "good_step Q s ns s' \<longleftrightarrow> runtime_ok (ld_ctl s') \<and>
     runs ns = (if st_of s \<noteq> EpochStateMerging \<and> st_of s' = EpochStateMerging then 1 else 0) \<and>
     (st_of s = EpochStateMerging \<longrightarrow> st_of s' = EpochStateMerging) \<and>
     runs ns + open_epoch s' \<le> open_epoch s \<and>
     (runs ns \<noteq> 0 \<longrightarrow> accepted (ld_ctl s') = [] \<and>
        (st_of s = EpochStateClosing \<longrightarrow> ingestionQueueDrained Q s'))"

lemma runs_simps [simp]:
  "runs [] = 0" "runs ((w, \<lparr>bm_meta = m, bm_shouldRun = b\<rparr>) # ns) = (if b then Suc (runs ns) else runs ns)"
  by (simp_all add: runs_def)

lemma runs_release [simp]: "runs (map (\<lambda>w. (w, \<lparr>bm_meta = m, bm_shouldRun = False\<rparr>)) ws) = 0"
  by (simp add: runs_def)

lemma runs_first: "runs (map (\<lambda>i. (f i, \<lparr>bm_meta = m, bm_shouldRun = (i = 0)\<rparr>)) [0..<n]) = (if n = 0 then 0 else 1)"
proof (cases n)
  case (Suc k)
  have "filter (\<lambda>i. i = 0) [0..<Suc k] = [0]" by (induction k) auto
  then show ?thesis using Suc by (simp add: runs_def filter_map o_def del: upt_Suc)
qed simp

lemma startMerge_good:
  assumes "runtime_ok (ld_ctl s)" "startMergeIfDrained Q s = (ns, s')"
  shows "good_step Q s ns s'"
  using assms
  by (auto simp: startMergeIfDrained_def Let_def good_step_def runtime_ok_def open_epoch_def runs_first
      ingestionQueueDrained_def split: if_splits)

lemma good_step_quiet:
  assumes "runtime_ok (ld_ctl s')" "st_of s' = st_of s" shows "good_step Q s [] s'"
  using assms by (simp add: good_step_def open_epoch_def)

lemma good_step_trans_quiet:
  assumes "st_of s' = st_of s" "good_step Q s' ns s''" shows "good_step Q s ns s''"
  using assms by (simp add: good_step_def open_epoch_def)

section \<open>Every command is a good step\<close>

lemma upload1_good:
  "runtime_ok (ld_ctl s) \<Longrightarrow> upload1Command G a r s = (res, r', s') \<Longrightarrow> good_step Q s [] s'"
  by (rule good_step_quiet)
    (auto simp: upload1Command_def Let_def runtime_ok_def split: if_splits prod.splits)

lemma upload2_good:
  "runtime_ok (ld_ctl s) \<Longrightarrow> upload2Command a s = (res, s') \<Longrightarrow> good_step Q s [] s'"
  by (rule good_step_quiet)
    (auto simp: upload2Command_def runtime_ok_def split: if_splits option.splits)

lemma upload3_enqueue_good:
  assumes ok: "runtime_ok (ld_ctl s)" and u: "upload3_enqueue Q t a d s = (res, ns, s')"
  shows "good_step Q s ns s'"
proof -
  let ?d = "d\<lparr>aq_args3 := Some a\<rparr>"
  let ?s = "ctl_update (\<lambda>c. c\<lparr>accepted := gm_put (a3_Uuid a) ?d (accepted c)\<rparr>) s"
  have okS: "runtime_ok (ld_ctl ?s)" "st_of ?s = st_of s" using ok by (simp_all add: runtime_ok_def)
  show ?thesis
  proof (cases "completedUploadMessageFromSession ?s (epoch (ld_ctl ?s)) (a3_Uuid a) ?d")
    case None
    then show ?thesis using u okS by (auto simp: upload3_enqueue_def Let_def intro: good_step_quiet)
  next
    case (Some msg)
    obtain er q where e: "q_enqueue Q t msg (ld_queue ?s) = (er, q)" by fastforce
    show ?thesis
    proof (cases er)
      case (Inl err)
      then show ?thesis using u okS Some e by (auto simp: upload3_enqueue_def Let_def intro: good_step_quiet)
    next
      case (Inr i)
      let ?s2 = "ctl_update (\<lambda>c. c\<lparr>accepted := gm_del (a3_Uuid a) (accepted c)\<rparr>) (?s\<lparr>ld_queue := q\<rparr>)"
      have "startMergeIfDrained Q ?s2 = (ns, s')"
        using u Some e Inr by (auto simp: upload3_enqueue_def Let_def split: prod.splits)
      moreover have "runtime_ok (ld_ctl ?s2)" using ok by (simp add: runtime_ok_def)
      ultimately have "good_step Q ?s2 ns s'" by (rule startMerge_good [rotated])
      then show ?thesis by (rule good_step_trans_quiet [rotated]) simp
    qed
  qed
qed

lemma upload3_good:
  assumes ok: "runtime_ok (ld_ctl s)" and u: "upload3Command Q t a s = (res, ns, s')"
  shows "good_step Q s ns s'"
  using u ok upload3_enqueue_good [OF ok]
  by (auto simp: upload3Command_def intro: good_step_quiet split: option.splits if_splits)

lemma begin_good:
  assumes ok: "runtime_ok (ld_ctl s)" and b: "beginEpochMergeCommand Q w s = (ns, s')"
  shows "good_step Q s ns s'"
proof (cases "st_of s = EpochStateActive \<and> accepted (ld_ctl s) \<noteq> []")
  case True
  let ?s = "ctl_update (\<lambda>c. c\<lparr>epochTimer := None, epoch := (epoch c)\<lparr>ep_State := EpochStateClosing\<rparr>,
     mergeWaiters := mergeWaiters c @ [w]\<rparr>) s"
  have "startMergeIfDrained Q ?s = (ns, s')" using True b by (simp add: beginEpochMergeCommand_def Let_def)
  moreover have "runtime_ok (ld_ctl ?s)" using ok by (simp add: runtime_ok_def)
  ultimately have "good_step Q ?s ns s'" by (rule startMerge_good [rotated])
  then show ?thesis using True by (simp add: good_step_def open_epoch_def)
next
  case False
  then show ?thesis using b ok
    by (auto simp: beginEpochMergeCommand_def Let_def good_step_def runtime_ok_def open_epoch_def split: if_splits)
qed

lemma take_good:
  assumes ok: "runtime_ok (ld_ctl s)" and t: "takeAcceptedSessionCommand Q u s = (sess, ns, s')"
  shows "good_step Q s ns s'"
proof -
  let ?s = "ctl_update (\<lambda>c. c\<lparr>accepted := gm_del u (accepted c)\<rparr>) s"
  have "startMergeIfDrained Q ?s = (ns, s')"
    using t by (auto simp: takeAcceptedSessionCommand_def Let_def split: prod.splits)
  moreover have "runtime_ok (ld_ctl ?s)" using ok by (simp add: runtime_ok_def)
  ultimately have "good_step Q ?s ns s'" by (rule startMerge_good [rotated])
  then show ?thesis by (rule good_step_trans_quiet [rotated]) simp
qed

lemma abort_good:
  assumes ok: "runtime_ok (ld_ctl s)" and a: "abortEpochCommand e s = (res, ns, s')"
  shows "good_step Q s ns s'"
proof (cases "ep_ID (epoch (ld_ctl s)) \<noteq> e \<or> (st_of s \<noteq> EpochStateActive \<and> st_of s \<noteq> EpochStateClosing)")
  case True
  then have "ns = []" "s' = s" using a by (simp_all add: abortEpochCommand_def Let_def)
  then show ?thesis using ok by (simp add: good_step_quiet)
next
  case False
  then have ns: "ns = map (\<lambda>w. (w, \<lparr>bm_meta = epoch (ld_ctl s), bm_shouldRun = False\<rparr>)) (mergeWaiters (ld_ctl s))"
    and s': "s' = ctl_update (\<lambda>c. c\<lparr>epochTimer := None, mergeWaiters := [], epoch := no_epoch\<rparr>) s"
    using a by (auto simp: abortEpochCommand_def releaseMergeWaiters_def Let_def)
  have "runs ns = 0" unfolding ns by simp
  moreover have "st_of s \<noteq> EpochStateMerging" using False by auto
  ultimately show ?thesis using ok by (simp add: good_step_def runtime_ok_def open_epoch_def no_epoch_def s')
qed

lemma start_effect:
  assumes "runtime_ok (ld_ctl s)" "startEpochCommand t d e u s = (Inr rep, s')"
  shows "runtime_ok (ld_ctl s')" "st_of s' = EpochStateActive" "open_epoch s = 0"
    "st_of s \<noteq> EpochStateMerging"
  using assms by (auto simp: startEpochCommand_def Let_def runtime_ok_def open_epoch_def split: if_splits)

definition sys_ok :: "'q lsys \<Rightarrow> bool" where
  "sys_ok y \<longleftrightarrow> runtime_ok (ld_ctl (sy_leader y)) \<and> sy_running y \<le> 1 \<and>
     (sy_running y = 1 \<longrightarrow> st_of (sy_leader y) = EpochStateMerging) \<and>
     sy_merges y + open_epoch (sy_leader y) \<le> sy_started y"

lemma notified_ok: "sys_ok y \<Longrightarrow> good_step Q (sy_leader y) ns s \<Longrightarrow> sys_ok (notified ns s y)"
  by (auto simp: sys_ok_def notified_def good_step_def split: if_splits)

lemma sys_ok_quiet:
  "sys_ok y \<Longrightarrow> runtime_ok (ld_ctl s) \<Longrightarrow> st_of s = st_of (sy_leader y) \<Longrightarrow> sys_ok (y\<lparr>sy_leader := s\<rparr>)"
  by (simp add: sys_ok_def open_epoch_def)

lemma sys_ok_good: "sys_ok y \<Longrightarrow> good_step Q (sy_leader y) [] s \<Longrightarrow> sys_ok (y\<lparr>sy_leader := s\<rparr>)"
  by (auto simp: sys_ok_def good_step_def)

lemma lstep_ok:
  assumes step: "lstep G Q y y'" and ok: "sys_ok y"
  shows "sys_ok y'"
proof -
  have r: "runtime_ok (ld_ctl (sy_leader y))" using ok by (simp add: sys_ok_def)
  from step show ?thesis
  proof cases
    case (Start t d e u rep s)
    then show ?thesis using ok start_effect [OF r Start(2)]
      by (auto simp: sys_ok_def open_epoch_def)
  next
    case (Peer p err)
    then show ?thesis using ok r
      by (auto intro!: sys_ok_quiet simp: updatePeerConnectionStateCommand_def runtime_ok_def)
  next
    case (Up1 a1 r1 res1 r' s)
    then show ?thesis using sys_ok_good [OF ok upload1_good [OF r]] by simp
  next
    case (Up2 a2 res2 s)
    then show ?thesis using sys_ok_good [OF ok upload2_good [OF r]] by simp
  next
    case (Up3 t a3 res3 ns s)
    then show ?thesis using notified_ok [OF ok upload3_good [OF r]] by simp
  next
    case (Begin w ns s)
    then show ?thesis using notified_ok [OF ok begin_good [OF r]] by simp
  next
    case (Complete path err)
    then show ?thesis using ok
      by (auto simp: sys_ok_def completeEpochMergeCommand_def runtime_ok_def open_epoch_def split: option.splits)
  next
    case (Take uuid sess ns s)
    then show ?thesis using notified_ok [OF ok take_good [OF r]] by simp
  next
    case (Drained ns s)
    then show ?thesis using notified_ok [OF ok startMerge_good [OF r]]
      by (simp add: ingestionQueueDrainedCommand_def)
  next
    case Stop
    then show ?thesis using ok r by (auto intro!: sys_ok_quiet simp: stopEpochTimerCommand_def runtime_ok_def)
  next
    case (Abort e res4 ns s)
    then show ?thesis using notified_ok [OF ok abort_good [OF r]] by simp
  next
    case (Worker q)
    then show ?thesis using ok r by (auto intro!: sys_ok_quiet simp: runtime_ok_def)
  qed
qed

lemma lreach_ok: "lreach G Q y y' \<Longrightarrow> sys_ok y \<Longrightarrow> sys_ok y'"
  by (induction rule: lreach.induct) (auto intro: lstep_ok)

section \<open>A merge that failed\<close>

text \<open>Merging with no merge running: what a failed merge leaves behind.\<close>

abbreviation stuck :: "'q lsys \<Rightarrow> bool" where
  "stuck y \<equiv> st_of (sy_leader y) = EpochStateMerging \<and> sy_running y = 0"

lemma notified_stuck:
  "stuck y \<Longrightarrow> good_step Q (sy_leader y) ns s \<Longrightarrow> stuck (notified ns s y) \<and> sy_merges (notified ns s y) = sy_merges y"
  by (auto simp: notified_def good_step_def)

lemma lstep_stuck:
  assumes step: "lstep G Q y y'" and ok: "sys_ok y" and st: "stuck y"
  shows "stuck y' \<and> sy_started y' = sy_started y \<and> sy_merges y' = sy_merges y"
proof -
  have r: "runtime_ok (ld_ctl (sy_leader y))" using ok by (simp add: sys_ok_def)
  have started: "sy_started (notified ns s y) = sy_started y" for ns s by (simp add: notified_def)
  from step show ?thesis
  proof cases
    case (Start t d e u rep s)
    then show ?thesis using start_effect [OF r Start(2)] st by simp
  next
    case (Peer p err)
    then show ?thesis using st by (simp add: updatePeerConnectionStateCommand_def)
  next
    case (Up1 a1 r1 res1 r' s)
    then show ?thesis using upload1_good [OF r Up1(2)] st by (simp add: good_step_def)
  next
    case (Up2 a2 res2 s)
    then show ?thesis using upload2_good [OF r Up2(2)] st by (simp add: good_step_def)
  next
    case (Up3 t a3 res3 ns s)
    then show ?thesis using notified_stuck [OF st upload3_good [OF r Up3(2)]] started by simp
  next
    case (Begin w ns s)
    then show ?thesis using notified_stuck [OF st begin_good [OF r Begin(2)]] started by simp
  next
    case (Complete path err)
    then show ?thesis using st by simp
  next
    case (Take uuid sess ns s)
    then show ?thesis using notified_stuck [OF st take_good [OF r Take(2)]] started by simp
  next
    case (Drained ns s)
    then show ?thesis
      using notified_stuck [OF st startMerge_good [OF r Drained(2) [unfolded ingestionQueueDrainedCommand_def]]] started
      by simp
  next
    case Stop
    then show ?thesis using st by (simp add: stopEpochTimerCommand_def)
  next
    case (Abort e res4 ns s)
    then show ?thesis using notified_stuck [OF st abort_good [OF r Abort(2)]] started by simp
  next
    case (Worker q)
    then show ?thesis using st by simp
  qed
qed

lemma lreach_stuck:
  "lreach G Q y y' \<Longrightarrow> sys_ok y \<Longrightarrow> stuck y \<Longrightarrow>
     stuck y' \<and> sy_started y' = sy_started y \<and> sy_merges y' = sy_merges y"
proof (induction rule: lreach.induct)
  case (Step y' y'')
  then show ?case using lstep_stuck [OF Step(2)] lreach_ok [OF Step(1)] by simp
qed simp

section \<open>When a merge starts\<close>

lemma notified_merge:
  assumes "good_step Q (sy_leader y) ns s" "sy_merges (notified ns s y) \<noteq> sy_merges y"
  shows "st_of s = EpochStateMerging \<and> accepted (ld_ctl s) = [] \<and>
    (st_of (sy_leader y) = EpochStateClosing \<longrightarrow> ingestionQueueDrained Q s)"
  using assms by (auto simp: good_step_def notified_def split: if_splits)

lemma notified_leader [simp]: "sy_leader (notified ns s y) = s"
  by (simp add: notified_def)

lemma lstep_merge:
  assumes step: "lstep G Q y y'" and ok: "sys_ok y" and m: "sy_merges y' \<noteq> sy_merges y"
  shows "st_of (sy_leader y') = EpochStateMerging \<and> accepted (ld_ctl (sy_leader y')) = [] \<and>
    (st_of (sy_leader y) = EpochStateClosing \<longrightarrow> ingestionQueueDrained Q (sy_leader y'))"
proof -
  have r: "runtime_ok (ld_ctl (sy_leader y))" using ok by (simp add: sys_ok_def)
  from step show ?thesis
  proof cases
    case (Up3 t a3 res3 ns s)
    then show ?thesis using notified_merge [OF upload3_good [OF r Up3(2)]] m by simp
  next
    case (Begin w ns s)
    then show ?thesis using notified_merge [OF begin_good [OF r Begin(2)]] m by simp
  next
    case (Take uuid sess ns s)
    then show ?thesis using notified_merge [OF take_good [OF r Take(2)]] m by simp
  next
    case (Drained ns s)
    then show ?thesis
      using notified_merge [OF startMerge_good [OF r Drained(2) [unfolded ingestionQueueDrainedCommand_def]]] m by simp
  next
    case (Abort e res4 ns s)
    then show ?thesis using notified_merge [OF abort_good [OF r Abort(2)]] m by simp
  qed (use m in simp_all)
qed

section \<open>Properties\<close>

definition initial_sys :: "'q leader \<Rightarrow> 'q lsys" where
  "initial_sys s = \<lparr>sy_leader = s\<lparr>ld_ctl := initial_runtime\<rparr>, sy_running = 0, sy_started = 0, sy_merges = 0\<rparr>"

lemma initial_sys_ok: "sys_ok (initial_sys s)"
  by (simp add: sys_ok_def initial_sys_def initial_runtime_def runtime_ok_def no_epoch_def open_epoch_def)

definition sample_leader :: "memoryCompletedUploadQueue leader" where
  "sample_leader = \<lparr>ld_ServerIdx = 0, ld_ShardID = 0, ld_replicaID = ''active'', ld_standbyFanout = False,
     ld_globalRowStart = 0, ld_rpcClients = [True, True], ld_queue = newMemoryCompletedUploadQueue,
     ld_ctl = initial_runtime\<rparr>"

text \<open>An epoch of the sample leader that is started and, without uploads, merged.\<close>

lemma sample_run:
  obtains y y' where "lreach counter_rng mem_queue_ops (initial_sys sample_leader) y"
    "lstep counter_rng mem_queue_ops y y'" "sy_merges y' \<noteq> sy_merges y" "sy_merges y' = 1" "sy_running y' = 1"
proof -
  obtain rep s where s: "startEpochCommand 0 60 1 100 (sy_leader (initial_sys sample_leader)) = (Inr rep, s)"
    "st_of s = EpochStateActive" "accepted (ld_ctl s) = []"
    by (simp add: startEpochCommand_def initial_sys_def initial_runtime_def no_epoch_def Let_def)
  let ?y1 = "(initial_sys sample_leader)\<lparr>sy_leader := s, sy_started := Suc (sy_started (initial_sys sample_leader))\<rparr>"
  obtain ns s' where b: "beginEpochMergeCommand mem_queue_ops 7 (sy_leader ?y1) = (ns, s')" "runs ns = 1"
    using s(2,3) by (simp add: beginEpochMergeCommand_def Let_def)
  have r: "lreach counter_rng mem_queue_ops (initial_sys sample_leader) ?y1"
    by (rule lreach.Step [OF lreach.Refl lstep.Start [OF s(1)]])
  show ?thesis
    by (rule that [OF r lstep.Begin [OF b(1)]]) (simp_all add: notified_def initial_sys_def b(2))
qed

text \<open>C5: Every started epoch is merged at most once. From the initial state of the control loop and
  through any sequence of commands, whatever the queue does meanwhile, the number of merges that
  were told to run never exceeds the number of epochs that were started, at most one merge runs at
  a time, and while it runs the epoch is in \<^verbatim>\<open>merging\<close>.\<close>

theorem epoch_merged_at_most_once:
  assumes "lreach G Q (initial_sys s) y"
  shows "sy_merges y \<le> sy_started y \<and> sy_running y \<le> 1 \<and>
     (sy_running y = 1 \<longrightarrow> ep_State (epoch (ld_ctl (sy_leader y))) = EpochStateMerging)"
  using lreach_ok [OF assms initial_sys_ok] by (auto simp: sys_ok_def)

theorem epoch_merged_at_most_once_witness:
  "\<exists>y. lreach counter_rng mem_queue_ops (initial_sys sample_leader) y \<and> sy_merges y = 1 \<and>
     sy_merges y \<le> sy_started y \<and> sy_running y \<le> 1 \<and>
     (sy_running y = 1 \<longrightarrow> ep_State (epoch (ld_ctl (sy_leader y))) = EpochStateMerging)"
proof (rule sample_run)
  fix y y'
  assume a: "lreach counter_rng mem_queue_ops (initial_sys sample_leader) y"
    "lstep counter_rng mem_queue_ops y y'" "sy_merges y' = 1"
  from lreach.Step [OF a(1,2)] have r: "lreach counter_rng mem_queue_ops (initial_sys sample_leader) y'" .
  from epoch_merged_at_most_once [OF r] r a(3) show ?thesis by blast
qed

text \<open>C6: A merge starts only when no upload session of the epoch is open; and an epoch that was
  closing starts to merge only when, in addition, the ingestion queue is drained.\<close>

theorem merge_starts_when_drained:
  assumes "lreach G Q (initial_sys s) y" "lstep G Q y y'" "sy_merges y' \<noteq> sy_merges y"
  shows "ep_State (epoch (ld_ctl (sy_leader y'))) = EpochStateMerging \<and> accepted (ld_ctl (sy_leader y')) = [] \<and>
     (ep_State (epoch (ld_ctl (sy_leader y))) = EpochStateClosing \<longrightarrow> ingestionQueueDrained Q (sy_leader y'))"
  using lstep_merge [OF assms(2) lreach_ok [OF assms(1) initial_sys_ok] assms(3)] .

theorem merge_starts_when_drained_witness:
  "\<exists>y y'. lreach counter_rng mem_queue_ops (initial_sys sample_leader) y \<and>
     lstep counter_rng mem_queue_ops y y' \<and> sy_merges y' \<noteq> sy_merges y \<and>
     ep_State (epoch (ld_ctl (sy_leader y'))) = EpochStateMerging \<and> accepted (ld_ctl (sy_leader y')) = [] \<and>
     (ep_State (epoch (ld_ctl (sy_leader y))) = EpochStateClosing \<longrightarrow> ingestionQueueDrained mem_queue_ops (sy_leader y'))"
proof (rule sample_run)
  fix y y'
  assume a: "lreach counter_rng mem_queue_ops (initial_sys sample_leader) y"
    "lstep counter_rng mem_queue_ops y y'" "sy_merges y' \<noteq> sy_merges y"
  from merge_starts_when_drained [OF a] a show ?thesis by blast
qed

text \<open>A failed merge blocks the leader for good. Once a merge has reported an error, the epoch
  stays in \<^verbatim>\<open>merging\<close> through every further sequence of commands: no epoch starts again, none is
  merged again, and the failed one cannot be aborted.\<close>

theorem failed_merge_blocks_the_leader:
  assumes "lreach G Q (initial_sys s) y" "sy_running y = 1"
    and "lreach G Q (y\<lparr>sy_leader := completeEpochMergeCommand path (Some err) (sy_leader y), sy_running := 0\<rparr>) y'"
  shows "ep_State (epoch (ld_ctl (sy_leader y'))) = EpochStateMerging \<and> sy_started y' = sy_started y \<and>
     sy_merges y' = sy_merges y \<and> (\<exists>e. fst (abortEpochCommand i (sy_leader y')) = Inl e)"
proof -
  let ?y = "y\<lparr>sy_leader := completeEpochMergeCommand path (Some err) (sy_leader y), sy_running := 0\<rparr>"
  have ok: "sys_ok y" by (rule lreach_ok [OF assms(1) initial_sys_ok])
  then have m: "st_of (sy_leader y) = EpochStateMerging" using assms(2) by (simp add: sys_ok_def)
  have "sys_ok ?y" using lstep_ok [OF lstep.Complete ok, of path "Some err"] assms(2) by simp
  moreover have "stuck ?y" using m by (simp add: completeEpochMergeCommand_def)
  ultimately show ?thesis using lreach_stuck [OF assms(3)] by (simp add: abortEpochCommand_def)
qed

theorem failed_merge_blocks_the_leader_witness:
  "\<exists>y. lreach counter_rng mem_queue_ops (initial_sys sample_leader) y \<and> sy_running y = 1 \<and>
     (let y' = y\<lparr>sy_leader := completeEpochMergeCommand '''' (Some (ErrorString ''merge fanout failed'')) (sy_leader y),
                 sy_running := 0\<rparr>
      in ep_State (epoch (ld_ctl (sy_leader y'))) = EpochStateMerging \<and> sy_started y' = sy_started y \<and>
         sy_merges y' = sy_merges y \<and> (\<exists>e. fst (abortEpochCommand 1 (sy_leader y')) = Inl e))"
proof (rule sample_run)
  fix y0 y
  assume a: "lreach counter_rng mem_queue_ops (initial_sys sample_leader) y0"
    "lstep counter_rng mem_queue_ops y0 y" "sy_running y = 1"
  have r: "lreach counter_rng mem_queue_ops (initial_sys sample_leader) y" by (rule lreach.Step [OF a(1,2)])
  from failed_merge_blocks_the_leader [OF r a(3) lreach.Refl, of "[]" "ErrorString ''merge fanout failed''" 1] r a(3)
  show ?thesis unfolding Let_def by blast
qed

text \<open>The effect of \<^verbatim>\<open>Upload1\<close> when it succeeds.\<close>

lemma upload1_ok:
  assumes "upload1Command G a r s = (Inr rep, r', s')"
  obtains ch where "st_of s = EpochStateActive" "0 \<le> RouteRow a" "RouteRow a < int TABLE_HEIGHT"
    "s' = ctl_update (\<lambda>c. c\<lparr>accepted := gm_put (r1_Uuid rep) \<lparr>aq_hashKey = r1_HashKey rep, aq_challenge = ch,
        aq_args1 = Some a, aq_args2 = None, aq_args3 = None\<rparr> (accepted c)\<rparr>) s"
    "UseAssignedSession a \<longrightarrow> r1_Uuid rep = AssignedUUID a \<and> r1_HashKey rep = AssignedHashKey a \<and> 0 < AssignedUUID a"
  using assms by (auto simp: upload1Command_def Let_def split: if_splits prod.splits)

lemma upload1_err: "upload1Command G a r s = (Inl e, r', s') \<Longrightarrow> s' = s"
  by (auto simp: upload1Command_def Let_def split: if_splits prod.splits)

lemma upload2_ok:
  assumes "gm_get (accepted (ld_ctl s)) (a2_Uuid a) = Some d" "aq_hashKey d = a2_HashKey a"
  shows "upload2Command a s = (Inr \<lparr>Challenge = aq_challenge d\<rparr>,
     ctl_update (\<lambda>c. c\<lparr>accepted := gm_put (a2_Uuid a) (d\<lparr>aq_args2 := Some a\<rparr>) (accepted c)\<rparr>) s)"
  using assms by (simp add: upload2Command_def)

text \<open>The message that a complete session becomes.\<close>

definition session_message ::
  "'q leader \<Rightarrow> int \<Rightarrow> byte list \<Rightarrow> byte list \<Rightarrow> UploadArgs1 \<Rightarrow> UploadArgs2 \<Rightarrow> UploadArgs3 \<Rightarrow> CompletedUploadMessage" where
  "session_message s uuid hashKey challenge x1 x2 x3 =
     \<lparr>m_ID = '''', m_ReplicaID = '''', m_EpochID = ep_ID (epoch (ld_ctl s)), m_ShardID = ld_ShardID s,
      m_Uuid = uuid, m_HashKey = hashKey, m_Challenge = challenge,
      m_GlobalRow = ld_globalRowStart s + RouteRow x1, m_LocalRow = RouteRow x1,
      m_EnqueuedAt = zero_time, m_Attempts = 0, m_Args1 = x1, m_Args2 = x2, m_Args3 = x3\<rparr>"

lemma startMerge_keeps:
  "accepted (ld_ctl (snd (startMergeIfDrained Q z))) = accepted (ld_ctl z)"
  "ld_queue (snd (startMergeIfDrained Q z)) = ld_queue z"
  by (simp_all add: startMergeIfDrained_def Let_def)

lemma upload3_complete_session:
  assumes g: "gm_get (accepted (ld_ctl s)) (a3_Uuid a) = Some d" "aq_hashKey d = a3_HashKey a"
    "aq_args1 d = Some x1" "aq_args2 d = Some x2"
    and e: "q_enqueue Q t (session_message s (a3_Uuid a) (aq_hashKey d) (aq_challenge d) x1 x2 a) (ld_queue s) = (er, q)"
  shows "\<exists>ns s3. upload3Command Q t a s = (map_sum id (\<lambda>_. ()) er, ns, s3) \<and> ld_queue s3 = q \<and>
     (gm_get (accepted (ld_ctl s3)) (a3_Uuid a) = None \<longleftrightarrow> \<not> isl er)"
proof -
  let ?d = "d\<lparr>aq_args3 := Some a\<rparr>"
  let ?s = "ctl_update (\<lambda>c. c\<lparr>accepted := gm_put (a3_Uuid a) ?d (accepted c)\<rparr>) s"
  have m: "completedUploadMessageFromSession ?s (epoch (ld_ctl ?s)) (a3_Uuid a) ?d
      = Some (session_message s (a3_Uuid a) (aq_hashKey d) (aq_challenge d) x1 x2 a)"
    using g by (simp add: completedUploadMessageFromSession_def session_message_def)
  have u: "upload3Command Q t a s = upload3_enqueue Q t a d s"
    using g by (simp add: upload3Command_def)
  show ?thesis
  proof (cases er)
    case (Inl err)
    then show ?thesis unfolding u using m e by (simp add: upload3_enqueue_def Let_def)
  next
    case (Inr i)
    let ?z = "ctl_update (\<lambda>c. c\<lparr>accepted := gm_del (a3_Uuid a) (accepted c)\<rparr>) (?s\<lparr>ld_queue := q\<rparr>)"
    obtain ns s3 where z: "startMergeIfDrained Q ?z = (ns, s3)" by fastforce
    have "upload3_enqueue Q t a d s = (Inr (), ns, s3)" using m e Inr z by (simp add: upload3_enqueue_def Let_def)
    moreover have "accepted (ld_ctl s3) = accepted (ld_ctl ?z)" "ld_queue s3 = ld_queue ?z"
      using startMerge_keeps [of Q ?z] z by simp_all
    ultimately show ?thesis unfolding u using Inr by simp
  qed
qed

text \<open>The three upload calls of one session. If the leader answered \<^verbatim>\<open>Upload1\<close> with a uuid and a hash
  key, then \<^verbatim>\<open>Upload2\<close> with that uuid and key succeeds, and \<^verbatim>\<open>Upload3\<close> enqueues exactly one message, with
  the current epoch and shard, the session's hash key and challenge, the routed row in local and
  global numbering, and the three arguments unchanged; when the queue accepts it the session is
  closed, and when the queue refuses it the session stays open and the error is returned.\<close>

theorem upload_session_flow:
  assumes "upload1Command G x1 r s = (Inr rep, r', s1)"
    and "a2_Uuid x2 = r1_Uuid rep" "a2_HashKey x2 = r1_HashKey rep"
    and "a3_Uuid x3 = r1_Uuid rep" "a3_HashKey x3 = r1_HashKey rep"
  shows "\<exists>ch s2 ns s3. upload2Command x2 s1 = (Inr \<lparr>Challenge = ch\<rparr>, s2) \<and>
     (let (er, q) = q_enqueue Q t (session_message s (r1_Uuid rep) (r1_HashKey rep) ch x1 x2 x3) (ld_queue s)
      in upload3Command Q t x3 s2 = (map_sum id (\<lambda>_. ()) er, ns, s3) \<and> ld_queue s3 = q \<and>
         (gm_get (accepted (ld_ctl s3)) (r1_Uuid rep) = None \<longleftrightarrow> \<not> isl er))"
proof (rule upload1_ok [OF assms(1)])
  fix ch
  let ?d = "\<lparr>aq_hashKey = r1_HashKey rep, aq_challenge = ch, aq_args1 = Some x1, aq_args2 = None, aq_args3 = None\<rparr>"
  assume s1: "s1 = ctl_update (\<lambda>c. c\<lparr>accepted := gm_put (r1_Uuid rep) ?d (accepted c)\<rparr>) s"
  define s2 where "s2 = ctl_update (\<lambda>c. c\<lparr>accepted := gm_put (r1_Uuid rep) (?d\<lparr>aq_args2 := Some x2\<rparr>) (accepted c)\<rparr>) s1"
  have u2: "upload2Command x2 s1 = (Inr \<lparr>Challenge = ch\<rparr>, s2)"
    using upload2_ok [of s1 x2 ?d] assms(2,3) by (simp add: s1 s2_def)
  have same: "session_message s2 = session_message s" "ld_queue s2 = ld_queue s"
    by (simp_all add: session_message_def s2_def s1 fun_eq_iff)
  have g: "gm_get (accepted (ld_ctl s2)) (a3_Uuid x3) = Some (?d\<lparr>aq_args2 := Some x2\<rparr>)"
    using assms(4) by (simp add: s2_def)
  obtain er q where e: "q_enqueue Q t (session_message s (r1_Uuid rep) (r1_HashKey rep) ch x1 x2 x3) (ld_queue s) = (er, q)"
    by fastforce
  then have "q_enqueue Q t (session_message s2 (a3_Uuid x3) (aq_hashKey (?d\<lparr>aq_args2 := Some x2\<rparr>))
      (aq_challenge (?d\<lparr>aq_args2 := Some x2\<rparr>)) x1 x2 x3) (ld_queue s2) = (er, q)"
    using assms(4) same by simp
  from upload3_complete_session [OF g _ _ _ this] obtain ns s3 where
    "upload3Command Q t x3 s2 = (map_sum id (\<lambda>_. ()) er, ns, s3)" "ld_queue s3 = q"
    "gm_get (accepted (ld_ctl s3)) (r1_Uuid rep) = None \<longleftrightarrow> \<not> isl er"
    using assms(4,5) by auto
  with u2 e show ?thesis by (intro exI [of _ ch] exI [of _ s2] exI [of _ ns] exI [of _ s3]) simp
qed

definition active_leader :: "memoryCompletedUploadQueue leader" where
  "active_leader = sample_leader\<lparr>ld_ctl := initial_runtime\<lparr>epoch := no_epoch\<lparr>ep_ID := 1, ep_State := EpochStateActive\<rparr>\<rparr>\<rparr>"

lemma active_upload1:
  obtains rep r' s1 where "upload1Command counter_rng (sample_args1\<lparr>RouteRow := 5\<rparr>) 1 active_leader = (Inr rep, r', s1)"
    "r1_Uuid rep = 1" "r1_HashKey rep = replicate 32 2"
proof -
  have "fst (upload1Command counter_rng (sample_args1\<lparr>RouteRow := 5\<rparr>) 1 active_leader)
      = Inr \<lparr>r1_Uuid = 1, r1_HashKey = replicate 32 2\<rparr>"
    by (simp add: upload1Command_def active_leader_def initial_runtime_def sample_args1_def TABLE_HEIGHT_eq
        counter_rng_def RandBytes_def max_int64_def Let_def)
  then obtain r' s1 where "upload1Command counter_rng (sample_args1\<lparr>RouteRow := 5\<rparr>) 1 active_leader
      = (Inr \<lparr>r1_Uuid = 1, r1_HashKey = replicate 32 2\<rparr>, r', s1)" by (metis prod.collapse)
  then show ?thesis by (rule that) simp_all
qed

theorem upload_session_flow_witness:
  "\<exists>rep r' s1 ch s2 ns s3.
     upload1Command counter_rng (sample_args1\<lparr>RouteRow := 5\<rparr>) 1 active_leader = (Inr rep, r', s1) \<and>
     upload2Command \<lparr>a2_Uuid = 1, a2_HashKey = replicate 32 2, a2_Query = []\<rparr> s1 = (Inr \<lparr>Challenge = ch\<rparr>, s2) \<and>
     (let (er, q) = q_enqueue mem_queue_ops 3 (session_message active_leader (r1_Uuid rep) (r1_HashKey rep) ch
            (sample_args1\<lparr>RouteRow := 5\<rparr>) \<lparr>a2_Uuid = 1, a2_HashKey = replicate 32 2, a2_Query = []\<rparr>
            \<lparr>a3_Uuid = 1, a3_HashKey = replicate 32 2, a3_Query = []\<rparr>) (ld_queue active_leader)
      in upload3Command mem_queue_ops 3 \<lparr>a3_Uuid = 1, a3_HashKey = replicate 32 2, a3_Query = []\<rparr> s2
           = (map_sum id (\<lambda>_. ()) er, ns, s3) \<and> ld_queue s3 = q \<and>
         (gm_get (accepted (ld_ctl s3)) (r1_Uuid rep) = None \<longleftrightarrow> \<not> isl er))"
proof (rule active_upload1)
  fix rep r' s1
  assume a: "upload1Command counter_rng (sample_args1\<lparr>RouteRow := 5\<rparr>) 1 active_leader = (Inr rep, r', s1)"
    "r1_Uuid rep = 1" "r1_HashKey rep = replicate 32 2"
  from upload_session_flow [OF a(1), of "\<lparr>a2_Uuid = 1, a2_HashKey = replicate 32 2, a2_Query = []\<rparr>"
      "\<lparr>a3_Uuid = 1, a3_HashKey = replicate 32 2, a3_Query = []\<rparr>" mem_queue_ops 3] a(2,3)
  show ?thesis by (intro exI [of _ rep] exI [of _ r'] exI [of _ s1]) (simp only: a UploadArgs2.simps UploadArgs3.simps simp_thms)
qed

text \<open>\<^verbatim>\<open>Upload1\<close> admits an upload only while the epoch is active and only for a row of the local
  table; it then stores the session under the returned uuid (the coordinator's, if one was assigned)
  and touches nothing else. A refused call changes nothing.\<close>

theorem upload1_admission:
  "case upload1Command G args r s of
     (Inl _, _, s') \<Rightarrow> s' = s
   | (Inr rep, _, s') \<Rightarrow>
       ep_State (epoch (ld_ctl s)) = EpochStateActive \<and> 0 \<le> RouteRow args \<and> RouteRow args < int TABLE_HEIGHT \<and>
       (UseAssignedSession args \<longrightarrow> r1_Uuid rep = AssignedUUID args \<and> 0 < AssignedUUID args) \<and>
       (\<exists>ch. s' = s\<lparr>ld_ctl := (ld_ctl s)\<lparr>accepted := gm_put (r1_Uuid rep)
          \<lparr>aq_hashKey = r1_HashKey rep, aq_challenge = ch, aq_args1 = Some args, aq_args2 = None, aq_args3 = None\<rparr>
          (accepted (ld_ctl s))\<rparr>\<rparr>)"
proof (cases "upload1Command G args r s")
  case (fields res r' s')
  then show ?thesis
  proof (cases res)
    case (Inl e)
    then show ?thesis using fields upload1_err [of G args r s] by simp
  next
    case (Inr rep)
    show ?thesis
      by (rule upload1_ok [of G args r s rep r' s']) (use fields Inr in auto)
  qed
qed

theorem upload1_admission_witness:
  "\<exists>rep r' s1. upload1Command counter_rng (sample_args1\<lparr>RouteRow := 5\<rparr>) 1 active_leader = (Inr rep, r', s1) \<and>
     ep_State (epoch (ld_ctl active_leader)) = EpochStateActive"
proof (rule active_upload1)
  fix rep r' s1
  assume a: "upload1Command counter_rng (sample_args1\<lparr>RouteRow := 5\<rparr>) 1 active_leader = (Inr rep, r', s1)"
  from upload1_admission [where G = counter_rng and args = "sample_args1\<lparr>RouteRow := 5\<rparr>" and r = 1 and s = active_leader] a
  show ?thesis by (intro exI) (simp add: a)
qed

text \<open>A session of an aborted epoch lives on. \<^verbatim>\<open>AbortEpoch\<close> does not close the open upload sessions;
  after the next epoch has started, \<^verbatim>\<open>Upload3\<close> of such a session enqueues the upload under the id of
  the new epoch.\<close>

theorem aborted_session_joins_next_epoch:
  assumes "gm_get (accepted (ld_ctl s)) uuid = Some d" "aq_args1 d = Some x1" "aq_args2 d = Some x2"
    and "abortEpochCommand e s = (Inr (), ns, s1)"
    and "startEpochCommand t dur e' u s1 = (Inr rep, s2)"
    and "a3_Uuid x3 = uuid" "a3_HashKey x3 = aq_hashKey d"
    and "q_enqueue Q t' (session_message s2 uuid (aq_hashKey d) (aq_challenge d) x1 x2 x3) (ld_queue s) = (Inr i, q)"
  shows "ep_ID (epoch (ld_ctl s2)) = se_EpochID rep \<and>
     m_EpochID (session_message s2 uuid (aq_hashKey d) (aq_challenge d) x1 x2 x3) = se_EpochID rep \<and>
     (\<exists>ns s3. upload3Command Q t' x3 s2 = (Inr (), ns, s3) \<and> ld_queue s3 = q)"
proof -
  have s1: "accepted (ld_ctl s1) = accepted (ld_ctl s)" "ld_queue s1 = ld_queue s"
    using assms(4) by (auto simp: abortEpochCommand_def releaseMergeWaiters_def Let_def split: if_splits)
  have s2: "accepted (ld_ctl s2) = accepted (ld_ctl s1)" "ld_queue s2 = ld_queue s1"
    "ep_ID (epoch (ld_ctl s2)) = se_EpochID rep"
    using assms(5) by (auto simp: startEpochCommand_def Let_def start_epoch_reply_def split: if_splits)
  have g: "gm_get (accepted (ld_ctl s2)) (a3_Uuid x3) = Some d" using assms(1,6) s1 s2 by simp
  show ?thesis
    using upload3_complete_session [OF g _ assms(2,3), of Q t' "Inr i" q] assms(6,7,8) s1 s2
    by (auto simp: session_message_def)
qed

definition open_session :: AcceptQueryTuple where
  "open_session = \<lparr>aq_hashKey = [], aq_challenge = [], aq_args1 = Some sample_args1,
     aq_args2 = Some \<lparr>a2_Uuid = 9, a2_HashKey = [], a2_Query = []\<rparr>, aq_args3 = None\<rparr>"

definition aborting_leader :: "memoryCompletedUploadQueue leader" where
  "aborting_leader = active_leader\<lparr>ld_ctl := (ld_ctl active_leader)\<lparr>accepted := [(9, open_session)]\<rparr>\<rparr>"

theorem aborted_session_joins_next_epoch_witness:
  "\<exists>ns s1 rep s2 q. abortEpochCommand 1 aborting_leader = (Inr (), ns, s1) \<and>
     startEpochCommand 50 60 2 100 s1 = (Inr rep, s2) \<and> se_EpochID rep = 2 \<and>
     ep_ID (epoch (ld_ctl s2)) = se_EpochID rep \<and>
     (\<exists>ns s3. upload3Command mem_queue_ops 5 \<lparr>a3_Uuid = 9, a3_HashKey = [], a3_Query = []\<rparr> s2 = (Inr (), ns, s3) \<and>
        ld_queue s3 = q)"
proof -
  obtain ns s1 where a: "abortEpochCommand 1 aborting_leader = (Inr (), ns, s1)" "st_of s1 = EpochStateNoActive"
    "ld_ShardID s1 = 0"
    by (simp add: abortEpochCommand_def aborting_leader_def active_leader_def sample_leader_def Let_def
        releaseMergeWaiters_def no_epoch_def)
  obtain rep s2 where b: "startEpochCommand 50 60 2 100 s1 = (Inr rep, s2)" "se_EpochID rep = 2"
    "ep_ID (epoch (ld_ctl s2)) = 2"
    using a(2) by (simp add: startEpochCommand_def Let_def start_epoch_reply_def)
  let ?m = "session_message s2 9 [] [] sample_args1 \<lparr>a2_Uuid = 9, a2_HashKey = [], a2_Query = []\<rparr>
     \<lparr>a3_Uuid = 9, a3_HashKey = [], a3_Query = []\<rparr>"
  obtain i q where e: "q_enqueue mem_queue_ops 5 ?m (ld_queue aborting_leader) = (Inr i, q)"
    using Enqueue_spec [OF new_queue_ok, of ?m 5] b(3)
    by (simp add: mem_queue_ops_def session_message_def aborting_leader_def active_leader_def sample_leader_def)
  have g: "gm_get (accepted (ld_ctl aborting_leader)) 9 = Some open_session"
    by (simp add: aborting_leader_def)
  show ?thesis
    using aborted_session_joins_next_epoch [OF g _ _ a(1) b(1), of sample_args1
        "\<lparr>a2_Uuid = 9, a2_HashKey = [], a2_Query = []\<rparr>" "\<lparr>a3_Uuid = 9, a3_HashKey = [], a3_Query = []\<rparr>"
        mem_queue_ops 5 i q] e a(1) b
    by (simp add: open_session_def) blast
qed

text \<open>An epoch without open sessions merges although uploads are still queued: when its timer
  fires, the leader moves straight to \<^verbatim>\<open>merging\<close>, whatever the depth of the ingestion queue and the
  number of uploads in flight.\<close>

theorem idle_epoch_merges_undrained:
  assumes "ep_State (epoch (ld_ctl s)) = EpochStateActive" "accepted (ld_ctl s) = []"
    and "\<not> ingestionQueueDrained Q s"
  shows "\<exists>meta s'. beginEpochMergeCommand Q w s = ([(w, \<lparr>bm_meta = meta, bm_shouldRun = True\<rparr>)], s') \<and>
     ep_State (epoch (ld_ctl s')) = EpochStateMerging \<and> \<not> ingestionQueueDrained Q s'"
  using assms by (simp add: beginEpochMergeCommand_def Let_def ingestionQueueDrained_def)

theorem idle_epoch_merges_undrained_witness:
  "\<exists>meta s'. beginEpochMergeCommand mem_queue_ops 1
       (active_leader\<lparr>ld_queue := newMemoryCompletedUploadQueue\<lparr>available := [''completed-upload-1'']\<rparr>\<rparr>)
       = ([(1, \<lparr>bm_meta = meta, bm_shouldRun = True\<rparr>)], s') \<and>
     ep_State (epoch (ld_ctl s')) = EpochStateMerging \<and> \<not> ingestionQueueDrained mem_queue_ops s'"
  by (rule idle_epoch_merges_undrained)
    (simp_all add: active_leader_def initial_runtime_def ingestionQueueDrained_def mem_queue_ops_def Stats_def)

text \<open>Epoch times. For a duration of at most 9223372036 seconds the end of a started epoch is that
  many seconds after its start, and the timer is set to the same duration; the start is the
  requested Unix time if one was given.\<close>

theorem start_epoch_times:
  assumes "startEpochCommand clock durationSeconds epochID startUnix s = (Inr rep, s')"
    and "durationSeconds \<le> 9223372036"
  shows "se_EndUnix rep = se_StartUnix rep + durationSeconds \<and> se_DurationSecs rep = durationSeconds \<and>
     epochTimer (ld_ctl s') = Some (durationSeconds * second) \<and>
     (0 < startUnix \<longrightarrow> se_StartUnix rep = startUnix) \<and> (0 < epochID \<longrightarrow> se_EpochID rep = epochID) \<and>
     se_State rep = ''active''"
proof -
  have pos: "0 < durationSeconds" using assms(1) by (auto simp: startEpochCommand_def Let_def split: if_splits)
  have "wrap64 (durationSeconds * second) = durationSeconds * second"
    using pos assms(2) by (intro wrap64_small) (auto simp: second_def max_int64_def)
  then show ?thesis using assms(1)
    by (auto simp: startEpochCommand_def Let_def start_epoch_reply_def Unix_def second_def time_Unix_def
        split: if_splits)
qed

theorem start_epoch_times_witness:
  "\<exists>rep s'. startEpochCommand 0 60 4 1000 sample_leader = (Inr rep, s') \<and>
     se_EndUnix rep = se_StartUnix rep + 60 \<and> se_DurationSecs rep = 60 \<and>
     epochTimer (ld_ctl s') = Some (60 * second) \<and>
     (0 < (1000::int) \<longrightarrow> se_StartUnix rep = 1000) \<and> (0 < (4::int) \<longrightarrow> se_EpochID rep = 4) \<and> se_State rep = ''active''"
proof -
  obtain rep s' where r: "startEpochCommand 0 60 4 1000 sample_leader = (Inr rep, s')"
    by (simp add: startEpochCommand_def sample_leader_def initial_runtime_def no_epoch_def Let_def)
  show ?thesis using r start_epoch_times [OF r] by simp
qed

text \<open>A longer duration overflows: an epoch of 9223372037 seconds is accepted, but its end lies
  before its start and its timer is set to a negative duration, so it fires at once.\<close>

theorem start_epoch_duration_overflow:
  "\<exists>rep s' d. startEpochCommand clock 9223372037 1 0 (s\<lparr>ld_ctl := initial_runtime\<rparr>) = (Inr rep, s') \<and>
     epochTimer (ld_ctl s') = Some d \<and> d < 0 \<and> ep_EndTime (epoch (ld_ctl s')) < ep_StartTime (epoch (ld_ctl s'))"
  by (simp add: startEpochCommand_def initial_runtime_def no_epoch_def Let_def wrap64_def second_def)

end
