(* ===== verification/Shard_Topology.thy ===== *)
theory Shard_Topology
  imports Leader_Control "HOL-Library.Product_Lexorder"
begin

text \<open>
  The shard map (\<^verbatim>\<open>src/coordinator/shard_config.go\<close>, \<^verbatim>\<open>validateShardMap\<close> of
  \<^verbatim>\<open>src/coordinator/coordinator.go\<close>, \<^verbatim>\<open>src/controlstore/shard_config.go\<close> and the types of
  \<^verbatim>\<open>src/controlstore/types.go\<close>): which shard owns which global rows.

  A Go pointer to a pair is an option: the code never writes through it. \<^verbatim>\<open>sort.Slice\<close> is the stable
  sort; \<open>sort_shards_unique\<close> shows that every sort gives the same list when the identifiers differ,
  and both validators refuse maps in which they do not.

  Shown here: a map is accepted exactly when its shards tile the rows \<open>[0, n * TABLE_HEIGHT)\<close> without
  gap or overlap, whatever order they are listed in; every global row of an accepted map is routed
  to the one shard that owns it, at a local row of that shard's table; the two copies of the record
  validator differ exactly on the empty map; and building a map from the inventory gives a valid
  one in which the rows of the shards kept do not move.
\<close>

section \<open>Data\<close>

record PairConfig =
  LeaderAddr :: string
  FollowerAddr :: string

record ShardConfig =
  sc_ID :: int
  StartRow :: int
  EndRow :: int
  Active :: PairConfig
  Standby :: "PairConfig option"

record ShardConfigRecord =
  cfg_Key :: string
  cfg_Version :: int
  ShardCount :: int
  RowsPerShard :: int
  GlobalTableHeight :: int
  Shards :: "ShardConfig list"

section \<open>Validation\<close>

definition sort_shards :: "ShardConfig list \<Rightarrow> ShardConfig list" where
  "sort_shards shards = sort_key (\<lambda>s. (StartRow s, sc_ID s)) shards"

fun shard_map_loop :: "ShardConfig list \<Rightarrow> int \<Rightarrow> int set \<Rightarrow> int res" where
  "shard_map_loop [] expectedStart seenIDs = Inr expectedStart"
| "shard_map_loop (shard # rest) expectedStart seenIDs =
     (let id = show_int (sc_ID shard); start = show_int (StartRow shard) in
      if sc_ID shard \<in> seenIDs then Inl (ErrorString (''duplicate shard id '' @ id))
      else if StartRow shard < 0
      then Inl (ErrorString (''shard '' @ id @ '' has negative start row '' @ start))
      else if EndRow shard - StartRow shard \<noteq> int TABLE_HEIGHT
      then Inl (ErrorString (''shard '' @ id @ '' range ['' @ start @ '','' @ show_int (EndRow shard)
             @ '') must have height '' @ show_int (int TABLE_HEIGHT)))
      else if LeaderAddr (Active shard) = '''' \<or> FollowerAddr (Active shard) = ''''
      then Inl (ErrorString (''shard '' @ id @ '' missing active pair addresses''))
      else if StartRow shard \<noteq> expectedStart
      then if StartRow shard < expectedStart
           then Inl (ErrorString (''shard '' @ id @ '' overlaps previous range at row '' @ start))
           else Inl (ErrorString (''shard map has gap before row '' @ start))
      else shard_map_loop rest (EndRow shard) (insert (sc_ID shard) seenIDs))"

definition shard_map_end :: "ShardConfig list \<Rightarrow> int \<Rightarrow> unit res" where
  "shard_map_end ordered expectedStart =
     (if expectedStart \<noteq> int (length ordered) * int TABLE_HEIGHT
      then Inl (ErrorString (''shard map ends at row '' @ show_int expectedStart @ '', want ''
             @ show_int (int (length ordered) * int TABLE_HEIGHT)))
      else Inr ())"

definition validateShardMap :: "ShardConfig list \<Rightarrow> ShardConfig list res" where
  "validateShardMap shards =
     (if shards = [] then Inl (ErrorString ''must configure at least one shard'')
      else let ordered = sort_shards shards in
        case shard_map_loop ordered 0 {} of
          Inl err \<Rightarrow> Inl err
        | Inr expectedStart \<Rightarrow>
            (case shard_map_end ordered expectedStart of Inl err \<Rightarrow> Inl err | Inr _ \<Rightarrow> Inr ordered))"

text \<open>The checks both validators of a record start with.\<close>

definition config_header_check :: "ShardConfigRecord \<Rightarrow> unit res" where
  "config_header_check config =
     (if cfg_Version config \<le> 0 then Inl (ErrorString ''shard config version must be positive'')
      else if ShardCount config \<noteq> int (length (Shards config))
      then Inl (ErrorString (''shard config count mismatch: count='' @ show_int (ShardCount config)
             @ '' entries='' @ show_int (int (length (Shards config)))))
      else if RowsPerShard config \<noteq> int TABLE_HEIGHT
      then Inl (ErrorString (''shard config rows_per_shard='' @ show_int (RowsPerShard config)
             @ '', want '' @ show_int (int TABLE_HEIGHT)))
      else if GlobalTableHeight config \<noteq> ShardCount config * RowsPerShard config
      then Inl (ErrorString (''shard config global_table_height='' @ show_int (GlobalTableHeight config)
             @ '', want '' @ show_int (ShardCount config * RowsPerShard config)))
      else Inr ())"

text \<open>The coordinator's copy, and the control store's copy with the loop inlined.\<close>

definition validateShardConfigRecord :: "ShardConfigRecord \<Rightarrow> unit res" where
  "validateShardConfigRecord config =
     (case config_header_check config of
        Inl err \<Rightarrow> Inl err
      | Inr _ \<Rightarrow> (case validateShardMap (Shards config) of Inl err \<Rightarrow> Inl err | Inr _ \<Rightarrow> Inr ()))"

definition store_validateShardConfigRecord :: "ShardConfigRecord \<Rightarrow> unit res" where
  "store_validateShardConfigRecord config =
     (case config_header_check config of
        Inl err \<Rightarrow> Inl err
      | Inr _ \<Rightarrow>
          let ordered = sort_shards (Shards config) in
          case shard_map_loop ordered 0 {} of
            Inl err \<Rightarrow> Inl err
          | Inr expectedStart \<Rightarrow> shard_map_end ordered expectedStart)"

section \<open>Records\<close>

definition globalTableHeightForShards :: "ShardConfig list \<Rightarrow> int" where
  "globalTableHeightForShards shards = int (length shards) * int TABLE_HEIGHT"

definition shardConfigRecordFromShards :: "ShardConfig list \<Rightarrow> int \<Rightarrow> ShardConfigRecord" where
  "shardConfigRecordFromShards shards version =
     \<lparr>cfg_Key = ''shard-config'', cfg_Version = version, ShardCount = int (length shards),
      RowsPerShard = int TABLE_HEIGHT, GlobalTableHeight = globalTableHeightForShards shards,
      Shards = shards\<rparr>"

definition epochShardConfigKey :: "int \<Rightarrow> string" where
  "epochShardConfigKey epochID = ''shard-config#epoch#'' @ show_int epochID"

definition epochShardConfigRecord :: "ShardConfigRecord \<Rightarrow> int \<Rightarrow> ShardConfigRecord" where
  "epochShardConfigRecord config epochID = config\<lparr>cfg_Key := epochShardConfigKey epochID\<rparr>"

definition standby_equal :: "PairConfig option \<Rightarrow> PairConfig option \<Rightarrow> bool" where
  "standby_equal a b =
     (if (a = None) \<noteq> (b = None) then False
      else case (a, b) of (Some p, Some q) \<Rightarrow> p = q | _ \<Rightarrow> True)"

definition shardsEqual :: "ShardConfig \<Rightarrow> ShardConfig \<Rightarrow> bool" where
  "shardsEqual a b =
     (if sc_ID a \<noteq> sc_ID b \<or> StartRow a \<noteq> StartRow b \<or> EndRow a \<noteq> EndRow b \<or> Active a \<noteq> Active b
      then False else standby_equal (Standby a) (Standby b))"

fun shard_lists_equal :: "ShardConfig list \<Rightarrow> ShardConfig list \<Rightarrow> bool" where
  "shard_lists_equal (a # as) (b # bs) = (if \<not> shardsEqual a b then False else shard_lists_equal as bs)"
| "shard_lists_equal _ _ = True"

definition shardConfigRecordsEqual :: "ShardConfigRecord \<Rightarrow> ShardConfigRecord \<Rightarrow> bool" where
  "shardConfigRecordsEqual a b =
     (if cfg_Key a \<noteq> cfg_Key b \<or> cfg_Version a \<noteq> cfg_Version b \<or> ShardCount a \<noteq> ShardCount b \<or>
         RowsPerShard a \<noteq> RowsPerShard b \<or> GlobalTableHeight a \<noteq> GlobalTableHeight b \<or>
         length (Shards a) \<noteq> length (Shards b)
      then False else shard_lists_equal (Shards a) (Shards b))"

definition shardsEqualWithActiveStandbySwapped :: "ShardConfig \<Rightarrow> ShardConfig \<Rightarrow> bool" where
  "shardsEqualWithActiveStandbySwapped inventory active =
     (if sc_ID inventory \<noteq> sc_ID active \<or> StartRow inventory \<noteq> StartRow active \<or> EndRow inventory \<noteq> EndRow active
      then False
      else case (Standby inventory, Standby active) of
        (Some si, Some sa) \<Rightarrow> Active inventory = sa \<and> si = Active active
      | _ \<Rightarrow> False)"

text \<open>\<^verbatim>\<open>byID\<close>: a later entry of the inventory overwrites an earlier one with the same identifier.\<close>

definition inventory_by_id :: "ShardConfig list \<Rightarrow> int \<rightharpoonup> ShardConfig" where
  "inventory_by_id inventory = foldl (\<lambda>m s. m(sc_ID s \<mapsto> s)) Map.empty inventory"

fun inventory_contains :: "(int \<rightharpoonup> ShardConfig) \<Rightarrow> ShardConfig list \<Rightarrow> unit res" where
  "inventory_contains byID [] = Inr ()"
| "inventory_contains byID (shard # rest) =
     (case byID (sc_ID shard) of
        None \<Rightarrow> Inl (ErrorString (''configured shard inventory missing active shard '' @ show_int (sc_ID shard)))
      | Some avail \<Rightarrow>
          if \<not> shardsEqual avail shard \<and> \<not> shardsEqualWithActiveStandbySwapped avail shard
          then Inl (ErrorString (''configured shard inventory does not match active shard '' @ show_int (sc_ID shard)))
          else inventory_contains byID rest)"

definition validateShardInventoryContainsConfig :: "ShardConfig list \<Rightarrow> ShardConfigRecord \<Rightarrow> unit res" where
  "validateShardInventoryContainsConfig inventory active =
     (case validateShardConfigRecord active of
        Inl err \<Rightarrow> Inl err
      | Inr _ \<Rightarrow> inventory_contains (inventory_by_id inventory) (Shards active))"

section \<open>Routing and building\<close>

fun routeShard :: "ShardConfig list \<Rightarrow> int \<Rightarrow> ShardConfig res" where
  "routeShard [] row = Inl (ErrorString (''row '' @ show_int row @ '' outside shard map''))"
| "routeShard (shard # rest) row =
     (if StartRow shard \<le> row \<and> row < EndRow shard then Inr shard else routeShard rest row)"

definition place_shard :: "nat \<Rightarrow> ShardConfig \<Rightarrow> ShardConfig" where
  "place_shard i shard = shard\<lparr>StartRow := int i * int TABLE_HEIGHT, EndRow := (int i + 1) * int TABLE_HEIGHT\<rparr>"

definition buildShardConfigFromInventory :: "ShardConfig list \<Rightarrow> int \<Rightarrow> int \<Rightarrow> ShardConfigRecord res" where
  "buildShardConfigFromInventory inventory shardCount version =
     (if shardCount \<le> 0 then Inl (ErrorString ''shard count must be positive'')
      else if shardCount > int (length inventory)
      then Inl (ErrorString (''recommended shard count '' @ show_int shardCount
             @ '' exceeds configured shard inventory '' @ show_int (int (length inventory))))
      else
        let ordered = sort_key sc_ID inventory;
            shards = map (\<lambda>i. place_shard i (ordered ! i)) [0..<nat shardCount]
        in case validateShardMap shards of
             Inl err \<Rightarrow> Inl err
           | Inr validated \<Rightarrow> Inr (shardConfigRecordFromShards validated version))"

definition initialShardConfigSeed :: "ShardConfig list \<Rightarrow> int \<Rightarrow> ShardConfig list res" where
  "initialShardConfigSeed inventory initialActiveShards =
     (if initialActiveShards = 0 then Inr inventory
      else case buildShardConfigFromInventory inventory initialActiveShards 1 of
        Inl err \<Rightarrow> Inl err
      | Inr record \<Rightarrow> Inr (Shards record))"

section \<open>What the validators accept\<close>

text \<open>\<open>tile k s\<close>: shard \<open>s\<close> owns the \<open>k\<close>-th block of rows and has both addresses.\<close>

definition tile :: "nat \<Rightarrow> ShardConfig \<Rightarrow> bool" where
  "tile k s \<longleftrightarrow> StartRow s = int k * int TABLE_HEIGHT \<and> EndRow s = (int k + 1) * int TABLE_HEIGHT \<and>
     LeaderAddr (Active s) \<noteq> '''' \<and> FollowerAddr (Active s) \<noteq> ''''"

definition shards_tile :: "ShardConfig list \<Rightarrow> bool" where
  "shards_tile ss \<longleftrightarrow> distinct (map sc_ID ss) \<and> (\<forall>i < length ss. tile i (ss ! i))"

lemma length_sort_shards [simp]: "length (sort_shards ss) = length ss"
  by (simp add: sort_shards_def)

lemma mset_sort_shards [simp]: "mset (sort_shards ss) = mset ss"
  by (simp add: sort_shards_def)

lemma set_sort_shards [simp]: "set (sort_shards ss) = set ss"
  by (simp add: sort_shards_def)

lemma shard_map_loop_ok:
  "tile k s \<Longrightarrow> sc_ID s \<notin> seen \<Longrightarrow> e = int k * int TABLE_HEIGHT \<Longrightarrow>
     shard_map_loop (s # ss) e seen = shard_map_loop ss (int (Suc k) * int TABLE_HEIGHT) (insert (sc_ID s) seen)"
  by (auto simp: tile_def Let_def algebra_simps mult_less_0_iff)

lemma shard_map_loop_bad:
  "\<not> (tile k s \<and> sc_ID s \<notin> seen) \<Longrightarrow> e = int k * int TABLE_HEIGHT \<Longrightarrow>
     \<exists>err. shard_map_loop (s # ss) e seen = Inl err"
  by (auto simp: tile_def Let_def algebra_simps)

lemma all_less_Suc: "(\<forall>i < Suc n. P i) \<longleftrightarrow> P 0 \<and> (\<forall>i < n. P (Suc i))"
  by (auto simp: less_Suc_eq_0_disj)

lemma shard_map_loop_iff:
  "shard_map_loop ss (int k * int TABLE_HEIGHT) seen = Inr e \<longleftrightarrow>
     e = int (k + length ss) * int TABLE_HEIGHT \<and> distinct (map sc_ID ss) \<and> sc_ID ` set ss \<inter> seen = {} \<and>
     (\<forall>i < length ss. tile (k + i) (ss ! i))"
proof (induction ss arbitrary: k seen)
  case (Cons s ss)
  show ?case
  proof (cases "tile k s \<and> sc_ID s \<notin> seen")
    case True
    then show ?thesis
      using Cons.IH [of "Suc k" "insert (sc_ID s) seen"] shard_map_loop_ok [of k s seen _ ss]
      by (auto simp del: shard_map_loop.simps simp: all_less_Suc)
  next
    case False
    then show ?thesis using shard_map_loop_bad [OF False refl, of ss]
      by (auto simp del: shard_map_loop.simps simp: all_less_Suc)
  qed
qed auto

lemma shard_map_loop_0_iff:
  "shard_map_loop ss 0 {} = Inr e \<longleftrightarrow> e = int (length ss) * int TABLE_HEIGHT \<and> shards_tile ss"
  using shard_map_loop_iff [of ss 0 "{}" e] by (simp add: shards_tile_def)

lemma validateShardMap_iff:
  "validateShardMap shards = Inr out \<longleftrightarrow> shards \<noteq> [] \<and> out = sort_shards shards \<and> shards_tile (sort_shards shards)"
proof (cases "shard_map_loop (sort_shards shards) 0 {}")
  case (Inl e)
  then have "\<not> shards_tile (sort_shards shards)" using shard_map_loop_0_iff [of "sort_shards shards"] by auto
  then show ?thesis using Inl by (simp add: validateShardMap_def)
next
  case (Inr e)
  then have "e = int (length shards) * int TABLE_HEIGHT" "shards_tile (sort_shards shards)"
    by (simp_all add: shard_map_loop_0_iff)
  then show ?thesis using Inr by (auto simp: validateShardMap_def shard_map_end_def)
qed

lemma store_validate_iff:
  "store_validateShardConfigRecord config = Inr () \<longleftrightarrow>
     config_header_check config = Inr () \<and> shards_tile (sort_shards (Shards config))"
proof (cases "shard_map_loop (sort_shards (Shards config)) 0 {}")
  case (Inl e)
  then have "\<not> shards_tile (sort_shards (Shards config))" using shard_map_loop_0_iff [of "sort_shards (Shards config)"] by auto
  then show ?thesis using Inl by (simp add: store_validateShardConfigRecord_def split: sum.splits)
next
  case (Inr e)
  then have "e = int (length (Shards config)) * int TABLE_HEIGHT" "shards_tile (sort_shards (Shards config))"
    by (simp_all add: shard_map_loop_0_iff)
  then show ?thesis using Inr
    by (simp add: store_validateShardConfigRecord_def shard_map_end_def split: sum.splits)
qed

lemma validate_record_iff:
  "validateShardConfigRecord config = Inr () \<longleftrightarrow>
     config_header_check config = Inr () \<and> Shards config \<noteq> [] \<and> shards_tile (sort_shards (Shards config))"
proof (cases "validateShardMap (Shards config)")
  case (Inl e)
  then show ?thesis using validateShardMap_iff [of "Shards config" "sort_shards (Shards config)"]
    by (simp add: validateShardConfigRecord_def split: sum.splits)
next
  case (Inr out)
  then show ?thesis using validateShardMap_iff [of "Shards config" out]
    by (simp add: validateShardConfigRecord_def split: sum.splits)
qed

section \<open>Sorting\<close>

lemma sort_shards_Nil_iff [simp]: "sort_shards ss = [] \<longleftrightarrow> ss = []"
  by (metis length_0_conv length_sort_shards)


text \<open>With distinct identifiers the sorted list is determined by the set of shards, so no property of a
  particular sort is used and the order of the configuration does not matter.\<close>

lemma sort_shards_unique:
  assumes "mset xs = mset ys" "distinct (map sc_ID xs)"
    and "sorted (map (\<lambda>s. (StartRow s, sc_ID s)) xs)"
  shows "sort_shards ys = xs"
proof -
  have "inj_on (\<lambda>s. (StartRow s, sc_ID s)) (set ys)"
    using assms(1,2) by (auto simp: distinct_map inj_on_def dest: mset_eq_setD)
  then show ?thesis unfolding sort_shards_def using assms(1,3) by (intro sort_key_inj_key_eq) simp_all
qed

lemma validateShardMap_order:
  assumes "mset xs = mset ys" "validateShardMap xs = Inr out"
  shows "validateShardMap ys = Inr out"
proof -
  have out: "xs \<noteq> []" "out = sort_shards xs" "shards_tile out"
    using assms(2) by (auto simp: validateShardMap_iff)
  have "sort_shards ys = out"
    using assms(1) out(2,3) by (intro sort_shards_unique) (simp_all add: sort_shards_def shards_tile_def)
  then show ?thesis using out assms(1) by (auto simp: validateShardMap_iff)
qed

section \<open>Routing\<close>

lemma row_in_tile:
  assumes "tile i s"
  shows "StartRow s \<le> row \<and> row < EndRow s \<longleftrightarrow> 0 \<le> row \<and> nat (row div int TABLE_HEIGHT) = i"
proof -
  have "0 < int TABLE_HEIGHT" by (simp add: TABLE_HEIGHT_eq)
  then have "int i * int TABLE_HEIGHT \<le> row \<and> row < (int i + 1) * int TABLE_HEIGHT \<longleftrightarrow> row div int TABLE_HEIGHT = int i"
    by (auto simp: TABLE_HEIGHT_eq)
  moreover have "row div int TABLE_HEIGHT = int i \<longleftrightarrow> 0 \<le> row \<and> nat (row div int TABLE_HEIGHT) = i"
    by (auto simp: TABLE_HEIGHT_eq)
  ultimately show ?thesis using assms by (simp add: tile_def)
qed

lemma routeShard_nth:
  "(\<forall>i < length ss. tile (k + i) (ss ! i)) \<Longrightarrow> 0 \<le> row \<Longrightarrow> nat (row div int TABLE_HEIGHT) = k + j \<Longrightarrow>
     routeShard ss row = (if j < length ss then Inr (ss ! j)
       else Inl (ErrorString (''row '' @ show_int row @ '' outside shard map'')))"
proof (induction ss arbitrary: k j)
  case (Cons s ss)
  have s: "tile k s" using Cons.prems(1) by auto
  show ?case
  proof (cases j)
    case 0
    then show ?thesis using row_in_tile [OF s, of row] Cons.prems(2,3) by simp
  next
    case (Suc j')
    have "\<not> (StartRow s \<le> row \<and> row < EndRow s)"
      using row_in_tile [OF s, of row] Cons.prems(3) Suc by simp
    moreover have "routeShard ss row = (if j' < length ss then Inr (ss ! j')
       else Inl (ErrorString (''row '' @ show_int row @ '' outside shard map'')))"
      using Cons.prems Suc by (intro Cons.IH [of "Suc k"]) (auto simp: all_less_Suc)
    ultimately show ?thesis using Suc by auto
  qed
qed simp

lemma routeShard_negative:
  "(\<forall>i < length ss. tile (k + i) (ss ! i)) \<Longrightarrow> row < 0 \<Longrightarrow>
     routeShard ss row = Inl (ErrorString (''row '' @ show_int row @ '' outside shard map''))"
proof (induction ss arbitrary: k)
  case (Cons s ss)
  have s: "tile k s" using Cons.prems(1) by auto
  have "routeShard ss row = Inl (ErrorString (''row '' @ show_int row @ '' outside shard map''))"
    using Cons.prems by (intro Cons.IH [of "Suc k"]) (auto simp: all_less_Suc)
  then show ?case using row_in_tile [OF s, of row] Cons.prems(2) by auto
qed simp

section \<open>Comparing records\<close>

lemma shardsEqual_iff [simp]: "shardsEqual a b \<longleftrightarrow> a = b"
  by (cases a; cases b) (auto simp: shardsEqual_def standby_equal_def split: option.splits)

lemma shard_lists_equal_iff: "length as = length bs \<Longrightarrow> shard_lists_equal as bs \<longleftrightarrow> as = bs"
  by (induction as bs rule: list_induct2) auto

lemma shardConfigRecordsEqual_iff [simp]: "shardConfigRecordsEqual a b \<longleftrightarrow> a = b"
  by (cases a; cases b) (auto simp: shardConfigRecordsEqual_def shard_lists_equal_iff)

section \<open>Building from the inventory\<close>

lemma place_shard_simps [simp]:
  "sc_ID (place_shard i s) = sc_ID s" "Active (place_shard i s) = Active s"
  "StartRow (place_shard i s) = int i * int TABLE_HEIGHT" "EndRow (place_shard i s) = (int i + 1) * int TABLE_HEIGHT"
  by (simp_all add: place_shard_def)

abbreviation placed :: "ShardConfig list \<Rightarrow> nat \<Rightarrow> ShardConfig list" where
  "placed inventory n \<equiv> map (\<lambda>i. place_shard i (sort_key sc_ID inventory ! i)) [0..<n]"

lemma placed_tiles:
  assumes "n \<le> length inventory" "distinct (map sc_ID inventory)"
    and "\<forall>s \<in> set inventory. LeaderAddr (Active s) \<noteq> '''' \<and> FollowerAddr (Active s) \<noteq> ''''"
  shows "shards_tile (placed inventory n)" "sort_shards (placed inventory n) = placed inventory n"
proof -
  let ?inv = "sort_key sc_ID inventory"
  have d: "distinct (map sc_ID ?inv)" using assms(2) by (simp add: distinct_map)
  have ids: "map sc_ID (placed inventory n) = take n (map sc_ID ?inv)"
    using assms(1) by (intro nth_equalityI) simp_all
  then have di: "distinct (map sc_ID (placed inventory n))" using d by simp
  have "?inv ! i \<in> set inventory" if "i < n" for i
    using that assms(1) nth_mem [of i ?inv] by simp
  then show t: "shards_tile (placed inventory n)"
    using di assms(3) by (auto simp: shards_tile_def tile_def)
  have "sorted (map (\<lambda>s. (StartRow s, sc_ID s)) (placed inventory n))"
    by (auto simp: sorted_iff_nth_mono_less TABLE_HEIGHT_eq less_eq_prod_def)
  then show "sort_shards (placed inventory n) = placed inventory n"
    using di by (intro sort_shards_unique) simp_all
qed

lemma build_eq:
  assumes "0 < n" "n \<le> int (length inventory)" "distinct (map sc_ID inventory)"
    and "\<forall>s \<in> set inventory. LeaderAddr (Active s) \<noteq> '''' \<and> FollowerAddr (Active s) \<noteq> ''''"
  shows "buildShardConfigFromInventory inventory n v
    = Inr (shardConfigRecordFromShards (placed inventory (nat n)) v)"
proof -
  have "nat n \<le> length inventory" using assms(2) by simp
  then have "validateShardMap (placed inventory (nat n)) = Inr (placed inventory (nat n))"
    using placed_tiles [OF _ assms(3,4)] assms(1) by (simp add: validateShardMap_iff)
  then show ?thesis using assms(1,2) by (simp add: buildShardConfigFromInventory_def Let_def)
qed

lemma header_from_shards: "config_header_check (shardConfigRecordFromShards ss v) = Inr () \<longleftrightarrow> 0 < v"
  by (simp add: config_header_check_def shardConfigRecordFromShards_def globalTableHeightForShards_def)

section \<open>Properties\<close>

definition sample_pair :: "string \<Rightarrow> PairConfig" where
  "sample_pair name = \<lparr>LeaderAddr = name @ ''-leader'', FollowerAddr = name @ ''-follower''\<rparr>"

definition sample_inventory :: "ShardConfig list" where
  "sample_inventory =
     [\<lparr>sc_ID = 7, StartRow = 256, EndRow = 512, Active = sample_pair ''b'', Standby = Some (sample_pair ''c'')\<rparr>,
      \<lparr>sc_ID = 3, StartRow = 0, EndRow = 256, Active = sample_pair ''a'', Standby = None\<rparr>]"

lemma sort_sample_inventory: "sort_shards sample_inventory = rev sample_inventory"
  by (rule sort_shards_unique) (simp_all add: sample_inventory_def)

lemma sample_inventory_valid: "validateShardMap sample_inventory = Inr (rev sample_inventory)"
  unfolding validateShardMap_iff sort_sample_inventory
  by (simp add: sample_inventory_def shards_tile_def tile_def all_less_Suc TABLE_HEIGHT_eq sample_pair_def)

lemma sample_inventory_ok:
  "distinct (map sc_ID sample_inventory)"
  "\<forall>s \<in> set sample_inventory. LeaderAddr (Active s) \<noteq> '''' \<and> FollowerAddr (Active s) \<noteq> ''''"
  by (simp_all add: sample_inventory_def sample_pair_def)

text \<open>What \<^verbatim>\<open>validateShardMap\<close> accepts. In whatever order the shards are listed, the map is accepted
  exactly when it is not empty and has an order in which the \<open>i\<close>-th shard owns the rows
  \<open>[i * TABLE_HEIGHT, (i + 1) * TABLE_HEIGHT)\<close>, both addresses of each active pair are set and the
  identifiers differ; that order is what it returns.
\<close>

theorem validateShardMap_correct:
  "validateShardMap shards = Inr out \<longleftrightarrow>
     mset out = mset shards \<and> out \<noteq> [] \<and> distinct (map sc_ID out) \<and>
     (\<forall>i < length out. StartRow (out ! i) = int i * int TABLE_HEIGHT \<and>
        EndRow (out ! i) = (int i + 1) * int TABLE_HEIGHT \<and>
        LeaderAddr (Active (out ! i)) \<noteq> '''' \<and> FollowerAddr (Active (out ! i)) \<noteq> '''')"
  (is "_ \<longleftrightarrow> ?spec")
proof
  assume "validateShardMap shards = Inr out"
  then show ?spec by (auto simp: validateShardMap_iff shards_tile_def tile_def)
next
  assume spec: ?spec
  then have t: "shards_tile out" by (simp add: shards_tile_def tile_def)
  have "sorted (map (\<lambda>s. (StartRow s, sc_ID s)) out)"
    using spec by (auto simp: sorted_iff_nth_mono_less TABLE_HEIGHT_eq less_eq_prod_def)
  then have "sort_shards shards = out" using spec by (intro sort_shards_unique) simp_all
  then show "validateShardMap shards = Inr out" using spec t by (auto simp: validateShardMap_iff)
qed

theorem validateShardMap_correct_witness:
  "validateShardMap sample_inventory = Inr (rev sample_inventory) \<and> distinct (map sc_ID (rev sample_inventory))"
  using validateShardMap_correct [of sample_inventory "rev sample_inventory"] sample_inventory_valid by simp

text \<open>Routing on an accepted map. A global row inside the map goes to the shard of its block, which is
  the only shard that contains it, and the local row the coordinator then uses is a row of that shard's
  table; every other row is refused.
\<close>

theorem routeShard_correct:
  assumes "validateShardMap shards = Inr out"
  shows "(0 \<le> row \<and> row < globalTableHeightForShards out \<longrightarrow>
            (\<exists>s. routeShard out row = Inr s \<and> s \<in> set shards \<and> s = out ! nat (row div int TABLE_HEIGHT) \<and>
               0 \<le> row - StartRow s \<and> row - StartRow s < int TABLE_HEIGHT \<and>
               (\<forall>t \<in> set shards. StartRow t \<le> row \<and> row < EndRow t \<longrightarrow> t = s))) \<and>
         (row < 0 \<or> globalTableHeightForShards out \<le> row \<longrightarrow>
            routeShard out row = Inl (ErrorString (''row '' @ show_int row @ '' outside shard map'')))"
proof (intro conjI impI)
  have out: "\<forall>i < length out. tile (0 + i) (out ! i)" "set out = set shards"
    using assms by (auto simp: validateShardMap_iff shards_tile_def)
  let ?i = "nat (row div int TABLE_HEIGHT)"
  {
    assume r: "0 \<le> row \<and> row < globalTableHeightForShards out"
    then have i: "?i < length out" by (auto simp: globalTableHeightForShards_def TABLE_HEIGHT_eq nat_less_iff)
    have t: "tile ?i (out ! ?i)" using out(1) i by simp
    have "u = out ! ?i" if "u \<in> set shards" "StartRow u \<le> row \<and> row < EndRow u" for u
      using that out row_in_tile [of _ u row] by (metis add_0 in_set_conv_nth)
    moreover have "0 \<le> row - StartRow (out ! ?i) \<and> row - StartRow (out ! ?i) < int TABLE_HEIGHT"
      using row_in_tile [OF t, of row] r t by (simp add: tile_def algebra_simps)
    moreover have "routeShard out row = Inr (out ! ?i)"
      using routeShard_nth [OF out(1), of row ?i] i r by simp
    ultimately show "\<exists>s. routeShard out row = Inr s \<and> s \<in> set shards \<and> s = out ! ?i \<and>
        0 \<le> row - StartRow s \<and> row - StartRow s < int TABLE_HEIGHT \<and>
        (\<forall>t \<in> set shards. StartRow t \<le> row \<and> row < EndRow t \<longrightarrow> t = s)"
      using nth_mem [OF i] out(2) by blast
  next
    assume r: "row < 0 \<or> globalTableHeightForShards out \<le> row"
    show "routeShard out row = Inl (ErrorString (''row '' @ show_int row @ '' outside shard map''))"
    proof (cases "row < 0")
      case True
      then show ?thesis using routeShard_negative [OF out(1)] by simp
    next
      case False
      then have "\<not> ?i < length out" using r by (auto simp: globalTableHeightForShards_def TABLE_HEIGHT_eq nat_less_iff)
      then show ?thesis using routeShard_nth [OF out(1), of row ?i] False by simp
    qed
  }
qed

theorem routeShard_correct_witness:
  "(\<exists>s. routeShard (rev sample_inventory) 300 = Inr s \<and> s = rev sample_inventory ! 1) \<and>
   routeShard (rev sample_inventory) 512 = Inl (ErrorString (''row '' @ show_int 512 @ '' outside shard map''))"
proof -
  have h: "globalTableHeightForShards (rev sample_inventory) = 512"
    by (simp add: globalTableHeightForShards_def sample_inventory_def TABLE_HEIGHT_eq)
  have "nat (300 div int TABLE_HEIGHT) = 1" by (simp add: TABLE_HEIGHT_eq)
  then show ?thesis
    using routeShard_correct [OF sample_inventory_valid, of 300]
      routeShard_correct [OF sample_inventory_valid, of 512] h by auto
qed

text \<open>The two copies of \<^verbatim>\<open>validateShardConfigRecord\<close>. The control store's copy accepts what the
  coordinator's accepts and, in addition, records without any shard, which the coordinator refuses.
\<close>

theorem record_validators_differ_on_empty_map:
  "store_validateShardConfigRecord config = Inr () \<longleftrightarrow>
     validateShardConfigRecord config = Inr () \<or> (Shards config = [] \<and> config_header_check config = Inr ())"
  by (auto simp: store_validate_iff validate_record_iff shards_tile_def sort_shards_def)

text \<open>Building a map from an inventory with distinct identifiers and complete active pairs succeeds for
  every shard count within the inventory; the record passes validation, holds the shards with the
  smallest identifiers in order, and when the count grows the shards kept keep their rows and pairs.
\<close>

theorem build_from_inventory_correct:
  assumes "0 < n" "n \<le> m" "m \<le> int (length inventory)" "0 < v" "0 < v'" "distinct (map sc_ID inventory)"
    and "\<forall>s \<in> set inventory. LeaderAddr (Active s) \<noteq> '''' \<and> FollowerAddr (Active s) \<noteq> ''''"
  shows "\<exists>small large. buildShardConfigFromInventory inventory n v = Inr small \<and>
     buildShardConfigFromInventory inventory m v' = Inr large \<and>
     validateShardConfigRecord small = Inr () \<and> validateShardConfigRecord large = Inr () \<and>
     ShardCount large = m \<and> map sc_ID (Shards large) = take (nat m) (sort (map sc_ID inventory)) \<and>
     take (nat n) (Shards large) = Shards small"
proof -
  let ?rec = "\<lambda>k v. shardConfigRecordFromShards (placed inventory (nat k)) v"
  have b: "buildShardConfigFromInventory inventory n v = Inr (?rec n v)"
    "buildShardConfigFromInventory inventory m v' = Inr (?rec m v')"
    using assms by (auto intro!: build_eq)
  have valid: "validateShardConfigRecord (?rec k w) = Inr ()" if "0 < k" "k \<le> m" "0 < w" for k w
  proof -
    have "nat k \<le> length inventory" using that assms(3) by simp
    then show ?thesis using that placed_tiles [OF _ assms(6,7)]
      by (simp add: validate_record_iff header_from_shards) (simp add: shardConfigRecordFromShards_def)
  qed
  have "map sc_ID (placed inventory (nat m)) = take (nat m) (map sc_ID (sort_key sc_ID inventory))"
    using assms(3) by (intro nth_equalityI) simp_all
  also have "map sc_ID (sort_key sc_ID inventory) = sort (map sc_ID inventory)"
    by (rule properties_for_sort [symmetric]) simp_all
  finally have ids: "map sc_ID (placed inventory (nat m)) = take (nat m) (sort (map sc_ID inventory))" .
  have "take (nat n) (placed inventory (nat m)) = placed inventory (nat n)"
    using assms(2) by (simp add: take_map take_upt)
  then show ?thesis using b valid [of n v] valid [of m v'] assms ids
    by (auto simp: shardConfigRecordFromShards_def)
qed

theorem build_from_inventory_correct_witness:
  "\<exists>small large. buildShardConfigFromInventory sample_inventory 1 1 = Inr small \<and>
     buildShardConfigFromInventory sample_inventory 2 2 = Inr large \<and> ShardCount large = 2 \<and>
     take 1 (Shards large) = Shards small"
proof -
  have "2 \<le> int (length sample_inventory)" by (simp add: sample_inventory_def)
  then show ?thesis
    using build_from_inventory_correct [of 1 2 sample_inventory 1 2] sample_inventory_ok by auto
qed

end
