(* ===== verification/Scaling_Policy.thy ===== *)
theory Scaling_Policy
  imports Shard_Topology Complex_Main "HOL-Library.Log_Nat"
begin

text \<open>
  The scaling policy (\<^verbatim>\<open>src/coordinator/scaling.go\<close>): from the number of accepted uploads of an epoch to
  a recommended number of shards.

  A \<^verbatim>\<open>float64\<close> is a rational, an infinity or NaN; conversions and divisions round to 53 significant
  bits, ties to even (every value here is in the normal range). Products of configured integers wrap
  at 64 bits, as they do in the code. \<open>fmt_2f\<close> is the verb \<^verbatim>\<open>%.2f\<close>.

  Shown here: rounding is monotone and exact on integers of 53 bits; a recommendation that is not
  refused stays within the configured bounds and moves in the direction its action names, as long as
  the products fit and the current count is at least the minimum; the two ways in which it does not;
  and a configuration accepted at start-up is never refused later.
\<close>

section \<open>Floating point\<close>

datatype float64 = Fin rat | PosInf | NegInf | NaN

definition ilog2 :: "rat \<Rightarrow> int" where
  "ilog2 q = (let (n, d) = quotient_of q; k = bitlen n - bitlen d in if 2 powi k \<le> q then k else k - 1)"

definition round_half_even :: "rat \<Rightarrow> int" where
  "round_half_even q =
     (let f = \<lfloor>q\<rfloor>; r = q - of_int f in
      if r < 1 / 2 then f else if 1 / 2 < r then f + 1 else if even f then f else f + 1)"

definition round_pos :: "rat \<Rightarrow> rat" where
  "round_pos q = (let e = ilog2 q - 52 in of_int (round_half_even (q / 2 powi e)) * 2 powi e)"

definition float_round :: "rat \<Rightarrow> rat" where
  "float_round q = (if q = 0 then 0 else if q < 0 then - round_pos (- q) else round_pos q)"

definition float_of_int :: "int \<Rightarrow> float64" where
  "float_of_int n = Fin (float_round (of_int n))"

fun float_div :: "float64 \<Rightarrow> float64 \<Rightarrow> float64" where
  "float_div (Fin a) (Fin b) =
     (if b \<noteq> 0 then Fin (float_round (a / b)) else if a = 0 then NaN else if 0 < a then PosInf else NegInf)"
| "float_div (Fin a) PosInf = Fin 0"
| "float_div (Fin a) NegInf = Fin 0"
| "float_div PosInf (Fin b) = (if 0 \<le> b then PosInf else NegInf)"
| "float_div NegInf (Fin b) = (if 0 \<le> b then NegInf else PosInf)"
| "float_div _ _ = NaN"

fun float_le :: "float64 \<Rightarrow> float64 \<Rightarrow> bool" where
  "float_le NaN _ = False"
| "float_le _ NaN = False"
| "float_le NegInf _ = True"
| "float_le _ PosInf = True"
| "float_le (Fin a) (Fin b) = (a \<le> b)"
| "float_le _ _ = False"

fun float_less :: "float64 \<Rightarrow> float64 \<Rightarrow> bool" where
  "float_less NaN _ = False"
| "float_less _ NaN = False"
| "float_less NegInf b = (b \<noteq> NegInf)"
| "float_less a PosInf = (a \<noteq> PosInf)"
| "float_less (Fin a) (Fin b) = (a < b)"
| "float_less _ _ = False"

text \<open>\<^verbatim>\<open>int(math.Ceil(x))\<close>; the code applies it to finite values only.\<close>

fun float_ceil_int :: "float64 \<Rightarrow> int" where
  "float_ceil_int (Fin a) = \<lceil>a\<rceil>"
| "float_ceil_int _ = - (2 ^ 63)"

definition two_digits :: "nat \<Rightarrow> string" where
  "two_digits n = [digit_char (n div 10), digit_char (n mod 10)]"

fun fmt_2f :: "float64 \<Rightarrow> string" where
  "fmt_2f (Fin a) =
     (let n = nat (round_half_even (\<bar>a\<bar> * 100)) in
      (if a < 0 then ''-'' else '''') @ show_nat (n div 100) @ ''.'' @ two_digits (n mod 100))"
| "fmt_2f PosInf = ''+Inf''"
| "fmt_2f NegInf = ''-Inf''"
| "fmt_2f NaN = ''NaN''"

section \<open>The policy\<close>

definition defaultScaleUpDensityThreshold :: float64 where "defaultScaleUpDensityThreshold = Fin 4"
definition defaultScaleDownDensityThreshold :: float64 where "defaultScaleDownDensityThreshold = Fin 1"
definition defaultMaxShardMultiplier :: int where "defaultMaxShardMultiplier = 2"
definition scalingActionGrow :: string where "scalingActionGrow = ''grow''"
definition scalingActionShrink :: string where "scalingActionShrink = ''shrink''"
definition scalingActionKeep :: string where "scalingActionKeep = ''keep''"

record EpochScalingMetrics =
  mt_EpochID :: int
  mt_CurrentShardCount :: int
  mt_AcceptedRequestCount :: int
  mt_DurationSeconds :: int

record ScalingPolicyConfig =
  MinShards :: int
  MaxShards :: int
  sp_TargetRowsPerShard :: int
  ScaleUpDensityThreshold :: float64
  ScaleDownDensityThreshold :: float64
  MaxShardMultiplier :: int

record ScalingRecommendation =
  rec_CurrentShardCount :: int
  rec_RecommendedShardCount :: int
  rec_TargetRowsPerShard :: int
  rec_RequestDensity :: float64
  rec_Action :: string
  rec_Reason :: string

definition defaultScalingPolicyConfig :: "int \<Rightarrow> ScalingPolicyConfig" where
  "defaultScalingPolicyConfig currentShardCount =
     \<lparr>MinShards = currentShardCount, MaxShards = currentShardCount, sp_TargetRowsPerShard = int TABLE_HEIGHT,
      ScaleUpDensityThreshold = defaultScaleUpDensityThreshold,
      ScaleDownDensityThreshold = defaultScaleDownDensityThreshold,
      MaxShardMultiplier = defaultMaxShardMultiplier\<rparr>"

text \<open>The checks of \<^verbatim>\<open>ComputeNextDatasetScale\<close>, in order: the reason of the first that fails.\<close>

definition invalid_reason :: "EpochScalingMetrics \<Rightarrow> ScalingPolicyConfig \<Rightarrow> string option" where
  "invalid_reason metrics config =
     (if mt_CurrentShardCount metrics \<le> 0 then Some ''invalid current shard count''
      else if mt_AcceptedRequestCount metrics < 0 then Some ''invalid accepted request count''
      else if mt_DurationSeconds metrics \<le> 0 then Some ''invalid epoch duration''
      else if MinShards config \<le> 0 \<or> MaxShards config \<le> 0 \<or> MinShards config > MaxShards config \<or>
              mt_CurrentShardCount metrics > MaxShards config
      then Some ''invalid shard bounds''
      else if sp_TargetRowsPerShard config \<le> 0 then Some ''invalid target rows per shard''
      else if float_less (ScaleDownDensityThreshold config) (Fin 0) \<or>
              float_le (ScaleUpDensityThreshold config) (ScaleDownDensityThreshold config)
      then Some ''invalid density thresholds''
      else if MaxShardMultiplier config < 1 then Some ''invalid max shard multiplier''
      else None)"

definition ComputeNextDatasetScale :: "EpochScalingMetrics \<Rightarrow> ScalingPolicyConfig \<Rightarrow> ScalingRecommendation" where
  "ComputeNextDatasetScale metrics config =
     (let current = mt_CurrentShardCount metrics;
          rec = \<lparr>rec_CurrentShardCount = current, rec_RecommendedShardCount = current,
                 rec_TargetRowsPerShard = sp_TargetRowsPerShard config, rec_RequestDensity = Fin 0,
                 rec_Action = scalingActionKeep, rec_Reason = ''''\<rparr>
      in case invalid_reason metrics config of
        Some reason \<Rightarrow> rec\<lparr>rec_Reason := reason\<rparr>
      | None \<Rightarrow>
        let currentLogicalRows = wrap64 (current * sp_TargetRowsPerShard config);
            density = float_div (float_of_int (mt_AcceptedRequestCount metrics)) (float_of_int currentLogicalRows);
            rec = rec\<lparr>rec_RequestDensity := density\<rparr>
        in if float_le (ScaleUpDensityThreshold config) density
           then let target = wrap64 (current * MaxShardMultiplier config);
                    target = (if target > MaxShards config then MaxShards config else target)
                in if target = current
                   then rec\<lparr>rec_Reason := ''scale-up density '' @ fmt_2f density
                          @ '' reached, but max shard cap '' @ show_int (MaxShards config) @ '' prevents growth''\<rparr>
                   else rec\<lparr>rec_RecommendedShardCount := target, rec_Action := scalingActionGrow,
                          rec_Reason := ''request density '' @ fmt_2f density @ '' reached scale-up threshold ''
                            @ fmt_2f (ScaleUpDensityThreshold config)\<rparr>
           else if float_le density (ScaleDownDensityThreshold config)
           then let target = float_ceil_int (float_div (float_of_int current) (float_of_int (MaxShardMultiplier config)));
                    target = (if target < MinShards config then MinShards config else target)
                in if target = current
                   then rec\<lparr>rec_Reason := ''scale-down density '' @ fmt_2f density
                          @ '' reached, but min shard bound '' @ show_int (MinShards config) @ '' prevents shrink''\<rparr>
                   else rec\<lparr>rec_RecommendedShardCount := target, rec_Action := scalingActionShrink,
                          rec_Reason := ''request density '' @ fmt_2f density @ '' reached scale-down threshold ''
                            @ fmt_2f (ScaleDownDensityThreshold config)\<rparr>
           else rec\<lparr>rec_Reason := ''request density '' @ fmt_2f density @ '' is within scaling thresholds''\<rparr>)"

definition resolveScalingPolicyConfig ::
  "int \<Rightarrow> int \<Rightarrow> int \<Rightarrow> int \<Rightarrow> float64 \<Rightarrow> float64 \<Rightarrow> int \<Rightarrow> ScalingPolicyConfig res" where
  "resolveScalingPolicyConfig currentShardCount minShards maxShards targetRowsPerShard scaleUpDensity scaleDownDensity
       maxShardMultiplier =
     (let config = \<lparr>MinShards = (if minShards = 0 then currentShardCount else minShards),
                    MaxShards = (if maxShards = 0 then currentShardCount else maxShards),
                    sp_TargetRowsPerShard = targetRowsPerShard,
                    ScaleUpDensityThreshold = scaleUpDensity, ScaleDownDensityThreshold = scaleDownDensity,
                    MaxShardMultiplier = maxShardMultiplier\<rparr>
      in if currentShardCount \<le> 0 then Inl (ErrorString ''current shard count must be positive'')
         else
         let config = (if sp_TargetRowsPerShard config = 0
                       then config\<lparr>sp_TargetRowsPerShard := int TABLE_HEIGHT\<rparr> else config);
             metrics = \<lparr>mt_EpochID = 0, mt_CurrentShardCount = currentShardCount,
                        mt_AcceptedRequestCount = wrap64 (wrap64 (currentShardCount * sp_TargetRowsPerShard config) * 2),
                        mt_DurationSeconds = 1\<rparr>;
             rec = ComputeNextDatasetScale metrics config
         in if has_prefix (rec_Reason rec) ''invalid '' then Inl (ErrorString (rec_Reason rec)) else Inr config)"

definition defaultCoordinatorScalingRecommendation :: "int \<Rightarrow> ScalingRecommendation" where
  "defaultCoordinatorScalingRecommendation currentShardCount =
     (let config = defaultScalingPolicyConfig currentShardCount;
          metrics = \<lparr>mt_EpochID = 0, mt_CurrentShardCount = currentShardCount,
                     mt_AcceptedRequestCount = wrap64 (wrap64 (currentShardCount * sp_TargetRowsPerShard config) * 2),
                     mt_DurationSeconds = 1\<rparr>
      in ComputeNextDatasetScale metrics config)"

section \<open>Rounding\<close>

lemma bitlen_rat:
  assumes "0 < n"
  shows "2 powi (bitlen n - 1) \<le> (of_int n :: rat)" "(of_int n :: rat) < 2 powi bitlen n"
proof -
  have b: "2 ^ nat (bitlen n - 1) \<le> n" "n < 2 ^ nat (bitlen n)" using bitlen_bounds [OF assms] by auto
  have g: "0 < bitlen n" using assms bitlen_nonneg [of n] bitlen_eq_zero_iff [of n] by linarith
  have "(of_int (2 ^ nat (bitlen n - 1)) :: rat) \<le> of_int n" using b(1) by (simp only: of_int_le_iff)
  then show "2 powi (bitlen n - 1) \<le> (of_int n :: rat)" using g by (simp add: power_int_def)
  have "(of_int n :: rat) < of_int (2 ^ nat (bitlen n))" using b(2) by (simp only: of_int_less_iff)
  then show "(of_int n :: rat) < 2 powi bitlen n" using g by (simp add: power_int_def)
qed

lemma ilog2_bounds:
  assumes "0 < q"
  shows "2 powi ilog2 q \<le> q" "q < 2 powi (ilog2 q + 1)"
proof -
  obtain n d where nd: "quotient_of q = (n, d)" by fastforce
  have d: "0 < d" using nd by (rule quotient_of_denom_pos)
  have q: "q = of_int n / of_int d" using nd by (rule quotient_of_div)
  have n: "0 < n" using assms q d by (simp add: zero_less_divide_iff)
  let ?k = "bitlen n - bitlen d"
  note rn = bitlen_rat [OF n] and rd = bitlen_rat [OF d]
  have "(2::rat) powi (?k - 1) = 2 powi (bitlen n - 1) / 2 powi (bitlen d)"
    by (simp add: algebra_simps flip: power_int_diff)
  also have "\<dots> \<le> q" unfolding q using rn rd d n by (intro frac_le) auto
  finally have lo: "2 powi (?k - 1) \<le> q" .
  have "q < 2 powi (bitlen n) / 2 powi (bitlen d - 1)" unfolding q using rn rd n by (intro frac_less) auto
  also have "\<dots> = 2 powi (?k + 1)" by (simp add: algebra_simps flip: power_int_diff)
  finally have hi: "q < 2 powi (?k + 1)" .
  show "2 powi ilog2 q \<le> q" "q < 2 powi (ilog2 q + 1)"
    using lo hi nd by (auto simp: ilog2_def Let_def)
qed

lemma powi_less_iff: "(2::rat) powi a < 2 powi b \<longleftrightarrow> a < b"
  using power_int_strict_increasing [of a b "2::rat"] power_int_increasing [of b a "2::rat"]
  by (cases "a < b") auto

lemma ilog2_unique:
  assumes "2 powi k \<le> q" "q < 2 powi (k + 1)"
  shows "ilog2 q = k"
proof -
  have "0 < q" using assms(1) zero_less_power_int [of "2::rat" k] by linarith
  note b = ilog2_bounds [OF this]
  have "(2::rat) powi ilog2 q < 2 powi (k + 1)" "(2::rat) powi k < 2 powi (ilog2 q + 1)"
    using assms b by linarith+
  then show ?thesis by (simp add: powi_less_iff)
qed

lemma ilog2_mono:
  assumes "0 < x" "x \<le> y"
  shows "ilog2 x \<le> ilog2 y"
proof -
  have "(2::rat) powi ilog2 x < 2 powi (ilog2 y + 1)"
    using ilog2_bounds [of x] ilog2_bounds [of y] assms by linarith
  then show ?thesis by (simp add: powi_less_iff)
qed

lemma round_half_even_of_int [simp]: "round_half_even (of_int n) = n"
  by (simp add: round_half_even_def)

lemma round_half_even_bounds: "\<lfloor>q\<rfloor> \<le> round_half_even q" "round_half_even q \<le> \<lfloor>q\<rfloor> + 1"
  by (simp_all add: round_half_even_def Let_def)

lemma round_half_even_mono:
  assumes "x \<le> y"
  shows "round_half_even x \<le> round_half_even y"
proof (cases "\<lfloor>x\<rfloor> = \<lfloor>y\<rfloor>")
  case True
  then show ?thesis using assms by (simp add: round_half_even_def Let_def)
next
  case False
  then have "\<lfloor>x\<rfloor> + 1 \<le> \<lfloor>y\<rfloor>" using floor_mono [OF assms] by simp
  then show ?thesis using round_half_even_bounds [of x] round_half_even_bounds [of y] by linarith
qed

lemma round_pos_bounds:
  assumes "0 < q"
  shows "2 powi ilog2 q \<le> round_pos q" "round_pos q \<le> 2 powi (ilog2 q + 1)"
proof -
  let ?e = "ilog2 q - 52"
  have split: "(2::rat) powi ilog2 q = of_int (2 ^ 52) * 2 powi ?e" "(2::rat) powi (ilog2 q + 1) = of_int (2 ^ 53) * 2 powi ?e"
    by (simp_all add: power_int_diff power_int_add)
  have e: "0 < (2::rat) powi ?e" by simp
  have "of_int (2 ^ 52) \<le> q / 2 powi ?e" "q / 2 powi ?e \<le> of_int (2 ^ 53)"
    using ilog2_bounds [OF assms] e unfolding split by (simp_all add: field_simps)
  then have "2 ^ 52 \<le> round_half_even (q / 2 powi ?e)" "round_half_even (q / 2 powi ?e) \<le> 2 ^ 53"
    using round_half_even_mono round_half_even_of_int by metis+
  then have "(of_int (2 ^ 52) :: rat) \<le> of_int (round_half_even (q / 2 powi ?e))"
      "(of_int (round_half_even (q / 2 powi ?e)) :: rat) \<le> of_int (2 ^ 53)"
    by (simp_all only: of_int_le_iff)
  then show "2 powi ilog2 q \<le> round_pos q" "round_pos q \<le> 2 powi (ilog2 q + 1)"
    unfolding round_pos_def Let_def split using e by (auto intro: mult_right_mono)
qed

lemma round_pos_mono:
  assumes "0 < x" "x \<le> y"
  shows "round_pos x \<le> round_pos y"
proof (cases "ilog2 x = ilog2 y")
  case True
  let ?e = "ilog2 y - 52"
  have "round_half_even (x / 2 powi ?e) \<le> round_half_even (y / 2 powi ?e)"
    using assms(2) by (intro round_half_even_mono divide_right_mono) simp_all
  then show ?thesis unfolding round_pos_def Let_def True by (intro mult_right_mono) simp_all
next
  case False
  then have "ilog2 x + 1 \<le> ilog2 y" using ilog2_mono [OF assms] by simp
  then have "(2::rat) powi (ilog2 x + 1) \<le> 2 powi ilog2 y" by (intro power_int_increasing) simp_all
  then show ?thesis using round_pos_bounds(2) [OF assms(1)] round_pos_bounds(1) [of y] assms by linarith
qed

lemma float_round_int:
  assumes "0 \<le> n" "n < 2 ^ 53"
  shows "float_round (of_int n) = of_int n"
proof (cases "n = 0")
  case False
  then have n: "0 < (of_int n :: rat)" using assms(1) by simp
  let ?l = "ilog2 (of_int n)"
  have "(of_int n :: rat) < of_int (2 ^ 53)" using assms(2) by (simp only: of_int_less_iff)
  then have "(2::rat) powi ?l < 2 powi 53" using ilog2_bounds(1) [OF n] by simp
  then have l: "?l < 53" by (simp only: powi_less_iff)
  define m where "m = 52 - ?l"
  have m: "0 \<le> m" "?l - 52 = - m" using l by (simp_all add: m_def)
  have pm: "(2::rat) powi (- m) = 1 / 2 ^ nat m"
    using m(1) by (simp add: power_int_minus power_int_def power_one_over inverse_eq_divide)
  have "(of_int n :: rat) / 2 powi (- m) = of_int (n * 2 ^ nat m)" by (simp add: pm)
  then have "round_pos (of_int n) = of_int (n * 2 ^ nat m) * 2 powi (- m)"
    unfolding round_pos_def Let_def m(2) by (simp only: round_half_even_of_int)
  also have "\<dots> = of_int n" by (simp add: pm)
  finally show ?thesis using n by (simp add: float_round_def)
qed (simp add: float_round_def)

lemma float_round_mono: "0 \<le> x \<Longrightarrow> x \<le> y \<Longrightarrow> float_round x \<le> float_round y"
proof (cases "x = 0")
  case True
  assume "x \<le> y"
  moreover have "0 < round_pos y" if "0 < y"
    using round_pos_bounds(1) [OF that] zero_less_power_int [of "2::rat" "ilog2 y"] by linarith
  ultimately show ?thesis using True by (cases "y = 0") (auto simp: float_round_def)
next
  case False
  assume "0 \<le> x" "x \<le> y"
  then show ?thesis using False round_pos_mono [of x y] by (simp add: float_round_def)
qed

section \<open>The recommendation\<close>

abbreviation density_of :: "EpochScalingMetrics \<Rightarrow> ScalingPolicyConfig \<Rightarrow> float64" where
  "density_of metrics config \<equiv>
     float_div (float_of_int (mt_AcceptedRequestCount metrics))
       (float_of_int (wrap64 (mt_CurrentShardCount metrics * sp_TargetRowsPerShard config)))"

abbreviation shrink_target :: "int \<Rightarrow> int \<Rightarrow> int" where
  "shrink_target current multiplier \<equiv>
     float_ceil_int (float_div (float_of_int current) (float_of_int multiplier))"

lemma shrink_target_le:
  assumes "0 < c" "c < 2 ^ 53" "1 \<le> m" "m < 2 ^ 53"
  shows "shrink_target c m \<le> c"
proof -
  have r: "float_round (of_int c) = of_int c" "float_round (of_int m) = of_int m"
    using assms by (simp_all add: float_round_int)
  have m: "(1::rat) \<le> of_int m" using assms(3) by simp
  have c: "(0::rat) < of_int c" using assms(1) by simp
  have "(of_int c :: rat) * 1 \<le> of_int c * of_int m" using m c by (intro mult_left_mono) simp_all
  then have "(of_int c :: rat) / of_int m \<le> of_int c" using m by (simp add: field_simps)
  then have "float_round (of_int c / of_int m) \<le> of_int c"
    using float_round_mono [of "of_int c / of_int m" "of_int c"] r(1) m c by simp
  then show ?thesis using m r by (simp add: float_of_int_def ceiling_le_iff)
qed

lemma valid_policy:
  assumes "invalid_reason metrics config = None"
  shows "0 < mt_CurrentShardCount metrics" "0 \<le> mt_AcceptedRequestCount metrics" "0 < mt_DurationSeconds metrics"
    "0 < MinShards config" "MinShards config \<le> MaxShards config" "mt_CurrentShardCount metrics \<le> MaxShards config"
    "0 < sp_TargetRowsPerShard config" "1 \<le> MaxShardMultiplier config"
    "\<not> float_less (ScaleDownDensityThreshold config) (Fin 0)"
    "\<not> float_le (ScaleUpDensityThreshold config) (ScaleDownDensityThreshold config)"
  using assms by (simp_all add: invalid_reason_def split: if_splits)

text \<open>The four outcomes of the policy.\<close>

lemma scale_cases:
  assumes "invalid_reason metrics config = None"
  defines "c \<equiv> mt_CurrentShardCount metrics" and "r \<equiv> ComputeNextDatasetScale metrics config"
  obtains (keep) "rec_Action r = scalingActionKeep" "rec_RecommendedShardCount r = c"
      "\<not> has_prefix (rec_Reason r) ''invalid ''"
  | (grow) "float_le (ScaleUpDensityThreshold config) (density_of metrics config)"
      "rec_Action r = scalingActionGrow" "rec_RecommendedShardCount r \<noteq> c"
      "rec_RecommendedShardCount r = min (MaxShards config) (wrap64 (c * MaxShardMultiplier config))"
      "\<not> has_prefix (rec_Reason r) ''invalid ''"
  | (shrink) "float_le (density_of metrics config) (ScaleDownDensityThreshold config)"
      "rec_Action r = scalingActionShrink" "rec_RecommendedShardCount r \<noteq> c"
      "rec_RecommendedShardCount r = max (MinShards config) (shrink_target c (MaxShardMultiplier config))"
      "\<not> has_prefix (rec_Reason r) ''invalid ''"
proof -
  let ?d = "density_of metrics config"
  let ?up = "float_le (ScaleUpDensityThreshold config) ?d"
  let ?down = "float_le ?d (ScaleDownDensityThreshold config)"
  let ?g = "min (MaxShards config) (wrap64 (c * MaxShardMultiplier config))"
  let ?s = "max (MinShards config) (shrink_target c (MaxShardMultiplier config))"
  note unfolded = r_def ComputeNextDatasetScale_def assms(1) Let_def c_def has_prefix_def min_def max_def
  consider "?up \<and> ?g = c" | "?up \<and> ?g \<noteq> c" | "\<not> ?up \<and> ?down \<and> ?s = c" | "\<not> ?up \<and> ?down \<and> ?s \<noteq> c"
    | "\<not> ?up \<and> \<not> ?down" by blast
  then show ?thesis
  proof cases
    case 1
    then show ?thesis by (intro keep) (simp_all add: unfolded split: if_splits)
  next
    case 2
    then show ?thesis by (intro grow) (simp_all add: unfolded split: if_splits)
  next
    case 3
    then show ?thesis by (intro keep) (simp_all add: unfolded split: if_splits)
  next
    case 4
    then show ?thesis by (intro shrink) (simp_all add: unfolded split: if_splits)
  next
    case 5
    then show ?thesis by (intro keep) (simp_all add: unfolded)
  qed
qed

lemma scale_not_invalid:
  "invalid_reason metrics config = None \<Longrightarrow> \<not> has_prefix (rec_Reason (ComputeNextDatasetScale metrics config)) ''invalid ''"
  by (erule scale_cases) assumption+

lemma scale_invalid:
  assumes "invalid_reason metrics config = Some reason"
  shows "has_prefix (rec_Reason (ComputeNextDatasetScale metrics config)) ''invalid ''"
proof -
  have "rec_Reason (ComputeNextDatasetScale metrics config) = reason"
    using assms by (simp add: ComputeNextDatasetScale_def Let_def)
  moreover have "has_prefix reason ''invalid ''"
    using assms by (auto simp: invalid_reason_def has_prefix_def split: if_splits)
  ultimately show ?thesis by simp
qed

lemma resolve_valid:
  assumes "resolveScalingPolicyConfig c mn mx rows up down mul = Inr config"
  shows "\<exists>metrics. invalid_reason metrics config = None"
proof -
  obtain metrics where "\<not> has_prefix (rec_Reason (ComputeNextDatasetScale metrics config)) ''invalid ''"
    using assms unfolding resolveScalingPolicyConfig_def Let_def by (auto split: if_splits)
  then show ?thesis using scale_invalid by (metis not_Some_eq)
qed

section \<open>Properties\<close>

definition sample_policy :: ScalingPolicyConfig where
  "sample_policy = \<lparr>MinShards = 1, MaxShards = 6, sp_TargetRowsPerShard = int TABLE_HEIGHT,
     ScaleUpDensityThreshold = Fin 4, ScaleDownDensityThreshold = Fin 1, MaxShardMultiplier = 2\<rparr>"

definition sample_metrics :: "int \<Rightarrow> int \<Rightarrow> EpochScalingMetrics" where
  "sample_metrics c n = \<lparr>mt_EpochID = 1, mt_CurrentShardCount = c, mt_AcceptedRequestCount = n, mt_DurationSeconds = 60\<rparr>"

lemma sample_policy_valid:
  "0 < c \<Longrightarrow> c \<le> 6 \<Longrightarrow> 0 \<le> n \<Longrightarrow> invalid_reason (sample_metrics c n) sample_policy = None"
  by (simp add: invalid_reason_def sample_metrics_def sample_policy_def TABLE_HEIGHT_eq)

text \<open>An epoch without uploads has density zero.\<close>

lemma idle_density:
  assumes "mt_AcceptedRequestCount metrics = 0" "0 < mt_CurrentShardCount metrics * sp_TargetRowsPerShard config"
    "mt_CurrentShardCount metrics * sp_TargetRowsPerShard config < 2 ^ 53"
  shows "density_of metrics config = Fin 0"
proof -
  define rows where "rows = mt_CurrentShardCount metrics * sp_TargetRowsPerShard config"
  have rows: "0 < rows" "rows < 2 ^ 53" using assms(2,3) by (simp_all only: rows_def)
  then have "wrap64 rows = rows" by (intro wrap64_small) (simp_all add: max_int64_def)
  moreover have "float_round (of_int rows) = of_int rows" using rows by (intro float_round_int) simp_all
  ultimately show ?thesis using assms(1) rows(1) unfolding rows_def [symmetric]
    by (simp add: float_of_int_def float_round_def)
qed

text \<open>C38: The recommendation stays within the bounds. With valid metrics and policy, a current count of at
  least the minimum, and products and counts that fit, the recommended count lies between the minimum
  and the maximum; \<^verbatim>\<open>grow\<close> strictly raises it, by at most the multiplier; \<^verbatim>\<open>shrink\<close> strictly lowers it;
  \<^verbatim>\<open>keep\<close> leaves it.
\<close>

theorem recommendation_within_bounds:
  assumes "invalid_reason metrics config = None"
    and "MinShards config \<le> mt_CurrentShardCount metrics" "mt_CurrentShardCount metrics < 2 ^ 53"
    and "MaxShardMultiplier config < 2 ^ 53"
    and "mt_CurrentShardCount metrics * MaxShardMultiplier config \<le> max_int64"
  shows "let r = ComputeNextDatasetScale metrics config; c = mt_CurrentShardCount metrics;
             n = rec_RecommendedShardCount r
         in MinShards config \<le> n \<and> n \<le> MaxShards config \<and>
            (rec_Action r = scalingActionKeep \<and> n = c \<or>
             rec_Action r = scalingActionGrow \<and> c < n \<and> n \<le> c * MaxShardMultiplier config \<or>
             rec_Action r = scalingActionShrink \<and> n < c)"
proof -
  note v = valid_policy [OF assms(1)]
  define c m p where "c = mt_CurrentShardCount metrics" and "m = MaxShardMultiplier config" and "p = c * m"
  have "c * 1 \<le> c * m" using v(1,8) unfolding c_def m_def by (intro mult_left_mono) simp_all
  then have p: "c \<le> p" by (simp add: p_def)
  have w: "wrap64 p = p" using p assms(5) v(1) by (intro wrap64_small) (simp_all add: p_def c_def m_def)
  have s: "shrink_target c m \<le> c" using shrink_target_le assms(3,4) v(1,8) by (simp add: c_def m_def)
  show ?thesis unfolding Let_def c_def [symmetric] m_def [symmetric] p_def [symmetric]
    by (rule scale_cases [OF assms(1), folded c_def m_def, folded p_def])
      (use v(4-6) [folded c_def] w s p assms(2) [folded c_def] in auto)
qed

theorem recommendation_within_bounds_witness:
  "MinShards sample_policy \<le> rec_RecommendedShardCount (ComputeNextDatasetScale (sample_metrics 4 0) sample_policy)"
  using recommendation_within_bounds [of "sample_metrics 4 0" sample_policy] sample_policy_valid [of 4 0]
  by (simp add: Let_def sample_metrics_def sample_policy_def max_int64_def)

text \<open>Two recommendations that contradict their action. When the current count is below the configured
  minimum, a quiet epoch yields \<^verbatim>\<open>shrink\<close> with a count that is larger than the current one. When
  the product of the count and the multiplier overflows, a busy epoch yields \<^verbatim>\<open>grow\<close> with a
  negative count.
\<close>

theorem recommendation_wrong_direction:
  assumes "invalid_reason metrics config = None"
  shows "(mt_CurrentShardCount metrics < MinShards config \<and>
      \<not> float_le (ScaleUpDensityThreshold config) (density_of metrics config) \<and>
      float_le (density_of metrics config) (ScaleDownDensityThreshold config) \<longrightarrow>
        rec_Action (ComputeNextDatasetScale metrics config) = scalingActionShrink \<and>
        mt_CurrentShardCount metrics < rec_RecommendedShardCount (ComputeNextDatasetScale metrics config)) \<and>
    (wrap64 (mt_CurrentShardCount metrics * MaxShardMultiplier config) < 0 \<and>
      float_le (ScaleUpDensityThreshold config) (density_of metrics config) \<longrightarrow>
        rec_Action (ComputeNextDatasetScale metrics config) = scalingActionGrow \<and>
        rec_RecommendedShardCount (ComputeNextDatasetScale metrics config) < 0)"
  using valid_policy [OF assms] assms
  by (auto simp: ComputeNextDatasetScale_def Let_def)

theorem recommendation_wrong_direction_witness:
  "rec_Action (ComputeNextDatasetScale (sample_metrics 2 0) (sample_policy\<lparr>MinShards := 4\<rparr>)) = scalingActionShrink \<and>
   2 < rec_RecommendedShardCount (ComputeNextDatasetScale (sample_metrics 2 0) (sample_policy\<lparr>MinShards := 4\<rparr>))"
proof -
  let ?m = "sample_metrics 2 0" and ?p = "sample_policy\<lparr>MinShards := 4\<rparr>"
  have v: "invalid_reason ?m ?p = None"
    by (simp add: invalid_reason_def sample_metrics_def sample_policy_def TABLE_HEIGHT_eq)
  have "density_of ?m ?p = Fin 0"
    by (rule idle_density) (simp_all add: sample_metrics_def sample_policy_def TABLE_HEIGHT_eq)
  moreover have "mt_CurrentShardCount ?m = 2" "MinShards ?p = 4" "ScaleUpDensityThreshold ?p = Fin 4"
      "ScaleDownDensityThreshold ?p = Fin 1" by (simp_all add: sample_metrics_def sample_policy_def)
  ultimately show ?thesis using recommendation_wrong_direction [OF v] by simp
qed

text \<open>A policy that start-up accepts stays usable: for every epoch with a positive duration, a
  non-negative number of uploads and a shard count up to the maximum, the policy is not refused.
\<close>

theorem resolved_policy_usable:
  assumes "resolveScalingPolicyConfig c mn mx rows up down mul = Inr config"
    and "0 < mt_CurrentShardCount metrics" "mt_CurrentShardCount metrics \<le> MaxShards config"
    and "0 \<le> mt_AcceptedRequestCount metrics" "0 < mt_DurationSeconds metrics"
  shows "\<not> has_prefix (rec_Reason (ComputeNextDatasetScale metrics config)) ''invalid ''"
proof -
  obtain m0 where "invalid_reason m0 config = None" using resolve_valid [OF assms(1)] by blast
  note v = valid_policy [OF this]
  have "invalid_reason metrics config = None" using v assms(2-5) by (simp add: invalid_reason_def)
  then show ?thesis by (rule scale_not_invalid)
qed

lemma resolve_sample: "resolveScalingPolicyConfig 2 1 6 0 (Fin 4) (Fin 1) 2 = Inr sample_policy"
proof -
  have w: "wrap64 (wrap64 (2 * int TABLE_HEIGHT) * 2) = 1024" by (simp add: TABLE_HEIGHT_eq wrap64_def)
  have "invalid_reason \<lparr>mt_EpochID = 0, mt_CurrentShardCount = 2, mt_AcceptedRequestCount = 1024,
      mt_DurationSeconds = 1\<rparr> sample_policy = None"
    by (simp add: invalid_reason_def sample_policy_def TABLE_HEIGHT_eq)
  then show ?thesis using scale_not_invalid w unfolding resolveScalingPolicyConfig_def
    by (simp add: Let_def sample_policy_def)
qed

theorem resolved_policy_usable_witness:
  "\<not> has_prefix (rec_Reason (ComputeNextDatasetScale (sample_metrics 6 100) sample_policy)) ''invalid ''"
  using resolved_policy_usable [OF resolve_sample, of "sample_metrics 6 100"]
  by (simp add: sample_metrics_def sample_policy_def)

end
