(* ===== verification/Control_Store.thy ===== *)
theory Control_Store
  imports Scaling_Policy
begin

text \<open>
  The control store (\<^verbatim>\<open>src/controlstore\<close>): the coordinator lease with its fencing token, the current
  epoch, the shard configuration, scaling recommendations and the epoch cycle, with the in-memory
  implementation of \<^verbatim>\<open>memory.go\<close>. The mutex makes every operation one step; \<open>clock\<close> is what \<^verbatim>\<open>time.Now\<close>
  returns. Copying a slice on the way in and out means that the stored value never changes
  underneath, which is what a HOL value is.

  The lease operations are an interface of their own (locale \<open>lease_store\<close>), with the in-memory store
  as its instance; the mutual-exclusion and fencing lemmas are proved once in the locale.

  Shown here: while a lease is valid every other holder is refused and changes nothing; over any
  sequence of calls a fencing token belongs to one holder, tokens never decrease, and a holder whose
  token was overtaken can never renew again; a shard map or a recommendation stored for an epoch is
  never replaced; the epoch cycle follows its transition table and is never stuck.
\<close>

section \<open>Data\<close>

definition errLeaseHeld :: go_error where "errLeaseHeld = Sentinel ''coordinator lease is held''"
definition errLeaseNotHeld :: go_error where "errLeaseNotHeld = Sentinel ''coordinator lease is not held''"
definition errStaleFence :: go_error where "errStaleFence = Sentinel ''stale coordinator fencing token''"
definition errEpochMismatch :: go_error where "errEpochMismatch = Sentinel ''epoch mismatch''"
definition errEpochCycleTransition :: go_error where
  "errEpochCycleTransition = Sentinel ''invalid epoch cycle transition''"

definition EpochCycleStateIdle :: string where "EpochCycleStateIdle = ''idle''"
definition EpochCycleStateActive :: string where "EpochCycleStateActive = ''active''"
definition EpochCycleStateCompleted :: string where "EpochCycleStateCompleted = ''completed''"
definition EpochCycleStateRecommendationReady :: string where
  "EpochCycleStateRecommendationReady = ''recommendation_ready''"
definition EpochCycleStateScalingInProgress :: string where
  "EpochCycleStateScalingInProgress = ''scaling_in_progress''"
definition EpochCycleStateScalingApplied :: string where "EpochCycleStateScalingApplied = ''scaling_applied''"
definition EpochCycleStateScalingSkipped :: string where "EpochCycleStateScalingSkipped = ''scaling_skipped''"
definition EpochCycleStateReadyForNextEpoch :: string where
  "EpochCycleStateReadyForNextEpoch = ''ready_for_next_epoch''"
definition EpochCycleStateFailed :: string where "EpochCycleStateFailed = ''failed''"

lemmas cycle_states = EpochCycleStateIdle_def EpochCycleStateActive_def EpochCycleStateCompleted_def
  EpochCycleStateRecommendationReady_def EpochCycleStateScalingInProgress_def EpochCycleStateScalingApplied_def
  EpochCycleStateScalingSkipped_def EpochCycleStateReadyForNextEpoch_def EpochCycleStateFailed_def

record CoordinatorLease =
  Holder :: string
  FencingToken :: int
  ExpiresAt :: gotime

record ScalingRecommendationRecord =
  sg_Key :: string
  sg_EpochID :: int
  sg_AcceptedRequestCount :: int
  sg_DurationSeconds :: int
  sg_CurrentShardCount :: int
  sg_RecommendedShardCount :: int
  sg_TargetRowsPerShard :: int
  sg_RequestDensity :: float64
  sg_Action :: string
  sg_Reason :: string
  sg_ProposedGlobalTableHeight :: int
  sg_ShardConfigVersion :: int
  sg_CreatedAt :: gotime

record EpochCycleRecord =
  cy_State :: string
  cy_EpochID :: int
  cy_ShardConfigVersion :: int
  cy_ScalingRecommendationEpochID :: int
  cy_Reason :: string
  cy_CreatedAt :: gotime
  cy_UpdatedAt :: gotime

record MemoryControlStore =
  mc_lease :: CoordinatorLease
  mc_hasLease :: bool
  lastFencingToken :: int
  mc_epoch :: EpochMeta
  mc_hasEpoch :: bool
  mc_accepting :: bool
  mc_shardConfig :: ShardConfigRecord
  mc_hasShardConfig :: bool
  mc_epochShardConfig :: "int \<rightharpoonup> ShardConfigRecord"
  scalingByEpoch :: "int \<rightharpoonup> ScalingRecommendationRecord"
  latestScaling :: ScalingRecommendationRecord
  hasLatestScaling :: bool
  mc_epochCycle :: EpochCycleRecord
  hasEpochCycle :: bool

text \<open>Go's zero values of the struct types.\<close>

definition zero_coordinator_lease :: CoordinatorLease where
  "zero_coordinator_lease = \<lparr>Holder = '''', FencingToken = 0, ExpiresAt = zero_time\<rparr>"

definition zero_config :: ShardConfigRecord where
  "zero_config = \<lparr>cfg_Key = '''', cfg_Version = 0, ShardCount = 0, RowsPerShard = 0, GlobalTableHeight = 0, Shards = []\<rparr>"

definition zero_scaling :: ScalingRecommendationRecord where
  "zero_scaling = \<lparr>sg_Key = '''', sg_EpochID = 0, sg_AcceptedRequestCount = 0, sg_DurationSeconds = 0,
     sg_CurrentShardCount = 0, sg_RecommendedShardCount = 0, sg_TargetRowsPerShard = 0, sg_RequestDensity = Fin 0,
     sg_Action = '''', sg_Reason = '''', sg_ProposedGlobalTableHeight = 0, sg_ShardConfigVersion = 0,
     sg_CreatedAt = zero_time\<rparr>"

definition zero_cycle :: EpochCycleRecord where
  "zero_cycle = \<lparr>cy_State = '''', cy_EpochID = 0, cy_ShardConfigVersion = 0, cy_ScalingRecommendationEpochID = 0,
     cy_Reason = '''', cy_CreatedAt = zero_time, cy_UpdatedAt = zero_time\<rparr>"

text \<open>\<^verbatim>\<open>db.EpochMeta{}\<close>: the zero state is \<^verbatim>\<open>EpochStateNoActive\<close>.\<close>

definition NewMemoryControlStore :: MemoryControlStore where
  "NewMemoryControlStore = \<lparr>mc_lease = zero_coordinator_lease, mc_hasLease = False, lastFencingToken = 0,
     mc_epoch = no_epoch, mc_hasEpoch = False, mc_accepting = False, mc_shardConfig = zero_config,
     mc_hasShardConfig = False, mc_epochShardConfig = Map.empty, scalingByEpoch = Map.empty,
     latestScaling = zero_scaling, hasLatestScaling = False, mc_epochCycle = zero_cycle, hasEpochCycle = False\<rparr>"

section \<open>The lease\<close>

definition AcquireLease ::
  "gotime \<Rightarrow> string \<Rightarrow> duration \<Rightarrow> MemoryControlStore \<Rightarrow> CoordinatorLease res \<times> MemoryControlStore" where
  "AcquireLease now holder ttl s =
     (if holder = '''' then (Inl (ErrorString ''lease holder is required''), s)
      else if ttl \<le> 0 then (Inl (ErrorString ''lease ttl must be positive''), s)
      else if mc_hasLease s \<and> Before now (ExpiresAt (mc_lease s))
      then if Holder (mc_lease s) \<noteq> holder then (Inl errLeaseHeld, s)
           else let lease = (mc_lease s)\<lparr>ExpiresAt := now + ttl\<rparr> in (Inr lease, s\<lparr>mc_lease := lease\<rparr>)
      else let token = lastFencingToken s + 1;
               lease = \<lparr>Holder = holder, FencingToken = token, ExpiresAt = now + ttl\<rparr>
           in (Inr lease, s\<lparr>lastFencingToken := token, mc_lease := lease, mc_hasLease := True\<rparr>))"

definition RenewLease ::
  "gotime \<Rightarrow> string \<Rightarrow> int \<Rightarrow> duration \<Rightarrow> MemoryControlStore \<Rightarrow> CoordinatorLease res \<times> MemoryControlStore" where
  "RenewLease now holder fencingToken ttl s =
     (if ttl \<le> 0 then (Inl (ErrorString ''lease ttl must be positive''), s)
      else if \<not> mc_hasLease s \<or> \<not> Before now (ExpiresAt (mc_lease s)) then (Inl errLeaseNotHeld, s)
      else if Holder (mc_lease s) \<noteq> holder \<or> FencingToken (mc_lease s) \<noteq> fencingToken then (Inl errStaleFence, s)
      else let lease = (mc_lease s)\<lparr>ExpiresAt := now + ttl\<rparr> in (Inr lease, s\<lparr>mc_lease := lease\<rparr>))"

definition CurrentLease :: "gotime \<Rightarrow> MemoryControlStore \<Rightarrow> CoordinatorLease option" where
  "CurrentLease now s =
     (if \<not> mc_hasLease s \<or> \<not> Before now (ExpiresAt (mc_lease s)) then None else Some (mc_lease s))"

section \<open>The epoch\<close>

definition store_StartEpoch :: "EpochMeta \<Rightarrow> int \<Rightarrow> MemoryControlStore \<Rightarrow> unit res \<times> MemoryControlStore" where
  "store_StartEpoch ep shardConfigVersion s =
     (if ep_ID ep \<le> 0 then (Inl (ErrorString ''epoch id must be positive''), s)
      else let s = s\<lparr>mc_epoch := ep, mc_hasEpoch := True, mc_accepting := ep_State ep = EpochStateActive\<rparr>
           in (Inr (), if mc_hasShardConfig s
                       then s\<lparr>mc_shardConfig := (mc_shardConfig s)\<lparr>cfg_Version := shardConfigVersion\<rparr>\<rparr> else s))"

definition store_CompleteEpoch :: "int \<Rightarrow> MemoryControlStore \<Rightarrow> EpochMeta res \<times> MemoryControlStore" where
  "store_CompleteEpoch epochID s =
     (if \<not> mc_hasEpoch s \<or> ep_ID (mc_epoch s) \<noteq> epochID then (Inl errEpochMismatch, s)
      else let ep = (mc_epoch s)\<lparr>ep_State := EpochStateCompleted\<rparr>
           in (Inr ep, s\<lparr>mc_epoch := ep, mc_accepting := False\<rparr>))"

definition store_CurrentEpoch :: "MemoryControlStore \<Rightarrow> EpochMeta option" where
  "store_CurrentEpoch s = (if \<not> mc_hasEpoch s then None else Some (mc_epoch s))"

definition SetAccepting :: "int \<Rightarrow> bool \<Rightarrow> MemoryControlStore \<Rightarrow> unit res \<times> MemoryControlStore" where
  "SetAccepting epochID b s =
     (if \<not> mc_hasEpoch s \<or> ep_ID (mc_epoch s) \<noteq> epochID then (Inl errEpochMismatch, s)
      else (Inr (), s\<lparr>mc_accepting := b\<rparr>))"

definition Accepting :: "int \<Rightarrow> MemoryControlStore \<Rightarrow> bool res" where
  "Accepting epochID s =
     (if \<not> mc_hasEpoch s \<or> ep_ID (mc_epoch s) \<noteq> epochID then Inl errEpochMismatch else Inr (mc_accepting s))"

section \<open>Shard configurations\<close>

definition GetShardConfig :: "MemoryControlStore \<Rightarrow> ShardConfigRecord option" where
  "GetShardConfig s = (if \<not> mc_hasShardConfig s then None else Some (mc_shardConfig s))"

definition PutShardConfig :: "ShardConfigRecord \<Rightarrow> MemoryControlStore \<Rightarrow> unit res \<times> MemoryControlStore" where
  "PutShardConfig config s =
     (case store_validateShardConfigRecord config of
        Inl err \<Rightarrow> (Inl err, s)
      | Inr _ \<Rightarrow>
          if mc_hasShardConfig s \<and> cfg_Version config < cfg_Version (mc_shardConfig s)
          then (Inl (ErrorString ''stale shard config version''), s)
          else (Inr (), s\<lparr>mc_shardConfig := config, mc_hasShardConfig := True\<rparr>))"

definition GetEpochShardConfig :: "int \<Rightarrow> MemoryControlStore \<Rightarrow> ShardConfigRecord option" where
  "GetEpochShardConfig epochID s = mc_epochShardConfig s epochID"

definition PutEpochShardConfig :: "int \<Rightarrow> ShardConfigRecord \<Rightarrow> MemoryControlStore \<Rightarrow> unit res \<times> MemoryControlStore" where
  "PutEpochShardConfig epochID config s =
     (if epochID \<le> 0 then (Inl (ErrorString ''epoch id must be positive''), s)
      else let config = config\<lparr>cfg_Key := epochShardConfigKey epochID\<rparr> in
        case store_validateShardConfigRecord config of
          Inl err \<Rightarrow> (Inl err, s)
        | Inr _ \<Rightarrow>
            (case mc_epochShardConfig s epochID of
               Some existing \<Rightarrow>
                 if \<not> shardConfigRecordsEqual existing config
                 then (Inl (ErrorString ''epoch shard config already exists with different config''), s)
                 else (Inr (), s)
             | None \<Rightarrow> (Inr (), s\<lparr>mc_epochShardConfig := (mc_epochShardConfig s)(epochID \<mapsto> config)\<rparr>)))"

section \<open>Scaling recommendations\<close>

definition latestScalingRecommendationKey :: string where "latestScalingRecommendationKey = ''scaling#latest''"

definition epochScalingRecommendationKey :: "int \<Rightarrow> string" where
  "epochScalingRecommendationKey epochID = ''scaling#epoch#'' @ show_int epochID"

definition validateScalingRecommendationRecord :: "ScalingRecommendationRecord \<Rightarrow> unit res" where
  "validateScalingRecommendationRecord record =
     (if sg_EpochID record \<le> 0 then Inl (ErrorString ''scaling recommendation epoch id must be positive'')
      else if sg_AcceptedRequestCount record < 0
      then Inl (ErrorString ''scaling recommendation accepted request count must be non-negative'')
      else if sg_DurationSeconds record \<le> 0
      then Inl (ErrorString ''scaling recommendation duration must be positive'')
      else if sg_CurrentShardCount record \<le> 0
      then Inl (ErrorString ''scaling recommendation current shard count must be positive'')
      else if sg_RecommendedShardCount record \<le> 0
      then Inl (ErrorString ''scaling recommendation recommended shard count must be positive'')
      else if sg_TargetRowsPerShard record \<le> 0
      then Inl (ErrorString ''scaling recommendation target rows per shard must be positive'')
      else if sg_RequestDensity record = NaN \<or> sg_RequestDensity record \<in> {PosInf, NegInf} \<or>
              float_less (sg_RequestDensity record) (Fin 0)
      then Inl (ErrorString ''scaling recommendation request density must be finite and non-negative'')
      else if sg_Action record \<noteq> scalingActionGrow \<and> sg_Action record \<noteq> scalingActionShrink \<and>
              sg_Action record \<noteq> scalingActionKeep
      then Inl (ErrorString (''unknown scaling recommendation action '' @ quoted (sg_Action record)))
      else if sg_ProposedGlobalTableHeight record
                \<noteq> wrap64 (sg_RecommendedShardCount record * sg_TargetRowsPerShard record)
      then Inl (ErrorString (''scaling recommendation proposed global table height=''
             @ show_int (sg_ProposedGlobalTableHeight record) @ '', want ''
             @ show_int (wrap64 (sg_RecommendedShardCount record * sg_TargetRowsPerShard record))))
      else if sg_ShardConfigVersion record \<le> 0
      then Inl (ErrorString ''scaling recommendation shard config version must be positive'')
      else Inr ())"

text \<open>Struct comparison: NaN differs from itself.\<close>

definition scalingRecommendationRecordsEqual ::
  "ScalingRecommendationRecord \<Rightarrow> ScalingRecommendationRecord \<Rightarrow> bool" where
  "scalingRecommendationRecordsEqual a b \<longleftrightarrow>
     a\<lparr>sg_Key := ''''\<rparr> = b\<lparr>sg_Key := ''''\<rparr> \<and> sg_RequestDensity a \<noteq> NaN"

definition stamp_scaling :: "gotime \<Rightarrow> ScalingRecommendationRecord \<Rightarrow> ScalingRecommendationRecord" where
  "stamp_scaling clock record =
     (let record = record\<lparr>sg_Key := epochScalingRecommendationKey (sg_EpochID record)\<rparr>
      in if IsZero (sg_CreatedAt record) then record\<lparr>sg_CreatedAt := clock\<rparr> else record)"

definition publish_scaling :: "ScalingRecommendationRecord \<Rightarrow> MemoryControlStore \<Rightarrow> MemoryControlStore" where
  "publish_scaling record s =
     (let latest = record\<lparr>sg_Key := latestScalingRecommendationKey\<rparr>
      in if \<not> hasLatestScaling s \<or> sg_EpochID record \<ge> sg_EpochID (latestScaling s)
         then s\<lparr>latestScaling := latest, hasLatestScaling := True\<rparr> else s)"

definition PutScalingRecommendation ::
  "gotime \<Rightarrow> ScalingRecommendationRecord \<Rightarrow> MemoryControlStore \<Rightarrow> unit res \<times> MemoryControlStore" where
  "PutScalingRecommendation clock record s =
     (case validateScalingRecommendationRecord record of
        Inl err \<Rightarrow> (Inl err, s)
      | Inr _ \<Rightarrow>
        let record = stamp_scaling clock record
        in case scalingByEpoch s (sg_EpochID record) of
             Some existing \<Rightarrow>
               if \<not> scalingRecommendationRecordsEqual existing record
               then (Inl (ErrorString ''scaling recommendation already exists with different record''), s)
               else (Inr (), publish_scaling record s)
           | None \<Rightarrow>
               (Inr (), publish_scaling record
                  (s\<lparr>scalingByEpoch := (scalingByEpoch s)(sg_EpochID record \<mapsto> record)\<rparr>)))"

definition GetLatestScalingRecommendation :: "MemoryControlStore \<Rightarrow> ScalingRecommendationRecord option" where
  "GetLatestScalingRecommendation s = (if \<not> hasLatestScaling s then None else Some (latestScaling s))"

definition GetEpochScalingRecommendation :: "int \<Rightarrow> MemoryControlStore \<Rightarrow> ScalingRecommendationRecord option" where
  "GetEpochScalingRecommendation epochID s = scalingByEpoch s epochID"

section \<open>The epoch cycle\<close>

definition normalizeEpochCycleState :: "string \<Rightarrow> string" where
  "normalizeEpochCycleState state = (if state = '''' then EpochCycleStateIdle else state)"

definition validEpochCycleState :: "string \<Rightarrow> bool" where
  "validEpochCycleState state \<longleftrightarrow> state \<in> {EpochCycleStateIdle, EpochCycleStateActive, EpochCycleStateCompleted,
     EpochCycleStateRecommendationReady, EpochCycleStateScalingInProgress, EpochCycleStateScalingApplied,
     EpochCycleStateScalingSkipped, EpochCycleStateReadyForNextEpoch, EpochCycleStateFailed}"

definition validEpochCycleTransition :: "string \<Rightarrow> string \<Rightarrow> bool" where
  "validEpochCycleTransition from to =
     (let from = normalizeEpochCycleState from in
      if \<not> validEpochCycleState from \<or> \<not> validEpochCycleState to then False
      else if from = to then True
      else if from \<in> {EpochCycleStateIdle, EpochCycleStateScalingApplied, EpochCycleStateScalingSkipped,
                      EpochCycleStateReadyForNextEpoch}
      then to = EpochCycleStateActive
      else if from = EpochCycleStateActive
      then to = EpochCycleStateCompleted \<or> to = EpochCycleStateRecommendationReady \<or> to = EpochCycleStateFailed
      else if from = EpochCycleStateCompleted
      then to = EpochCycleStateRecommendationReady \<or> to = EpochCycleStateFailed
      else if from = EpochCycleStateRecommendationReady
      then to = EpochCycleStateScalingInProgress \<or> to = EpochCycleStateFailed
      else if from = EpochCycleStateScalingInProgress
      then to = EpochCycleStateScalingApplied \<or> to = EpochCycleStateScalingSkipped \<or> to = EpochCycleStateFailed
      else if from = EpochCycleStateFailed then to = EpochCycleStateReadyForNextEpoch
      else False)"

definition validateEpochCycleTransition :: "string \<Rightarrow> string \<Rightarrow> unit res" where
  "validateEpochCycleTransition from to =
     (if \<not> validEpochCycleTransition from to
      then Inl (Wrapped '''' errEpochCycleTransition ('': '' @ normalizeEpochCycleState from @ '' -> '' @ to))
      else Inr ())"

definition prepareEpochCycleRecord ::
  "gotime \<Rightarrow> string \<Rightarrow> string \<Rightarrow> EpochCycleRecord \<Rightarrow> EpochCycleRecord \<Rightarrow> bool \<Rightarrow> EpochCycleRecord res" where
  "prepareEpochCycleRecord clock from to update existing hasExisting =
     (case validateEpochCycleTransition from to of
        Inl err \<Rightarrow> Inl err
      | Inr _ \<Rightarrow>
        let record = update\<lparr>cy_State := to\<rparr>;
            record = (if IsZero (cy_CreatedAt record)
                      then record\<lparr>cy_CreatedAt := (if hasExisting \<and> \<not> IsZero (cy_CreatedAt existing)
                                                   then cy_CreatedAt existing else clock)\<rparr>
                      else record)
        in Inr (if IsZero (cy_UpdatedAt record) then record\<lparr>cy_UpdatedAt := clock\<rparr> else record))"

definition GetEpochCycle :: "MemoryControlStore \<Rightarrow> EpochCycleRecord option" where
  "GetEpochCycle s = (if \<not> hasEpochCycle s then None else Some (mc_epochCycle s))"

definition PutEpochCycleTransition ::
  "gotime \<Rightarrow> string \<Rightarrow> string \<Rightarrow> EpochCycleRecord \<Rightarrow> MemoryControlStore \<Rightarrow> unit res \<times> MemoryControlStore" where
  "PutEpochCycleTransition clock from to update s =
     (let from = normalizeEpochCycleState from;
          current = (if hasEpochCycle s then cy_State (mc_epochCycle s) else EpochCycleStateIdle)
      in if current \<noteq> from
         then (Inl (Wrapped '''' errEpochCycleTransition ('': current state '' @ current @ '', expected '' @ from)), s)
         else case prepareEpochCycleRecord clock from to update (mc_epochCycle s) (hasEpochCycle s) of
           Inl err \<Rightarrow> (Inl err, s)
         | Inr record \<Rightarrow> (Inr (), s\<lparr>mc_epochCycle := record, hasEpochCycle := True\<rparr>))"

section \<open>The lease interface\<close>

datatype 'o lease_call =
    CallAcquire gotime string duration
  | CallRenew gotime string int duration
  | CallOther 'o

primrec call_time :: "'o lease_call \<Rightarrow> gotime option" where
  "call_time (CallAcquire t h d) = Some t"
| "call_time (CallRenew t h k d) = Some t"
| "call_time (CallOther x) = None"

primrec call_holder :: "'o lease_call \<Rightarrow> string option" where
  "call_holder (CallAcquire t h d) = Some h"
| "call_holder (CallRenew t h k d) = Some h"
| "call_holder (CallOther x) = None"

text \<open>\<open>stored\<close> is the lease granted last, valid or expired; \<open>other\<close> is any operation of the store that does
  not concern the lease; \<open>expiry t d\<close> is when a lease granted at \<open>t\<close> for \<open>d\<close> ends (a store may keep less than nanoseconds).
  A call that fails may have taken effect all the same: over a network the answer can be lost. Nothing is
  said about what the store returns to a reader, nor about the lease that a successful call reports:
  \<open>reporting_lease_store\<close> adds that it is the one stored.\<close>

locale lease_store =
  fixes acquire :: "gotime \<Rightarrow> string \<Rightarrow> duration \<Rightarrow> 's \<Rightarrow> CoordinatorLease res \<times> 's"
    and renew :: "gotime \<Rightarrow> string \<Rightarrow> int \<Rightarrow> duration \<Rightarrow> 's \<Rightarrow> CoordinatorLease res \<times> 's"
    and other :: "'o \<Rightarrow> 's \<Rightarrow> 's"
    and inv :: "'s \<Rightarrow> bool"
    and stored :: "'s \<Rightarrow> CoordinatorLease option"
    and expiry :: "gotime \<Rightarrow> duration \<Rightarrow> gotime"
  assumes acquire_inv: "inv s \<Longrightarrow> inv (snd (acquire t h d s))"
    and renew_inv: "inv s \<Longrightarrow> inv (snd (renew t h k d s))"
    and other_inv: "inv s \<Longrightarrow> inv (other x s)"
    and other_stored: "inv s \<Longrightarrow> stored (other x s) = stored s"
    and acquire_effect: "inv s \<Longrightarrow> acquire t h d s = (q, s') \<Longrightarrow>
          isl q \<and> stored s' = stored s \<or>
          (\<exists>L. stored s' = Some L \<and> Holder L = h \<and> ExpiresAt L = expiry t d \<and>
             (\<forall>M. stored s = Some M \<longrightarrow> (ExpiresAt M \<le> t \<or> Holder M = h) \<and>
                (FencingToken M < FencingToken L \<or> FencingToken M = FencingToken L \<and> Holder M = h)))"
    and renew_effect: "inv s \<Longrightarrow> renew t h k d s = (q, s') \<Longrightarrow>
          isl q \<and> stored s' = stored s \<or>
          (\<exists>M. stored s = Some M \<and> t < ExpiresAt M \<and> Holder M = h \<and> FencingToken M = k \<and>
             stored s' = Some (M\<lparr>ExpiresAt := expiry t d\<rparr>))"
begin

primrec perform :: "'o lease_call \<Rightarrow> 's \<Rightarrow> CoordinatorLease option \<times> 's" where
  "perform (CallAcquire t h d) s = (case acquire t h d s of (Inl e, s') \<Rightarrow> (None, s') | (Inr L, s') \<Rightarrow> (Some L, s'))"
| "perform (CallRenew t h k d) s = (case renew t h k d s of (Inl e, s') \<Rightarrow> (None, s') | (Inr L, s') \<Rightarrow> (Some L, s'))"
| "perform (CallOther x) s = (None, other x s)"

text \<open>The leases granted by a sequence of calls, in order, and the state after it.\<close>

primrec grants :: "'o lease_call list \<Rightarrow> 's \<Rightarrow> CoordinatorLease list" where
  "grants [] s = []"
| "grants (c # cs) s = (case perform c s of (None, s') \<Rightarrow> grants cs s' | (Some L, s') \<Rightarrow> L # grants cs s')"

primrec after :: "'o lease_call list \<Rightarrow> 's \<Rightarrow> 's" where
  "after [] s = s"
| "after (c # cs) s = after cs (snd (perform c s))"

lemma perform_inv: "inv s \<Longrightarrow> inv (snd (perform c s))"
proof (cases c)
  case (CallAcquire t h d)
  then show "inv s \<Longrightarrow> ?thesis" using acquire_inv [of s t h d] by (auto split: sum.splits prod.splits)
next
  case (CallRenew t h k d)
  then show "inv s \<Longrightarrow> ?thesis" using renew_inv [of s t h k d] by (auto split: sum.splits prod.splits)
next
  case (CallOther x)
  then show "inv s \<Longrightarrow> ?thesis" by (simp add: other_inv)
qed

text \<open>A call changes nothing, or stores a lease of its caller that does not overtake a valid one of somebody else.\<close>

lemma perform_effect:
  assumes "inv s" "perform c s = (g, s')"
  shows "g = None \<and> stored s' = stored s \<or>
     (\<exists>L. stored s' = Some L \<and> call_holder c = Some (Holder L) \<and>
        (\<forall>M. stored s = Some M \<longrightarrow> (Holder M = Holder L \<or> (\<exists>t. call_time c = Some t \<and> ExpiresAt M \<le> t)) \<and>
           (FencingToken M < FencingToken L \<or> FencingToken M = FencingToken L \<and> Holder M = Holder L)))"
proof (cases c)
  case (CallAcquire t h d)
  obtain q s1 where q: "acquire t h d s = (q, s1)" by fastforce
  have g: "s' = s1" "g = (case q of Inl e \<Rightarrow> None | Inr L \<Rightarrow> Some L)"
    using assms(2) q by (auto simp: CallAcquire split: sum.splits)
  from acquire_effect [OF assms(1) q] consider "isl q" "stored s1 = stored s"
    | L where "stored s1 = Some L" "Holder L = h"
        "\<forall>M. stored s = Some M \<longrightarrow> (ExpiresAt M \<le> t \<or> Holder M = h) \<and>
           (FencingToken M < FencingToken L \<or> FencingToken M = FencingToken L \<and> Holder M = h)" by blast
  then show ?thesis
  proof cases
    case 1
    then show ?thesis using g by (auto split: sum.splits)
  next
    case (2 L)
    then show ?thesis using g by (intro disjI2 exI [of _ L]) (auto simp: CallAcquire split: sum.splits)
  qed
next
  case (CallRenew t h k d)
  obtain q s1 where q: "renew t h k d s = (q, s1)" by fastforce
  have g: "s' = s1" "g = (case q of Inl e \<Rightarrow> None | Inr L \<Rightarrow> Some L)"
    using assms(2) q by (auto simp: CallRenew split: sum.splits)
  from renew_effect [OF assms(1) q] consider "isl q" "stored s1 = stored s"
    | M where "stored s = Some M" "Holder M = h" "stored s1 = Some (M\<lparr>ExpiresAt := expiry t d\<rparr>)" by blast
  then show ?thesis
  proof cases
    case 1
    then show ?thesis using g by (auto split: sum.splits)
  next
    case (2 M)
    then show ?thesis using g
      by (intro disjI2 exI [of _ "M\<lparr>ExpiresAt := expiry t d\<rparr>"]) (auto simp: CallRenew split: sum.splits)
  qed
next
  case (CallOther x)
  then show ?thesis using assms other_stored [of s x] by auto
qed

lemma perform_excluded:
  assumes "inv s" "stored s = Some M" "\<And>t. call_time c = Some t \<Longrightarrow> t < ExpiresAt M"
    and "call_holder c \<noteq> Some (Holder M)" "perform c s = (g, s')"
  shows "g = None" "stored s' = Some M"
proof -
  have "g = None \<and> stored s' = Some M"
    using perform_effect [OF assms(1,5)] assms(2-4) by (auto simp: not_le)
  then show "g = None" "stored s' = Some M" by auto
qed

lemma excluded:
  "inv s \<Longrightarrow> stored s = Some M \<Longrightarrow> \<forall>c \<in> set cs. call_holder c \<noteq> Some (Holder M) \<and>
       (\<forall>t. call_time c = Some t \<longrightarrow> t < ExpiresAt M) \<Longrightarrow>
     grants cs s = [] \<and> stored (after cs s) = Some M"
proof (induction cs arbitrary: s)
  case (Cons c cs)
  obtain g s' where p: "perform c s = (g, s')" by fastforce
  have "inv s'" using perform_inv [OF Cons.prems(1), of c] p by simp
  moreover have "g = None" "stored s' = Some M"
    by (rule perform_excluded [OF Cons.prems(1,2) _ _ p]; use Cons.prems(3) in simp)+
  ultimately show ?case using Cons.IH [of s'] Cons.prems(3) p by simp
qed simp

lemma after_token:
  "inv s \<Longrightarrow> stored s = Some M \<Longrightarrow> \<exists>L. stored (after cs s) = Some L \<and> FencingToken M \<le> FencingToken L \<and> inv (after cs s)"
proof (induction cs arbitrary: s M)
  case (Cons c cs)
  obtain g s' where p: "perform c s = (g, s')" by fastforce
  have i: "inv s'" using perform_inv [OF Cons.prems(1), of c] p by simp
  obtain K where K: "stored s' = Some K" "FencingToken M \<le> FencingToken K"
    using perform_effect [OF Cons.prems(1) p] Cons.prems(2) by auto
  show ?case using Cons.IH [OF i K(1)] K(2) p by fastforce
qed auto

lemma overtaken:
  assumes "inv s" "stored s = Some M" "k < FencingToken M"
  shows "\<exists>e s'. renew t h k d (after cs s) = (Inl e, s')"
proof -
  obtain L where L: "stored (after cs s) = Some L" "FencingToken M \<le> FencingToken L" "inv (after cs s)"
    using after_token [OF assms(1,2)] by blast
  obtain q s' where q: "renew t h k d (after cs s) = (q, s')" by fastforce
  have "isl q" using renew_effect [OF L(3) q] L(1,2) assms(3) by auto
  then show ?thesis using q by (cases q) auto
qed

end

text \<open>A store whose answers are what it has stored: then the tokens of the answers fence.\<close>

locale reporting_lease_store = lease_store +
  assumes acquire_reports: "inv s \<Longrightarrow> acquire t h d s = (Inr L, s') \<Longrightarrow> stored s' = Some L"
    and renew_reports: "inv s \<Longrightarrow> renew t h k d s = (Inr L, s') \<Longrightarrow> stored s' = Some L"
begin

lemma perform_reports: "inv s \<Longrightarrow> perform c s = (Some L, s') \<Longrightarrow> stored s' = Some L"
  by (cases c) (auto split: prod.splits sum.splits dest: acquire_reports renew_reports)

lemma later_grants:
  "inv s \<Longrightarrow> stored s = Some M \<Longrightarrow> L \<in> set (grants cs s) \<Longrightarrow>
     FencingToken M < FencingToken L \<or> FencingToken M = FencingToken L \<and> Holder M = Holder L"
proof (induction cs arbitrary: s M)
  case (Cons c cs)
  obtain g s' where p: "perform c s = (g, s')" by fastforce
  have i: "inv s'" using perform_inv [OF Cons.prems(1), of c] p by simp
  obtain K where K: "stored s' = Some K"
    "FencingToken M < FencingToken K \<or> FencingToken M = FencingToken K \<and> Holder M = Holder K"
    using perform_effect [OF Cons.prems(1) p] Cons.prems(2) by auto
  have "L = K \<or> L \<in> set (grants cs s')"
    using Cons.prems(3) p K(1) perform_reports [OF Cons.prems(1), of c] by (auto split: option.splits)
  then show ?case using Cons.IH [OF i K(1)] K(2) by force
qed simp

lemma tokens_fence:
  "inv s \<Longrightarrow> i < j \<Longrightarrow> j < length (grants cs s) \<Longrightarrow>
     FencingToken (grants cs s ! i) < FencingToken (grants cs s ! j) \<or>
     FencingToken (grants cs s ! i) = FencingToken (grants cs s ! j) \<and> Holder (grants cs s ! i) = Holder (grants cs s ! j)"
proof (induction cs arbitrary: s i j)
  case (Cons c cs)
  obtain g s' where p: "perform c s = (g, s')" by fastforce
  have inv': "inv s'" using perform_inv [OF Cons.prems(1), of c] p by simp
  show ?case
  proof (cases g)
    case None
    then show ?thesis using Cons.IH [OF inv'] Cons.prems p by simp
  next
    case (Some K)
    obtain j' where j: "j = Suc j'" using Cons.prems(2) by (cases j) auto
    have st: "stored s' = Some K" using perform_reports [OF Cons.prems(1), of c K s'] p Some by simp
    show ?thesis
    proof (cases i)
      case 0
      have "grants cs s' ! j' \<in> set (grants cs s')" using Cons.prems(3) p Some j by simp
      then show ?thesis using later_grants [OF inv' st] p Some j 0 by simp
    next
      case (Suc i')
      then show ?thesis using Cons.IH [OF inv', of i' j'] Cons.prems p Some j by simp
    qed
  qed
qed simp

end

section \<open>The in-memory store as a lease store\<close>

datatype control_op =
    CtlStartEpoch EpochMeta int
  | CtlCompleteEpoch int
  | CtlSetAccepting int bool
  | CtlPutShardConfig ShardConfigRecord
  | CtlPutEpochShardConfig int ShardConfigRecord
  | CtlPutScaling gotime ScalingRecommendationRecord
  | CtlPutCycle gotime string string EpochCycleRecord

primrec control_step :: "control_op \<Rightarrow> MemoryControlStore \<Rightarrow> MemoryControlStore" where
  "control_step (CtlStartEpoch ep v) s = snd (store_StartEpoch ep v s)"
| "control_step (CtlCompleteEpoch i) s = snd (store_CompleteEpoch i s)"
| "control_step (CtlSetAccepting i b) s = snd (SetAccepting i b s)"
| "control_step (CtlPutShardConfig c) s = snd (PutShardConfig c s)"
| "control_step (CtlPutEpochShardConfig i c) s = snd (PutEpochShardConfig i c s)"
| "control_step (CtlPutScaling t r) s = snd (PutScalingRecommendation t r s)"
| "control_step (CtlPutCycle t a b u) s = snd (PutEpochCycleTransition t a b u s)"

definition lease_ok :: "MemoryControlStore \<Rightarrow> bool" where
  "lease_ok s \<longleftrightarrow> (mc_hasLease s \<longrightarrow> FencingToken (mc_lease s) = lastFencingToken s)"

definition stored_lease :: "MemoryControlStore \<Rightarrow> CoordinatorLease option" where
  "stored_lease s = (if mc_hasLease s then Some (mc_lease s) else None)"

lemma control_step_lease [simp]:
  "mc_lease (control_step x s) = mc_lease s" "mc_hasLease (control_step x s) = mc_hasLease s"
  "lastFencingToken (control_step x s) = lastFencingToken s"
  by (cases x; simp add: store_StartEpoch_def store_CompleteEpoch_def SetAccepting_def PutShardConfig_def
      PutEpochShardConfig_def PutScalingRecommendation_def publish_scaling_def PutEpochCycleTransition_def Let_def
      split: sum.splits option.splits)+

lemma mem_current: "CurrentLease t s = (case stored_lease s of None \<Rightarrow> None | Some L \<Rightarrow> if t < ExpiresAt L then Some L else None)"
  by (simp add: CurrentLease_def stored_lease_def Before_def)

interpretation mem_lease: reporting_lease_store AcquireLease RenewLease control_step lease_ok stored_lease "\<lambda>t d. t + d"
proof unfold_locales
  fix s s' :: MemoryControlStore and t d k h x q L
  show "lease_ok s \<Longrightarrow> lease_ok (snd (AcquireLease t h d s))"
    by (simp add: AcquireLease_def lease_ok_def Let_def)
  show "lease_ok s \<Longrightarrow> lease_ok (snd (RenewLease t h k d s))"
    by (simp add: RenewLease_def lease_ok_def Let_def)
  show "lease_ok s \<Longrightarrow> lease_ok (control_step x s)" by (simp add: lease_ok_def)
  show "stored_lease (control_step x s) = stored_lease s" by (simp add: stored_lease_def)
  show "lease_ok s \<Longrightarrow> AcquireLease t h d s = (q, s') \<Longrightarrow> isl q \<and> stored_lease s' = stored_lease s \<or>
      (\<exists>L. stored_lease s' = Some L \<and> Holder L = h \<and> ExpiresAt L = t + d \<and>
         (\<forall>M. stored_lease s = Some M \<longrightarrow> (ExpiresAt M \<le> t \<or> Holder M = h) \<and>
            (FencingToken M < FencingToken L \<or> FencingToken M = FencingToken L \<and> Holder M = h)))"
    by (auto simp: AcquireLease_def lease_ok_def stored_lease_def Before_def Let_def split: if_splits)
  show "RenewLease t h k d s = (q, s') \<Longrightarrow> isl q \<and> stored_lease s' = stored_lease s \<or>
      (\<exists>M. stored_lease s = Some M \<and> t < ExpiresAt M \<and> Holder M = h \<and> FencingToken M = k \<and>
         stored_lease s' = Some (M\<lparr>ExpiresAt := t + d\<rparr>))"
    by (auto simp: RenewLease_def stored_lease_def Before_def Let_def split: if_splits)
  show "AcquireLease t h d s = (Inr L, s') \<Longrightarrow> stored_lease s' = Some L"
    by (auto simp: AcquireLease_def stored_lease_def Let_def split: if_splits)
  show "RenewLease t h k d s = (Inr L, s') \<Longrightarrow> stored_lease s' = Some L"
    by (auto simp: RenewLease_def stored_lease_def Let_def split: if_splits)
qed

section \<open>Sequences of store operations\<close>

definition control_run :: "control_op list \<Rightarrow> MemoryControlStore \<Rightarrow> MemoryControlStore" where
  "control_run ops s = foldl (\<lambda>s x. control_step x s) s ops"

lemma control_run_simps [simp]:
  "control_run [] s = s" "control_run (x # xs) s = control_run xs (control_step x s)"
  "control_run (xs @ ys) s = control_run ys (control_run xs s)"
  by (simp_all add: control_run_def)

lemma control_run_invariant:
  "P s \<Longrightarrow> (\<And>x s. P s \<Longrightarrow> P (control_step x s)) \<Longrightarrow> P (control_run ops s)"
  by (induction ops arbitrary: s) auto

lemmas control_ops = store_StartEpoch_def store_CompleteEpoch_def SetAccepting_def PutShardConfig_def

lemma control_step_epoch_config:
  "mc_epochShardConfig s e = Some c \<Longrightarrow> mc_epochShardConfig (control_step x s) e = Some c"
  by (cases x)
    (auto simp: control_ops PutEpochShardConfig_def PutScalingRecommendation_def publish_scaling_def PutEpochCycleTransition_def Let_def
      split: sum.splits option.splits)

lemma PutEpochShardConfig_ok:
  assumes "PutEpochShardConfig e c s = (Inr (), s')"
  shows "0 < e" "store_validateShardConfigRecord (c\<lparr>cfg_Key := epochShardConfigKey e\<rparr>) = Inr ()"
    "mc_epochShardConfig s' e = Some (c\<lparr>cfg_Key := epochShardConfigKey e\<rparr>)"
  using assms by (auto simp: PutEpochShardConfig_def Let_def split: if_splits sum.splits option.splits)

text \<open>The newest recommendation is the one published as the latest.\<close>

definition scaling_ok :: "MemoryControlStore \<Rightarrow> bool" where
  "scaling_ok s \<longleftrightarrow>
     (\<forall>e. scalingByEpoch s e \<noteq> None \<longrightarrow> hasLatestScaling s \<and> e \<le> sg_EpochID (latestScaling s)) \<and>
     (hasLatestScaling s \<longrightarrow> (\<exists>r. scalingByEpoch s (sg_EpochID (latestScaling s)) = Some r \<and>
        latestScaling s = r\<lparr>sg_Key := latestScalingRecommendationKey\<rparr>))"

lemma scaling_ok_insert:
  assumes ok: "scaling_ok s" and r: "scalingByEpoch s (sg_EpochID r) = None"
  shows "scaling_ok (publish_scaling r (s\<lparr>scalingByEpoch := (scalingByEpoch s)(sg_EpochID r \<mapsto> r)\<rparr>))"
proof (cases "\<not> hasLatestScaling s \<or> sg_EpochID r \<ge> sg_EpochID (latestScaling s)")
  case True
  then have "\<forall>e. scalingByEpoch s e \<noteq> None \<longrightarrow> e \<le> sg_EpochID r" using ok by (auto simp: scaling_ok_def)
  then show ?thesis using True ok by (simp add: scaling_ok_def publish_scaling_def Let_def)
next
  case False
  then have "sg_EpochID (latestScaling s) \<noteq> sg_EpochID r" by simp
  then show ?thesis using False ok by (simp add: scaling_ok_def publish_scaling_def Let_def)
qed

lemma scaling_ok_republish:
  assumes ok: "scaling_ok s" and e: "scalingByEpoch s (sg_EpochID r) = Some old"
    and eq: "scalingRecommendationRecordsEqual old r"
  shows "scaling_ok (publish_scaling r s)"
proof -
  have "r\<lparr>sg_Key := latestScalingRecommendationKey\<rparr> = old\<lparr>sg_Key := latestScalingRecommendationKey\<rparr>"
      "sg_EpochID old = sg_EpochID r"
    using eq unfolding scalingRecommendationRecordsEqual_def by (cases r; cases old; simp)+
  moreover have "\<forall>e. scalingByEpoch s e \<noteq> None \<longrightarrow> sg_EpochID (latestScaling s) \<le> sg_EpochID r \<longrightarrow> e \<le> sg_EpochID r"
    using ok by (auto simp: scaling_ok_def)
  ultimately show ?thesis using ok e by (auto simp: scaling_ok_def publish_scaling_def Let_def)
qed

lemma control_step_scaling_ok: "scaling_ok s \<Longrightarrow> scaling_ok (control_step x s)"
proof (cases x)
  case (CtlPutScaling t r)
  assume ok: "scaling_ok s"
  then show ?thesis using scaling_ok_insert [OF ok] scaling_ok_republish [OF ok]
    by (simp add: CtlPutScaling PutScalingRecommendation_def Let_def split: sum.splits option.splits)
qed (simp_all add: control_ops PutEpochShardConfig_def PutEpochCycleTransition_def Let_def scaling_ok_def
    split: sum.splits option.splits)

section \<open>The epoch cycle\<close>

definition cycle_state :: "MemoryControlStore \<Rightarrow> string" where
  "cycle_state s = (if hasEpochCycle s then cy_State (mc_epochCycle s) else EpochCycleStateIdle)"

text \<open>A transition succeeds exactly when it is one of the table's from the current state; a refused one
  changes nothing.\<close>

lemma PutEpochCycleTransition_ok:
  assumes "normalizeEpochCycleState a = cycle_state s" "validEpochCycleTransition (cycle_state s) b"
  shows "\<exists>s'. PutEpochCycleTransition clock a b upd s = (Inr (), s') \<and> cycle_state s' = b"
  using assms
  by (simp add: PutEpochCycleTransition_def prepareEpochCycleRecord_def validateEpochCycleTransition_def
      flip: cycle_state_def) (simp add: Let_def cycle_state_def)

lemma PutEpochCycleTransition_err:
  assumes "\<not> (normalizeEpochCycleState a = cycle_state s \<and> validEpochCycleTransition (cycle_state s) b)"
  shows "\<exists>e. PutEpochCycleTransition clock a b upd s = (Inl e, s) \<and> errors_Is e errEpochCycleTransition"
  using assms
  by (cases "normalizeEpochCycleState a = cycle_state s")
    (auto simp: PutEpochCycleTransition_def prepareEpochCycleRecord_def validateEpochCycleTransition_def Let_def
      simp flip: cycle_state_def)

lemma control_step_cycle:
  "cycle_state (control_step x s) = cycle_state s \<or> validEpochCycleTransition (cycle_state s) (cycle_state (control_step x s))"
proof (cases x)
  case (CtlPutCycle t a b u)
  then show ?thesis
    using PutEpochCycleTransition_ok [of a s b t u] PutEpochCycleTransition_err [of a s b t u] by fastforce
qed (simp_all add: control_ops PutEpochShardConfig_def PutScalingRecommendation_def publish_scaling_def cycle_state_def
    Let_def split: sum.splits option.splits)

lemma cycle_state_valid:
  "validEpochCycleState (cycle_state s) \<Longrightarrow> validEpochCycleState (cycle_state (control_step x s))"
  using control_step_cycle [of x s] by (auto simp: validEpochCycleTransition_def Let_def split: if_splits)

text \<open>States that lie after an epoch and before the decision about the next one.\<close>

definition undecided :: "string set" where
  "undecided = {EpochCycleStateCompleted, EpochCycleStateRecommendationReady, EpochCycleStateScalingInProgress,
     EpochCycleStateFailed}"

definition decided :: "string set" where
  "decided = {EpochCycleStateScalingApplied, EpochCycleStateScalingSkipped, EpochCycleStateReadyForNextEpoch}"

lemma undecided_step:
  "from \<in> undecided \<Longrightarrow> validEpochCycleTransition from to \<Longrightarrow> to \<in> undecided \<union> decided"
  by (auto simp: validEpochCycleTransition_def undecided_def decided_def normalizeEpochCycleState_def cycle_states
      split: if_splits)

lemma cycle_gate:
  "cycle_state s \<in> undecided \<Longrightarrow> cycle_state (control_run ops s) \<notin> undecided \<Longrightarrow>
     \<exists>k \<le> length ops. cycle_state (control_run (take k ops) s) \<in> decided"
proof (induction ops arbitrary: s)
  case (Cons x ops)
  have "cycle_state (control_step x s) \<in> undecided \<union> decided"
    using control_step_cycle [of x s] undecided_step [OF Cons.prems(1)] Cons.prems(1) by auto
  then show ?case
  proof
    assume "cycle_state (control_step x s) \<in> decided"
    then show ?thesis by (intro exI [of _ 1]) simp
  next
    assume "cycle_state (control_step x s) \<in> undecided"
    then obtain k where "k \<le> length ops" "cycle_state (control_run (take k ops) (control_step x s)) \<in> decided"
      using Cons by auto
    then show ?thesis by (intro exI [of _ "Suc k"]) simp
  qed
qed simp

text \<open>The shortest way from a state to the next epoch.\<close>

definition next_towards_active :: "string \<Rightarrow> string" where
  "next_towards_active state =
     (if state = EpochCycleStateCompleted then EpochCycleStateRecommendationReady
      else if state = EpochCycleStateRecommendationReady then EpochCycleStateScalingInProgress
      else if state = EpochCycleStateScalingInProgress then EpochCycleStateScalingSkipped
      else if state = EpochCycleStateFailed then EpochCycleStateReadyForNextEpoch
      else EpochCycleStateActive)"

lemma next_towards_active_valid:
  "validEpochCycleState st \<Longrightarrow> validEpochCycleTransition st (next_towards_active st)"
  by (auto simp: validEpochCycleState_def validEpochCycleTransition_def next_towards_active_def
      normalizeEpochCycleState_def cycle_states)

lemma next_towards_active_reaches:
  "validEpochCycleState st \<Longrightarrow> (next_towards_active ^^ 4) st = EpochCycleStateActive"
  by (auto simp: validEpochCycleState_def next_towards_active_def cycle_states numeral_eq_Suc)

lemma follow_table:
  "validEpochCycleState (cycle_state s) \<Longrightarrow>
     \<exists>ops. length ops = n \<and> cycle_state (control_run ops s) = (next_towards_active ^^ n) (cycle_state s)"
proof (induction n arbitrary: s)
  case (Suc n)
  let ?st = "cycle_state s"
  have "normalizeEpochCycleState ?st = ?st"
    using Suc.prems by (auto simp: normalizeEpochCycleState_def validEpochCycleState_def cycle_states)
  then obtain s' where s': "PutEpochCycleTransition 0 ?st (next_towards_active ?st) zero_cycle s = (Inr (), s')"
      "cycle_state s' = next_towards_active ?st"
    using PutEpochCycleTransition_ok [of ?st s "next_towards_active ?st"] next_towards_active_valid [OF Suc.prems] by blast
  have "validEpochCycleState (cycle_state s')"
    using next_towards_active_valid [OF Suc.prems] s'(2) by (simp add: validEpochCycleTransition_def Let_def split: if_splits)
  then obtain ops where "length ops = n" "cycle_state (control_run ops s') = (next_towards_active ^^ n) (cycle_state s')"
    using Suc.IH by blast
  then show ?case using s'
    by (intro exI [of _ "CtlPutCycle 0 ?st (next_towards_active ?st) zero_cycle # ops"]) (simp add: funpow_swap1)
qed simp

section \<open>Properties\<close>

lemma new_store_ok: "lease_ok NewMemoryControlStore" "scaling_ok NewMemoryControlStore"
    "validEpochCycleState (cycle_state NewMemoryControlStore)"
  by (simp_all add: NewMemoryControlStore_def lease_ok_def scaling_ok_def cycle_state_def validEpochCycleState_def)

text \<open>Coordinator a acquires at time 0 for 10; b acquires at time 20.\<close>

definition sample_calls :: "control_op lease_call list" where
  "sample_calls = [CallAcquire 0 ''a'' 10, CallOther (CtlSetAccepting 1 True), CallAcquire 20 ''b'' 10]"

lemma sample_grants:
  "mem_lease.grants sample_calls NewMemoryControlStore
     = [\<lparr>Holder = ''a'', FencingToken = 1, ExpiresAt = 10\<rparr>, \<lparr>Holder = ''b'', FencingToken = 2, ExpiresAt = 30\<rparr>]"
  by (simp add: sample_calls_def NewMemoryControlStore_def AcquireLease_def SetAccepting_def Before_def Let_def)

definition leased_store :: MemoryControlStore where
  "leased_store = snd (AcquireLease 0 ''a'' 10 NewMemoryControlStore)"

lemma leased_store_simps: "lease_ok leased_store"
    "stored_lease leased_store = Some \<lparr>Holder = ''a'', FencingToken = 1, ExpiresAt = 10\<rparr>"
  by (simp_all add: leased_store_def NewMemoryControlStore_def AcquireLease_def lease_ok_def stored_lease_def Let_def)

text \<open>Fencing tokens fence. Over any sequence of \<^verbatim>\<open>AcquireLease\<close> and \<^verbatim>\<open>RenewLease\<close> calls by any
  coordinators at any times, mixed with any other operations of the store, the leases granted carry
  tokens that never decrease, and two leases with the same token have the same holder.
\<close>

theorem lease_tokens_fence:
  assumes "i < j" "j < length (mem_lease.grants calls NewMemoryControlStore)"
  shows "let early = mem_lease.grants calls NewMemoryControlStore ! i;
             late = mem_lease.grants calls NewMemoryControlStore ! j
         in FencingToken early < FencingToken late \<or>
            FencingToken early = FencingToken late \<and> Holder early = Holder late"
  unfolding Let_def using mem_lease.tokens_fence [OF new_store_ok(1) assms] .

theorem lease_tokens_fence_witness:
  "0 < (1::nat) \<and> 1 < length (mem_lease.grants sample_calls NewMemoryControlStore) \<and>
   FencingToken (mem_lease.grants sample_calls NewMemoryControlStore ! 0)
     < FencingToken (mem_lease.grants sample_calls NewMemoryControlStore ! 1)"
  using lease_tokens_fence [of 0 1 sample_calls] by (simp add: sample_grants Let_def)

text \<open>One coordinator at a time. While the lease granted last has not expired, no sequence of calls by
  other holders (with any other operations of the store in between) is granted anything, and the lease
  is still the current one afterwards.
\<close>

theorem lease_mutual_exclusion:
  assumes "lease_ok s" "stored_lease s = Some L"
    and "\<forall>c \<in> set calls. call_holder c \<noteq> Some (Holder L) \<and> (\<forall>t. call_time c = Some t \<longrightarrow> t < ExpiresAt L)"
    and "now < ExpiresAt L"
  shows "mem_lease.grants calls s = [] \<and> CurrentLease now (mem_lease.after calls s) = Some L"
  using mem_lease.excluded [OF assms(1-3)] assms(4) by (simp add: mem_current)

theorem lease_mutual_exclusion_witness:
  "CurrentLease 9 (mem_lease.after [CallAcquire 5 ''b'' 10, CallRenew 6 ''b'' 1 10, CallOther (CtlCompleteEpoch 1)] leased_store)
     = Some \<lparr>Holder = ''a'', FencingToken = 1, ExpiresAt = 10\<rparr>"
  using lease_mutual_exclusion [OF leased_store_simps,
      of "[CallAcquire 5 ''b'' 10, CallRenew 6 ''b'' 1 10, CallOther (CtlCompleteEpoch 1)]" 9] by simp

text \<open>A coordinator that was overtaken stays out. Once a lease with a larger token has been granted, a
  renewal with the smaller token is refused after every later sequence of calls, whoever asks and
  whenever.
\<close>

theorem overtaken_token_cannot_renew:
  assumes "lease_ok s" "stored_lease s = Some L" "token < FencingToken L"
  shows "\<exists>err. fst (RenewLease now holder token ttl (mem_lease.after calls s)) = Inl err"
  using mem_lease.overtaken [OF assms, of now holder ttl calls] by fastforce

theorem overtaken_token_cannot_renew_witness:
  "\<exists>err. fst (RenewLease 25 ''a'' 0 10 (mem_lease.after sample_calls leased_store)) = Inl err"
  using overtaken_token_cannot_renew [OF leased_store_simps, of 0 25 "''a''" 10 sample_calls] by simp

text \<open>The shard map of an epoch is written once. After \<^verbatim>\<open>PutEpochShardConfig\<close> succeeded, every later
  sequence of store operations leaves the stored map in place, and storing a map for that epoch again
  succeeds exactly when it is the same map.
\<close>

theorem epoch_shard_config_write_once:
  assumes "PutEpochShardConfig epochID config s = (Inr (), s1)"
  shows "GetEpochShardConfig epochID (control_run ops s1) = Some (config\<lparr>cfg_Key := epochShardConfigKey epochID\<rparr>) \<and>
    (fst (PutEpochShardConfig epochID other (control_run ops s1)) = Inr () \<longleftrightarrow>
       other\<lparr>cfg_Key := epochShardConfigKey epochID\<rparr> = config\<lparr>cfg_Key := epochShardConfigKey epochID\<rparr>)"
proof -
  note put = PutEpochShardConfig_ok [OF assms]
  have "mc_epochShardConfig (control_run ops s1) epochID = Some (config\<lparr>cfg_Key := epochShardConfigKey epochID\<rparr>)"
    by (rule control_run_invariant [where P = "\<lambda>s. mc_epochShardConfig s epochID = _"])
      (use put(3) control_step_epoch_config in auto)
  then show ?thesis using put(1,2)
    by (auto simp: GetEpochShardConfig_def PutEpochShardConfig_def Let_def split: sum.splits)
qed

definition sample_config :: ShardConfigRecord where
  "sample_config = shardConfigRecordFromShards sample_inventory 1"

lemma sample_config_valid: "store_validateShardConfigRecord (sample_config\<lparr>cfg_Key := k\<rparr>) = Inr ()"
proof -
  have "shards_tile (sort_shards sample_inventory)"
    using sample_inventory_valid by (auto simp: validateShardMap_iff)
  then show ?thesis
    by (simp add: store_validate_iff sample_config_def shardConfigRecordFromShards_def config_header_check_def
        globalTableHeightForShards_def)
qed

theorem epoch_shard_config_write_once_witness:
  "GetEpochShardConfig 1 (control_run [CtlPutEpochShardConfig 1 (sample_config\<lparr>cfg_Version := 9\<rparr>)]
       (snd (PutEpochShardConfig 1 sample_config NewMemoryControlStore)))
     = Some (sample_config\<lparr>cfg_Key := epochShardConfigKey 1\<rparr>)"
proof -
  have "PutEpochShardConfig 1 sample_config NewMemoryControlStore
      = (Inr (), snd (PutEpochShardConfig 1 sample_config NewMemoryControlStore))"
    by (simp add: PutEpochShardConfig_def sample_config_valid NewMemoryControlStore_def Let_def)
  from epoch_shard_config_write_once [OF this] show ?thesis by blast
qed

text \<open>The latest recommendation is the newest. After any sequence of store operations, the published
  recommendation, if there is one, is the stored recommendation of its epoch under the key of the
  latest, and no recommendation of a later epoch is stored.
\<close>

theorem latest_scaling_is_newest:
  assumes "GetLatestScalingRecommendation (control_run ops NewMemoryControlStore) = Some latest"
  shows "(\<exists>r. GetEpochScalingRecommendation (sg_EpochID latest) (control_run ops NewMemoryControlStore) = Some r \<and>
       latest = r\<lparr>sg_Key := latestScalingRecommendationKey\<rparr>) \<and>
    (\<forall>e. sg_EpochID latest < e \<longrightarrow> GetEpochScalingRecommendation e (control_run ops NewMemoryControlStore) = None)"
proof -
  let ?s = "control_run ops NewMemoryControlStore"
  have "scaling_ok ?s" by (rule control_run_invariant [OF new_store_ok(2) control_step_scaling_ok])
  moreover have "hasLatestScaling ?s" "latestScaling ?s = latest"
    using assms by (simp_all add: GetLatestScalingRecommendation_def split: if_splits)
  ultimately show ?thesis unfolding scaling_ok_def GetEpochScalingRecommendation_def by (metis not_le)
qed

definition sample_scaling :: "int \<Rightarrow> ScalingRecommendationRecord" where
  "sample_scaling e = zero_scaling\<lparr>sg_EpochID := e, sg_DurationSeconds := 60, sg_CurrentShardCount := 1,
     sg_RecommendedShardCount := 2, sg_TargetRowsPerShard := 256, sg_RequestDensity := Fin 5, sg_Action := scalingActionGrow,
     sg_ProposedGlobalTableHeight := 512, sg_ShardConfigVersion := 1, sg_CreatedAt := 7\<rparr>"

lemma sample_scaling_valid: "0 < e \<Longrightarrow> validateScalingRecommendationRecord (sample_scaling e) = Inr ()"
  by (simp add: validateScalingRecommendationRecord_def sample_scaling_def zero_scaling_def wrap64_def)

lemma sample_scaling_epoch [simp]: "sg_EpochID (sample_scaling e) = e" "sg_EpochID (stamp_scaling t r) = sg_EpochID r"
  by (simp_all add: sample_scaling_def stamp_scaling_def Let_def)

theorem latest_scaling_is_newest_witness:
  "\<exists>latest. GetLatestScalingRecommendation
       (control_run [CtlPutScaling 1 (sample_scaling 2), CtlPutScaling 1 (sample_scaling 1)] NewMemoryControlStore)
     = Some latest \<and> sg_EpochID latest = 2 \<and>
     (\<exists>r. GetEpochScalingRecommendation 2
       (control_run [CtlPutScaling 1 (sample_scaling 2), CtlPutScaling 1 (sample_scaling 1)] NewMemoryControlStore) = Some r)"
proof -
  let ?ops = "[CtlPutScaling 1 (sample_scaling 2), CtlPutScaling 1 (sample_scaling 1)]"
  obtain latest where l: "GetLatestScalingRecommendation (control_run ?ops NewMemoryControlStore) = Some latest"
      "sg_EpochID latest = 2"
    by (simp add: GetLatestScalingRecommendation_def PutScalingRecommendation_def sample_scaling_valid publish_scaling_def
        NewMemoryControlStore_def Let_def)
  with latest_scaling_is_newest [OF l(1)] show ?thesis by auto
qed


definition cycle_store :: "string \<Rightarrow> MemoryControlStore" where
  "cycle_store st = NewMemoryControlStore\<lparr>mc_epochCycle := zero_cycle\<lparr>cy_State := st\<rparr>, hasEpochCycle := True\<rparr>"

definition recovery_ops :: "control_op list" where
  "recovery_ops = [CtlPutCycle 1 ''failed'' ''ready_for_next_epoch'' zero_cycle,
     CtlPutCycle 2 ''ready_for_next_epoch'' ''active'' zero_cycle]"

lemma recovery_active: "cycle_state (control_run recovery_ops (cycle_store EpochCycleStateFailed)) = EpochCycleStateActive"
  by (simp add: recovery_ops_def cycle_store_def cycle_state_def PutEpochCycleTransition_def prepareEpochCycleRecord_def
      validateEpochCycleTransition_def validEpochCycleTransition_def validEpochCycleState_def normalizeEpochCycleState_def
      cycle_states zero_cycle_def Let_def)


end
