(* ===== verification/Session_Store.thy ===== *)
theory Session_Store
  imports Control_Store
begin

text \<open>
  Coordinator sessions (\<^verbatim>\<open>SessionStore\<close> of \<^verbatim>\<open>src/controlstore/types.go\<close> and its in-memory implementation in
  \<^verbatim>\<open>memory.go\<close>) and the record of operations through which the coordinator sees a control store.

  The interface is the locale \<open>session_store\<close>: a store stands for a finite map from uuids to
  sessions. Shown here: the in-memory store meets the interface, and for every store that does, a
  session that was put stays what it is until it is deleted, whatever other calls are made.
\<close>

section \<open>Sessions\<close>

record SessionRecord =
  ss_EpochID :: int
  ss_ShardID :: int
  GlobalUUID :: int
  LocalUUID :: int
  ss_HashKey :: "byte list"
  GlobalRow :: int
  LocalRow :: int
  ShardStartRow :: int
  ss_CreatedAt :: gotime

definition errSessionExists :: go_error where
  "errSessionExists = Sentinel ''coordinator session already exists''"
definition errSessionMissing :: go_error where
  "errSessionMissing = Sentinel ''coordinator session is missing''"

record MemorySessionStore =
  ms_sessions :: "(int, SessionRecord) gomap"

definition NewMemorySessionStore :: MemorySessionStore where
  "NewMemorySessionStore = \<lparr>ms_sessions = []\<rparr>"

definition session_Len :: "MemorySessionStore \<Rightarrow> int" where
  "session_Len s = int (length (ms_sessions s))"

definition PutSession ::
  "go_error option \<Rightarrow> gotime \<Rightarrow> SessionRecord \<Rightarrow> MemorySessionStore \<Rightarrow> unit res \<times> MemorySessionStore" where
  "PutSession ctx clock session s =
     (case ctx of Some err \<Rightarrow> (Inl err, s) | None \<Rightarrow>
      if ss_EpochID session \<le> 0 then (Inl (ErrorString ''session epoch id must be positive''), s)
      else if GlobalUUID session \<le> 0 then (Inl (ErrorString ''session global uuid must be positive''), s)
      else if LocalUUID session \<le> 0 then (Inl (ErrorString ''session local uuid must be positive''), s)
      else
        let session = (if IsZero (ss_CreatedAt session) then session\<lparr>ss_CreatedAt := clock\<rparr> else session)
        in case gm_get (ms_sessions s) (GlobalUUID session) of
             Some _ \<Rightarrow> (Inl errSessionExists, s)
           | None \<Rightarrow> (Inr (), s\<lparr>ms_sessions := gm_put (GlobalUUID session) session (ms_sessions s)\<rparr>))"

definition GetSession :: "go_error option \<Rightarrow> int \<Rightarrow> MemorySessionStore \<Rightarrow> SessionRecord res" where
  "GetSession ctx globalUUID s =
     (case ctx of Some err \<Rightarrow> Inl err | None \<Rightarrow>
      case gm_get (ms_sessions s) globalUUID of None \<Rightarrow> Inl errSessionMissing | Some session \<Rightarrow> Inr session)"

definition DeleteSession :: "go_error option \<Rightarrow> int \<Rightarrow> MemorySessionStore \<Rightarrow> unit res \<times> MemorySessionStore" where
  "DeleteSession ctx globalUUID s =
     (case ctx of Some err \<Rightarrow> (Inl err, s) | None \<Rightarrow>
      case gm_get (ms_sessions s) globalUUID of
        None \<Rightarrow> (Inl errSessionMissing, s)
      | Some _ \<Rightarrow> (Inr (), s\<lparr>ms_sessions := gm_del globalUUID (ms_sessions s)\<rparr>))"

section \<open>The interface\<close>

datatype session_op = SPut gotime SessionRecord | SDelete int

locale session_store =
  fixes put :: "gotime \<Rightarrow> SessionRecord \<Rightarrow> 'x \<Rightarrow> unit res \<times> 'x"
    and get :: "int \<Rightarrow> 'x \<Rightarrow> SessionRecord res"
    and del :: "int \<Rightarrow> 'x \<Rightarrow> unit res \<times> 'x"
    and live :: "'x \<Rightarrow> int \<rightharpoonup> SessionRecord"
  assumes put_ok: "put t r x = (Inr u, x') \<Longrightarrow> live x (GlobalUUID r) = None \<and>
          live x' = (live x)(GlobalUUID r \<mapsto> (if IsZero (ss_CreatedAt r) then r\<lparr>ss_CreatedAt := t\<rparr> else r)) \<and> 0 < GlobalUUID r"
    and put_err: "put t r x = (Inl e, x') \<Longrightarrow> live x' = live x"
    and get_ok: "get i x = Inr r \<Longrightarrow> live x i = Some r"
    and del_ok: "del i x = (Inr u, x') \<Longrightarrow> live x' = (live x)(i := None)"
    and del_err: "del i x = (Inl e, x') \<Longrightarrow> live x' = live x"
begin

primrec step :: "session_op \<Rightarrow> 'x \<Rightarrow> 'x" where
  "step (SPut t r) x = snd (put t r x)"
| "step (SDelete i) x = snd (del i x)"

definition run :: "session_op list \<Rightarrow> 'x \<Rightarrow> 'x" where
  "run ops x = foldl (\<lambda>x op. step op x) x ops"

lemma step_keeps: "live x i = Some r \<Longrightarrow> SDelete i \<noteq> op \<Longrightarrow> live (step op x) i = Some r"
proof (cases op)
  case (SPut t s)
  assume "live x i = Some r"
  then show ?thesis using SPut put_ok [of t s x] put_err [of t s x]
    by (cases "put t s x"; cases "fst (put t s x)") auto
next
  case (SDelete j)
  assume "live x i = Some r" "SDelete i \<noteq> op"
  then show ?thesis using SDelete del_ok [of j x] del_err [of j x]
    by (cases "del j x"; cases "fst (del j x)") auto
qed

lemma run_keeps: "live x i = Some r \<Longrightarrow> SDelete i \<notin> set ops \<Longrightarrow> live (run ops x) i = Some r"
  unfolding run_def by (induction ops arbitrary: x) (simp_all add: step_keeps)

lemma put_run_get:
  assumes "put t r x = (Inr u, x')" "SDelete (GlobalUUID r) \<notin> set ops"
  shows "live (run ops x') (GlobalUUID r) = Some (if IsZero (ss_CreatedAt r) then r\<lparr>ss_CreatedAt := t\<rparr> else r)"
    and "get (GlobalUUID r) (run ops x') = Inr s \<Longrightarrow> s = (if IsZero (ss_CreatedAt r) then r\<lparr>ss_CreatedAt := t\<rparr> else r)"
proof -
  show "live (run ops x') (GlobalUUID r) = Some (if IsZero (ss_CreatedAt r) then r\<lparr>ss_CreatedAt := t\<rparr> else r)"
    using put_ok [OF assms(1)] by (intro run_keeps assms(2)) simp
  then show "get (GlobalUUID r) (run ops x') = Inr s \<Longrightarrow> s = (if IsZero (ss_CreatedAt r) then r\<lparr>ss_CreatedAt := t\<rparr> else r)"
    by (auto dest: get_ok)
qed

end

definition live_sessions :: "MemorySessionStore \<Rightarrow> int \<rightharpoonup> SessionRecord" where
  "live_sessions s = map_of (ms_sessions s)"

interpretation mem_sessions: session_store "PutSession None" "GetSession None" "DeleteSession None" live_sessions
  by unfold_locales
    (auto simp: PutSession_def GetSession_def DeleteSession_def live_sessions_def Let_def fun_eq_iff
      split: if_splits option.splits)

lemma GetSession_live: "GetSession None i s = (case live_sessions s i of None \<Rightarrow> Inl errSessionMissing | Some r \<Rightarrow> Inr r)"
  by (simp add: GetSession_def live_sessions_def)

lemma PutSession_fresh:
  assumes "0 < ss_EpochID r" "0 < GlobalUUID r" "0 < LocalUUID r"
  shows "fst (PutSession None t r s) = (if live_sessions s (GlobalUUID r) = None then Inr () else Inl errSessionExists)"
  using assms by (auto simp: PutSession_def live_sessions_def Let_def split: option.splits)

section \<open>What the coordinator sees of a control store\<close>

record 's control_ops =
  ct_AcquireLease :: "gotime \<Rightarrow> string \<Rightarrow> duration \<Rightarrow> 's \<Rightarrow> CoordinatorLease res \<times> 's"
  ct_RenewLease :: "gotime \<Rightarrow> string \<Rightarrow> int \<Rightarrow> duration \<Rightarrow> 's \<Rightarrow> CoordinatorLease res \<times> 's"
  ct_CurrentLease :: "gotime \<Rightarrow> 's \<Rightarrow> CoordinatorLease option"
  ct_StartEpoch :: "EpochMeta \<Rightarrow> int \<Rightarrow> 's \<Rightarrow> unit res \<times> 's"
  ct_CompleteEpoch :: "int \<Rightarrow> 's \<Rightarrow> EpochMeta res \<times> 's"
  ct_CurrentEpoch :: "'s \<Rightarrow> EpochMeta option"
  ct_SetAccepting :: "int \<Rightarrow> bool \<Rightarrow> 's \<Rightarrow> unit res \<times> 's"
  ct_Accepting :: "int \<Rightarrow> 's \<Rightarrow> bool res"
  ct_GetShardConfig :: "'s \<Rightarrow> ShardConfigRecord option res"
  ct_PutShardConfig :: "ShardConfigRecord \<Rightarrow> 's \<Rightarrow> unit res \<times> 's"
  ct_GetEpochShardConfig :: "int \<Rightarrow> 's \<Rightarrow> ShardConfigRecord option res"
  ct_PutEpochShardConfig :: "int \<Rightarrow> ShardConfigRecord \<Rightarrow> 's \<Rightarrow> unit res \<times> 's"
  ct_PutScalingRecommendation :: "gotime \<Rightarrow> ScalingRecommendationRecord \<Rightarrow> 's \<Rightarrow> unit res \<times> 's"
  ct_GetLatestScalingRecommendation :: "'s \<Rightarrow> ScalingRecommendationRecord option res"
  ct_GetEpochScalingRecommendation :: "int \<Rightarrow> 's \<Rightarrow> ScalingRecommendationRecord option res"
  ct_GetEpochCycle :: "'s \<Rightarrow> EpochCycleRecord option res"
  ct_PutEpochCycleTransition :: "gotime \<Rightarrow> string \<Rightarrow> string \<Rightarrow> EpochCycleRecord \<Rightarrow> 's \<Rightarrow> unit res \<times> 's"

definition mem_control_ops :: "MemoryControlStore control_ops" where
  "mem_control_ops = \<lparr>ct_AcquireLease = AcquireLease, ct_RenewLease = RenewLease, ct_CurrentLease = CurrentLease,
     ct_StartEpoch = store_StartEpoch, ct_CompleteEpoch = store_CompleteEpoch, ct_CurrentEpoch = store_CurrentEpoch,
     ct_SetAccepting = SetAccepting, ct_Accepting = Accepting,
     ct_GetShardConfig = (\<lambda>s. Inr (GetShardConfig s)), ct_PutShardConfig = PutShardConfig,
     ct_GetEpochShardConfig = (\<lambda>i s. Inr (GetEpochShardConfig i s)), ct_PutEpochShardConfig = PutEpochShardConfig,
     ct_PutScalingRecommendation = PutScalingRecommendation,
     ct_GetLatestScalingRecommendation = (\<lambda>s. Inr (GetLatestScalingRecommendation s)),
     ct_GetEpochScalingRecommendation = (\<lambda>i s. Inr (GetEpochScalingRecommendation i s)),
     ct_GetEpochCycle = (\<lambda>s. Inr (GetEpochCycle s)), ct_PutEpochCycleTransition = PutEpochCycleTransition\<rparr>"

lemma mem_control_ops_simps [simp]:
  "ct_AcquireLease mem_control_ops = AcquireLease" "ct_RenewLease mem_control_ops = RenewLease"
  "ct_CurrentLease mem_control_ops = CurrentLease" "ct_StartEpoch mem_control_ops = store_StartEpoch"
  "ct_CompleteEpoch mem_control_ops = store_CompleteEpoch" "ct_CurrentEpoch mem_control_ops = store_CurrentEpoch"
  "ct_Accepting mem_control_ops = Accepting" "ct_GetShardConfig mem_control_ops = (\<lambda>s. Inr (GetShardConfig s))"
  "ct_PutShardConfig mem_control_ops = PutShardConfig"
  "ct_PutEpochShardConfig mem_control_ops = PutEpochShardConfig"
  "ct_PutScalingRecommendation mem_control_ops = PutScalingRecommendation"
  "ct_GetLatestScalingRecommendation mem_control_ops = (\<lambda>s. Inr (GetLatestScalingRecommendation s))"
  "ct_GetEpochCycle mem_control_ops = (\<lambda>s. Inr (GetEpochCycle s))"
  "ct_PutEpochCycleTransition mem_control_ops = PutEpochCycleTransition"
  by (simp_all add: mem_control_ops_def)

section \<open>Properties\<close>

definition sample_session :: SessionRecord where
  "sample_session = \<lparr>ss_EpochID = 1, ss_ShardID = 0, GlobalUUID = 5, LocalUUID = 5, ss_HashKey = [1, 2], GlobalRow = 7,
     LocalRow = 7, ShardStartRow = 0, ss_CreatedAt = 3\<rparr>"

text \<open>Sessions are stable. After a session was put into the in-memory store, any sequence of further
  puts (of the same uuid too) and of deletions of other sessions leaves it readable and unchanged.\<close>

theorem session_stable_until_deleted:
  assumes "PutSession None t r s = (Inr u, s')" "\<not> IsZero (ss_CreatedAt r)" "SDelete (GlobalUUID r) \<notin> set ops"
  shows "GetSession None (GlobalUUID r) (mem_sessions.run ops s') = Inr r"
  using mem_sessions.put_run_get(1) [OF assms(1,3)] assms(2) by (simp add: GetSession_live)

theorem session_stable_until_deleted_witness:
  "GetSession None 5 (mem_sessions.run [SPut 9 (sample_session\<lparr>GlobalRow := 8\<rparr>), SDelete 4]
     (snd (PutSession None 2 sample_session NewMemorySessionStore))) = Inr sample_session"
proof -
  have "PutSession None 2 sample_session NewMemorySessionStore
      = (Inr (), snd (PutSession None 2 sample_session NewMemorySessionStore))"
    by (simp add: PutSession_def sample_session_def NewMemorySessionStore_def Let_def)
  from session_stable_until_deleted [OF this, of "[SPut 9 (sample_session\<lparr>GlobalRow := 8\<rparr>), SDelete 4]"]
  show ?thesis by (simp add: sample_session_def IsZero_def zero_time_def)
qed

end
