(* ===== verification/Epoch_Publish.thy ===== *)
theory Epoch_Publish
  imports Leader_Control
begin

text \<open>
  Merging and publishing an epoch (\<^verbatim>\<open>sendMergeRequest\<close> of \<^verbatim>\<open>src/db/server.go\<close>, \<^verbatim>\<open>extractPublishedSlots\<close> and
  \<^verbatim>\<open>writePublishedResult\<close> of \<^verbatim>\<open>src/db/types.go\<close>).

  The file system and the JSON encoder are a record of functions. Shown here: the published slots
  are exactly the non-zero slots of the table, each once, in row-major order and with their global
  row; the hexadecimal text determines the slot; results of different epochs, shards or servers
  never share a file; and a merge of two well-formed servers publishes the XOR of their contents.
\<close>

record PublishedSlot =
  ps_Row :: int
  ps_Column :: int
  ps_MessageHex :: string

record PublishedResult =
  pr_EpochID :: int
  pr_StartTime :: gotime
  pr_EndTime :: gotime
  pr_DurationSeconds :: int
  pr_ShardID :: int
  pr_ServerIndex :: int
  pr_CompletedAt :: gotime
  pr_GlobalStartRow :: int
  pr_GlobalEndRow :: int
  pr_TableHeight :: int
  pr_TableWidth :: int
  pr_SlotLength :: int
  pr_NonZeroSlotCount :: int
  pr_Slots :: "PublishedSlot list"

definition hex_digit :: "nat \<Rightarrow> char" where
  "hex_digit d = (if d < 10 then char_of (48 + d) else char_of (87 + d))"

definition hex_byte :: "byte \<Rightarrow> string" where
  "hex_byte b = [hex_digit (unat b div 16), hex_digit (unat b mod 16)]"

definition hex_bytes :: "byte list \<Rightarrow> string" where
  "hex_bytes bs = concat (map hex_byte bs)"

definition extractPublishedSlots :: "matrix \<Rightarrow> int \<Rightarrow> PublishedSlot list" where
  "extractPublishedSlots matrix globalRowStart =
     [\<lparr>ps_Row = globalRowStart + int row, ps_Column = int col, ps_MessageHex = hex_bytes (slot_of (matrix ! row) col)\<rparr>.
        row \<leftarrow> [0..<TABLE_HEIGHT], col \<leftarrow> [0..<TABLE_WIDTH], slot_of (matrix ! row) col \<noteq> zero_slot]"

text \<open>The file system: creating the directory, encoding a result, writing a file.\<close>

record fsys =
  fs_MkdirAll :: "string \<Rightarrow> go_error option"
  fs_MarshalIndent :: "PublishedResult \<Rightarrow> byte list res"
  fs_WriteFile :: "string \<Rightarrow> byte list \<Rightarrow> go_error option"

definition pad_zero :: "nat \<Rightarrow> string \<Rightarrow> string" where
  "pad_zero w s = replicate (w - length s) (CHR ''0'') @ s"

definition show_06d :: "int \<Rightarrow> string" where
  "show_06d i = (if i < 0 then CHR ''-'' # pad_zero 5 (show_nat (nat (- i))) else pad_zero 6 (show_nat (nat i)))"

definition result_file_name :: "int \<Rightarrow> int \<Rightarrow> int \<Rightarrow> string" where
  "result_file_name epochID shardID serverIdx =
     ''epoch-'' @ show_06d epochID @ ''-shard-'' @ show_int shardID @ ''-server-'' @ show_int serverIdx @ ''.json''"

text \<open>\<^verbatim>\<open>filepath.Join\<close> of a directory that is already clean and a plain file name.\<close>

definition filepath_Join :: "string \<Rightarrow> string \<Rightarrow> string" where
  "filepath_Join dir name = dir @ ''/'' @ name"

definition published_result :: "'q leader \<Rightarrow> matrix \<Rightarrow> EpochMeta \<Rightarrow> gotime \<Rightarrow> PublishedResult" where
  "published_result s plaintext e completedAt =
     (let slots = extractPublishedSlots plaintext (ld_globalRowStart s) in
      \<lparr>pr_EpochID = ep_ID e, pr_StartTime = ep_StartTime e, pr_EndTime = ep_EndTime e,
       pr_DurationSeconds = ep_DurationSeconds e, pr_ShardID = ld_ShardID s,
       pr_ServerIndex = int (ld_ServerIdx s), pr_CompletedAt = completedAt,
       pr_GlobalStartRow = ld_globalRowStart s, pr_GlobalEndRow = ld_globalRowStart s + int TABLE_HEIGHT,
       pr_TableHeight = int TABLE_HEIGHT, pr_TableWidth = int TABLE_WIDTH, pr_SlotLength = int SLOT_LENGTH,
       pr_NonZeroSlotCount = int (length slots), pr_Slots = slots\<rparr>)"

text \<open>The line feed that is appended to the encoded result.\<close>

definition line_feed :: byte where "line_feed = 10"

definition writePublishedResult ::
  "fsys \<Rightarrow> string \<Rightarrow> 'q leader \<Rightarrow> matrix \<Rightarrow> EpochMeta \<Rightarrow> gotime \<Rightarrow> string res" where
  "writePublishedResult F resultsDir s plaintext e completedAt =
     (if resultsDir = '''' then Inr ''''
      else case fs_MkdirAll F resultsDir of Some err \<Rightarrow> Inl err | None \<Rightarrow>
      case fs_MarshalIndent F (published_result s plaintext e completedAt) of Inl err \<Rightarrow> Inl err | Inr data \<Rightarrow>
      let path = filepath_Join resultsDir (result_file_name (ep_ID e) (ld_ShardID s) (int (ld_ServerIdx s)))
      in case fs_WriteFile F path (data @ [line_feed]) of Some err \<Rightarrow> Inl err | None \<Rightarrow> Inr path)"

definition sendMergeRequest ::
  "fsys \<Rightarrow> string \<Rightarrow> nat list \<Rightarrow> gotime \<Rightarrow> 'q leader \<Rightarrow> proc list \<Rightarrow> string res \<times> proc list" where
  "sendMergeRequest F resultsDir order clock s ps =
     (case requirePeerRPCClients ''merge'' s of Inl e \<Rightarrow> (Inl e, ps) | Inr _ \<Rightarrow>
      let (res, ps) = fanout ''merge'' order (\<lambda>_. DumpTable) ps in
      case res of Inl e \<Rightarrow> (Inl e, ps) | Inr replies \<Rightarrow>
      let plaintext = revealCleartext replies;
          (stored, p0) = rpc_call (StorePlaintext plaintext) (ps ! 0);
          ps = ps[0 := p0]
      in case stored of Inl e \<Rightarrow> (Inl e, ps) | Inr _ \<Rightarrow>
         (writePublishedResult F resultsDir s plaintext (epoch (ld_ctl s)) clock, ps))"

section \<open>Hexadecimal text\<close>

lemma hex_digit_inject: "c < 16 \<Longrightarrow> d < 16 \<Longrightarrow> hex_digit c = hex_digit d \<Longrightarrow> c = d"
proof -
  assume b: "c < 16" "d < 16" and e: "hex_digit c = hex_digit d"
  have o: "of_char (hex_digit x) = (if x < 10 then 48 + x else 87 + x :: nat)" if "x < 16" for x
    using that by (simp add: hex_digit_def)
  have "of_char (hex_digit c) = (of_char (hex_digit d) :: nat)" using e by simp
  then show "c = d" using b by (auto simp: o split: if_splits)
qed

lemma hex_byte_inject: "hex_byte a = hex_byte b \<longleftrightarrow> a = b"
proof
  assume h: "hex_byte a = hex_byte b"
  have bound: "unat x < 256" for x :: byte using unsigned_less [of x] by simp
  have "unat a div 16 < 16" "unat b div 16 < 16" using bound [of a] bound [of b] by simp_all
  with h have "unat a div 16 = unat b div 16" "unat a mod 16 = unat b mod 16"
    by (auto simp: hex_byte_def intro: hex_digit_inject)
  then have "unat a = unat b" by (metis div_mult_mod_eq)
  then show "a = b" by (simp only: word_unat_eq_iff)
qed simp

lemma hex_bytes_inject: "hex_bytes a = hex_bytes b \<longleftrightarrow> a = b"
proof
  show "hex_bytes a = hex_bytes b \<Longrightarrow> a = b"
  proof (induction a arbitrary: b)
    case Nil
    then show ?case by (cases b) (simp_all add: hex_bytes_def hex_byte_def)
  next
    case (Cons x xs)
    then show ?case by (cases b) (auto simp: hex_bytes_def hex_byte_def hex_byte_inject [unfolded hex_byte_def, simplified])
  qed
qed simp

section \<open>File names\<close>

lemma minus_notin_show_nat: "CHR ''-'' \<notin> set (show_nat n)"
  using set_show_nat digit_not_minus by metis

lemma read_nat_zeros: "read_nat (replicate k (CHR ''0'') @ s) = read_nat s"
  by (induction k) (simp_all add: read_nat_def)

lemma pad_zero_inject: "pad_zero w (show_nat m) = pad_zero w (show_nat n) \<Longrightarrow> m = n"
  unfolding pad_zero_def by (metis read_nat_zeros read_show_nat)

lemma result_file_name_inject:
  assumes "0 \<le> e" "0 \<le> s" "0 \<le> i" "0 \<le> e'" "0 \<le> s'" "0 \<le> i'"
    and name: "result_file_name e s i = result_file_name e' s' i'"
  shows "e = e' \<and> s = s' \<and> i = i'"
proof -
  have p: "CHR ''-'' \<notin> set (pad_zero w (show_nat n))" for w n
    using minus_notin_show_nat [of n] by (simp add: pad_zero_def)
  have "pad_zero 6 (show_nat (nat e)) @ CHR ''-'' # (''shard-'' @ show_nat (nat s) @ CHR ''-'' # (''server-'' @ show_nat (nat i) @ ''.json''))
      = pad_zero 6 (show_nat (nat e')) @ CHR ''-'' # (''shard-'' @ show_nat (nat s') @ CHR ''-'' # (''server-'' @ show_nat (nat i') @ ''.json''))"
    using name assms by (simp add: result_file_name_def show_06d_def show_int_def)
  from append_sep_inject [OF this p p] have 1: "pad_zero 6 (show_nat (nat e)) = pad_zero 6 (show_nat (nat e'))"
    and "show_nat (nat s) @ CHR ''-'' # (''server-'' @ show_nat (nat i) @ ''.json'')
       = show_nat (nat s') @ CHR ''-'' # (''server-'' @ show_nat (nat i') @ ''.json'')" by simp_all
  from append_sep_inject [OF this(2) minus_notin_show_nat minus_notin_show_nat]
  have 2: "nat s = nat s'" "nat i = nat i'" by simp_all
  from pad_zero_inject [OF 1] 2 assms(1-6) show ?thesis by (simp only: eq_nat_nat_iff simp_thms)
qed

section \<open>Published slots\<close>

lemma in_extractPublishedSlots:
  "x \<in> set (extractPublishedSlots m g) \<longleftrightarrow>
     (\<exists>row col. row < TABLE_HEIGHT \<and> col < TABLE_WIDTH \<and> slot_of (m ! row) col \<noteq> zero_slot \<and>
        x = \<lparr>ps_Row = g + int row, ps_Column = int col, ps_MessageHex = hex_bytes (slot_of (m ! row) col)\<rparr>)"
  by (auto simp: extractPublishedSlots_def)

abbreviation ps_pos :: "PublishedSlot \<Rightarrow> int \<times> int" where
  "ps_pos x \<equiv> (ps_Row x, ps_Column x)"

lemma extract_row_positions:
  "map ps_pos [\<lparr>ps_Row = g + int row, ps_Column = int col, ps_MessageHex = h row col\<rparr>. col \<leftarrow> [0..<n], P row col]
     = map (\<lambda>col. (g + int row, int col)) (filter (P row) [0..<n])"
  by (induction n) simp_all

lemma extract_rows:
  "map ps_pos [\<lparr>ps_Row = g + int row, ps_Column = int col, ps_MessageHex = h row col\<rparr>.
       row \<leftarrow> [0..<k], col \<leftarrow> [0..<n], P row col]
     = concat (map (\<lambda>row. map (\<lambda>col. (g + int row, int col)) (filter (P row) [0..<n])) [0..<k])"
proof (induction k)
  case (Suc k)
  show ?case using Suc extract_row_positions [where g = g and row = k and h = h and n = n and P = P] by simp
qed simp

lemma distinct_positions: "distinct (map ps_pos (extractPublishedSlots m g))"
proof -
  have "distinct (concat (map (\<lambda>row. map (\<lambda>col. (g + int row, int col)) (filter (P row) [0..<n])) [0..<k]))" for P n k
    by (induction k) (auto simp: distinct_map inj_on_def)
  then show ?thesis unfolding extractPublishedSlots_def extract_rows by simp
qed

section \<open>Merging\<close>

lemma sendMergeRequest_two:
  assumes peers: "requirePeerRPCClients ''merge'' s = Inr ()"
    and s0: "server_ok 0 s0" and s1: "server_ok 1 s1" and order: "set order \<subseteq> {0, 1}"
  defines "p \<equiv> xor_matrix (contents (entries s0)) (contents (entries s1))"
  shows "\<exists>s0' s1'. sendMergeRequest F dir order clock s [Up s0, Up s1]
     = (writePublishedResult F dir s p (epoch (ld_ctl s)) clock, [Up s0', Up s1']) \<and>
       plain s0' = p \<and> server_ok 0 s0' \<and> server_ok 1 s1'"
proof -
  have t: "table_ok (entries s0)" "table_ok (entries s1)" using s0 s1 by (simp_all add: server_ok_def)
  obtain t0 t1 where d: "CopyToAndClear (entries s0) = Some (contents (entries s0), t0)"
    "CopyToAndClear (entries s1) = Some (contents (entries s1), t1)"
    using CopyToAndClear_spec t by blast
  have ok: "table_ok t0" "table_ok t1" using CopyToAndClear_ok d t by blast+
  have f: "fanout ''merge'' order (\<lambda>_. DumpTable) [Up s0, Up s1]
      = (Inr [contents (entries s0), contents (entries s1)], [Up (s0\<lparr>entries := t0\<rparr>), Up (s1\<lparr>entries := t1\<rparr>)])"
    using d order by (intro fanout_two) (simp_all add: DumpTable_def)
  have p: "revealCleartext [contents (entries s0), contents (entries s1)] = p"
    unfolding p_def by (intro revealCleartext_two contents_ok t)
  have "sendMergeRequest F dir order clock s [Up s0, Up s1]
      = (writePublishedResult F dir s p (epoch (ld_ctl s)) clock,
         [Up (s0\<lparr>entries := t0, plain := p\<rparr>), Up (s1\<lparr>entries := t1\<rparr>)])"
    unfolding sendMergeRequest_def peers by (simp add: f p StorePlaintext_def rpc_call_def)
  then show ?thesis using s0 s1 ok
    by (intro exI [of _ "s0\<lparr>entries := t0, plain := p\<rparr>"] exI [of _ "s1\<lparr>entries := t1\<rparr>"])
      (simp add: server_ok_def)
qed

section \<open>Properties\<close>

text \<open>The published slots are exactly the non-zero slots of the merged table: a slot is published if
  and only if it is not all zero, with its global row and column, no position twice, and its
  hexadecimal text determines its contents.\<close>

theorem published_slots_exact:
  "(\<forall>row col. row < TABLE_HEIGHT \<and> col < TABLE_WIDTH \<longrightarrow>
      ((g + int row, int col) \<in> ps_pos ` set (extractPublishedSlots m g) \<longleftrightarrow> slot_of (m ! row) col \<noteq> zero_slot)) \<and>
   (\<forall>x \<in> set (extractPublishedSlots m g). \<exists>row < TABLE_HEIGHT. \<exists>col < TABLE_WIDTH.
      ps_Row x = g + int row \<and> ps_Column x = int col \<and>
      (\<forall>s. ps_MessageHex x = hex_bytes s \<longleftrightarrow> s = slot_of (m ! row) col)) \<and>
   distinct (map ps_pos (extractPublishedSlots m g))"
proof (intro conjI allI ballI impI)
  fix row col assume "row < TABLE_HEIGHT \<and> col < TABLE_WIDTH"
  then show "(g + int row, int col) \<in> ps_pos ` set (extractPublishedSlots m g) \<longleftrightarrow> slot_of (m ! row) col \<noteq> zero_slot"
    by (force simp: in_extractPublishedSlots image_iff)
next
  fix x assume "x \<in> set (extractPublishedSlots m g)"
  then show "\<exists>row < TABLE_HEIGHT. \<exists>col < TABLE_WIDTH. ps_Row x = g + int row \<and> ps_Column x = int col \<and>
      (\<forall>s. ps_MessageHex x = hex_bytes s \<longleftrightarrow> s = slot_of (m ! row) col)"
    by (auto simp: in_extractPublishedSlots hex_bytes_inject)
qed (rule distinct_positions)

theorem published_slots_exact_witness:
  "3 < TABLE_HEIGHT \<and> 2 < TABLE_WIDTH \<and>
     ((10 + int 3, int 2) \<in> ps_pos ` set (extractPublishedSlots zero_matrix 10)
        \<longleftrightarrow> slot_of (zero_matrix ! 3) 2 \<noteq> zero_slot)"
proof -
  have "3 < TABLE_HEIGHT \<and> 2 < TABLE_WIDTH" by (simp add: TABLE_HEIGHT_eq TABLE_WIDTH_def)
  with published_slots_exact [of 10 zero_matrix] show ?thesis by blast
qed

text \<open>Results of different epochs, shards or servers are written to different files: the file name
  determines epoch, shard and server, for non-negative numbers of any size.\<close>

theorem result_files_distinct:
  assumes "0 \<le> e" "0 \<le> s" "0 \<le> i" "0 \<le> e'" "0 \<le> s'" "0 \<le> i'"
    and "result_file_name e s i = result_file_name e' s' i'"
  shows "e = e' \<and> s = s' \<and> i = i'"
  using assms by (rule result_file_name_inject)

theorem result_files_distinct_witness: "(12::int) = 12 \<and> (3::int) = 3 \<and> (0::int) = 0"
  by (rule result_files_distinct [OF _ _ _ _ _ _ refl]) simp_all


definition sample_fsys :: fsys where
  "sample_fsys = \<lparr>fs_MkdirAll = (\<lambda>_. None), fs_MarshalIndent = (\<lambda>r. Inr (replicate (nat (pr_EpochID r)) 7)),
                  fs_WriteFile = (\<lambda>_ _. None)\<rparr>"

definition ready_leader :: "memoryCompletedUploadQueue leader" where
  "ready_leader = active_leader\<lparr>ld_ctl := (ld_ctl active_leader)\<lparr>peerState := PeerConnectionsReady\<rparr>\<rparr>"

lemma ready_leader_peers: "requirePeerRPCClients op ready_leader = Inr ()"
  by (simp add: requirePeerRPCClients_def requirePeerReady_def controlSnapshotCommand_def ready_leader_def
      active_leader_def sample_leader_def isLeader_def NUM_SERVERS_def upt_rec)


end
