(* ===== verification/Ingestion_Worker.thy ===== *)
theory Ingestion_Worker
  imports Epoch_Publish
begin

text \<open>
  The ingestion workers of a leader (\<^verbatim>\<open>processRequest\<close>, \<^verbatim>\<open>processIngestionJob\<close>, the diagnostics, the
  setters and \<^verbatim>\<open>Status\<close> of \<^verbatim>\<open>src/db/server.go\<close>).

  A worker takes a job from the queue, asks the ledger for a processing lease, has the servers
  prepare and commit the upload (\<^verbatim>\<open>processUploadFn\<close> and \<^verbatim>\<open>commitUploadFn\<close>, fields of the server that hold
  functions), completes the lease and acknowledges the job. The queue and the ledger are the
  interfaces of the previous theories; a locale joins their contracts.

  Shown here: a job is acknowledged only when its upload is committed in the ledger; an upload
  that is committed is not applied again; a job that fails stays owed by the queue; the counters
  add up. And what retrying costs: an upload that is applied and then fails to commit is applied
  again after its lease has expired, which removes it from the tables.
\<close>

record ingestionDiagnostics =
  processedCount :: int
  ackCount :: int
  receiveErrorCount :: int
  processErrorCount :: int
  ackErrorCount :: int
  committedCount :: int
  duplicateSkipCount :: int
  ledgerBeginErrorCount :: int
  ledgerCompleteErrorCount :: int
  lastError :: string
  lastErrorTime :: gotime
  ledgerLastError :: string
  ledgerLastErrorTime :: gotime

record 'l ledger_ops =
  lo_begin :: "CompletedUploadMessage \<Rightarrow> gotime \<Rightarrow> duration \<Rightarrow> 'l \<Rightarrow> CompletedUploadLedgerBeginResult res \<times> 'l"
  lo_complete :: "CompletedUploadProcessingLease \<Rightarrow> gotime \<Rightarrow> 'l \<Rightarrow> unit res \<times> 'l"

definition mem_ledger_ops :: "memoryCompletedUploadLedger ledger_ops" where
  "mem_ledger_ops = \<lparr>lo_begin = (\<lambda>m t d l. BeginProcessing None t m t d l),
                     lo_complete = (\<lambda>L t l. CompleteProcessing None t L t l)\<rparr>"

text \<open>\<open>wk_world\<close> is what the upload functions act on: the server processes and the random source.\<close>

record ('q, 'l, 'w) worker =
  wk_leader :: "'q leader"
  wk_ledger :: 'l
  wk_diag :: ingestionDiagnostics
  wk_clientsServed :: int
  wk_batchSize :: int
  wk_errorBackoff :: duration
  wk_ttl :: duration
  wk_demoFail :: bool
  wk_demoFailed :: bool
  wk_world :: 'w

record 'w upload_fns =
  processUploadFn :: "CompletedUploadMessage \<Rightarrow> 'w \<Rightarrow> bool res \<times> 'w"
  commitUploadFn :: "int \<Rightarrow> bool \<Rightarrow> 'w \<Rightarrow> unit res \<times> 'w"

section \<open>Diagnostics\<close>

abbreviation diag_update ::
  "(ingestionDiagnostics \<Rightarrow> ingestionDiagnostics) \<Rightarrow> ('q, 'l, 'w) worker \<Rightarrow> ('q, 'l, 'w) worker" where
  "diag_update f k \<equiv> k\<lparr>wk_diag := f (wk_diag k)\<rparr>"

definition recordIngestionProcessed :: "('q, 'l, 'w) worker \<Rightarrow> ('q, 'l, 'w) worker" where
  "recordIngestionProcessed k = diag_update (\<lambda>d. d\<lparr>processedCount := processedCount d + 1\<rparr>) k"

definition recordIngestionAck :: "('q, 'l, 'w) worker \<Rightarrow> ('q, 'l, 'w) worker" where
  "recordIngestionAck k = diag_update (\<lambda>d. d\<lparr>ackCount := ackCount d + 1\<rparr>) k"

definition recordCompletedUploadCommitted :: "('q, 'l, 'w) worker \<Rightarrow> ('q, 'l, 'w) worker" where
  "recordCompletedUploadCommitted k = diag_update (\<lambda>d. d\<lparr>committedCount := committedCount d + 1\<rparr>) k"

definition recordCompletedUploadDuplicateSkip :: "('q, 'l, 'w) worker \<Rightarrow> ('q, 'l, 'w) worker" where
  "recordCompletedUploadDuplicateSkip k = diag_update (\<lambda>d. d\<lparr>duplicateSkipCount := duplicateSkipCount d + 1\<rparr>) k"

definition recordIngestionError :: "string \<Rightarrow> go_error \<Rightarrow> gotime \<Rightarrow> ('q, 'l, 'w) worker \<Rightarrow> ('q, 'l, 'w) worker" where
  "recordIngestionError kind err now k =
     diag_update (\<lambda>d.
       (if kind = ''receive'' then d\<lparr>receiveErrorCount := receiveErrorCount d + 1\<rparr>
        else if kind = ''process'' then d\<lparr>processErrorCount := processErrorCount d + 1\<rparr>
        else if kind = ''ack'' then d\<lparr>ackErrorCount := ackErrorCount d + 1\<rparr>
        else d)\<lparr>lastError := error_text err, lastErrorTime := now\<rparr>) k"

definition recordCompletedUploadLedgerError ::
  "string \<Rightarrow> go_error \<Rightarrow> gotime \<Rightarrow> ('q, 'l, 'w) worker \<Rightarrow> ('q, 'l, 'w) worker" where
  "recordCompletedUploadLedgerError kind err now k =
     diag_update (\<lambda>d.
       (if kind = ''begin'' then d\<lparr>ledgerBeginErrorCount := ledgerBeginErrorCount d + 1\<rparr>
        else if kind = ''complete'' then d\<lparr>ledgerCompleteErrorCount := ledgerCompleteErrorCount d + 1\<rparr>
        else d)\<lparr>ledgerLastError := error_text err, ledgerLastErrorTime := now\<rparr>) k"

definition ingestionDiagnosticsSnapshot :: "('q, 'l, 'w) worker \<Rightarrow> ingestionDiagnostics" where
  "ingestionDiagnosticsSnapshot k = wk_diag k"

definition notifyIngestionQueueDrained ::
  "'q queue_ops \<Rightarrow> ('q, 'l, 'w) worker \<Rightarrow> notification list \<times> ('q, 'l, 'w) worker" where
  "notifyIngestionQueueDrained Q k =
     (if \<not> isLeader (wk_leader k) then ([], k)
      else let (ns, s) = ingestionQueueDrainedCommand Q (wk_leader k) in (ns, k\<lparr>wk_leader := s\<rparr>))"

definition shouldDemoFailIngestionAckOnce :: "('q, 'l, 'w) worker \<Rightarrow> bool \<times> ('q, 'l, 'w) worker" where
  "shouldDemoFailIngestionAckOnce k =
     (if \<not> wk_demoFail k \<or> wk_demoFailed k then (False, k) else (True, k\<lparr>wk_demoFailed := True\<rparr>))"

section \<open>One job\<close>

text \<open>Acknowledging: the tail that the duplicate and the normal path share.\<close>

definition ack_job ::
  "'q queue_ops \<Rightarrow> gotime \<Rightarrow> string \<Rightarrow> ('q, 'l, 'w) worker \<Rightarrow> notification list \<times> ('q, 'l, 'w) worker" where
  "ack_job Q now receipt k =
     (case q_ack Q receipt (ld_queue (wk_leader k)) of
        (Inl err, q) \<Rightarrow> ([], recordIngestionError ''ack'' err now (k\<lparr>wk_leader := (wk_leader k)\<lparr>ld_queue := q\<rparr>\<rparr>))
      | (Inr _, q) \<Rightarrow>
          notifyIngestionQueueDrained Q (recordIngestionAck (k\<lparr>wk_leader := (wk_leader k)\<lparr>ld_queue := q\<rparr>\<rparr>)))"

text \<open>Completing the lease and acknowledging, once the upload is applied.\<close>

definition complete_job ::
  "'q queue_ops \<Rightarrow> 'l ledger_ops \<Rightarrow> gotime \<Rightarrow> string \<Rightarrow> CompletedUploadProcessingLease \<Rightarrow> ('q, 'l, 'w) worker
     \<Rightarrow> notification list \<times> ('q, 'l, 'w) worker" where
  "complete_job Q L now receipt lease k =
     (case lo_complete L lease now (wk_ledger k) of
        (Inl err, l) \<Rightarrow> ([], recordCompletedUploadLedgerError ''complete'' err now (k\<lparr>wk_ledger := l\<rparr>))
      | (Inr _, l) \<Rightarrow>
          let k = recordCompletedUploadCommitted (k\<lparr>wk_ledger := l\<rparr>);
              (demo, k) = shouldDemoFailIngestionAckOnce k
          in if demo then ([], recordIngestionError ''ack'' (ErrorString ''demo ingestion ack failure'') now k)
             else ack_job Q now receipt k)"

definition processIngestionJob ::
  "'q queue_ops \<Rightarrow> 'l ledger_ops \<Rightarrow> 'w upload_fns \<Rightarrow> gotime \<Rightarrow> QueuedCompletedUploadMessage \<Rightarrow> ('q, 'l, 'w) worker
     \<Rightarrow> notification list \<times> ('q, 'l, 'w) worker" where
  "processIngestionJob Q L F now item k =
     (let msg = (Message_of item)\<lparr>m_ReplicaID := ld_replicaID (wk_leader k)\<rparr> in
      case lo_begin L msg now (wk_ttl k) (wk_ledger k) of
        (Inl err, l) \<Rightarrow> ([], recordCompletedUploadLedgerError ''begin'' err now (k\<lparr>wk_ledger := l\<rparr>))
      | (Inr begun, l) \<Rightarrow>
          let k = k\<lparr>wk_ledger := l\<rparr> in
          if AlreadyCommitted begun
          then ack_job Q now (ReceiptHandle item) (recordCompletedUploadDuplicateSkip k)
          else let k = k\<lparr>wk_clientsServed := wk_clientsServed k + 1\<rparr> in
            case processUploadFn F msg (wk_world k) of
              (Inl err, w) \<Rightarrow> ([], recordIngestionError ''process'' err now (k\<lparr>wk_world := w\<rparr>))
            | (Inr shouldCommit, w) \<Rightarrow>
                (case commitUploadFn F (m_Uuid msg) shouldCommit w of
                   (Inl err, w) \<Rightarrow> ([], recordIngestionError ''process'' err now (k\<lparr>wk_world := w\<rparr>))
                 | (Inr _, w) \<Rightarrow>
                     complete_job Q L now (ReceiptHandle item) (br_Lease begun)
                       (recordIngestionProcessed (k\<lparr>wk_world := w\<rparr>))))"

text \<open>One turn of the loop of a worker: receive a batch (\<open>None\<close> while it waits) and process it.\<close>

definition processRequest_turn ::
  "'q queue_ops \<Rightarrow> 'l ledger_ops \<Rightarrow> 'w upload_fns \<Rightarrow> gotime \<Rightarrow> ('q, 'l, 'w) worker
     \<Rightarrow> (notification list \<times> ('q, 'l, 'w) worker) option" where
  "processRequest_turn Q L F now k =
     (case q_receive Q (wk_batchSize k) (ld_queue (wk_leader k)) of
        None \<Rightarrow> None
      | Some (Inl err, q) \<Rightarrow>
          Some ([], recordIngestionError ''receive'' err now (k\<lparr>wk_leader := (wk_leader k)\<lparr>ld_queue := q\<rparr>\<rparr>))
      | Some (Inr items, q) \<Rightarrow>
          Some (foldl (\<lambda>(ns, k) item. let (ns', k) = processIngestionJob Q L F now item k in (ns @ ns', k))
                  ([], k\<lparr>wk_leader := (wk_leader k)\<lparr>ld_queue := q\<rparr>\<rparr>) items))"

section \<open>Settings and status\<close>

definition SetReplicaID :: "string \<Rightarrow> 'q leader \<Rightarrow> unit res \<times> 'q leader" where
  "SetReplicaID replicaID s =
     (case validateCompletedUploadReplicaID replicaID of
        Inl err \<Rightarrow> (Inl err, s)
      | Inr _ \<Rightarrow> (Inr (), s\<lparr>ld_replicaID := (if replicaID = '''' then CompletedUploadReplicaActive else replicaID)\<rparr>))"

definition SetGlobalRowStart :: "int \<Rightarrow> 'q leader \<Rightarrow> unit res \<times> 'q leader" where
  "SetGlobalRowStart globalRowStart s =
     (if globalRowStart < 0 then (Inl (ErrorString ''global row start must be non-negative''), s)
      else (Inr (), s\<lparr>ld_globalRowStart := globalRowStart\<rparr>))"

definition SetIngestionWorkerConfig :: "int \<Rightarrow> duration \<Rightarrow> ('q, 'l, 'w) worker \<Rightarrow> unit res \<times> ('q, 'l, 'w) worker" where
  "SetIngestionWorkerConfig receiveBatchSize errorBackoff k =
     (if receiveBatchSize < 1 \<or> 10 < receiveBatchSize
      then (Inl (ErrorString ''ingestion receive batch size must be between 1 and 10''), k)
      else if errorBackoff \<le> 0 then (Inl (ErrorString ''ingestion worker error backoff must be positive''), k)
      else (Inr (), k\<lparr>wk_batchSize := receiveBatchSize, wk_errorBackoff := errorBackoff\<rparr>))"

definition SetCompletedUploadProcessingTTL :: "duration \<Rightarrow> ('q, 'l, 'w) worker \<Rightarrow> unit res \<times> ('q, 'l, 'w) worker" where
  "SetCompletedUploadProcessingTTL ttl k =
     (if ttl \<le> 0 then (Inl (ErrorString ''completed upload processing ttl must be positive''), k)
      else (Inr (), k\<lparr>wk_ttl := ttl\<rparr>))"

definition SetDemoFailIngestionAckOnce :: "bool \<Rightarrow> ('q, 'l, 'w) worker \<Rightarrow> ('q, 'l, 'w) worker" where
  "SetDemoFailIngestionAckOnce enabled k = k\<lparr>wk_demoFail := enabled, wk_demoFailed := False\<rparr>"

record StatusReply =
  sr_Healthy :: bool
  sr_IsLeader :: bool
  sr_ServerIndex :: int
  sr_ShardID :: int
  sr_EpochID :: int
  sr_State :: string
  sr_StartUnix :: int
  sr_EndUnix :: int
  sr_DurationSecs :: int
  sr_Accepting :: bool
  sr_LastResult :: string
  sr_PeerState :: string
  sr_PeerError :: string
  sr_ReplicaID :: string
  sr_IngestionQueueBackend :: string
  sr_StandbyIngestionFanoutConfigured :: bool
  sr_IngestionQueueDepth :: int
  sr_IngestionInflightCount :: int
  sr_Diagnostics :: ingestionDiagnostics
  sr_IngestionLastErrorUnix :: int
  sr_CompletedUploadLedgerBackend :: string
  sr_CompletedUploadLedgerLastErrorUnix :: int

text \<open>
  \<open>sr_Diagnostics\<close> stands for the eleven reply fields that are copied from the snapshot of the
  diagnostics; the backends are the names the queue and the ledger give themselves.
\<close>

definition Status :: "'q queue_ops \<Rightarrow> string \<Rightarrow> string \<Rightarrow> ('q, 'l, 'w) worker \<Rightarrow> StatusReply" where
  "Status Q queueBackend ledgerBackend k =
     (let s = wk_leader k; stats = q_stats Q (ld_queue s); d = ingestionDiagnosticsSnapshot k;
          snapshot = controlSnapshotCommand s; e = cs_epoch snapshot;
          reply = \<lparr>sr_Healthy = True, sr_IsLeader = isLeader s, sr_ServerIndex = int (ld_ServerIdx s),
                   sr_ShardID = ld_ShardID s, sr_EpochID = 0, sr_State = DbState_String EpochStateNoActive,
                   sr_StartUnix = 0, sr_EndUnix = 0, sr_DurationSecs = 0, sr_Accepting = False,
                   sr_LastResult = '''', sr_PeerState = ''not_applicable'', sr_PeerError = '''',
                   sr_ReplicaID = ld_replicaID s, sr_IngestionQueueBackend = queueBackend,
                   sr_StandbyIngestionFanoutConfigured = ld_standbyFanout s,
                   sr_IngestionQueueDepth = Depth stats, sr_IngestionInflightCount = Inflight stats,
                   sr_Diagnostics = d,
                   sr_IngestionLastErrorUnix = (if IsZero (lastErrorTime d) then 0 else Unix (lastErrorTime d)),
                   sr_CompletedUploadLedgerBackend = ledgerBackend,
                   sr_CompletedUploadLedgerLastErrorUnix =
                     (if IsZero (ledgerLastErrorTime d) then 0 else Unix (ledgerLastErrorTime d))\<rparr>
      in if \<not> isLeader s then reply
         else reply\<lparr>sr_EpochID := ep_ID e, sr_State := DbState_String (ep_State e),
                    sr_StartUnix := Unix (ep_StartTime e), sr_EndUnix := Unix (ep_EndTime e),
                    sr_DurationSecs := ep_DurationSeconds e, sr_Accepting := cs_accepting snapshot,
                    sr_LastResult := cs_lastResult snapshot,
                    sr_PeerState := PeerConnectionState_String (cs_peerState snapshot),
                    sr_PeerError := cs_peerError snapshot,
                    sr_Healthy := cs_peerState snapshot \<noteq> PeerConnectionsFailed\<rparr>)"

section \<open>What a job changes\<close>

lemmas record_defs = recordIngestionProcessed_def recordIngestionAck_def recordCompletedUploadCommitted_def
  recordCompletedUploadDuplicateSkip_def recordIngestionError_def recordCompletedUploadLedgerError_def

abbreviation wk_queue :: "('q, 'l, 'w) worker \<Rightarrow> 'q" where
  "wk_queue k \<equiv> ld_queue (wk_leader k)"

lemma notify_keeps:
  assumes "notifyIngestionQueueDrained Q k = (ns, k')"
  shows "wk_queue k' = wk_queue k" "wk_ledger k' = wk_ledger k" "wk_diag k' = wk_diag k" "wk_world k' = wk_world k"
  using assms startMerge_keeps(2) [of Q "wk_leader k"]
  by (auto simp: notifyIngestionQueueDrained_def ingestionQueueDrainedCommand_def split: if_splits prod.splits)

lemma ack_job_cases:
  assumes "ack_job Q now receipt k = (ns, k')"
  obtains (err) e where "q_ack Q receipt (wk_queue k) = (Inl e, wk_queue k')"
      "wk_diag k' = (wk_diag k)\<lparr>ackErrorCount := ackErrorCount (wk_diag k) + 1, lastError := error_text e, lastErrorTime := now\<rparr>"
      "wk_ledger k' = wk_ledger k" "wk_world k' = wk_world k"
  | (ok) "q_ack Q receipt (wk_queue k) = (Inr (), wk_queue k')"
      "wk_diag k' = (wk_diag k)\<lparr>ackCount := ackCount (wk_diag k) + 1\<rparr>"
      "wk_ledger k' = wk_ledger k" "wk_world k' = wk_world k"
proof (cases "q_ack Q receipt (wk_queue k)")
  case (Pair r q)
  show ?thesis
  proof (cases r)
    case (Inl e)
    then show ?thesis using assms Pair by (intro err [of e]) (auto simp: ack_job_def record_defs)
  next
    case (Inr u)
    then have "notifyIngestionQueueDrained Q (recordIngestionAck (k\<lparr>wk_leader := (wk_leader k)\<lparr>ld_queue := q\<rparr>\<rparr>)) = (ns, k')"
      using assms Pair by (simp add: ack_job_def)
    from notify_keeps [OF this] show ?thesis
      using Pair Inr by (intro ok) (simp_all add: recordIngestionAck_def)
  qed
qed

lemma complete_job_cases:
  assumes "complete_job Q L now receipt lease k = (ns, k')"
  obtains (err) e where "lo_complete L lease now (wk_ledger k) = (Inl e, wk_ledger k')" "wk_queue k' = wk_queue k"
      "wk_diag k' = (wk_diag k)\<lparr>ledgerCompleteErrorCount := ledgerCompleteErrorCount (wk_diag k) + 1,
         ledgerLastError := error_text e, ledgerLastErrorTime := now\<rparr>" "wk_world k' = wk_world k"
  | (noack) e where "lo_complete L lease now (wk_ledger k) = (Inr (), wk_ledger k')" "wk_world k' = wk_world k"
      "wk_diag k' = (wk_diag k)\<lparr>committedCount := committedCount (wk_diag k) + 1,
         ackErrorCount := ackErrorCount (wk_diag k) + 1, lastError := error_text e, lastErrorTime := now\<rparr>"
      "wk_queue k' = wk_queue k \<or> q_ack Q receipt (wk_queue k) = (Inl e, wk_queue k')"
  | (ack) "lo_complete L lease now (wk_ledger k) = (Inr (), wk_ledger k')" "wk_world k' = wk_world k"
      "wk_diag k' = (wk_diag k)\<lparr>committedCount := committedCount (wk_diag k) + 1, ackCount := ackCount (wk_diag k) + 1\<rparr>"
      "q_ack Q receipt (wk_queue k) = (Inr (), wk_queue k')"
proof (cases "lo_complete L lease now (wk_ledger k)")
  case (Pair r l)
  show ?thesis
  proof (cases r)
    case (Inl e)
    then show ?thesis using assms Pair by (intro err [of e]) (auto simp: complete_job_def record_defs)
  next
    case (Inr u)
    let ?k = "recordCompletedUploadCommitted (k\<lparr>wk_ledger := l\<rparr>)"
    obtain demo k2 where d: "shouldDemoFailIngestionAckOnce ?k = (demo, k2)" by fastforce
    have k2: "wk_queue k2 = wk_queue k" "wk_ledger k2 = l" "wk_world k2 = wk_world k"
      "wk_diag k2 = (wk_diag k)\<lparr>committedCount := committedCount (wk_diag k) + 1\<rparr>"
      using d by (auto simp: shouldDemoFailIngestionAckOnce_def record_defs split: if_splits)
    show ?thesis
    proof (cases demo)
      case True
      then have "k' = recordIngestionError ''ack'' (ErrorString ''demo ingestion ack failure'') now k2"
        using assms Pair Inr d by (simp add: complete_job_def)
      then show ?thesis using Pair Inr k2
        by (intro noack [of "ErrorString ''demo ingestion ack failure''"]) (simp_all add: record_defs)
    next
      case False
      then have a: "ack_job Q now receipt k2 = (ns, k')" using assms Pair Inr d by (simp add: complete_job_def)
      show ?thesis
        by (rule ack_job_cases [OF a]) (use Pair Inr k2 in \<open>auto intro: noack ack\<close>)
    qed
  qed
qed

lemma job_cases:
  fixes item :: QueuedCompletedUploadMessage
  assumes job: "processIngestionJob Q L F now item k = (ns, k')"
  defines "msg \<equiv> (Message_of item)\<lparr>m_ReplicaID := ld_replicaID (wk_leader k)\<rparr>"
  obtains (begin_err) e where "lo_begin L msg now (wk_ttl k) (wk_ledger k) = (Inl e, wk_ledger k')"
      "wk_queue k' = wk_queue k" "wk_world k' = wk_world k"
      "wk_diag k' = (wk_diag k)\<lparr>ledgerBeginErrorCount := ledgerBeginErrorCount (wk_diag k) + 1,
         ledgerLastError := error_text e, ledgerLastErrorTime := now\<rparr>"
  | (duplicate) x k1 where "lo_begin L msg now (wk_ttl k) (wk_ledger k) = (Inr x, wk_ledger k1)" "AlreadyCommitted x"
      "ack_job Q now (ReceiptHandle item) k1 = (ns, k')" "wk_queue k1 = wk_queue k" "wk_world k1 = wk_world k"
      "wk_diag k1 = (wk_diag k)\<lparr>duplicateSkipCount := duplicateSkipCount (wk_diag k) + 1\<rparr>"
  | (process_err) x e where "lo_begin L msg now (wk_ttl k) (wk_ledger k) = (Inr x, wk_ledger k')" "\<not> AlreadyCommitted x"
      "wk_queue k' = wk_queue k"
      "wk_diag k' = (wk_diag k)\<lparr>processErrorCount := processErrorCount (wk_diag k) + 1,
         lastError := error_text e, lastErrorTime := now\<rparr>"
  | (applied) x k1 where "lo_begin L msg now (wk_ttl k) (wk_ledger k) = (Inr x, wk_ledger k1)" "\<not> AlreadyCommitted x"
      "complete_job Q L now (ReceiptHandle item) (br_Lease x) k1 = (ns, k')" "wk_queue k1 = wk_queue k"
      "wk_diag k1 = (wk_diag k)\<lparr>processedCount := processedCount (wk_diag k) + 1\<rparr>"
proof (cases "lo_begin L msg now (wk_ttl k) (wk_ledger k)")
  case (Pair r l)
  note job' = job [unfolded processIngestionJob_def msg_def [symmetric] Let_def Pair]
  show ?thesis
  proof (cases r)
    case (Inl e)
    then show ?thesis using job' Pair by (intro begin_err [of e]) (auto simp: record_defs)
  next
    case r: (Inr x)
    show ?thesis
    proof (cases "AlreadyCommitted x")
      case True
      then show ?thesis using job' Pair r
        by (intro duplicate [of x "recordCompletedUploadDuplicateSkip (k\<lparr>wk_ledger := l\<rparr>)"]) (auto simp: record_defs)
    next
      case n: False
      obtain pr w where p: "processUploadFn F msg (wk_world k) = (pr, w)" by fastforce
      show ?thesis
      proof (cases pr)
        case (Inl e)
        then show ?thesis using job' Pair r n p by (intro process_err [of x e]) (auto simp: record_defs)
      next
        case pi: (Inr c)
        obtain cr w' where cw: "commitUploadFn F (m_Uuid msg) c w = (cr, w')" by fastforce
        show ?thesis
        proof (cases cr)
          case (Inl e)
          then show ?thesis using job' Pair r n p pi cw by (intro process_err [of x e]) (auto simp: record_defs)
        next
          case (Inr u)
          then show ?thesis using job' Pair r n p pi cw
            by (intro applied [of x "recordIngestionProcessed (k\<lparr>wk_ledger := l,
              wk_clientsServed := wk_clientsServed k + 1, wk_world := w'\<rparr>)"]) (auto simp: record_defs)
        qed
      qed
    qed
  qed
qed

section \<open>The contract of the queue and the ledger together\<close>

locale ingestion_worker =
  q: completed_upload_queue "q_enqueue Q" "q_receive Q" "q_ack Q" "q_stats Q" qinv owes +
  l: completed_upload_ledger "lo_begin L" "lo_complete L" committed holder
  for Q :: "'q queue_ops" and qinv owes and L :: "'l ledger_ops" and committed holder
begin

lemma job_ack_committed:
  assumes job: "processIngestionJob Q L F now item k = (ns, k')"
    and ack: "ackCount (wk_diag k') \<noteq> ackCount (wk_diag k)"
  shows "message_key ((Message_of item)\<lparr>m_ReplicaID := ld_replicaID (wk_leader k)\<rparr>) \<in> committed (wk_ledger k')"
  using job
proof (cases rule: job_cases)
  case (begin_err e)
  then show ?thesis using ack by simp
next
  case (duplicate x k1)
  have "wk_ledger k' = wk_ledger k1" using duplicate(3) by (rule ack_job_cases)
  then show ?thesis using l.begin_skip [OF duplicate(1)] l.begin_committed [OF duplicate(1)] duplicate(2) by simp
next
  case (process_err x e)
  then show ?thesis using ack by simp
next
  case (applied x k1)
  have key: "lease_key (br_Lease x) = message_key ((Message_of item)\<lparr>m_ReplicaID := ld_replicaID (wk_leader k)\<rparr>)"
    using l.begin_grant [OF applied(1,2)] by simp
  from applied(3) show ?thesis
  proof (cases rule: complete_job_cases)
    case (err e)
    then show ?thesis using ack applied(5) by simp
  next
    case (noack e)
    then show ?thesis using ack applied(5) by simp
  next
    case ack
    then show ?thesis using l.complete_ok [of "br_Lease x"] key by auto
  qed
qed

lemma job_duplicate_untouched:
  assumes job: "processIngestionJob Q L F now item k = (ns, k')"
    and dup: "message_key ((Message_of item)\<lparr>m_ReplicaID := ld_replicaID (wk_leader k)\<rparr>) \<in> committed (wk_ledger k)"
  shows "wk_world k' = wk_world k \<and> processedCount (wk_diag k') = processedCount (wk_diag k)"
  using job
proof (cases rule: job_cases)
  case (begin_err e)
  then show ?thesis by simp
next
  case (duplicate x k1)
  show ?thesis by (rule ack_job_cases [OF duplicate(3)]) (use duplicate in auto)
next
  case (process_err x e)
  then show ?thesis using l.begin_skip [OF process_err(1)] dup by simp
next
  case (applied x k1)
  then show ?thesis using l.begin_skip [OF applied(1)] dup by simp
qed

lemma job_unacked_stays_owed:
  assumes job: "processIngestionJob Q L F now item k = (ns, k')" and inv: "qinv (wk_queue k)"
    and ack: "ackCount (wk_diag k') = ackCount (wk_diag k)"
  shows "owes (wk_queue k') = owes (wk_queue k)"
  using job
proof (cases rule: job_cases)
  case (begin_err e)
  then show ?thesis by simp
next
  case (duplicate x k1)
  show ?thesis
    by (rule ack_job_cases [OF duplicate(3)]) (use duplicate ack inv q.ack_err in auto)
next
  case (process_err x e)
  then show ?thesis by simp
next
  case (applied x k1)
  show ?thesis
    by (rule complete_job_cases [OF applied(3)]) (use applied ack inv q.ack_err in auto)
qed

end

interpretation mem_worker: ingestion_worker
  mem_queue_ops queue_ok owed mem_ledger_ops ledger_committed ledger_holder
proof -
  show "ingestion_worker mem_queue_ops queue_ok owed mem_ledger_ops ledger_committed ledger_holder"
    unfolding ingestion_worker_def mem_queue_ops_def mem_ledger_ops_def
    using mem_queue.completed_upload_queue_axioms mem_ledger.completed_upload_ledger_axioms by simp
qed

section \<open>Counters\<close>

text \<open>Every applied upload is committed or counted as a ledger error; every committed or duplicate one is
  acknowledged or counted as an acknowledgement error.\<close>

definition diag_balanced :: "ingestionDiagnostics \<Rightarrow> bool" where
  "diag_balanced d \<longleftrightarrow> committedCount d + ledgerCompleteErrorCount d = processedCount d \<and>
     ackCount d + ackErrorCount d = committedCount d + duplicateSkipCount d"

lemma job_balanced:
  assumes job: "processIngestionJob Q L F now item k = (ns, k')" and b: "diag_balanced (wk_diag k)"
  shows "diag_balanced (wk_diag k')"
  using job
proof (cases rule: job_cases)
  case (begin_err e)
  then show ?thesis using b by (simp add: diag_balanced_def)
next
  case (duplicate x k1)
  show ?thesis by (rule ack_job_cases [OF duplicate(3)]) (use duplicate b in \<open>auto simp: diag_balanced_def\<close>)
next
  case (process_err x e)
  then show ?thesis using b by (simp add: diag_balanced_def)
next
  case (applied x k1)
  show ?thesis by (rule complete_job_cases [OF applied(3)]) (use applied b in \<open>auto simp: diag_balanced_def\<close>)
qed

lemma jobs_balanced:
  "diag_balanced (wk_diag k) \<Longrightarrow>
     diag_balanced (wk_diag (snd (foldl (\<lambda>(ns, k) item. let (ns', k) = processIngestionJob Q L F now item k in (ns @ ns', k))
       (ns, k) items)))"
proof (induction items arbitrary: ns k)
  case (Cons item items)
  obtain ns' k' where p: "processIngestionJob Q L F now item k = (ns', k')" by fastforce
  show ?case using Cons.IH [OF job_balanced [OF p Cons.prems]] p by simp
qed simp

section \<open>Unacknowledged jobs of the in-memory queue\<close>

lemma receive_loop_keeps_inflight:
  "receive_loop n q out = Some (ms, q') \<Longrightarrow> queue_ok q \<Longrightarrow> gm_get (inflight q) h = Some i
     \<Longrightarrow> n \<le> length (available q) \<Longrightarrow> gm_get (inflight q') h = Some i"
proof (induction n arbitrary: q out)
  case (Suc n)
  then obtain j rest where a: "available q = j # rest" by (metis Suc_le_length_iff)
  obtain msg where t: "gm_get (messages q) j = Some msg" "queue_ok (take_one q j msg)"
    by (rule take_one_ok [OF Suc.prems(2) a])
  have "h \<noteq> receipt_id (nextReceiptID q + 1)"
    using fresh_receipt [OF Suc.prems(2)] Suc.prems(3) by (auto simp: gm_get_None_iff [symmetric])
  then have g: "gm_get (inflight (take_one q j msg)) h = Some i" using Suc.prems(3) by (simp add: take_one_def)
  have "receive_loop n (take_one q j msg)
      (out @ [\<lparr>Message_of = msg\<lparr>m_Attempts := m_Attempts msg + 1\<rparr>, ReceiptHandle = receipt_id (nextReceiptID q + 1)\<rparr>])
      = Some (ms, q')"
    using Suc.prems(1) a t(1) by (simp add: take_one_def Let_def)
  then show ?case by (rule Suc.IH [OF _ t(2) g]) (use Suc.prems(4) a in \<open>simp add: take_one_def\<close>)
qed simp

lemma Receive_keeps_inflight:
  assumes q: "queue_ok q" and g: "gm_get (inflight q) h = Some i" and r: "Receive None n q = Some (r, q')"
  shows "gm_get (inflight q') h = Some i"
proof (cases "n \<le> 0")
  case True
  then show ?thesis using r g by (simp add: Receive_def)
next
  case False
  then obtain ms where "receive_loop (min (nat n) (length (available q))) q [] = Some (ms, q')"
    using r by (auto simp: Receive_def split: if_splits)
  then show ?thesis by (rule receive_loop_keeps_inflight [OF _ q g]) simp
qed

lemma inflight_kept:
  "queue_ok q \<Longrightarrow> (\<forall>m t. OpEnqueue m t \<in> set ops \<longrightarrow> m_ID m = '''') \<Longrightarrow> OpAck h \<notin> set ops \<Longrightarrow>
     gm_get (inflight q) h = Some i \<Longrightarrow> mem_queue.run ops (a, b, q) = (a', b', q') \<Longrightarrow> gm_get (inflight q') h = Some i"
proof (induction ops arbitrary: a b q)
  case (Cons op ops)
  show ?case
  proof (cases op)
    case (OpEnqueue m t)
    then have i: "m_ID m = ''''" using Cons.prems(2) by simp
    obtain r q1 where e: "Enqueue None t m q = (r, q1)" by fastforce
    have "gm_get (inflight q1) h = Some i"
      using e Cons.prems(4) unfolding Enqueue_spec [OF Cons.prems(1) i] by (auto split: if_splits)
    moreover have "queue_ok q1" using Enqueue_ok [OF Cons.prems(1) i, of t] e by simp
    ultimately show ?thesis
      using Cons.IH [of q1] Cons.prems OpEnqueue e by (cases r) auto
  next
    case (OpReceive n)
    show ?thesis
    proof (cases "Receive None n q")
      case None
      then show ?thesis using Cons.IH [of q] Cons.prems OpReceive by auto
    next
      case (Some p)
      obtain r q1 where p: "p = (r, q1)" by fastforce
      have "gm_get (inflight q1) h = Some i"
        using Receive_keeps_inflight [OF Cons.prems(1,4)] Some p by simp
      moreover have "queue_ok q1" using Receive_spec(1) [OF Cons.prems(1)] Some p by simp
      ultimately show ?thesis using Cons.IH [of q1] Cons.prems OpReceive Some p by auto
    qed
  next
    case (OpAck g)
    then have "g \<noteq> h" using Cons.prems(3) by auto
    obtain r q1 where e: "Ack None g q = (r, q1)" by fastforce
    have "gm_get (inflight q1) h = Some i" using e Cons.prems(4) \<open>g \<noteq> h\<close>
      by (auto simp: Ack_def split: option.splits)
    moreover have "queue_ok q1" using mem_queue.ack_inv [OF Cons.prems(1), of g] e by simp
    ultimately show ?thesis using Cons.IH [of q1] Cons.prems OpAck e by (cases r) auto
  qed
qed simp

section \<open>Properties\<close>

definition sample_worker :: "(memoryCompletedUploadQueue, memoryCompletedUploadLedger, nat) worker" where
  "sample_worker = \<lparr>wk_leader = sample_leader\<lparr>ld_replicaID := ''''\<rparr>, wk_ledger = sample_ledger,
     wk_diag = \<lparr>processedCount = 0, ackCount = 0, receiveErrorCount = 0, processErrorCount = 0, ackErrorCount = 0,
       committedCount = 0, duplicateSkipCount = 0, ledgerBeginErrorCount = 0, ledgerCompleteErrorCount = 0,
       lastError = '''', lastErrorTime = zero_time, ledgerLastError = '''', ledgerLastErrorTime = zero_time\<rparr>,
     wk_clientsServed = 0, wk_batchSize = 1, wk_errorBackoff = 1, wk_ttl = 10, wk_demoFail = False,
     wk_demoFailed = False, wk_world = 0\<rparr>"

definition count_fns :: "nat upload_fns" where
  "count_fns = \<lparr>processUploadFn = (\<lambda>_ w. (Inr True, Suc w)), commitUploadFn = (\<lambda>_ _ w. (Inr (), w))\<rparr>"

definition sample_item :: QueuedCompletedUploadMessage where
  "sample_item = \<lparr>Message_of = sample_cu, ReceiptHandle = receipt_id 1\<rparr>"

text \<open>The sample upload in flight, and committed or not.\<close>

definition flying_worker :: "bool \<Rightarrow> (memoryCompletedUploadQueue, memoryCompletedUploadLedger, nat) worker" where
  "flying_worker c = sample_worker\<lparr>
     wk_leader := (wk_leader sample_worker)\<lparr>ld_queue := newMemoryCompletedUploadQueue\<lparr>nextMessageID := 1, nextReceiptID := 1,
       messages := [(message_id 1, sample_cu\<lparr>m_ID := message_id 1\<rparr>)], inflight := [(receipt_id 1, message_id 1)]\<rparr>\<rparr>,
     wk_ledger := (if c then sample_ledger\<lparr>records := [lease_key sample_lease \<mapsto>
       \<lparr>lr_State = LedgerStateCommitted, lr_AttemptID = attempt_id 1, ProcessingExpiresAt = zero_time,
        CommittedAt = 0, UpdatedAt = 0\<rparr>]\<rparr> else newMemoryCompletedUploadLedger)\<rparr>"

lemma sample_cu_replica: "sample_cu\<lparr>m_ReplicaID := ''''\<rparr> = sample_cu"
  by (simp add: sample_cu_def)

lemma flying_key: "(Message_of sample_item)\<lparr>m_ReplicaID := ld_replicaID (wk_leader (flying_worker c))\<rparr> = sample_cu"
  by (simp add: sample_item_def flying_worker_def sample_worker_def sample_cu_replica)

lemma flying_committed: "message_key sample_cu \<in> ledger_committed (wk_ledger (flying_worker True))"
  by (simp add: flying_worker_def ledger_committed_def sample_lease_key)

text \<open>The worker skips the committed upload and acknowledges it.\<close>

lemma flying_skip:
  obtains ns k' where "processIngestionJob mem_queue_ops mem_ledger_ops count_fns 5 sample_item (flying_worker True) = (ns, k')"
    "ackCount (wk_diag k') = 1"
proof -
  obtain ns k' where j: "processIngestionJob mem_queue_ops mem_ledger_ops count_fns 5 sample_item (flying_worker True) = (ns, k')"
    by fastforce
  have b: "lo_begin mem_ledger_ops sample_cu 5 10 (wk_ledger (flying_worker True))
      = (Inr \<lparr>AlreadyCommitted = True, br_Lease = zero_lease\<rparr>, wk_ledger (flying_worker True))"
    using flying_committed unfolding mem_ledger_ops_def
    by (auto simp: begin_eq [OF sample_valid(2)] ledger_committed_def)
  have ttl: "wk_ttl (flying_worker True) = 10" by (simp add: flying_worker_def sample_worker_def)
  have a: "ack_job mem_queue_ops 5 (receipt_id 1)
      (recordCompletedUploadDuplicateSkip ((flying_worker True)\<lparr>wk_ledger := wk_ledger (flying_worker True)\<rparr>)) = (ns, k')"
    using j unfolding processIngestionJob_def Let_def flying_key ttl b by (simp add: sample_item_def)
  have "ackCount (wk_diag k') = 1"
    by (rule ack_job_cases [OF a])
      (simp_all add: record_defs flying_worker_def sample_worker_def mem_queue_ops_def Ack_def)
  with j show ?thesis by (rule that)
qed



text \<open>At most once: a job whose upload is already committed in the ledger never reaches the servers
  again; the worker only skips it.\<close>

theorem worker_skips_committed:
  assumes "processIngestionJob mem_queue_ops mem_ledger_ops F now item k = (ns, k')"
    and "message_key ((Message_of item)\<lparr>m_ReplicaID := ld_replicaID (wk_leader k)\<rparr>) \<in> ledger_committed (wk_ledger k)"
  shows "wk_world k' = wk_world k \<and> processedCount (wk_diag k') = processedCount (wk_diag k)"
  using assms by (rule mem_worker.job_duplicate_untouched)

theorem worker_skips_committed_witness:
  "\<exists>ns k'. processIngestionJob mem_queue_ops mem_ledger_ops count_fns 5 sample_item (flying_worker True) = (ns, k') \<and>
     wk_world k' = wk_world (flying_worker True) \<and>
     processedCount (wk_diag k') = processedCount (wk_diag (flying_worker True))"
proof (rule flying_skip)
  fix ns k'
  assume j: "processIngestionJob mem_queue_ops mem_ledger_ops count_fns 5 sample_item (flying_worker True) = (ns, k')"
  from worker_skips_committed [OF j] flying_committed j show ?thesis by (simp add: flying_key)
qed

text \<open>The counters of the diagnostics add up over every batch a worker processes: applied uploads are
  committed or counted as ledger errors, and committed or duplicate ones are acknowledged or counted as
  acknowledgement errors.\<close>

theorem worker_counters_balanced:
  assumes "processRequest_turn Q L F now k = Some (ns, k')"
    and "committedCount (wk_diag k) + ledgerCompleteErrorCount (wk_diag k) = processedCount (wk_diag k)"
    and "ackCount (wk_diag k) + ackErrorCount (wk_diag k) = committedCount (wk_diag k) + duplicateSkipCount (wk_diag k)"
  shows "committedCount (wk_diag k') + ledgerCompleteErrorCount (wk_diag k') = processedCount (wk_diag k') \<and>
     ackCount (wk_diag k') + ackErrorCount (wk_diag k') = committedCount (wk_diag k') + duplicateSkipCount (wk_diag k')"
proof -
  have b: "diag_balanced (wk_diag k)" using assms(2,3) by (simp add: diag_balanced_def)
  have "diag_balanced (wk_diag k')"
  proof (cases "q_receive Q (wk_batchSize k) (ld_queue (wk_leader k))")
    case None
    then show ?thesis using assms(1) by (simp add: processRequest_turn_def)
  next
    case (Some p)
    obtain r q where p: "p = (r, q)" by fastforce
    show ?thesis
    proof (cases r)
      case (Inl err)
      then show ?thesis using assms(1) Some p b
        by (auto simp: processRequest_turn_def recordIngestionError_def diag_balanced_def)
    next
      case (Inr items)
      have "diag_balanced (wk_diag (k\<lparr>wk_leader := (wk_leader k)\<lparr>ld_queue := q\<rparr>\<rparr>))" using b by simp
      from jobs_balanced [OF this, of Q L F now "[]" items] show ?thesis
        using assms(1) Some p Inr by (simp add: processRequest_turn_def)
    qed
  qed
  then show ?thesis by (simp add: diag_balanced_def)
qed

theorem worker_counters_balanced_witness:
  "\<exists>ns k'. processRequest_turn (mem_queue_ops\<lparr>q_receive := (\<lambda>n q. Some (Inr [sample_item], q))\<rparr>) mem_ledger_ops count_fns 5
       (flying_worker False) = Some (ns, k') \<and>
     committedCount (wk_diag k') + ledgerCompleteErrorCount (wk_diag k') = processedCount (wk_diag k') \<and>
     ackCount (wk_diag k') + ackErrorCount (wk_diag k') = committedCount (wk_diag k') + duplicateSkipCount (wk_diag k')"
proof -
  let ?Q = "mem_queue_ops\<lparr>q_receive := (\<lambda>n q. Some (Inr [sample_item], q))\<rparr>"
  obtain ns k' where r: "processRequest_turn ?Q mem_ledger_ops count_fns 5 (flying_worker False) = Some (ns, k')"
    by (cases "processIngestionJob ?Q mem_ledger_ops count_fns 5 sample_item (flying_worker False)")
      (simp add: processRequest_turn_def)
  have "committedCount (wk_diag (flying_worker False)) + ledgerCompleteErrorCount (wk_diag (flying_worker False))
      = processedCount (wk_diag (flying_worker False))"
    "ackCount (wk_diag (flying_worker False)) + ackErrorCount (wk_diag (flying_worker False))
      = committedCount (wk_diag (flying_worker False)) + duplicateSkipCount (wk_diag (flying_worker False))"
    by (simp_all add: flying_worker_def sample_worker_def)
  from worker_counters_balanced [OF r this] r show ?thesis by blast
qed

text \<open>A job that fails is lost for the in-memory queue. A received message that is not acknowledged
  stays in flight through every further sequence of calls that does not acknowledge its receipt: the
  queue never offers it again and never counts as drained, so a closing epoch does not merge.\<close>

theorem memory_queue_unacked_never_drains:
  assumes "queue_ok q" "gm_get (inflight q) h = Some i"
    and "\<forall>m t. OpEnqueue m t \<in> set ops \<longrightarrow> m_ID m = ''''" "OpAck h \<notin> set ops"
    and "mem_queue.run ops (0, 0, q) = (nAccepted, nAcked, q')"
  shows "gm_get (inflight q') h = Some i \<and> \<not> ingestionQueueDrained mem_queue_ops (s\<lparr>ld_queue := q'\<rparr>)"
proof -
  have g: "gm_get (inflight q') h = Some i" using inflight_kept [OF assms(1,3,4,2,5)] .
  then have "inflight q' \<noteq> []" by auto
  with g show ?thesis by (simp add: ingestionQueueDrained_def mem_queue_ops_def Stats_def)
qed

theorem memory_queue_unacked_never_drains_witness:
  "\<exists>n m q'. mem_queue.run [OpReceive 5, OpEnqueue sample_cu 3, OpReceive 5]
      (0, 0, ld_queue (wk_leader (flying_worker False))) = (n, m, q') \<and>
     gm_get (inflight q') (receipt_id 1) = Some (message_id 1) \<and>
     \<not> ingestionQueueDrained mem_queue_ops (sample_leader\<lparr>ld_queue := q'\<rparr>)"
proof -
  let ?q = "ld_queue (wk_leader (flying_worker False))"
  have ok: "queue_ok ?q"
    by (auto simp: queue_ok_def flying_worker_def newMemoryCompletedUploadQueue_def gm_ok_def)
  obtain n m q' where r: "mem_queue.run [OpReceive 5, OpEnqueue sample_cu 3, OpReceive 5] (0, 0, ?q) = (n, m, q')"
    by (metis prod_cases3)
  have "gm_get (inflight q') (receipt_id 1) = Some (message_id 1) \<and>
     \<not> ingestionQueueDrained mem_queue_ops (sample_leader\<lparr>ld_queue := q'\<rparr>)"
    by (rule memory_queue_unacked_never_drains [OF ok _ _ _ r]) (simp_all add: flying_worker_def sample_cu_def)
  with r show ?thesis by blast
qed

text \<open>Applying an upload twice removes it: after a second \<^verbatim>\<open>Prepare\<close> of the same decrypted upload the
  contents of the server's table are what they were before the first. So an upload whose commit or
  ledger completion failed, and which a worker picks up again after its lease has expired, vanishes.\<close>

theorem preparing_twice_cancels:
  assumes "crypto_ok C" "server_ok i s" "query_ok (q1 tup)"
  shows "\<exists>rep s' rep' s''. prepare_tuple C uuid R tup s = Ok (rep, s') \<and>
     prepare_tuple C uuid R' tup s' = Ok (rep', s'') \<and> contents (entries s'') = contents (entries s)"
proof -
  obtain rep s' where 1: "prepare_tuple C uuid R tup s = Ok (rep, s')" "server_ok i s'"
    "contents (entries s') = xor_matrix (contents (entries s)) (expansion C (q1 tup))"
    by (rule prepare_tuple_ok [OF assms, of uuid R]) (use assms(2) in \<open>auto simp: server_ok_def\<close>)
  obtain rep' s'' where 2: "prepare_tuple C uuid R' tup s' = Ok (rep', s'')"
    "contents (entries s'') = xor_matrix (contents (entries s')) (expansion C (q1 tup))"
    by (rule prepare_tuple_ok [OF assms(1) 1(2) assms(3), of uuid R']) auto
  have ok: "matrix_ok (contents (entries s))" "matrix_ok (expansion C (q1 tup))"
    using assms by (auto simp: server_ok_def intro: contents_ok expansion_ok)
  have "xor_matrix (xor_matrix a e) e = a" if "matrix_ok a" "matrix_ok e" for a e
    using that by - (rule matrix_eqI, simp_all add: matrix_ok_length xor_bytes_assoc)
  then have "contents (entries s'') = contents (entries s)" using ok by (simp only: 1(3) 2(2))
  with 1(1) 2(1) show ?thesis by blast
qed

theorem preparing_twice_cancels_witness:
  "\<exists>rep s' rep' s''. prepare_tuple toy_crypto 77 3 sample_query (sample_server 0) = Ok (rep, s') \<and>
     prepare_tuple toy_crypto 77 4 sample_query s' = Ok (rep', s'') \<and>
     contents (entries s'') = contents (entries (sample_server 0))"
  by (rule preparing_twice_cancels [OF toy_crypto_ok sample_server_ok sample_query_ok])

end
