(* ===== verification/Coordinator_Lease.thy ===== *)
theory Coordinator_Lease
  imports Session_Store Ingestion_Worker
begin

text \<open>
  The coordinator's state and its leadership (\<^verbatim>\<open>Coordinator\<close> of \<^verbatim>\<open>src/coordinator/coordinator.go\<close>,
  \<^verbatim>\<open>coordinator_lease.go\<close>, and the role transitions of \<^verbatim>\<open>coordinator_actor.go\<close>).

  Every write to the coordinator's fields runs on one goroutine, the actor; a function that reads the
  fields, calls the store and commits the result is the composition of those three, as in the code.
  A shard client is the address it was dialled with. The control store is a separate state, so that
  several coordinators can share it: \<open>cluster\<close> is a list of coordinators and one store, and a step of
  it is one maintenance tick or one lease check of one of them, at any time.

  Shown here: a lease check that succeeds means that the store's current lease is this
  coordinator's, extended from now; and in every reachable state of a cluster, whatever the order
  of the steps, a coordinator that believes to be active holds a lease that the store granted to it,
  so of two active coordinators the one with the smaller token can do nothing any more.
\<close>

section \<open>State\<close>

definition defaultCoordinatorLeaseTTL :: duration where "defaultCoordinatorLeaseTTL = 30 * second"
definition defaultCoordinatorLeaseRenewInterval :: duration where
  "defaultCoordinatorLeaseRenewInterval = 10 * second"
definition coordinatorRoleActive :: string where "coordinatorRoleActive = ''active''"
definition coordinatorRolePassive :: string where "coordinatorRolePassive = ''passive''"
definition coordinatorRoleStale :: string where "coordinatorRoleStale = ''stale''"

lemmas roles = coordinatorRoleActive_def coordinatorRolePassive_def coordinatorRoleStale_def

text \<open>Health of the two pairs of a shard, as the monitor last saw it, and the state of automatic
  promotion. A key missing from a Go map reads as the zero value.\<close>

record pairHealthSnapshot =
  Reachable :: bool
  hs_Status :: StatusReply
  hs_Error :: string
  CheckedAt :: gotime

record shardHealthSnapshot =
  sh_Active :: pairHealthSnapshot
  sh_Standby :: pairHealthSnapshot

record autoPromotionConfig =
  Enabled :: bool
  CheckInterval :: duration
  FailureThreshold :: int
  Cooldown :: duration

record autoPromotionShardState =
  FailureCount :: int
  Eligible :: bool
  ap_Status :: string
  ap_Reason :: string
  LastReachableActive :: StatusReply
  HasLastReachableActive :: bool
  LastPromotionAt :: gotime

record Coordinator =
  availableShards :: "ShardConfig list"
  co_clients :: "int \<rightharpoonup> string"
  co_sessions :: "int \<rightharpoonup> SessionRecord"
  co_epoch :: EpochMeta
  co_epochTimer :: "duration option"
  leaseHolder :: string
  leaseTTL :: duration
  co_lease :: CoordinatorLease
  co_role :: string
  co_health :: "int \<rightharpoonup> shardHealthSnapshot"
  autoPromotion :: autoPromotionConfig
  autoPromotionState :: "int \<rightharpoonup> autoPromotionShardState"
  scalingConfig :: ScalingPolicyConfig
  activeScalingMetrics :: EpochScalingMetrics
  hasActiveScalingMetrics :: bool
  lastScalingMetrics :: EpochScalingMetrics
  lastScalingRecommendation :: ScalingRecommendation
  hasLastScalingMetrics :: bool

section \<open>The lease\<close>

definition validateCoordinatorLeaseConfig :: "string \<Rightarrow> duration \<Rightarrow> duration \<Rightarrow> unit res" where
  "validateCoordinatorLeaseConfig holder ttl renewInterval =
     (if holder = '''' then Inl (ErrorString ''coordinator lease holder is required'')
      else if ttl \<le> 0 then Inl (ErrorString ''coordinator lease ttl must be positive'')
      else if renewInterval \<le> 0 then Inl (ErrorString ''coordinator lease renew interval must be positive'')
      else if renewInterval \<ge> ttl
      then Inl (ErrorString ''coordinator lease renew interval must be less than coordinator lease ttl'')
      else Inr ())"

definition validCoordinatorRoleTransition :: "string \<Rightarrow> string \<Rightarrow> bool" where
  "validCoordinatorRoleTransition from to =
     (if from = to then True
      else if from = coordinatorRoleActive then to = coordinatorRoleStale
      else if from = coordinatorRolePassive then to = coordinatorRoleActive
      else if from = coordinatorRoleStale then to = coordinatorRoleActive
      else False)"

definition transitionCoordinatorRole :: "string \<Rightarrow> Coordinator \<Rightarrow> unit res \<times> Coordinator" where
  "transitionCoordinatorRole next c =
     (if \<not> validCoordinatorRoleTransition (co_role c) next
      then (Inl (ErrorString (''invalid coordinator role transition '' @ co_role c @ '' -> '' @ next)), c)
      else (Inr (), c\<lparr>co_role := next\<rparr>))"

text \<open>The commits ignore (log) a refused transition.\<close>

definition commitRenewedLease :: "int \<Rightarrow> CoordinatorLease \<Rightarrow> Coordinator \<Rightarrow> Coordinator" where
  "commitRenewedLease expectedToken lease c =
     (if FencingToken (co_lease c) \<noteq> expectedToken \<or> leaseHolder c \<noteq> Holder lease then c
      else snd (transitionCoordinatorRole coordinatorRoleActive (c\<lparr>co_lease := lease\<rparr>)))"

definition commitStaleRole :: "Coordinator \<Rightarrow> Coordinator" where
  "commitStaleRole c =
     (if co_role c \<noteq> coordinatorRoleActive then c
      else snd (transitionCoordinatorRole coordinatorRoleStale c))"

definition commitPassiveRoleIfEligible :: "Coordinator \<Rightarrow> Coordinator" where
  "commitPassiveRoleIfEligible c =
     (if co_role c = coordinatorRoleStale then c
      else snd (transitionCoordinatorRole coordinatorRolePassive c))"

definition commitAcquiredLease :: "CoordinatorLease \<Rightarrow> Coordinator \<Rightarrow> Coordinator" where
  "commitAcquiredLease lease c = snd (transitionCoordinatorRole coordinatorRoleActive (c\<lparr>co_lease := lease\<rparr>))"

definition renewCoordinatorLease ::
  "'s control_ops \<Rightarrow> gotime \<Rightarrow> Coordinator \<times> 's \<Rightarrow> unit res \<times> Coordinator \<times> 's" where
  "renewCoordinatorLease S now = (\<lambda>(c, s).
     let token = FencingToken (co_lease c) in
     case ct_RenewLease S now (leaseHolder c) token (leaseTTL c) s of
       (Inl err, s) \<Rightarrow> (Inl err, c, s)
     | (Inr lease, s) \<Rightarrow> (Inr (), commitRenewedLease token lease c, s))"

definition tryAcquireCoordinatorLease ::
  "'s control_ops \<Rightarrow> gotime \<Rightarrow> Coordinator \<times> 's \<Rightarrow> unit res \<times> Coordinator \<times> 's" where
  "tryAcquireCoordinatorLease S now = (\<lambda>(c, s).
     case ct_AcquireLease S now (leaseHolder c) (leaseTTL c) s of
       (Inl err, s) \<Rightarrow>
         if errors_Is err errLeaseHeld then (Inr (), commitPassiveRoleIfEligible c, s) else (Inl err, c, s)
     | (Inr lease, s) \<Rightarrow> (Inr (), commitAcquiredLease lease c, s))"

definition maintainCoordinatorLease ::
  "'s control_ops \<Rightarrow> gotime \<Rightarrow> Coordinator \<times> 's \<Rightarrow> unit res \<times> Coordinator \<times> 's" where
  "maintainCoordinatorLease S now = (\<lambda>(c, s).
     if co_role c = coordinatorRoleActive
     then case renewCoordinatorLease S now (c, s) of
            (Inl err, c, s) \<Rightarrow> (Inl err, commitStaleRole c, s)
          | (Inr u, c, s) \<Rightarrow> (Inr (), c, s)
     else tryAcquireCoordinatorLease S now (c, s))"

definition markCoordinatorStale :: "Coordinator \<Rightarrow> Coordinator" where
  "markCoordinatorStale c = commitStaleRole c"

definition requireCoordinatorLease ::
  "'s control_ops \<Rightarrow> gotime \<Rightarrow> Coordinator \<times> 's \<Rightarrow> unit res \<times> Coordinator \<times> 's" where
  "requireCoordinatorLease S now = (\<lambda>(c, s).
     case renewCoordinatorLease S now (c, s) of
       (Inl err, c, s) \<Rightarrow> (Inl (Wrapped ''coordinator lease unavailable: '' err ''''), markCoordinatorStale c, s)
     | (Inr u, c, s) \<Rightarrow> (Inr (), c, s))"

section \<open>Start-up\<close>

text \<open>\<^verbatim>\<open>shardByID\<close> is written but never read, so it is not part of the state; the timers and channels
  that \<^verbatim>\<open>newCoordinator\<close> starts run the operations above.\<close>

definition ensureShardConfig ::
  "'s control_ops \<Rightarrow> ShardConfig list \<Rightarrow> ShardConfig list \<Rightarrow> bool \<Rightarrow> 's \<Rightarrow> ShardConfigRecord res \<times> 's" where
  "ensureShardConfig S inventory seed canWrite s =
     (let seed = (if seed = [] then inventory else seed);
          desired = shardConfigRecordFromShards seed 1
      in case ct_GetShardConfig S s of
           Inl err \<Rightarrow> (Inl err, s)
         | Inr None \<Rightarrow>
             if \<not> canWrite then (Inl (ErrorString ''shard config is missing and coordinator is not active''), s)
             else (case ct_PutShardConfig S desired s of
                     (Inl err, s) \<Rightarrow> (Inl err, s)
                   | (Inr _, s) \<Rightarrow> (Inr desired, s))
         | Inr (Some existing) \<Rightarrow>
             (case validateShardInventoryContainsConfig inventory existing of
                Inl err \<Rightarrow> (Inl err, s)
              | Inr _ \<Rightarrow> (Inr existing, s)))"

definition currentShardConfigVersion :: "'s control_ops \<Rightarrow> 's \<Rightarrow> int" where
  "currentShardConfigVersion S s =
     (case ct_GetShardConfig S s of
        Inr (Some config) \<Rightarrow> if cfg_Version config \<le> 0 then 1 else cfg_Version config
      | _ \<Rightarrow> 1)"

definition shardConfigForStatus :: "'s control_ops \<Rightarrow> ShardConfig list \<Rightarrow> 's \<Rightarrow> ShardConfigRecord" where
  "shardConfigForStatus S fallback s =
     (case ct_GetShardConfig S s of
        Inr (Some config) \<Rightarrow> config
      | _ \<Rightarrow> shardConfigRecordFromShards fallback 1)"

definition activeShardConfig :: "'s control_ops \<Rightarrow> 's \<Rightarrow> ShardConfigRecord res" where
  "activeShardConfig S s =
     (case ct_GetShardConfig S s of
        Inl err \<Rightarrow> Inl err
      | Inr None \<Rightarrow> Inl (ErrorString ''shard config missing'')
      | Inr (Some config) \<Rightarrow>
          (case validateShardConfigRecord config of Inl err \<Rightarrow> Inl err | Inr _ \<Rightarrow> Inr config))"

definition zero_metrics :: EpochScalingMetrics where
  "zero_metrics = \<lparr>mt_EpochID = 0, mt_CurrentShardCount = 0, mt_AcceptedRequestCount = 0, mt_DurationSeconds = 0\<rparr>"

definition zero_recommendation :: ScalingRecommendation where
  "zero_recommendation = \<lparr>rec_CurrentShardCount = 0, rec_RecommendedShardCount = 0, rec_TargetRowsPerShard = 0,
     rec_RequestDensity = Fin 0, rec_Action = '''', rec_Reason = ''''\<rparr>"

definition zero_autoPromotionConfig :: autoPromotionConfig where
  "zero_autoPromotionConfig = \<lparr>Enabled = False, CheckInterval = 0, FailureThreshold = 0, Cooldown = 0\<rparr>"

definition newCoordinator ::
  "'s control_ops \<Rightarrow> gotime \<Rightarrow> ShardConfig list \<Rightarrow> (int \<rightharpoonup> string) \<Rightarrow> string \<Rightarrow> duration \<Rightarrow> duration \<Rightarrow> bool
     \<Rightarrow> ScalingPolicyConfig \<Rightarrow> int \<Rightarrow> 's \<Rightarrow> Coordinator res \<times> 's" where
  "newCoordinator S now shards clients holder ttl renewInterval standby scaling initialActiveShards s =
     (case validateCoordinatorLeaseConfig holder ttl renewInterval of
        Inl err \<Rightarrow> (Inl err, s)
      | Inr _ \<Rightarrow>
      case validateShardMap shards of
        Inl err \<Rightarrow> (Inl err, s)
      | Inr validated \<Rightarrow>
      let (acquired, s) = ct_AcquireLease S now holder ttl s in
      if (case acquired of Inl err \<Rightarrow> \<not> standby \<or> \<not> errors_Is err errLeaseHeld | Inr _ \<Rightarrow> False)
      then (Inl (Wrapped ''acquire coordinator lease: '' (projl acquired) ''''), s)
      else
      let lease = (case acquired of Inl _ \<Rightarrow> zero_coordinator_lease | Inr lease \<Rightarrow> lease);
          role = (case acquired of Inl _ \<Rightarrow> coordinatorRolePassive | Inr _ \<Rightarrow> coordinatorRoleActive)
      in case initialShardConfigSeed validated initialActiveShards of
        Inl err \<Rightarrow> (Inl err, s)
      | Inr seed \<Rightarrow>
      case ensureShardConfig S validated seed (role = coordinatorRoleActive) s of
        (Inl err, s) \<Rightarrow> (Inl err, s)
      | (Inr activeConfig, s) \<Rightarrow>
      case resolveScalingPolicyConfig (ShardCount activeConfig) (MinShards scaling) (MaxShards scaling)
             (sp_TargetRowsPerShard scaling) (ScaleUpDensityThreshold scaling) (ScaleDownDensityThreshold scaling)
             (MaxShardMultiplier scaling) of
        Inl err \<Rightarrow> (Inl err, s)
      | Inr resolved \<Rightarrow>
          (Inr \<lparr>availableShards = validated,
                co_clients = clients |` (sc_ID ` set validated),
                co_sessions = Map.empty, co_epoch = no_epoch, co_epochTimer = None,
                leaseHolder = holder, leaseTTL = ttl, co_lease = lease, co_role = role,
                co_health = Map.empty, autoPromotion = zero_autoPromotionConfig, autoPromotionState = Map.empty,
                scalingConfig = resolved, activeScalingMetrics = zero_metrics, hasActiveScalingMetrics = False,
                lastScalingMetrics = zero_metrics, lastScalingRecommendation = zero_recommendation,
                hasLastScalingMetrics = False\<rparr>, s))"

section \<open>Role and lease of one coordinator\<close>

definition known_role :: "Coordinator \<Rightarrow> bool" where
  "known_role c \<longleftrightarrow> co_role c \<in> {coordinatorRoleActive, coordinatorRolePassive, coordinatorRoleStale}"

lemma role_to_active [simp]:
  "known_role c \<Longrightarrow> transitionCoordinatorRole coordinatorRoleActive c = (Inr (), c\<lparr>co_role := coordinatorRoleActive\<rparr>)"
  by (auto simp: known_role_def transitionCoordinatorRole_def validCoordinatorRoleTransition_def)

lemma known_role_lease [simp]: "known_role (c\<lparr>co_lease := l\<rparr>) = known_role c"
  by (simp add: known_role_def)

lemma commitStaleRole_role [simp]:
  "co_role (commitStaleRole c) = (if co_role c = coordinatorRoleActive then coordinatorRoleStale else co_role c)"
  "leaseHolder (commitStaleRole c) = leaseHolder c" "leaseTTL (commitStaleRole c) = leaseTTL c"
  "co_lease (commitStaleRole c) = co_lease c"
  by (simp_all add: commitStaleRole_def transitionCoordinatorRole_def validCoordinatorRoleTransition_def)

lemma commitStaleRole_not_active [simp]: "co_role (commitStaleRole c) \<noteq> coordinatorRoleActive"
  by (simp add: roles)

lemma commitPassive_simps [simp]:
  "leaseHolder (commitPassiveRoleIfEligible c) = leaseHolder c" "leaseTTL (commitPassiveRoleIfEligible c) = leaseTTL c"
  by (simp_all add: commitPassiveRoleIfEligible_def transitionCoordinatorRole_def)

lemma commitPassive_not_active:
  "co_role c \<noteq> coordinatorRoleActive \<Longrightarrow> co_role (commitPassiveRoleIfEligible c) \<noteq> coordinatorRoleActive"
  by (simp add: commitPassiveRoleIfEligible_def transitionCoordinatorRole_def roles)

lemma commit_lease_simps [simp]:
  "leaseHolder (commitAcquiredLease l c) = leaseHolder c" "leaseTTL (commitAcquiredLease l c) = leaseTTL c"
  "leaseHolder (commitRenewedLease k l c) = leaseHolder c" "leaseTTL (commitRenewedLease k l c) = leaseTTL c"
  by (simp_all add: commitAcquiredLease_def commitRenewedLease_def transitionCoordinatorRole_def)

section \<open>Coordinators that share a store\<close>

record 's cluster =
  cl_coords :: "Coordinator list"
  cl_store :: 's

datatype 'o cluster_event =
    Tick nat gotime        \<comment> \<open>a maintenance tick of one coordinator\<close>
  | Check nat gotime       \<comment> \<open>a lease check on behalf of an operation\<close>
  | StoreOp 'o             \<comment> \<open>any operation on the store besides the lease\<close>

primrec event_at :: "'o cluster_event \<Rightarrow> (nat \<times> gotime) option" where
  "event_at (Tick i t) = Some (i, t)"
| "event_at (Check i t) = Some (i, t)"
| "event_at (StoreOp x) = None"

definition at_coordinator ::
  "nat \<Rightarrow> (Coordinator \<times> 's \<Rightarrow> unit res \<times> Coordinator \<times> 's) \<Rightarrow> 's cluster \<Rightarrow> 's cluster" where
  "at_coordinator i f C =
     (if i < length (cl_coords C)
      then let (r, c, s) = f (cl_coords C ! i, cl_store C)
           in C\<lparr>cl_coords := (cl_coords C)[i := c], cl_store := s\<rparr>
      else C)"

primrec cluster_step ::
  "'s control_ops \<Rightarrow> ('o \<Rightarrow> 's \<Rightarrow> 's) \<Rightarrow> 'o cluster_event \<Rightarrow> 's cluster \<Rightarrow> 's cluster" where
  "cluster_step S f (Tick i t) C = at_coordinator i (maintainCoordinatorLease S t) C"
| "cluster_step S f (Check i t) C = at_coordinator i (requireCoordinatorLease S t) C"
| "cluster_step S f (StoreOp x) C = C\<lparr>cl_store := f x (cl_store C)\<rparr>"

definition cluster_run ::
  "'s control_ops \<Rightarrow> ('o \<Rightarrow> 's \<Rightarrow> 's) \<Rightarrow> 'o cluster_event list \<Rightarrow> 's cluster \<Rightarrow> 's cluster" where
  "cluster_run S f evs C = foldl (\<lambda>C ev. cluster_step S f ev C) C evs"

section \<open>What a lease store gives its coordinators\<close>

locale coordinator_lease =
  l: lease_store "ct_AcquireLease S" "ct_RenewLease S" other inv stored expiry
  for S :: "'s control_ops" and other :: "'o \<Rightarrow> 's \<Rightarrow> 's" and inv stored expiry
begin

text \<open>A renewal that fails may have extended the lease all the same, when the answer is lost.\<close>

lemma renew_cases:
  assumes "renewCoordinatorLease S t (c, s) = (r, c', s')" "inv s"
  obtains (ok) M L where "r = Inr ()" "c' = commitRenewedLease (FencingToken (co_lease c)) L c"
      "stored s = Some M" "t < ExpiresAt M" "Holder M = leaseHolder c" "FencingToken M = FencingToken (co_lease c)"
      "stored s' = Some (M\<lparr>ExpiresAt := expiry t (leaseTTL c)\<rparr>)"
  | (err) e where "r = Inl e" "c' = c" "stored s' = stored s"
  | (lost) e M where "r = Inl e" "c' = c" "stored s = Some M" "Holder M = leaseHolder c"
      "stored s' = Some (M\<lparr>ExpiresAt := expiry t (leaseTTL c)\<rparr>)"
proof (cases "ct_RenewLease S t (leaseHolder c) (FencingToken (co_lease c)) (leaseTTL c) s")
  case (Pair g s1)
  then have r: "case g of Inl e \<Rightarrow> r = Inl e \<and> c' = c | Inr L \<Rightarrow> r = Inr () \<and> c' = commitRenewedLease (FencingToken (co_lease c)) L c"
    "s' = s1" using assms(1) by (auto simp: renewCoordinatorLease_def Let_def split: sum.splits)
  from l.renew_effect [OF assms(2) Pair] show ?thesis
    by (elim disjE exE conjE; cases g) (use r ok err lost in auto)
qed

lemma require_ok:
  assumes "requireCoordinatorLease S t (c, s) = (Inr u, c', s')" "inv s"
  shows "\<exists>M L. stored s = Some M \<and> t < ExpiresAt M \<and> Holder M = leaseHolder c \<and> FencingToken M = FencingToken (co_lease c) \<and>
     c' = commitRenewedLease (FencingToken (co_lease c)) L c \<and> stored s' = Some (M\<lparr>ExpiresAt := expiry t (leaseTTL c)\<rparr>)"
proof -
  obtain r c1 s1 where r: "renewCoordinatorLease S t (c, s) = (r, c1, s1)" by (cases "renewCoordinatorLease S t (c, s)")
  from r assms(2) show ?thesis
    by (cases rule: renew_cases) (use assms r in \<open>auto simp: requireCoordinatorLease_def\<close>)
qed

lemma require_err:
  assumes "requireCoordinatorLease S t (c, s) = (Inl e, c', s')"
  shows "c' = commitStaleRole c \<and> co_role c' \<noteq> coordinatorRoleActive"
  using assms by (auto simp: requireCoordinatorLease_def renewCoordinatorLease_def markCoordinatorStale_def Let_def
      simp del: commitStaleRole_role(1) split: prod.splits sum.splits)

lemma lease_ops_inv:
  assumes "inv s"
  shows "inv (snd (snd (renewCoordinatorLease S t (c, s))))" "inv (snd (snd (requireCoordinatorLease S t (c, s))))"
    "inv (snd (snd (maintainCoordinatorLease S t (c, s))))"
  using l.renew_inv [OF assms, of t "leaseHolder c" "FencingToken (co_lease c)" "leaseTTL c"]
    l.acquire_inv [OF assms, of t "leaseHolder c" "leaseTTL c"]
  by (auto simp: renewCoordinatorLease_def requireCoordinatorLease_def maintainCoordinatorLease_def
      tryAcquireCoordinatorLease_def Let_def split: prod.splits sum.splits)

text \<open>While another holder's lease is valid, an operation of this coordinator gets nothing.\<close>

lemma excluded_ops:
  assumes inv: "inv s" and M: "stored s = Some M" "t < ExpiresAt M" "Holder M \<noteq> leaseHolder c"
  shows "\<exists>e s'. requireCoordinatorLease S t (c, s) = (Inl e, commitStaleRole c, s') \<and> stored s' = Some M"
    and "case maintainCoordinatorLease S t (c, s) of (r, c', s') \<Rightarrow> stored s' = Some M \<and>
       co_role c' \<noteq> coordinatorRoleActive \<and> leaseHolder c' = leaseHolder c \<and> leaseTTL c' = leaseTTL c"
proof -
  obtain r c1 s1 where r: "renewCoordinatorLease S t (c, s) = (r, c1, s1)" by (cases "renewCoordinatorLease S t (c, s)")
  from r inv obtain e where e: "r = Inl e" "c1 = c" "stored s1 = Some M"
    by (cases rule: renew_cases) (use M in auto)
  then show "\<exists>e s'. requireCoordinatorLease S t (c, s) = (Inl e, commitStaleRole c, s') \<and> stored s' = Some M"
    using r by (simp add: requireCoordinatorLease_def markCoordinatorStale_def)
  obtain g s2 where g: "ct_AcquireLease S t (leaseHolder c) (leaseTTL c) s = (g, s2)" by fastforce
  have "isl g \<and> stored s2 = Some M" using l.acquire_effect [OF inv g] M by auto
  then obtain e2 where g': "ct_AcquireLease S t (leaseHolder c) (leaseTTL c) s = (Inl e2, s2)" "stored s2 = Some M"
    using g by (cases g) auto
  then show "case maintainCoordinatorLease S t (c, s) of (r, c', s') \<Rightarrow> stored s' = Some M \<and>
       co_role c' \<noteq> coordinatorRoleActive \<and> leaseHolder c' = leaseHolder c \<and> leaseTTL c' = leaseTTL c"
    using r e g' commitPassive_not_active [of c]
    by (auto simp: maintainCoordinatorLease_def tryAcquireCoordinatorLease_def simp del: commitStaleRole_role(1))
qed

text \<open>An operation of the holder itself keeps the lease or extends it from the time of the operation.\<close>

lemma own_ops:
  assumes inv: "inv s" and M: "stored s = Some M" "Holder M = leaseHolder c" "e \<le> ExpiresAt M" "e \<le> expiry t (leaseTTL c)"
    and op: "f = maintainCoordinatorLease S t \<or> f = requireCoordinatorLease S t"
  shows "case f (c, s) of (r, c', s') \<Rightarrow> leaseHolder c' = leaseHolder c \<and> leaseTTL c' = leaseTTL c \<and>
     (\<exists>L. stored s' = Some L \<and> Holder L = leaseHolder c \<and> e \<le> ExpiresAt L)"
proof -
  obtain r c1 s1 where r: "renewCoordinatorLease S t (c, s) = (r, c1, s1)" by (cases "renewCoordinatorLease S t (c, s)")
  from r inv have ren: "leaseHolder c1 = leaseHolder c \<and> leaseTTL c1 = leaseTTL c \<and>
      (\<exists>L. stored s1 = Some L \<and> Holder L = leaseHolder c \<and> e \<le> ExpiresAt L)"
    by (cases rule: renew_cases) (use M in \<open>auto simp: transitionCoordinatorRole_def\<close>)
  obtain g s2 where g: "ct_AcquireLease S t (leaseHolder c) (leaseTTL c) s = (g, s2)" by fastforce
  have acq: "\<exists>L. stored s2 = Some L \<and> Holder L = leaseHolder c \<and> e \<le> ExpiresAt L"
    using l.acquire_effect [OF inv g] M by auto
  have "case maintainCoordinatorLease S t (c, s) of (r, c', s') \<Rightarrow> leaseHolder c' = leaseHolder c \<and>
      leaseTTL c' = leaseTTL c \<and> (\<exists>L. stored s' = Some L \<and> Holder L = leaseHolder c \<and> e \<le> ExpiresAt L)"
    using r ren g acq by (auto simp: maintainCoordinatorLease_def tryAcquireCoordinatorLease_def split: sum.splits)
  moreover have "case requireCoordinatorLease S t (c, s) of (r, c', s') \<Rightarrow> leaseHolder c' = leaseHolder c \<and>
      leaseTTL c' = leaseTTL c \<and> (\<exists>L. stored s' = Some L \<and> Holder L = leaseHolder c \<and> e \<le> ExpiresAt L)"
    using r ren by (auto simp: requireCoordinatorLease_def markCoordinatorStale_def split: sum.splits)
  ultimately show ?thesis using op by auto
qed

definition held_by :: "nat \<Rightarrow> gotime \<Rightarrow> 's cluster \<Rightarrow> bool" where
  "held_by i e C \<longleftrightarrow> inv (cl_store C) \<and> i < length (cl_coords C) \<and> distinct (map leaseHolder (cl_coords C)) \<and>
     (\<exists>L. stored (cl_store C) = Some L \<and> Holder L = leaseHolder (cl_coords C ! i) \<and> e \<le> ExpiresAt L)"

lemma distinct_holders:
  "distinct (map leaseHolder cs) \<Longrightarrow> i < length cs \<Longrightarrow> j < length cs \<Longrightarrow> i \<noteq> j \<Longrightarrow>
     leaseHolder (cs ! i) \<noteq> leaseHolder (cs ! j)"
  by (metis length_map nth_eq_iff_index_eq nth_map)

lemma map_holder_update: "leaseHolder c = leaseHolder (cs ! j) \<Longrightarrow> map leaseHolder (cs[j := c]) = map leaseHolder cs"
  by (metis list_update_id map_update)

lemma other_at_coordinator:
  assumes held: "held_by i e C" and j: "j < length (cl_coords C)" "j \<noteq> i" and t: "t < e"
    and op: "f = maintainCoordinatorLease S t \<or> f = requireCoordinatorLease S t"
  shows "held_by i e (at_coordinator j f C)" "leaseTTL (cl_coords (at_coordinator j f C) ! i) = leaseTTL (cl_coords C ! i)"
    "co_role (cl_coords (at_coordinator j f C) ! j) \<noteq> coordinatorRoleActive"
    "k \<noteq> j \<Longrightarrow> cl_coords (at_coordinator j f C) ! k = cl_coords C ! k"
proof -
  obtain M where M: "stored (cl_store C) = Some M" "Holder M = leaseHolder (cl_coords C ! i)" "e \<le> ExpiresAt M"
      and inv: "inv (cl_store C)" and i: "i < length (cl_coords C)" and d: "distinct (map leaseHolder (cl_coords C))"
    using held by (auto simp: held_by_def)
  have ne: "Holder M \<noteq> leaseHolder (cl_coords C ! j)" using distinct_holders [OF d i j(1)] j(2) M(2) by simp
  have tM: "t < ExpiresAt M" using t M(3) by simp
  obtain r c s where f: "f (cl_coords C ! j, cl_store C) = (r, c, s)" by (cases "f (cl_coords C ! j, cl_store C)")
  have c: "stored s = Some M \<and> co_role c \<noteq> coordinatorRoleActive \<and> leaseHolder c = leaseHolder (cl_coords C ! j)"
    using op excluded_ops [OF inv M(1) tM ne] f by (auto simp del: commitStaleRole_role(1))
  have "inv s" using op lease_ops_inv [OF inv, of t "cl_coords C ! j"] f by auto
  then show "held_by i e (at_coordinator j f C)"
      "leaseTTL (cl_coords (at_coordinator j f C) ! i) = leaseTTL (cl_coords C ! i)"
      "co_role (cl_coords (at_coordinator j f C) ! j) \<noteq> coordinatorRoleActive"
      "k \<noteq> j \<Longrightarrow> cl_coords (at_coordinator j f C) ! k = cl_coords C ! k"
    using f c M i j d map_holder_update [of c "cl_coords C" j]
    by (auto simp: at_coordinator_def held_by_def)
qed

lemma own_at_coordinator:
  assumes held: "held_by i e C" and t: "e \<le> expiry t (leaseTTL (cl_coords C ! i))"
    and op: "f = maintainCoordinatorLease S t \<or> f = requireCoordinatorLease S t"
  shows "held_by i e (at_coordinator i f C)" "leaseTTL (cl_coords (at_coordinator i f C) ! i) = leaseTTL (cl_coords C ! i)"
    "k \<noteq> i \<Longrightarrow> cl_coords (at_coordinator i f C) ! k = cl_coords C ! k"
proof -
  obtain M where M: "stored (cl_store C) = Some M" "Holder M = leaseHolder (cl_coords C ! i)" "e \<le> ExpiresAt M"
      and inv: "inv (cl_store C)" and i: "i < length (cl_coords C)" and d: "distinct (map leaseHolder (cl_coords C))"
    using held by (auto simp: held_by_def)
  obtain r c s where f: "f (cl_coords C ! i, cl_store C) = (r, c, s)" by (cases "f (cl_coords C ! i, cl_store C)")
  note own = own_ops [OF inv M t op, unfolded f, simplified]
  have "inv s" using op lease_ops_inv [OF inv, of t "cl_coords C ! i"] f by auto
  then show "held_by i e (at_coordinator i f C)"
      "leaseTTL (cl_coords (at_coordinator i f C) ! i) = leaseTTL (cl_coords C ! i)"
      "k \<noteq> i \<Longrightarrow> cl_coords (at_coordinator i f C) ! k = cl_coords C ! k"
    using f own i d map_holder_update [of c "cl_coords C" i]
    by (auto simp: at_coordinator_def held_by_def)
qed

lemma held_by_step:
  assumes held: "held_by i e C"
    and ev: "\<And>k t. event_at ev = Some (k, t) \<Longrightarrow> t < e \<and> (k = i \<longrightarrow> e \<le> expiry t (leaseTTL (cl_coords C ! i)))"
  shows "held_by i e (cluster_step S other ev C)"
    "leaseTTL (cl_coords (cluster_step S other ev C) ! i) = leaseTTL (cl_coords C ! i)"
    "j \<noteq> i \<Longrightarrow> co_role (cl_coords (cluster_step S other ev C) ! j) = coordinatorRoleActive \<Longrightarrow>
       co_role (cl_coords C ! j) = coordinatorRoleActive"
proof -
  have *: "held_by i e (at_coordinator k f C) \<and> leaseTTL (cl_coords (at_coordinator k f C) ! i) = leaseTTL (cl_coords C ! i) \<and>
      (j \<noteq> i \<longrightarrow> co_role (cl_coords (at_coordinator k f C) ! j) = coordinatorRoleActive \<longrightarrow>
       co_role (cl_coords C ! j) = coordinatorRoleActive)"
    if "f = maintainCoordinatorLease S t \<or> f = requireCoordinatorLease S t" "event_at ev = Some (k, t)" for k f t
  proof (cases "k < length (cl_coords C)")
    case True
    show ?thesis
    proof (cases "k = i")
      case k: True
      have "e \<le> expiry t (leaseTTL (cl_coords C ! i))" using ev [OF that(2)] k by simp
      then show ?thesis using own_at_coordinator [OF held _ that(1)] k by auto
    next
      case False
      have "t < e" using ev [OF that(2)] by simp
      then show ?thesis using other_at_coordinator [OF held True False _ that(1)] by metis
    qed
  next
    case False
    then show ?thesis using held by (simp add: at_coordinator_def)
  qed
  have "held_by i e (cluster_step S other ev C) \<and>
      leaseTTL (cl_coords (cluster_step S other ev C) ! i) = leaseTTL (cl_coords C ! i) \<and>
      (j \<noteq> i \<longrightarrow> co_role (cl_coords (cluster_step S other ev C) ! j) = coordinatorRoleActive \<longrightarrow>
       co_role (cl_coords C ! j) = coordinatorRoleActive)"
  proof (cases ev)
    case (Tick k t)
    then show ?thesis using * [of "maintainCoordinatorLease S t" t k] by simp
  next
    case (Check k t)
    then show ?thesis using * [of "requireCoordinatorLease S t" t k] by simp
  next
    case (StoreOp x)
    then show ?thesis using held by (simp add: held_by_def l.other_inv l.other_stored)
  qed
  then show "held_by i e (cluster_step S other ev C)"
    "leaseTTL (cl_coords (cluster_step S other ev C) ! i) = leaseTTL (cl_coords C ! i)"
    "j \<noteq> i \<Longrightarrow> co_role (cl_coords (cluster_step S other ev C) ! j) = coordinatorRoleActive \<Longrightarrow>
       co_role (cl_coords C ! j) = coordinatorRoleActive"
    by blast+
qed

lemma held_by_run:
  "held_by i e C \<Longrightarrow>
   \<forall>ev \<in> set evs. \<forall>k t. event_at ev = Some (k, t) \<longrightarrow> t < e \<and> (k = i \<longrightarrow> e \<le> expiry t (leaseTTL (cl_coords C ! i))) \<Longrightarrow>
   held_by i e (cluster_run S other evs C) \<and>
   (\<forall>j. j \<noteq> i \<longrightarrow> co_role (cl_coords (cluster_run S other evs C) ! j) = coordinatorRoleActive \<longrightarrow>
      co_role (cl_coords C ! j) = coordinatorRoleActive)"
proof (induction evs arbitrary: C)
  case (Cons ev evs)
  have ev: "\<And>k t. event_at ev = Some (k, t) \<Longrightarrow> t < e \<and> (k = i \<longrightarrow> e \<le> expiry t (leaseTTL (cl_coords C ! i)))"
    using Cons.prems(2) by simp
  note st = held_by_step [OF Cons.prems(1) ev]
  have "held_by i e (cluster_run S other evs (cluster_step S other ev C)) \<and>
    (\<forall>j. j \<noteq> i \<longrightarrow> co_role (cl_coords (cluster_run S other evs (cluster_step S other ev C)) ! j) = coordinatorRoleActive \<longrightarrow>
      co_role (cl_coords (cluster_step S other ev C) ! j) = coordinatorRoleActive)"
    by (rule Cons.IH [OF st(1)]) (use Cons.prems(2) st(2) in auto)
  then show ?case using st(3) unfolding cluster_run_def foldl_Cons by blast
qed (simp add: cluster_run_def)

lemma held_by_excludes:
  assumes "held_by i e C" "j < length (cl_coords C)" "j \<noteq> i" "t < e"
  shows "\<exists>err. fst (requireCoordinatorLease S t (cl_coords C ! j, cl_store C)) = Inl err"
proof -
  obtain M where M: "stored (cl_store C) = Some M" "Holder M = leaseHolder (cl_coords C ! i)" "e \<le> ExpiresAt M"
      and inv: "inv (cl_store C)" and i: "i < length (cl_coords C)" and d: "distinct (map leaseHolder (cl_coords C))"
    using assms(1) by (auto simp: held_by_def)
  have "Holder M \<noteq> leaseHolder (cl_coords C ! j)" using distinct_holders [OF d i assms(2)] assms(3) M(2) by simp
  then show ?thesis using excluded_ops(1) [OF inv M(1), of t] assms(4) M(3) by fastforce
qed

lemma length_run: "length (cl_coords (cluster_run S other evs C)) = length (cl_coords C)"
proof (induction evs arbitrary: C)
  case (Cons ev evs)
  have "length (cl_coords (cluster_step S other ev C)) = length (cl_coords C)"
    by (cases ev) (auto simp: at_coordinator_def split: prod.splits)
  then show ?case using Cons by (simp add: cluster_run_def)
qed (simp add: cluster_run_def)

lemma check_holds:
  assumes inv: "inv (cl_store C)" and i: "i < length (cl_coords C)" and d: "distinct (map leaseHolder (cl_coords C))"
    and r: "requireCoordinatorLease S t (cl_coords C ! i, cl_store C) = (Inr u, c, s)"
  shows "held_by i (expiry t (leaseTTL (cl_coords C ! i))) (cluster_step S other (Check i t) C)"
    "leaseTTL (cl_coords (cluster_step S other (Check i t) C) ! i) = leaseTTL (cl_coords C ! i)"
    "j \<noteq> i \<Longrightarrow> cl_coords (cluster_step S other (Check i t) C) ! j = cl_coords C ! j"
proof -
  obtain M L where M: "c = commitRenewedLease (FencingToken (co_lease (cl_coords C ! i))) L (cl_coords C ! i)"
      "Holder M = leaseHolder (cl_coords C ! i)" "stored s = Some (M\<lparr>ExpiresAt := expiry t (leaseTTL (cl_coords C ! i))\<rparr>)"
    using require_ok [OF r inv] by blast
  have "inv s" using lease_ops_inv(2) [OF inv, of t "cl_coords C ! i"] r by simp
  then show "held_by i (expiry t (leaseTTL (cl_coords C ! i))) (cluster_step S other (Check i t) C)"
    "leaseTTL (cl_coords (cluster_step S other (Check i t) C) ! i) = leaseTTL (cl_coords C ! i)"
    "j \<noteq> i \<Longrightarrow> cl_coords (cluster_step S other (Check i t) C) ! j = cl_coords C ! j"
    using r i d M map_holder_update [of c "cl_coords C" i]
    by (auto simp: at_coordinator_def held_by_def)
qed

lemma check_excludes:
  assumes "inv (cl_store C)" "distinct (map leaseHolder (cl_coords C))" "i < length (cl_coords C)"
    and r: "requireCoordinatorLease S t (cl_coords C ! i, cl_store C) = (Inr u, c, s)"
    and evs: "\<forall>ev \<in> set evs. \<forall>k t'. event_at ev = Some (k, t') \<longrightarrow> t' < expiry t (leaseTTL (cl_coords C ! i)) \<and>
      (k = i \<longrightarrow> expiry t (leaseTTL (cl_coords C ! i)) \<le> expiry t' (leaseTTL (cl_coords C ! i)))"
    and "j < length (cl_coords C)" and j: "j \<noteq> i" and "t' < expiry t (leaseTTL (cl_coords C ! i))"
  shows "let D = cluster_run S other evs (cluster_step S other (Check i t) C)
     in (\<exists>err. fst (requireCoordinatorLease S t' (cl_coords D ! j, cl_store D)) = Inl err) \<and>
        (co_role (cl_coords D ! j) = coordinatorRoleActive \<longrightarrow> co_role (cl_coords C ! j) = coordinatorRoleActive)"
proof -
  let ?C = "cluster_step S other (Check i t) C"
  let ?D = "cluster_run S other evs ?C"
  note ch = check_holds [OF assms(1,3,2) r]
  have run: "held_by i (expiry t (leaseTTL (cl_coords C ! i))) ?D \<and>
      (\<forall>j. j \<noteq> i \<longrightarrow> co_role (cl_coords ?D ! j) = coordinatorRoleActive \<longrightarrow> co_role (cl_coords ?C ! j) = coordinatorRoleActive)"
    by (rule held_by_run [OF ch(1)]) (use evs ch(2) in simp)
  have "length (cl_coords ?D) = length (cl_coords C)"
    using length_run [of "Check i t # evs" C] by (simp add: cluster_run_def)
  then show ?thesis
    using run held_by_excludes [of i _ ?D j t'] ch(3) [OF j] assms(6-8) by (auto simp: Let_def)
qed

end

interpretation mem_coordinator: coordinator_lease mem_control_ops control_step lease_ok stored_lease "\<lambda>t d. t + d"
proof -
  show "coordinator_lease mem_control_ops control_step lease_ok stored_lease (\<lambda>t d. t + d)"
    unfolding coordinator_lease_def mem_control_ops_simps by (rule mem_lease.lease_store_axioms)
qed

lemma mem_require:
  assumes "requireCoordinatorLease mem_control_ops t (c, s) = (q, c', s')"
  shows "q = Inl e \<Longrightarrow> s' = s"
    and "q = Inr u \<Longrightarrow> known_role c \<Longrightarrow> \<exists>M. CurrentLease t s = Some M \<and> Holder M = leaseHolder c \<and>
       FencingToken M = FencingToken (co_lease c) \<and> stored_lease s' = Some (M\<lparr>ExpiresAt := t + leaseTTL c\<rparr>) \<and>
       c' = c\<lparr>co_lease := M\<lparr>ExpiresAt := t + leaseTTL c\<rparr>, co_role := coordinatorRoleActive\<rparr>"
  using assms by (auto simp: requireCoordinatorLease_def renewCoordinatorLease_def RenewLease_def commitRenewedLease_def
      CurrentLease_def stored_lease_def Let_def split: if_splits)

section \<open>Properties\<close>

definition sample_coordinator :: "string \<Rightarrow> Coordinator" where
  "sample_coordinator h = \<lparr>availableShards = rev sample_inventory, co_clients = [3 \<mapsto> ''a-leader'', 7 \<mapsto> ''b-leader''],
     co_sessions = Map.empty, co_epoch = no_epoch, co_epochTimer = None, leaseHolder = h, leaseTTL = 10,
     co_lease = \<lparr>Holder = ''a'', FencingToken = 1, ExpiresAt = 10\<rparr>, co_role = coordinatorRoleActive,
     co_health = Map.empty, autoPromotion = zero_autoPromotionConfig, autoPromotionState = Map.empty,
     scalingConfig = sample_policy, activeScalingMetrics = zero_metrics, hasActiveScalingMetrics = False,
     lastScalingMetrics = zero_metrics, lastScalingRecommendation = zero_recommendation, hasLastScalingMetrics = False\<rparr>"

lemma sample_coordinator_simps [simp]:
  "leaseHolder (sample_coordinator h) = h" "leaseTTL (sample_coordinator h) = 10" "known_role (sample_coordinator h)"
  "FencingToken (co_lease (sample_coordinator h)) = 1"
  by (simp_all add: sample_coordinator_def known_role_def)

lemma sample_check:
  "\<exists>c s. requireCoordinatorLease mem_control_ops 4 (sample_coordinator ''a'', leased_store) = (Inr (), c, s)"
  by (simp add: requireCoordinatorLease_def renewCoordinatorLease_def RenewLease_def leased_store_def AcquireLease_def
      NewMemoryControlStore_def Before_def Let_def)

text \<open>A lease check that succeeds means leadership. If \<^verbatim>\<open>requireCoordinatorLease\<close> succeeds, the store's lease
  was valid at that moment, held by this coordinator with the token it knows; afterwards it runs for
  another lease time, the coordinator has it cached and is in the role \<^verbatim>\<open>active\<close>. If it fails, the
  coordinator is not in that role any more and the store's lease is what it was.\<close>

theorem lease_check_means_leadership:
  assumes "known_role c" "lease_ok s"
  shows "case requireCoordinatorLease mem_control_ops now (c, s) of
     (Inl err, c', s') \<Rightarrow> co_role c' \<noteq> coordinatorRoleActive \<and> stored_lease s' = stored_lease s
   | (Inr _, c', s') \<Rightarrow>
       co_role c' = coordinatorRoleActive \<and>
       (\<exists>L. CurrentLease now s = Some L \<and> Holder L = leaseHolder c \<and> FencingToken L = FencingToken (co_lease c)) \<and>
       stored_lease s' = Some \<lparr>Holder = leaseHolder c, FencingToken = FencingToken (co_lease c), ExpiresAt = now + leaseTTL c\<rparr> \<and>
       stored_lease s' = Some (co_lease c')"
proof (cases "requireCoordinatorLease mem_control_ops now (c, s)")
  case (fields r c' s')
  show ?thesis
  proof (cases r)
    case (Inl e)
    then show ?thesis using mem_coordinator.require_err [of now c s e c' s'] mem_require(1) [OF fields Inl] fields by (simp del: commitStaleRole_role(1))
  next
    case (Inr u)
    then show ?thesis using mem_require(2) [OF fields Inr assms(1)] fields by auto
  qed
qed

theorem lease_check_means_leadership_witness:
  "\<exists>c' s'. requireCoordinatorLease mem_control_ops 4 (sample_coordinator ''a'', leased_store) = (Inr (), c', s') \<and>
     co_role c' = coordinatorRoleActive"
proof -
  obtain c' s' where "requireCoordinatorLease mem_control_ops 4 (sample_coordinator ''a'', leased_store) = (Inr (), c', s')"
    using sample_check by blast
  with lease_check_means_leadership [of "sample_coordinator ''a''" leased_store 4] leased_store_simps(1)
  show ?thesis by auto
qed

text \<open>C7: One active coordinator. Coordinators with different holder names share a store. After one of
  them passed a lease check at time \<open>t\<close>, let any events happen: ticks and checks of any coordinators
  before \<open>t + leaseTTL\<close> (its own not before \<open>t\<close>) and any other operations on the store. Then every
  other coordinator fails its lease check at any time before \<open>t + leaseTTL\<close>, and none has become
  active that was not before.\<close>

theorem lease_check_excludes_others:
  assumes "lease_ok (cl_store C)" "distinct (map leaseHolder (cl_coords C))" "i < length (cl_coords C)"
    and "known_role (cl_coords C ! i)"
    and "requireCoordinatorLease mem_control_ops t (cl_coords C ! i, cl_store C) = (Inr u, c, s)"
    and "\<forall>ev \<in> set evs. \<forall>k t'. event_at ev = Some (k, t') \<longrightarrow>
           t' < t + leaseTTL (cl_coords C ! i) \<and> (k = i \<longrightarrow> t \<le> t')"
    and "j < length (cl_coords C)" "j \<noteq> i" "t' < t + leaseTTL (cl_coords C ! i)"
  shows "let D = cluster_run mem_control_ops control_step evs (cluster_step mem_control_ops control_step (Check i t) C)
     in (\<exists>err. fst (requireCoordinatorLease mem_control_ops t' (cl_coords D ! j, cl_store D)) = Inl err) \<and>
        (co_role (cl_coords D ! j) = coordinatorRoleActive \<longrightarrow> co_role (cl_coords C ! j) = coordinatorRoleActive)"
  using mem_coordinator.check_excludes [OF assms(1-3,5) _ assms(7-9), of evs] assms(6) by simp

definition sample_cluster :: "MemoryControlStore cluster" where
  "sample_cluster = \<lparr>cl_coords = [sample_coordinator ''a'', (sample_coordinator ''b'')\<lparr>co_role := coordinatorRolePassive\<rparr>],
     cl_store = leased_store\<rparr>"

theorem lease_check_excludes_others_witness:
  "let D = cluster_run mem_control_ops control_step [Tick 1 11, Check 1 12, StoreOp (CtlCompleteEpoch 1), Tick 0 12]
       (cluster_step mem_control_ops control_step (Check 0 4) sample_cluster)
   in co_role (cl_coords D ! 1) \<noteq> coordinatorRoleActive"
proof -
  obtain c s where "requireCoordinatorLease mem_control_ops 4 (cl_coords sample_cluster ! 0, cl_store sample_cluster) = (Inr (), c, s)"
    using sample_check by (auto simp: sample_cluster_def)
  from lease_check_excludes_others [OF _ _ _ _ this, where j = 1 and t' = 5 and
      evs = "[Tick 1 11, Check 1 12, StoreOp (CtlCompleteEpoch 1), Tick 0 12]"]
  show ?thesis using leased_store_simps(1) by (simp add: sample_cluster_def Let_def roles)
qed

end
