(* ===== verification/Coordinator_Epoch.thy ===== *)
theory Coordinator_Epoch
  imports Coordinator_Lease
begin

text \<open>
  Epochs at the coordinator (\<^verbatim>\<open>StartEpoch\<close>, \<^verbatim>\<open>abortStarted\<close>, \<^verbatim>\<open>completeEpoch\<close>, \<^verbatim>\<open>EpochStatus\<close> of
  \<^verbatim>\<open>src/coordinator/coordinator.go\<close>; the epoch functions of \<^verbatim>\<open>coordinator_actor.go\<close>; \<^verbatim>\<open>epoch_cycle.go\<close>,
  \<^verbatim>\<open>scaling_persistence.go\<close>, \<^verbatim>\<open>coordinator_errors.go\<close>).

  Shown here: what a successful start has done to the shards, the store and the coordinator, and what
  the end of an epoch leaves in the store, the recommendation and the cycle included.

  The shards are an interface (\<open>shard_ops\<close>): remote calls on the address of a client, over a state \<open>'w\<close>
  of the shards. A handler takes the coordinator, the store and the shards and returns its reply and
  the three. \<open>rpc_Status\<close> is \<open>None\<close> when no answer comes in time. \<open>clk n\<close> is what the \<open>n\<close>-th
  call of \<^verbatim>\<open>time.Now\<close> of the handler returns.
\<close>

section \<open>Errors\<close>

definition errCoordinatorNoActiveEpoch :: go_error where
  "errCoordinatorNoActiveEpoch = Sentinel ''coordinator no active epoch''"
definition errCoordinatorNotActive :: go_error where
  "errCoordinatorNotActive = Sentinel ''coordinator not active''"
definition errCoordinatorBogusUUID :: go_error where
  "errCoordinatorBogusUUID = Sentinel ''coordinator bogus uuid''"
definition errCoordinatorShardSessionLost :: go_error where
  "errCoordinatorShardSessionLost = Sentinel ''coordinator shard session lost''"
definition errCoordinatorEpochAlreadyActive :: go_error where
  "errCoordinatorEpochAlreadyActive = Sentinel ''coordinator epoch already active''"
definition errCoordinatorInvalidEpochDuration :: go_error where
  "errCoordinatorInvalidEpochDuration = Sentinel ''coordinator invalid epoch duration''"
definition errCoordinatorSessionAllocation :: go_error where
  "errCoordinatorSessionAllocation = Sentinel ''coordinator session allocation failed''"
definition errCoordinatorAssignedSessionFailed :: go_error where
  "errCoordinatorAssignedSessionFailed = Sentinel ''coordinator assigned session mismatch''"

lemmas coordinator_errors = errCoordinatorNoActiveEpoch_def errCoordinatorNotActive_def errCoordinatorBogusUUID_def
  errCoordinatorShardSessionLost_def errCoordinatorEpochAlreadyActive_def errCoordinatorInvalidEpochDuration_def
  errCoordinatorSessionAllocation_def errCoordinatorAssignedSessionFailed_def

definition coordinatorWireBogusUUID :: string where "coordinatorWireBogusUUID = ''Bogus UUID''"

definition coordinatorWireError :: "go_error \<Rightarrow> go_error" where
  "coordinatorWireError err =
     (if errors_Is err errCoordinatorNoActiveEpoch then ErrorString ''No active epoch''
      else if errors_Is err errCoordinatorNotActive then ErrorString ''Coordinator not active''
      else if errors_Is err errCoordinatorBogusUUID then ErrorString coordinatorWireBogusUUID
      else if errors_Is err errCoordinatorShardSessionLost then ErrorString ''Shard session lost''
      else if errors_Is err errCoordinatorEpochAlreadyActive then ErrorString ''An epoch is already in progress''
      else if errors_Is err errCoordinatorInvalidEpochDuration then ErrorString ''Epoch duration must be positive''
      else if errors_Is err errCoordinatorSessionAllocation
      then ErrorString ''could not allocate unique coordinator session''
      else if errors_Is err errCoordinatorAssignedSessionFailed
      then ErrorString ''shard returned mismatched assigned session''
      else err)"

definition coordinatorShardSessionError :: "go_error \<Rightarrow> go_error" where
  "coordinatorShardSessionError err =
     (if contains (error_text err) coordinatorWireBogusUUID then coordinatorWireError errCoordinatorShardSessionLost
      else err)"

section \<open>The shards\<close>

record 'w shard_ops =
  rpc_Upload1 :: "string \<Rightarrow> UploadArgs1 \<Rightarrow> 'w \<Rightarrow> UploadReply1 res \<times> 'w"
  rpc_Upload2 :: "string \<Rightarrow> UploadArgs2 \<Rightarrow> 'w \<Rightarrow> UploadReply2 res \<times> 'w"
  rpc_Upload3 :: "string \<Rightarrow> UploadArgs3 \<Rightarrow> 'w \<Rightarrow> unit res \<times> 'w"
  rpc_StartEpoch :: "string \<Rightarrow> int \<Rightarrow> int \<Rightarrow> int \<Rightarrow> 'w \<Rightarrow> StartEpochReply res \<times> 'w"
  rpc_AbortEpoch :: "string \<Rightarrow> int \<Rightarrow> 'w \<Rightarrow> unit res \<times> 'w"
  rpc_Status :: "string \<Rightarrow> 'w \<Rightarrow> StatusReply res option"
  rpc_Dial :: "string \<Rightarrow> 'w \<Rightarrow> unit res"
  rpc_DialStandby :: "string \<Rightarrow> duration \<Rightarrow> 'w \<Rightarrow> unit res"
  rpc_CloseStandby :: "string \<Rightarrow> 'w \<Rightarrow> unit res"

section \<open>The epoch cycle\<close>

definition epochCycleState :: "'s control_ops \<Rightarrow> 's \<Rightarrow> string" where
  "epochCycleState S s =
     (case ct_GetEpochCycle S s of
        Inr (Some cycle) \<Rightarrow> if cy_State cycle = '''' then EpochCycleStateIdle else cy_State cycle
      | _ \<Rightarrow> EpochCycleStateIdle)"

definition requireEpochCycleAllowsStart :: "'s control_ops \<Rightarrow> 's \<Rightarrow> unit res" where
  "requireEpochCycleAllowsStart S s =
     (let state = epochCycleState S s in
      if state \<in> {EpochCycleStateIdle, EpochCycleStateScalingApplied, EpochCycleStateScalingSkipped,
                  EpochCycleStateReadyForNextEpoch}
      then Inr ()
      else Inl (ErrorString (''epoch cycle state '' @ state @ '' does not allow starting an epoch'')))"

definition putEpochCycleTransition ::
  "'s control_ops \<Rightarrow> gotime \<Rightarrow> string \<Rightarrow> string \<Rightarrow> EpochCycleRecord \<Rightarrow> 's \<Rightarrow> unit res \<times> 's" where
  "putEpochCycleTransition S now from to update s =
     ct_PutEpochCycleTransition S now from to
       (if IsZero (cy_UpdatedAt update) then update\<lparr>cy_UpdatedAt := now\<rparr> else update) s"

definition transitionEpochCycleStarted :: "'s control_ops \<Rightarrow> gotime \<Rightarrow> int \<Rightarrow> int \<Rightarrow> 's \<Rightarrow> unit res \<times> 's" where
  "transitionEpochCycleStarted S now epochID shardConfigVersion s =
     putEpochCycleTransition S now (epochCycleState S s) EpochCycleStateActive
       (zero_cycle\<lparr>cy_EpochID := epochID, cy_ShardConfigVersion := shardConfigVersion, cy_Reason := ''epoch started''\<rparr>) s"

definition transitionEpochCycleRecommendationReady ::
  "'s control_ops \<Rightarrow> gotime \<Rightarrow> int \<Rightarrow> int \<Rightarrow> 's \<Rightarrow> unit res \<times> 's" where
  "transitionEpochCycleRecommendationReady S now epochID shardConfigVersion s =
     putEpochCycleTransition S now EpochCycleStateActive EpochCycleStateRecommendationReady
       (zero_cycle\<lparr>cy_EpochID := epochID, cy_ShardConfigVersion := shardConfigVersion,
          cy_ScalingRecommendationEpochID := epochID, cy_Reason := ''scaling recommendation ready''\<rparr>) s"

definition transitionEpochCycleScalingSkipped ::
  "'s control_ops \<Rightarrow> gotime \<Rightarrow> int \<Rightarrow> int \<Rightarrow> string \<Rightarrow> 's \<Rightarrow> unit res \<times> 's" where
  "transitionEpochCycleScalingSkipped S now epochID shardConfigVersion reason s =
     (let reason = (if reason = '''' then ''scaling recommendation skipped'' else reason);
          update = zero_cycle\<lparr>cy_EpochID := epochID, cy_ShardConfigVersion := shardConfigVersion,
                     cy_ScalingRecommendationEpochID := epochID\<rparr>
      in case putEpochCycleTransition S now EpochCycleStateRecommendationReady EpochCycleStateScalingInProgress
                (update\<lparr>cy_Reason := ''scaling skip started''\<rparr>) s of
           (Inl err, s) \<Rightarrow> (Inl err, s)
         | (Inr _, s) \<Rightarrow>
             putEpochCycleTransition S now EpochCycleStateScalingInProgress EpochCycleStateScalingSkipped
               (update\<lparr>cy_Reason := reason\<rparr>) s)"

definition transitionEpochCycleFailed :: "'s control_ops \<Rightarrow> gotime \<Rightarrow> string \<Rightarrow> int \<Rightarrow> int \<Rightarrow> string \<Rightarrow> 's \<Rightarrow> 's" where
  "transitionEpochCycleFailed S now from epochID shardConfigVersion reason s =
     snd (putEpochCycleTransition S now from EpochCycleStateFailed
       (zero_cycle\<lparr>cy_EpochID := epochID, cy_ShardConfigVersion := shardConfigVersion, cy_Reason := reason\<rparr>) s)"

section \<open>Starting an epoch\<close>

definition validCoordinatorEpochTransition :: "DbState \<Rightarrow> DbState \<Rightarrow> bool" where
  "validCoordinatorEpochTransition from to =
     (if from = to then True
      else if from = EpochStateNoActive \<or> from = EpochStateCompleted then to = EpochStateActive
      else if from = EpochStateActive then to = EpochStateCompleted
      else False)"

definition transitionCoordinatorEpoch :: "EpochMeta \<Rightarrow> Coordinator \<Rightarrow> unit res \<times> Coordinator" where
  "transitionCoordinatorEpoch next c =
     (if \<not> validCoordinatorEpochTransition (ep_State (co_epoch c)) (ep_State next)
      then (Inl (ErrorString (''invalid coordinator epoch transition '' @ DbState_String (ep_State (co_epoch c))
              @ '' -> '' @ DbState_String (ep_State next))), c)
      else (Inr (), c\<lparr>co_epoch := next\<rparr>))"

text \<open>The identifier of the next epoch and its start time, or the refusal.\<close>

definition startEpochDecision :: "gotime \<Rightarrow> int \<Rightarrow> int \<Rightarrow> int \<Rightarrow> Coordinator \<Rightarrow> (int \<times> gotime) res" where
  "startEpochDecision now argEpochID argStartUnix latestEpochID c =
     (if ep_State (co_epoch c) = EpochStateActive then Inl errCoordinatorEpochAlreadyActive
      else let base = (if latestEpochID > ep_ID (co_epoch c) then latestEpochID else ep_ID (co_epoch c))
           in Inr (if argEpochID > 0 then argEpochID else wrap64 (base + 1),
                   if argStartUnix > 0 then time_Unix argStartUnix else now))"

definition sameEpochReply :: "StartEpochReply \<Rightarrow> StartEpochReply \<Rightarrow> bool" where
  "sameEpochReply expected actual \<longleftrightarrow>
     se_EpochID expected = se_EpochID actual \<and> se_State expected = se_State actual \<and>
     se_StartUnix expected = se_StartUnix actual \<and> se_EndUnix expected = se_EndUnix actual \<and>
     se_DurationSecs expected = se_DurationSecs actual"

text \<open>The loop over the shards: what the first shard answered, the shards that started, the shards' state.\<close>

fun start_shards ::
  "'w shard_ops \<Rightarrow> (int \<rightharpoonup> string) \<Rightarrow> int \<Rightarrow> int \<Rightarrow> int \<Rightarrow> ShardConfig list \<Rightarrow> StartEpochReply option \<Rightarrow> int list \<Rightarrow> 'w
     \<Rightarrow> StartEpochReply option res \<times> int list \<times> 'w" where
  "start_shards R clients duration epochID startUnix [] expected started w = (Inr expected, started, w)"
| "start_shards R clients duration epochID startUnix (shard # rest) expected started w =
     (case clients (sc_ID shard) of
        None \<Rightarrow> (Inl (ErrorString (''missing shard client for shard '' @ show_int (sc_ID shard))), started, w)
      | Some addr \<Rightarrow>
          (case rpc_StartEpoch R addr duration epochID startUnix w of
             (Inl err, w) \<Rightarrow>
               (Inl (Wrapped (''start epoch on shard '' @ show_int (sc_ID shard) @ '': '') err ''''), started, w)
           | (Inr shardReply, w) \<Rightarrow>
               (case expected of
                  None \<Rightarrow>
                    start_shards R clients duration epochID startUnix rest (Some shardReply) (started @ [sc_ID shard]) w
                | Some e \<Rightarrow>
                    if \<not> sameEpochReply e shardReply
                    then (Inl (ErrorString (''shard '' @ show_int (sc_ID shard) @ '' returned mismatched epoch metadata'')),
                          started, w)
                    else start_shards R clients duration epochID startUnix rest expected
                           (started @ [sc_ID shard]) w)))"

fun abortStarted :: "'w shard_ops \<Rightarrow> (int \<rightharpoonup> string) \<Rightarrow> int list \<Rightarrow> int \<Rightarrow> 'w \<Rightarrow> 'w" where
  "abortStarted R clients [] epochID w = w"
| "abortStarted R clients (shardID # rest) epochID w =
     (case clients shardID of
        None \<Rightarrow> abortStarted R clients rest epochID w
      | Some addr \<Rightarrow> abortStarted R clients rest epochID (snd (rpc_AbortEpoch R addr epochID w)))"

definition commitStartedEpoch :: "gotime \<Rightarrow> EpochMeta \<Rightarrow> int \<Rightarrow> Coordinator \<Rightarrow> Coordinator" where
  "commitStartedEpoch now ep shardCount c =
     (let c = c\<lparr>co_epochTimer := None\<rparr> in
      case transitionCoordinatorEpoch ep c of
        (Inl _, c) \<Rightarrow> c
      | (Inr _, c) \<Rightarrow>
          c\<lparr>activeScalingMetrics := \<lparr>mt_EpochID = ep_ID ep, mt_CurrentShardCount = shardCount,
               mt_AcceptedRequestCount = 0, mt_DurationSeconds = ep_DurationSeconds ep\<rparr>,
            hasActiveScalingMetrics := True, co_epochTimer := Some (ep_EndTime ep - now)\<rparr>)"

definition zero_start_reply :: StartEpochReply where
  "zero_start_reply = \<lparr>se_EpochID = 0, se_State = '''', se_StartUnix = 0, se_EndUnix = 0, se_DurationSecs = 0\<rparr>"

definition started_epoch :: "StartEpochReply \<Rightarrow> EpochMeta" where
  "started_epoch expected =
     \<lparr>ep_ID = se_EpochID expected, ep_State = EpochStateActive, ep_StartTime = time_Unix (se_StartUnix expected),
      ep_EndTime = time_Unix (se_EndUnix expected), ep_DurationSeconds = se_DurationSecs expected\<rparr>"

text \<open>The part of \<^verbatim>\<open>StartEpoch\<close> after the shards have started: the second lease check and the writes to the
  control store, each of which aborts the shards again when it fails.\<close>

definition record_started_epoch ::
  "'s control_ops \<Rightarrow> 'w shard_ops \<Rightarrow> (nat \<Rightarrow> gotime) \<Rightarrow> ShardConfigRecord \<Rightarrow> int \<Rightarrow> StartEpochReply \<Rightarrow> int list
     \<Rightarrow> Coordinator \<times> 's \<times> 'w \<Rightarrow> StartEpochReply res \<times> Coordinator \<times> 's \<times> 'w" where
  "record_started_epoch S R clk config nextEpochID expected started = (\<lambda>(c, s, w).
     let abort = (\<lambda>err c s. (Inl err, c, s, abortStarted R (co_clients c) started nextEpochID w)) in
     case requireCoordinatorLease S (clk 2) (c, s) of
       (Inl _, c, s) \<Rightarrow> abort (coordinatorWireError errCoordinatorNotActive) c s
     | (Inr _, c, s) \<Rightarrow>
     let ep = started_epoch expected in
     case ct_PutEpochShardConfig S (ep_ID ep) (epochShardConfigRecord config (ep_ID ep)) s of
       (Inl err, s) \<Rightarrow> abort (Wrapped ''write epoch shard config: '' err '''') c s
     | (Inr _, s) \<Rightarrow>
     case ct_StartEpoch S ep (cfg_Version config) s of
       (Inl err, s) \<Rightarrow> abort (Wrapped ''start epoch in control store: '' err '''') c s
     | (Inr _, s) \<Rightarrow>
     case transitionEpochCycleStarted S (clk 3) (ep_ID ep) (cfg_Version config) s of
       (Inl err, s) \<Rightarrow> abort (Wrapped ''start epoch cycle: '' err '''') c s
     | (Inr _, s) \<Rightarrow> (Inr expected, commitStartedEpoch (clk 4) ep (ShardCount config) c, s, w))"

definition coord_StartEpoch ::
  "'s control_ops \<Rightarrow> 'w shard_ops \<Rightarrow> (nat \<Rightarrow> gotime) \<Rightarrow> int \<Rightarrow> int \<Rightarrow> int \<Rightarrow> Coordinator \<times> 's \<times> 'w
     \<Rightarrow> StartEpochReply res \<times> Coordinator \<times> 's \<times> 'w" where
  "coord_StartEpoch S R clk durationSeconds argEpochID argStartUnix = (\<lambda>(c, s, w).
     if durationSeconds \<le> 0 then (Inl (coordinatorWireError errCoordinatorInvalidEpochDuration), c, s, w)
     else case requireCoordinatorLease S (clk 0) (c, s) of
       (Inl _, c, s) \<Rightarrow> (Inl (coordinatorWireError errCoordinatorNotActive), c, s, w)
     | (Inr _, c, s) \<Rightarrow>
     case requireEpochCycleAllowsStart S s of
       Inl err \<Rightarrow> (Inl err, c, s, w)
     | Inr _ \<Rightarrow>
     let latestEpochID = (case ct_CurrentEpoch S s of None \<Rightarrow> 0 | Some ep \<Rightarrow> ep_ID ep) in
     case startEpochDecision (clk 1) argEpochID argStartUnix latestEpochID c of
       Inl err \<Rightarrow> (Inl (coordinatorWireError err), c, s, w)
     | Inr (nextEpochID, startTime) \<Rightarrow>
     case activeShardConfig S s of
       Inl err \<Rightarrow> (Inl (Wrapped ''get shard config: '' err ''''), c, s, w)
     | Inr config \<Rightarrow>
     case start_shards R (co_clients c) durationSeconds nextEpochID (Unix startTime) (Shards config) None [] w of
       (Inl err, started, w) \<Rightarrow> (Inl err, c, s, abortStarted R (co_clients c) started nextEpochID w)
     | (Inr expected, started, w) \<Rightarrow>
         record_started_epoch S R clk config nextEpochID
           (case expected of None \<Rightarrow> zero_start_reply | Some e \<Rightarrow> e) started (c, s, w))"

section \<open>Completing an epoch\<close>

definition scalingRecommendationRecord ::
  "EpochScalingMetrics \<Rightarrow> ScalingRecommendation \<Rightarrow> int \<Rightarrow> gotime \<Rightarrow> ScalingRecommendationRecord" where
  "scalingRecommendationRecord metrics rec shardConfigVersion createdAt =
     \<lparr>sg_Key = epochScalingRecommendationKey (mt_EpochID metrics), sg_EpochID = mt_EpochID metrics,
      sg_AcceptedRequestCount = mt_AcceptedRequestCount metrics, sg_DurationSeconds = mt_DurationSeconds metrics,
      sg_CurrentShardCount = mt_CurrentShardCount metrics, sg_RecommendedShardCount = rec_RecommendedShardCount rec,
      sg_TargetRowsPerShard = rec_TargetRowsPerShard rec, sg_RequestDensity = rec_RequestDensity rec,
      sg_Action = rec_Action rec, sg_Reason = rec_Reason rec,
      sg_ProposedGlobalTableHeight = wrap64 (rec_RecommendedShardCount rec * rec_TargetRowsPerShard rec),
      sg_ShardConfigVersion = shardConfigVersion, sg_CreatedAt = createdAt\<rparr>"

text \<open>\<^verbatim>\<open>commitCompletedEpoch\<close>: the metrics and recommendation (zero values when the epoch was not counted),
  and whether the epoch was completed by this call.\<close>

definition commitCompletedEpoch ::
  "int \<Rightarrow> Coordinator \<Rightarrow> (EpochScalingMetrics \<times> ScalingRecommendation \<times> bool) \<times> Coordinator" where
  "commitCompletedEpoch epochID c =
     (if ep_State (co_epoch c) \<noteq> EpochStateActive \<or> ep_ID (co_epoch c) \<noteq> epochID
      then ((zero_metrics, zero_recommendation, False), c)
      else case transitionCoordinatorEpoch ((co_epoch c)\<lparr>ep_State := EpochStateCompleted\<rparr>) c of
        (Inl _, c) \<Rightarrow> ((zero_metrics, zero_recommendation, False), c)
      | (Inr _, c) \<Rightarrow>
          let c = c\<lparr>co_epochTimer := None\<rparr> in
          if hasActiveScalingMetrics c \<and> mt_EpochID (activeScalingMetrics c) = epochID
          then let rec = ComputeNextDatasetScale (activeScalingMetrics c) (scalingConfig c)
               in ((activeScalingMetrics c, rec, True),
                   c\<lparr>lastScalingMetrics := activeScalingMetrics c, lastScalingRecommendation := rec,
                     hasLastScalingMetrics := True, hasActiveScalingMetrics := False\<rparr>)
          else ((zero_metrics, zero_recommendation, True), c))"

definition persist_recommendation ::
  "'s control_ops \<Rightarrow> (nat \<Rightarrow> gotime) \<Rightarrow> EpochScalingMetrics \<Rightarrow> ScalingRecommendation \<Rightarrow> int \<Rightarrow> int \<Rightarrow> 's \<Rightarrow> 's" where
  "persist_recommendation S clk metrics recommendation epochID shardConfigVersion s =
     (case ct_PutScalingRecommendation S (clk 2)
             (scalingRecommendationRecord metrics recommendation shardConfigVersion (clk 1)) s of
        (Inl err, s) \<Rightarrow>
          transitionEpochCycleFailed S (clk 3) EpochCycleStateActive epochID shardConfigVersion (error_text err) s
      | (Inr _, s) \<Rightarrow>
          (case transitionEpochCycleRecommendationReady S (clk 3) epochID shardConfigVersion s of
             (Inl _, s) \<Rightarrow> s
           | (Inr _, s) \<Rightarrow>
               if rec_Action recommendation = scalingActionKeep
               then snd (transitionEpochCycleScalingSkipped S (clk 4) epochID shardConfigVersion
                           ''scaling recommendation keep; no topology change'' s)
               else s))"

definition completeEpoch ::
  "'s control_ops \<Rightarrow> (nat \<Rightarrow> gotime) \<Rightarrow> Coordinator \<times> 's \<Rightarrow> Coordinator \<times> 's" where
  "completeEpoch S clk = (\<lambda>(c, s).
     let epochID = (if ep_State (co_epoch c) \<noteq> EpochStateActive then 0 else ep_ID (co_epoch c)) in
     if epochID = 0 then (c, s)
     else case requireCoordinatorLease S (clk 0) (c, s) of
       (Inl _, c, s) \<Rightarrow> (c, s)
     | (Inr _, c, s) \<Rightarrow>
     let ((metrics, recommendation, completed), c) = commitCompletedEpoch epochID c in
     if \<not> completed then (c, s)
     else case ct_CompleteEpoch S epochID s of
       (Inl _, s) \<Rightarrow> (c, s)
     | (Inr _, s) \<Rightarrow>
         let shardConfigVersion = currentShardConfigVersion S s in
         (c, if mt_EpochID metrics = epochID
             then persist_recommendation S clk metrics recommendation epochID shardConfigVersion s else s))"

section \<open>Status of the epoch\<close>

definition acceptingFromControlStore :: "'s control_ops \<Rightarrow> EpochMeta \<Rightarrow> 's \<Rightarrow> bool" where
  "acceptingFromControlStore S ep s =
     (if ep_ID ep \<le> 0 then ep_State ep = EpochStateActive
      else case ct_CurrentEpoch S s of
        None \<Rightarrow> ep_State ep = EpochStateActive
      | Some _ \<Rightarrow> (case ct_Accepting S (ep_ID ep) s of Inl _ \<Rightarrow> False | Inr b \<Rightarrow> b))"

definition coord_EpochStatus :: "'s control_ops \<Rightarrow> Coordinator \<Rightarrow> 's \<Rightarrow> EpochStatusReply" where
  "coord_EpochStatus S c s =
     (let ep = co_epoch c in
      \<lparr>es_EpochID = ep_ID ep, es_State = DbState_String (ep_State ep), es_StartUnix = Unix (ep_StartTime ep),
       es_EndUnix = Unix (ep_EndTime ep), es_DurationSecs = ep_DurationSeconds ep,
       es_Accepting = acceptingFromControlStore S ep s, es_LastResult = ''''\<rparr>)"

section \<open>What a lease check leaves alone\<close>

lemma transition_role_frame: "\<exists>x. snd (transitionCoordinatorRole next c) = c\<lparr>co_role := x\<rparr>"
  by (auto simp: transitionCoordinatorRole_def intro: exI [of _ "co_role c"])

lemma require_frame:
  assumes "requireCoordinatorLease S t (c, s) = (r, c', s')"
  obtains L x where "c' = c\<lparr>co_lease := L, co_role := x\<rparr>"
proof -
  obtain g c1 s1 where g: "renewCoordinatorLease S t (c, s) = (g, c1, s1)" by (cases "renewCoordinatorLease S t (c, s)")
  then have "\<exists>L x. c1 = c\<lparr>co_lease := L, co_role := x\<rparr>"
    using transition_role_frame [of coordinatorRoleActive]
    by (auto simp: renewCoordinatorLease_def commitRenewedLease_def Let_def split: prod.splits sum.splits if_splits)
      (metis Coordinator.surjective Coordinator.update_convs(8,9))+
  then obtain L x where c1: "c1 = c\<lparr>co_lease := L, co_role := x\<rparr>" by blast
  obtain y where "commitStaleRole c1 = c1\<lparr>co_role := y\<rparr>"
    using transition_role_frame [of coordinatorRoleStale c1]
    by (cases "co_role c1 = coordinatorRoleActive") (auto simp: commitStaleRole_def intro: that [of "co_role c1"])
  then have stale: "commitStaleRole c1 = c\<lparr>co_lease := L, co_role := y\<rparr>" using c1 by simp
  have "c' = (if isl g then commitStaleRole c1 else c1)"
    using assms g by (auto simp: requireCoordinatorLease_def markCoordinatorStale_def split: sum.splits)
  then have "\<exists>L x. c' = c\<lparr>co_lease := L, co_role := x\<rparr>" using stale c1 by metis
  then show ?thesis using that by blast
qed

lemma mem_require_store:
  assumes "requireCoordinatorLease mem_control_ops t (c, s) = (r, c', s')"
  obtains L where "s' = s\<lparr>mc_lease := L\<rparr>"
proof -
  have "\<exists>L. s' = s\<lparr>mc_lease := L\<rparr>"
    using assms
    by (auto simp: requireCoordinatorLease_def renewCoordinatorLease_def RenewLease_def Let_def
        split: prod.splits sum.splits if_splits intro: exI [of _ "mc_lease s"])
  then show ?thesis using that by blast
qed

lemma lease_update_reads [simp]:
  "cycle_state (s\<lparr>mc_lease := L\<rparr>) = cycle_state s" "GetShardConfig (s\<lparr>mc_lease := L\<rparr>) = GetShardConfig s"
  "store_CurrentEpoch (s\<lparr>mc_lease := L\<rparr>) = store_CurrentEpoch s"
  "activeShardConfig mem_control_ops (s\<lparr>mc_lease := L\<rparr>) = activeShardConfig mem_control_ops s"
  "GetLatestScalingRecommendation (s\<lparr>mc_lease := L\<rparr>) = GetLatestScalingRecommendation s"
  "Accepting e (s\<lparr>mc_lease := L\<rparr>) = Accepting e s"
  by (simp_all add: cycle_state_def GetShardConfig_def store_CurrentEpoch_def activeShardConfig_def
      GetLatestScalingRecommendation_def Accepting_def)

lemma mem_epochCycleState:
  "validEpochCycleState (cycle_state s) \<Longrightarrow> epochCycleState mem_control_ops s = cycle_state s"
  by (auto simp: epochCycleState_def GetEpochCycle_def cycle_state_def validEpochCycleState_def cycle_states)

section \<open>A successful start\<close>

definition coord_epoch_ok :: "Coordinator \<Rightarrow> bool" where
  "coord_epoch_ok c \<longleftrightarrow> ep_State (co_epoch c) \<in> {EpochStateNoActive, EpochStateActive, EpochStateCompleted}"

lemma start_shards_ok:
  "start_shards R cl d e u shards ex started w = (Inr r, started', w') \<Longrightarrow>
     started' = started @ map sc_ID shards \<and> (ex \<noteq> None \<or> shards \<noteq> [] \<longrightarrow> r \<noteq> None) \<and> (ex \<noteq> None \<longrightarrow> r = ex)"
proof (induction shards arbitrary: ex started w)
  case (Cons shard shards)
  then obtain addr rep w1 where a: "cl (sc_ID shard) = Some addr" "rpc_StartEpoch R addr d e u w = (Inr rep, w1)"
    by (auto split: option.splits prod.splits sum.splits)
  show ?case
  proof (cases ex)
    case None
    then have "start_shards R cl d e u shards (Some rep) (started @ [sc_ID shard]) w1 = (Inr r, started', w')"
      using Cons.prems a by simp
    from Cons.IH [OF this] show ?thesis using None by simp
  next
    case (Some x)
    then have "start_shards R cl d e u shards ex (started @ [sc_ID shard]) w1 = (Inr r, started', w')"
      using Cons.prems a by (simp split: if_splits)
    from Cons.IH [OF this] show ?thesis using Some by simp
  qed
qed auto

lemma coord_StartEpoch_ok:
  assumes run: "coord_StartEpoch S R clk d e u (c, s, w) = (Inr reply, c', s', w')"
  obtains v c1 s1 nid t config ex started w1
  where "0 < d" "requireCoordinatorLease S (clk 0) (c, s) = (Inr v, c1, s1)"
    "requireEpochCycleAllowsStart S s1 = Inr ()"
    "startEpochDecision (clk 1) e u (case ct_CurrentEpoch S s1 of None \<Rightarrow> 0 | Some ep \<Rightarrow> ep_ID ep) c1 = Inr (nid, t)"
    "activeShardConfig S s1 = Inr config"
    "start_shards R (co_clients c1) d nid (Unix t) (Shards config) None [] w = (Inr ex, started, w1)"
    "record_started_epoch S R clk config nid (case ex of None \<Rightarrow> zero_start_reply | Some x \<Rightarrow> x) started (c1, s1, w1)
       = (Inr reply, c', s', w')"
proof -
  have d: "0 < d" using run by (auto simp: coord_StartEpoch_def split: if_splits)
  obtain r c1 s1 where l: "requireCoordinatorLease S (clk 0) (c, s) = (r, c1, s1)" by (rule prod_cases3)
  with run d obtain v where v: "r = Inr v" by (cases r) (simp_all add: coord_StartEpoch_def)
  with run d l have g: "requireEpochCycleAllowsStart S s1 = Inr ()"
    by (cases "requireEpochCycleAllowsStart S s1") (simp_all add: coord_StartEpoch_def)
  let ?dec = "startEpochDecision (clk 1) e u (case ct_CurrentEpoch S s1 of None \<Rightarrow> 0 | Some ep \<Rightarrow> ep_ID ep) c1"
  from run d l v g obtain nid t where dec: "?dec = Inr (nid, t)"
    by (cases ?dec) (auto simp: coord_StartEpoch_def Let_def)
  with run d l v g obtain config where cfg: "activeShardConfig S s1 = Inr config"
    by (cases "activeShardConfig S s1") (simp_all add: coord_StartEpoch_def Let_def)
  obtain q started w1 where st: "start_shards R (co_clients c1) d nid (Unix t) (Shards config) None [] w = (q, started, w1)"
    by (rule prod_cases3)
  with run d l v g dec cfg obtain ex where ex: "q = Inr ex"
    by (cases q) (simp_all add: coord_StartEpoch_def Let_def)
  show ?thesis
    by (rule that [OF d _ g dec cfg]) (use run d l v g dec cfg st ex in \<open>simp_all add: coord_StartEpoch_def Let_def\<close>)
qed

lemma record_started_ok:
  assumes run: "record_started_epoch S R clk config nid ex started (c, s, w) = (Inr reply, c', s', w')"
  obtains v v1 v2 v3 c1 s1 s2 s3
  where "reply = ex" "w' = w" "requireCoordinatorLease S (clk 2) (c, s) = (Inr v, c1, s1)"
    "ct_PutEpochShardConfig S (se_EpochID ex) (epochShardConfigRecord config (se_EpochID ex)) s1 = (Inr v1, s2)"
    "ct_StartEpoch S (started_epoch ex) (cfg_Version config) s2 = (Inr v2, s3)"
    "transitionEpochCycleStarted S (clk 3) (se_EpochID ex) (cfg_Version config) s3 = (Inr v3, s')"
    "c' = commitStartedEpoch (clk 4) (started_epoch ex) (ShardCount config) c1"
proof -
  have [simp]: "ep_ID (started_epoch ex) = se_EpochID ex" by (simp add: started_epoch_def)
  obtain r c1 s1 where l: "requireCoordinatorLease S (clk 2) (c, s) = (r, c1, s1)" by (rule prod_cases3)
  with run obtain v where v: "r = Inr v" by (cases r) (simp_all add: record_started_epoch_def Let_def)
  obtain r1 s2 where p: "ct_PutEpochShardConfig S (se_EpochID ex) (epochShardConfigRecord config (se_EpochID ex)) s1 = (r1, s2)"
    by (rule prod.exhaust)
  with run l v obtain v1 where v1: "r1 = Inr v1" by (cases r1) (simp_all add: record_started_epoch_def Let_def)
  obtain r2 s3 where q: "ct_StartEpoch S (started_epoch ex) (cfg_Version config) s2 = (r2, s3)" by (rule prod.exhaust)
  with run l v p v1 obtain v2 where v2: "r2 = Inr v2" by (cases r2) (simp_all add: record_started_epoch_def Let_def)
  obtain r3 s4 where t: "transitionEpochCycleStarted S (clk 3) (se_EpochID ex) (cfg_Version config) s3 = (r3, s4)"
    by (rule prod.exhaust)
  with run l v p v1 q v2 obtain v3 where v3: "r3 = Inr v3" by (cases r3) (simp_all add: record_started_epoch_def Let_def)
  show ?thesis
    by (rule that [OF _ _ _ _ _ _]) (use run l v p v1 q v2 t v3 in \<open>auto simp: record_started_epoch_def Let_def\<close>)
qed

lemma mem_transition_started:
  assumes "transitionEpochCycleStarted mem_control_ops t i v s = (Inr x, s')"
  shows "cycle_state s' = EpochCycleStateActive" "\<exists>r. s' = s\<lparr>mc_epochCycle := r, hasEpochCycle := True\<rparr>"
  using assms
  by (auto simp: transitionEpochCycleStarted_def putEpochCycleTransition_def PutEpochCycleTransition_def
      prepareEpochCycleRecord_def validateEpochCycleTransition_def cycle_state_def Let_def
      split: if_splits sum.splits)

lemma commitStartedEpoch_ok:
  assumes "coord_epoch_ok c" "ep_State (co_epoch c) \<noteq> EpochStateActive" "ep_State ep = EpochStateActive"
  shows "commitStartedEpoch now ep n c = c\<lparr>co_epoch := ep,
     activeScalingMetrics := \<lparr>mt_EpochID = ep_ID ep, mt_CurrentShardCount = n, mt_AcceptedRequestCount = 0,
       mt_DurationSeconds = ep_DurationSeconds ep\<rparr>, hasActiveScalingMetrics := True,
     co_epochTimer := Some (ep_EndTime ep - now)\<rparr>"
  using assms by (auto simp: commitStartedEpoch_def transitionCoordinatorEpoch_def validCoordinatorEpochTransition_def
      coord_epoch_ok_def Let_def)

lemma activeShardConfig_ok:
  "activeShardConfig mem_control_ops s = Inr config \<Longrightarrow> GetShardConfig s = Some config \<and> Shards config \<noteq> []"
  by (auto simp: activeShardConfig_def validate_record_iff split: option.splits sum.splits)

lemma start_recorded:
  assumes put: "PutEpochShardConfig (se_EpochID ex) (epochShardConfigRecord config (se_EpochID ex)) s1 = (Inr v1, s2)"
    and start: "store_StartEpoch (started_epoch ex) v s2 = (Inr v2, s3)"
    and cyc: "s' = s3\<lparr>mc_epochCycle := r, hasEpochCycle := True\<rparr>"
  shows "store_CurrentEpoch s' = Some (started_epoch ex)" "Accepting (se_EpochID ex) s' = Inr True"
    "GetEpochShardConfig (se_EpochID ex) s' = Some (config\<lparr>cfg_Key := epochShardConfigKey (se_EpochID ex)\<rparr>)"
proof -
  have "mc_epochShardConfig s2 (se_EpochID ex) = Some (config\<lparr>cfg_Key := epochShardConfigKey (se_EpochID ex)\<rparr>)"
    using PutEpochShardConfig_ok(3) put by (simp add: epochShardConfigRecord_def)
  then show "GetEpochShardConfig (se_EpochID ex) s' = Some (config\<lparr>cfg_Key := epochShardConfigKey (se_EpochID ex)\<rparr>)"
    using start cyc by (auto simp: store_StartEpoch_def GetEpochShardConfig_def Let_def split: if_splits)
  show "store_CurrentEpoch s' = Some (started_epoch ex)" "Accepting (se_EpochID ex) s' = Inr True"
    using start cyc by (auto simp: store_StartEpoch_def store_CurrentEpoch_def Accepting_def started_epoch_def Let_def
        split: if_splits)
qed

text \<open>Every shard of a list, in turn, has a client and answers \<open>reply\<close>; the shards go from \<open>w\<close> to \<open>w'\<close>.\<close>

fun all_started ::
  "'w shard_ops \<Rightarrow> (int \<rightharpoonup> string) \<Rightarrow> int \<Rightarrow> int \<Rightarrow> int \<Rightarrow> ShardConfig list \<Rightarrow> StartEpochReply \<Rightarrow> 'w \<Rightarrow> 'w \<Rightarrow> bool" where
  "all_started R cl d e u [] reply w w' \<longleftrightarrow> w' = w"
| "all_started R cl d e u (shard # rest) reply w w' \<longleftrightarrow>
     (case cl (sc_ID shard) of
        None \<Rightarrow> False
      | Some addr \<Rightarrow> let (res, w1) = rpc_StartEpoch R addr d e u w
                     in res = Inr reply \<and> all_started R cl d e u rest reply w1 w')"

lemma sameEpochReply_iff: "sameEpochReply a b \<longleftrightarrow> a = b"
  by (cases a; cases b) (auto simp: sameEpochReply_def)

lemma start_shards_agree:
  "start_shards R cl d e u shards ex started w = (Inr (Some reply), started', w') \<Longrightarrow>
     all_started R cl d e u shards reply w w' \<and> (ex \<noteq> None \<longrightarrow> ex = Some reply)"
proof (induction shards arbitrary: ex started w)
  case (Cons shard shards)
  then obtain addr rep w1 where a: "cl (sc_ID shard) = Some addr" "rpc_StartEpoch R addr d e u w = (Inr rep, w1)"
    by (auto split: option.splits prod.splits sum.splits)
  have "ex = None \<or> ex = Some rep" using Cons.prems a by (auto simp: sameEpochReply_iff split: option.splits if_splits)
  then have "start_shards R cl d e u shards (Some rep) (started @ [sc_ID shard]) w1 = (Inr (Some reply), started', w')"
    using Cons.prems a by (auto simp: sameEpochReply_iff)
  from Cons.IH [OF this] show ?case using a \<open>ex = None \<or> ex = Some rep\<close> by auto
qed auto

section \<open>Properties\<close>

text \<open>C21: A start that succeeds is complete. When \<^verbatim>\<open>StartEpoch\<close> of a coordinator over the in-memory store
  returns a reply, the epoch cycle allowed it; every shard of the stored configuration, in order,
  was started with the same epoch and answered exactly that reply; the store now holds that epoch,
  active and accepting, with a snapshot of the shard configuration under its number, and its cycle is
  active; and the coordinator has the epoch, a timer until its end and a request count of zero.\<close>

theorem start_epoch_success:
  assumes "coord_epoch_ok c" "validEpochCycleState (cycle_state s)"
    and run: "coord_StartEpoch mem_control_ops R clk d e u (c, s, w) = (Inr reply, c', s', w')"
  shows "\<exists>config nid t. GetShardConfig s = Some config \<and> Shards config \<noteq> [] \<and>
     cycle_state s \<in> decided \<union> {EpochCycleStateIdle} \<and>
     all_started R (co_clients c) d nid (Unix t) (Shards config) reply w w' \<and>
     store_CurrentEpoch s' = Some (started_epoch reply) \<and> Accepting (se_EpochID reply) s' = Inr True \<and>
     GetEpochShardConfig (se_EpochID reply) s' = Some (config\<lparr>cfg_Key := epochShardConfigKey (se_EpochID reply)\<rparr>) \<and>
     cycle_state s' = EpochCycleStateActive \<and> co_epoch c' = started_epoch reply \<and>
     co_epochTimer c' = Some (ep_EndTime (started_epoch reply) - clk 4) \<and> hasActiveScalingMetrics c' \<and>
     mt_EpochID (activeScalingMetrics c') = se_EpochID reply \<and> mt_AcceptedRequestCount (activeScalingMetrics c') = 0"
  using run
proof (rule coord_StartEpoch_ok, goal_cases)
  case (1 v c1 s1 nid t config ex started w1)
  note lease = 1(2) and gate = 1(3) and dec = 1(4) and cfg = 1(5) and st = 1(6)
  obtain L x where c1: "c1 = c\<lparr>co_lease := L, co_role := x\<rparr>" using lease by (rule require_frame)
  obtain L' where s1: "s1 = s\<lparr>mc_lease := L'\<rparr>" using lease by (rule mem_require_store)
  have config: "GetShardConfig s = Some config" "Shards config \<noteq> []"
    using activeShardConfig_ok [OF cfg] s1 by simp_all
  obtain rep where rep: "ex = Some rep" using start_shards_ok [OF st] config(2) by auto
  have allowed: "cycle_state s \<in> decided \<union> {EpochCycleStateIdle}"
    using gate mem_epochCycleState [OF assms(2)] assms(2)
    by (auto simp: s1 requireEpochCycleAllowsStart_def mem_epochCycleState decided_def Let_def split: if_splits)
  from 1(7) [unfolded rep option.case] show ?case
  proof (rule record_started_ok, goal_cases)
    case (1 v' v1 v2 v3 c2 s2 s3 s4)
    note eq = 1(1,2) and cyc = 1(6)
    obtain L2 x2 where c2: "c2 = c1\<lparr>co_lease := L2, co_role := x2\<rparr>" using 1(3) by (rule require_frame)
    have idle: "ep_State (co_epoch c2) \<noteq> EpochStateActive" "coord_epoch_ok c2"
      using dec assms(1) by (auto simp: c1 c2 coord_epoch_ok_def startEpochDecision_def split: if_splits)
    obtain r where s': "s' = s4\<lparr>mc_epochCycle := r, hasEpochCycle := True\<rparr>"
      using mem_transition_started(2) [OF cyc] by blast
    note stored = start_recorded [OF _ _ s', of reply config s2 v1 s3 "cfg_Version config" v2]
    have "all_started R (co_clients c) d nid (Unix t) (Shards config) reply w w'"
      using start_shards_agree [of R "co_clients c1" d nid "Unix t" "Shards config" None "[]" w reply started w1] st rep eq
      by (simp add: c1)
    then show ?case
      using config allowed stored 1(4,5,7) eq mem_transition_started(1) [OF cyc]
        commitStartedEpoch_ok [OF idle(2,1), of "started_epoch reply"]
      by (auto simp: started_epoch_def)
  qed
qed

text \<open>Shards that accept every call and count the calls, and a store from which an epoch may start.\<close>

definition echo_shards :: "nat shard_ops" where
  "echo_shards = \<lparr>rpc_Upload1 = (\<lambda>a args w. (Inr \<lparr>r1_Uuid = AssignedUUID args, r1_HashKey = AssignedHashKey args\<rparr>, Suc w)),
     rpc_Upload2 = (\<lambda>a args w. (Inr \<lparr>Challenge = a2_HashKey args\<rparr>, Suc w)),
     rpc_Upload3 = (\<lambda>a args w. (Inr (), Suc w)),
     rpc_StartEpoch = (\<lambda>a d e u w. (Inr \<lparr>se_EpochID = e, se_State = ''active'', se_StartUnix = u, se_EndUnix = u + d,
        se_DurationSecs = d\<rparr>, Suc w)),
     rpc_AbortEpoch = (\<lambda>a e w. (Inr (), Suc w)), rpc_Status = (\<lambda>a w. None),
     rpc_Dial = (\<lambda>a w. Inr ()), rpc_DialStandby = (\<lambda>a t w. Inr ()), rpc_CloseStandby = (\<lambda>a w. Inr ())\<rparr>"

definition ready_store :: MemoryControlStore where
  "ready_store = leased_store\<lparr>mc_shardConfig := sample_config, mc_hasShardConfig := True\<rparr>"

lemma sample_config_record: "validateShardConfigRecord sample_config = Inr ()"
  using sample_config_valid [of "cfg_Key sample_config"]
  by (simp add: validate_record_iff store_validate_iff) (simp add: sample_config_def shardConfigRecordFromShards_def sample_inventory_def)

lemma sample_config_shards [simp]: "Shards sample_config = sample_inventory" "cfg_Version sample_config = 1"
  by (simp_all add: sample_config_def shardConfigRecordFromShards_def)

lemmas coordinator_start = coord_StartEpoch_def requireCoordinatorLease_def renewCoordinatorLease_def RenewLease_def
  commitRenewedLease_def requireEpochCycleAllowsStart_def epochCycleState_def startEpochDecision_def activeShardConfig_def
  record_started_epoch_def transitionEpochCycleStarted_def putEpochCycleTransition_def

lemma sample_start:
  "\<exists>c' s' w'. coord_StartEpoch mem_control_ops echo_shards (\<lambda>_. 4) 60 0 1000 (sample_coordinator ''a'', ready_store, 0)
     = (Inr \<lparr>se_EpochID = 1, se_State = ''active'', se_StartUnix = 1000, se_EndUnix = 1060, se_DurationSecs = 60\<rparr>, c', s', w')"
  using sample_config_valid [of "epochShardConfigKey 1"] sample_config_record
  by (simp add: coordinator_start ready_store_def leased_store_def AcquireLease_def NewMemoryControlStore_def Before_def
      GetEpochCycle_def GetShardConfig_def store_CurrentEpoch_def PutEpochShardConfig_def epochShardConfigRecord_def
      store_StartEpoch_def PutEpochCycleTransition_def prepareEpochCycleRecord_def validateEpochCycleTransition_def
      validEpochCycleTransition_def validEpochCycleState_def normalizeEpochCycleState_def cycle_states Let_def
      sample_coordinator_def no_epoch_def started_epoch_def echo_shards_def wrap64_def Unix_def time_Unix_def
      known_role_def sample_inventory_def sameEpochReply_def)

theorem start_epoch_success_witness:
  "\<exists>c' s' w'. coord_StartEpoch mem_control_ops echo_shards (\<lambda>_. 4) 60 0 1000 (sample_coordinator ''a'', ready_store, 0)
     = (Inr \<lparr>se_EpochID = 1, se_State = ''active'', se_StartUnix = 1000, se_EndUnix = 1060, se_DurationSecs = 60\<rparr>, c', s', w')
     \<and> Accepting 1 s' = Inr True"
proof -
  have ok: "coord_epoch_ok (sample_coordinator ''a'')" "validEpochCycleState (cycle_state ready_store)"
    by (simp_all add: coord_epoch_ok_def sample_coordinator_def no_epoch_def ready_store_def leased_store_def AcquireLease_def
        NewMemoryControlStore_def cycle_state_def validEpochCycleState_def Let_def)
  from sample_start start_epoch_success [OF ok] show ?thesis by fastforce
qed

section \<open>The end of an epoch\<close>

lemma cycle_state_set [simp]: "cycle_state (s\<lparr>mc_epochCycle := r, hasEpochCycle := True\<rparr>) = cy_State r"
  by (simp add: cycle_state_def)

lemma mem_put_transition:
  assumes "normalizeEpochCycleState a = cycle_state s" "validEpochCycleTransition (cycle_state s) b"
  shows "\<exists>r. putEpochCycleTransition mem_control_ops t a b upd s = (Inr (), s\<lparr>mc_epochCycle := r, hasEpochCycle := True\<rparr>)
     \<and> cy_State r = b"
proof -
  let ?u = "if IsZero (cy_UpdatedAt upd) then upd\<lparr>cy_UpdatedAt := t\<rparr> else upd"
  obtain s' where s': "PutEpochCycleTransition t a b ?u s = (Inr (), s')" "cycle_state s' = b"
    using PutEpochCycleTransition_ok [OF assms] by blast
  obtain r where "s' = s\<lparr>mc_epochCycle := r, hasEpochCycle := True\<rparr>"
    using s'(1) unfolding PutEpochCycleTransition_def Let_def by (simp split: if_splits sum.splits) metis+
  then show ?thesis using s' by (auto simp: putEpochCycleTransition_def intro: exI [of _ r])
qed

lemma put_scaling_frame:
  assumes "PutScalingRecommendation t r s = (q, s')"
  shows "mc_epoch s' = mc_epoch s" "mc_hasEpoch s' = mc_hasEpoch s" "mc_accepting s' = mc_accepting s"
    "cycle_state s' = cycle_state s" "mc_shardConfig s' = mc_shardConfig s" "mc_hasShardConfig s' = mc_hasShardConfig s"
  using assms unfolding PutScalingRecommendation_def publish_scaling_def Let_def cycle_state_def
  by (auto split: sum.splits option.splits if_splits)

lemma put_scaling_stored:
  assumes "PutScalingRecommendation t r s = (Inr u, s')" "\<not> IsZero (sg_CreatedAt r)"
  shows "\<exists>x. scalingByEpoch s' (sg_EpochID r) = Some x \<and> x\<lparr>sg_Key := k\<rparr> = r\<lparr>sg_Key := k\<rparr>"
proof (cases "scalingByEpoch s (sg_EpochID r)")
  case None
  then show ?thesis using assms
    by (auto simp: PutScalingRecommendation_def publish_scaling_def stamp_scaling_def Let_def split: sum.splits if_splits)
next
  case (Some x)
  then have "scalingRecommendationRecordsEqual x (stamp_scaling t r)" "scalingByEpoch s' = scalingByEpoch s"
    using assms by (auto simp: PutScalingRecommendation_def publish_scaling_def stamp_scaling_def Let_def
        split: sum.splits if_splits)
  then have "x\<lparr>sg_Key := []\<rparr> = r\<lparr>sg_Key := []\<rparr>" "scalingByEpoch s' (sg_EpochID r) = Some x"
    using assms(2) Some by (simp_all add: scalingRecommendationRecordsEqual_def stamp_scaling_def Let_def)
  then show ?thesis by (cases x; cases r) auto
qed

lemma put_scaling_reads:
  "scalingByEpoch s = scalingByEpoch s' \<Longrightarrow> fst (PutScalingRecommendation t r s) = fst (PutScalingRecommendation t r s')"
  by (auto simp: PutScalingRecommendation_def Let_def split: sum.splits option.splits)

lemma cycle_table:
  "validEpochCycleTransition EpochCycleStateActive EpochCycleStateRecommendationReady"
  "validEpochCycleTransition EpochCycleStateActive EpochCycleStateFailed"
  "validEpochCycleTransition EpochCycleStateRecommendationReady EpochCycleStateScalingInProgress"
  "validEpochCycleTransition EpochCycleStateScalingInProgress EpochCycleStateScalingSkipped"
  "validEpochCycleTransition EpochCycleStateScalingInProgress EpochCycleStateScalingApplied"
  "validEpochCycleTransition EpochCycleStateScalingInProgress EpochCycleStateFailed"
  "normalizeEpochCycleState EpochCycleStateActive = EpochCycleStateActive"
  "normalizeEpochCycleState EpochCycleStateRecommendationReady = EpochCycleStateRecommendationReady"
  "normalizeEpochCycleState EpochCycleStateScalingInProgress = EpochCycleStateScalingInProgress"
  by (simp_all add: validEpochCycleTransition_def normalizeEpochCycleState_def cycle_states validEpochCycleState_def)

lemma mem_recommendation_ready:
  "cycle_state s = EpochCycleStateActive \<Longrightarrow>
     \<exists>r. transitionEpochCycleRecommendationReady mem_control_ops t e v s
           = (Inr (), s\<lparr>mc_epochCycle := r, hasEpochCycle := True\<rparr>) \<and> cy_State r = EpochCycleStateRecommendationReady"
  unfolding transitionEpochCycleRecommendationReady_def by (rule mem_put_transition) (simp_all add: cycle_table)

lemma mem_cycle_failed:
  "cycle_state s = from \<Longrightarrow> from \<in> {EpochCycleStateActive, EpochCycleStateScalingInProgress} \<Longrightarrow>
     \<exists>r. transitionEpochCycleFailed mem_control_ops t from e v reason s = s\<lparr>mc_epochCycle := r, hasEpochCycle := True\<rparr> \<and>
         cy_State r = EpochCycleStateFailed"
  using mem_put_transition [of "from" s EpochCycleStateFailed t]
  by (auto simp: transitionEpochCycleFailed_def cycle_table) (metis snd_conv)+

lemma mem_scaling_skipped:
  assumes "cycle_state s = EpochCycleStateRecommendationReady"
  shows "\<exists>r. transitionEpochCycleScalingSkipped mem_control_ops t e v reason s
     = (Inr (), s\<lparr>mc_epochCycle := r, hasEpochCycle := True\<rparr>) \<and> cy_State r = EpochCycleStateScalingSkipped"
proof -
  let ?u = "zero_cycle\<lparr>cy_EpochID := e, cy_ShardConfigVersion := v, cy_ScalingRecommendationEpochID := e\<rparr>"
  obtain r where r: "putEpochCycleTransition mem_control_ops t EpochCycleStateRecommendationReady EpochCycleStateScalingInProgress
      (?u\<lparr>cy_Reason := ''scaling skip started''\<rparr>) s = (Inr (), s\<lparr>mc_epochCycle := r, hasEpochCycle := True\<rparr>)"
    "cy_State r = EpochCycleStateScalingInProgress"
    using mem_put_transition [of EpochCycleStateRecommendationReady s EpochCycleStateScalingInProgress t
        "?u\<lparr>cy_Reason := ''scaling skip started''\<rparr>"] assms by (auto simp: cycle_table)
  have "\<exists>r'. putEpochCycleTransition mem_control_ops t EpochCycleStateScalingInProgress EpochCycleStateScalingSkipped upd
      (s\<lparr>mc_epochCycle := r, hasEpochCycle := True\<rparr>)
      = (Inr (), s\<lparr>mc_epochCycle := r', hasEpochCycle := True\<rparr>) \<and> cy_State r' = EpochCycleStateScalingSkipped" for upd
    using mem_put_transition [of EpochCycleStateScalingInProgress "s\<lparr>mc_epochCycle := r, hasEpochCycle := True\<rparr>"
        EpochCycleStateScalingSkipped t upd] r(2) by (simp add: cycle_table)
  then show ?thesis using r(1) by (simp add: transitionEpochCycleScalingSkipped_def Let_def)
qed

lemma persist_outcome:
  assumes "cycle_state s = EpochCycleStateActive"
    and put: "PutScalingRecommendation (clk 2) (scalingRecommendationRecord m rec v (clk 1)) s = (q, s1)"
  shows "\<exists>r. persist_recommendation mem_control_ops clk m rec e v s = s1\<lparr>mc_epochCycle := r, hasEpochCycle := True\<rparr> \<and>
     cy_State r = (if isl q then EpochCycleStateFailed else if rec_Action rec = scalingActionKeep
                   then EpochCycleStateScalingSkipped else EpochCycleStateRecommendationReady)"
proof -
  have a: "cycle_state s1 = EpochCycleStateActive" using put_scaling_frame [OF put] assms(1) by simp
  show ?thesis
  proof (cases q)
    case (Inl err)
    then show ?thesis using mem_cycle_failed [OF a, of "clk 3" e v "error_text err"] put
      by (simp add: persist_recommendation_def)
  next
    case (Inr u)
    obtain r where r: "transitionEpochCycleRecommendationReady mem_control_ops (clk 3) e v s1
        = (Inr (), s1\<lparr>mc_epochCycle := r, hasEpochCycle := True\<rparr>)" "cy_State r = EpochCycleStateRecommendationReady"
      using mem_recommendation_ready [OF a] by blast
    then show ?thesis
      using Inr put mem_scaling_skipped [of "s1\<lparr>mc_epochCycle := r, hasEpochCycle := True\<rparr>" "clk 4" e v
          "''scaling recommendation keep; no topology change''"]
      by (auto simp: persist_recommendation_def intro: exI [of _ r])
  qed
qed

definition epoch_recommendation :: "Coordinator \<Rightarrow> ScalingRecommendation" where
  "epoch_recommendation c = ComputeNextDatasetScale (activeScalingMetrics c) (scalingConfig c)"

lemma completeEpoch_unfold:
  assumes "ep_State (co_epoch c) = EpochStateActive" "ep_ID (co_epoch c) \<noteq> 0" "hasActiveScalingMetrics c"
    "mt_EpochID (activeScalingMetrics c) = ep_ID (co_epoch c)" "store_CurrentEpoch s = Some ep" "ep_ID ep = ep_ID (co_epoch c)"
    and lease: "requireCoordinatorLease mem_control_ops (clk 0) (c, s) = (Inr v, c1, s1)"
  shows "completeEpoch mem_control_ops clk (c, s) =
    (c1\<lparr>co_epoch := (co_epoch c)\<lparr>ep_State := EpochStateCompleted\<rparr>, co_epochTimer := None,
        lastScalingMetrics := activeScalingMetrics c, lastScalingRecommendation := epoch_recommendation c,
        hasLastScalingMetrics := True, hasActiveScalingMetrics := False\<rparr>,
     persist_recommendation mem_control_ops clk (activeScalingMetrics c) (epoch_recommendation c) (ep_ID (co_epoch c))
       (currentShardConfigVersion mem_control_ops s)
       (s1\<lparr>mc_epoch := ep\<lparr>ep_State := EpochStateCompleted\<rparr>, mc_accepting := False\<rparr>))"
proof -
  obtain L x where c1: "c1 = c\<lparr>co_lease := L, co_role := x\<rparr>" using lease by (rule require_frame)
  obtain M where s1: "s1 = s\<lparr>mc_lease := M\<rparr>" using lease by (rule mem_require_store)
  have completed: "store_CompleteEpoch (ep_ID (co_epoch c)) s1
      = (Inr (ep\<lparr>ep_State := EpochStateCompleted\<rparr>), s1\<lparr>mc_epoch := ep\<lparr>ep_State := EpochStateCompleted\<rparr>, mc_accepting := False\<rparr>)"
    using assms(5,6) by (auto simp: s1 store_CompleteEpoch_def store_CurrentEpoch_def Let_def split: if_splits)
  have "currentShardConfigVersion mem_control_ops (s1\<lparr>mc_epoch := y, mc_accepting := False\<rparr>)
      = currentShardConfigVersion mem_control_ops s" for y
    by (simp add: s1 currentShardConfigVersion_def GetShardConfig_def)
  then show ?thesis
    using assms completed
    by (simp add: completeEpoch_def c1 commitCompletedEpoch_def transitionCoordinatorEpoch_def Let_def
        validCoordinatorEpochTransition_def epoch_recommendation_def)
qed

text \<open>C22: What the end of an epoch leaves. When the timer fires on the coordinator that started the epoch,
  the store has that epoch with its cycle active, and the lease check succeeds, then the epoch is
  completed on the coordinator and in the store, which accepts no uploads for it any more; the
  recommendation is the policy's for the requests counted in the epoch; if the store takes its record
  it can be read under the epoch's number and the cycle waits for a decision (\<^verbatim>\<open>recommendation_ready\<close>), or
  goes on at once (\<^verbatim>\<open>scaling_skipped\<close>) if nothing is to change; if not, the cycle is \<^verbatim>\<open>failed\<close>.\<close>

theorem complete_epoch_outcome:
  assumes "ep_State (co_epoch c) = EpochStateActive" "ep_ID (co_epoch c) \<noteq> 0" "hasActiveScalingMetrics c"
    "mt_EpochID (activeScalingMetrics c) = ep_ID (co_epoch c)" "store_CurrentEpoch s = Some ep" "ep_ID ep = ep_ID (co_epoch c)"
    and "cycle_state s = EpochCycleStateActive" "\<not> IsZero (clk 1)"
    and "requireCoordinatorLease mem_control_ops (clk 0) (c, s) = (Inr v, c1, s1)"
    and "completeEpoch mem_control_ops clk (c, s) = (c', s')"
  shows "let r = epoch_recommendation c;
             rcd = scalingRecommendationRecord (activeScalingMetrics c) r (currentShardConfigVersion mem_control_ops s) (clk 1);
             refused = isl (fst (PutScalingRecommendation (clk 2) rcd s))
    in co_epoch c' = (co_epoch c)\<lparr>ep_State := EpochStateCompleted\<rparr> \<and> co_epochTimer c' = None \<and>
       lastScalingRecommendation c' = r \<and>
       store_CurrentEpoch s' = Some (ep\<lparr>ep_State := EpochStateCompleted\<rparr>) \<and> Accepting (ep_ID (co_epoch c)) s' = Inr False \<and>
       cycle_state s' = (if refused then EpochCycleStateFailed else if rec_Action r = scalingActionKeep
                         then EpochCycleStateScalingSkipped else EpochCycleStateRecommendationReady) \<and>
       (\<not> refused \<longrightarrow> (\<exists>x. GetEpochScalingRecommendation (ep_ID (co_epoch c)) s' = Some x \<and>
          x\<lparr>sg_Key := []\<rparr> = rcd\<lparr>sg_Key := []\<rparr>))"
proof -
  obtain M where s1: "s1 = s\<lparr>mc_lease := M\<rparr>" using assms(9) by (rule mem_require_store)
  define rcd where "rcd = scalingRecommendationRecord (activeScalingMetrics c) (epoch_recommendation c)
     (currentShardConfigVersion mem_control_ops s) (clk 1)"
  let ?s = "s1\<lparr>mc_epoch := ep\<lparr>ep_State := EpochStateCompleted\<rparr>, mc_accepting := False\<rparr>"
  obtain q s2 where put: "PutScalingRecommendation (clk 2) rcd ?s = (q, s2)" by fastforce
  have q: "fst (PutScalingRecommendation (clk 2) rcd s) = q"
    using put put_scaling_reads [of s ?s "clk 2" rcd] by (simp add: s1)
  have "cycle_state ?s = EpochCycleStateActive" using assms(7) by (simp add: s1 cycle_state_def split: if_splits)
  from persist_outcome [OF this put [unfolded rcd_def]]
  obtain r where r: "persist_recommendation mem_control_ops clk (activeScalingMetrics c) (epoch_recommendation c)
      (ep_ID (co_epoch c)) (currentShardConfigVersion mem_control_ops s) ?s = s2\<lparr>mc_epochCycle := r, hasEpochCycle := True\<rparr>"
    "cy_State r = (if isl q then EpochCycleStateFailed else if rec_Action (epoch_recommendation c) = scalingActionKeep
       then EpochCycleStateScalingSkipped else EpochCycleStateRecommendationReady)" by blast
  have s': "s' = s2\<lparr>mc_epochCycle := r, hasEpochCycle := True\<rparr>" and
    c': "co_epoch c' = (co_epoch c)\<lparr>ep_State := EpochStateCompleted\<rparr>" "co_epochTimer c' = None"
      "lastScalingRecommendation c' = epoch_recommendation c"
    using completeEpoch_unfold [where clk = clk, OF assms(1-6,9)] assms(10) r(1) by auto
  have stored: "\<exists>x. GetEpochScalingRecommendation (ep_ID (co_epoch c)) s' = Some x \<and> x\<lparr>sg_Key := []\<rparr> = rcd\<lparr>sg_Key := []\<rparr>"
    if "\<not> isl q"
    using put_scaling_stored [of "clk 2" rcd ?s "projr q" s2 "[]"] put that assms(4,8)
    by (cases q) (auto simp: s' rcd_def scalingRecommendationRecord_def GetEpochScalingRecommendation_def)
  have "mc_hasEpoch s" using assms(5) by (auto simp: store_CurrentEpoch_def split: if_splits)
  then show ?thesis
    using put_scaling_frame [OF put] c' r(2) stored q assms(6)
    by (simp add: rcd_def Let_def s' s1 store_CurrentEpoch_def Accepting_def)
qed

text \<open>A coordinator in epoch 1 with 600 counted requests, and the store of that moment.\<close>

definition ending_coordinator :: Coordinator where
  "ending_coordinator = (sample_coordinator ''a'')\<lparr>
     co_epoch := \<lparr>ep_ID = 1, ep_State = EpochStateActive, ep_StartTime = 1, ep_EndTime = 3, ep_DurationSeconds = 2\<rparr>,
     co_epochTimer := Some 2, hasActiveScalingMetrics := True,
     activeScalingMetrics := \<lparr>mt_EpochID = 1, mt_CurrentShardCount = 2, mt_AcceptedRequestCount = 600, mt_DurationSeconds = 2\<rparr>\<rparr>"

definition ending_store :: MemoryControlStore where
  "ending_store = ready_store\<lparr>mc_epoch := co_epoch ending_coordinator, mc_hasEpoch := True, mc_accepting := True,
     mc_epochCycle := zero_cycle\<lparr>cy_State := EpochCycleStateActive, cy_EpochID := 1\<rparr>, hasEpochCycle := True\<rparr>"

lemmas ending_sample = ending_coordinator_def ending_store_def ready_store_def leased_store_def AcquireLease_def
  NewMemoryControlStore_def sample_coordinator_def

lemma ending_lease:
  "\<exists>c1 s1. requireCoordinatorLease mem_control_ops 4 (ending_coordinator, ending_store) = (Inr (), c1, s1)"
  by (simp add: requireCoordinatorLease_def renewCoordinatorLease_def RenewLease_def ending_sample Before_def Let_def)

theorem complete_epoch_outcome_witness:
  "let (c', s') = completeEpoch mem_control_ops (\<lambda>_. 4) (ending_coordinator, ending_store)
   in co_epoch c' = (co_epoch ending_coordinator)\<lparr>ep_State := EpochStateCompleted\<rparr> \<and> Accepting 1 s' = Inr False \<and>
      cycle_state s' \<noteq> EpochCycleStateActive"
proof -
  obtain c1 s1 where l: "requireCoordinatorLease mem_control_ops 4 (ending_coordinator, ending_store) = (Inr (), c1, s1)"
    using ending_lease by blast
  obtain c' s' where r: "completeEpoch mem_control_ops (\<lambda>_. 4) (ending_coordinator, ending_store) = (c', s')" by fastforce
  have "ep_State (co_epoch ending_coordinator) = EpochStateActive" "ep_ID (co_epoch ending_coordinator) = 1"
    "hasActiveScalingMetrics ending_coordinator" "mt_EpochID (activeScalingMetrics ending_coordinator) = 1"
    "store_CurrentEpoch ending_store = Some (co_epoch ending_coordinator)" "cycle_state ending_store = EpochCycleStateActive"
    "\<not> IsZero 4"
    by (simp_all add: ending_sample store_CurrentEpoch_def cycle_state_def IsZero_def zero_time_def Let_def)
  with complete_epoch_outcome [where clk = "\<lambda>_. 4", OF _ _ _ _ _ _ _ _ l r]
  show ?thesis by (simp add: r Let_def cycle_states split: if_splits)
qed

end
