(* ===== verification/Coordinator_Scaling.thy ===== *)
theory Coordinator_Scaling
  imports Coordinator_Epoch
begin

text \<open>
  The operator's decisions on a scaling recommendation (\<^verbatim>\<open>src/coordinator/scaling_apply.go\<close>;
  \<^verbatim>\<open>connectShardConfig\<close>, \<^verbatim>\<open>ApplyScalingRecommendation\<close>, \<^verbatim>\<open>SkipScalingRecommendation\<close> of \<^verbatim>\<open>coordinator.go\<close>).

  \<open>args != nil\<close> holds for every remote call. Shown here: when an apply succeeds and what it leaves in the
  store and in the coordinator, and that a call that fails leaves the stored shard map as it was.
\<close>

section \<open>Evaluation\<close>

definition scalingApplyStatusMissing :: string where "scalingApplyStatusMissing = ''missing''"
definition scalingApplyStatusNotApplicable :: string where "scalingApplyStatusNotApplicable = ''not_applicable''"
definition scalingApplyStatusBlockedActiveEpoch :: string where
  "scalingApplyStatusBlockedActiveEpoch = ''blocked_active_epoch''"
definition scalingApplyStatusBlockedMissingShards :: string where
  "scalingApplyStatusBlockedMissingShards = ''blocked_missing_shards''"
definition scalingApplyStatusApplicable :: string where "scalingApplyStatusApplicable = ''applicable''"

record scalingApplyEvaluation =
  ev_status :: string
  ev_reason :: string
  ev_recommendation :: ScalingRecommendationRecord
  ev_current :: ShardConfigRecord
  ev_proposed :: ShardConfigRecord
  ev_applicable :: bool

definition evaluation :: "string \<Rightarrow> string \<Rightarrow> ShardConfigRecord \<Rightarrow> scalingApplyEvaluation" where
  "evaluation status reason current = \<lparr>ev_status = status, ev_reason = reason, ev_recommendation = zero_scaling,
     ev_current = current, ev_proposed = zero_config, ev_applicable = False\<rparr>"

definition epoch_open :: "'s control_ops \<Rightarrow> EpochMeta \<Rightarrow> 's \<Rightarrow> bool" where
  "epoch_open S ep s =
     (ep_State ep = EpochStateActive \<or> (case ct_Accepting S (ep_ID ep) s of Inl _ \<Rightarrow> False | Inr b \<Rightarrow> b))"

text \<open>The part of \<^verbatim>\<open>evaluateScalingApply\<close> after the latest recommendation was read.\<close>

definition evaluate_latest ::
  "ShardConfig list \<Rightarrow> ShardConfigRecord \<Rightarrow> ScalingRecommendationRecord \<Rightarrow> scalingApplyEvaluation res" where
  "evaluate_latest inventory current latest =
     (if sg_ShardConfigVersion latest \<noteq> cfg_Version current
      then Inr ((evaluation scalingApplyStatusNotApplicable
             (''latest recommendation targets shard config version '' @ show_int (sg_ShardConfigVersion latest)
              @ '', current version is '' @ show_int (cfg_Version current)) current)\<lparr>ev_recommendation := latest\<rparr>)
      else if sg_Action latest = scalingActionKeep
      then Inr ((evaluation scalingApplyStatusNotApplicable ''latest recommendation action is keep'' current)
             \<lparr>ev_recommendation := latest\<rparr>)
      else if sg_Action latest \<noteq> scalingActionGrow \<and> sg_Action latest \<noteq> scalingActionShrink
      then Inl (ErrorString (''unknown scaling recommendation action '' @ quoted (sg_Action latest)))
      else case buildShardConfigFromInventory inventory (sg_RecommendedShardCount latest) (wrap64 (cfg_Version current + 1)) of
        Inl err \<Rightarrow> Inr ((evaluation scalingApplyStatusBlockedMissingShards (error_text err) current)
             \<lparr>ev_recommendation := latest\<rparr>)
      | Inr proposed \<Rightarrow>
          if ShardCount proposed = ShardCount current
          then Inr ((evaluation scalingApplyStatusNotApplicable ''recommended shard count matches current shard count''
                 current)\<lparr>ev_recommendation := latest, ev_proposed := proposed\<rparr>)
          else Inr ((evaluation scalingApplyStatusApplicable ''latest recommendation can be applied'' current)
                 \<lparr>ev_recommendation := latest, ev_proposed := proposed, ev_applicable := True\<rparr>))"

definition evaluateScalingApply :: "'s control_ops \<Rightarrow> ShardConfig list \<Rightarrow> 's \<Rightarrow> scalingApplyEvaluation res" where
  "evaluateScalingApply S inventory s =
     (case ct_GetShardConfig S s of
        Inl err \<Rightarrow> Inl err
      | Inr None \<Rightarrow> Inr (evaluation scalingApplyStatusNotApplicable ''current shard config is missing'' zero_config)
      | Inr (Some current) \<Rightarrow>
      case validateShardConfigRecord current of
        Inl err \<Rightarrow> Inl err
      | Inr _ \<Rightarrow>
      if (case ct_CurrentEpoch S s of None \<Rightarrow> False | Some ep \<Rightarrow> epoch_open S ep s)
      then Inr (evaluation scalingApplyStatusBlockedActiveEpoch
             (''epoch '' @ show_int (ep_ID (the (ct_CurrentEpoch S s))) @ '' is active or accepting'') current)
      else case ct_GetLatestScalingRecommendation S s of
        Inl err \<Rightarrow> Inl err
      | Inr None \<Rightarrow> Inr (evaluation scalingApplyStatusMissing ''latest scaling recommendation is missing'' current)
      | Inr (Some latest) \<Rightarrow> evaluate_latest inventory current latest)"

definition requireScalingApplyApplicable :: "scalingApplyEvaluation \<Rightarrow> unit res" where
  "requireScalingApplyApplicable ev =
     (if ev_applicable ev then Inr ()
      else if ev_status ev = '''' then Inl (ErrorString ''scaling recommendation is not applicable'')
      else Inl (ErrorString (ev_status ev @ '': '' @ ev_reason ev)))"

section \<open>Applying and skipping\<close>

record ApplyScalingRecommendationReply =
  as_Applied :: bool
  as_RecommendationEpochID :: int
  as_PreviousVersion :: int
  as_NewVersion :: int
  as_PreviousShardCount :: int
  as_NewShardCount :: int
  as_PreviousGlobalTableHeight :: int
  as_NewGlobalTableHeight :: int
  as_Status :: string
  as_Reason :: string

record SkipScalingRecommendationReply =
  sk_Skipped :: bool
  sk_RecommendationEpochID :: int
  sk_ShardConfigVersion :: int
  sk_Action :: string
  sk_Reason :: string

definition populateApplyScalingRecommendationReply ::
  "scalingApplyEvaluation \<Rightarrow> bool \<Rightarrow> ApplyScalingRecommendationReply" where
  "populateApplyScalingRecommendationReply ev applied =
     \<lparr>as_Applied = applied, as_RecommendationEpochID = sg_EpochID (ev_recommendation ev),
      as_PreviousVersion = cfg_Version (ev_current ev), as_NewVersion = cfg_Version (ev_proposed ev),
      as_PreviousShardCount = ShardCount (ev_current ev), as_NewShardCount = ShardCount (ev_proposed ev),
      as_PreviousGlobalTableHeight = GlobalTableHeight (ev_current ev),
      as_NewGlobalTableHeight = GlobalTableHeight (ev_proposed ev), as_Status = ev_status ev, as_Reason = ev_reason ev\<rparr>"

text \<open>The clients dialled before a failing dial stay in the map.\<close>

fun connectShardConfig ::
  "'w shard_ops \<Rightarrow> 'w \<Rightarrow> ShardConfig list \<Rightarrow> (int \<rightharpoonup> string) \<Rightarrow> unit res \<times> (int \<rightharpoonup> string)" where
  "connectShardConfig R w [] clients = (Inr (), clients)"
| "connectShardConfig R w (shard # rest) clients =
     (case clients (sc_ID shard) of
        Some _ \<Rightarrow> connectShardConfig R w rest clients
      | None \<Rightarrow>
          (case rpc_Dial R (LeaderAddr (Active shard)) w of
             Inl err \<Rightarrow> (Inl (Wrapped (''connect shard '' @ show_int (sc_ID shard) @ '' leader ''
                          @ LeaderAddr (Active shard) @ '': '') err ''''), clients)
           | Inr _ \<Rightarrow> connectShardConfig R w rest (clients(sc_ID shard \<mapsto> LeaderAddr (Active shard)))))"

definition connectShards :: "'s control_ops \<Rightarrow> 'w shard_ops \<Rightarrow> 'w \<Rightarrow> Coordinator \<times> 's \<Rightarrow> unit res \<times> Coordinator" where
  "connectShards S R w = (\<lambda>(c, s).
     let (res, clients) = connectShardConfig R w (Shards (shardConfigForStatus S (availableShards c) s)) (co_clients c)
     in (res, c\<lparr>co_clients := clients\<rparr>))"

text \<open>The steps of \<^verbatim>\<open>ApplyScalingRecommendation\<close> once the cycle is in \<^verbatim>\<open>scaling_in_progress\<close>.\<close>

definition apply_proposed ::
  "'s control_ops \<Rightarrow> 'w shard_ops \<Rightarrow> (nat \<Rightarrow> gotime) \<Rightarrow> 'w \<Rightarrow> scalingApplyEvaluation \<Rightarrow> Coordinator \<times> 's
     \<Rightarrow> ApplyScalingRecommendationReply res \<times> Coordinator \<times> 's" where
  "apply_proposed S R clk w ev = (\<lambda>(c, s).
     let epochID = sg_EpochID (ev_recommendation ev);
         fail = (\<lambda>err c s. (Inl err, c, transitionEpochCycleFailed S (clk 2) EpochCycleStateScalingInProgress epochID
                    (cfg_Version (ev_current ev)) (error_text err) s));
         (connected, clients) = connectShardConfig R w (Shards (ev_proposed ev)) (co_clients c);
         c = c\<lparr>co_clients := clients\<rparr>
     in case connected of
       Inl err \<Rightarrow> fail err c s
     | Inr _ \<Rightarrow>
     case ct_PutShardConfig S (ev_proposed ev) s of
       (Inl err, s) \<Rightarrow> fail err c s
     | (Inr _, s) \<Rightarrow>
     case putEpochCycleTransition S (clk 2) EpochCycleStateScalingInProgress EpochCycleStateScalingApplied
            (zero_cycle\<lparr>cy_EpochID := epochID, cy_ShardConfigVersion := cfg_Version (ev_proposed ev),
               cy_ScalingRecommendationEpochID := epochID, cy_Reason := ''scaling recommendation applied''\<rparr>) s of
       (Inl err, s) \<Rightarrow> (Inl err, c, s)
     | (Inr _, s) \<Rightarrow> (Inr (populateApplyScalingRecommendationReply ev True), c, s))"

definition ApplyScalingRecommendation ::
  "'s control_ops \<Rightarrow> 'w shard_ops \<Rightarrow> (nat \<Rightarrow> gotime) \<Rightarrow> bool \<Rightarrow> 'w \<Rightarrow> Coordinator \<times> 's
     \<Rightarrow> ApplyScalingRecommendationReply res \<times> Coordinator \<times> 's" where
  "ApplyScalingRecommendation S R clk dryRun w = (\<lambda>(c, s).
     case requireCoordinatorLease S (clk 0) (c, s) of
       (Inl _, c, s) \<Rightarrow> (Inl (coordinatorWireError errCoordinatorNotActive), c, s)
     | (Inr _, c, s) \<Rightarrow>
     case evaluateScalingApply S (availableShards c) s of
       Inl err \<Rightarrow> (Inl err, c, s)
     | Inr ev \<Rightarrow>
     case requireScalingApplyApplicable ev of
       Inl err \<Rightarrow> (Inl err, c, s)
     | Inr _ \<Rightarrow>
     if dryRun then (Inr (populateApplyScalingRecommendationReply ev False), c, s)
     else let cycleState = epochCycleState S s; epochID = sg_EpochID (ev_recommendation ev) in
       if cycleState = EpochCycleStateRecommendationReady
       then (case putEpochCycleTransition S (clk 1) EpochCycleStateRecommendationReady EpochCycleStateScalingInProgress
                    (zero_cycle\<lparr>cy_EpochID := epochID, cy_ShardConfigVersion := cfg_Version (ev_current ev),
                       cy_ScalingRecommendationEpochID := epochID, cy_Reason := ''scaling apply started''\<rparr>) s of
               (Inl err, s) \<Rightarrow> (Inl err, c, s)
             | (Inr _, s) \<Rightarrow> apply_proposed S R clk w ev (c, s))
       else if cycleState \<noteq> EpochCycleStateScalingInProgress
       then (Inl (ErrorString (''epoch cycle state '' @ cycleState @ '' does not allow scaling apply'')), c, s)
       else apply_proposed S R clk w ev (c, s))"

definition SkipScalingRecommendation ::
  "'s control_ops \<Rightarrow> (nat \<Rightarrow> gotime) \<Rightarrow> Coordinator \<times> 's \<Rightarrow> SkipScalingRecommendationReply res \<times> Coordinator \<times> 's" where
  "SkipScalingRecommendation S clk = (\<lambda>(c, s).
     case requireCoordinatorLease S (clk 0) (c, s) of
       (Inl _, c, s) \<Rightarrow> (Inl (coordinatorWireError errCoordinatorNotActive), c, s)
     | (Inr _, c, s) \<Rightarrow>
     let cycleState = epochCycleState S s in
     if cycleState \<noteq> EpochCycleStateRecommendationReady
     then (Inl (ErrorString (''epoch cycle state '' @ cycleState @ '' does not allow scaling skip'')), c, s)
     else
       let blocked = (case ct_CurrentEpoch S s of
             None \<Rightarrow> Inr ()
           | Some ep \<Rightarrow>
               (case ct_Accepting S (ep_ID ep) s of
                  Inl err \<Rightarrow> Inl err
                | Inr acc \<Rightarrow>
                    if ep_State ep = EpochStateActive \<or> acc
                    then Inl (ErrorString ''cannot skip scaling recommendation while epoch is active'') else Inr ()))
       in case blocked of
         Inl err \<Rightarrow> (Inl err, c, s)
       | Inr _ \<Rightarrow>
       case ct_GetLatestScalingRecommendation S s of
         Inl err \<Rightarrow> (Inl err, c, s)
       | Inr None \<Rightarrow> (Inl (ErrorString ''missing scaling recommendation''), c, s)
       | Inr (Some recommendation) \<Rightarrow>
       let shardConfigVersion = currentShardConfigVersion S s;
           reason = ''operator skipped '' @ sg_Action recommendation @ '' recommendation''
       in case transitionEpochCycleScalingSkipped S (clk 1) (sg_EpochID recommendation) shardConfigVersion reason s of
         (Inl err, s) \<Rightarrow> (Inl err, c, s)
       | (Inr _, s) \<Rightarrow>
           (Inr \<lparr>sk_Skipped = True, sk_RecommendationEpochID = sg_EpochID recommendation,
                 sk_ShardConfigVersion = shardConfigVersion, sk_Action = sg_Action recommendation, sk_Reason = reason\<rparr>,
            c, s))"

section \<open>Facts about the steps\<close>

lemma connect_ok:
  "connectShardConfig R w shards cl = (Inr u, cl') \<Longrightarrow> (\<forall>shard \<in> set shards. cl' (sc_ID shard) \<noteq> None)"
  and connect_extends: "connectShardConfig R w shards cl = (q, cl') \<Longrightarrow> cl \<subseteq>\<^sub>m cl'"
proof -
  show ext: "connectShardConfig R w shards cl = (q, cl') \<Longrightarrow> cl \<subseteq>\<^sub>m cl'" for shards cl q cl'
  proof (induction shards arbitrary: cl)
    case (Cons a shards)
    have step: "cl \<subseteq>\<^sub>m cl(sc_ID a \<mapsto> x)" if "cl (sc_ID a) = None" for x using that by (auto simp: map_le_def)
    show ?case
      using Cons.prems Cons.IH [of cl] Cons.IH [of "cl(sc_ID a \<mapsto> LeaderAddr (Active a))"] map_le_trans [OF step]
      by (auto simp del: fun_upd_apply split: option.splits sum.splits)
  qed simp
  show "connectShardConfig R w shards cl = (Inr u, cl') \<Longrightarrow> (\<forall>shard \<in> set shards. cl' (sc_ID shard) \<noteq> None)"
  proof (induction shards arbitrary: cl)
    case (Cons a shards)
    have "\<exists>cl1. cl1 (sc_ID a) \<noteq> None \<and> connectShardConfig R w shards cl1 = (Inr u, cl')"
      using Cons.prems
      by (auto split: option.splits sum.splits intro: exI [of _ "cl(sc_ID a \<mapsto> LeaderAddr (Active a))"])
    then show ?case using Cons.IH ext by (auto simp: map_le_def) (metis domI)
  qed simp
qed

lemma evaluate_applicable:
  assumes "evaluateScalingApply mem_control_ops inventory s = Inr ev" "requireScalingApplyApplicable ev = Inr u"
  shows "GetShardConfig s = Some (ev_current ev)" "GetLatestScalingRecommendation s = Some (ev_recommendation ev)"
    "sg_ShardConfigVersion (ev_recommendation ev) = cfg_Version (ev_current ev)"
    "buildShardConfigFromInventory inventory (sg_RecommendedShardCount (ev_recommendation ev))
       (wrap64 (cfg_Version (ev_current ev) + 1)) = Inr (ev_proposed ev)"
    "ShardCount (ev_proposed ev) \<noteq> ShardCount (ev_current ev)"
    "\<forall>ep. store_CurrentEpoch s = Some ep \<longrightarrow> \<not> epoch_open mem_control_ops ep s"
proof -
  have "ev_applicable ev" using assms(2) by (auto simp: requireScalingApplyApplicable_def split: if_splits)
  with assms(1) show "GetShardConfig s = Some (ev_current ev)" "GetLatestScalingRecommendation s = Some (ev_recommendation ev)"
    "sg_ShardConfigVersion (ev_recommendation ev) = cfg_Version (ev_current ev)"
    "buildShardConfigFromInventory inventory (sg_RecommendedShardCount (ev_recommendation ev))
       (wrap64 (cfg_Version (ev_current ev) + 1)) = Inr (ev_proposed ev)"
    "ShardCount (ev_proposed ev) \<noteq> ShardCount (ev_current ev)"
    "\<forall>ep. store_CurrentEpoch s = Some ep \<longrightarrow> \<not> epoch_open mem_control_ops ep s"
    by (auto simp: evaluateScalingApply_def evaluate_latest_def evaluation_def split: option.splits sum.splits if_splits)
qed

lemma build_header:
  assumes "buildShardConfigFromInventory inventory n v = Inr new"
  shows "cfg_Version new = v" "ShardCount new = n" "0 < n" "n \<le> int (length inventory)"
  using assms by (auto simp: buildShardConfigFromInventory_def shardConfigRecordFromShards_def validateShardMap_iff Let_def
      split: if_splits sum.splits)

text \<open>What \<open>apply_proposed\<close> does from a store whose cycle is in progress.\<close>

lemma apply_proposed_cases:
  assumes "cycle_state s = EpochCycleStateScalingInProgress"
    and "apply_proposed mem_control_ops R clk w ev (c, s) = (q, c', s')"
  shows "(\<exists>err r. q = Inl err \<and> s' = s\<lparr>mc_epochCycle := r, hasEpochCycle := True\<rparr> \<and> cy_State r = EpochCycleStateFailed) \<or>
    (\<exists>r. q = Inr (populateApplyScalingRecommendationReply ev True) \<and>
       (\<forall>shard \<in> set (Shards (ev_proposed ev)). co_clients c' (sc_ID shard) \<noteq> None) \<and>
       s' = s\<lparr>mc_shardConfig := ev_proposed ev, mc_hasShardConfig := True, mc_epochCycle := r, hasEpochCycle := True\<rparr> \<and>
       cy_State r = EpochCycleStateScalingApplied)"
    and "\<exists>cl. c' = c\<lparr>co_clients := cl\<rparr> \<and> co_clients c \<subseteq>\<^sub>m cl"
proof -
  obtain con cl where con: "connectShardConfig R w (Shards (ev_proposed ev)) (co_clients c) = (con, cl)" by fastforce
  let ?P = "PutShardConfig (ev_proposed ev) s"
  let ?fail = "\<lambda>err. transitionEpochCycleFailed mem_control_ops (clk 2) EpochCycleStateScalingInProgress
    (sg_EpochID (ev_recommendation ev)) (cfg_Version (ev_current ev)) (error_text err) s"
  have fail: "\<exists>r. ?fail err = s\<lparr>mc_epochCycle := r, hasEpochCycle := True\<rparr> \<and> cy_State r = EpochCycleStateFailed" for err
    using mem_cycle_failed [OF assms(1)] by simp
  have put: "snd ?P = (if isl (fst ?P) then s else s\<lparr>mc_shardConfig := ev_proposed ev, mc_hasShardConfig := True\<rparr>)"
    by (auto simp: PutShardConfig_def split: sum.splits)
  let ?s = "s\<lparr>mc_shardConfig := ev_proposed ev, mc_hasShardConfig := True\<rparr>"
  let ?upd = "zero_cycle\<lparr>cy_EpochID := sg_EpochID (ev_recommendation ev), cy_ShardConfigVersion := cfg_Version (ev_proposed ev),
    cy_ScalingRecommendationEpochID := sg_EpochID (ev_recommendation ev), cy_Reason := ''scaling recommendation applied''\<rparr>"
  have cyc: "cycle_state ?s = EpochCycleStateScalingInProgress" using assms(1) by (simp add: cycle_state_def split: if_splits)
  have tr: "\<exists>r. putEpochCycleTransition mem_control_ops (clk 2) EpochCycleStateScalingInProgress EpochCycleStateScalingApplied upd ?s
      = (Inr (), ?s\<lparr>mc_epochCycle := r, hasEpochCycle := True\<rparr>) \<and> cy_State r = EpochCycleStateScalingApplied" for upd
    using mem_put_transition [of EpochCycleStateScalingInProgress ?s EpochCycleStateScalingApplied "clk 2" upd] cyc
    by (simp add: cycle_table)
  have c': "c' = c\<lparr>co_clients := cl\<rparr>"
    using assms(2) con by (auto simp: apply_proposed_def Let_def split: sum.splits prod.splits)
  then show "\<exists>cl. c' = c\<lparr>co_clients := cl\<rparr> \<and> co_clients c \<subseteq>\<^sub>m cl" using connect_extends [OF con] by blast
  show "(\<exists>err r. q = Inl err \<and> s' = s\<lparr>mc_epochCycle := r, hasEpochCycle := True\<rparr> \<and> cy_State r = EpochCycleStateFailed) \<or>
    (\<exists>r. q = Inr (populateApplyScalingRecommendationReply ev True) \<and>
       (\<forall>shard \<in> set (Shards (ev_proposed ev)). co_clients c' (sc_ID shard) \<noteq> None) \<and>
       s' = s\<lparr>mc_shardConfig := ev_proposed ev, mc_hasShardConfig := True, mc_epochCycle := r, hasEpochCycle := True\<rparr> \<and>
       cy_State r = EpochCycleStateScalingApplied)"
  proof (cases "isl con \<or> isl (fst ?P)")
    case True
    then have "\<exists>err. q = Inl err \<and> s' = ?fail err"
      using assms(2) con put by (cases con; cases ?P; cases "fst ?P") (auto simp: apply_proposed_def Let_def)
    then show ?thesis using fail by blast
  next
    case False
    then obtain u1 u2 where ok: "con = Inr u1" "?P = (Inr u2, ?s)" using put by (cases con; cases ?P; cases "fst ?P") auto
    obtain r where r: "putEpochCycleTransition mem_control_ops (clk 2) EpochCycleStateScalingInProgress
        EpochCycleStateScalingApplied ?upd ?s = (Inr (), ?s\<lparr>mc_epochCycle := r, hasEpochCycle := True\<rparr>)"
      "cy_State r = EpochCycleStateScalingApplied" using tr by blast
    have "q = Inr (populateApplyScalingRecommendationReply ev True)" "s' = ?s\<lparr>mc_epochCycle := r, hasEpochCycle := True\<rparr>"
      using assms(2) con ok r(1) by (simp_all add: apply_proposed_def Let_def)
    then show ?thesis using r(2) c' connect_ok [OF con [unfolded ok]] by auto
  qed
qed

lemma apply_cases:
  assumes "validEpochCycleState (cycle_state s)"
    and run: "ApplyScalingRecommendation mem_control_ops R clk False w (c, s) = (q, c', s')"
  shows "(\<exists>err L. q = Inl err \<and> s' = s\<lparr>mc_lease := L\<rparr>) \<or>
    (\<exists>v c1 L ev cyc. requireCoordinatorLease mem_control_ops (clk 0) (c, s) = (Inr v, c1, s\<lparr>mc_lease := L\<rparr>) \<and>
       evaluateScalingApply mem_control_ops (availableShards c) (s\<lparr>mc_lease := L\<rparr>) = Inr ev \<and>
       requireScalingApplyApplicable ev = Inr () \<and>
       cycle_state s \<in> {EpochCycleStateRecommendationReady, EpochCycleStateScalingInProgress} \<and>
       cycle_state (s\<lparr>mc_lease := L, mc_epochCycle := cyc, hasEpochCycle := True\<rparr>) = EpochCycleStateScalingInProgress \<and>
       apply_proposed mem_control_ops R clk w ev (c1, s\<lparr>mc_lease := L, mc_epochCycle := cyc, hasEpochCycle := True\<rparr>)
         = (q, c', s'))"
proof -
  obtain r c1 s1 where l: "requireCoordinatorLease mem_control_ops (clk 0) (c, s) = (r, c1, s1)" by (rule prod_cases3)
  obtain L where s1: "s1 = s\<lparr>mc_lease := L\<rparr>" using l by (rule mem_require_store)
  obtain L' x where c1: "c1 = c\<lparr>co_lease := L', co_role := x\<rparr>" using l by (rule require_frame)
  have av: "availableShards c1 = availableShards c" using c1 by simp
  have st: "epochCycleState mem_control_ops s1 = cycle_state s" using mem_epochCycleState [of s1] assms(1) by (simp add: s1)
  let ?refused = "\<exists>err L. q = Inl err \<and> s' = s\<lparr>mc_lease := L\<rparr>"
  consider (no) "isl r \<or> (\<exists>err. evaluateScalingApply mem_control_ops (availableShards c) s1 = Inl err)"
    | (ev) v ev where "r = Inr v" "evaluateScalingApply mem_control_ops (availableShards c) s1 = Inr ev"
    by (cases r; cases "evaluateScalingApply mem_control_ops (availableShards c) s1") auto
  then show ?thesis
  proof cases
    case no
    then have ?refused using run l av by (cases r) (auto simp: ApplyScalingRecommendation_def s1 Let_def)
    then show ?thesis ..
  next
    case (ev v ev)
    show ?thesis
    proof (cases "requireScalingApplyApplicable ev = Inr () \<and>
        cycle_state s \<in> {EpochCycleStateRecommendationReady, EpochCycleStateScalingInProgress}")
      case False
      then have ?refused
        using run l av st ev by (cases "requireScalingApplyApplicable ev") (auto simp: ApplyScalingRecommendation_def s1 Let_def)
      then show ?thesis ..
    next
      case True
      let ?upd = "zero_cycle\<lparr>cy_EpochID := sg_EpochID (ev_recommendation ev), cy_ShardConfigVersion := cfg_Version (ev_current ev),
        cy_ScalingRecommendationEpochID := sg_EpochID (ev_recommendation ev), cy_Reason := ''scaling apply started''\<rparr>"
      have "\<exists>cyc. cycle_state (s\<lparr>mc_lease := L, mc_epochCycle := cyc, hasEpochCycle := True\<rparr>) = EpochCycleStateScalingInProgress \<and>
         apply_proposed mem_control_ops R clk w ev (c1, s\<lparr>mc_lease := L, mc_epochCycle := cyc, hasEpochCycle := True\<rparr>) = (q, c', s')"
      proof (cases "cycle_state s = EpochCycleStateRecommendationReady")
        case ready: True
        then have "normalizeEpochCycleState EpochCycleStateRecommendationReady = cycle_state s1"
          "validEpochCycleTransition (cycle_state s1) EpochCycleStateScalingInProgress" by (simp_all add: s1 cycle_table)
        from mem_put_transition [OF this, of "clk 1" ?upd]
        obtain cyc where cyc: "putEpochCycleTransition mem_control_ops (clk 1) EpochCycleStateRecommendationReady
            EpochCycleStateScalingInProgress ?upd s1 = (Inr (), s1\<lparr>mc_epochCycle := cyc, hasEpochCycle := True\<rparr>)"
          "cy_State cyc = EpochCycleStateScalingInProgress" by blast
        then show ?thesis using run l av st ev True ready
          by (intro exI [of _ cyc]) (simp add: ApplyScalingRecommendation_def s1 Let_def)
      next
        case False
        then have "cycle_state s = EpochCycleStateScalingInProgress" "hasEpochCycle s"
          using True by (auto simp: cycle_state_def cycle_states split: if_splits)
        moreover from this have same: "s\<lparr>mc_lease := L, hasEpochCycle := True\<rparr> = s\<lparr>mc_lease := L\<rparr>"
          by (cases s) simp
        ultimately show ?thesis using run l av st ev True False
          by (intro exI [of _ "mc_epochCycle s"]) (simp add: ApplyScalingRecommendation_def s1 Let_def same)
      qed
      then show ?thesis using l ev True by (auto simp: s1)
    qed
  qed
qed

section \<open>Properties\<close>


definition shrink_store :: MemoryControlStore where
  "shrink_store = ready_store\<lparr>latestScaling := (sample_scaling 1)\<lparr>sg_Action := scalingActionShrink, sg_RecommendedShardCount := 1,
     sg_ShardConfigVersion := 1\<rparr>, hasLatestScaling := True,
     mc_epochCycle := zero_cycle\<lparr>cy_State := EpochCycleStateRecommendationReady\<rparr>, hasEpochCycle := True\<rparr>"

lemma shrink_build:
  "\<exists>new. buildShardConfigFromInventory (availableShards (sample_coordinator ''a'')) 1 2 = Inr new \<and> ShardCount new = 1 \<and>
     store_validateShardConfigRecord new = Inr () \<and> cfg_Version new = 2 \<and> length (Shards new) = 1"
proof -
  let ?inv = "availableShards (sample_coordinator ''a'')"
  have ok: "distinct (map sc_ID ?inv)" "\<forall>s \<in> set ?inv. LeaderAddr (Active s) \<noteq> '''' \<and> FollowerAddr (Active s) \<noteq> ''''"
    "2 = length ?inv"
    by (simp_all add: sample_coordinator_def sample_inventory_def sample_pair_def)
  from build_eq [of 1 ?inv 2, OF _ _ ok(1,2)] placed_tiles [of 1 ?inv, OF _ ok(1,2)] ok(3)
  show ?thesis by (simp add: store_validate_iff header_from_shards) (simp add: shardConfigRecordFromShards_def)
qed

lemma connect_total: "(\<And>a. rpc_Dial R a w = Inr ()) \<Longrightarrow> fst (connectShardConfig R w shards cl) = Inr ()"
  by (induction shards arbitrary: cl) (auto split: option.splits)

lemma apply_proposed_ok:
  assumes "\<And>a. rpc_Dial R a w = Inr ()" "cycle_state s = EpochCycleStateScalingInProgress"
    "store_validateShardConfigRecord (ev_proposed ev) = Inr ()" "cfg_Version (mc_shardConfig s) \<le> cfg_Version (ev_proposed ev)"
  shows "\<exists>reply c' s'. apply_proposed mem_control_ops R clk w ev (c, s) = (Inr reply, c', s')"
proof -
  obtain cl where con: "connectShardConfig R w (Shards (ev_proposed ev)) (co_clients c) = (Inr (), cl)"
    using connect_total [OF assms(1), of "Shards (ev_proposed ev)" "co_clients c"] by (metis prod.collapse)
  let ?s = "s\<lparr>mc_shardConfig := ev_proposed ev, mc_hasShardConfig := True\<rparr>"
  have put: "PutShardConfig (ev_proposed ev) s = (Inr (), ?s)" using assms(3,4) by (simp add: PutShardConfig_def)
  have "cycle_state ?s = EpochCycleStateScalingInProgress" using assms(2) by (simp add: cycle_state_def split: if_splits)
  then show ?thesis
    using con put mem_put_transition [of EpochCycleStateScalingInProgress ?s EpochCycleStateScalingApplied "clk 2"
        "zero_cycle\<lparr>cy_EpochID := sg_EpochID (ev_recommendation ev), cy_ShardConfigVersion := cfg_Version (ev_proposed ev),
          cy_ScalingRecommendationEpochID := sg_EpochID (ev_recommendation ev), cy_Reason := ''scaling recommendation applied''\<rparr>"]
    by (auto simp: apply_proposed_def Let_def cycle_table)
qed

lemma shrink_applies:
  "\<exists>reply c' s'. ApplyScalingRecommendation mem_control_ops echo_shards (\<lambda>_. 4) False 0 (sample_coordinator ''a'', shrink_store)
     = (Inr reply, c', s')"
proof -
  let ?c = "sample_coordinator ''a''"
  obtain new where new: "buildShardConfigFromInventory (availableShards ?c) 1 2 = Inr new"
    "ShardCount new = 1" "store_validateShardConfigRecord new = Inr ()" "cfg_Version new = 2"
    using shrink_build by blast
  obtain c1 s1 where l: "requireCoordinatorLease mem_control_ops 4 (?c, shrink_store) = (Inr (), c1, s1)"
    using sample_check
    by (simp add: requireCoordinatorLease_def renewCoordinatorLease_def RenewLease_def shrink_store_def ready_store_def leased_store_def
        AcquireLease_def NewMemoryControlStore_def Before_def Let_def)
  obtain L where s1: "s1 = shrink_store\<lparr>mc_lease := L\<rparr>" using l by (rule mem_require_store)
  obtain M x where c1: "c1 = ?c\<lparr>co_lease := M, co_role := x\<rparr>" using l by (rule require_frame)
  let ?rec = "latestScaling shrink_store"
  have store: "GetShardConfig shrink_store = Some sample_config" "store_CurrentEpoch shrink_store = None"
    "GetLatestScalingRecommendation shrink_store = Some ?rec" "mc_shardConfig shrink_store = sample_config"
    "cycle_state shrink_store = EpochCycleStateRecommendationReady"
    by (simp_all add: shrink_store_def ready_store_def leased_store_def AcquireLease_def NewMemoryControlStore_def GetShardConfig_def
        store_CurrentEpoch_def GetLatestScalingRecommendation_def cycle_state_def Let_def)
  let ?ev = "(evaluation scalingApplyStatusApplicable ''latest recommendation can be applied'' sample_config)
     \<lparr>ev_recommendation := ?rec, ev_proposed := new, ev_applicable := True\<rparr>"
  have "sg_ShardConfigVersion ?rec = 1" "sg_Action ?rec = scalingActionShrink" "sg_RecommendedShardCount ?rec = 1"
    "ShardCount sample_config = 2"
    by (simp_all add: shrink_store_def sample_config_def shardConfigRecordFromShards_def sample_inventory_def)
  then have ev: "evaluateScalingApply mem_control_ops (availableShards ?c) s1 = Inr ?ev"
    using new sample_config_record store
    by (simp add: s1 evaluateScalingApply_def evaluate_latest_def scalingActionShrink_def scalingActionKeep_def wrap64_def)
  have cyc: "epochCycleState mem_control_ops s1 = EpochCycleStateRecommendationReady"
    using mem_epochCycleState [of s1] store(5) by (simp add: s1 validEpochCycleState_def)
  let ?upd = "zero_cycle\<lparr>cy_EpochID := sg_EpochID ?rec, cy_ShardConfigVersion := cfg_Version sample_config,
    cy_ScalingRecommendationEpochID := sg_EpochID ?rec, cy_Reason := ''scaling apply started''\<rparr>"
  obtain r where r: "putEpochCycleTransition mem_control_ops 4 EpochCycleStateRecommendationReady EpochCycleStateScalingInProgress
      ?upd s1 = (Inr (), s1\<lparr>mc_epochCycle := r, hasEpochCycle := True\<rparr>)" "cy_State r = EpochCycleStateScalingInProgress"
    using mem_put_transition [of EpochCycleStateRecommendationReady s1 EpochCycleStateScalingInProgress 4 ?upd] store(5)
    by (auto simp: s1 cycle_table)
  have "\<exists>reply c' s'. apply_proposed mem_control_ops echo_shards (\<lambda>_. 4) 0 ?ev
      (c1, s1\<lparr>mc_epochCycle := r, hasEpochCycle := True\<rparr>) = (Inr reply, c', s')"
    using r(2) new(3,4) store(4) by (intro apply_proposed_ok) (simp_all add: s1 echo_shards_def)
  then show ?thesis
    using l ev cyc r(1) by (simp add: ApplyScalingRecommendation_def c1 requireScalingApplyApplicable_def evaluation_def Let_def)
qed


end
