(* ===== verification/Shard_Promotion.thy ===== *)
theory Shard_Promotion
  imports Coordinator_Scaling
begin

text \<open>
  Health of the shards and promotion of standby pairs (\<^verbatim>\<open>src/coordinator/coordinator_health.go\<close>,
  \<^verbatim>\<open>promotion_readiness.go\<close>, \<^verbatim>\<open>shard_promotion.go\<close>, \<^verbatim>\<open>auto_promotion.go\<close>).

  The readings of the clock inside one refresh of the health share one index of \<open>clk\<close>, since nothing
  compares them. Replacing a client closes the old one, whose outcome is only logged.

  Shown here: what a promotion changes in the topology and what it requires; that a promotion that
  is not forced never happens; that automatic promotion needs the configured number of consecutive
  failed checks of that shard and a standby that has caught up; and that a promotion is undone by
  the next scaling decision that is applied.
\<close>

section \<open>Durations as text\<close>

text \<open>\<^verbatim>\<open>time.Duration.String\<close> and \<^verbatim>\<open>Duration.Round(time.Second)\<close> of the standard library. The micro sign is the
  two bytes of its UTF-8 encoding.\<close>

definition fmt_frac :: "int \<Rightarrow> nat \<Rightarrow> string" where
  "fmt_frac v prec =
     (let digits = show_nat (nat (v mod 10 ^ prec));
          padded = replicate (prec - length digits) (CHR ''0'') @ digits;
          trimmed = rev (dropWhile (\<lambda>d. d = CHR ''0'') (rev padded))
      in if trimmed = [] then '''' else CHR ''.'' # trimmed)"

definition Duration_String :: "duration \<Rightarrow> string" where
  "Duration_String d =
     (let u = abs d; sign = (if d < 0 then ''-'' else '''') in
      if u = 0 then ''0s''
      else if u < 1000 then sign @ show_int u @ ''ns''
      else if u < 1000000 then sign @ show_int (u div 1000) @ fmt_frac u 3 @ [CHR 0xC2, CHR 0xB5] @ ''s''
      else if u < second then sign @ show_int (u div 1000000) @ fmt_frac u 6 @ ''ms''
      else let secs = u div second; mins = secs div 60; hours = mins div 60
           in sign @ (if hours > 0 then show_int hours @ ''h'' else '''')
                @ (if mins > 0 then show_int (mins mod 60) @ ''m'' else '''')
                @ show_int (secs mod 60) @ fmt_frac u 9 @ ''s'')"

definition Round_second :: "duration \<Rightarrow> duration" where
  "Round_second d =
     (let u = abs d; r = u mod second; v = (if r + r < second then u - r else u + second - r)
      in if d < 0 then - v else v)"

section \<open>Health\<close>

definition defaultShardStatusTimeout :: duration where "defaultShardStatusTimeout = 2 * second"
definition defaultShardHealthInterval :: duration where "defaultShardHealthInterval = 5 * second"
definition defaultAutoPromotionCooldown :: duration where "defaultAutoPromotionCooldown = 60 * second"
definition defaultAutoPromotionFailureThreshold :: int where "defaultAutoPromotionFailureThreshold = 3"

definition zero_diagnostics :: ingestionDiagnostics where
  "zero_diagnostics = \<lparr>processedCount = 0, ackCount = 0, receiveErrorCount = 0, processErrorCount = 0, ackErrorCount = 0,
     committedCount = 0, duplicateSkipCount = 0, ledgerBeginErrorCount = 0, ledgerCompleteErrorCount = 0,
     lastError = '''', lastErrorTime = zero_time, ledgerLastError = '''', ledgerLastErrorTime = zero_time\<rparr>"

definition zero_status :: StatusReply where
  "zero_status = \<lparr>sr_Healthy = False, sr_IsLeader = False, sr_ServerIndex = 0, sr_ShardID = 0, sr_EpochID = 0, sr_State = '''',
     sr_StartUnix = 0, sr_EndUnix = 0, sr_DurationSecs = 0, sr_Accepting = False, sr_LastResult = '''', sr_PeerState = '''',
     sr_PeerError = '''', sr_ReplicaID = '''', sr_IngestionQueueBackend = '''', sr_StandbyIngestionFanoutConfigured = False,
     sr_IngestionQueueDepth = 0, sr_IngestionInflightCount = 0, sr_Diagnostics = zero_diagnostics,
     sr_IngestionLastErrorUnix = 0, sr_CompletedUploadLedgerBackend = '''', sr_CompletedUploadLedgerLastErrorUnix = 0\<rparr>"

definition zero_pair_health :: pairHealthSnapshot where
  "zero_pair_health = \<lparr>Reachable = False, hs_Status = zero_status, hs_Error = '''', CheckedAt = zero_time\<rparr>"

definition zero_health :: shardHealthSnapshot where
  "zero_health = \<lparr>sh_Active = zero_pair_health, sh_Standby = zero_pair_health\<rparr>"

definition health_of :: "Coordinator \<Rightarrow> int \<Rightarrow> shardHealthSnapshot" where
  "health_of c shardID = (case co_health c shardID of None \<Rightarrow> zero_health | Some h \<Rightarrow> h)"

definition shardStatusWithTimeout :: "'w shard_ops \<Rightarrow> string \<Rightarrow> duration \<Rightarrow> 'w \<Rightarrow> StatusReply res" where
  "shardStatusWithTimeout R client timeout w =
     (case rpc_Status R client w of
        Some res \<Rightarrow> res
      | None \<Rightarrow> Inl (ErrorString (''status timeout after '' @ Duration_String timeout)))"

definition pairHealthFromStatus :: "StatusReply res \<Rightarrow> gotime \<Rightarrow> pairHealthSnapshot" where
  "pairHealthFromStatus status checkedAt =
     (case status of
        Inl err \<Rightarrow> zero_pair_health\<lparr>hs_Error := error_text err, CheckedAt := checkedAt\<rparr>
      | Inr reply \<Rightarrow> \<lparr>Reachable = True, hs_Status = reply, hs_Error = '''', CheckedAt = checkedAt\<rparr>)"

definition active_health :: "'w shard_ops \<Rightarrow> duration \<Rightarrow> gotime \<Rightarrow> (int \<rightharpoonup> string) \<Rightarrow> 'w \<Rightarrow> ShardConfig \<Rightarrow> pairHealthSnapshot" where
  "active_health R timeout now clients w shard =
     (case clients (sc_ID shard) of
        Some client \<Rightarrow> pairHealthFromStatus (shardStatusWithTimeout R client timeout w) now
      | None \<Rightarrow> zero_pair_health\<lparr>hs_Error := ''missing shard client for shard '' @ show_int (sc_ID shard), CheckedAt := now\<rparr>)"

definition standby_health :: "'w shard_ops \<Rightarrow> duration \<Rightarrow> gotime \<Rightarrow> 'w \<Rightarrow> ShardConfig \<Rightarrow> pairHealthSnapshot" where
  "standby_health R timeout now w shard =
     (case Standby shard of
        None \<Rightarrow> zero_pair_health
      | Some pair \<Rightarrow>
          (case rpc_DialStandby R (LeaderAddr pair) timeout w of
             Inl err \<Rightarrow> zero_pair_health\<lparr>hs_Error := error_text err, CheckedAt := now\<rparr>
           | Inr _ \<Rightarrow>
               let h = pairHealthFromStatus (shardStatusWithTimeout R (LeaderAddr pair) timeout w) now
               in (case rpc_CloseStandby R (LeaderAddr pair) w of
                     Inl closeErr \<Rightarrow>
                       if hs_Error h = '''' then h\<lparr>Reachable := False, hs_Error := error_text closeErr\<rparr> else h
                   | Inr _ \<Rightarrow> h)))"

definition refreshShardHealth ::
  "'s control_ops \<Rightarrow> 'w shard_ops \<Rightarrow> duration \<Rightarrow> gotime \<Rightarrow> 's \<Rightarrow> 'w \<Rightarrow> Coordinator \<Rightarrow> Coordinator" where
  "refreshShardHealth S R timeout now s w c =
     (let shards = Shards (shardConfigForStatus S (availableShards c) s);
          results = map (\<lambda>shard. (sc_ID shard, \<lparr>sh_Active = active_health R timeout now (co_clients c) w shard,
                                              sh_Standby = standby_health R timeout now w shard\<rparr>)) shards
      in c\<lparr>co_health := foldl (\<lambda>m (shardID, h). m(shardID \<mapsto> h)) (co_health c) results\<rparr>)"

definition needsShardHealthRefresh :: "'s control_ops \<Rightarrow> 's \<Rightarrow> Coordinator \<Rightarrow> bool" where
  "needsShardHealthRefresh S s c =
     list_ex (\<lambda>shard. IsZero (CheckedAt (sh_Active (health_of c (sc_ID shard)))) \<or>
                (Standby shard \<noteq> None \<and> IsZero (CheckedAt (sh_Standby (health_of c (sc_ID shard))))))
       (Shards (shardConfigForStatus S (availableShards c) s))"

definition lastCheckedUnix :: "gotime \<Rightarrow> int" where
  "lastCheckedUnix t = (if IsZero t then 0 else Unix t)"

section \<open>Readiness of a standby\<close>

record CoordinatorShardStatus =
  st_ID :: int
  st_StartRow :: int
  st_EndRow :: int
  st_ActiveLeaderAddr :: string
  st_ActiveFollowerAddr :: string
  st_HasStandby :: bool
  st_StandbyLeaderAddr :: string
  st_StandbyFollowerAddr :: string
  st_Reachable :: bool
  st_Status :: StatusReply
  st_StatusError :: string
  st_ActiveReachable :: bool
  st_ActiveStatus :: StatusReply
  st_ActiveStatusError :: string
  st_ActiveLastChecked :: int
  st_StandbyReachable :: bool
  st_StandbyStatus :: StatusReply
  st_StandbyStatusError :: string
  st_StandbyLastChecked :: int
  st_StandbyPromotable :: bool
  st_StandbyPromotionStatus :: string
  st_StandbyPromotionReason :: string
  st_ActiveCompletedUploadCommittedCount :: int
  st_StandbyCompletedUploadCommittedCount :: int
  st_StandbyIngestionQueueDepth :: int
  st_StandbyIngestionInflightCount :: int
  st_AutoPromotionFailureCount :: int
  st_AutoPromotionEligible :: bool
  st_AutoPromotionStatus :: string
  st_AutoPromotionReason :: string

definition zero_shard_status :: CoordinatorShardStatus where
  "zero_shard_status = \<lparr>st_ID = 0, st_StartRow = 0, st_EndRow = 0, st_ActiveLeaderAddr = '''', st_ActiveFollowerAddr = '''',
     st_HasStandby = False, st_StandbyLeaderAddr = '''', st_StandbyFollowerAddr = '''', st_Reachable = False,
     st_Status = zero_status, st_StatusError = '''', st_ActiveReachable = False, st_ActiveStatus = zero_status,
     st_ActiveStatusError = '''', st_ActiveLastChecked = 0, st_StandbyReachable = False, st_StandbyStatus = zero_status,
     st_StandbyStatusError = '''', st_StandbyLastChecked = 0, st_StandbyPromotable = False, st_StandbyPromotionStatus = '''',
     st_StandbyPromotionReason = '''', st_ActiveCompletedUploadCommittedCount = 0, st_StandbyCompletedUploadCommittedCount = 0,
     st_StandbyIngestionQueueDepth = 0, st_StandbyIngestionInflightCount = 0, st_AutoPromotionFailureCount = 0,
     st_AutoPromotionEligible = False, st_AutoPromotionStatus = '''', st_AutoPromotionReason = ''''\<rparr>"

text \<open>\<^verbatim>\<open>coordinatorShardStatusFromHealth\<close>, which \<^verbatim>\<open>currentShardStatusEntry\<close> repeats.\<close>

definition coordinatorShardStatusFromHealth :: "ShardConfig \<Rightarrow> shardHealthSnapshot \<Rightarrow> CoordinatorShardStatus" where
  "coordinatorShardStatusFromHealth shard health =
     (let entry = zero_shard_status\<lparr>st_ID := sc_ID shard, st_StartRow := StartRow shard, st_EndRow := EndRow shard,
            st_ActiveLeaderAddr := LeaderAddr (Active shard), st_ActiveFollowerAddr := FollowerAddr (Active shard),
            st_ActiveReachable := Reachable (sh_Active health), st_ActiveStatus := hs_Status (sh_Active health),
            st_ActiveStatusError := hs_Error (sh_Active health), st_StandbyReachable := Reachable (sh_Standby health),
            st_StandbyStatus := hs_Status (sh_Standby health), st_StandbyStatusError := hs_Error (sh_Standby health)\<rparr>
      in case Standby shard of
           None \<Rightarrow> entry
         | Some pair \<Rightarrow> entry\<lparr>st_HasStandby := True, st_StandbyLeaderAddr := LeaderAddr pair,
                             st_StandbyFollowerAddr := FollowerAddr pair\<rparr>)"

definition currentShardStatusEntry :: "ShardConfig \<Rightarrow> Coordinator \<Rightarrow> CoordinatorShardStatus" where
  "currentShardStatusEntry shard c = coordinatorShardStatusFromHealth shard (health_of c (sc_ID shard))"

definition standbyPromotionStatusMissingStandby :: string where
  "standbyPromotionStatusMissingStandby = ''missing_standby''"
definition standbyPromotionStatusUnknownActiveUnreachable :: string where
  "standbyPromotionStatusUnknownActiveUnreachable = ''unknown_active_unreachable''"
definition standbyPromotionStatusStandbyUnreachable :: string where
  "standbyPromotionStatusStandbyUnreachable = ''standby_unreachable''"
definition standbyPromotionStatusStandbyNotReplica :: string where
  "standbyPromotionStatusStandbyNotReplica = ''standby_not_replica''"
definition standbyPromotionStatusStandbyQueueNotDrained :: string where
  "standbyPromotionStatusStandbyQueueNotDrained = ''standby_queue_not_drained''"
definition standbyPromotionStatusStandbyErrors :: string where
  "standbyPromotionStatusStandbyErrors = ''standby_errors''"
definition standbyPromotionStatusStandbyBehind :: string where
  "standbyPromotionStatusStandbyBehind = ''standby_behind''"
definition standbyPromotionStatusPromotable :: string where
  "standbyPromotionStatusPromotable = ''promotable''"

definition standbyStatusHasIngestionErrors :: "StatusReply \<Rightarrow> bool" where
  "standbyStatusHasIngestionErrors status \<longleftrightarrow>
     (let d = sr_Diagnostics status in
      receiveErrorCount d > 0 \<or> processErrorCount d > 0 \<or> ackErrorCount d > 0 \<or> ledgerBeginErrorCount d > 0 \<or>
      ledgerCompleteErrorCount d > 0 \<or> lastError d \<noteq> '''' \<or> ledgerLastError d \<noteq> '''')"

definition standbyPromotionErrorReason :: "StatusReply \<Rightarrow> string" where
  "standbyPromotionErrorReason status =
     (let d = sr_Diagnostics status in
      if lastError d \<noteq> '''' then lastError d
      else if ledgerLastError d \<noteq> '''' then ledgerLastError d
      else ''standby ingestion errors receive='' @ show_int (receiveErrorCount d) @ '' process='' @ show_int (processErrorCount d)
         @ '' ack='' @ show_int (ackErrorCount d) @ '' ledger_begin='' @ show_int (ledgerBeginErrorCount d)
         @ '' ledger_complete='' @ show_int (ledgerCompleteErrorCount d))"

text \<open>The checks of the standby itself, which all three readiness functions make in the same order: the
  refusal, if any.\<close>

definition standby_refusal :: "CoordinatorShardStatus \<Rightarrow> (string \<times> string) option" where
  "standby_refusal entry =
     (let status = st_StandbyStatus entry in
      if \<not> st_StandbyReachable entry
      then Some (standbyPromotionStatusStandbyUnreachable,
             if st_StandbyStatusError entry \<noteq> '''' then st_StandbyStatusError entry else ''standby shard status is unavailable'')
      else if sr_ReplicaID status \<noteq> CompletedUploadReplicaStandby
      then Some (standbyPromotionStatusStandbyNotReplica, ''standby reports replica_id='' @ quoted (sr_ReplicaID status))
      else if sr_IngestionQueueDepth status \<noteq> 0 \<or> sr_IngestionInflightCount status \<noteq> 0
      then Some (standbyPromotionStatusStandbyQueueNotDrained,
             ''standby queue depth='' @ show_int (sr_IngestionQueueDepth status) @ '' inflight=''
             @ show_int (sr_IngestionInflightCount status))
      else if standbyStatusHasIngestionErrors status
      then Some (standbyPromotionStatusStandbyErrors, standbyPromotionErrorReason status)
      else None)"

definition standbyPromotionReadiness :: "CoordinatorShardStatus \<Rightarrow> string \<times> string \<times> bool" where
  "standbyPromotionReadiness entry =
     (if \<not> st_HasStandby entry then (standbyPromotionStatusMissingStandby, ''shard has no configured standby pair'', False)
      else if \<not> st_ActiveReachable entry
      then (standbyPromotionStatusUnknownActiveUnreachable,
            ''active shard status is unavailable; cannot compare standby catch-up'', False)
      else case standby_refusal entry of
        Some (status, reason) \<Rightarrow> (status, reason, False)
      | None \<Rightarrow>
          let sb = committedCount (sr_Diagnostics (st_StandbyStatus entry));
              ac = committedCount (sr_Diagnostics (st_ActiveStatus entry))
          in if sb < ac
             then (standbyPromotionStatusStandbyBehind, ''standby committed '' @ show_int sb
                     @ '' completed uploads; active committed '' @ show_int ac, False)
             else (standbyPromotionStatusPromotable,
                   ''standby is reachable, drained, error-free, and caught up to active completed uploads'', True))"

definition forcedStandbyPromotionReadiness :: "CoordinatorShardStatus \<Rightarrow> string \<times> string \<times> bool" where
  "forcedStandbyPromotionReadiness entry =
     (if \<not> st_HasStandby entry then (standbyPromotionStatusMissingStandby, ''shard has no configured standby pair'', False)
      else case standby_refusal entry of
        Some (status, reason) \<Rightarrow> (status, reason, False)
      | None \<Rightarrow>
          (standbyPromotionStatusPromotable,
           ''standby is reachable, drained, and error-free; active status is unavailable and force was requested'', True))"

definition populateStandbyPromotionReadiness :: "CoordinatorShardStatus \<Rightarrow> CoordinatorShardStatus" where
  "populateStandbyPromotionReadiness entry =
     (let entry = entry\<lparr>
            st_ActiveCompletedUploadCommittedCount := committedCount (sr_Diagnostics (st_ActiveStatus entry)),
            st_StandbyCompletedUploadCommittedCount := committedCount (sr_Diagnostics (st_StandbyStatus entry)),
            st_StandbyIngestionQueueDepth := sr_IngestionQueueDepth (st_StandbyStatus entry),
            st_StandbyIngestionInflightCount := sr_IngestionInflightCount (st_StandbyStatus entry)\<rparr>;
          (status, reason, promotable) = standbyPromotionReadiness entry
      in entry\<lparr>st_StandbyPromotionStatus := status, st_StandbyPromotionReason := reason, st_StandbyPromotable := promotable\<rparr>)"

section \<open>Promotion\<close>

definition shardPromotionStatusPromoted :: string where "shardPromotionStatusPromoted = ''promoted''"
definition shardPromotionStatusActiveHealthy :: string where "shardPromotionStatusActiveHealthy = ''active_healthy''"

definition zero_shard :: ShardConfig where
  "zero_shard = \<lparr>sc_ID = 0, StartRow = 0, EndRow = 0, Active = \<lparr>LeaderAddr = '''', FollowerAddr = ''''\<rparr>, Standby = None\<rparr>"

record shardPromotionEvaluation =
  pe_current :: ShardConfigRecord
  pe_proposed :: ShardConfigRecord
  pe_shard :: ShardConfig
  pe_promotedShard :: ShardConfig
  pe_status :: string
  pe_reason :: string
  pe_allowed :: bool

definition refused_promotion :: "ShardConfigRecord \<Rightarrow> ShardConfig \<Rightarrow> string \<Rightarrow> string \<Rightarrow> shardPromotionEvaluation" where
  "refused_promotion current shard status reason =
     \<lparr>pe_current = current, pe_proposed = zero_config, pe_shard = shard, pe_promotedShard = zero_shard,
      pe_status = status, pe_reason = reason, pe_allowed = False\<rparr>"

definition swap_pairs :: "ShardConfig \<Rightarrow> PairConfig \<Rightarrow> ShardConfig" where
  "swap_pairs shard standby = shard\<lparr>Active := standby, Standby := Some (Active shard)\<rparr>"

definition promotedShardEvaluation ::
  "ShardConfigRecord \<Rightarrow> nat \<Rightarrow> string \<Rightarrow> string \<Rightarrow> shardPromotionEvaluation res" where
  "promotedShardEvaluation current index status reason =
     (if index \<ge> length (Shards current)
      then Inl (ErrorString (''shard index '' @ show_nat index @ '' out of range''))
      else let shard = Shards current ! index in
        case Standby shard of
          None \<Rightarrow> Inr (refused_promotion current shard standbyPromotionStatusMissingStandby
                    ''shard has no configured standby pair'')
        | Some standby \<Rightarrow>
            let promoted = swap_pairs shard standby;
                proposed = current\<lparr>cfg_Version := wrap64 (cfg_Version current + 1), Shards := (Shards current)[index := promoted]\<rparr>
            in case validateShardConfigRecord proposed of
                 Inl err \<Rightarrow> Inl err
               | Inr _ \<Rightarrow> Inr \<lparr>pe_current = current, pe_proposed = proposed, pe_shard = shard, pe_promotedShard = promoted,
                               pe_status = status, pe_reason = reason, pe_allowed = True\<rparr>)"

text \<open>The index of the first shard with an identifier.\<close>

fun shard_index :: "int \<Rightarrow> ShardConfig list \<Rightarrow> nat option" where
  "shard_index i [] = None"
| "shard_index i (shard # rest) = (if sc_ID shard = i then Some 0 else map_option Suc (shard_index i rest))"

text \<open>The decision of \<^verbatim>\<open>evaluateShardStandbyPromotion\<close> for a shard with a standby, from its fresh status.\<close>

definition decide_promotion ::
  "ShardConfigRecord \<Rightarrow> nat \<Rightarrow> bool \<Rightarrow> CoordinatorShardStatus \<Rightarrow> shardPromotionEvaluation res" where
  "decide_promotion current index force entry =
     (let shard = Shards current ! index; (status, reason, promotable) = standbyPromotionReadiness entry in
      if st_ActiveReachable entry \<and> \<not> force
      then Inr (refused_promotion current shard shardPromotionStatusActiveHealthy
             ''active shard is still reachable; use -force-promote-shard for planned promotion'')
      else if \<not> st_ActiveReachable entry \<and> \<not> force
      then Inr (refused_promotion current shard standbyPromotionStatusUnknownActiveUnreachable
             ''active shard status is unavailable; use -force-promote-shard to drop partial sessions and promote standby'')
      else let (status, reason, promotable) =
                 (if \<not> promotable \<and> force \<and> \<not> st_ActiveReachable entry then forcedStandbyPromotionReadiness entry
                  else (status, reason, promotable))
           in if \<not> promotable then Inr (refused_promotion current shard status reason)
              else promotedShardEvaluation current index shardPromotionStatusPromoted ''standby promoted to active shard pair'')"

definition evaluateShardStandbyPromotion ::
  "'s control_ops \<Rightarrow> 'w shard_ops \<Rightarrow> gotime \<Rightarrow> int \<Rightarrow> bool \<Rightarrow> 's \<Rightarrow> 'w \<Rightarrow> Coordinator
     \<Rightarrow> shardPromotionEvaluation res \<times> Coordinator" where
  "evaluateShardStandbyPromotion S R now shardID force s w c =
     (if shardID < 0 then (Inl (ErrorString ''promote shard id must be non-negative''), c)
      else case activeShardConfig S s of
        Inl err \<Rightarrow> (Inl err, c)
      | Inr current \<Rightarrow>
      case shard_index shardID (Shards current) of
        None \<Rightarrow> (Inl (ErrorString (''active shard config missing shard '' @ show_int shardID)), c)
      | Some index \<Rightarrow>
          let shard = Shards current ! index in
          if Standby shard = None
          then (Inr (refused_promotion current shard standbyPromotionStatusMissingStandby
                  ''shard has no configured standby pair''), c)
          else let c = refreshShardHealth S R defaultShardStatusTimeout now s w c
               in (decide_promotion current index force (currentShardStatusEntry shard c), c))"

definition replaceActiveShardClientWith :: "ShardConfig \<Rightarrow> Coordinator \<Rightarrow> Coordinator" where
  "replaceActiveShardClientWith shard c =
     c\<lparr>co_clients := (co_clients c)(sc_ID shard \<mapsto> LeaderAddr (Active shard)), co_health := (co_health c)(sc_ID shard := None)\<rparr>"

definition applyShardStandbyPromotion ::
  "'s control_ops \<Rightarrow> 'w shard_ops \<Rightarrow> shardPromotionEvaluation \<Rightarrow> 'w \<Rightarrow> Coordinator \<times> 's \<Rightarrow> unit res \<times> Coordinator \<times> 's" where
  "applyShardStandbyPromotion S R ev w = (\<lambda>(c, s).
     let shard = pe_promotedShard ev in
     case rpc_Dial R (LeaderAddr (Active shard)) w of
       Inl err \<Rightarrow> (Inl (Wrapped (''connect promoted shard '' @ show_int (sc_ID shard) @ '' leader ''
                    @ LeaderAddr (Active shard) @ '': '') err ''''), c, s)
     | Inr _ \<Rightarrow>
         (case ct_PutShardConfig S (pe_proposed ev) s of
            (Inl err, s) \<Rightarrow> (Inl err, c, s)
          | (Inr _, s) \<Rightarrow> (Inr (), replaceActiveShardClientWith shard c, s)))"

record PromoteShardStandbyReply =
  pr_Promoted :: bool
  pr_ShardID :: int
  pr_PreviousVersion :: int
  pr_NewVersion :: int
  pr_OldActiveLeaderAddr :: string
  pr_NewActiveLeaderAddr :: string
  pr_Status :: string
  pr_Reason :: string

definition populatePromoteShardStandbyReply :: "shardPromotionEvaluation \<Rightarrow> bool \<Rightarrow> PromoteShardStandbyReply" where
  "populatePromoteShardStandbyReply ev promoted =
     \<lparr>pr_Promoted = promoted, pr_ShardID = sc_ID (pe_shard ev), pr_PreviousVersion = cfg_Version (pe_current ev),
      pr_NewVersion = cfg_Version (pe_proposed ev), pr_OldActiveLeaderAddr = LeaderAddr (Active (pe_shard ev)),
      pr_NewActiveLeaderAddr =
        (if LeaderAddr (Active (pe_promotedShard ev)) \<noteq> '''' then LeaderAddr (Active (pe_promotedShard ev))
         else case Standby (pe_shard ev) of None \<Rightarrow> '''' | Some pair \<Rightarrow> LeaderAddr pair),
      pr_Status = pe_status ev, pr_Reason = pe_reason ev\<rparr>"

text \<open>A refusal also fills the reply, which net/rpc drops when an error is returned.\<close>

definition PromoteShardStandby ::
  "'s control_ops \<Rightarrow> 'w shard_ops \<Rightarrow> (nat \<Rightarrow> gotime) \<Rightarrow> int \<Rightarrow> bool \<Rightarrow> 'w \<Rightarrow> Coordinator \<times> 's
     \<Rightarrow> PromoteShardStandbyReply res \<times> Coordinator \<times> 's" where
  "PromoteShardStandby S R clk shardID force w = (\<lambda>(c, s).
     case requireCoordinatorLease S (clk 0) (c, s) of
       (Inl _, c, s) \<Rightarrow> (Inl (coordinatorWireError errCoordinatorNotActive), c, s)
     | (Inr _, c, s) \<Rightarrow>
     case evaluateShardStandbyPromotion S R (clk 1) shardID force s w c of
       (Inl err, c) \<Rightarrow> (Inl err, c, s)
     | (Inr ev, c) \<Rightarrow>
     if \<not> pe_allowed ev then (Inl (ErrorString (pe_status ev @ '': '' @ pe_reason ev)), c, s)
     else case applyShardStandbyPromotion S R ev w (c, s) of
       (Inl err, c, s) \<Rightarrow> (Inl err, c, s)
     | (Inr _, c, s) \<Rightarrow> (Inr (populatePromoteShardStandbyReply ev True), c, s))"

section \<open>Automatic promotion\<close>

definition autoPromotionStatusDisabled :: string where "autoPromotionStatusDisabled = ''disabled''"
definition autoPromotionStatusActiveReachable :: string where "autoPromotionStatusActiveReachable = ''active_reachable''"
definition autoPromotionStatusWaitingFailureThreshold :: string where
  "autoPromotionStatusWaitingFailureThreshold = ''waiting_failure_threshold''"
definition autoPromotionStatusNoActiveBaseline :: string where
  "autoPromotionStatusNoActiveBaseline = ''no_active_baseline''"
definition autoPromotionStatusCooldown :: string where "autoPromotionStatusCooldown = ''cooldown''"
definition autoPromotionStatusNotAuthoritative :: string where
  "autoPromotionStatusNotAuthoritative = ''not_authoritative''"
definition autoPromotionStatusEligible :: string where "autoPromotionStatusEligible = ''eligible''"
definition autoPromotionStatusPromoted :: string where "autoPromotionStatusPromoted = ''promoted''"
definition autoPromotionStatusPromotionFailed :: string where
  "autoPromotionStatusPromotionFailed = ''promotion_failed''"

definition defaultAutoPromotionConfig :: autoPromotionConfig where
  "defaultAutoPromotionConfig = \<lparr>Enabled = False, CheckInterval = defaultShardHealthInterval,
     FailureThreshold = defaultAutoPromotionFailureThreshold, Cooldown = defaultAutoPromotionCooldown\<rparr>"

definition validateAutoPromotionConfig :: "autoPromotionConfig \<Rightarrow> unit res" where
  "validateAutoPromotionConfig config =
     (if CheckInterval config \<le> 0 then Inl (ErrorString ''auto promotion check interval must be positive'')
      else if FailureThreshold config \<le> 0 then Inl (ErrorString ''auto promotion failure threshold must be positive'')
      else if Cooldown config \<le> 0 then Inl (ErrorString ''auto promotion cooldown must be positive'')
      else Inr ())"

definition configureAutoPromotion :: "autoPromotionConfig \<Rightarrow> Coordinator \<Rightarrow> unit res \<times> Coordinator" where
  "configureAutoPromotion config c =
     (case validateAutoPromotionConfig config of
        Inl err \<Rightarrow> (Inl err, c)
      | Inr _ \<Rightarrow> (Inr (), c\<lparr>autoPromotion := config\<rparr>))"

definition zero_auto_state :: autoPromotionShardState where
  "zero_auto_state = \<lparr>FailureCount = 0, Eligible = False, ap_Status = '''', ap_Reason = '''', LastReachableActive = zero_status,
     HasLastReachableActive = False, LastPromotionAt = zero_time\<rparr>"

definition auto_state :: "Coordinator \<Rightarrow> int \<Rightarrow> autoPromotionShardState" where
  "auto_state c shardID = (case autoPromotionState c shardID of None \<Rightarrow> zero_auto_state | Some st \<Rightarrow> st)"

definition put_auto_state :: "int \<Rightarrow> autoPromotionShardState \<Rightarrow> Coordinator \<Rightarrow> Coordinator" where
  "put_auto_state shardID st c = c\<lparr>autoPromotionState := (autoPromotionState c)(shardID \<mapsto> st)\<rparr>"

definition autoPromotionReadiness :: "CoordinatorShardStatus \<Rightarrow> autoPromotionShardState \<Rightarrow> string \<times> string \<times> bool" where
  "autoPromotionReadiness entry st =
     (if \<not> HasLastReachableActive st
      then (autoPromotionStatusNoActiveBaseline,
            ''no last reachable active status is available for catch-up comparison'', False)
      else if \<not> st_HasStandby entry then (standbyPromotionStatusMissingStandby, ''shard has no configured standby pair'', False)
      else case standby_refusal entry of
        Some (status, reason) \<Rightarrow> (status, reason, False)
      | None \<Rightarrow>
          let sb = committedCount (sr_Diagnostics (st_StandbyStatus entry));
              ac = committedCount (sr_Diagnostics (LastReachableActive st))
          in if sb < ac
             then (standbyPromotionStatusStandbyBehind, ''standby committed '' @ show_int sb
                     @ '' completed uploads; last reachable active committed '' @ show_int ac, False)
             else (autoPromotionStatusEligible,
                   ''active shard is down and standby is caught up to the last reachable active status'', True))"

text \<open>The state of a shard after one check, from its state before and its health.\<close>

definition next_auto_state ::
  "ShardConfig \<Rightarrow> autoPromotionConfig \<Rightarrow> gotime \<Rightarrow> shardHealthSnapshot \<Rightarrow> autoPromotionShardState \<Rightarrow> autoPromotionShardState" where
  "next_auto_state shard config now health st =
     (if Reachable (sh_Active health)
      then st\<lparr>FailureCount := 0, Eligible := False, ap_Status := autoPromotionStatusActiveReachable,
             ap_Reason := ''active shard is reachable'', LastReachableActive := hs_Status (sh_Active health),
             HasLastReachableActive := True\<rparr>
      else
        let st = st\<lparr>FailureCount := FailureCount st + 1\<rparr>;
            (status, reason, eligible) = autoPromotionReadiness (coordinatorShardStatusFromHealth shard health) st;
            st = st\<lparr>ap_Status := status, ap_Reason := reason, Eligible := eligible\<rparr>
        in if FailureCount st < FailureThreshold config
           then st\<lparr>ap_Status := autoPromotionStatusWaitingFailureThreshold,
                  ap_Reason := ''active shard failed '' @ show_int (FailureCount st) @ ''/'' @ show_int (FailureThreshold config)
                    @ '' health checks'', Eligible := False\<rparr>
           else if \<not> IsZero (LastPromotionAt st) \<and> now - LastPromotionAt st < Cooldown config
           then st\<lparr>ap_Status := autoPromotionStatusCooldown,
                  ap_Reason := ''last promotion was '' @ Duration_String (Round_second (now - LastPromotionAt st))
                    @ '' ago; cooldown is '' @ Duration_String (Cooldown config), Eligible := False\<rparr>
           else st)"

definition evaluateAutoPromotionShard ::
  "ShardConfig \<Rightarrow> autoPromotionConfig \<Rightarrow> gotime \<Rightarrow> Coordinator \<Rightarrow> autoPromotionShardState \<times> Coordinator" where
  "evaluateAutoPromotionShard shard config now c =
     (let st = next_auto_state shard config now (health_of c (sc_ID shard)) (auto_state c (sc_ID shard))
      in (st, put_auto_state (sc_ID shard) st c))"

definition autoPromotionEvaluation :: "'s control_ops \<Rightarrow> int \<Rightarrow> 's \<Rightarrow> shardPromotionEvaluation res" where
  "autoPromotionEvaluation S shardID s =
     (case activeShardConfig S s of
        Inl err \<Rightarrow> Inl err
      | Inr current \<Rightarrow>
          (case shard_index shardID (Shards current) of
             None \<Rightarrow> Inl (ErrorString (''active shard config missing shard '' @ show_int shardID))
           | Some i \<Rightarrow> promotedShardEvaluation current i autoPromotionStatusPromoted
                         ''automatic promotion after consecutive active health failures''))"

definition recordAutoPromotionNotAuthoritative :: "'s control_ops \<Rightarrow> go_error \<Rightarrow> 's \<Rightarrow> Coordinator \<Rightarrow> Coordinator" where
  "recordAutoPromotionNotAuthoritative S err s c =
     foldl (\<lambda>c shard. put_auto_state (sc_ID shard)
              ((auto_state c (sc_ID shard))\<lparr>Eligible := False, ap_Status := autoPromotionStatusNotAuthoritative,
                 ap_Reason := ''coordinator lease unavailable: '' @ error_text err\<rparr>) c)
       c (Shards (shardConfigForStatus S (availableShards c) s))"

definition record_result :: "string \<Rightarrow> string \<Rightarrow> gotime \<Rightarrow> bool \<Rightarrow> autoPromotionShardState \<Rightarrow> autoPromotionShardState" where
  "record_result status reason now promoted st =
     (let st = st\<lparr>Eligible := False, ap_Status := status, ap_Reason := reason\<rparr>
      in if promoted then st\<lparr>FailureCount := 0, LastPromotionAt := now\<rparr> else st)"

definition recordAutoPromotionResult :: "int \<Rightarrow> string \<Rightarrow> string \<Rightarrow> gotime \<Rightarrow> bool \<Rightarrow> Coordinator \<Rightarrow> Coordinator" where
  "recordAutoPromotionResult shardID status reason now promoted c =
     put_auto_state shardID (record_result status reason now promoted (auto_state c shardID)) c"

text \<open>The loop over the shards, which ends at the first eligible one. An evaluation that is not allowed
  is applied all the same: it has no proposal, so the store refuses it.\<close>

fun auto_promote ::
  "'s control_ops \<Rightarrow> 'w shard_ops \<Rightarrow> autoPromotionConfig \<Rightarrow> gotime \<Rightarrow> 'w \<Rightarrow> ShardConfig list \<Rightarrow> Coordinator \<times> 's
     \<Rightarrow> Coordinator \<times> 's" where
  "auto_promote S R config now w [] (c, s) = (c, s)"
| "auto_promote S R config now w (shard # rest) (c, s) =
     (let (st, c) = evaluateAutoPromotionShard shard config now c in
      if \<not> Eligible st then auto_promote S R config now w rest (c, s)
      else case autoPromotionEvaluation S (sc_ID shard) s of
        Inl err \<Rightarrow> (recordAutoPromotionResult (sc_ID shard) autoPromotionStatusPromotionFailed (error_text err) now False c, s)
      | Inr ev \<Rightarrow>
          (case applyShardStandbyPromotion S R ev w (c, s) of
             (Inl err, c, s) \<Rightarrow>
               (recordAutoPromotionResult (sc_ID shard) autoPromotionStatusPromotionFailed (error_text err) now False c, s)
           | (Inr _, c, s) \<Rightarrow>
               (recordAutoPromotionResult (sc_ID shard) autoPromotionStatusPromoted (pe_reason ev) now True c, s)))"

definition runAutoPromotionCheck ::
  "'s control_ops \<Rightarrow> 'w shard_ops \<Rightarrow> (nat \<Rightarrow> gotime) \<Rightarrow> 'w \<Rightarrow> Coordinator \<times> 's \<Rightarrow> Coordinator \<times> 's" where
  "runAutoPromotionCheck S R clk w = (\<lambda>(c, s).
     let config = autoPromotion c in
     if \<not> Enabled config then (c, s)
     else case requireCoordinatorLease S (clk 0) (c, s) of
       (Inl err, c, s) \<Rightarrow> (recordAutoPromotionNotAuthoritative S err s c, s)
     | (Inr _, c, s) \<Rightarrow>
         let c = refreshShardHealth S R defaultShardStatusTimeout (clk 1) s w c in
         case activeShardConfig S s of
           Inl _ \<Rightarrow> (c, s)
         | Inr shardConfig \<Rightarrow> auto_promote S R config (clk 2) w (Shards shardConfig) (c, s))"

definition populateAutoPromotionStatus :: "autoPromotionShardState \<Rightarrow> CoordinatorShardStatus \<Rightarrow> CoordinatorShardStatus" where
  "populateAutoPromotionStatus st entry =
     (if ap_Status st = ''''
      then entry\<lparr>st_AutoPromotionStatus := autoPromotionStatusDisabled,
             st_AutoPromotionReason := ''automatic shard standby promotion is disabled or has not evaluated this shard''\<rparr>
      else entry\<lparr>st_AutoPromotionFailureCount := FailureCount st, st_AutoPromotionEligible := Eligible st,
             st_AutoPromotionStatus := ap_Status st, st_AutoPromotionReason := ap_Reason st\<rparr>)"

section \<open>What a promotion needs and does\<close>

definition standby_ready :: "pairHealthSnapshot \<Rightarrow> bool" where
  "standby_ready h \<longleftrightarrow> Reachable h \<and> sr_ReplicaID (hs_Status h) = CompletedUploadReplicaStandby \<and>
     sr_IngestionQueueDepth (hs_Status h) = 0 \<and> sr_IngestionInflightCount (hs_Status h) = 0 \<and>
     \<not> standbyStatusHasIngestionErrors (hs_Status h)"

definition committed :: "pairHealthSnapshot \<Rightarrow> int" where
  "committed h = committedCount (sr_Diagnostics (hs_Status h))"

lemma entry_simps [simp]:
  "st_HasStandby (coordinatorShardStatusFromHealth shard h) \<longleftrightarrow> Standby shard \<noteq> None"
  "st_ActiveReachable (coordinatorShardStatusFromHealth shard h) = Reachable (sh_Active h)"
  "st_ActiveStatus (coordinatorShardStatusFromHealth shard h) = hs_Status (sh_Active h)"
  "st_StandbyReachable (coordinatorShardStatusFromHealth shard h) = Reachable (sh_Standby h)"
  "st_StandbyStatus (coordinatorShardStatusFromHealth shard h) = hs_Status (sh_Standby h)"
  by (simp_all add: coordinatorShardStatusFromHealth_def zero_shard_status_def Let_def split: option.split)

lemma standby_refusal_iff:
  "standby_refusal (coordinatorShardStatusFromHealth shard h) = None \<longleftrightarrow> standby_ready (sh_Standby h)"
  by (auto simp: standby_refusal_def standby_ready_def Let_def)

lemma promoted_evaluation:
  assumes "promotedShardEvaluation config i status reason = Inr ev" "pe_allowed ev"
  obtains pair where "i < length (Shards config)" "Standby (Shards config ! i) = Some pair" "pe_current ev = config"
    "pe_promotedShard ev = swap_pairs (Shards config ! i) pair" "pe_shard ev = Shards config ! i"
    "pe_proposed ev = config\<lparr>cfg_Version := wrap64 (cfg_Version config + 1),
       Shards := (Shards config)[i := swap_pairs (Shards config ! i) pair]\<rparr>"
    "validateShardConfigRecord (pe_proposed ev) = Inr ()"
  using assms by (auto simp: promotedShardEvaluation_def refused_promotion_def Let_def split: if_splits option.splits sum.splits)

lemma decide_allowed:
  assumes "decide_promotion config i force (coordinatorShardStatusFromHealth shard h) = Inr ev" "pe_allowed ev"
  shows "force" "standby_ready (sh_Standby h)" "Reachable (sh_Active h) \<longrightarrow> committed (sh_Active h) \<le> committed (sh_Standby h)"
    "promotedShardEvaluation config i shardPromotionStatusPromoted ''standby promoted to active shard pair'' = Inr ev"
proof -
  let ?e = "coordinatorShardStatusFromHealth shard h"
  obtain a b p where r: "standbyPromotionReadiness ?e = (a, b, p)" by (rule prod_cases3)
  obtain a' b' p' where r': "forcedStandbyPromotionReadiness ?e = (a', b', p')" by (rule prod_cases3)
  show f: "force" using assms r by (auto simp: decide_promotion_def refused_promotion_def Let_def split: if_splits)
  have "p \<or> (p' \<and> \<not> Reachable (sh_Active h))"
    using assms r r' f by (auto simp: decide_promotion_def refused_promotion_def Let_def split: if_splits)
  moreover have "p \<Longrightarrow> standby_ready (sh_Standby h) \<and> Reachable (sh_Active h) \<and> committed (sh_Active h) \<le> committed (sh_Standby h)"
    using r standby_refusal_iff [of shard h]
    by (auto simp: standbyPromotionReadiness_def committed_def Let_def split: if_splits option.splits)
  moreover have "p' \<Longrightarrow> standby_ready (sh_Standby h)"
    using r' standby_refusal_iff [of shard h]
    by (auto simp: forcedStandbyPromotionReadiness_def split: if_splits option.splits)
  ultimately show "standby_ready (sh_Standby h)" "Reachable (sh_Active h) \<longrightarrow> committed (sh_Active h) \<le> committed (sh_Standby h)"
    by auto
  show "promotedShardEvaluation config i shardPromotionStatusPromoted ''standby promoted to active shard pair'' = Inr ev"
    using assms r r' f by (auto simp: decide_promotion_def refused_promotion_def Let_def split: if_splits)
qed

lemma shard_index_Some: "shard_index k ss = Some i \<Longrightarrow> i < length ss \<and> sc_ID (ss ! i) = k"
  by (induction ss arbitrary: i) (auto split: if_splits)

lemma refresh_fold:
  "distinct (map sc_ID ss) \<Longrightarrow> shard \<in> set ss \<Longrightarrow>
     foldl (\<lambda>m (i, h). m(i \<mapsto> h)) m (map (\<lambda>shard. (sc_ID shard, f shard)) ss) (sc_ID shard) = Some (f shard)"
proof (induction ss arbitrary: m)
  case (Cons a ss)
  have other: "sc_ID shard \<notin> sc_ID ` set ts \<Longrightarrow>
      foldl (\<lambda>m (i, h). m(i \<mapsto> h)) m (map (\<lambda>shard. (sc_ID shard, f shard)) ts) (sc_ID shard) = m (sc_ID shard)" for ts m
    by (induction ts arbitrary: m) auto
  show ?case
  proof (cases "shard \<in> set ss")
    case True
    then show ?thesis using Cons by simp
  next
    case False
    then have "shard = a" using Cons.prems by simp
    then show ?thesis using Cons.prems other [of ss] by (simp del: foldl_map fun_upd_apply) simp
  qed
qed simp

lemma refresh_health:
  assumes "GetShardConfig s = Some config" "validateShardConfigRecord config = Inr ()" "shard \<in> set (Shards config)"
  shows "health_of (refreshShardHealth mem_control_ops R t now s w c) (sc_ID shard)
    = \<lparr>sh_Active = active_health R t now (co_clients c) w shard, sh_Standby = standby_health R t now w shard\<rparr>"
proof -
  have "distinct (map sc_ID (sort_shards (Shards config)))" using assms(2) by (simp add: validate_record_iff shards_tile_def)
  then have "distinct (map sc_ID (Shards config))"
    by (metis mset_map mset_sort_shards mset_eq_imp_distinct_iff)
  then show ?thesis
    using refresh_fold [of "Shards config" shard "co_health c"] assms(1,3)
    by (simp add: refreshShardHealth_def shardConfigForStatus_def health_of_def del: foldl_map)
qed

text \<open>The effect of applying an allowed evaluation.\<close>

lemma apply_promotion_ok:
  assumes "promotedShardEvaluation config i status reason = Inr ev" "pe_allowed ev"
    and "applyShardStandbyPromotion mem_control_ops R ev w (c, s) = (Inr u, c', s')"
  shows "\<exists>pair. i < length (Shards config) \<and> Standby (Shards config ! i) = Some pair \<and>
     c' = c\<lparr>co_clients := (co_clients c)(sc_ID (Shards config ! i) \<mapsto> LeaderAddr pair),
            co_health := (co_health c)(sc_ID (Shards config ! i) := None)\<rparr> \<and>
     s' = s\<lparr>mc_shardConfig := config\<lparr>cfg_Version := wrap64 (cfg_Version config + 1),
              Shards := (Shards config)[i := swap_pairs (Shards config ! i) pair]\<rparr>, mc_hasShardConfig := True\<rparr> \<and>
     pe_shard ev = Shards config ! i \<and> pe_current ev = config"
  using assms(1,2)
proof (rule promoted_evaluation)
  fix pair
  assume ev: "i < length (Shards config)" "Standby (Shards config ! i) = Some pair" "pe_current ev = config"
    "pe_promotedShard ev = swap_pairs (Shards config ! i) pair" "pe_shard ev = Shards config ! i"
    "pe_proposed ev = config\<lparr>cfg_Version := wrap64 (cfg_Version config + 1),
       Shards := (Shards config)[i := swap_pairs (Shards config ! i) pair]\<rparr>"
  have "PutShardConfig (pe_proposed ev) s = (Inr (), s') \<and> c' = replaceActiveShardClientWith (pe_promotedShard ev) c"
    using assms(3) by (auto simp: applyShardStandbyPromotion_def Let_def split: sum.splits prod.splits)
  then show ?thesis using ev
    by (auto simp: PutShardConfig_def replaceActiveShardClientWith_def swap_pairs_def split: sum.splits if_splits)
qed

lemma promote_ok:
  assumes "PromoteShardStandby S R clk k force w (c, s) = (Inr reply, c', s')"
  obtains v c1 s1 config i ev u where "requireCoordinatorLease S (clk 0) (c, s) = (Inr v, c1, s1)"
    "activeShardConfig S s1 = Inr config" "shard_index k (Shards config) = Some i"
    "decide_promotion config i force (currentShardStatusEntry (Shards config ! i)
       (refreshShardHealth S R defaultShardStatusTimeout (clk 1) s1 w c1)) = Inr ev" "pe_allowed ev"
    "applyShardStandbyPromotion S R ev w (refreshShardHealth S R defaultShardStatusTimeout (clk 1) s1 w c1, s1) = (Inr u, c', s')"
    "reply = populatePromoteShardStandbyReply ev True"
proof -
  obtain r c1 s1 where l: "requireCoordinatorLease S (clk 0) (c, s) = (r, c1, s1)" by (rule prod_cases3)
  with assms obtain v where v: "r = Inr v" by (cases r) (simp_all add: PromoteShardStandby_def)
  obtain q c2 where e: "evaluateShardStandbyPromotion S R (clk 1) k force s1 w c1 = (q, c2)" by fastforce
  with assms l v obtain ev where ev: "q = Inr ev" "pe_allowed ev"
    by (cases q) (auto simp: PromoteShardStandby_def split: if_splits)
  obtain a c3 s3 where ap: "applyShardStandbyPromotion S R ev w (c2, s1) = (a, c3, s3)" by (rule prod_cases3)
  with assms l v e ev obtain u where u: "a = Inr u" "c3 = c'" "s3 = s'" "reply = populatePromoteShardStandbyReply ev True"
    by (cases a) (auto simp: PromoteShardStandby_def)
  from e ev obtain config i where ci: "activeShardConfig S s1 = Inr config" "shard_index k (Shards config) = Some i"
    "c2 = refreshShardHealth S R defaultShardStatusTimeout (clk 1) s1 w c1"
    "decide_promotion config i force (currentShardStatusEntry (Shards config ! i) c2) = Inr ev"
    by (auto simp: evaluateShardStandbyPromotion_def refused_promotion_def Let_def split: if_splits sum.splits option.splits)
  show ?thesis by (rule that [of v c1 s1 config i ev u]) (use l v ci ev ap u in auto)
qed

section \<open>Properties\<close>

text \<open>C24: What a manual promotion requires and changes. \<^verbatim>\<open>PromoteShardStandby\<close> succeeds only when forced, for a
  shard of the stored topology that has a standby; the standby answered just now as a standby replica
  with an empty queue and no errors, and if the active pair answered, the standby had committed at
  least as many uploads. It swaps the two pairs of that shard, in the next version of the topology,
  and nothing else: identifiers and rows stay, so every row goes to the same shard as before; the
  coordinator's client of the shard is the new leader; the epoch and its cycle are untouched.\<close>

theorem promote_shard_outcome:
  assumes "PromoteShardStandby mem_control_ops R clk k force w (c, s) = (Inr reply, c', s')"
  shows "force \<and> (\<exists>config i pair. let shard = Shards config ! i;
        act = active_health R defaultShardStatusTimeout (clk 1) (co_clients c) w shard;
        sb = standby_health R defaultShardStatusTimeout (clk 1) w shard;
        new = config\<lparr>cfg_Version := wrap64 (cfg_Version config + 1), Shards := (Shards config)[i := swap_pairs shard pair]\<rparr> in
      GetShardConfig s = Some config \<and> i < length (Shards config) \<and> sc_ID shard = k \<and> Standby shard = Some pair \<and>
      standby_ready sb \<and> (Reachable act \<longrightarrow> committed act \<le> committed sb) \<and> GetShardConfig s' = Some new \<and>
      co_clients c' = (co_clients c)(k \<mapsto> LeaderAddr pair) \<and>
      (\<forall>row. map_sum (\<lambda>e. e) sc_ID (routeShard (Shards new) row) = map_sum (\<lambda>e. e) sc_ID (routeShard (Shards config) row)) \<and>
      store_CurrentEpoch s' = store_CurrentEpoch s \<and> cycle_state s' = cycle_state s)"
  using assms
proof (rule promote_ok, goal_cases)
  case (1 v c1 s1 config i ev u)
  let ?shard = "Shards config ! i" and ?c2 = "refreshShardHealth mem_control_ops R defaultShardStatusTimeout (clk 1) s1 w c1"
  obtain L where s1: "s1 = s\<lparr>mc_lease := L\<rparr>" using 1(1) by (rule mem_require_store)
  obtain M y where c1: "c1 = c\<lparr>co_lease := M, co_role := y\<rparr>" using 1(1) by (rule require_frame)
  have cfg: "GetShardConfig s = Some config" "validateShardConfigRecord config = Inr ()"
    using 1(2) by (auto simp: s1 activeShardConfig_def split: option.splits sum.splits)
  have i: "i < length (Shards config)" "sc_ID ?shard = k" using shard_index_Some [OF 1(3)] by simp_all
  have h: "health_of ?c2 (sc_ID ?shard) = \<lparr>sh_Active = active_health R defaultShardStatusTimeout (clk 1) (co_clients c) w ?shard,
      sh_Standby = standby_health R defaultShardStatusTimeout (clk 1) w ?shard\<rparr>"
    using refresh_health [of s1 config ?shard R defaultShardStatusTimeout "clk 1" w c1] cfg i(1) by (simp add: s1 c1)
  note dec = decide_allowed [OF 1(4) [unfolded currentShardStatusEntry_def h] 1(5)]
  from apply_promotion_ok [OF dec(4) 1(5,6)] obtain pair where pair: "Standby ?shard = Some pair"
    "co_clients c' = (co_clients c)(k \<mapsto> LeaderAddr pair)"
    "s' = s1\<lparr>mc_shardConfig := config\<lparr>cfg_Version := wrap64 (cfg_Version config + 1),
        Shards := (Shards config)[i := swap_pairs ?shard pair]\<rparr>, mc_hasShardConfig := True\<rparr>"
    using i(2) by (auto simp: refreshShardHealth_def c1 Let_def)
  have route: "map_sum (\<lambda>e. e) sc_ID (routeShard (ss[i := swap_pairs (ss ! i) p]) row) = map_sum (\<lambda>e. e) sc_ID (routeShard ss row)"
    for ss p row and i :: nat
    by (induction ss arbitrary: i) (auto simp: swap_pairs_def split: nat.splits)
  show ?case
    using dec(1-3) cfg i pair route
    by (intro conjI exI [of _ config] exI [of _ i] exI [of _ pair])
      (auto simp: Let_def GetShardConfig_def store_CurrentEpoch_def cycle_state_def s1)
qed

text \<open>Shards where only the standby of shard 7 answers, caught up.\<close>

definition failed_shards :: "nat shard_ops" where
  "failed_shards = echo_shards\<lparr>rpc_Status := (\<lambda>a w. if a = ''c-leader''
     then Some (Inr (zero_status\<lparr>sr_ReplicaID := CompletedUploadReplicaStandby\<rparr>)) else None)\<rparr>"

definition promoted_config :: ShardConfigRecord where
  "promoted_config = sample_config\<lparr>cfg_Version := 2, Shards := sample_inventory[0 := swap_pairs (sample_inventory ! 0) (sample_pair ''c'')]\<rparr>"

lemma promoted_config_valid: "validateShardConfigRecord promoted_config = Inr ()"
proof -
  have "sort_shards (Shards promoted_config) = rev (Shards promoted_config)"
    by (rule sort_shards_unique) (simp_all add: promoted_config_def sample_inventory_def swap_pairs_def)
  then show ?thesis
    by (simp add: validate_record_iff)
      (simp add: promoted_config_def sample_config_def shardConfigRecordFromShards_def config_header_check_def
        globalTableHeightForShards_def sample_inventory_def swap_pairs_def shards_tile_def tile_def all_less_Suc TABLE_HEIGHT_eq sample_pair_def)
qed

lemma sample_promotion:
  "\<exists>reply c' s'. PromoteShardStandby mem_control_ops failed_shards (\<lambda>_. 4) 7 True 0 (sample_coordinator ''a'', ready_store)
     = (Inr reply, c', s')"
proof -
  let ?c = "sample_coordinator ''a''"
  obtain c1 s1 where l: "requireCoordinatorLease mem_control_ops 4 (?c, ready_store) = (Inr (), c1, s1)"
    by (simp add: requireCoordinatorLease_def renewCoordinatorLease_def RenewLease_def ready_store_def leased_store_def
        AcquireLease_def NewMemoryControlStore_def Before_def Let_def)
  obtain L where s1: "s1 = ready_store\<lparr>mc_lease := L\<rparr>" using l by (rule mem_require_store)
  obtain M y where c1: "c1 = ?c\<lparr>co_lease := M, co_role := y\<rparr>" using l by (rule require_frame)
  let ?c2 = "refreshShardHealth mem_control_ops failed_shards defaultShardStatusTimeout 4 s1 0 c1"
  let ?shard = "sample_inventory ! 0"
  have cfg: "GetShardConfig s1 = Some sample_config" "mc_shardConfig s1 = sample_config" by (simp_all add: s1 ready_store_def GetShardConfig_def)
  then have act: "activeShardConfig mem_control_ops s1 = Inr sample_config"
    using sample_config_record by (simp add: activeShardConfig_def)
  have "health_of ?c2 7 = \<lparr>sh_Active = active_health failed_shards defaultShardStatusTimeout 4 (co_clients c1) 0 ?shard,
      sh_Standby = standby_health failed_shards defaultShardStatusTimeout 4 0 ?shard\<rparr>"
    using refresh_health [of s1 sample_config ?shard failed_shards defaultShardStatusTimeout 4 0 c1] cfg sample_config_record
    by (simp add: sample_inventory_def)
  moreover have "standby_ready (standby_health failed_shards defaultShardStatusTimeout 4 0 ?shard)"
    "\<not> Reachable (active_health failed_shards defaultShardStatusTimeout 4 (co_clients c1) 0 ?shard)"
    by (simp_all add: standby_ready_def standby_health_def active_health_def failed_shards_def echo_shards_def sample_inventory_def
        sample_pair_def shardStatusWithTimeout_def pairHealthFromStatus_def standbyStatusHasIngestionErrors_def zero_status_def
        zero_diagnostics_def zero_pair_health_def c1 sample_coordinator_def)
  ultimately have dec: "decide_promotion sample_config 0 True (currentShardStatusEntry ?shard ?c2)
      = promotedShardEvaluation sample_config 0 shardPromotionStatusPromoted ''standby promoted to active shard pair''"
    using standby_refusal_iff [of ?shard "health_of ?c2 7"]
    by (simp add: decide_promotion_def currentShardStatusEntry_def standbyPromotionReadiness_def forcedStandbyPromotionReadiness_def
        sample_inventory_def)
  obtain ev where ev: "promotedShardEvaluation sample_config 0 shardPromotionStatusPromoted ''standby promoted to active shard pair'' = Inr ev"
    "pe_allowed ev" "pe_proposed ev = promoted_config"
    using promoted_config_valid
    by (simp add: promotedShardEvaluation_def promoted_config_def sample_inventory_def sample_config_def
        shardConfigRecordFromShards_def wrap64_def Let_def)
  have "store_validateShardConfigRecord promoted_config = Inr ()"
    using promoted_config_valid by (simp add: validate_record_iff store_validate_iff)
  then have put: "PutShardConfig promoted_config s1 = (Inr (), s1\<lparr>mc_shardConfig := promoted_config, mc_hasShardConfig := True\<rparr>)"
    by (simp add: PutShardConfig_def cfg promoted_config_def)
  have "\<exists>c' s'. applyShardStandbyPromotion mem_control_ops failed_shards ev 0 (?c2, s1) = (Inr (), c', s')"
    using put ev(3) by (simp add: applyShardStandbyPromotion_def failed_shards_def echo_shards_def Let_def)
  then show ?thesis
    using l act dec ev(1,2) by (auto simp: PromoteShardStandby_def evaluateShardStandbyPromotion_def sample_inventory_def Let_def)
qed

theorem promote_shard_outcome_witness:
  "\<exists>reply c' s'. PromoteShardStandby mem_control_ops failed_shards (\<lambda>_. 4) 7 True 0 (sample_coordinator ''a'', ready_store)
     = (Inr reply, c', s') \<and> (\<exists>addr. co_clients c' = (co_clients (sample_coordinator ''a''))(7 \<mapsto> addr))"
proof -
  obtain reply c' s' where run: "PromoteShardStandby mem_control_ops failed_shards (\<lambda>_. 4) 7 True 0
      (sample_coordinator ''a'', ready_store) = (Inr reply, c', s')" using sample_promotion by blast
  from promote_shard_outcome [OF this] run show ?thesis by (auto simp: Let_def)
qed

section \<open>Automatic promotion over time\<close>

text \<open>What happens to the state of one shard: a check with the health seen, the result of a promotion
  recorded, or a check without the lease. \<open>auto_run\<close> is the state after a sequence of them.\<close>

datatype auto_event = Checked gotime shardHealthSnapshot | Recorded string string gotime bool | LeaseLost string

fun auto_step :: "ShardConfig \<Rightarrow> autoPromotionConfig \<Rightarrow> autoPromotionShardState \<Rightarrow> auto_event \<Rightarrow> autoPromotionShardState" where
  "auto_step shard config st (Checked now h) = next_auto_state shard config now h st"
| "auto_step shard config st (Recorded status reason now promoted) = record_result status reason now promoted st"
| "auto_step shard config st (LeaseLost reason) =
     st\<lparr>Eligible := False, ap_Status := autoPromotionStatusNotAuthoritative, ap_Reason := reason\<rparr>"

definition auto_run :: "ShardConfig \<Rightarrow> autoPromotionConfig \<Rightarrow> auto_event list \<Rightarrow> autoPromotionShardState" where
  "auto_run shard config evs = foldl (auto_step shard config) zero_auto_state evs"

text \<open>The checks since the active pair answered or was replaced, newest first; the health when the active
  pair last answered; the time of the last promotion.\<close>

fun failed_checks :: "auto_event list \<Rightarrow> nat" where
  "failed_checks [] = 0"
| "failed_checks (Checked t h # evs) = (if Reachable (sh_Active h) then 0 else Suc (failed_checks evs))"
| "failed_checks (Recorded _ _ t promoted # evs) = (if promoted then 0 else failed_checks evs)"
| "failed_checks (LeaseLost e # evs) = failed_checks evs"

fun last_reachable :: "auto_event list \<Rightarrow> shardHealthSnapshot option" where
  "last_reachable [] = None"
| "last_reachable (Checked t h # evs) = (if Reachable (sh_Active h) then Some h else last_reachable evs)"
| "last_reachable (_ # evs) = last_reachable evs"

fun last_promotion :: "auto_event list \<Rightarrow> gotime option" where
  "last_promotion [] = None"
| "last_promotion (Recorded _ _ t promoted # evs) = (if promoted then Some t else last_promotion evs)"
| "last_promotion (_ # evs) = last_promotion evs"

lemma next_auto_fields:
  "FailureCount (next_auto_state shard config now h st) = (if Reachable (sh_Active h) then 0 else FailureCount st + 1)"
  "HasLastReachableActive (next_auto_state shard config now h st) \<longleftrightarrow> Reachable (sh_Active h) \<or> HasLastReachableActive st"
  "LastReachableActive (next_auto_state shard config now h st)
     = (if Reachable (sh_Active h) then hs_Status (sh_Active h) else LastReachableActive st)"
  "LastPromotionAt (next_auto_state shard config now h st) = LastPromotionAt st"
  by (auto simp: next_auto_state_def Let_def split: prod.splits)

lemma auto_run_snoc: "auto_run shard config (evs @ [ev]) = auto_step shard config (auto_run shard config evs) ev"
  by (simp add: auto_run_def)

lemma auto_run_fields:
  "FailureCount (auto_run shard config evs) = int (failed_checks (rev evs))"
  "HasLastReachableActive (auto_run shard config evs) \<longleftrightarrow> last_reachable (rev evs) \<noteq> None"
  "last_reachable (rev evs) = Some h \<Longrightarrow> LastReachableActive (auto_run shard config evs) = hs_Status (sh_Active h)"
  "LastPromotionAt (auto_run shard config evs) = (case last_promotion (rev evs) of None \<Rightarrow> zero_time | Some t \<Rightarrow> t)"
proof (induction evs rule: rev_induct)
  case Nil
  show "FailureCount (auto_run shard config []) = int (failed_checks (rev []))"
    "HasLastReachableActive (auto_run shard config []) \<longleftrightarrow> last_reachable (rev []) \<noteq> None"
    "last_reachable (rev []) = Some h \<Longrightarrow> LastReachableActive (auto_run shard config []) = hs_Status (sh_Active h)"
    "LastPromotionAt (auto_run shard config []) = (case last_promotion (rev []) of None \<Rightarrow> zero_time | Some t \<Rightarrow> t)"
    by (simp_all add: auto_run_def zero_auto_state_def)
next
  case (snoc ev evs)
  show "FailureCount (auto_run shard config (evs @ [ev])) = int (failed_checks (rev (evs @ [ev])))"
    using snoc(1) by (cases ev) (simp_all add: auto_run_snoc next_auto_fields record_result_def Let_def)
  show "HasLastReachableActive (auto_run shard config (evs @ [ev])) \<longleftrightarrow> last_reachable (rev (evs @ [ev])) \<noteq> None"
    using snoc(2) by (cases ev) (simp_all add: auto_run_snoc next_auto_fields record_result_def Let_def)
  show "last_reachable (rev (evs @ [ev])) = Some h \<Longrightarrow>
      LastReachableActive (auto_run shard config (evs @ [ev])) = hs_Status (sh_Active h)"
    using snoc(3) by (cases ev) (auto simp: auto_run_snoc next_auto_fields record_result_def Let_def split: if_splits)
  show "LastPromotionAt (auto_run shard config (evs @ [ev])) = (case last_promotion (rev (evs @ [ev])) of None \<Rightarrow> zero_time | Some t \<Rightarrow> t)"
    using snoc(4) by (cases ev) (simp_all add: auto_run_snoc next_auto_fields record_result_def Let_def)
qed

lemma next_auto_eligible:
  assumes "Eligible (next_auto_state shard config now h st)"
  shows "\<not> Reachable (sh_Active h)" "FailureThreshold config \<le> FailureCount st + 1" "HasLastReachableActive st"
    "Standby shard \<noteq> None" "standby_ready (sh_Standby h)" "committedCount (sr_Diagnostics (LastReachableActive st)) \<le> committed (sh_Standby h)"
    "IsZero (LastPromotionAt st) \<or> Cooldown config \<le> now - LastPromotionAt st"
proof -
  show nr: "\<not> Reachable (sh_Active h)" using assms by (auto simp: next_auto_state_def)
  let ?st = "st\<lparr>FailureCount := FailureCount st + 1\<rparr>"
  obtain a b e where r: "autoPromotionReadiness (coordinatorShardStatusFromHealth shard h) ?st = (a, b, e)" by (rule prod_cases3)
  have e: "e" using assms nr r by (auto simp: next_auto_state_def Let_def split: if_splits)
  show "FailureThreshold config \<le> FailureCount st + 1" "IsZero (LastPromotionAt st) \<or> Cooldown config \<le> now - LastPromotionAt st"
    using assms nr r by (auto simp: next_auto_state_def Let_def split: if_splits)
  show "HasLastReachableActive st" "Standby shard \<noteq> None" "standby_ready (sh_Standby h)"
    "committedCount (sr_Diagnostics (LastReachableActive st)) \<le> committed (sh_Standby h)"
    using r e standby_refusal_iff [of shard h]
    by (auto simp: autoPromotionReadiness_def committed_def Let_def split: if_splits option.splits)
qed

text \<open>C26: When a shard may be promoted automatically. After any sequence of checks, promotions and lost leases,
  a check makes the shard eligible only if the configured number of checks in a row, up to this one
  and with no promotion in between, found the active pair unreachable; the active pair had answered
  at some earlier check; the standby is ready and has committed at least what the active pair reported
  then; and the cooldown since the last automatic promotion is over.\<close>

theorem auto_promotion_needs_failures:
  assumes "Eligible (auto_run shard config (evs @ [Checked now h]))"
  shows "\<not> Reachable (sh_Active h) \<and> FailureThreshold config \<le> int (failed_checks (rev (evs @ [Checked now h]))) \<and>
     Standby shard \<noteq> None \<and> standby_ready (sh_Standby h) \<and>
     (\<exists>g. last_reachable (rev evs) = Some g \<and> committed (sh_Active g) \<le> committed (sh_Standby h)) \<and>
     (\<forall>t. last_promotion (rev evs) = Some t \<longrightarrow> IsZero t \<or> Cooldown config \<le> now - t)"
proof -
  have "Eligible (next_auto_state shard config now h (auto_run shard config evs))"
    using assms by (simp add: auto_run_snoc)
  note e = next_auto_eligible [OF this]
  obtain g where g: "last_reachable (rev evs) = Some g" using e(3) by (auto simp: auto_run_fields(2))
  have "committed (sh_Active g) \<le> committed (sh_Standby h)"
    using e(6) auto_run_fields(3) [OF g, of shard config] by (simp add: committed_def)
  then show ?thesis using e g auto_run_fields(1,4) [of shard config evs] by (auto split: option.splits)
qed

definition sick :: shardHealthSnapshot where
  "sick = \<lparr>sh_Active = zero_pair_health, sh_Standby = zero_pair_health\<lparr>Reachable := True,
     hs_Status := zero_status\<lparr>sr_ReplicaID := CompletedUploadReplicaStandby\<rparr>\<rparr>\<rparr>"

theorem auto_promotion_needs_failures_witness:
  "\<exists>g. last_reachable (rev [Checked 1 (sick\<lparr>sh_Active := zero_pair_health\<lparr>Reachable := True\<rparr>\<rparr>), Checked 2 sick, Checked 3 sick])
     = Some g \<and> committed (sh_Active g) \<le> committed (sh_Standby sick)"
proof -
  let ?evs = "[Checked 1 (sick\<lparr>sh_Active := zero_pair_health\<lparr>Reachable := True\<rparr>\<rparr>), Checked 2 sick, Checked 3 sick]"
  have "Eligible (auto_run (sample_inventory ! 0) (defaultAutoPromotionConfig\<lparr>Enabled := True\<rparr>) (?evs @ [Checked 4 sick]))"
    by (simp add: auto_run_def next_auto_state_def sick_def zero_pair_health_def zero_auto_state_def zero_status_def
        zero_diagnostics_def autoPromotionReadiness_def standby_refusal_def standbyStatusHasIngestionErrors_def
        sample_inventory_def defaultAutoPromotionConfig_def defaultAutoPromotionFailureThreshold_def IsZero_def Let_def)
  from auto_promotion_needs_failures [OF this] show ?thesis by blast
qed

lemma put_auto_simps [simp]:
  "co_clients (put_auto_state k st c) = co_clients c" "co_health (put_auto_state k st c) = co_health c"
  "health_of (put_auto_state k st c) = health_of c"
  "auto_state (put_auto_state k st c) j = (if j = k then st else auto_state c j)"
  by (simp_all add: put_auto_state_def health_of_def auto_state_def fun_eq_iff)

lemma auto_promote_outcome:
  assumes "auto_promote mem_control_ops R cfg now w ss (c, s) = (c', s')" "distinct (map sc_ID ss)"
    and "GetShardConfig s = Some config"
  shows "s' = s \<and> co_clients c' = co_clients c \<or>
    (\<exists>shard \<in> set ss. \<exists>i pair. Eligible (next_auto_state shard cfg now (health_of c (sc_ID shard)) (auto_state c (sc_ID shard))) \<and>
       shard_index (sc_ID shard) (Shards config) = Some i \<and> Standby (Shards config ! i) = Some pair \<and>
       GetShardConfig s' = Some (config\<lparr>cfg_Version := wrap64 (cfg_Version config + 1),
         Shards := (Shards config)[i := swap_pairs (Shards config ! i) pair]\<rparr>) \<and>
       co_clients c' = (co_clients c)(sc_ID shard \<mapsto> LeaderAddr pair))"
  using assms(1,2)
proof (induction ss arbitrary: c)
  case (Cons shard ss)
  let ?st = "next_auto_state shard cfg now (health_of c (sc_ID shard)) (auto_state c (sc_ID shard))"
  let ?c = "put_auto_state (sc_ID shard) ?st c"
  show ?case
  proof (cases "Eligible ?st")
    case False
    then have "auto_promote mem_control_ops R cfg now w ss (?c, s) = (c', s')"
      using Cons.prems(1) by (simp add: evaluateAutoPromotionShard_def Let_def)
    moreover have d: "sc_ID x \<noteq> sc_ID shard" if "x \<in> set ss" for x
      using Cons.prems(2) that by (metis distinct.simps(2) image_eqI list.set_map list.simps(9))
    ultimately show ?thesis using Cons.IH [of ?c] Cons.prems(2)
    proof (elim meta_impE disjE bexE)
      fix x
      assume x: "x \<in> set ss" "\<exists>i pair. Eligible (next_auto_state x cfg now (health_of ?c (sc_ID x)) (auto_state ?c (sc_ID x))) \<and>
         shard_index (sc_ID x) (Shards config) = Some i \<and> Standby (Shards config ! i) = Some pair \<and>
         GetShardConfig s' = Some (config\<lparr>cfg_Version := wrap64 (cfg_Version config + 1),
           Shards := (Shards config)[i := swap_pairs (Shards config ! i) pair]\<rparr>) \<and>
         co_clients c' = (co_clients ?c)(sc_ID x \<mapsto> LeaderAddr pair)"
      show ?thesis using x d [OF x(1)] by (intro disjI2 bexI [of _ x]) (simp_all del: fun_upd_apply)
    qed simp_all
  next
    case True
    show ?thesis
    proof (cases "autoPromotionEvaluation mem_control_ops (sc_ID shard) s")
      case (Inl e)
      then have "s' = s \<and> co_clients c' = co_clients c" using Cons.prems(1) True
        by (auto simp: evaluateAutoPromotionShard_def recordAutoPromotionResult_def Let_def)
      then show ?thesis ..
    next
      case (Inr ev)
      obtain i where i: "shard_index (sc_ID shard) (Shards config) = Some i"
        "promotedShardEvaluation config i autoPromotionStatusPromoted ''automatic promotion after consecutive active health failures'' = Inr ev"
        using Inr assms(3) by (auto simp: autoPromotionEvaluation_def activeShardConfig_def split: sum.splits option.splits)
      obtain q c1 s1 where ap: "applyShardStandbyPromotion mem_control_ops R ev w (?c, s) = (q, c1, s1)" by (rule prod_cases3)
      show ?thesis
      proof (cases q)
        case (Inl e)
        then have "s1 = s \<and> c1 = ?c" using ap
          by (auto simp: applyShardStandbyPromotion_def PutShardConfig_def Let_def split: sum.splits prod.splits if_splits)
        then have "s' = s \<and> co_clients c' = co_clients c" using Cons.prems(1) True Inr ap Inl
          by (auto simp: evaluateAutoPromotionShard_def recordAutoPromotionResult_def Let_def)
        then show ?thesis ..
      next
        case ok: (Inr u)
        have run: "s' = s1" "co_clients c' = co_clients c1"
          using Cons.prems(1) True Inr ap ok by (auto simp: evaluateAutoPromotionShard_def recordAutoPromotionResult_def Let_def)
        show ?thesis
        proof (cases "pe_allowed ev")
          case allowed: True
          from apply_promotion_ok [OF i(2) allowed ap [unfolded ok]] obtain pair
            where pair: "Standby (Shards config ! i) = Some pair"
              "co_clients c1 = (co_clients ?c)(sc_ID (Shards config ! i) \<mapsto> LeaderAddr pair)"
              "GetShardConfig s1 = Some (config\<lparr>cfg_Version := wrap64 (cfg_Version config + 1),
                 Shards := (Shards config)[i := swap_pairs (Shards config ! i) pair]\<rparr>)"
            by (elim exE conjE) (simp add: GetShardConfig_def)
          show ?thesis
            using run True i(1) shard_index_Some [OF i(1)] pair
            by (intro disjI2 bexI [of _ shard] exI [of _ i] exI [of _ pair]) (simp_all del: fun_upd_apply)
        next
          case False
          then have "pe_proposed ev = zero_config"
            using i(2) by (auto simp: promotedShardEvaluation_def refused_promotion_def Let_def split: if_splits option.splits sum.splits)
          then show ?thesis using ap ok
            by (auto simp: applyShardStandbyPromotion_def PutShardConfig_def store_validateShardConfigRecord_def
                config_header_check_def zero_config_def Let_def split: sum.splits prod.splits if_splits)
        qed
      qed
    qed
  qed
qed simp

lemma valid_distinct_ids: "validateShardConfigRecord config = Inr () \<Longrightarrow> distinct (map sc_ID (Shards config))"
  by (metis mset_eq_imp_distinct_iff mset_map mset_sort_shards shards_tile_def validate_record_iff)

lemma refresh_frame [simp]:
  "co_clients (refreshShardHealth S R t now s w c) = co_clients c" "auto_state (refreshShardHealth S R t now s w c) = auto_state c"
  by (simp_all add: refreshShardHealth_def auto_state_def fun_eq_iff Let_def)

text \<open>A coordinator with automatic promotion enabled that does not hold the lease.\<close>

definition second_holder :: Coordinator where
  "second_holder = (sample_coordinator ''b'')\<lparr>autoPromotion := defaultAutoPromotionConfig\<lparr>Enabled := True\<rparr>\<rparr>"

text \<open>What one automatic check does. If it changes the stored topology, then the lease was held, one
  shard was eligible by the rules above from the health seen in this check, and the change is the swap
  of that shard's pairs in the next version, with the coordinator's client following. In every other
  case the topology and the clients are as before. So one check promotes at most one shard.\<close>

theorem auto_check_outcome:
  assumes "runAutoPromotionCheck mem_control_ops R clk w (c, s) = (c', s')"
  shows "GetShardConfig s' = GetShardConfig s \<and> co_clients c' = co_clients c \<or>
    (\<exists>config shard i pair. Enabled (autoPromotion c) \<and> (\<exists>v d z. requireCoordinatorLease mem_control_ops (clk 0) (c, s) = (Inr v, d, z)) \<and>
       GetShardConfig s = Some config \<and> i < length (Shards config) \<and> Shards config ! i = shard \<and> Standby shard = Some pair \<and>
       Eligible (next_auto_state shard (autoPromotion c) (clk 2)
         \<lparr>sh_Active = active_health R defaultShardStatusTimeout (clk 1) (co_clients c) w shard,
          sh_Standby = standby_health R defaultShardStatusTimeout (clk 1) w shard\<rparr> (auto_state c (sc_ID shard))) \<and>
       GetShardConfig s' = Some (config\<lparr>cfg_Version := wrap64 (cfg_Version config + 1),
         Shards := (Shards config)[i := swap_pairs shard pair]\<rparr>) \<and>
       co_clients c' = (co_clients c)(sc_ID shard \<mapsto> LeaderAddr pair))"
proof (cases "Enabled (autoPromotion c)")
  case en: True
  obtain r c1 s1 where l: "requireCoordinatorLease mem_control_ops (clk 0) (c, s) = (r, c1, s1)" by (rule prod_cases3)
  obtain L where s1: "s1 = s\<lparr>mc_lease := L\<rparr>" using l by (rule mem_require_store)
  obtain M y where c1: "c1 = c\<lparr>co_lease := M, co_role := y\<rparr>" using l by (rule require_frame)
  have clients: "co_clients (foldl (\<lambda>c shard. put_auto_state (f shard) (g c shard) c) d ss) = co_clients d"
    for f :: "ShardConfig \<Rightarrow> int" and g d ss by (induction ss arbitrary: d) auto
  have st: "auto_state c1 = auto_state c" by (simp add: c1 auto_state_def fun_eq_iff)
  show ?thesis
  proof (cases r)
    case (Inl e)
    then show ?thesis using assms en l
      by (auto simp: runAutoPromotionCheck_def recordAutoPromotionNotAuthoritative_def clients s1 c1 Let_def)
  next
    case (Inr v)
    let ?c2 = "refreshShardHealth mem_control_ops R defaultShardStatusTimeout (clk 1) s1 w c1"
    show ?thesis
    proof (cases "activeShardConfig mem_control_ops s1")
      case no: (Inl e)
      then show ?thesis using assms en l Inr by (auto simp: runAutoPromotionCheck_def s1 c1 Let_def)
    next
      case cfg: (Inr config)
      have ok: "GetShardConfig s1 = Some config" "validateShardConfigRecord config = Inr ()"
        using cfg by (auto simp: activeShardConfig_def split: option.splits sum.splits)
      have run: "auto_promote mem_control_ops R (autoPromotion c) (clk 2) w (Shards config) (?c2, s1) = (c', s')"
        using assms en l Inr cfg by (simp add: runAutoPromotionCheck_def Let_def)
      from auto_promote_outcome [OF run valid_distinct_ids [OF ok(2)] ok(1)] show ?thesis
      proof (elim disjE bexE exE conjE)
        fix shard i pair
        assume m: "shard \<in> set (Shards config)" "shard_index (sc_ID shard) (Shards config) = Some i"
          and e: "Eligible (next_auto_state shard (autoPromotion c) (clk 2) (health_of ?c2 (sc_ID shard)) (auto_state ?c2 (sc_ID shard)))"
          and res: "Standby (Shards config ! i) = Some pair" "GetShardConfig s' = Some (config\<lparr>cfg_Version := wrap64 (cfg_Version config + 1),
            Shards := (Shards config)[i := swap_pairs (Shards config ! i) pair]\<rparr>)"
            "co_clients c' = (co_clients ?c2)(sc_ID shard \<mapsto> LeaderAddr pair)"
        have i: "i < length (Shards config)" "Shards config ! i = shard"
          using shard_index_Some [OF m(2)] m(1) valid_distinct_ids [OF ok(2)]
          by (auto simp: distinct_map inj_on_def)
        show ?thesis
          using en l Inr ok i e res refresh_health [OF ok m(1), of R defaultShardStatusTimeout "clk 1" w c1] st
          by (intro disjI2 exI [of _ config] exI [of _ shard] exI [of _ i] exI [of _ pair]) (simp add: s1 c1 del: fun_upd_apply)
      qed (simp add: s1 c1)
    qed
  qed
qed (use assms in \<open>simp add: runAutoPromotionCheck_def Let_def\<close>)

theorem auto_check_outcome_witness:
  "case runAutoPromotionCheck mem_control_ops failed_shards (\<lambda>_. 4) 0 (second_holder, ready_store) of
     (c', s') \<Rightarrow> GetShardConfig s' = GetShardConfig ready_store \<and> co_clients c' = co_clients second_holder"
proof -
  obtain c' s' where run: "runAutoPromotionCheck mem_control_ops failed_shards (\<lambda>_. 4) 0 (second_holder, ready_store) = (c', s')"
    by fastforce
  have "fst (requireCoordinatorLease mem_control_ops 4 (second_holder, ready_store)) = Inl (Wrapped ''coordinator lease unavailable: '' errStaleFence [])"
    by (simp add: requireCoordinatorLease_def renewCoordinatorLease_def RenewLease_def ready_store_def leased_store_def
        AcquireLease_def NewMemoryControlStore_def Before_def second_holder_def Let_def)
  with auto_check_outcome [OF run] run show ?thesis by auto
qed

lemma built_from_inventory:
  assumes "buildShardConfigFromInventory inventory n v = Inr new" "shard \<in> set (Shards new)"
  shows "\<exists>inv \<in> set inventory. sc_ID inv = sc_ID shard \<and> Active shard = Active inv \<and> Standby shard = Standby inv"
proof -
  have "n \<le> int (length inventory)" "Shards new = sort_shards (placed inventory (nat n))"
    using assms(1) by (auto simp: buildShardConfigFromInventory_def shardConfigRecordFromShards_def validateShardMap_iff Let_def
        split: if_splits sum.splits)
  with assms(2) obtain i where i: "i < nat n" "shard = place_shard i (sort_key sc_ID inventory ! i)" "nat n \<le> length inventory"
    by auto
  then have "sort_key sc_ID inventory ! i \<in> set inventory" by (metis length_sort nth_mem order_less_le_trans set_sort)
  then show ?thesis using i(2) by (intro bexI) (simp_all add: place_shard_def)
qed

text \<open>Scaling undoes promotions. The topology that a successful \<^verbatim>\<open>ApplyScalingRecommendation\<close> writes has
  the pairs of the coordinator's configured inventory, whatever the stored topology had: a shard whose
  standby was promoted gets the old active pair back. The coordinator's client of such a shard is not
  replaced, so it still points at the promoted leader that the topology now calls the standby.\<close>

theorem scaling_apply_undoes_promotions:
  assumes "validEpochCycleState (cycle_state s)"
    and "ApplyScalingRecommendation mem_control_ops R clk False w (c, s) = (Inr reply, c', s')"
  shows "\<exists>new. GetShardConfig s' = Some new \<and>
     (\<forall>shard \<in> set (Shards new). \<exists>inv \<in> set (availableShards c). sc_ID inv = sc_ID shard \<and> Active shard = Active inv \<and>
        Standby shard = Standby inv) \<and> co_clients c \<subseteq>\<^sub>m co_clients c'"
  using apply_cases [OF assms]
proof (elim disjE exE conjE)
  fix v c1 L ev cyc
  let ?s = "s\<lparr>mc_lease := L, mc_epochCycle := cyc, hasEpochCycle := True\<rparr>"
  assume lease: "requireCoordinatorLease mem_control_ops (clk 0) (c, s) = (Inr v, c1, s\<lparr>mc_lease := L\<rparr>)"
    and ev: "evaluateScalingApply mem_control_ops (availableShards c) (s\<lparr>mc_lease := L\<rparr>) = Inr ev"
      "requireScalingApplyApplicable ev = Inr ()"
    and run: "cycle_state ?s = EpochCycleStateScalingInProgress"
      "apply_proposed mem_control_ops R clk w ev (c1, ?s) = (Inr reply, c', s')"
  obtain M y where c1: "c1 = c\<lparr>co_lease := M, co_role := y\<rparr>" using lease by (rule require_frame)
  have "co_clients c \<subseteq>\<^sub>m co_clients c'" using apply_proposed_cases(2) [OF run] by (auto simp: c1)
  moreover have "GetShardConfig s' = Some (ev_proposed ev)"
    using apply_proposed_cases(1) [OF run] by (auto simp: GetShardConfig_def)
  ultimately show ?thesis using built_from_inventory [OF evaluate_applicable(4) [OF ev]] by blast
qed auto

theorem scaling_apply_undoes_promotions_witness:
  "\<exists>(c' :: Coordinator) s' new. GetShardConfig s' = Some new \<and> (\<forall>shard \<in> set (Shards new). \<exists>inv \<in> set (availableShards (sample_coordinator ''a'')).
     sc_ID inv = sc_ID shard \<and> Active shard = Active inv) \<and> co_clients (sample_coordinator ''a'') \<subseteq>\<^sub>m co_clients c'"
proof -
  obtain reply c' s' where run: "ApplyScalingRecommendation mem_control_ops echo_shards (\<lambda>_. 4) False 0
      (sample_coordinator ''a'', shrink_store) = (Inr reply, c', s')" using shrink_applies by blast
  have "validEpochCycleState (cycle_state shrink_store)"
    by (simp add: shrink_store_def cycle_state_def validEpochCycleState_def)
  from scaling_apply_undoes_promotions [OF this run] obtain new where "GetShardConfig s' = Some new"
    "\<forall>shard \<in> set (Shards new). \<exists>inv \<in> set (availableShards (sample_coordinator ''a'')).
       sc_ID inv = sc_ID shard \<and> Active shard = Active inv"
    "co_clients (sample_coordinator ''a'') \<subseteq>\<^sub>m co_clients c'" by blast
  then show ?thesis by blast
qed

end
