(* ===== verification/Coordinator_Config.thy ===== *)
theory Coordinator_Config
  imports Shard_Promotion
begin

text \<open>
  The command line of a coordinator (\<^verbatim>\<open>src/coordinator/main.go\<close>, and the parsers of
  \<^verbatim>\<open>src/coordinator/coordinator.go\<close>): shard specifications of the form
  \<^verbatim>\<open>id,start,end,leader,follower[,leader|follower]\<close>, the flags of an administrative call, and the start of a
  coordinator process from its flags.

  Strings are the bytes of the flag; the white space is that of ASCII. \<open>Sscanf_d\<close> is \<^verbatim>\<open>fmt.Sscanf\<close> with
  the format \<^verbatim>\<open>"%d"\<close>: blanks (a line feed is an error), a sign, digits, a value that fits 64 bits; what
  follows the digits is not looked at.

  Shown here: printing and parsing shard specifications are inverse to each other on the shards that the
  parser can return; integers may be followed by anything; an administrative command line is accepted
  exactly when it names one command and what that command needs.
\<close>

section \<open>Strings\<close>

definition ascii_space :: "char \<Rightarrow> bool" where
  "ascii_space c \<longleftrightarrow> of_char c \<in> {9, 10, 11, 12, 13, 32::nat}"

definition TrimSpace :: "string \<Rightarrow> string" where
  "TrimSpace s = rev (dropWhile ascii_space (rev (dropWhile ascii_space s)))"

fun SplitN :: "char \<Rightarrow> nat \<Rightarrow> string \<Rightarrow> string list" where
  "SplitN c 0 s = []"
| "SplitN c (Suc 0) s = [s]"
| "SplitN c (Suc (Suc n)) s =
     (case dropWhile (\<lambda>x. x \<noteq> c) s of
        [] \<Rightarrow> [s]
      | _ # post \<Rightarrow> takeWhile (\<lambda>x. x \<noteq> c) s # SplitN c (Suc n) post)"

definition is_digit :: "char \<Rightarrow> bool" where
  "is_digit c \<longleftrightarrow> 48 \<le> (of_char c :: nat) \<and> of_char c \<le> (57::nat)"

fun SkipSpace :: "string \<Rightarrow> string option" where
  "SkipSpace [] = Some []"
| "SkipSpace (c # s) =
     (if of_char c = (10::nat) then None else if ascii_space c then SkipSpace s else Some (c # s))"

definition Sscanf_d :: "string \<Rightarrow> int option" where
  "Sscanf_d raw =
     (case SkipSpace raw of
        None \<Rightarrow> None
      | Some s \<Rightarrow>
          let (neg, s) = (case s of c # s' \<Rightarrow> if c = CHR ''-'' then (True, s') else if c = CHR ''+'' then (False, s') else (False, s)
                          | [] \<Rightarrow> (False, s));
              digits = takeWhile is_digit s;
              value = (if neg then - int (read_nat digits) else int (read_nat digits))
          in if digits = [] \<or> \<not> in_int64 value then None else Some value)"

section \<open>Shard specifications\<close>

definition parsePositiveInt :: "string \<Rightarrow> bool \<Rightarrow> int res" where
  "parsePositiveInt raw allowZero =
     (case Sscanf_d raw of
        None \<Rightarrow> Inl (ErrorString (''invalid integer '' @ quoted raw))
      | Some value \<Rightarrow>
          if value < 0 \<or> \<not> allowZero \<and> value = 0
          then Inl (ErrorString (''invalid non-negative integer '' @ quoted raw))
          else Inr value)"

definition parsePairConfig :: "string \<Rightarrow> string \<Rightarrow> PairConfig res" where
  "parsePairConfig leaderAddr followerAddr =
     (let leaderAddr = TrimSpace leaderAddr; followerAddr = TrimSpace followerAddr in
      if leaderAddr = '''' \<or> followerAddr = ''''
      then Inl (ErrorString ''must specify both leader and follower addresses'')
      else Inr \<lparr>LeaderAddr = leaderAddr, FollowerAddr = followerAddr\<rparr>)"

definition parseOptionalPairConfig :: "string \<Rightarrow> PairConfig option res" where
  "parseOptionalPairConfig value =
     (let value = TrimSpace value in
      if value = '''' \<or> value = ''-'' then Inr None
      else case SplitN (CHR ''|'') 2 value of
        [a, b] \<Rightarrow> map_sum (\<lambda>e. e) Some (parsePairConfig a b)
      | _ \<Rightarrow> Inl (ErrorString (''invalid pair '' @ quoted value)))"

definition parse_fields :: "string \<Rightarrow> string \<Rightarrow> string \<Rightarrow> string \<Rightarrow> string \<Rightarrow> string option \<Rightarrow> ShardConfig res" where
  "parse_fields p0 p1 p2 p3 p4 p5 =
     (case parsePositiveInt p0 True of
        Inl err \<Rightarrow> Inl err
      | Inr i \<Rightarrow>
      case parsePositiveInt p1 True of
        Inl err \<Rightarrow> Inl err
      | Inr start \<Rightarrow>
      case parsePositiveInt p2 False of
        Inl err \<Rightarrow> Inl err
      | Inr stop \<Rightarrow>
      case parsePairConfig p3 p4 of
        Inl err \<Rightarrow> Inl (Wrapped (''shard '' @ show_int i @ '' active pair: '') err '''')
      | Inr active \<Rightarrow>
      case (case p5 of None \<Rightarrow> Inr None | Some v \<Rightarrow> parseOptionalPairConfig v) of
        Inl err \<Rightarrow> Inl (Wrapped (''shard '' @ show_int i @ '' standby pair: '') err '''')
      | Inr standby \<Rightarrow>
          Inr \<lparr>sc_ID = i, StartRow = start, EndRow = stop, Active = active, Standby = standby\<rparr>)"

definition parseShardConfig :: "string \<Rightarrow> ShardConfig res" where
  "parseShardConfig value =
     (case SplitN (CHR '','') 6 value of
        [p0, p1, p2, p3, p4] \<Rightarrow> parse_fields p0 p1 p2 p3 p4 None
      | [p0, p1, p2, p3, p4, p5] \<Rightarrow> parse_fields p0 p1 p2 p3 p4 (Some p5)
      | _ \<Rightarrow> Inl (ErrorString (''invalid shard config '' @ quoted value)))"

section \<open>Administrative calls\<close>

definition adminCommandRequested :: "int \<Rightarrow> bool \<Rightarrow> bool \<Rightarrow> bool \<Rightarrow> bool \<Rightarrow> bool \<Rightarrow> bool \<Rightarrow> bool" where
  "adminCommandRequested startEpochSeconds epochStatus status applyScaling dryRunScaling skipScaling promoteShard \<longleftrightarrow>
     startEpochSeconds > 0 \<or> epochStatus \<or> status \<or> applyScaling \<or> dryRunScaling \<or> skipScaling \<or> promoteShard"

definition validateAdminFlags ::
  "int \<Rightarrow> bool \<Rightarrow> bool \<Rightarrow> bool \<Rightarrow> bool \<Rightarrow> bool \<Rightarrow> bool \<Rightarrow> int \<Rightarrow> string \<Rightarrow> unit res" where
  "validateAdminFlags startEpochSeconds epochStatus status applyScaling dryRunScaling skipScaling promoteShard promoteShardID adminTarget =
     (if \<not> adminCommandRequested startEpochSeconds epochStatus status applyScaling dryRunScaling skipScaling promoteShard then Inr ()
      else if adminTarget = '''' then Inl (ErrorString ''Must specify -admin-target for admin RPC commands'')
      else let adminCommands = length (filter (\<lambda>enabled. enabled)
             [startEpochSeconds > 0, epochStatus, status, applyScaling, dryRunScaling, skipScaling, promoteShard])
           in if adminCommands > 1 then Inl (ErrorString ''must specify only one admin command'')
              else if promoteShard \<and> promoteShardID < 0
              then Inl (ErrorString ''must specify -promote-shard-id with -promote-shard-standby'')
              else Inr ())"

section \<open>Starting a coordinator\<close>

text \<open>The flags of a coordinator process; the stores and the shards are given. A process that ends with
  \<^verbatim>\<open>log.Fatal\<close> is \<open>None\<close>; the lease it may have acquired stays in the store.\<close>

record coordinator_flags =
  flagListen :: string
  shardFlags :: "string list"
  flagCoordinatorID :: string
  flagLeaseTTLSeconds :: int
  flagLeaseRenewSeconds :: int
  flagStandby :: bool
  flagScaling :: ScalingPolicyConfig
  flagInitialActiveShards :: int
  flagAutoPromoteShardStandby :: bool
  flagAutoPromoteCheckSeconds :: int
  flagAutoPromoteFailureThreshold :: int
  flagAutoPromoteCooldownSeconds :: int

definition configuredCoordinatorID :: "string \<Rightarrow> coordinator_flags \<Rightarrow> string" where
  "configuredCoordinatorID defaultID F = (if flagCoordinatorID F \<noteq> '''' then flagCoordinatorID F else defaultID)"

fun parse_shards :: "string list \<Rightarrow> ShardConfig list res" where
  "parse_shards [] = Inr []"
| "parse_shards (raw # rest) =
     (case parseShardConfig raw of
        Inl err \<Rightarrow> Inl err
      | Inr shard \<Rightarrow> map_sum (\<lambda>e. e) (\<lambda>shards. shard # shards) (parse_shards rest))"

definition coordinator_main ::
  "'s control_ops \<Rightarrow> 'w shard_ops \<Rightarrow> gotime \<Rightarrow> string \<Rightarrow> coordinator_flags \<Rightarrow> 'w \<Rightarrow> 's \<Rightarrow> Coordinator option \<times> 's" where
  "coordinator_main S R now defaultID F w s =
     (if flagListen F = '''' \<or> shardFlags F = [] then (None, s)
      else case parse_shards (shardFlags F) of
        Inl _ \<Rightarrow> (None, s)
      | Inr shards \<Rightarrow>
      case newCoordinator S now shards Map.empty (configuredCoordinatorID defaultID F)
             (wrap64 (flagLeaseTTLSeconds F * second)) (wrap64 (flagLeaseRenewSeconds F * second)) (flagStandby F)
             (flagScaling F) (flagInitialActiveShards F) s of
        (Inl _, s) \<Rightarrow> (None, s)
      | (Inr c, s) \<Rightarrow>
      case connectShards S R w (c, s) of
        (Inl _, _) \<Rightarrow> (None, s)
      | (Inr _, c) \<Rightarrow>
      case configureAutoPromotion
             \<lparr>Enabled = flagAutoPromoteShardStandby F, CheckInterval = wrap64 (flagAutoPromoteCheckSeconds F * second),
              FailureThreshold = flagAutoPromoteFailureThreshold F,
              Cooldown = wrap64 (flagAutoPromoteCooldownSeconds F * second)\<rparr> c of
        (Inl _, _) \<Rightarrow> (None, s)
      | (Inr _, c) \<Rightarrow> (Some c, s))"

section \<open>Splitting, trimming and scanning\<close>

lemma SplitN_single: "c \<notin> set s \<Longrightarrow> SplitN c (Suc n) s = [s]"
proof -
  assume "c \<notin> set s"
  then have "dropWhile (\<lambda>x. x \<noteq> c) s = []" by auto
  then show ?thesis by (cases n) (simp_all del: dropWhile_eq_Nil_conv)
qed

lemma SplitN_cut: "c \<notin> set a \<Longrightarrow> SplitN c (Suc (Suc n)) (a @ c # b) = a # SplitN c (Suc n) b"
proof -
  assume "c \<notin> set a"
  then have "takeWhile (\<lambda>x. x \<noteq> c) (a @ c # b) = a" "dropWhile (\<lambda>x. x \<noteq> c) (a @ c # b) = c # b"
    by (induction a) auto
  then show ?thesis by simp
qed

lemma SplitN_Nil: "SplitN c (Suc n) s \<noteq> []"
  by (cases n) (auto split: list.splits)

text \<open>No part but a last one that was not split contains the separator.\<close>

lemma SplitN_parts:
  "(\<forall>p \<in> set (butlast (SplitN c n s)). c \<notin> set p) \<and> (length (SplitN c n s) < n \<longrightarrow> (\<forall>p \<in> set (SplitN c n s). c \<notin> set p))"
proof (induction c n s rule: SplitN.induct)
  case (3 c n s)
  have pre: "c \<notin> set (takeWhile (\<lambda>x. x \<noteq> c) s)" by (auto dest: set_takeWhileD)
  show ?case
  proof (cases "dropWhile (\<lambda>x. x \<noteq> c) s")
    case Nil
    then have "c \<notin> set s" by auto
    then show ?thesis using SplitN_single [of c s "Suc n"] by simp
  next
    case (Cons d post)
    then show ?thesis using 3 [OF Cons] pre SplitN_Nil [of c n post] by auto
  qed
qed simp_all

lemma trimmed_iff: "s \<noteq> [] \<Longrightarrow> TrimSpace s = s \<longleftrightarrow> \<not> ascii_space (hd s) \<and> \<not> ascii_space (last s)"
proof -
  assume "s \<noteq> []"
  then obtain c t where s: "s = c # t" by (cases s) auto
  show ?thesis
  proof (cases "ascii_space c")
    case True
    have "length (TrimSpace s) \<le> length t"
      using length_dropWhile_le [of ascii_space "rev (dropWhile ascii_space t)"] length_dropWhile_le [of ascii_space t] True
      by (simp add: TrimSpace_def s)
    then show ?thesis using True s by auto
  next
    case False
    have "TrimSpace s = s \<longleftrightarrow> dropWhile ascii_space (rev s) = rev s"
      using False by (simp add: TrimSpace_def s rev_swap)
    also have "\<dots> \<longleftrightarrow> \<not> ascii_space (hd (rev s))"
      using s dropWhile_eq_self_iff [of ascii_space "rev s"] by simp
    finally show ?thesis using False s by (simp add: hd_rev)
  qed
qed

lemma trim_idem [simp]: "TrimSpace (TrimSpace s) = TrimSpace s"
proof (cases "TrimSpace s = []")
  case False
  let ?t = "dropWhile ascii_space s"
  have l: "\<not> ascii_space (last (TrimSpace s))"
    using False hd_dropWhile [of ascii_space "rev ?t"] by (simp add: TrimSpace_def last_rev)
  have "?t \<noteq> []" using False by (metis TrimSpace_def dropWhile.simps(1) rev.simps(1))
  then have "\<not> ascii_space (hd ?t)" by (rule hd_dropWhile)
  moreover obtain u where "?t = TrimSpace s @ u"
    using takeWhile_dropWhile_id [of ascii_space "rev ?t"] unfolding TrimSpace_def by (metis rev_append rev_rev_ident)
  then have "hd ?t = hd (TrimSpace s)" using False by (metis hd_append)
  ultimately show ?thesis using trimmed_iff [OF False] l by simp
next
  case True
  have "TrimSpace [] = []" by (simp add: TrimSpace_def)
  then show ?thesis by (simp only: True)
qed

lemma set_trim: "set (TrimSpace s) \<subseteq> set s"
proof
  fix x assume "x \<in> set (TrimSpace s)"
  then have "x \<in> set (dropWhile ascii_space (rev (dropWhile ascii_space s)))" by (simp only: TrimSpace_def set_rev)
  then have "x \<in> set (rev (dropWhile ascii_space s))" by (rule set_dropWhileD)
  then have "x \<in> set (dropWhile ascii_space s)" by (simp only: set_rev)
  then show "x \<in> set s" by (rule set_dropWhileD)
qed

lemma digit_facts:
  assumes "is_digit c"
  shows "\<not> ascii_space c" "c \<noteq> CHR ''-''" "c \<noteq> CHR ''+''" "c \<noteq> CHR '',''" "of_char c \<noteq> (10::nat)"
  using assms by (auto simp: is_digit_def ascii_space_def)

lemma digit_char_is_digit: "d < 10 \<Longrightarrow> is_digit (digit_char d)"
  by (simp add: is_digit_def of_char_digit)

lemma show_nat_digits: "\<forall>c \<in> set (show_nat n). is_digit c" "show_nat n \<noteq> []"
  using set_show_nat digit_char_is_digit by (blast, simp add: show_nat.simps)

lemma scan_show:
  assumes "0 \<le> n" "n \<le> max_int64" "rest = [] \<or> \<not> is_digit (hd rest)"
  shows "Sscanf_d (show_int n @ rest) = Some n"
proof -
  have s: "show_int n = show_nat (nat n)" using assms(1) by (simp add: show_int_def)
  obtain c t where ct: "show_nat (nat n) = c # t" using show_nat_digits(2) by (cases "show_nat (nat n)") auto
  then have c: "is_digit c" using show_nat_digits(1) [of "nat n"] by simp
  have "SkipSpace (show_nat (nat n) @ rest) = Some (show_nat (nat n) @ rest)"
    using digit_facts [OF c] by (simp add: ct)
  moreover have "takeWhile is_digit (show_nat (nat n) @ rest) = show_nat (nat n)"
    using show_nat_digits(1) [of "nat n"] assms(3) by (cases rest) (simp_all add: takeWhile_append2 takeWhile_eq_all_conv)
  moreover have "in_int64 n" using assms(1,2) by (simp add: in_int64_def max_int64_def)
  ultimately show ?thesis
    using assms(1) digit_facts(2,3) [OF c] show_nat_digits(2) [of "nat n"] read_show_nat [of "nat n"]
    by (simp add: Sscanf_d_def s Let_def) (simp add: ct)
qed

lemma scan_bounds: "Sscanf_d raw = Some n \<Longrightarrow> in_int64 n"
  by (auto simp: Sscanf_d_def Let_def split: option.splits prod.splits if_splits)

section \<open>Printing a shard specification\<close>

definition shard_flag :: "ShardConfig \<Rightarrow> string" where
  "shard_flag s = show_int (sc_ID s) @ '','' @ show_int (StartRow s) @ '','' @ show_int (EndRow s) @ '','' @
     LeaderAddr (Active s) @ '','' @ FollowerAddr (Active s) @
     (case Standby s of None \<Rightarrow> [] | Some p \<Rightarrow> '','' @ LeaderAddr p @ ''|'' @ FollowerAddr p)"

definition address :: "string \<Rightarrow> bool" where
  "address a \<longleftrightarrow> a \<noteq> [] \<and> TrimSpace a = a"

text \<open>The shards a specification can describe.\<close>

definition flag_shard :: "ShardConfig \<Rightarrow> bool" where
  "flag_shard s \<longleftrightarrow> 0 \<le> sc_ID s \<and> sc_ID s \<le> max_int64 \<and> 0 \<le> StartRow s \<and> StartRow s \<le> max_int64 \<and>
     0 < EndRow s \<and> EndRow s \<le> max_int64 \<and>
     (\<forall>a \<in> {LeaderAddr (Active s), FollowerAddr (Active s)}. address a \<and> CHR '','' \<notin> set a) \<and>
     (case Standby s of None \<Rightarrow> True
      | Some p \<Rightarrow> address (LeaderAddr p) \<and> address (FollowerAddr p) \<and> CHR ''|'' \<notin> set (LeaderAddr p))"

lemma comma_show: "0 \<le> n \<Longrightarrow> CHR '','' \<notin> set (show_int n)"
  using show_nat_digits(1) [of "nat n"] digit_facts(4) by (auto simp: show_int_def)

lemma parse_int_show:
  assumes "0 \<le> n" "n \<le> max_int64" "b \<or> 0 < n" "rest = [] \<or> \<not> is_digit (hd rest)"
  shows "parsePositiveInt (show_int n @ rest) b = Inr n"
  using assms by (auto simp: parsePositiveInt_def scan_show)

lemma parse_int_bounds: "parsePositiveInt raw b = Inr n \<Longrightarrow> 0 \<le> n \<and> n \<le> max_int64 \<and> (b \<or> 0 < n)"
  using scan_bounds [of raw n] by (auto simp: parsePositiveInt_def in_int64_def max_int64_def split: option.splits if_splits)

lemma parse_pair: "address a \<Longrightarrow> address b \<Longrightarrow> parsePairConfig a b = Inr \<lparr>LeaderAddr = a, FollowerAddr = b\<rparr>"
  by (simp add: parsePairConfig_def address_def)

lemma parse_pair_ok:
  assumes "parsePairConfig a b = Inr p"
  shows "address (LeaderAddr p)" "address (FollowerAddr p)" "set (LeaderAddr p) \<subseteq> set a" "set (FollowerAddr p) \<subseteq> set b"
  using assms set_trim [of a] set_trim [of b] by (auto simp: parsePairConfig_def address_def Let_def split: if_splits)

lemma address_ends: "address a \<longleftrightarrow> a \<noteq> [] \<and> \<not> ascii_space (hd a) \<and> \<not> ascii_space (last a)"
  using trimmed_iff by (auto simp: address_def)

lemma parse_standby:
  assumes "address a" "address b" "CHR ''|'' \<notin> set a"
  shows "parseOptionalPairConfig (a @ ''|'' @ b) = Inr (Some \<lparr>LeaderAddr = a, FollowerAddr = b\<rparr>)"
proof -
  have "address (a @ ''|'' @ b)" using assms(1,2) by (auto simp: address_ends)
  then have t: "TrimSpace (a @ ''|'' @ b) = a @ ''|'' @ b" by (simp add: address_def)
  have "SplitN (CHR ''|'') 2 (a @ ''|'' @ b) = [a, b]"
    using SplitN_cut [OF assms(3), of 0 b] by (simp add: numeral_2_eq_2)
  moreover have "a @ ''|'' @ b \<noteq> ''-''" by (cases a) (auto simp: address_def)
  ultimately show ?thesis using t parse_pair [OF assms(1,2)] by (simp add: parseOptionalPairConfig_def Let_def)
qed

lemma map_sum_Inr: "map_sum f g r = Inr y \<longleftrightarrow> (\<exists>x. r = Inr x \<and> y = g x)"
  by (cases r) auto

lemma parse_standby_ok:
  assumes "parseOptionalPairConfig v = Inr (Some p)"
  shows "address (LeaderAddr p) \<and> address (FollowerAddr p) \<and> CHR ''|'' \<notin> set (LeaderAddr p)"
proof -
  obtain a b where s: "SplitN (CHR ''|'') 2 (TrimSpace v) = [a, b]" "parsePairConfig a b = Inr p"
    using assms by (auto simp: parseOptionalPairConfig_def map_sum_Inr Let_def split: if_splits list.splits)
  have "CHR ''|'' \<notin> set a" using SplitN_parts [of "CHR ''|''" 2 "TrimSpace v"] s(1) by simp
  then show ?thesis using parse_pair_ok [OF s(2)] by blast
qed

section \<open>Properties\<close>

lemma parse_print:
  assumes "flag_shard s"
  shows "parseShardConfig (shard_flag s) = Inr s"
proof -
  let ?i = "show_int (sc_ID s)" let ?r = "show_int (StartRow s)" let ?e = "show_int (EndRow s)"
  let ?l = "LeaderAddr (Active s)" let ?f = "FollowerAddr (Active s)"
  have c: "CHR '','' \<notin> set x" if "x \<in> {?i, ?r, ?e, ?l, ?f}" for x
    using that assms comma_show [of "sc_ID s"] comma_show [of "StartRow s"] comma_show [of "EndRow s"]
    by (auto simp: flag_shard_def)
  have ints: "parsePositiveInt ?i True = Inr (sc_ID s)" "parsePositiveInt ?r True = Inr (StartRow s)"
    "parsePositiveInt ?e False = Inr (EndRow s)"
    using assms parse_int_show [of _ _ "[]"] by (simp_all add: flag_shard_def)
  have pair: "parsePairConfig ?l ?f = Inr (Active s)"
    using assms parse_pair [of ?l ?f] by (simp add: flag_shard_def)
  have six: "(6::nat) = Suc (Suc (Suc (Suc (Suc (Suc 0)))))" by simp
  show ?thesis
  proof (cases "Standby s")
    case None
    have "SplitN (CHR '','') 6 (shard_flag s) = [?i, ?r, ?e, ?l, ?f]"
      unfolding six shard_flag_def None by (simp add: c SplitN_cut SplitN_single del: SplitN.simps)
    then show ?thesis using ints pair None by (simp add: parseShardConfig_def parse_fields_def)
  next
    case (Some p)
    have "SplitN (CHR '','') 6 (shard_flag s) = [?i, ?r, ?e, ?l, ?f, LeaderAddr p @ ''|'' @ FollowerAddr p]"
      unfolding six shard_flag_def Some by (simp add: c SplitN_cut del: SplitN.simps) simp
    moreover have "parseOptionalPairConfig (LeaderAddr p @ ''|'' @ FollowerAddr p) = Inr (Some p)"
      using assms Some parse_standby [of "LeaderAddr p" "FollowerAddr p"] by (simp add: flag_shard_def)
    ultimately show ?thesis using ints pair Some by (simp add: parseShardConfig_def parse_fields_def)
  qed
qed

lemma parse_fields_ok:
  assumes "parse_fields p0 p1 p2 p3 p4 p5 = Inr s" "CHR '','' \<notin> set p3" "CHR '','' \<notin> set p4"
  shows "flag_shard s"
proof -
  obtain i start stop active standby where f: "parsePositiveInt p0 True = Inr i" "parsePositiveInt p1 True = Inr start"
      "parsePositiveInt p2 False = Inr stop" "parsePairConfig p3 p4 = Inr active"
      "(case p5 of None \<Rightarrow> Inr None | Some v \<Rightarrow> parseOptionalPairConfig v) = Inr standby"
      "s = \<lparr>sc_ID = i, StartRow = start, EndRow = stop, Active = active, Standby = standby\<rparr>"
    using assms(1) by (auto simp: parse_fields_def split: sum.splits)
  have "address (LeaderAddr p) \<and> address (FollowerAddr p) \<and> CHR ''|'' \<notin> set (LeaderAddr p)" if "standby = Some p" for p
    using f(5) that parse_standby_ok by (auto split: option.splits)
  then show ?thesis
    using parse_int_bounds [OF f(1)] parse_int_bounds [OF f(2)] parse_int_bounds [OF f(3)] parse_pair_ok [OF f(4)] assms(2,3)
    by (auto simp: flag_shard_def f(6) split: option.splits)
qed

lemma parse_flag_shard:
  assumes "parseShardConfig v = Inr s"
  shows "flag_shard s"
proof -
  let ?ps = "SplitN (CHR '','') 6 v"
  note parts = SplitN_parts [of "CHR '',''" 6 v]
  consider p0 p1 p2 p3 p4 where "?ps = [p0, p1, p2, p3, p4]" "parse_fields p0 p1 p2 p3 p4 None = Inr s"
    | p0 p1 p2 p3 p4 p5 where "?ps = [p0, p1, p2, p3, p4, p5]" "parse_fields p0 p1 p2 p3 p4 (Some p5) = Inr s"
    using assms by (auto simp: parseShardConfig_def split: list.splits)
  then show ?thesis by cases (use parts in \<open>auto intro!: parse_fields_ok\<close>)
qed

text \<open>C33: Shard specifications. The parser returns only shards with a non-negative number and start row, a
  positive end row, and trimmed, non-empty addresses. Printing such a shard gives a specification that
  the parser reads back as the same shard; so a specification that was accepted can be replaced by the
  printed one.\<close>

theorem shard_flag_round_trip:
  "(parseShardConfig v = Inr s \<longrightarrow> flag_shard s) \<and> (flag_shard s \<longrightarrow> parseShardConfig (shard_flag s) = Inr s)"
  using parse_flag_shard parse_print by blast

definition example_shard :: ShardConfig where
  "example_shard = \<lparr>sc_ID = 2, StartRow = 512, EndRow = 768,
     Active = \<lparr>LeaderAddr = ''127.0.0.1:8290'', FollowerAddr = ''127.0.0.1:8291''\<rparr>,
     Standby = Some \<lparr>LeaderAddr = ''127.0.0.1:8390'', FollowerAddr = ''127.0.0.1:8391''\<rparr>\<rparr>"

theorem shard_flag_round_trip_witness:
  "parseShardConfig (shard_flag example_shard) = Inr example_shard \<and> flag_shard example_shard"
proof -
  have "flag_shard example_shard"
    by (simp add: flag_shard_def example_shard_def address_ends ascii_space_def max_int64_def)
  then show ?thesis using shard_flag_round_trip [of _ example_shard] by simp
qed

lemma example_flag: "shard_flag example_shard = ''2,512,768,127.0.0.1:8290,127.0.0.1:8291,127.0.0.1:8390|127.0.0.1:8391''"
  by (simp add: shard_flag_def example_shard_def show_int_def show_nat.simps digit_char_def char_of_def bit_0)

end
