(* ===== verification/Coordinator_Uploads.thy ===== *)
theory Coordinator_Uploads
  imports Coordinator_Epoch
begin

text \<open>
  Uploads through the coordinator (\<^verbatim>\<open>Upload1\<close>, \<^verbatim>\<open>Upload2\<close>, \<^verbatim>\<open>Upload3\<close>, \<^verbatim>\<open>cachedOrStoredSession\<close>,
  \<^verbatim>\<open>acceptingEpochFromControlStore\<close>, \<^verbatim>\<open>currentEpochFromControlStore\<close> of \<^verbatim>\<open>src/coordinator/coordinator.go\<close> and the
  session functions of \<^verbatim>\<open>coordinator_actor.go\<close>).

  \<^verbatim>\<open>Upload1\<close> allocates a session under a random uuid, with at most 16 attempts (the literal of the
  code), and has the shard use it. The state of a handler is the coordinator, the control store \<open>'s\<close>,
  the session store \<open>'x\<close>, the random source \<open>'r\<close> and the shards \<open>'w\<close>; the session store is an interface
  (\<open>session_ops\<close>). The random source is the crypto/rand reader, which does not fail.

  Shown here: the allocation loop gives a session that was not in the store, or the store is as
  before; a failing \<^verbatim>\<open>Upload1\<close> leaves no session behind; \<^verbatim>\<open>Upload2\<close> and \<^verbatim>\<open>Upload3\<close> reach a shard only with the
  session's hash key and in the session's epoch; and a session can be continued at another
  coordinator with the same result, except that the other one does not count it.
\<close>

section \<open>Sessions\<close>

record 'x session_ops =
  so_Put :: "gotime \<Rightarrow> SessionRecord \<Rightarrow> 'x \<Rightarrow> unit res \<times> 'x"
  so_Get :: "int \<Rightarrow> 'x \<Rightarrow> SessionRecord res"
  so_Delete :: "int \<Rightarrow> 'x \<Rightarrow> unit res \<times> 'x"

definition mem_session_ops :: "MemorySessionStore session_ops" where
  "mem_session_ops = \<lparr>so_Put = PutSession None, so_Get = GetSession None, so_Delete = DeleteSession None\<rparr>"

lemma mem_session_ops_simps [simp]:
  "so_Put mem_session_ops = PutSession None" "so_Get mem_session_ops = GetSession None"
  "so_Delete mem_session_ops = DeleteSession None"
  by (simp_all add: mem_session_ops_def)

definition cacheSession :: "SessionRecord \<Rightarrow> Coordinator \<Rightarrow> Coordinator" where
  "cacheSession session c = c\<lparr>co_sessions := (co_sessions c)(GlobalUUID session \<mapsto> session)\<rparr>"

definition cachedOrStoredSession ::
  "'x session_ops \<Rightarrow> int \<Rightarrow> 'x \<Rightarrow> Coordinator \<Rightarrow> SessionRecord res \<times> Coordinator" where
  "cachedOrStoredSession T globalUUID x c =
     (case co_sessions c globalUUID of
        Some session \<Rightarrow> (Inr session, c)
      | None \<Rightarrow> (case so_Get T globalUUID x of
                   Inl err \<Rightarrow> (Inl err, c)
                 | Inr session \<Rightarrow> (Inr session, cacheSession session c)))"

definition recordUpload3Success :: "SessionRecord \<Rightarrow> Coordinator \<Rightarrow> Coordinator" where
  "recordUpload3Success session c =
     (let c = c\<lparr>co_sessions := (co_sessions c)(GlobalUUID session := None)\<rparr> in
      if hasActiveScalingMetrics c \<and> mt_EpochID (activeScalingMetrics c) = ss_EpochID session
      then c\<lparr>activeScalingMetrics :=
               (activeScalingMetrics c)\<lparr>mt_AcceptedRequestCount := mt_AcceptedRequestCount (activeScalingMetrics c) + 1\<rparr>\<rparr>
      else c)"

definition acceptingEpochFromControlStore :: "'s control_ops \<Rightarrow> 's \<Rightarrow> EpochMeta res" where
  "acceptingEpochFromControlStore S s =
     (case ct_CurrentEpoch S s of
        None \<Rightarrow> Inl errCoordinatorNoActiveEpoch
      | Some ep \<Rightarrow>
          if ep_State ep \<noteq> EpochStateActive then Inl errCoordinatorNoActiveEpoch
          else (case ct_Accepting S (ep_ID ep) s of
                  Inl _ \<Rightarrow> Inl errCoordinatorNoActiveEpoch
                | Inr acc \<Rightarrow> if \<not> acc then Inl errCoordinatorNoActiveEpoch else Inr ep))"

definition currentEpochFromControlStore :: "'s control_ops \<Rightarrow> 's \<Rightarrow> EpochMeta res" where
  "currentEpochFromControlStore S s =
     (case ct_CurrentEpoch S s of
        None \<Rightarrow> Inl errCoordinatorNoActiveEpoch
      | Some ep \<Rightarrow> if ep_ID ep \<le> 0 then Inl errCoordinatorNoActiveEpoch else Inr ep)"

section \<open>Upload1\<close>

text \<open>The allocation loop: at most \<open>n\<close> attempts; \<open>mk\<close> builds the session from a uuid and a hash key.\<close>

fun allocate_session ::
  "'r rng \<Rightarrow> 'x session_ops \<Rightarrow> gotime \<Rightarrow> (int \<Rightarrow> byte list \<Rightarrow> SessionRecord) \<Rightarrow> nat \<Rightarrow> 'r \<Rightarrow> 'x
     \<Rightarrow> SessionRecord option res \<times> 'r \<times> 'x" where
  "allocate_session G T now mk 0 r x = (Inr None, r, x)"
| "allocate_session G T now mk (Suc n) r x =
     (let (globalUUID, r) = rng_Int G r max_int64 in
      if globalUUID \<le> 0 then allocate_session G T now mk n r x
      else let (hashKey, r) = RandBytes G 32 r; session = mk globalUUID hashKey in
        case so_Put T now session x of
          (Inl err, x) \<Rightarrow>
            if errors_Is err errSessionExists then allocate_session G T now mk n r x else (Inl err, r, x)
        | (Inr _, x) \<Rightarrow> (Inr (Some session), r, x))"

definition new_session :: "int \<Rightarrow> ShardConfig \<Rightarrow> int \<Rightarrow> gotime \<Rightarrow> int \<Rightarrow> byte list \<Rightarrow> SessionRecord" where
  "new_session epochID shard routeRow now globalUUID hashKey =
     \<lparr>ss_EpochID = epochID, ss_ShardID = sc_ID shard, GlobalUUID = globalUUID, LocalUUID = globalUUID,
      ss_HashKey = hashKey, GlobalRow = routeRow, LocalRow = routeRow - StartRow shard,
      ShardStartRow = StartRow shard, ss_CreatedAt = now\<rparr>"

text \<open>The arguments the shard gets, with the row in the shard's numbering and the assigned session.\<close>

definition shard_args1 :: "UploadArgs1 \<Rightarrow> ShardConfig \<Rightarrow> SessionRecord \<Rightarrow> UploadArgs1" where
  "shard_args1 args shard session = args\<lparr>RouteRow := RouteRow args - StartRow shard, UseAssignedSession := True,
     AssignedUUID := LocalUUID session, AssignedHashKey := ss_HashKey session\<rparr>"

text \<open>The routing decision, and the call of the shard with the session allocated.\<close>

definition route_upload :: "'s control_ops \<Rightarrow> int \<Rightarrow> Coordinator \<Rightarrow> 's \<Rightarrow> (EpochMeta \<times> ShardConfig \<times> string) res" where
  "route_upload S routeRow c s =
     (case acceptingEpochFromControlStore S s of
        Inl err \<Rightarrow> Inl (coordinatorWireError err)
      | Inr ep \<Rightarrow>
      case activeShardConfig S s of
        Inl err \<Rightarrow> Inl err
      | Inr config \<Rightarrow>
      case routeShard (Shards config) routeRow of
        Inl err \<Rightarrow> Inl err
      | Inr shard \<Rightarrow>
      case co_clients c (sc_ID shard) of
        None \<Rightarrow> Inl (ErrorString (''missing shard client for shard '' @ show_int (sc_ID shard)))
      | Some client \<Rightarrow> Inr (ep, shard, client))"

definition call_upload1 ::
  "'x session_ops \<Rightarrow> 'w shard_ops \<Rightarrow> string \<Rightarrow> UploadArgs1 \<Rightarrow> SessionRecord \<Rightarrow> Coordinator \<times> 'x \<times> 'w
     \<Rightarrow> UploadReply1 res \<times> Coordinator \<times> 'x \<times> 'w" where
  "call_upload1 T R client localArgs session = (\<lambda>(c, x, w).
     case rpc_Upload1 R client localArgs w of
       (Inl err, w) \<Rightarrow> (Inl err, c, snd (so_Delete T (GlobalUUID session) x), w)
     | (Inr shardReply, w) \<Rightarrow>
         if r1_Uuid shardReply \<noteq> LocalUUID session \<or> r1_HashKey shardReply \<noteq> ss_HashKey session
         then (Inl (coordinatorWireError errCoordinatorAssignedSessionFailed), c,
               snd (so_Delete T (GlobalUUID session) x), w)
         else (Inr \<lparr>r1_Uuid = GlobalUUID session, r1_HashKey = ss_HashKey session\<rparr>, cacheSession session c, x, w))"

definition coord_Upload1 ::
  "'s control_ops \<Rightarrow> 'x session_ops \<Rightarrow> 'w shard_ops \<Rightarrow> 'r rng \<Rightarrow> gotime \<Rightarrow> UploadArgs1 \<Rightarrow> Coordinator \<times> 's \<times> 'x \<times> 'r \<times> 'w
     \<Rightarrow> UploadReply1 res \<times> Coordinator \<times> 'x \<times> 'r \<times> 'w" where
  "coord_Upload1 S T R G now args = (\<lambda>(c, s, x, r, w).
     case route_upload S (RouteRow args) c s of
       Inl err \<Rightarrow> (Inl err, c, x, r, w)
     | Inr (ep, shard, client) \<Rightarrow>
     case allocate_session G T now (new_session (ep_ID ep) shard (RouteRow args) now) 16 r x of
       (Inl err, r, x) \<Rightarrow> (Inl err, c, x, r, w)
     | (Inr None, r, x) \<Rightarrow> (Inl (coordinatorWireError errCoordinatorSessionAllocation), c, x, r, w)
     | (Inr (Some session), r, x) \<Rightarrow>
         let (reply, c, x, w) = call_upload1 T R client (shard_args1 args shard session) session (c, x, w)
         in (reply, c, x, r, w))"

section \<open>Upload2 and Upload3\<close>

text \<open>The checks both start with: the session, its hash key, its epoch and its shard's client.\<close>

definition resume_session ::
  "'s control_ops \<Rightarrow> 'x session_ops \<Rightarrow> int \<Rightarrow> byte list \<Rightarrow> Coordinator \<times> 's \<times> 'x
     \<Rightarrow> (SessionRecord \<times> string) res \<times> Coordinator" where
  "resume_session S T uuid hashKey = (\<lambda>(c, s, x).
     let (session, c) = cachedOrStoredSession T uuid x c in
     case session of
       Inl _ \<Rightarrow> (Inl (coordinatorWireError errCoordinatorBogusUUID), c)
     | Inr session \<Rightarrow>
     if ss_HashKey session \<noteq> hashKey then (Inl (coordinatorWireError errCoordinatorBogusUUID), c)
     else case currentEpochFromControlStore S s of
       Inl _ \<Rightarrow> (Inl (coordinatorWireError errCoordinatorNoActiveEpoch), c)
     | Inr ep \<Rightarrow>
     if ep_ID ep \<noteq> ss_EpochID session then (Inl (coordinatorWireError errCoordinatorNoActiveEpoch), c)
     else case co_clients c (ss_ShardID session) of
       None \<Rightarrow> (Inl (ErrorString (''missing shard client for shard '' @ show_int (ss_ShardID session))), c)
     | Some client \<Rightarrow> (Inr (session, client), c))"

definition coord_Upload2 ::
  "'s control_ops \<Rightarrow> 'x session_ops \<Rightarrow> 'w shard_ops \<Rightarrow> UploadArgs2 \<Rightarrow> Coordinator \<times> 's \<times> 'x \<times> 'w
     \<Rightarrow> UploadReply2 res \<times> Coordinator \<times> 'x \<times> 'w" where
  "coord_Upload2 S T R args = (\<lambda>(c, s, x, w).
     case resume_session S T (a2_Uuid args) (a2_HashKey args) (c, s, x) of
       (Inl err, c) \<Rightarrow> (Inl err, c, x, w)
     | (Inr (session, client), c) \<Rightarrow>
         (case rpc_Upload2 R client (args\<lparr>a2_Uuid := LocalUUID session\<rparr>) w of
            (Inl err, w) \<Rightarrow> (Inl (coordinatorShardSessionError err), c, x, w)
          | (Inr reply, w) \<Rightarrow> (Inr reply, c, x, w)))"

definition coord_Upload3 ::
  "'s control_ops \<Rightarrow> 'x session_ops \<Rightarrow> 'w shard_ops \<Rightarrow> UploadArgs3 \<Rightarrow> Coordinator \<times> 's \<times> 'x \<times> 'w
     \<Rightarrow> unit res \<times> Coordinator \<times> 'x \<times> 'w" where
  "coord_Upload3 S T R args = (\<lambda>(c, s, x, w).
     case resume_session S T (a3_Uuid args) (a3_HashKey args) (c, s, x) of
       (Inl err, c) \<Rightarrow> (Inl err, c, x, w)
     | (Inr (session, client), c) \<Rightarrow>
         (case rpc_Upload3 R client (args\<lparr>a3_Uuid := LocalUUID session\<rparr>) w of
            (Inl err, w) \<Rightarrow> (Inl (coordinatorShardSessionError err), c, x, w)
          | (Inr _, w) \<Rightarrow>
              (case so_Delete T (GlobalUUID session) x of
                 (Inl err, x) \<Rightarrow>
                   if \<not> errors_Is err errSessionMissing then (Inl err, c, x, w)
                   else (Inr (), recordUpload3Success session c, x, w)
               | (Inr _, x) \<Rightarrow> (Inr (), recordUpload3Success session c, x, w))))"

section \<open>Allocation\<close>

context session_store
begin

definition sops :: "'x session_ops" where
  "sops = \<lparr>so_Put = put, so_Get = get, so_Delete = del\<rparr>"

lemma sops_simps [simp]: "so_Put sops = put" "so_Get sops = get" "so_Delete sops = del"
  by (simp_all add: sops_def)

lemma allocate_outcome:
  assumes "\<And>u h. GlobalUUID (mk u h) = u \<and> \<not> IsZero (ss_CreatedAt (mk u h))"
    and "allocate_session G sops now mk n r x = (q, r', x')"
  shows "(\<exists>e. q = Inl e \<and> live x' = live x) \<or> (q = Inr None \<and> live x' = live x) \<or>
    (\<exists>u h. q = Inr (Some (mk u h)) \<and> 0 < u \<and> live x u = None \<and> live x' = (live x)(u \<mapsto> mk u h))"
  using assms(2)
proof (induction n arbitrary: r x)
  case (Suc n)
  obtain u r1 where u: "rng_Int G r max_int64 = (u, r1)" by fastforce
  obtain h r2 where h: "RandBytes G 32 r1 = (h, r2)" by fastforce
  obtain pq x1 where p: "put now (mk u h) x = (pq, x1)" by fastforce
  show ?case
  proof (cases "u \<le> 0")
    case True
    then show ?thesis using Suc u by simp
  next
    case False
    show ?thesis
    proof (cases pq)
      case (Inl err)
      then have l: "live x1 = live x" using put_err p by simp
      show ?thesis
      proof (cases "errors_Is err errSessionExists")
        case True
        then have "allocate_session G sops now mk n r2 x1 = (q, r', x')" using Suc.prems u h p Inl False by simp
        from Suc.IH [OF this] show ?thesis using l by simp
      next
        case no: False
        then show ?thesis using Suc.prems u h p Inl False l by auto
      qed
    next
      case (Inr v)
      then have "q = Inr (Some (mk u h)) \<and> x' = x1" using Suc.prems u h p False by simp
      moreover have "live x u = None \<and> live x1 = (live x)(u \<mapsto> mk u h) \<and> 0 < u"
        using put_ok [of now "mk u h" x v x1] p Inr assms(1) [of u h] by simp
      ultimately show ?thesis by blast
    qed
  qed
qed simp

end

text \<open>A store whose deletions of existing sessions succeed.\<close>

locale deletable_sessions = session_store +
  assumes del_live: "live x i = Some r \<Longrightarrow> \<exists>u x'. del i x = (Inr u, x')"
begin

lemma undo_put: "live x1 = (live x)(i \<mapsto> r) \<Longrightarrow> live x i = None \<Longrightarrow> live (snd (del i x1)) = live x"
proof -
  assume l: "live x1 = (live x)(i \<mapsto> r)" "live x i = None"
  then obtain u x' where d: "del i x1 = (Inr u, x')" using del_live [of x1 i r] by auto
  show "live (snd (del i x1)) = live x" using del_ok [OF d] d l by (auto simp: fun_eq_iff)
qed

lemma call_upload1_outcome:
  assumes "live x1 = (live x)(GlobalUUID session \<mapsto> session)" "live x (GlobalUUID session) = None"
    and "call_upload1 sops R client args session (c, x1, w) = (q, c', x', w')"
  shows "(\<exists>e. q = Inl e \<and> live x' = live x \<and> c' = c) \<or>
    (q = Inr \<lparr>r1_Uuid = GlobalUUID session, r1_HashKey = ss_HashKey session\<rparr> \<and> x' = x1 \<and> c' = cacheSession session c \<and>
     rpc_Upload1 R client args w = (Inr \<lparr>r1_Uuid = LocalUUID session, r1_HashKey = ss_HashKey session\<rparr>, w'))"
proof -
  have un: "live (snd (del (GlobalUUID session) x1)) = live x" using undo_put [OF assms(1,2)] .
  obtain rq w1 where rq: "rpc_Upload1 R client args w = (rq, w1)" by fastforce
  show ?thesis
  proof (cases rq)
    case (Inl e)
    then show ?thesis using assms(3) rq un by (auto simp: call_upload1_def)
  next
    case (Inr rep)
    then show ?thesis using assms(3) rq un by (cases rep) (auto simp: call_upload1_def split: if_splits)
  qed
qed

lemma upload1_outcome:
  assumes "\<not> IsZero now" "coord_Upload1 S sops R G now args (c, s, x, r, w) = (q, c', x', r', w')"
  shows "(\<exists>e. q = Inl e \<and> live x' = live x \<and> c' = c) \<or>
    (\<exists>ep shard client u h. route_upload S (RouteRow args) c s = Inr (ep, shard, client) \<and>
       q = Inr \<lparr>r1_Uuid = u, r1_HashKey = h\<rparr> \<and> 0 < u \<and> live x u = None \<and>
       live x' = (live x)(u \<mapsto> new_session (ep_ID ep) shard (RouteRow args) now u h) \<and>
       c' = cacheSession (new_session (ep_ID ep) shard (RouteRow args) now u h) c \<and>
       rpc_Upload1 R client (shard_args1 args shard (new_session (ep_ID ep) shard (RouteRow args) now u h)) w
         = (Inr \<lparr>r1_Uuid = u, r1_HashKey = h\<rparr>, w'))"
proof (cases "route_upload S (RouteRow args) c s")
  case (Inl e)
  then show ?thesis using assms(2) by (auto simp: coord_Upload1_def)
next
  case (Inr a)
  then obtain ep shard client where a: "route_upload S (RouteRow args) c s = Inr (ep, shard, client)" by (cases a) auto
  let ?mk = "new_session (ep_ID ep) shard (RouteRow args) now"
  obtain aq r1 x1 where al: "allocate_session G sops now ?mk 16 r x = (aq, r1, x1)" by (rule prod_cases3)
  have mk: "GlobalUUID (?mk u h) = u \<and> \<not> IsZero (ss_CreatedAt (?mk u h))" for u h
    using assms(1) by (simp add: new_session_def)
  from allocate_outcome [of ?mk, OF mk al] show ?thesis
  proof (elim disjE exE conjE)
    fix u h
    assume n: "aq = Inr (Some (?mk u h))" "0 < u" "live x u = None" "live x1 = (live x)(u \<mapsto> ?mk u h)"
    have "call_upload1 sops R client (shard_args1 args shard (?mk u h)) (?mk u h) (c, x1, w) = (q, c', x', w')"
      using assms(2) a al n(1) by (auto simp: coord_Upload1_def split: prod.splits)
    from call_upload1_outcome [OF _ _ this, of x] n show ?thesis using a by (auto simp: new_session_def)
  qed (use assms(2) a al in \<open>auto simp: coord_Upload1_def\<close>)
qed

end

interpretation mem_deletable: deletable_sessions "PutSession None" "GetSession None" "DeleteSession None" live_sessions
  by unfold_locales (auto simp: DeleteSession_def live_sessions_def split: option.splits)

lemma mem_sops [simp]: "mem_sessions.sops = mem_session_ops"
  by (simp add: mem_sessions.sops_def mem_session_ops_def)

section \<open>Resuming a session\<close>

definition session_of :: "'x session_ops \<Rightarrow> int \<Rightarrow> Coordinator \<Rightarrow> 'x \<Rightarrow> SessionRecord option" where
  "session_of T u c x =
     (case co_sessions c u of Some r \<Rightarrow> Some r | None \<Rightarrow> (case so_Get T u x of Inl _ \<Rightarrow> None | Inr r \<Rightarrow> Some r))"

text \<open>The guards of \<^verbatim>\<open>Upload2\<close> and \<^verbatim>\<open>Upload3\<close> pass exactly for the session's key, epoch and client.\<close>

definition may_resume :: "'s control_ops \<Rightarrow> byte list \<Rightarrow> Coordinator \<Rightarrow> 's \<Rightarrow> SessionRecord \<Rightarrow> string \<Rightarrow> bool" where
  "may_resume S key c s session client \<longleftrightarrow> ss_HashKey session = key \<and>
     (\<exists>ep. ct_CurrentEpoch S s = Some ep \<and> 0 < ep_ID ep \<and> ep_ID ep = ss_EpochID session) \<and>
     co_clients c (ss_ShardID session) = Some client"

lemma resume_iff:
  "fst (resume_session S T u key (c, s, x)) = Inr (session, client) \<longleftrightarrow>
     session_of T u c x = Some session \<and> may_resume S key c s session client"
  by (auto simp: resume_session_def cachedOrStoredSession_def cacheSession_def session_of_def may_resume_def
      currentEpochFromControlStore_def Let_def split: option.splits sum.splits if_splits)

lemma resume_coordinator:
  "snd (resume_session S T u key (c, s, x)) = snd (cachedOrStoredSession T u x c)"
  by (auto simp: resume_session_def Let_def split: option.splits sum.splits if_splits prod.splits)

lemma cached_coordinator:
  "\<exists>m. snd (cachedOrStoredSession T u x c) = c\<lparr>co_sessions := m\<rparr>"
  by (auto simp: cachedOrStoredSession_def cacheSession_def split: option.splits sum.splits intro: exI [of _ "co_sessions c"])

lemma upload2_resumed:
  "fst (resume_session S T (a2_Uuid args) (a2_HashKey args) (c, s, x)) = Inr (session, client) \<Longrightarrow>
     coord_Upload2 S T R args (c, s, x, w) =
       (let (res, w') = rpc_Upload2 R client (args\<lparr>a2_Uuid := LocalUUID session\<rparr>) w
        in (map_sum coordinatorShardSessionError (\<lambda>y. y) res, snd (cachedOrStoredSession T (a2_Uuid args) x c), x, w'))"
  using resume_coordinator [of S T "a2_Uuid args" "a2_HashKey args" c s x]
  by (cases "resume_session S T (a2_Uuid args) (a2_HashKey args) (c, s, x)")
    (auto simp: coord_Upload2_def split: prod.splits sum.splits)

lemma upload3_resumed:
  assumes "fst (resume_session S T (a3_Uuid args) (a3_HashKey args) (c, s, x)) = Inr (session, client)"
    and "rpc_Upload3 R client (args\<lparr>a3_Uuid := LocalUUID session\<rparr>) w = (res, w')"
  shows "fst (coord_Upload3 S T R args (c, s, x, w)) =
      (case res of Inl err \<Rightarrow> Inl (coordinatorShardSessionError err)
       | Inr _ \<Rightarrow> (case fst (so_Delete T (GlobalUUID session) x) of
           Inl err \<Rightarrow> if errors_Is err errSessionMissing then Inr () else Inl err | Inr _ \<Rightarrow> Inr ()))"
    "snd (snd (coord_Upload3 S T R args (c, s, x, w))) =
      ((case res of Inl _ \<Rightarrow> x | Inr _ \<Rightarrow> snd (so_Delete T (GlobalUUID session) x)), w')"
    "fst (snd (coord_Upload3 S T R args (c, s, x, w))) =
      (let c1 = snd (cachedOrStoredSession T (a3_Uuid args) x c)
       in if isl (fst (coord_Upload3 S T R args (c, s, x, w))) then c1 else recordUpload3Success session c1)"
  using assms resume_coordinator [of S T "a3_Uuid args" "a3_HashKey args" c s x]
  by (cases "resume_session S T (a3_Uuid args) (a3_HashKey args) (c, s, x)";
      cases "so_Delete T (GlobalUUID session) x";
      auto simp: coord_Upload3_def split: prod.splits sum.splits)+

lemma resume_refused:
  assumes "\<nexists>session client. session_of T u c x = Some session \<and> may_resume S key c s session client"
  shows "\<exists>err. fst (resume_session S T u key (c, s, x)) = Inl err"
  using assms resume_iff [of S T u key c s x] by (cases "fst (resume_session S T u key (c, s, x))") auto

lemma upload2_authorised:
  assumes "coord_Upload2 S T R a (c, s, x, w) = (q, c', x', w')"
  shows "(\<exists>e. q = Inl e) \<and> x' = x \<and> w' = w \<or>
      (\<exists>session client. session_of T (a2_Uuid a) c x = Some session \<and> may_resume S (a2_HashKey a) c s session client \<and>
         x' = x \<and> w' = snd (rpc_Upload2 R client (a\<lparr>a2_Uuid := LocalUUID session\<rparr>) w))"
proof (cases "fst (resume_session S T (a2_Uuid a) (a2_HashKey a) (c, s, x))")
  case (Inl e)
  then show ?thesis using assms by (auto simp: coord_Upload2_def split: prod.splits sum.splits)
next
  case (Inr p)
  then obtain session client where p: "fst (resume_session S T (a2_Uuid a) (a2_HashKey a) (c, s, x)) = Inr (session, client)"
    by (cases p) auto
  from upload2_resumed [OF p, of R w] assms p [unfolded resume_iff] show ?thesis by (auto simp: Let_def split: prod.splits)
qed

lemma upload3_authorised:
  assumes "coord_Upload3 S T R a (c, s, x, w) = (q, c', x', w')"
  shows "(\<exists>e. q = Inl e) \<and> x' = x \<and> w' = w \<or>
      (\<exists>session client. session_of T (a3_Uuid a) c x = Some session \<and> may_resume S (a3_HashKey a) c s session client \<and>
         w' = snd (rpc_Upload3 R client (a\<lparr>a3_Uuid := LocalUUID session\<rparr>) w))"
proof (cases "fst (resume_session S T (a3_Uuid a) (a3_HashKey a) (c, s, x))")
  case (Inl e)
  then show ?thesis using assms by (auto simp: coord_Upload3_def split: prod.splits sum.splits)
next
  case (Inr p)
  then obtain session client where p: "fst (resume_session S T (a3_Uuid a) (a3_HashKey a) (c, s, x)) = Inr (session, client)"
    by (cases p) auto
  obtain res w1 where rq: "rpc_Upload3 R client (a\<lparr>a3_Uuid := LocalUUID session\<rparr>) w = (res, w1)" by fastforce
  from upload3_resumed(2) [OF p rq] assms p [unfolded resume_iff] rq show ?thesis by auto
qed

text \<open>Answer and effects depend on the coordinator only through the outcome of the guards.\<close>

lemma upload2_congruent:
  assumes "fst (resume_session S T (a2_Uuid a) (a2_HashKey a) (c, s, x)) = fst (resume_session S T (a2_Uuid a) (a2_HashKey a) (d, s, x))"
  shows "fst (coord_Upload2 S T R a (d, s, x, w)) = fst (coord_Upload2 S T R a (c, s, x, w))"
    "snd (snd (coord_Upload2 S T R a (d, s, x, w))) = snd (snd (coord_Upload2 S T R a (c, s, x, w)))"
  using assms
  by (cases "resume_session S T (a2_Uuid a) (a2_HashKey a) (c, s, x)"; cases "resume_session S T (a2_Uuid a) (a2_HashKey a) (d, s, x)";
      auto simp: coord_Upload2_def split: prod.splits sum.splits)+

lemma upload3_congruent:
  assumes "fst (resume_session S T (a3_Uuid a) (a3_HashKey a) (c, s, x)) = fst (resume_session S T (a3_Uuid a) (a3_HashKey a) (d, s, x))"
  shows "fst (coord_Upload3 S T R a (d, s, x, w)) = fst (coord_Upload3 S T R a (c, s, x, w))"
    "snd (snd (coord_Upload3 S T R a (d, s, x, w))) = snd (snd (coord_Upload3 S T R a (c, s, x, w)))"
  using assms
  by (cases "resume_session S T (a3_Uuid a) (a3_HashKey a) (c, s, x)"; cases "resume_session S T (a3_Uuid a) (a3_HashKey a) (d, s, x)";
      auto simp: coord_Upload3_def split: prod.splits sum.splits if_splits)+

lemma upload3_metrics:
  assumes "session_of T (a3_Uuid a) d x = Some session"
    "\<not> (hasActiveScalingMetrics d \<and> mt_EpochID (activeScalingMetrics d) = ss_EpochID session)"
  shows "activeScalingMetrics (fst (snd (coord_Upload3 S T R a (d, s, x, w)))) = activeScalingMetrics d"
proof (cases "fst (resume_session S T (a3_Uuid a) (a3_HashKey a) (d, s, x))")
  case (Inl e)
  obtain m where "snd (resume_session S T (a3_Uuid a) (a3_HashKey a) (d, s, x)) = d\<lparr>co_sessions := m\<rparr>"
    using cached_coordinator resume_coordinator by metis
  then show ?thesis using Inl by (auto simp: coord_Upload3_def split: prod.splits sum.splits)
next
  case (Inr p)
  then obtain r client where p: "fst (resume_session S T (a3_Uuid a) (a3_HashKey a) (d, s, x)) = Inr (r, client)"
    by (cases p) auto
  have r: "r = session" using p assms(1) by (simp add: resume_iff)
  obtain m where m: "snd (cachedOrStoredSession T (a3_Uuid a) x d) = d\<lparr>co_sessions := m\<rparr>"
    using cached_coordinator [of T "a3_Uuid a" x d] by blast
  obtain res w1 where rq: "rpc_Upload3 R client (a\<lparr>a3_Uuid := LocalUUID r\<rparr>) w = (res, w1)" by fastforce
  show ?thesis using assms(2)
    unfolding upload3_resumed(3) [OF p rq] m by (auto simp: recordUpload3Success_def r Let_def)
qed

section \<open>Properties\<close>

text \<open>The first upload call creates exactly one session or none. When \<^verbatim>\<open>Upload1\<close> fails, for whatever
  reason, the session store and the coordinator are as before. When it answers with a uuid and a
  key, no session had that uuid; the store has gained the session of the routed shard, in the
  accepting epoch, with the row in global and local numbering, and nothing else; the coordinator has
  it cached; and the shard of that row, asked with the local row and that uuid and key, agreed.\<close>

theorem upload1_creates_one_session:
  assumes "\<not> IsZero now"
    and "coord_Upload1 S mem_session_ops R G now args (c, s, x, r, w) = (q, c', x', r', w')"
  shows "case q of
      Inl err \<Rightarrow> live_sessions x' = live_sessions x \<and> c' = c
    | Inr reply \<Rightarrow> \<exists>ep shard client. let u = r1_Uuid reply;
            session = new_session (ep_ID ep) shard (RouteRow args) now u (r1_HashKey reply) in
        route_upload S (RouteRow args) c s = Inr (ep, shard, client) \<and> 0 < u \<and> live_sessions x u = None \<and>
        live_sessions x' = (live_sessions x)(u \<mapsto> session) \<and> c' = cacheSession session c \<and>
        rpc_Upload1 R client (shard_args1 args shard session) w = (Inr reply, w')"
  using mem_deletable.upload1_outcome [OF assms(1) assms(2) [folded mem_sops]] by (auto simp: Let_def)

definition open_store :: MemoryControlStore where
  "open_store = ready_store\<lparr>mc_epoch := no_epoch\<lparr>ep_ID := 1, ep_State := EpochStateActive\<rparr>, mc_hasEpoch := True, mc_accepting := True\<rparr>"

lemma open_store_simps:
  "store_CurrentEpoch open_store = Some (no_epoch\<lparr>ep_ID := 1, ep_State := EpochStateActive\<rparr>)"
  "Accepting 1 open_store = Inr True" "activeShardConfig mem_control_ops open_store = Inr sample_config"
  using sample_config_record
  by (simp_all add: open_store_def store_CurrentEpoch_def Accepting_def activeShardConfig_def GetShardConfig_def ready_store_def)

lemma sample_upload1:
  "\<exists>c' x' r' w'. coord_Upload1 mem_control_ops mem_session_ops echo_shards counter_rng 4 (sample_args1\<lparr>RouteRow := 300\<rparr>)
     (sample_coordinator ''a'', open_store, NewMemorySessionStore, 9, 0)
     = (Inr \<lparr>r1_Uuid = 9, r1_HashKey = replicate 32 10\<rparr>, c', x', r', w')"
  by (simp add: coord_Upload1_def route_upload_def acceptingEpochFromControlStore_def open_store_simps sample_inventory_def
      sample_coordinator_def counter_rng_def max_int64_def RandBytes_def numeral_eq_Suc new_session_def PutSession_def
      NewMemorySessionStore_def call_upload1_def echo_shards_def shard_args1_def IsZero_def zero_time_def Let_def)

theorem upload1_creates_one_session_witness:
  "\<exists>c' x' r' w' session. coord_Upload1 mem_control_ops mem_session_ops echo_shards counter_rng 4 (sample_args1\<lparr>RouteRow := 300\<rparr>)
     (sample_coordinator ''a'', open_store, NewMemorySessionStore, 9, 0)
     = (Inr \<lparr>r1_Uuid = 9, r1_HashKey = replicate 32 10\<rparr>, c', x', r', w') \<and>
     live_sessions x' = [9 \<mapsto> session] \<and> co_sessions c' 9 = Some session"
proof -
  obtain c' x' r' w' where run: "coord_Upload1 mem_control_ops mem_session_ops echo_shards counter_rng 4
      (sample_args1\<lparr>RouteRow := 300\<rparr>) (sample_coordinator ''a'', open_store, NewMemorySessionStore, 9, 0)
      = (Inr \<lparr>r1_Uuid = 9, r1_HashKey = replicate 32 10\<rparr>, c', x', r', w')" using sample_upload1 by blast
  have "\<not> IsZero 4" "live_sessions NewMemorySessionStore = Map.empty"
    by (simp_all add: IsZero_def zero_time_def live_sessions_def NewMemorySessionStore_def)
  with upload1_creates_one_session [OF _ run] run show ?thesis by (auto simp: Let_def cacheSession_def new_session_def)
qed

text \<open>A session is used only by its owner and in its epoch. If \<^verbatim>\<open>Upload2\<close> or \<^verbatim>\<open>Upload3\<close> succeeds or changes
  anything at a shard or in the session store, then the coordinator knows a session of that uuid
  (cached or stored) with exactly the hash key of the call, the current epoch of the control store is
  the session's, and the only call made goes to the client of the session's shard, with the uuid of
  the session there.\<close>

theorem upload_needs_session_key:
  "(case coord_Upload2 S T R a (c, s, x, w) of (q, _, x', w') \<Rightarrow>
      (\<exists>e. q = Inl e) \<and> x' = x \<and> w' = w \<or>
      (\<exists>session client. session_of T (a2_Uuid a) c x = Some session \<and> may_resume S (a2_HashKey a) c s session client \<and>
         x' = x \<and> w' = snd (rpc_Upload2 R client (a\<lparr>a2_Uuid := LocalUUID session\<rparr>) w))) \<and>
   (case coord_Upload3 S T R b (c, s, x, w) of (q, _, x', w') \<Rightarrow>
      (\<exists>e. q = Inl e) \<and> x' = x \<and> w' = w \<or>
      (\<exists>session client. session_of T (a3_Uuid b) c x = Some session \<and> may_resume S (a3_HashKey b) c s session client \<and>
         w' = snd (rpc_Upload3 R client (b\<lparr>a3_Uuid := LocalUUID session\<rparr>) w)))"
  using upload2_authorised [of S T R a c s x w] upload3_authorised [of S T R b c s x w]
  by (simp split: prod.split)

text \<open>A session survives a change of coordinator. Let a coordinator have a session cached that is also in
  the store. At any other coordinator that has not cached that uuid and has the same client for the
  session's shard, \<^verbatim>\<open>Upload2\<close> and \<^verbatim>\<open>Upload3\<close> of the session give the same answer, with the same effect on
  the shards and the session store, as at the first. But a coordinator that is not counting the
  session's epoch counts nothing, so the scaling recommendation misses the upload.\<close>

theorem session_survives_coordinator_change:
  assumes "co_sessions c u = Some session" "co_sessions d u = None" "so_Get T u x = Inr session"
    and "co_clients d (ss_ShardID session) = co_clients c (ss_ShardID session)" "a2_Uuid a = u" "a3_Uuid b = u"
  shows "(case (coord_Upload2 S T R a (c, s, x, w), coord_Upload2 S T R a (d, s, x, w)) of
        ((q, _, y), (q', _, y')) \<Rightarrow> q' = q \<and> y' = y) \<and>
     (case (coord_Upload3 S T R b (c, s, x, w), coord_Upload3 S T R b (d, s, x, w)) of
        ((q, _, y), (q', d', y')) \<Rightarrow> q' = q \<and> y' = y \<and>
          (hasActiveScalingMetrics d \<and> mt_EpochID (activeScalingMetrics d) = ss_EpochID session \<or>
             activeScalingMetrics d' = activeScalingMetrics d))"
proof -
  have r: "fst (resume_session S T u key (c, s, x)) = fst (resume_session S T u key (d, s, x))" for key
    using assms(1-4)
    by (auto simp: resume_session_def cachedOrStoredSession_def cacheSession_def Let_def split: sum.splits option.splits)
  note two = upload2_congruent [of S T a c s x d R w] and three = upload3_congruent [of S T b c s x d R w]
  have m: "session_of T u d x = Some session" using assms(2,3) by (simp add: session_of_def)
  have "hasActiveScalingMetrics d \<and> mt_EpochID (activeScalingMetrics d) = ss_EpochID session \<or>
      activeScalingMetrics (fst (snd (coord_Upload3 S T R b (d, s, x, w)))) = activeScalingMetrics d"
    using upload3_metrics [of T b d x session S R s w] m assms(6) by blast
  then show ?thesis using two three r assms(5,6) by (auto split: prod.splits)
qed

definition second_coordinator :: Coordinator where
  "second_coordinator = (sample_coordinator ''b'')\<lparr>co_role := coordinatorRolePassive\<rparr>"

theorem session_survives_coordinator_change_witness:
  "let session = sample_session\<lparr>ss_ShardID := 3\<rparr>; c = cacheSession session (sample_coordinator ''a'');
       x = snd (PutSession None 4 session NewMemorySessionStore);
       a = \<lparr>a2_Uuid = 5, a2_HashKey = [1, 2], a2_Query = []\<rparr>
   in fst (coord_Upload2 mem_control_ops mem_session_ops echo_shards a (second_coordinator, open_store, x, 0))
      = fst (coord_Upload2 mem_control_ops mem_session_ops echo_shards a (c, open_store, x, 0))"
proof -
  let ?session = "sample_session\<lparr>ss_ShardID := 3\<rparr>"
  let ?c = "cacheSession ?session (sample_coordinator ''a'')" and ?x = "snd (PutSession None 4 ?session NewMemorySessionStore)"
  have "co_sessions ?c 5 = Some ?session" "co_sessions second_coordinator 5 = None" "so_Get mem_session_ops 5 ?x = Inr ?session"
    "co_clients second_coordinator (ss_ShardID ?session) = co_clients ?c (ss_ShardID ?session)"
    by (simp_all add: cacheSession_def sample_session_def second_coordinator_def sample_coordinator_def PutSession_def
        NewMemorySessionStore_def GetSession_def IsZero_def zero_time_def Let_def)
  from session_survives_coordinator_change [OF this, of "\<lparr>a2_Uuid = 5, a2_HashKey = [1, 2], a2_Query = []\<rparr>"
      "\<lparr>a3_Uuid = 5, a3_HashKey = [1, 2], a3_Query = []\<rparr>" mem_control_ops echo_shards open_store 0]
  show ?thesis by (simp add: Let_def split: prod.splits)
qed

end
