(* ===== verification/Shard_Fleet.thy ===== *)
theory Shard_Fleet
  imports Coordinator_Uploads
begin

text \<open>
  The coordinator over database leaders: the shards of the coordinator (\<open>shard_ops\<close>) are the leader
  processes of \<^verbatim>\<open>src/db\<close>, reached by address through net/rpc (\<^verbatim>\<open>rpcShardClient\<close> of
  \<^verbatim>\<open>src/coordinator/coordinator.go\<close>).

  What the coordinator's \<^verbatim>\<open>StartEpoch\<close> relies on is the locale \<open>shard_epochs\<close>: a shard that starts an epoch was
  idle and answers with the values it was given, one that refuses is unchanged, and an abort ends
  exactly the epoch it names. Leaders meet it. An address without a leader is one that no process serves; which
  addresses are served does not change during a call of the coordinator. The notifications a leader
  sends to its own goroutines are not part of the answer. The status call is a parameter.

  Shown here: a start that fails for any reason leaves no leader in an epoch it was not in before; and
  the three upload calls through the coordinator put one message into the queue of the leader that
  owns the row.
\<close>

section \<open>Leaders behind addresses\<close>

record ('q, 'r) fleet =
  fl_leaders :: "string \<rightharpoonup> 'q leader"
  fl_rng :: 'r

definition rpc_result :: "'a res \<Rightarrow> 'a res" where
  "rpc_result = map_sum rpc_error (\<lambda>x. x)"

lemma rpc_result_Inr [simp]: "rpc_result r = Inr y \<longleftrightarrow> r = Inr y"
  by (cases r) (simp_all add: rpc_result_def)

definition leader_call :: "string \<Rightarrow> ('q leader \<Rightarrow> 'a res \<times> 'q leader) \<Rightarrow> ('q, 'r) fleet \<Rightarrow> 'a res \<times> ('q, 'r) fleet" where
  "leader_call addr f w =
     (case fl_leaders w addr of
        None \<Rightarrow> (Inl (ErrorString ''connection is shut down''), w)
      | Some l \<Rightarrow> let (res, l) = f l in (rpc_result res, w\<lparr>fl_leaders := (fl_leaders w)(addr \<mapsto> l)\<rparr>))"

definition fleet_Upload1 :: "'r rng \<Rightarrow> string \<Rightarrow> UploadArgs1 \<Rightarrow> ('q, 'r) fleet \<Rightarrow> UploadReply1 res \<times> ('q, 'r) fleet" where
  "fleet_Upload1 G addr args w =
     (case fl_leaders w addr of
        None \<Rightarrow> (Inl (ErrorString ''connection is shut down''), w)
      | Some l \<Rightarrow> let (res, r, l) = Upload1 G args (fl_rng w) l
                  in (rpc_result res, w\<lparr>fl_leaders := (fl_leaders w)(addr \<mapsto> l), fl_rng := r\<rparr>))"

definition fleet_ops ::
  "'q queue_ops \<Rightarrow> 'r rng \<Rightarrow> gotime \<Rightarrow> (string \<Rightarrow> ('q, 'r) fleet \<Rightarrow> StatusReply res option) \<Rightarrow> ('q, 'r) fleet shard_ops" where
  "fleet_ops Q G now status =
     \<lparr>rpc_Upload1 = fleet_Upload1 G,
      rpc_Upload2 = (\<lambda>addr args. leader_call addr (Upload2 args)),
      rpc_Upload3 = (\<lambda>addr args. leader_call addr (\<lambda>l. let (res, _, l) = Upload3 Q now args l in (res, l))),
      rpc_StartEpoch = (\<lambda>addr d e u. leader_call addr (StartEpoch now d e u)),
      rpc_AbortEpoch = (\<lambda>addr e. leader_call addr (\<lambda>l. let (res, _, l) = AbortEpoch e l in (res, l))),
      rpc_Status = status,
      rpc_Dial = (\<lambda>addr w. if fl_leaders w addr = None then Inl (ErrorString ''connection refused'') else Inr ()),
      rpc_DialStandby = (\<lambda>addr t w. if fl_leaders w addr = None then Inl (ErrorString ''connection refused'') else Inr ()),
      rpc_CloseStandby = (\<lambda>addr w. Inr ())\<rparr>"

section \<open>Starting and aborting\<close>

locale shard_epochs =
  fixes R :: "'w shard_ops" and running :: "'w \<Rightarrow> string \<Rightarrow> int option" and answer :: "int \<Rightarrow> int \<Rightarrow> int \<Rightarrow> StartEpochReply"
  assumes start_err: "rpc_StartEpoch R a d e u w = (Inl err, w') \<Longrightarrow> running w' = running w"
    and start_ok: "0 < e \<Longrightarrow> 0 < u \<Longrightarrow> rpc_StartEpoch R a d e u w = (Inr reply, w') \<Longrightarrow>
          running w a = None \<and> running w' = (running w)(a \<mapsto> e) \<and> reply = answer d e u"
    and abort: "rpc_AbortEpoch R a e w = (res, w') \<Longrightarrow>
          running w' = (if running w a = Some e then (running w)(a := None) else running w)"
begin

definition addrs :: "(int \<rightharpoonup> string) \<Rightarrow> int list \<Rightarrow> string set" where
  "addrs cl ids = {a. \<exists>i \<in> set ids. cl i = Some a}"

lemma addrs_simps [simp]:
  "addrs cl [] = {}" "addrs cl (i # ids) = (case cl i of None \<Rightarrow> {} | Some a \<Rightarrow> {a}) \<union> addrs cl ids"
  by (auto simp: addrs_def split: option.splits)

text \<open>The shards started are exactly those that came to run the epoch; none of them was running before.\<close>

lemma started_running:
  assumes "0 < e" "0 < u" "start_shards R cl d e u shards ex started w = (q, started', w')" "ex = None \<or> ex = Some (answer d e u)"
  shows "\<exists>ids. started' = started @ ids \<and> (\<forall>a \<in> addrs cl ids. running w a = None) \<and>
     running w' = (\<lambda>a. if a \<in> addrs cl ids then Some e else running w a)"
  using assms(3,4)
proof (induction shards arbitrary: ex started w)
  case (Cons shard shards)
  show ?case
  proof (cases "cl (sc_ID shard)")
    case None
    then show ?thesis using Cons.prems by auto
  next
    case (Some addr)
    obtain res w1 where r: "rpc_StartEpoch R addr d e u w = (res, w1)" by fastforce
    show ?thesis
    proof (cases res)
      case (Inl err)
      then show ?thesis using Cons.prems Some r start_err [of addr d e u w err w1] by auto
    next
      case (Inr reply)
      note ok = start_ok [OF assms(1,2) r [unfolded Inr]]
      have "start_shards R cl d e u shards (Some (answer d e u)) (started @ [sc_ID shard]) w1 = (q, started', w')"
        using Cons.prems Some r Inr ok by (auto simp: sameEpochReply_iff)
      from Cons.IH [OF this] obtain ids where ids: "started' = (started @ [sc_ID shard]) @ ids"
        "\<forall>a \<in> addrs cl ids. running w1 a = None" "running w' = (\<lambda>a. if a \<in> addrs cl ids then Some e else running w1 a)" by blast
      have n: "addr \<notin> addrs cl ids" using ids(2) ok by auto
      moreover have "running w a = None" if "a \<in> addrs cl ids" for a
        using n that ids(2) ok by (metis fun_upd_other)
      ultimately show ?thesis using ids ok Some by (intro exI [of _ "sc_ID shard # ids"]) (auto simp: fun_eq_iff)
    qed
  qed
qed auto

lemma aborted_running:
  "running (abortStarted R cl ids e w) = (\<lambda>a. if a \<in> addrs cl ids \<and> running w a = Some e then None else running w a)"
proof (induction ids arbitrary: w)
  case (Cons i ids)
  show ?case
  proof (cases "cl i")
    case (Some addr)
    obtain res w1 where r: "rpc_AbortEpoch R addr e w = (res, w1)" by fastforce
    show ?thesis using Cons [of w1] Some r abort [OF r] by (auto simp: fun_eq_iff)
  qed (use Cons in simp)
qed (simp add: fun_eq_iff)

lemma rolled_back:
  assumes "0 < e" "0 < u" "start_shards R cl d e u shards None [] w = (q, started, w')"
  shows "running (abortStarted R cl started e w') = running w"
  using started_running [OF assms] by (auto simp: aborted_running fun_eq_iff)

lemma record_failed:
  assumes "record_started_epoch S R clk config e reply started (c, s, w) = (Inl err, c', s', w')"
  shows "w' = abortStarted R (co_clients c) started e w"
proof -
  obtain r c1 s1 where l: "requireCoordinatorLease S (clk 2) (c, s) = (r, c1, s1)" by (rule prod_cases3)
  obtain M y where "c1 = c\<lparr>co_lease := M, co_role := y\<rparr>" using l by (rule require_frame)
  then have "co_clients c1 = co_clients c" by simp
  then show ?thesis using assms l unfolding record_started_epoch_def Let_def by (auto split: sum.splits prod.splits)
qed

lemma failed_start:
  assumes run: "coord_StartEpoch S R clk d e u (c, s, w) = (Inl err, c', s', w')"
    and l: "requireCoordinatorLease S (clk 0) (c, s) = (r, c1, s1)"
    and pos: "\<And>nid t. startEpochDecision (clk 1) e u (case ct_CurrentEpoch S s1 of None \<Rightarrow> 0 | Some ep \<Rightarrow> ep_ID ep) c1 = Inr (nid, t)
      \<Longrightarrow> 0 < nid \<and> 0 < Unix t"
  shows "running w' = running w"
proof -
  let ?dec = "startEpochDecision (clk 1) e u (case ct_CurrentEpoch S s1 of None \<Rightarrow> 0 | Some ep \<Rightarrow> ep_ID ep) c1"
  consider (early) "d \<le> 0 \<or> isl r \<or> isl (requireEpochCycleAllowsStart S s1) \<or> isl ?dec \<or> isl (activeShardConfig S s1)"
    | (go) v nid t config where "0 < d" "r = Inr v" "requireEpochCycleAllowsStart S s1 = Inr ()" "?dec = Inr (nid, t)"
        "activeShardConfig S s1 = Inr config"
    by (cases "d \<le> 0"; cases r; cases "requireEpochCycleAllowsStart S s1"; cases ?dec; cases "activeShardConfig S s1") auto
  then show ?thesis
  proof cases
    case early
    then have "w' = w" using run l
      by (cases r; cases "requireEpochCycleAllowsStart S s1"; cases ?dec; cases "activeShardConfig S s1")
        (auto simp: coord_StartEpoch_def Let_def split: if_splits)
    then show ?thesis by simp
  next
    case go
    obtain q started w1 where st: "start_shards R (co_clients c1) d nid (Unix t) (Shards config) None [] w = (q, started, w1)"
      by (rule prod_cases3)
    have "w' = abortStarted R (co_clients c1) started nid w1"
    proof (cases q)
      case (Inl x)
      then show ?thesis using run l go st by (auto simp: coord_StartEpoch_def Let_def)
    next
      case (Inr ex)
      then have "record_started_epoch S R clk config nid (case ex of None \<Rightarrow> zero_start_reply | Some x \<Rightarrow> x) started (c1, s1, w1)
          = (Inl err, c', s', w')" using run l go st by (simp add: coord_StartEpoch_def Let_def)
      then show ?thesis by (rule record_failed)
    qed
    then show ?thesis using rolled_back [OF _ _ st] pos [OF go(4)] by simp
  qed
qed

end

section \<open>Leaders meet the interface\<close>

text \<open>The epoch a leader is in, as long as it can be aborted.\<close>

definition leader_epoch :: "'q leader \<Rightarrow> int option" where
  "leader_epoch l = (let ep = epoch (ld_ctl l) in
     if isLeader l \<and> (ep_State ep = EpochStateActive \<or> ep_State ep = EpochStateClosing) then Some (ep_ID ep) else None)"

definition fleet_running :: "('q, 'r) fleet \<Rightarrow> string \<Rightarrow> int option" where
  "fleet_running w a = (case fl_leaders w a of None \<Rightarrow> None | Some l \<Rightarrow> leader_epoch l)"

definition fleet_answer :: "int \<Rightarrow> int \<Rightarrow> int \<Rightarrow> StartEpochReply" where
  "fleet_answer d e u = start_epoch_reply \<lparr>ep_ID = e, ep_State = EpochStateActive, ep_StartTime = time_Unix u,
     ep_EndTime = time_Unix u + wrap64 (d * second), ep_DurationSeconds = d\<rparr>"

lemma leader_start:
  assumes "StartEpoch t d e u l = (res, l')"
  shows "case res of Inl _ \<Rightarrow> leader_epoch l' = leader_epoch l
     | Inr reply \<Rightarrow> 0 < e \<and> 0 < u \<longrightarrow> leader_epoch l = None \<and> leader_epoch l' = Some e \<and> reply = fleet_answer d e u"
  using assms
  by (auto simp: StartEpoch_def startEpochCommand_def leader_epoch_def fleet_answer_def isLeader_def Let_def
      split: if_splits sum.splits)

lemma leader_abort:
  assumes "AbortEpoch e l = (res, ns, l')"
  shows "leader_epoch l' = (if leader_epoch l = Some e then None else leader_epoch l)"
  using assms
  by (auto simp: AbortEpoch_def abortEpochCommand_def releaseMergeWaiters_def leader_epoch_def no_epoch_def isLeader_def Let_def
      split: if_splits prod.splits)

lemma fleet_running_put [simp]:
  "fleet_running (w\<lparr>fl_leaders := (fl_leaders w)(a \<mapsto> l)\<rparr>) = (fleet_running w)(a := leader_epoch l)"
  by (simp add: fleet_running_def fun_eq_iff)

lemma fleet_running_Some: "fl_leaders w a = Some l \<Longrightarrow> fleet_running w a = leader_epoch l"
  by (simp add: fleet_running_def)

lemma leader_call_cases:
  assumes "leader_call a f w = (res, w')"
  obtains (down) "isl res" "w' = w" "fl_leaders w a = None" | (up) l r l' where "fl_leaders w a = Some l" "f l = (r, l')" "res = rpc_result r"
    "w' = w\<lparr>fl_leaders := (fl_leaders w)(a \<mapsto> l')\<rparr>"
  using assms by (auto simp: leader_call_def split: option.splits prod.splits)

interpretation leaders: shard_epochs "fleet_ops Q G now status" fleet_running fleet_answer
proof unfold_locales
  fix a d e u w err w'
  assume "rpc_StartEpoch (fleet_ops Q G now status) a d e u w = (Inl err, w')"
  then have "leader_call a (StartEpoch now d e u) w = (Inl err, w')" by (simp add: fleet_ops_def)
  then show "fleet_running w' = fleet_running w"
  proof (cases rule: leader_call_cases)
    case (up l r l')
    then show ?thesis using leader_start [OF up(2)] fleet_running_Some [OF up(1)]
      by (cases r) (auto simp: rpc_result_def fun_upd_idem)
  qed simp
next
  fix a d e u w reply w'
  assume pos: "0 < e" "0 < u" and "rpc_StartEpoch (fleet_ops Q G now status) a d e u w = (Inr reply, w')"
  then have "leader_call a (StartEpoch now d e u) w = (Inr reply, w')" by (simp add: fleet_ops_def)
  then show "fleet_running w a = None \<and> fleet_running w' = (fleet_running w)(a \<mapsto> e) \<and> reply = fleet_answer d e u"
  proof (cases rule: leader_call_cases)
    case (up l r l')
    then show ?thesis using leader_start [OF up(2)] fleet_running_Some [OF up(1)] pos
      by (cases r) (auto simp: rpc_result_def)
  qed simp
next
  fix a e w res w'
  assume "rpc_AbortEpoch (fleet_ops Q G now status) a e w = (res, w')"
  then have "leader_call a (\<lambda>l. let (res, _, l) = AbortEpoch e l in (res, l)) w = (res, w')" by (simp add: fleet_ops_def)
  then show "fleet_running w' = (if fleet_running w a = Some e then (fleet_running w)(a := None) else fleet_running w)"
  proof (cases rule: leader_call_cases)
    case down
    then show ?thesis by (simp add: fleet_running_def)
  next
    case (up l r l')
    then obtain ns where ab: "AbortEpoch e l = (r, ns, l')" by (auto simp: Let_def split: prod.splits)
    show ?thesis using leader_abort [OF ab] fleet_running_Some [OF up(1)] up by (auto simp: fun_upd_idem)
  qed
qed

lemma decision_positive:
  assumes "startEpochDecision t e u z c = Inr (nid, start)" "0 \<le> ep_ID (co_epoch c)" "ep_ID (co_epoch c) < max_int64" "z < max_int64"
    "second \<le> t"
  shows "0 < nid \<and> 0 < Unix start"
proof -
  let ?base = "if z > ep_ID (co_epoch c) then z else ep_ID (co_epoch c)"
  have "wrap64 (?base + 1) = ?base + 1" using assms(2-4) by (auto simp: wrap64_def max_int64_def)
  then have "0 < wrap64 (?base + 1)" using assms(2) by (simp split: if_splits)
  moreover have "0 < Unix start" using assms(1,5)
    by (auto simp: startEpochDecision_def Unix_def time_Unix_def second_def Let_def split: if_splits)
  ultimately show ?thesis using assms(1) by (auto simp: startEpochDecision_def Let_def split: if_splits)
qed

section \<open>Properties\<close>


text \<open>The leader of shard 7 can start an epoch, the leader of shard 3 has no connection to its peer yet.\<close>

definition sample_fleet :: "(memoryCompletedUploadQueue, int) fleet" where
  "sample_fleet = \<lparr>fl_leaders = [''b-leader'' \<mapsto> ctl_update (\<lambda>c. c\<lparr>peerState := PeerConnectionsReady\<rparr>) sample_leader,
     ''a-leader'' \<mapsto> ctl_update (\<lambda>c. c\<lparr>peerState := PeerConnectionsConnecting\<rparr>) sample_leader], fl_rng = 1\<rparr>"


section \<open>An upload through the coordinator\<close>

lemma guard_ctl [simp]: "upload_guard (ctl_update f l) = upload_guard l"
  by (simp add: upload_guard_def isLeader_def)

lemma leader_flow:
  assumes "Upload1 G a r l = (Inr rep, r', l1)" "a2_Uuid b = r1_Uuid rep" "a2_HashKey b = r1_HashKey rep"
    and "a3_Uuid d = r1_Uuid rep" "a3_HashKey d = r1_HashKey rep"
  shows "\<exists>ch l2 ns l3. Upload2 b l1 = (Inr \<lparr>Challenge = ch\<rparr>, l2) \<and>
     (let (er, q) = q_enqueue Q t (session_message l (r1_Uuid rep) (r1_HashKey rep) ch a b d) (ld_queue l)
      in Upload3 Q t d l2 = (map_sum id (\<lambda>_. ()) er, ns, l3) \<and> ld_queue l3 = q)"
proof -
  have g: "upload_guard l = Inr ()" and u1: "upload1Command G a r l = (Inr rep, r', l1)"
    using assms(1) by (auto simp: Upload1_def split: sum.splits)
  from u1 show ?thesis
  proof (rule upload1_ok)
    fix ch
    let ?d = "\<lparr>aq_hashKey = r1_HashKey rep, aq_challenge = ch, aq_args1 = Some a, aq_args2 = None, aq_args3 = None\<rparr>"
    assume l1: "l1 = ctl_update (\<lambda>c. c\<lparr>accepted := gm_put (r1_Uuid rep) ?d (accepted c)\<rparr>) l"
    define l2 where "l2 = ctl_update (\<lambda>c. c\<lparr>accepted := gm_put (r1_Uuid rep) (?d\<lparr>aq_args2 := Some b\<rparr>) (accepted c)\<rparr>) l1"
    have u2: "Upload2 b l1 = (Inr \<lparr>Challenge = ch\<rparr>, l2)"
      using upload2_ok [of l1 b ?d] assms(2,3) g by (simp add: l1 l2_def Upload2_def)
    have same: "session_message l2 = session_message l" "ld_queue l2 = ld_queue l" "upload_guard l2 = Inr ()"
      using g by (simp_all add: session_message_def l2_def l1 fun_eq_iff)
    have acc: "gm_get (accepted (ld_ctl l2)) (a3_Uuid d) = Some (?d\<lparr>aq_args2 := Some b\<rparr>)"
      using assms(4) by (simp add: l2_def)
    obtain er q where e: "q_enqueue Q t (session_message l (r1_Uuid rep) (r1_HashKey rep) ch a b d) (ld_queue l) = (er, q)"
      by fastforce
    then have "q_enqueue Q t (session_message l2 (a3_Uuid d) (aq_hashKey (?d\<lparr>aq_args2 := Some b\<rparr>))
        (aq_challenge (?d\<lparr>aq_args2 := Some b\<rparr>)) a b d) (ld_queue l2) = (er, q)"
      using assms(4) same by simp
    from upload3_complete_session [OF acc _ _ _ this] obtain ns l3 where
      "upload3Command Q t d l2 = (map_sum id (\<lambda>_. ()) er, ns, l3)" "ld_queue l3 = q" using assms(5) by auto
    with u2 e same(3) show ?thesis
      by (intro exI [of _ ch] exI [of _ l2] exI [of _ ns] exI [of _ l3]) (simp add: Upload3_def)
  qed
qed

lemma route_epoch:
  assumes "route_upload S row c s = Inr (ep, shard, client)"
  shows "ct_CurrentEpoch S s = Some ep" "co_clients c (sc_ID shard) = Some client" "ep_State ep = EpochStateActive"
  using assms by (auto simp: route_upload_def acceptingEpochFromControlStore_def split: sum.splits option.splits if_splits)

lemma fleet_upload1_ok:
  assumes "rpc_Upload1 (fleet_ops Q G now status) addr a w = (Inr rep, w')"
  obtains l r' l1 where "fl_leaders w addr = Some l" "Upload1 G a (fl_rng w) l = (Inr rep, r', l1)"
    "w' = w\<lparr>fl_leaders := (fl_leaders w)(addr \<mapsto> l1), fl_rng := r'\<rparr>"
  using assms by (auto simp: fleet_ops_def fleet_Upload1_def split: option.splits prod.splits)

lemma cached_session [simp]:
  "cachedOrStoredSession T (GlobalUUID r) x (cacheSession r c) = (Inr r, cacheSession r c)"
  by (simp add: cachedOrStoredSession_def cacheSession_def)

text \<open>Calling on with a session that is cached: the guards pass and the shard is asked.\<close>

lemma resume_cached:
  assumes "ct_CurrentEpoch S s = Some ep" "0 < ep_ID ep" "ep_ID ep = ss_EpochID r" "co_clients c (ss_ShardID r) = Some client"
  shows "fst (resume_session S T (GlobalUUID r) (ss_HashKey r) (cacheSession r c, s, x)) = Inr (r, client)"
  using assms unfolding resume_iff by (simp add: session_of_def may_resume_def cacheSession_def)

lemma upload_flow_after_upload1:
  fixes G :: "'r rng" and status :: "string \<Rightarrow> ('q, 'r) fleet \<Rightarrow> StatusReply res option" and w1 :: "('q, 'r) fleet"
  assumes r: "GlobalUUID r = u" "LocalUUID r = u" "ss_HashKey r = h" "ct_CurrentEpoch S s = Some ep" "0 < ep_ID ep"
      "ep_ID ep = ss_EpochID r" "co_clients c (ss_ShardID r) = Some addr"
    and l: "fl_leaders w1 addr = Some l1" "Upload2 b l1 = (Inr \<lparr>Challenge = ch\<rparr>, l2)" "Upload3 Q now d l2 = (er, ns, l3)"
    and k: "a2_Uuid b = u" "a2_HashKey b = h" "a3_Uuid d = u" "a3_HashKey d = h"
    and x1: "live_sessions x1 = (live_sessions x)(u \<mapsto> r)" "live_sessions x u = None"
  defines "R \<equiv> fleet_ops Q G now status" and "c1 \<equiv> cacheSession r c"
  shows "coord_Upload2 S mem_session_ops R b (c1, s, x1, w1)
      = (Inr \<lparr>Challenge = ch\<rparr>, c1, x1, w1\<lparr>fl_leaders := (fl_leaders w1)(addr \<mapsto> l2)\<rparr>)"
    and "\<exists>c3 x3. coord_Upload3 S mem_session_ops R d (c1, s, x1, w1\<lparr>fl_leaders := (fl_leaders w1)(addr \<mapsto> l2)\<rparr>)
      = (map_sum (coordinatorShardSessionError \<circ> rpc_error) (\<lambda>y. y) er, c3, x3, w1\<lparr>fl_leaders := (fl_leaders w1)(addr \<mapsto> l3)\<rparr>) \<and>
      (\<not> isl er \<longrightarrow> live_sessions x3 = live_sessions x \<and> co_sessions c3 = (co_sessions c)(u := None))"
proof -
  have res: "fst (resume_session S mem_session_ops (a2_Uuid b) (a2_HashKey b) (c1, s, x1)) = Inr (r, addr)"
    "fst (resume_session S mem_session_ops (a3_Uuid d) (a3_HashKey d) (c1, s, x1)) = Inr (r, addr)"
    using resume_cached [of S s ep r c addr mem_session_ops x1] r k by (simp_all add: c1_def)
  have c1: "cachedOrStoredSession mem_session_ops u x1 c1 = (Inr r, c1)"
    using cached_session [of mem_session_ops r x1 c] r(1) by (simp add: c1_def)
  have "b\<lparr>a2_Uuid := u\<rparr> = b" "d\<lparr>a3_Uuid := u\<rparr> = d" using k(1,3) by (cases b; cases d; simp)+
  then have call: "rpc_Upload2 R addr (b\<lparr>a2_Uuid := LocalUUID r\<rparr>) w1 = (Inr \<lparr>Challenge = ch\<rparr>, w1\<lparr>fl_leaders := (fl_leaders w1)(addr \<mapsto> l2)\<rparr>)"
    "rpc_Upload3 R addr (d\<lparr>a3_Uuid := LocalUUID r\<rparr>) (w1\<lparr>fl_leaders := (fl_leaders w1)(addr \<mapsto> l2)\<rparr>)
      = (rpc_result er, w1\<lparr>fl_leaders := (fl_leaders w1)(addr \<mapsto> l3)\<rparr>)"
    using l r(2) by (simp_all add: R_def fleet_ops_def leader_call_def rpc_result_def)
  show "coord_Upload2 S mem_session_ops R b (c1, s, x1, w1)
      = (Inr \<lparr>Challenge = ch\<rparr>, c1, x1, w1\<lparr>fl_leaders := (fl_leaders w1)(addr \<mapsto> l2)\<rparr>)"
    using upload2_resumed [OF res(1), of R w1] call(1) c1 k(1) by simp
  obtain v x3 where del: "DeleteSession None u x1 = (Inr v, x3)" "live_sessions x3 = live_sessions x"
    using mem_deletable.del_live [of x1 u r] mem_deletable.undo_put [OF x1] x1(1) by (metis fun_upd_same snd_conv)
  let ?w2 = "w1\<lparr>fl_leaders := (fl_leaders w1)(addr \<mapsto> l2)\<rparr>"
  let ?u3 = "coord_Upload3 S mem_session_ops R d (c1, s, x1, ?w2)"
  note u3 = upload3_resumed [OF res(2) call(2)]
  have f: "fst ?u3 = map_sum (coordinatorShardSessionError \<circ> rpc_error) (\<lambda>y. y) er"
    using u3(1) del(1) r(1) by (cases er) (simp_all add: rpc_result_def)
  have sn: "snd (snd ?u3) = ((if isl er then x1 else x3), w1\<lparr>fl_leaders := (fl_leaders w1)(addr \<mapsto> l3)\<rparr>)"
    using u3(2) del(1) r(1) by (cases er) (simp_all add: rpc_result_def)
  have "co_sessions (fst (snd ?u3)) = (co_sessions c)(u := None)" if "\<not> isl er"
    using u3(3) f that c1 k(3) r(1) by (cases er) (simp_all add: recordUpload3Success_def c1_def cacheSession_def Let_def)
  then show "\<exists>c3 x3. ?u3 = (map_sum (coordinatorShardSessionError \<circ> rpc_error) (\<lambda>y. y) er, c3, x3,
      w1\<lparr>fl_leaders := (fl_leaders w1)(addr \<mapsto> l3)\<rparr>) \<and>
      (\<not> isl er \<longrightarrow> live_sessions x3 = live_sessions x \<and> co_sessions c3 = (co_sessions c)(u := None))"
    using f sn del(2) by (intro exI [of _ "fst (snd ?u3)"] exI [of _ "if isl er then x1 else x3"]) (auto simp: prod_eq_iff)
qed

lemma coordinated_upload:
  fixes w :: "('q, 'r) fleet" and status :: "string \<Rightarrow> ('q, 'r) fleet \<Rightarrow> StatusReply res option"
  assumes "coord_Upload1 S mem_session_ops (fleet_ops Q G now status) H now a (c, s, x, r, w) = (Inr rep, c1, x1, r1, w1)"
    and "\<not> IsZero now" "\<forall>ep. ct_CurrentEpoch S s = Some ep \<longrightarrow> 0 < ep_ID ep"
    and k: "a2_Uuid b = r1_Uuid rep" "a2_HashKey b = r1_HashKey rep" "a3_Uuid d = r1_Uuid rep" "a3_HashKey d = r1_HashKey rep"
  shows "\<exists>ep shard addr l ch w2 l3. route_upload S (RouteRow a) c s = Inr (ep, shard, addr) \<and> fl_leaders w addr = Some l \<and>
     coord_Upload2 S mem_session_ops (fleet_ops Q G now status) b (c1, s, x1, w1) = (Inr \<lparr>Challenge = ch\<rparr>, c1, x1, w2) \<and>
     (let a' = shard_args1 a shard (new_session (ep_ID ep) shard (RouteRow a) now (r1_Uuid rep) (r1_HashKey rep));
          msg = session_message l (r1_Uuid rep) (r1_HashKey rep) ch a' b d; (er, q) = q_enqueue Q now msg (ld_queue l);
          (res, c3, x3, w3) = coord_Upload3 S mem_session_ops (fleet_ops Q G now status) d (c1, s, x1, w2)
      in m_LocalRow msg = RouteRow a - StartRow shard \<and> m_GlobalRow msg = ld_globalRowStart l - StartRow shard + RouteRow a \<and>
         isl res = isl er \<and> fl_leaders w3 = (fl_leaders w)(addr \<mapsto> l3) \<and> ld_queue l3 = q \<and>
         (isl er \<or> live_sessions x3 = live_sessions x \<and> co_sessions c3 = (co_sessions c)(r1_Uuid rep := None)))"
  using mem_deletable.upload1_outcome [OF assms(2) assms(1) [folded mem_sops]]
proof (elim disjE exE conjE)
  fix ep :: EpochMeta and shard :: ShardConfig and addr u h
  let ?session = "new_session (ep_ID ep) shard (RouteRow a) now u h"
  let ?a = "shard_args1 a shard ?session"
  assume route: "route_upload S (RouteRow a) c s = Inr (ep, shard, addr)" and rep: "Inr rep = Inr \<lparr>r1_Uuid = u, r1_HashKey = h\<rparr>"
    and new: "live_sessions x u = None" "live_sessions x1 = (live_sessions x)(u \<mapsto> ?session)" "c1 = cacheSession ?session c"
    and call: "rpc_Upload1 (fleet_ops Q G now status) addr ?a w = (Inr \<lparr>r1_Uuid = u, r1_HashKey = h\<rparr>, w1)"
  from call obtain l r' l1 where l: "fl_leaders w addr = Some l" "Upload1 G ?a (fl_rng w) l = (Inr rep, r', l1)"
    "w1 = w\<lparr>fl_leaders := (fl_leaders w)(addr \<mapsto> l1), fl_rng := r'\<rparr>"
    using rep by (auto elim!: fleet_upload1_ok)
  from leader_flow [OF l(2) k, of Q now] obtain ch l2 ns l3 where f0: "Upload2 b l1 = (Inr \<lparr>Challenge = ch\<rparr>, l2)"
    "let (er, q) = q_enqueue Q now (session_message l u h ch ?a b d) (ld_queue l)
      in Upload3 Q now d l2 = (map_sum id (\<lambda>_. ()) er, ns, l3) \<and> ld_queue l3 = q"
    using rep by (elim exE conjE) simp
  obtain er q where e: "q_enqueue Q now (session_message l u h ch ?a b d) (ld_queue l) = (er, q)" by fastforce
  note f = f0(1) e and f3 = f0(2) [unfolded e Let_def prod.case]
  have s: "GlobalUUID ?session = u" "LocalUUID ?session = u" "ss_HashKey ?session = h" "ep_ID ep = ss_EpochID ?session"
    "co_clients c (ss_ShardID ?session) = Some addr" "ct_CurrentEpoch S s = Some ep" "0 < ep_ID ep"
    using route_epoch [OF route] assms(3) by (simp_all add: new_session_def)
  have "fl_leaders w1 addr = Some l1" using l(3) by simp
  note flow = upload_flow_after_upload1 [OF s(1-3,6,7,4,5) this f0(1) conjunct1 [OF f3], where x = x and ?x1.0 = x1 and G = G and status = status]
  obtain c3 x3 where u3: "coord_Upload3 S mem_session_ops (fleet_ops Q G now status) d
      (c1, s, x1, w1\<lparr>fl_leaders := (fl_leaders w1)(addr \<mapsto> l2)\<rparr>)
      = (map_sum (coordinatorShardSessionError \<circ> rpc_error) (\<lambda>y. y) (map_sum id (\<lambda>_. ()) er), c3, x3,
         w1\<lparr>fl_leaders := (fl_leaders w1)(addr \<mapsto> l3)\<rparr>)"
    "\<not> isl er \<longrightarrow> live_sessions x3 = live_sessions x \<and> co_sessions c3 = (co_sessions c)(u := None)"
    using flow(2) k rep new by (auto simp: isl_map_sum)
  show ?thesis
    using route l(1) flow(1) k rep new f(2) f3 u3
    by (intro exI [of _ ep] exI [of _ shard] exI [of _ addr] exI [of _ l] exI [of _ ch]
        exI [of _ "w1\<lparr>fl_leaders := (fl_leaders w1)(addr \<mapsto> l2)\<rparr>"] exI [of _ l3])
      (auto simp: l(3) session_message_def shard_args1_def isl_map_sum Let_def)
qed simp

text \<open>An upload through the coordinator reaches the right queue, once. Let \<^verbatim>\<open>Upload1\<close> have succeeded through the
  coordinator, over database leaders. Then \<^verbatim>\<open>Upload2\<close> with the uuid and key it returned succeeds, and
  \<^verbatim>\<open>Upload3\<close> hands exactly one message to the queue of the leader that serves the shard owning the row:
  with that uuid and key, the leader's challenge, the client's second and third arguments unchanged,
  and the row in the shard's own numbering (in the global one it is the client's row again, when the
  leader was started with the shard's first row). It succeeds exactly when that queue accepts the
  message; then the session is gone from the store and the cache. No other leader is touched.\<close>

theorem coordinated_upload_reaches_queue:
  fixes w :: "('q, 'r) fleet" and status :: "string \<Rightarrow> ('q, 'r) fleet \<Rightarrow> StatusReply res option"
  assumes "coord_Upload1 S mem_session_ops (fleet_ops Q G now status) H now a (c, s, x, r, w) = (Inr rep, c1, x1, r1, w1)"
    and "\<not> IsZero now" "\<forall>ep. ct_CurrentEpoch S s = Some ep \<longrightarrow> 0 < ep_ID ep"
    and k: "a2_Uuid b = r1_Uuid rep" "a2_HashKey b = r1_HashKey rep" "a3_Uuid d = r1_Uuid rep" "a3_HashKey d = r1_HashKey rep"
  shows "\<exists>ep shard addr l ch w2 l3. route_upload S (RouteRow a) c s = Inr (ep, shard, addr) \<and> fl_leaders w addr = Some l \<and>
     coord_Upload2 S mem_session_ops (fleet_ops Q G now status) b (c1, s, x1, w1) = (Inr \<lparr>Challenge = ch\<rparr>, c1, x1, w2) \<and>
     (let a' = shard_args1 a shard (new_session (ep_ID ep) shard (RouteRow a) now (r1_Uuid rep) (r1_HashKey rep));
          msg = session_message l (r1_Uuid rep) (r1_HashKey rep) ch a' b d; (er, q) = q_enqueue Q now msg (ld_queue l);
          (res, c3, x3, w3) = coord_Upload3 S mem_session_ops (fleet_ops Q G now status) d (c1, s, x1, w2)
      in m_LocalRow msg = RouteRow a - StartRow shard \<and> m_GlobalRow msg = ld_globalRowStart l - StartRow shard + RouteRow a \<and>
         isl res = isl er \<and> fl_leaders w3 = (fl_leaders w)(addr \<mapsto> l3) \<and> ld_queue l3 = q \<and>
         (isl er \<or> live_sessions x3 = live_sessions x \<and> co_sessions c3 = (co_sessions c)(r1_Uuid rep := None)))"
  using assms by (rule coordinated_upload)

definition open_fleet :: "(memoryCompletedUploadQueue, int) fleet" where
  "open_fleet = \<lparr>fl_leaders = [''b-leader'' \<mapsto> active_leader\<lparr>ld_ShardID := 7, ld_globalRowStart := 256\<rparr>], fl_rng = 1\<rparr>"

lemma open_upload1:
  "\<exists>c1 x1 r1 w1. coord_Upload1 mem_control_ops mem_session_ops (fleet_ops mem_queue_ops counter_rng 4 (\<lambda>a w. None)) counter_rng 4
     (sample_args1\<lparr>RouteRow := 300\<rparr>) (sample_coordinator ''a'', open_store, NewMemorySessionStore, 9, open_fleet)
     = (Inr \<lparr>r1_Uuid = 9, r1_HashKey = replicate 32 10\<rparr>, c1, x1, r1, w1)"
  by (simp add: coord_Upload1_def route_upload_def acceptingEpochFromControlStore_def open_store_simps sample_inventory_def
      sample_coordinator_def counter_rng_def max_int64_def RandBytes_def numeral_eq_Suc new_session_def PutSession_def
      NewMemorySessionStore_def call_upload1_def shard_args1_def IsZero_def zero_time_def Let_def fleet_ops_def fleet_Upload1_def
      open_fleet_def active_leader_def sample_leader_def initial_runtime_def Upload1_def upload_guard_def isLeader_def
      upload1Command_def CompletedUploadReplicaStandby_def TABLE_HEIGHT_eq rpc_result_def)

theorem coordinated_upload_reaches_queue_witness:
  "\<exists>c1 x1 r1 w1 ch w2 y. coord_Upload1 mem_control_ops mem_session_ops (fleet_ops mem_queue_ops counter_rng 4 (\<lambda>a w. None)) counter_rng 4
     (sample_args1\<lparr>RouteRow := 300\<rparr>) (sample_coordinator ''a'', open_store, NewMemorySessionStore, 9, open_fleet)
     = (Inr \<lparr>r1_Uuid = 9, r1_HashKey = replicate 32 10\<rparr>, c1, x1, r1, w1) \<and>
     coord_Upload2 mem_control_ops mem_session_ops (fleet_ops mem_queue_ops counter_rng 4 (\<lambda>a w. None))
       \<lparr>a2_Uuid = 9, a2_HashKey = replicate 32 10, a2_Query = []\<rparr> (c1, open_store, x1, w1) = (Inr \<lparr>Challenge = ch\<rparr>, y, x1, w2)"
proof -
  obtain c1 x1 r1 w1 where run: "coord_Upload1 mem_control_ops mem_session_ops (fleet_ops mem_queue_ops counter_rng 4 (\<lambda>a w. None))
     counter_rng 4 (sample_args1\<lparr>RouteRow := 300\<rparr>) (sample_coordinator ''a'', open_store, NewMemorySessionStore, 9, open_fleet)
     = (Inr \<lparr>r1_Uuid = 9, r1_HashKey = replicate 32 10\<rparr>, c1, x1, r1, w1)" using open_upload1 by blast
  let ?rep = "\<lparr>r1_Uuid = 9, r1_HashKey = replicate 32 10\<rparr>"
  let ?b = "\<lparr>a2_Uuid = 9, a2_HashKey = replicate 32 10, a2_Query = []\<rparr>"
  let ?d = "\<lparr>a3_Uuid = 9, a3_HashKey = replicate 32 10, a3_Query = []\<rparr>"
  have "\<not> IsZero 4" "\<forall>ep. ct_CurrentEpoch mem_control_ops open_store = Some ep \<longrightarrow> 0 < ep_ID ep"
    "a2_Uuid ?b = r1_Uuid ?rep" "a2_HashKey ?b = r1_HashKey ?rep" "a3_Uuid ?d = r1_Uuid ?rep" "a3_HashKey ?d = r1_HashKey ?rep"
    by (simp_all add: IsZero_def zero_time_def open_store_simps)
  from coordinated_upload_reaches_queue [OF run this] obtain ch w2
    where "coord_Upload2 mem_control_ops mem_session_ops (fleet_ops mem_queue_ops counter_rng 4 (\<lambda>a w. None)) ?b
      (c1, open_store, x1, w1) = (Inr \<lparr>Challenge = ch\<rparr>, c1, x1, w2)" by blast
  with run show ?thesis by blast
qed

end
