(* ===== verification/Autoscaler.thy ===== *)
theory Autoscaler
  imports Coordinator_Scaling
begin

text \<open>
  The autoscaler (\<^verbatim>\<open>src/autoscaler\<close>): a process that reads the control store, decides about the latest
  recommendation and has the coordinator apply it.

  The coordinator is the interface \<^verbatim>\<open>coordinatorAdmin\<close>: a call that acts on the coordinator and the shared
  store. \<open>rpc_admin\<close> is \<^verbatim>\<open>rpcCoordinatorAdmin\<close>: when the answer is late the caller gets an error although
  the call has taken effect. \<open>clk n\<close> is the clock of the \<open>n\<close>-th write to the store. Logging is left out.

  What the autoscaler relies on is the locale \<open>scaling_admin\<close>, which the coordinator's
  \<^verbatim>\<open>ApplyScalingRecommendation\<close> meets. Shown here: without \<^verbatim>\<open>-apply\<close> an evaluation changes neither the shard
  map nor the cycle; with it, an evaluation that finds the cycle waiting for a decision always decides it,
  and the decision it reports agrees with the state it leaves.
\<close>

section \<open>Definitions\<close>

definition decisionMissing :: string where "decisionMissing = ''missing''"
definition decisionStale :: string where "decisionStale = ''stale''"
definition decisionBlockedActive :: string where "decisionBlockedActive = ''blocked_active_epoch''"
definition decisionDryRunApplicable :: string where "decisionDryRunApplicable = ''dry_run_applicable''"
definition decisionApplied :: string where "decisionApplied = ''applied''"
definition decisionApplyFailed :: string where "decisionApplyFailed = ''apply_failed''"
definition decisionDryRunFailed :: string where "decisionDryRunFailed = ''dry_run_failed''"
definition decisionNotApplicable :: string where "decisionNotApplicable = ''not_applicable''"
definition decisionReadFailed :: string where "decisionReadFailed = ''read_failed''"
definition decisionBlockedCycle :: string where "decisionBlockedCycle = ''blocked_cycle_state''"
definition scalingApplyStatusOK :: string where "scalingApplyStatusOK = ''applicable''"

lemmas decisions = decisionMissing_def decisionStale_def decisionBlockedActive_def decisionDryRunApplicable_def
  decisionApplied_def decisionApplyFailed_def decisionDryRunFailed_def decisionNotApplicable_def decisionReadFailed_def
  decisionBlockedCycle_def

type_synonym ('c, 's) admin = "bool \<Rightarrow> 'c \<times> 's \<Rightarrow> ApplyScalingRecommendationReply res \<times> 'c \<times> 's"

record autoscaler =
  as_apply :: bool
  minRecommendationEpoch :: int

definition cycle_update :: "EpochCycleRecord \<Rightarrow> string \<Rightarrow> EpochCycleRecord" where
  "cycle_update cycle reason = zero_cycle\<lparr>cy_EpochID := cy_EpochID cycle, cy_ShardConfigVersion := cy_ShardConfigVersion cycle,
     cy_ScalingRecommendationEpochID := cy_ScalingRecommendationEpochID cycle, cy_Reason := reason\<rparr>"

definition transitionCycleSkippedFromInProgress :: "'s control_ops \<Rightarrow> gotime \<Rightarrow> EpochCycleRecord \<Rightarrow> string \<Rightarrow> 's \<Rightarrow> 's" where
  "transitionCycleSkippedFromInProgress S now cycle reason s =
     snd (ct_PutEpochCycleTransition S now EpochCycleStateScalingInProgress EpochCycleStateScalingSkipped
            (cycle_update cycle reason) s)"

definition transitionCycleSkipped :: "'s control_ops \<Rightarrow> (nat \<Rightarrow> gotime) \<Rightarrow> EpochCycleRecord \<Rightarrow> string \<Rightarrow> 's \<Rightarrow> 's" where
  "transitionCycleSkipped S clk cycle reason s =
     (case ct_PutEpochCycleTransition S (clk 0) EpochCycleStateRecommendationReady EpochCycleStateScalingInProgress
             (cycle_update cycle ''autoscaler started scaling evaluation'') s of
        (Inl _, s) \<Rightarrow> s
      | (Inr _, s) \<Rightarrow> transitionCycleSkippedFromInProgress S (clk 1) cycle reason s)"

definition transitionCycleFailed :: "'s control_ops \<Rightarrow> gotime \<Rightarrow> EpochCycleRecord \<Rightarrow> string \<Rightarrow> 's \<Rightarrow> 's" where
  "transitionCycleFailed S now cycle reason s =
     snd (ct_PutEpochCycleTransition S now EpochCycleStateRecommendationReady EpochCycleStateFailed
            (cycle_update cycle reason) s)"

definition transitionCycleFailedInProgress :: "'s control_ops \<Rightarrow> gotime \<Rightarrow> EpochCycleRecord \<Rightarrow> string \<Rightarrow> 's \<Rightarrow> 's" where
  "transitionCycleFailedInProgress S now cycle reason s =
     snd (ct_PutEpochCycleTransition S now EpochCycleStateScalingInProgress EpochCycleStateFailed
            (cycle_update cycle reason) s)"

text \<open>The part of an evaluation that has the coordinator act, after the checks on what was read.\<close>

definition admin_phase ::
  "'s control_ops \<Rightarrow> ('c, 's) admin \<Rightarrow> (nat \<Rightarrow> gotime) \<Rightarrow> autoscaler \<Rightarrow> EpochCycleRecord \<Rightarrow> 'c \<times> 's
     \<Rightarrow> (string \<times> go_error option) \<times> 'c \<times> 's" where
  "admin_phase S A clk a cycle = (\<lambda>(c, s).
     case A True (c, s) of
       (Inl err, c, s) \<Rightarrow>
         ((decisionDryRunFailed, Some err), c,
          if as_apply a then transitionCycleFailedInProgress S (clk 2) cycle (error_text err) s else s)
     | (Inr dryRun, c, s) \<Rightarrow>
         if as_Status dryRun \<noteq> scalingApplyStatusOK
         then ((decisionNotApplicable, None), c,
               if as_apply a then transitionCycleSkippedFromInProgress S (clk 2) cycle (as_Reason dryRun) s else s)
         else if \<not> as_apply a then ((decisionDryRunApplicable, None), c, s)
         else case A False (c, s) of
           (Inl err, c, s) \<Rightarrow>
             ((decisionApplyFailed, None), c, transitionCycleFailedInProgress S (clk 3) cycle (error_text err) s)
         | (Inr _, c, s) \<Rightarrow> ((decisionApplied, None), c, s))"

text \<open>The checks on what was read: one that fails gives its decision \<open>d\<close>, and when \<^verbatim>\<open>-apply\<close> is set a skip or a
  failure is recorded in the cycle.\<close>

definition evaluate_ready ::
  "'s control_ops \<Rightarrow> ('c, 's) admin \<Rightarrow> (nat \<Rightarrow> gotime) \<Rightarrow> autoscaler \<Rightarrow> EpochCycleRecord \<Rightarrow> 'c \<times> 's
     \<Rightarrow> (string \<times> go_error option) \<times> 'c \<times> 's" where
  "evaluate_ready S A clk a cycle = (\<lambda>(c, s).
     let skip = (\<lambda>d reason. ((d, None), c, if as_apply a then transitionCycleSkipped S clk cycle reason s else s));
         fail = (\<lambda>d err reason. ((d, err), c, if as_apply a then transitionCycleFailed S (clk 0) cycle reason s else s))
     in case ct_GetLatestScalingRecommendation S s of
       Inl err \<Rightarrow> fail decisionReadFailed (Some err) (error_text err)
     | Inr None \<Rightarrow> skip decisionMissing ''latest scaling recommendation is missing''
     | Inr (Some latest) \<Rightarrow>
     if minRecommendationEpoch a > 0 \<and> sg_EpochID latest < minRecommendationEpoch a
     then skip decisionStale ''latest scaling recommendation is stale''
     else if sg_Action latest = scalingActionKeep
     then skip decisionNotApplicable ''latest scaling recommendation action is keep''
     else case ct_GetShardConfig S s of
       Inl err \<Rightarrow> fail decisionReadFailed (Some err) (error_text err)
     | Inr None \<Rightarrow> skip decisionMissing ''current shard config is missing''
     | Inr (Some current) \<Rightarrow>
     if sg_ShardConfigVersion latest \<noteq> cfg_Version current
     then skip decisionStale ''latest scaling recommendation targets a stale shard config''
     else if (case ct_CurrentEpoch S s of
                None \<Rightarrow> False
              | Some ep \<Rightarrow> ep_State ep = EpochStateActive \<or>
                  (case ct_Accepting S (ep_ID ep) s of Inl _ \<Rightarrow> False | Inr b \<Rightarrow> b))
     then fail decisionBlockedActive None ''epoch became active before scaling apply''
     else if \<not> as_apply a then admin_phase S A clk a cycle (c, s)
     else case ct_PutEpochCycleTransition S (clk 1) EpochCycleStateRecommendationReady EpochCycleStateScalingInProgress
                 (zero_cycle\<lparr>cy_EpochID := cy_EpochID cycle, cy_ShardConfigVersion := cfg_Version current,
                    cy_ScalingRecommendationEpochID := sg_EpochID latest,
                    cy_Reason := ''autoscaler started scaling evaluation''\<rparr>) s of
         (Inl _, s) \<Rightarrow> ((decisionApplyFailed, None), c, s)
       | (Inr _, s) \<Rightarrow> admin_phase S A clk a cycle (c, s))"

definition evaluateOnce ::
  "'s control_ops \<Rightarrow> ('c, 's) admin \<Rightarrow> (nat \<Rightarrow> gotime) \<Rightarrow> autoscaler \<Rightarrow> 'c \<times> 's \<Rightarrow> (string \<times> go_error option) \<times> 'c \<times> 's" where
  "evaluateOnce S A clk a = (\<lambda>(c, s).
     case ct_GetEpochCycle S s of
       Inl err \<Rightarrow> ((decisionReadFailed, Some err), c, s)
     | Inr None \<Rightarrow> ((decisionBlockedCycle, None), c, s)
     | Inr (Some cycle) \<Rightarrow>
         if cy_State cycle \<noteq> EpochCycleStateRecommendationReady then ((decisionBlockedCycle, None), c, s)
         else evaluate_ready S A clk a cycle (c, s))"

text \<open>The call over RPC. The environment answers each call in one of three ways: the coordinator cannot be
  dialled and nothing happens, the call is made and its answer arrives, or the call is made and the deadline of
  the evaluation passes before its answer, which is an error to the caller.\<close>

datatype rpc_answer = Undialled go_error | Answered | Late go_error

definition rpc_admin :: "(bool \<Rightarrow> rpc_answer) \<Rightarrow> ('c, 's) admin \<Rightarrow> ('c, 's) admin" where
  "rpc_admin net A dryRun x =
     (case net dryRun of
        Undialled err \<Rightarrow> (Inl err, x)
      | Answered \<Rightarrow> (case A dryRun x of (q, x) \<Rightarrow> (map_sum rpc_error (\<lambda>r. r) q, x))
      | Late err \<Rightarrow>
          (case A dryRun x of (q, x) \<Rightarrow>
             (Inl (Wrapped ''coordinator apply scaling recommendation timeout: '' err ''''), x)))"

text \<open>The loop: an evaluation with the clock \<open>clk\<close> and, for each clock of the list, one more after the interval
  has passed; then the context is done.\<close>

fun autoscaler_loop ::
  "'s control_ops \<Rightarrow> ('c, 's) admin \<Rightarrow> autoscaler \<Rightarrow> bool \<Rightarrow> go_error \<Rightarrow> (nat \<Rightarrow> gotime) \<Rightarrow> (nat \<Rightarrow> gotime) list \<Rightarrow> 'c \<times> 's
     \<Rightarrow> unit res \<times> 'c \<times> 's" where
  "autoscaler_loop S A a once ctxErr clk clks x =
     (case evaluateOnce S A clk a x of ((_, err), x) \<Rightarrow>
        if once then (case err of None \<Rightarrow> Inr () | Some e \<Rightarrow> Inl e, x)
        else (case clks of
                [] \<Rightarrow> (Inl ctxErr, x)
              | clk # clks \<Rightarrow> autoscaler_loop S A a once ctxErr clk clks x))"

definition autoscaler_run ::
  "'s control_ops \<Rightarrow> ('c, 's) admin \<Rightarrow> autoscaler \<Rightarrow> duration \<Rightarrow> bool \<Rightarrow> go_error \<Rightarrow> (nat \<Rightarrow> gotime) \<Rightarrow> (nat \<Rightarrow> gotime) list
     \<Rightarrow> 'c \<times> 's \<Rightarrow> unit res \<times> 'c \<times> 's" where
  "autoscaler_run S A a interval once ctxErr clk clks x =
     (if interval \<le> 0 then (Inl (ErrorString ''interval must be positive''), x)
      else autoscaler_loop S A a once ctxErr clk clks x)"

definition validateFlags :: "string \<Rightarrow> string \<Rightarrow> int \<Rightarrow> unit res" where
  "validateFlags coordinator controlTable intervalSeconds =
     (if coordinator = '''' then Inl (ErrorString ''-coordinator is required'')
      else if controlTable = '''' then Inl (ErrorString ''-control-table is required'')
      else if intervalSeconds \<le> 0 then Inl (ErrorString ''-interval-seconds must be positive'')
      else Inr ())"

section \<open>What an evaluation relies on\<close>

text \<open>The state of the cycle that goes with a decision.\<close>

definition decided_as :: "string \<Rightarrow> string \<Rightarrow> bool" where
  "decided_as d st \<longleftrightarrow>
     d \<in> {decisionMissing, decisionStale, decisionNotApplicable} \<and> st = EpochCycleStateScalingSkipped \<or>
     d = decisionApplied \<and> st = EpochCycleStateScalingApplied \<or>
     d \<in> {decisionReadFailed, decisionBlockedActive, decisionDryRunFailed} \<and> st = EpochCycleStateFailed \<or>
     d = decisionApplyFailed \<and> st \<in> {EpochCycleStateFailed, EpochCycleStateScalingApplied}"

locale scaling_admin =
  fixes A :: "('c, MemoryControlStore) admin"
  assumes dry_run: "A True (c, s) = (q, c', s') \<Longrightarrow> cycle_state s' = cycle_state s \<and> GetShardConfig s' = GetShardConfig s"
    and apply_ok: "cycle_state s = EpochCycleStateScalingInProgress \<Longrightarrow> A False (c, s) = (Inr r, c', s') \<Longrightarrow>
          cycle_state s' = EpochCycleStateScalingApplied"
    and apply_err: "cycle_state s = EpochCycleStateScalingInProgress \<Longrightarrow> A False (c, s) = (Inl e, c', s') \<Longrightarrow>
          cycle_state s' \<in> {EpochCycleStateScalingInProgress, EpochCycleStateScalingApplied, EpochCycleStateFailed}"
begin

lemma cycle_moves:
  assumes "cycle_state s = a" "normalizeEpochCycleState a = a" "validEpochCycleTransition a b"
  obtains s' where "PutEpochCycleTransition t a b upd s = (Inr (), s')" "cycle_state s' = b"
  using PutEpochCycleTransition_ok [of a s b t upd] assms by auto

lemma fail_in_progress:
  assumes "cycle_state s = EpochCycleStateScalingInProgress"
  shows "cycle_state (transitionCycleFailedInProgress mem_control_ops t cycle reason s) = EpochCycleStateFailed"
  by (rule cycle_moves [OF assms, of EpochCycleStateFailed t "cycle_update cycle reason"])
    (simp_all add: transitionCycleFailedInProgress_def cycle_table)

lemma skip_in_progress:
  assumes "cycle_state s = EpochCycleStateScalingInProgress"
  shows "cycle_state (transitionCycleSkippedFromInProgress mem_control_ops t cycle reason s) = EpochCycleStateScalingSkipped"
  by (rule cycle_moves [OF assms, of EpochCycleStateScalingSkipped t "cycle_update cycle reason"])
    (simp_all add: transitionCycleSkippedFromInProgress_def cycle_table)

lemma ready_failed: "validEpochCycleTransition EpochCycleStateRecommendationReady EpochCycleStateFailed"
  by (simp add: validEpochCycleTransition_def normalizeEpochCycleState_def cycle_states validEpochCycleState_def)

lemma fail_ready:
  assumes "cycle_state s = EpochCycleStateRecommendationReady"
  shows "cycle_state (transitionCycleFailed mem_control_ops t cycle reason s) = EpochCycleStateFailed"
  by (rule cycle_moves [OF assms, of EpochCycleStateFailed t "cycle_update cycle reason"])
    (simp_all add: transitionCycleFailed_def cycle_table ready_failed)

lemma skip_ready:
  assumes "cycle_state s = EpochCycleStateRecommendationReady"
  shows "cycle_state (transitionCycleSkipped mem_control_ops clk cycle reason s) = EpochCycleStateScalingSkipped"
proof -
  obtain s1 where "PutEpochCycleTransition (clk 0) EpochCycleStateRecommendationReady EpochCycleStateScalingInProgress
      (cycle_update cycle ''autoscaler started scaling evaluation'') s = (Inr (), s1)" "cycle_state s1 = EpochCycleStateScalingInProgress"
    using cycle_moves [OF assms, of EpochCycleStateScalingInProgress] cycle_table(3,8) by blast
  then show ?thesis by (simp add: transitionCycleSkipped_def skip_in_progress)
qed

lemma fail_after_apply:
  assumes "cycle_state s \<in> {EpochCycleStateScalingInProgress, EpochCycleStateScalingApplied, EpochCycleStateFailed}"
  shows "cycle_state (transitionCycleFailedInProgress mem_control_ops t cycle reason s)
    \<in> {EpochCycleStateFailed, EpochCycleStateScalingApplied}"
proof (cases "cycle_state s = EpochCycleStateScalingInProgress")
  case False
  then obtain e where "PutEpochCycleTransition t EpochCycleStateScalingInProgress EpochCycleStateFailed (cycle_update cycle reason) s = (Inl e, s)"
    using PutEpochCycleTransition_err [of EpochCycleStateScalingInProgress s EpochCycleStateFailed t] by (auto simp: cycle_table)
  then show ?thesis using assms False by (auto simp: transitionCycleFailedInProgress_def)
qed (simp add: fail_in_progress)

lemma admin_decides:
  assumes "as_apply a" "cycle_state s = EpochCycleStateScalingInProgress"
    and run: "admin_phase mem_control_ops A clk a cycle (c, s) = ((d, err), c', s')"
  shows "decided_as d (cycle_state s')"
proof -
  obtain q c1 s1 where dry: "A True (c, s) = (q, c1, s1)" by (rule prod_cases3)
  have s1: "cycle_state s1 = EpochCycleStateScalingInProgress" using dry_run [OF dry] assms(2) by simp
  obtain q2 c2 s2 where ap: "A False (c1, s1) = (q2, c2, s2)" by (rule prod_cases3)
  show ?thesis
    using assms(1) run dry ap s1 fail_in_progress [OF s1] skip_in_progress [OF s1]
      apply_ok [OF s1, of c1 _ c2 s2] fail_after_apply [OF apply_err [OF s1, of c1 _ c2 s2]]
    by (cases q; cases q2) (auto simp: admin_phase_def decided_as_def split: if_splits)
qed

lemma admin_observes:
  assumes "\<not> as_apply a" "admin_phase mem_control_ops A clk a cycle (c, s) = (q, c', s')"
  shows "cycle_state s' = cycle_state s \<and> GetShardConfig s' = GetShardConfig s"
  using assms dry_run [of c s] by (auto simp: admin_phase_def split: prod.splits sum.splits if_splits)

lemma evaluate_decides:
  assumes "as_apply a" "cycle_state s = EpochCycleStateRecommendationReady"
    and run: "evaluate_ready mem_control_ops A clk a cycle (c, s) = ((d, err), c', s')"
  shows "decided_as d (cycle_state s')"
proof -
  define s1 where "s1 upd = snd (PutEpochCycleTransition (clk 1) EpochCycleStateRecommendationReady EpochCycleStateScalingInProgress upd s)" for upd
  have put: "PutEpochCycleTransition (clk 1) EpochCycleStateRecommendationReady EpochCycleStateScalingInProgress upd s = (Inr (), s1 upd)"
      "cycle_state (s1 upd) = EpochCycleStateScalingInProgress" for upd
    using PutEpochCycleTransition_ok [of EpochCycleStateRecommendationReady s EpochCycleStateScalingInProgress "clk 1" upd] assms(2)
    by (auto simp: s1_def cycle_table)
  have skip: "decided_as d (cycle_state (transitionCycleSkipped mem_control_ops clk cycle reason s))"
    if "d \<in> {decisionMissing, decisionStale, decisionNotApplicable}" for d reason
    using that skip_ready [OF assms(2)] by (simp add: decided_as_def)
  have fail: "decided_as decisionBlockedActive (cycle_state (transitionCycleFailed mem_control_ops (clk 0) cycle reason s))" for reason
    using fail_ready [OF assms(2)] by (simp add: decided_as_def)
  note adm = admin_decides [OF assms(1) put(2), of clk cycle c _ d err c' s']
  show ?thesis
  proof (cases "GetLatestScalingRecommendation s")
    case None
    then show ?thesis using run assms(1) skip by (auto simp: evaluate_ready_def Let_def)
  next
    case (Some latest)
    note l = Some
    show ?thesis
    proof (cases "GetShardConfig s")
      case None
      then show ?thesis using run assms(1) skip l by (auto simp: evaluate_ready_def Let_def split: if_splits)
    next
      case (Some current)
      then show ?thesis using run assms(1) skip fail l adm by (auto simp: evaluate_ready_def Let_def put(1) [unfolded One_nat_def] split: if_splits)
    qed
  qed
qed

lemma evaluate_observes:
  assumes "\<not> as_apply a" "evaluateOnce mem_control_ops A clk a (c, s) = (q, c', s')"
  shows "cycle_state s' = cycle_state s \<and> GetShardConfig s' = GetShardConfig s"
  using assms admin_observes [OF assms(1), of clk _ c s]
  by (auto simp: evaluateOnce_def evaluate_ready_def Let_def split: option.splits if_splits)

lemma evaluation_outcome:
  assumes run: "evaluateOnce mem_control_ops A clk a (c, s) = ((d, err), c', s')"
  shows "if cycle_state s \<noteq> EpochCycleStateRecommendationReady then d = decisionBlockedCycle \<and> s' = s
    else if as_apply a then decided_as d (cycle_state s')
    else cycle_state s' = cycle_state s \<and> GetShardConfig s' = GetShardConfig s"
proof (cases "cycle_state s = EpochCycleStateRecommendationReady")
  case True
  then have g: "GetEpochCycle s = Some (mc_epochCycle s)" "cy_State (mc_epochCycle s) = EpochCycleStateRecommendationReady"
    by (auto simp: cycle_state_def GetEpochCycle_def cycle_states split: if_splits)
  show ?thesis
  proof (cases "as_apply a")
    case act: True
    have "evaluate_ready mem_control_ops A clk a (mc_epochCycle s) (c, s) = ((d, err), c', s')"
      using run g by (simp add: evaluateOnce_def)
    from evaluate_decides [OF act True this] show ?thesis using True act by simp
  qed (use evaluate_observes [OF _ run] True in simp)
next
  case False
  then show ?thesis using run by (auto simp: evaluateOnce_def cycle_state_def GetEpochCycle_def split: if_splits)
qed

end

section \<open>The coordinator meets it\<close>

definition coordinator_admin ::
  "'w shard_ops \<Rightarrow> (nat \<Rightarrow> gotime) \<Rightarrow> 'w \<Rightarrow> (Coordinator, MemoryControlStore) admin" where
  "coordinator_admin R clk w dryRun x = ApplyScalingRecommendation mem_control_ops R clk dryRun w x"

lemma dry_run_frame:
  assumes "ApplyScalingRecommendation mem_control_ops R clk True w (c, s) = (q, c', s')"
  shows "\<exists>L. s' = s\<lparr>mc_lease := L\<rparr>"
proof -
  obtain r c1 s1 where l: "requireCoordinatorLease mem_control_ops (clk 0) (c, s) = (r, c1, s1)" by (rule prod_cases3)
  obtain L where s1: "s1 = s\<lparr>mc_lease := L\<rparr>" using l by (rule mem_require_store)
  have "s' = s1" using assms l by (auto simp: ApplyScalingRecommendation_def split: sum.splits)
  then show ?thesis using s1 by blast
qed

lemma apply_in_progress:
  assumes "cycle_state s = EpochCycleStateScalingInProgress"
    and "ApplyScalingRecommendation mem_control_ops R clk False w (c, s) = (q, c', s')"
  shows "cycle_state s' \<in> (if isl q then {EpochCycleStateScalingInProgress, EpochCycleStateFailed} else {EpochCycleStateScalingApplied})"
proof -
  have v: "validEpochCycleState (cycle_state s)" using assms(1) by (simp add: validEpochCycleState_def)
  from apply_cases [OF v assms(2)] show ?thesis
  proof (elim disjE exE conjE)
    fix v c1 L ev cyc
    assume "cycle_state (s\<lparr>mc_lease := L, mc_epochCycle := cyc, hasEpochCycle := True\<rparr>) = EpochCycleStateScalingInProgress"
      "apply_proposed mem_control_ops R clk w ev (c1, s\<lparr>mc_lease := L, mc_epochCycle := cyc, hasEpochCycle := True\<rparr>) = (q, c', s')"
    from apply_proposed_cases(1) [OF this] show ?thesis by (auto simp: cycle_state_def)
  qed (use assms(1) in auto)
qed

interpretation rpc_scaling: scaling_admin "rpc_admin net (coordinator_admin R clk w)"
proof unfold_locales
  fix c s q c' s'
  assume "rpc_admin net (coordinator_admin R clk w) True (c, s) = (q, c', s')"
  then have "s' = s \<or> (\<exists>q1. ApplyScalingRecommendation mem_control_ops R clk True w (c, s) = (q1, c', s'))"
    by (auto simp: rpc_admin_def coordinator_admin_def split: prod.splits rpc_answer.splits)
  then show "cycle_state s' = cycle_state s \<and> GetShardConfig s' = GetShardConfig s"
    by (auto simp: cycle_state_def GetShardConfig_def dest!: dry_run_frame)
next
  fix s c r c' s'
  assume st: "cycle_state s = EpochCycleStateScalingInProgress"
    and "rpc_admin net (coordinator_admin R clk w) False (c, s) = (Inr r, c', s')"
  then obtain q1 where "ApplyScalingRecommendation mem_control_ops R clk False w (c, s) = (q1, c', s')" "\<not> isl q1"
    by (cases "fst (ApplyScalingRecommendation mem_control_ops R clk False w (c, s))")
      (auto simp: rpc_admin_def coordinator_admin_def split: prod.splits rpc_answer.splits)
  with apply_in_progress [OF st this(1)] show "cycle_state s' = EpochCycleStateScalingApplied" by simp
next
  fix s c e c' s'
  assume st: "cycle_state s = EpochCycleStateScalingInProgress"
    and "rpc_admin net (coordinator_admin R clk w) False (c, s) = (Inl e, c', s')"
  then have "s' = s \<or> (\<exists>q1. ApplyScalingRecommendation mem_control_ops R clk False w (c, s) = (q1, c', s'))"
    by (auto simp: rpc_admin_def coordinator_admin_def split: prod.splits rpc_answer.splits)
  with st show "cycle_state s' \<in> {EpochCycleStateScalingInProgress, EpochCycleStateScalingApplied, EpochCycleStateFailed}"
    by (auto split: if_splits dest!: apply_in_progress [OF st])
qed

section \<open>Properties\<close>


end
