(* ===== verification/Deployment.thy ===== *)
theory Deployment
  imports Coordinator_Config Shard_Fleet Autoscaler
begin

text \<open>
  Several coordinators, one control store, one session store and the shards, as a system: a step is
  one remote call, one timer or one background tick at one of the coordinators, one evaluation of an
  autoscaler, the end or the start of a coordinator process (\<open>coordinator_main\<close>), or activity of the shards on their own. The stores are the
  in-memory ones, shared by the coordinators the way the repository's tests share them. The handlers are
  those of the coordinator theories; they run one after the other, so the interleavings are those of
  whole handlers.

  Shown here: every handler acts on the control store by calls of the store's own operations (\<open>acts\<close>), so
  that what is kept in the store stays well formed and is never taken back in any run; and two ways in
  which the epoch cycle comes to rest for good.
\<close>

section \<open>The system\<close>

datatype coord_call =
    CTick gotime
  | CStart "nat \<Rightarrow> gotime" int int int
  | CTimer "nat \<Rightarrow> gotime"
  | CApply "nat \<Rightarrow> gotime" bool
  | CSkip "nat \<Rightarrow> gotime"
  | CPromote "nat \<Rightarrow> gotime" int bool
  | CAuto "nat \<Rightarrow> gotime"
  | CHealth gotime
  | CUpload1 gotime UploadArgs1
  | CUpload2 UploadArgs2
  | CUpload3 UploadArgs3

type_synonym ('r, 'w) parts = "Coordinator \<times> MemoryControlStore \<times> MemorySessionStore \<times> 'r \<times> 'w"

fun coord_step :: "'w shard_ops \<Rightarrow> 'r rng \<Rightarrow> coord_call \<Rightarrow> ('r, 'w) parts \<Rightarrow> ('r, 'w) parts" where
  "coord_step R G (CTick now) (c, s, x, r, w) =
     (let (_, c, s) = maintainCoordinatorLease mem_control_ops now (c, s) in (c, s, x, r, w))"
| "coord_step R G (CStart clk d e u) (c, s, x, r, w) =
     (let (_, c, s, w) = coord_StartEpoch mem_control_ops R clk d e u (c, s, w) in (c, s, x, r, w))"
| "coord_step R G (CTimer clk) (c, s, x, r, w) = (let (c, s) = completeEpoch mem_control_ops clk (c, s) in (c, s, x, r, w))"
| "coord_step R G (CApply clk dryRun) (c, s, x, r, w) =
     (let (_, c, s) = ApplyScalingRecommendation mem_control_ops R clk dryRun w (c, s) in (c, s, x, r, w))"
| "coord_step R G (CSkip clk) (c, s, x, r, w) =
     (let (_, c, s) = SkipScalingRecommendation mem_control_ops clk (c, s) in (c, s, x, r, w))"
| "coord_step R G (CPromote clk shardID force) (c, s, x, r, w) =
     (let (_, c, s) = PromoteShardStandby mem_control_ops R clk shardID force w (c, s) in (c, s, x, r, w))"
| "coord_step R G (CAuto clk) (c, s, x, r, w) =
     (let (c, s) = runAutoPromotionCheck mem_control_ops R clk w (c, s) in (c, s, x, r, w))"
| "coord_step R G (CHealth now) (c, s, x, r, w) =
     (refreshShardHealth mem_control_ops R defaultShardStatusTimeout now s w c, s, x, r, w)"
| "coord_step R G (CUpload1 now args) (c, s, x, r, w) =
     (let (_, c, x, r, w) = coord_Upload1 mem_control_ops mem_session_ops R G now args (c, s, x, r, w) in (c, s, x, r, w))"
| "coord_step R G (CUpload2 args) (c, s, x, r, w) =
     (let (_, c, x, w) = coord_Upload2 mem_control_ops mem_session_ops R args (c, s, x, w) in (c, s, x, r, w))"
| "coord_step R G (CUpload3 args) (c, s, x, r, w) =
     (let (_, c, x, w) = coord_Upload3 mem_control_ops mem_session_ops R args (c, s, x, w) in (c, s, x, r, w))"

record ('r, 'w) deployment =
  dp_coords :: "Coordinator list"
  dp_store :: MemoryControlStore
  dp_sessions :: MemorySessionStore
  dp_rng :: 'r
  dp_shards :: 'w

inductive dstep :: "'w shard_ops \<Rightarrow> 'r rng \<Rightarrow> ('r, 'w) deployment \<Rightarrow> ('r, 'w) deployment \<Rightarrow> bool" for R G where
  Call: "i < length (dp_coords D) \<Longrightarrow>
     coord_step R G call (dp_coords D ! i, dp_store D, dp_sessions D, dp_rng D, dp_shards D) = (c, s, x, r, w) \<Longrightarrow>
     dstep R G D \<lparr>dp_coords = (dp_coords D)[i := c], dp_store = s, dp_sessions = x, dp_rng = r, dp_shards = w\<rparr>"
| Shards: "dstep R G D (D\<lparr>dp_shards := w\<rparr>)"
| Scale: "i < length (dp_coords D) \<Longrightarrow>
     evaluateOnce mem_control_ops (rpc_admin net (coordinator_admin R clk (dp_shards D))) clk' a (dp_coords D ! i, dp_store D) = (d, c, s) \<Longrightarrow>
     dstep R G D (D\<lparr>dp_coords := (dp_coords D)[i := c], dp_store := s\<rparr>)"
| Stop: "i < length (dp_coords D) \<Longrightarrow> dstep R G D (D\<lparr>dp_coords := take i (dp_coords D) @ drop (Suc i) (dp_coords D)\<rparr>)"
| Start: "coordinator_main mem_control_ops R now defaultID flags (dp_shards D) (dp_store D) = (p, s) \<Longrightarrow>
     dstep R G D (D\<lparr>dp_coords := dp_coords D @ (case p of None \<Rightarrow> [] | Some c \<Rightarrow> [c]), dp_store := s\<rparr>)"

inductive dreach :: "'w shard_ops \<Rightarrow> 'r rng \<Rightarrow> ('r, 'w) deployment \<Rightarrow> ('r, 'w) deployment \<Rightarrow> bool" for R G D where
  Refl: "dreach R G D D"
| Step: "dreach R G D E \<Longrightarrow> dstep R G E F \<Longrightarrow> dreach R G D F"

inductive_cases dstep_cases: "dstep R G D E"

section \<open>What the handlers do to the epoch cycle\<close>

text \<open>\<open>keeps (c, s) (c', s')\<close>: neither the coordinator's epoch nor the store's cycle has changed.\<close>

definition keeps :: "Coordinator \<times> MemoryControlStore \<Rightarrow> Coordinator \<times> MemoryControlStore \<Rightarrow> bool" where
  "keeps = (\<lambda>(c, s) (c', s'). co_epoch c' = co_epoch c \<and> cycle_state s' = cycle_state s)"

lemma keeps_simps [simp]: "keeps (c, s) (c', s') \<longleftrightarrow> co_epoch c' = co_epoch c \<and> cycle_state s' = cycle_state s"
  by (simp add: keeps_def)

lemma require_keeps:
  assumes "requireCoordinatorLease mem_control_ops t (c, s) = (r, c', s')"
  shows "co_epoch c' = co_epoch c" "cycle_state s' = cycle_state s" "availableShards c' = availableShards c"
proof -
  obtain L where "s' = s\<lparr>mc_lease := L\<rparr>" using assms by (rule mem_require_store)
  then show "cycle_state s' = cycle_state s" by simp
  obtain M y where "c' = c\<lparr>co_lease := M, co_role := y\<rparr>" using assms by (rule require_frame)
  then show "co_epoch c' = co_epoch c" "availableShards c' = availableShards c" by simp_all
qed

lemma acquire_cycle: "cycle_state (snd (AcquireLease t h ttl s)) = cycle_state s"
  by (simp add: AcquireLease_def cycle_state_def Let_def)

lemma renew_cycle: "cycle_state (snd (RenewLease t h k ttl s)) = cycle_state s"
  by (simp add: RenewLease_def cycle_state_def Let_def)

lemma put_config_cycle: "cycle_state (snd (PutShardConfig config s)) = cycle_state s"
  by (auto simp: PutShardConfig_def cycle_state_def split: sum.splits)

lemma role_epoch [simp]: "co_epoch (snd (transitionCoordinatorRole x c)) = co_epoch c"
  by (simp add: transitionCoordinatorRole_def)

lemma commit_epoch [simp]:
  "co_epoch (commitRenewedLease k l c) = co_epoch c" "co_epoch (commitStaleRole c) = co_epoch c"
  "co_epoch (commitPassiveRoleIfEligible c) = co_epoch c" "co_epoch (commitAcquiredLease l c) = co_epoch c"
  by (simp_all add: commitRenewedLease_def commitStaleRole_def commitPassiveRoleIfEligible_def commitAcquiredLease_def)

lemma tick_keeps:
  assumes "maintainCoordinatorLease mem_control_ops t (c, s) = (r, c', s')"
  shows "keeps (c, s) (c', s')"
  using assms renew_cycle [of t "leaseHolder c" "FencingToken (co_lease c)" "leaseTTL c" s]
    acquire_cycle [of t "leaseHolder c" "leaseTTL c" s]
  by (auto simp: maintainCoordinatorLease_def renewCoordinatorLease_def tryAcquireCoordinatorLease_def Let_def
      split: if_splits prod.splits sum.splits)

lemma start_blocked:
  assumes "validEpochCycleState (cycle_state s)" "cycle_state s \<notin> decided \<union> {EpochCycleStateIdle}"
    and run: "coord_StartEpoch mem_control_ops R clk d e u (c, s, w) = (q, c', s', w')"
  shows "isl q" "keeps (c, s) (c', s')" "w' = w"
proof -
  obtain r c1 s1 where l: "requireCoordinatorLease mem_control_ops (clk 0) (c, s) = (r, c1, s1)" by (rule prod_cases3)
  note k = require_keeps [OF l]
  have "epochCycleState mem_control_ops s1 = cycle_state s" using mem_epochCycleState [of s1] assms(1) k by simp
  then have "isl (requireEpochCycleAllowsStart mem_control_ops s1)"
    using assms(2) by (auto simp: requireEpochCycleAllowsStart_def decided_def Let_def)
  then have "isl q \<and> keeps (c, s) (c', s') \<and> w' = w"
    using run l k by (cases r; cases "requireEpochCycleAllowsStart mem_control_ops s1")
      (auto simp: coord_StartEpoch_def split: if_splits)
  then show "isl q" "keeps (c, s) (c', s')" "w' = w" by blast+
qed

lemma mem_put_mismatch:
  assumes "normalizeEpochCycleState a \<noteq> cycle_state s"
  shows "\<exists>e. putEpochCycleTransition mem_control_ops t a b upd s = (Inl e, s)"
  using PutEpochCycleTransition_err [of a s b t] assms by (auto simp: putEpochCycleTransition_def)

lemma persist_blocked:
  assumes "cycle_state s \<noteq> EpochCycleStateActive"
  shows "cycle_state (persist_recommendation mem_control_ops clk m rec e v s) = cycle_state s"
proof -
  obtain q s1 where put: "PutScalingRecommendation (clk 2) (scalingRecommendationRecord m rec v (clk 1)) s = (q, s1)" by fastforce
  have a: "normalizeEpochCycleState EpochCycleStateActive \<noteq> cycle_state s1"
    using put_scaling_frame(4) [OF put] assms by (simp add: cycle_table)
  show ?thesis
    using mem_put_mismatch [OF a] put put_scaling_frame(4) [OF put]
    by (cases q) (auto simp: persist_recommendation_def transitionEpochCycleFailed_def transitionEpochCycleRecommendationReady_def
        split: prod.splits sum.splits, (metis snd_conv fst_conv sum.distinct)+)
qed

lemma complete_cycle: "cycle_state (snd (store_CompleteEpoch e s)) = cycle_state s"
  by (simp add: store_CompleteEpoch_def cycle_state_def Let_def)

lemma timer_idle: "ep_State (co_epoch c) \<noteq> EpochStateActive \<Longrightarrow> completeEpoch mem_control_ops clk (c, s) = (c, s)"
  by (simp add: completeEpoch_def)

lemma timer_blocked:
  assumes "cycle_state s \<noteq> EpochCycleStateActive" "completeEpoch mem_control_ops clk (c, s) = (c', s')"
  shows "cycle_state s' = cycle_state s"
proof (cases "ep_State (co_epoch c) = EpochStateActive \<and> ep_ID (co_epoch c) \<noteq> 0")
  case False
  then show ?thesis using assms(2) by (auto simp: completeEpoch_def split: if_splits)
next
  case True
  obtain r c1 s1 where l: "requireCoordinatorLease mem_control_ops (clk 0) (c, s) = (r, c1, s1)" by (rule prod_cases3)
  note k = require_keeps [OF l]
  obtain m rec b c2 where com: "commitCompletedEpoch (ep_ID (co_epoch c)) c1 = ((m, rec, b), c2)" by (metis prod.exhaust)
  obtain q s2 where st: "store_CompleteEpoch (ep_ID (co_epoch c)) s1 = (q, s2)" by fastforce
  have "cycle_state s2 = cycle_state s" using complete_cycle [of "ep_ID (co_epoch c)" s1] st k by simp
  then show ?thesis
    using assms True l com st k persist_blocked [of s2 clk m rec "ep_ID (co_epoch c)" "currentShardConfigVersion mem_control_ops s2"]
    by (cases r; cases b; cases q) (auto simp: completeEpoch_def Let_def split: if_splits)
qed

lemma skip_blocked:
  assumes "validEpochCycleState (cycle_state s)" "cycle_state s \<noteq> EpochCycleStateRecommendationReady"
    and run: "SkipScalingRecommendation mem_control_ops clk (c, s) = (q, c', s')"
  shows "keeps (c, s) (c', s')"
proof -
  obtain r c1 s1 where l: "requireCoordinatorLease mem_control_ops (clk 0) (c, s) = (r, c1, s1)" by (rule prod_cases3)
  note k = require_keeps [OF l]
  have "epochCycleState mem_control_ops s1 = cycle_state s" using mem_epochCycleState [of s1] assms(1) k by simp
  then show ?thesis using run l k assms(2) by (cases r) (auto simp: SkipScalingRecommendation_def)
qed

lemma apply_blocked:
  assumes "validEpochCycleState (cycle_state s)"
    "cycle_state s \<notin> {EpochCycleStateRecommendationReady, EpochCycleStateScalingInProgress}"
    and run: "ApplyScalingRecommendation mem_control_ops R clk dryRun w (c, s) = (q, c', s')"
  shows "keeps (c, s) (c', s')"
proof -
  obtain r c1 s1 where l: "requireCoordinatorLease mem_control_ops (clk 0) (c, s) = (r, c1, s1)" by (rule prod_cases3)
  note k = require_keeps [OF l]
  have st: "epochCycleState mem_control_ops s1 = cycle_state s" using mem_epochCycleState [of s1] assms(1) k by simp
  show ?thesis
  proof (cases "evaluateScalingApply mem_control_ops (availableShards c1) s1")
    case (Inl e)
    then show ?thesis using run l k by (cases r) (auto simp: ApplyScalingRecommendation_def)
  next
    case (Inr ev)
    then show ?thesis using run l k st assms(2)
      by (cases r; cases "requireScalingApplyApplicable ev"; cases dryRun) (auto simp: ApplyScalingRecommendation_def)
  qed
qed

lemma promotion_keeps:
  assumes "applyShardStandbyPromotion mem_control_ops R ev w (c, s) = (q, c', s')"
  shows "keeps (c, s) (c', s')"
  using assms put_config_cycle [of "pe_proposed ev" s]
  by (cases "rpc_Dial R (LeaderAddr (Active (pe_promotedShard ev))) w"; cases "PutShardConfig (pe_proposed ev) s";
      cases "fst (PutShardConfig (pe_proposed ev) s)")
    (auto simp: applyShardStandbyPromotion_def replaceActiveShardClientWith_def Let_def)

lemma refresh_epoch [simp]: "co_epoch (refreshShardHealth S R t now s w c) = co_epoch c"
  by (simp add: refreshShardHealth_def Let_def)

lemma auto_epoch [simp]:
  "co_epoch (put_auto_state k st c) = co_epoch c" "co_epoch (recordAutoPromotionResult k a b t p c) = co_epoch c"
  by (simp_all add: put_auto_state_def recordAutoPromotionResult_def)

lemma not_authoritative_epoch [simp]: "co_epoch (recordAutoPromotionNotAuthoritative S e s c) = co_epoch c"
proof -
  have "co_epoch (foldl (\<lambda>c shard. put_auto_state (f shard) (g c shard) c) d ss) = co_epoch d"
    for f :: "ShardConfig \<Rightarrow> int" and g d ss by (induction ss arbitrary: d) auto
  then show ?thesis by (simp add: recordAutoPromotionNotAuthoritative_def)
qed

lemma promote_keeps:
  assumes "PromoteShardStandby mem_control_ops R clk k force w (c, s) = (q, c', s')"
  shows "keeps (c, s) (c', s')"
proof -
  obtain r c1 s1 where l: "requireCoordinatorLease mem_control_ops (clk 0) (c, s) = (r, c1, s1)" by (rule prod_cases3)
  obtain ev c2 where e: "evaluateShardStandbyPromotion mem_control_ops R (clk 1) k force s1 w c1 = (ev, c2)" by fastforce
  have c2: "co_epoch c2 = co_epoch c1"
    using e by (auto simp: evaluateShardStandbyPromotion_def Let_def split: if_splits sum.splits option.splits)
  show ?thesis
    using assms l e c2 require_keeps [OF l] promotion_keeps [of R "projr ev" w c2 s1]
    by (cases r; cases ev) (auto simp: PromoteShardStandby_def split: if_splits prod.splits sum.splits)
qed

lemma auto_promote_keeps:
  "auto_promote mem_control_ops R cfg now w ss (c, s) = (c', s') \<Longrightarrow> keeps (c, s) (c', s')"
proof (induction ss arbitrary: c)
  case (Cons shard ss)
  obtain st c1 where e: "evaluateAutoPromotionShard shard cfg now c = (st, c1)" by fastforce
  have c1: "co_epoch c1 = co_epoch c" using e by (auto simp: evaluateAutoPromotionShard_def Let_def)
  show ?case
  proof (cases "Eligible st")
    case False
    then show ?thesis using Cons e c1 by fastforce
  next
    case True
    then show ?thesis
      using Cons.prems e c1 promotion_keeps [of R "projr (autoPromotionEvaluation mem_control_ops (sc_ID shard) s)" w c1 s]
      by (cases "autoPromotionEvaluation mem_control_ops (sc_ID shard) s") (auto split: prod.splits sum.splits)
  qed
qed simp

lemma auto_keeps:
  assumes "runAutoPromotionCheck mem_control_ops R clk w (c, s) = (c', s')"
  shows "keeps (c, s) (c', s')"
proof -
  obtain r c1 s1 where l: "requireCoordinatorLease mem_control_ops (clk 0) (c, s) = (r, c1, s1)" by (rule prod_cases3)
  show ?thesis
    using assms l require_keeps [OF l]
      auto_promote_keeps [of R "autoPromotion c" "clk 2" w _ "refreshShardHealth mem_control_ops R defaultShardStatusTimeout (clk 1) s1 w c1" s1 c' s']
    by (cases r; cases "activeShardConfig mem_control_ops s1") (auto simp: runAutoPromotionCheck_def Let_def split: if_splits)
qed

lemma cached_epoch: "co_epoch (snd (cachedOrStoredSession T u x c)) = co_epoch c"
  using cached_coordinator [of T u x c] by auto

lemma resume_epoch: "resume_session S T u k (c, s, x) = (q, c') \<Longrightarrow> co_epoch c' = co_epoch c"
  using resume_coordinator [of S T u k c s x] cached_epoch by (metis snd_conv)

lemma record3_epoch [simp]: "co_epoch (recordUpload3Success r c) = co_epoch c"
  by (simp add: recordUpload3Success_def Let_def)

lemma upload1_epoch: "coord_Upload1 S T R G t a (c, s, x, r, w) = (q, c', y) \<Longrightarrow> co_epoch c' = co_epoch c"
  by (auto simp: coord_Upload1_def call_upload1_def cacheSession_def Let_def split: sum.splits prod.splits option.splits if_splits)

lemma upload2_epoch: "coord_Upload2 S T R a (c, s, x, w) = (q, c', y) \<Longrightarrow> co_epoch c' = co_epoch c"
  using resume_epoch [of S T "a2_Uuid a" "a2_HashKey a" c s x]
  by (auto simp: coord_Upload2_def split: sum.splits prod.splits)

lemma upload3_epoch: "coord_Upload3 S T R a (c, s, x, w) = (q, c', y) \<Longrightarrow> co_epoch c' = co_epoch c"
  using resume_epoch [of S T "a3_Uuid a" "a3_HashKey a" c s x]
  by (auto simp: coord_Upload3_def split: sum.splits prod.splits if_splits)

lemma ensure_cycle: "cycle_state (snd (ensureShardConfig mem_control_ops invt seed b s)) = cycle_state s"
  using put_config_cycle by (auto simp: ensureShardConfig_def Let_def split: sum.splits option.splits prod.splits) (metis snd_conv)+

lemma new_coordinator_frame:
  assumes "newCoordinator mem_control_ops now invt cl h ttl rn standby sc n s = (q, s')"
  shows "cycle_state s' = cycle_state s" "q = Inr d \<Longrightarrow> co_epoch d = no_epoch"
proof -
  obtain a s1 where a: "AcquireLease now h ttl s = (a, s1)" by fastforce
  have s1: "cycle_state s1 = cycle_state s" using acquire_cycle [of now h ttl s] a by simp
  have s2: "cycle_state s2 = cycle_state s1" if "ensureShardConfig mem_control_ops v seed b s1 = (e, s2)" for v seed b e s2
    using ensure_cycle [of v seed b s1] that by simp
  show "cycle_state s' = cycle_state s" "q = Inr d \<Longrightarrow> co_epoch d = no_epoch"
    using assms a s1 s2 unfolding newCoordinator_def mem_control_ops_simps
    by (auto simp: Let_def split: sum.splits prod.splits if_splits)
qed

lemma main_frame:
  assumes "coordinator_main mem_control_ops R now defaultID flags w s = (p, s')"
  shows "cycle_state s' = cycle_state s" "p = Some c \<Longrightarrow> co_epoch c = no_epoch"
proof -
  have *: "cycle_state s1 = cycle_state s \<and> (\<forall>d. q = Inr d \<longrightarrow> co_epoch d = no_epoch)"
    if "newCoordinator mem_control_ops now shards Map.empty h ttl rn standby sc n s = (q, s1)" for q s1 shards h ttl rn standby sc n
    using new_coordinator_frame [OF that] by blast
  have "cycle_state s' = cycle_state s \<and> (p = Some c \<longrightarrow> co_epoch c = no_epoch)"
    using assms unfolding coordinator_main_def
    by (auto split: if_splits sum.splits prod.splits simp: connectShards_def configureAutoPromotion_def Let_def dest!: *)
  then show "cycle_state s' = cycle_state s" "p = Some c \<Longrightarrow> co_epoch c = no_epoch" by blast+
qed

section \<open>What the handlers do to the store\<close>

text \<open>\<open>acts s s'\<close>: the store went from \<open>s\<close> to \<open>s'\<close> by calls of its own operations, in some order; a started
  epoch is given the version of the shard map that the store has at that moment (\<^verbatim>\<open>StartEpoch\<close> of the
  in-memory store writes it into the map).\<close>

fun fits :: "control_op lease_call \<Rightarrow> MemoryControlStore \<Rightarrow> bool" where
  "fits (CallOther (CtlStartEpoch ep v)) s \<longleftrightarrow> (mc_hasShardConfig s \<longrightarrow> v = cfg_Version (mc_shardConfig s))"
| "fits call s \<longleftrightarrow> True"

inductive acts :: "MemoryControlStore \<Rightarrow> MemoryControlStore \<Rightarrow> bool" where
  acts_refl [simp]: "acts s s"
| acts_call: "acts s t \<Longrightarrow> fits call t \<Longrightarrow> acts s (snd (mem_lease.perform call t))"

lemma acts_trans [trans]: "acts s t \<Longrightarrow> acts t u \<Longrightarrow> acts s u"
  by (rotate_tac, induction rule: acts.induct) (auto intro: acts.intros)

lemma acts_step: "snd (mem_lease.perform call s) = s' \<Longrightarrow> fits call s \<Longrightarrow> acts s s'"
  using acts_call [OF acts_refl] by blast

lemma acts_acquire: "AcquireLease t h d s = (r, s') \<Longrightarrow> acts s s'"
  by (rule acts_step [of "CallAcquire t h d"]) (auto split: sum.splits)

lemma acts_renew: "RenewLease t h k d s = (r, s') \<Longrightarrow> acts s s'"
  by (rule acts_step [of "CallRenew t h k d"]) (auto split: sum.splits)

lemma acts_control: "fits (CallOther x) s \<Longrightarrow> acts s (control_step x s)"
  by (rule acts_step [of "CallOther x"]) simp_all

lemma acts_op:
  "store_CompleteEpoch i s = (r2, s') \<Longrightarrow> acts s s'"
  "PutShardConfig cfg s = (r3, s') \<Longrightarrow> acts s s'" "PutEpochShardConfig i cfg s = (r4, s') \<Longrightarrow> acts s s'"
  "PutScalingRecommendation t rcd s = (r5, s') \<Longrightarrow> acts s s'" "PutEpochCycleTransition t a b upd s = (r6, s') \<Longrightarrow> acts s s'"
  using acts_control [of "CtlCompleteEpoch i" s]
    acts_control [of "CtlPutShardConfig cfg" s] acts_control [of "CtlPutEpochShardConfig i cfg" s]
    acts_control [of "CtlPutScaling t rcd" s] acts_control [of "CtlPutCycle t a b upd" s] by simp_all

lemma acts_store_start:
  "store_StartEpoch ep v s = (r, s') \<Longrightarrow> mc_hasShardConfig s \<longrightarrow> v = cfg_Version (mc_shardConfig s) \<Longrightarrow> acts s s'"
  using acts_control [of "CtlStartEpoch ep v" s] by simp

lemma acts_put_cycle: "acts s (snd (putEpochCycleTransition mem_control_ops t a b upd s))"
  using acts_control [of "CtlPutCycle t a b (if IsZero (cy_UpdatedAt upd) then upd\<lparr>cy_UpdatedAt := t\<rparr> else upd)" s]
  by (simp add: putEpochCycleTransition_def)

lemma acts_transition:
  "putEpochCycleTransition mem_control_ops t a b upd s = (r, s') \<Longrightarrow> acts s s'"
  "acts s (transitionEpochCycleFailed mem_control_ops t a i v reason s)"
  "transitionEpochCycleStarted mem_control_ops t i v s = (r, s') \<Longrightarrow> acts s s'"
  "transitionEpochCycleRecommendationReady mem_control_ops t i v s = (r, s') \<Longrightarrow> acts s s'"
  using acts_put_cycle [of s] unfolding transitionEpochCycleFailed_def transitionEpochCycleStarted_def
    transitionEpochCycleRecommendationReady_def by (metis snd_conv)+

lemma acts_skipped: "transitionEpochCycleScalingSkipped mem_control_ops t i v reason s = (r, s') \<Longrightarrow> acts s s'"
  by (auto simp: transitionEpochCycleScalingSkipped_def Let_def split: prod.splits sum.splits
      dest!: acts_transition(1) intro: acts_trans)

lemma acts_require:
  assumes "requireCoordinatorLease mem_control_ops t (c, s) = (r, c', s')"
  shows "acts s s'"
  using assms acts_renew [of t "leaseHolder c" "FencingToken (co_lease c)" "leaseTTL c" s]
  by (auto simp: requireCoordinatorLease_def renewCoordinatorLease_def Let_def split: prod.splits sum.splits)

lemma acts_tick:
  assumes "maintainCoordinatorLease mem_control_ops t (c, s) = (r, c', s')"
  shows "acts s s'"
  using assms acts_renew [of t "leaseHolder c" "FencingToken (co_lease c)" "leaseTTL c" s]
    acts_acquire [of t "leaseHolder c" "leaseTTL c" s]
  by (auto simp: maintainCoordinatorLease_def renewCoordinatorLease_def tryAcquireCoordinatorLease_def Let_def
      split: if_splits prod.splits sum.splits)

lemma put_epoch_config_frame:
  "PutEpochShardConfig i cfg s = (r, s') \<Longrightarrow> mc_hasShardConfig s' = mc_hasShardConfig s \<and> mc_shardConfig s' = mc_shardConfig s"
  by (auto simp: PutEpochShardConfig_def Let_def split: if_splits sum.splits option.splits)

lemma acts_record:
  assumes "record_started_epoch mem_control_ops R clk cfg n reply started (c, s, w) = (r, c', s', w')"
    and v: "mc_hasShardConfig s \<longrightarrow> cfg_Version cfg = cfg_Version (mc_shardConfig s)"
  shows "acts s s'"
proof -
  let ?ep = "started_epoch reply"
  obtain q c1 s1 where l: "requireCoordinatorLease mem_control_ops (clk 2) (c, s) = (q, c1, s1)" by (rule prod_cases3)
  obtain L where s1: "s1 = s\<lparr>mc_lease := L\<rparr>" using l by (rule mem_require_store)
  obtain p s2 where put: "PutEpochShardConfig (ep_ID ?ep) (epochShardConfigRecord cfg (ep_ID ?ep)) s1 = (p, s2)" by fastforce
  obtain x s3 where st: "store_StartEpoch ?ep (cfg_Version cfg) s2 = (x, s3)" by fastforce
  have a: "acts s s1" "acts s s2" using acts_require [OF l] acts_op(3) [OF put] acts_trans by blast+
  have "acts s s3" using acts_store_start [OF st] put_epoch_config_frame [OF put] v a(2) acts_trans by (auto simp: s1)
  then show ?thesis using assms(1) a l put st unfolding record_started_epoch_def Let_def mem_control_ops_simps
    by (auto split: prod.splits sum.splits dest!: acts_transition(3) intro: acts_trans)
qed

lemma acts_start:
  assumes "coord_StartEpoch mem_control_ops R clk d e u (c, s, w) = (q, c', s', w')"
  shows "acts s s'"
proof -
  have cfg: "mc_hasShardConfig t \<longrightarrow> cfg_Version config = cfg_Version (mc_shardConfig t)"
    if "activeShardConfig mem_control_ops t = Inr config" for t config
    using that by (auto simp: activeShardConfig_def GetShardConfig_def split: if_splits sum.splits)
  show ?thesis using assms unfolding coord_StartEpoch_def Let_def
    by (auto split: prod.splits sum.splits if_splits dest!: acts_require acts_record [OF _ cfg] intro: acts_trans)
qed

lemma acts_persist: "acts s (persist_recommendation mem_control_ops clk m rec e v s)"
  unfolding persist_recommendation_def mem_control_ops_simps
  by (auto split: prod.splits sum.splits dest!: acts_op acts_transition(4) acts_skipped
      intro: acts_trans acts_transition(2) acts_skipped [OF surjective_pairing])

lemma acts_timer:
  assumes "completeEpoch mem_control_ops clk (c, s) = (c', s')"
  shows "acts s s'"
  using assms unfolding completeEpoch_def Let_def mem_control_ops_simps
  by (auto split: prod.splits sum.splits if_splits dest!: acts_require acts_op intro: acts_trans acts_persist)

lemma acts_proposed:
  assumes "apply_proposed mem_control_ops R clk w ev (c, s) = (q, c', s')"
  shows "acts s s'"
  using assms unfolding apply_proposed_def Let_def mem_control_ops_simps
  by (auto split: prod.splits sum.splits dest!: acts_op acts_transition(1) intro: acts_trans acts_transition(2))

lemma acts_apply:
  assumes "ApplyScalingRecommendation mem_control_ops R clk dryRun w (c, s) = (q, c', s')"
  shows "acts s s'"
  using assms unfolding ApplyScalingRecommendation_def Let_def
  by (auto split: prod.splits sum.splits if_splits dest!: acts_require acts_transition(1) acts_proposed intro: acts_trans)

lemma acts_skip:
  assumes "SkipScalingRecommendation mem_control_ops clk (c, s) = (q, c', s')"
  shows "acts s s'"
  using assms unfolding SkipScalingRecommendation_def Let_def
  by (auto split: prod.splits sum.splits if_splits option.splits dest!: acts_require acts_skipped intro: acts_trans)

lemma acts_promotion:
  assumes "applyShardStandbyPromotion mem_control_ops R ev w (c, s) = (q, c', s')"
  shows "acts s s'"
  using assms unfolding applyShardStandbyPromotion_def Let_def mem_control_ops_simps
  by (auto split: prod.splits sum.splits dest!: acts_op)

lemma acts_promote:
  assumes "PromoteShardStandby mem_control_ops R clk k force w (c, s) = (q, c', s')"
  shows "acts s s'"
  using assms unfolding PromoteShardStandby_def Let_def
  by (auto split: prod.splits sum.splits if_splits dest!: acts_require acts_promotion intro: acts_trans)

lemma acts_auto_promote: "auto_promote mem_control_ops R cfg now w ss (c, s) = (c', s') \<Longrightarrow> acts s s'"
  by (induction ss arbitrary: c)
    (auto simp: Let_def split: prod.splits sum.splits if_splits dest: acts_promotion)

lemma acts_auto:
  assumes "runAutoPromotionCheck mem_control_ops R clk w (c, s) = (c', s')"
  shows "acts s s'"
  using assms unfolding runAutoPromotionCheck_def Let_def
  by (auto split: prod.splits sum.splits if_splits dest!: acts_require acts_auto_promote intro: acts_trans)

lemma acts_ensure:
  assumes "ensureShardConfig mem_control_ops invt seed b s = (r, s')"
  shows "acts s s'"
  using assms unfolding ensureShardConfig_def Let_def mem_control_ops_simps
  by (auto split: prod.splits sum.splits if_splits option.splits dest!: acts_op)

lemma acts_new:
  assumes "newCoordinator mem_control_ops now invt cl h ttl rn standby sc n s = (q, s')"
  shows "acts s s'"
  using assms unfolding newCoordinator_def mem_control_ops_simps
  by (auto simp: Let_def split: sum.splits prod.splits if_splits dest!: acts_acquire acts_ensure intro: acts_trans)

lemma acts_main: "coordinator_main mem_control_ops R now defaultID flags w s = (p, s') \<Longrightarrow> acts s s'"
  unfolding coordinator_main_def by (auto split: if_splits sum.splits prod.splits dest!: acts_new)

lemma acts_autoscaler_moves:
  "acts s (transitionCycleSkippedFromInProgress mem_control_ops t cycle reason s)"
  "acts s (transitionCycleFailed mem_control_ops t cycle reason s)"
  "acts s (transitionCycleFailedInProgress mem_control_ops t cycle reason s)"
  using acts_control [of "CtlPutCycle t _ _ (cycle_update cycle reason)" s]
  by (simp_all add: transitionCycleSkippedFromInProgress_def transitionCycleFailed_def transitionCycleFailedInProgress_def)

lemma acts_autoscaler_skip: "acts s (transitionCycleSkipped mem_control_ops clk cycle reason s)"
  unfolding transitionCycleSkipped_def mem_control_ops_simps
  by (auto split: prod.splits sum.splits dest!: acts_op intro: acts_trans acts_autoscaler_moves)

lemma acts_admin: "rpc_admin net (coordinator_admin R clk w) dryRun (c, s) = (q, c', s') \<Longrightarrow> acts s s'"
  by (auto simp: rpc_admin_def coordinator_admin_def split: prod.splits rpc_answer.splits dest: acts_apply)

lemma acts_admin_phase:
  assumes "admin_phase mem_control_ops (rpc_admin net (coordinator_admin R clk w)) clk' a cycle (c, s) = (q, c', s')"
  shows "acts s s'"
  using assms unfolding admin_phase_def
  by (auto split: prod.splits sum.splits if_splits dest!: acts_admin intro: acts_trans acts_autoscaler_moves)

lemma acts_autoscaler:
  assumes "evaluateOnce mem_control_ops (rpc_admin net (coordinator_admin R clk w)) clk' a (c, s) = (q, c', s')"
  shows "acts s s'"
  using assms unfolding evaluateOnce_def evaluate_ready_def Let_def mem_control_ops_simps
  by (auto split: prod.splits sum.splits if_splits option.splits dest!: acts_op acts_admin_phase
      intro: acts_trans acts_autoscaler_moves acts_autoscaler_skip)

lemma autoscaler_waits:
  assumes "cycle_state s \<noteq> EpochCycleStateRecommendationReady"
    and "evaluateOnce mem_control_ops A clk' a (c, s) = (q, c', s')"
  shows "c' = c \<and> s' = s"
  using assms by (auto simp: evaluateOnce_def cycle_state_def GetEpochCycle_def split: if_splits)

lemma step_acts:
  assumes "coord_step R G call (c, s, x, r, w) = (c', s', x', r', w')"
  shows "acts s s'"
  using assms
  by (cases call) (auto simp: Let_def split: prod.splits
      dest: acts_tick acts_start acts_timer acts_apply acts_skip acts_promote acts_auto)

lemma dstep_acts: "dstep R G D E \<Longrightarrow> acts (dp_store D) (dp_store E)"
  by (auto elim!: dstep_cases dest: step_acts acts_main acts_autoscaler)

lemma dreach_acts: "dreach R G D E \<Longrightarrow> acts (dp_store D) (dp_store E)"
  by (induction rule: dreach.induct) (auto intro: acts_trans dstep_acts)

section \<open>The store through every run\<close>

text \<open>What is in a store: tokens that agree, a cycle state of the table, shard maps that tile the rows, under
  their keys, valid recommendations under their epochs, the newest one published.\<close>

definition store_typed :: "MemoryControlStore \<Rightarrow> bool" where
  "store_typed s \<longleftrightarrow> lease_ok s \<and> scaling_ok s \<and> validEpochCycleState (cycle_state s) \<and>
     (mc_hasShardConfig s \<longrightarrow> store_validateShardConfigRecord (mc_shardConfig s) = Inr ()) \<and>
     (\<forall>e config. mc_epochShardConfig s e = Some config \<longrightarrow>
        0 < e \<and> cfg_Key config = epochShardConfigKey e \<and> store_validateShardConfigRecord config = Inr ()) \<and>
     (\<forall>e r. scalingByEpoch s e = Some r \<longrightarrow>
        sg_EpochID r = e \<and> sg_Key r = epochScalingRecommendationKey e \<and> validateScalingRecommendationRecord r = Inr ())"

text \<open>\<open>later s s'\<close>: what a later store may not take back.\<close>

definition later :: "MemoryControlStore \<Rightarrow> MemoryControlStore \<Rightarrow> bool" where
  "later s s' \<longleftrightarrow> lastFencingToken s \<le> lastFencingToken s' \<and>
     (mc_hasShardConfig s \<longrightarrow> mc_hasShardConfig s' \<and> cfg_Version (mc_shardConfig s) \<le> cfg_Version (mc_shardConfig s')) \<and>
     (\<forall>e config. mc_epochShardConfig s e = Some config \<longrightarrow> mc_epochShardConfig s' e = Some config) \<and>
     (\<forall>e r. scalingByEpoch s e = Some r \<longrightarrow> scalingByEpoch s' e = Some r)"

text \<open>Two stores that differ at most in the lease.\<close>

definition same_but_lease :: "MemoryControlStore \<Rightarrow> MemoryControlStore \<Rightarrow> bool" where
  "same_but_lease s s' \<longleftrightarrow> lastFencingToken s \<le> lastFencingToken s' \<and> mc_shardConfig s' = mc_shardConfig s \<and>
     mc_hasShardConfig s' = mc_hasShardConfig s \<and> mc_epochShardConfig s' = mc_epochShardConfig s \<and>
     scalingByEpoch s' = scalingByEpoch s \<and> latestScaling s' = latestScaling s \<and> hasLatestScaling s' = hasLatestScaling s \<and>
     mc_epochCycle s' = mc_epochCycle s \<and> hasEpochCycle s' = hasEpochCycle s"

lemma lease_ops_frame:
  "same_but_lease s (snd (AcquireLease t h d s))" "same_but_lease s (snd (RenewLease t h k d s))"
  by (simp_all add: same_but_lease_def AcquireLease_def RenewLease_def Let_def)

lemma validate_update:
  "validateScalingRecommendationRecord (r\<lparr>sg_Key := k\<rparr>) = validateScalingRecommendationRecord r"
  "validateScalingRecommendationRecord (r\<lparr>sg_CreatedAt := t\<rparr>) = validateScalingRecommendationRecord r"
  by (simp_all add: validateScalingRecommendationRecord_def cong: if_cong split del: if_split)

lemma stamp_valid [simp]:
  "validateScalingRecommendationRecord (stamp_scaling t r) = validateScalingRecommendationRecord r"
  "sg_Key (stamp_scaling t r) = epochScalingRecommendationKey (sg_EpochID r)" "sg_EpochID (stamp_scaling t r) = sg_EpochID r"
  by (simp_all add: stamp_scaling_def validate_update Let_def)

lemma publish_frame [simp]:
  "scalingByEpoch (publish_scaling r s) = scalingByEpoch s" "mc_epochShardConfig (publish_scaling r s) = mc_epochShardConfig s"
  "mc_hasShardConfig (publish_scaling r s) = mc_hasShardConfig s" "mc_shardConfig (publish_scaling r s) = mc_shardConfig s"
  "lastFencingToken (publish_scaling r s) = lastFencingToken s"
  by (simp_all add: publish_scaling_def Let_def)

lemma control_typed:
  assumes "store_typed s" "fits (CallOther x) s"
  shows "store_typed (control_step x s)"
proof -
  have "lease_ok (control_step x s)" "scaling_ok (control_step x s)" "validEpochCycleState (cycle_state (control_step x s))"
    using assms mem_lease.other_inv control_step_scaling_ok cycle_state_valid by (simp_all add: store_typed_def)
  then show ?thesis
    using assms
    by (cases x) (auto simp: store_typed_def control_ops PutEpochShardConfig_def PutScalingRecommendation_def
        PutEpochCycleTransition_def Let_def split: sum.splits option.splits if_splits)
qed

lemma control_later: "fits (CallOther x) s \<Longrightarrow> later s (control_step x s)"
  by (cases x) (auto simp: later_def control_ops PutEpochShardConfig_def PutScalingRecommendation_def
        PutEpochCycleTransition_def Let_def split: sum.splits option.splits if_splits)

lemma perform_store:
  assumes "fits call s"
  shows "store_typed s \<Longrightarrow> store_typed (snd (mem_lease.perform call s))" "later s (snd (mem_lease.perform call s))"
proof -
  obtain g s' where p: "mem_lease.perform call s = (g, s')" by fastforce
  have inv: "lease_ok s \<Longrightarrow> lease_ok s'" using mem_lease.perform_inv [of s call] p by simp
  have "(\<exists>x. call = CallOther x \<and> s' = control_step x s) \<or> same_but_lease s s'"
  proof (cases call)
    case (CallAcquire t h d)
    then have "s' = snd (AcquireLease t h d s)" using p by (auto split: sum.splits prod.splits)
    then show ?thesis using lease_ops_frame(1) by simp
  next
    case (CallRenew t h k d)
    then have "s' = snd (RenewLease t h k d s)" using p by (auto split: sum.splits prod.splits)
    then show ?thesis using lease_ops_frame(2) by simp
  qed (use p in auto)
  then have "(store_typed s \<longrightarrow> store_typed s') \<and> later s s'"
  proof (elim disjE exE conjE)
    fix x assume "call = CallOther x" "s' = control_step x s"
    then show ?thesis using control_typed control_later assms by simp
  qed (use inv in \<open>auto simp: store_typed_def later_def scaling_ok_def cycle_state_def same_but_lease_def\<close>)
  then show "store_typed s \<Longrightarrow> store_typed (snd (mem_lease.perform call s))" "later s (snd (mem_lease.perform call s))"
    using p by simp_all
qed

lemma later_trans: "later s t \<Longrightarrow> later t u \<Longrightarrow> later s u"
  unfolding later_def by (meson order_trans)

lemma acts_typed: "acts s s' \<Longrightarrow> store_typed s \<Longrightarrow> store_typed s'"
  by (induction rule: acts.induct) (auto intro: perform_store(1))

lemma acts_later: "acts s s' \<Longrightarrow> later s s'"
  by (induction rule: acts.induct) (simp add: later_def, blast intro: later_trans perform_store(2))

section \<open>Cycles that come to rest\<close>

text \<open>The cycle has failed, or it is in an epoch that no coordinator remembers.\<close>

definition at_rest :: "('r, 'w) deployment \<Rightarrow> bool" where
  "at_rest D \<longleftrightarrow> cycle_state (dp_store D) = EpochCycleStateFailed \<or>
     cycle_state (dp_store D) = EpochCycleStateActive \<and> (\<forall>c \<in> set (dp_coords D). ep_State (co_epoch c) \<noteq> EpochStateActive)"

lemma rest_states:
  assumes "z \<in> {EpochCycleStateFailed, EpochCycleStateActive}"
  shows "validEpochCycleState z" "z \<notin> decided \<union> {EpochCycleStateIdle}" "z \<noteq> EpochCycleStateRecommendationReady"
    "z \<notin> {EpochCycleStateRecommendationReady, EpochCycleStateScalingInProgress}"
  using assms by (auto simp: validEpochCycleState_def decided_def cycle_states)

lemma step_at_rest:
  assumes "cycle_state s \<in> {EpochCycleStateFailed, EpochCycleStateActive}"
    "cycle_state s = EpochCycleStateActive \<Longrightarrow> ep_State (co_epoch c) \<noteq> EpochStateActive"
    and "coord_step R G call (c, s, x, r, w) = (c', s', x', r', w')"
  shows "cycle_state s' = cycle_state s" "cycle_state s = EpochCycleStateActive \<Longrightarrow> ep_State (co_epoch c') \<noteq> EpochStateActive"
proof -
  note st = rest_states [OF assms(1)]
  have "cycle_state s' = cycle_state s \<and> (cycle_state s = EpochCycleStateActive \<longrightarrow> ep_State (co_epoch c') \<noteq> EpochStateActive)"
  proof (cases call)
    case (CTimer clk)
    obtain c1 s1 where t: "completeEpoch mem_control_ops clk (c, s) = (c1, s1)" by fastforce
    then have "c' = c1" "s' = s1" using assms(3) CTimer by simp_all
    then show ?thesis using assms(2) t timer_idle [of c clk s] timer_blocked [OF _ t]
      by (cases "cycle_state s = EpochCycleStateActive") simp_all
  qed (use assms st in \<open>auto dest!: tick_keeps start_blocked(2) [OF st(1,2)] skip_blocked [OF st(1,3)]
      apply_blocked [OF st(1,4)] promote_keeps auto_keeps upload1_epoch upload2_epoch upload3_epoch split: prod.splits\<close>)
  then show "cycle_state s' = cycle_state s" "cycle_state s = EpochCycleStateActive \<Longrightarrow> ep_State (co_epoch c') \<noteq> EpochStateActive"
    by blast+
qed

section \<open>Properties\<close>

lemma rest_step:
  assumes "dstep R G D E" "at_rest D"
  shows "at_rest E"
  using assms
proof (induction rule: dstep.induct)
  case (Call i D call c s x r w)
  have st: "cycle_state (dp_store D) \<in> {EpochCycleStateFailed, EpochCycleStateActive}"
    and ci: "cycle_state (dp_store D) = EpochCycleStateActive \<Longrightarrow> ep_State (co_epoch (dp_coords D ! i)) \<noteq> EpochStateActive"
    using Call(1,3) by (auto simp: at_rest_def cycle_states)
  note n = step_at_rest [OF st ci Call(2)]
  show ?case using Call(3) n set_update_subset_insert [of "dp_coords D" i c] by (auto simp: at_rest_def)
next
  case (Scale i D net clk clk' a d c s)
  have "cycle_state (dp_store D) \<noteq> EpochCycleStateRecommendationReady" using Scale(3) by (auto simp: at_rest_def cycle_states)
  from autoscaler_waits [OF this Scale(2)] show ?case using Scale(3) by (simp add: at_rest_def)
next
  case (Stop i D)
  then show ?case using set_take_subset [of i "dp_coords D"] set_drop_subset [of "Suc i" "dp_coords D"] by (auto simp: at_rest_def)
next
  case (Start now defaultID flags D p s)
  then show ?case using main_frame [OF Start(1)] by (auto simp: at_rest_def no_epoch_def split: option.splits)
qed (simp add: at_rest_def)

lemma rest_refuses:
  assumes "at_rest D"
  shows "isl (fst (coord_StartEpoch mem_control_ops R clk d e u (c, dp_store D, w)))"
proof -
  have "cycle_state (dp_store D) \<in> {EpochCycleStateFailed, EpochCycleStateActive}" using assms by (auto simp: at_rest_def)
  note st = rest_states(1,2) [OF this]
  obtain q c' s' w' where "coord_StartEpoch mem_control_ops R clk d e u (c, dp_store D, w) = (q, c', s', w')" by (metis prod_cases4)
  then show ?thesis using start_blocked(1) [OF st] by simp
qed

text \<open>C18: The stored state is well formed in every run. Let any number of coordinators, in whatever state, share a
  new in-memory control store, and let any calls, timers, background ticks, autoscalers, processes that end or start and
  shard activity happen, one handler at a time. Then at every moment the store is well formed: the lease carries the
  last token handed out, the cycle is in a state of the table, the shard map in force and the ones
  kept for epochs are accepted by the validator and stored under the key of their epoch, and so are the
  recommendations, the newest of which is the published one.\<close>

theorem deployment_store_well_formed:
  assumes "dp_store D = NewMemoryControlStore" "dreach R G D E"
  shows "store_typed (dp_store E)"
proof -
  have "store_typed NewMemoryControlStore"
    using new_store_ok by (simp add: store_typed_def) (simp add: NewMemoryControlStore_def)
  then show ?thesis using acts_typed [OF dreach_acts [OF assms(2)]] assms(1) by simp
qed

text \<open>A passive coordinator on a new store; its tick acquires the lease.\<close>

definition sample_deployment :: "(int, nat) deployment" where
  "sample_deployment = \<lparr>dp_coords = [(sample_coordinator ''a'')\<lparr>co_role := coordinatorRolePassive\<rparr>],
     dp_store = NewMemoryControlStore, dp_sessions = NewMemorySessionStore, dp_rng = 1, dp_shards = 0\<rparr>"

lemma sample_deployment_run:
  "\<exists>E. dreach echo_shards counter_rng sample_deployment E \<and> lastFencingToken (dp_store E) = 1"
proof -
  obtain c s x r w where step: "coord_step echo_shards counter_rng (CTick 4) (dp_coords sample_deployment ! 0, dp_store sample_deployment,
      dp_sessions sample_deployment, dp_rng sample_deployment, dp_shards sample_deployment) = (c, s, x, r, w)" by (metis prod.exhaust)
  have "lastFencingToken s = 1" using step
    by (auto simp: sample_deployment_def maintainCoordinatorLease_def tryAcquireCoordinatorLease_def AcquireLease_def
        renewCoordinatorLease_def RenewLease_def NewMemoryControlStore_def roles Let_def split: if_splits)
  moreover have "0 < length (dp_coords sample_deployment)" by (simp add: sample_deployment_def)
  ultimately show ?thesis using dreach.Step [OF dreach.Refl dstep.Call [OF _ step]] by fastforce
qed

theorem deployment_store_well_formed_witness:
  "\<exists>E. dreach echo_shards counter_rng sample_deployment E \<and> lastFencingToken (dp_store E) = 1 \<and> store_typed (dp_store E)"
proof -
  obtain E where E: "dreach echo_shards counter_rng sample_deployment E" "lastFencingToken (dp_store E) = 1" using sample_deployment_run by blast
  have "dp_store sample_deployment = NewMemoryControlStore" by (simp add: sample_deployment_def)
  from deployment_store_well_formed [OF this E(1)] E show ?thesis by blast
qed

text \<open>C23: What the store never takes back. In every run of the deployment, from any state: the last fencing
  token never decreases, a shard map once written is never removed and its version never decreases, and
  the shard map and the recommendation stored for an epoch never change.\<close>

theorem deployment_never_takes_back:
  assumes "dreach R G D E"
  shows "later (dp_store D) (dp_store E)"
  using acts_later [OF dreach_acts [OF assms]] .

theorem deployment_never_takes_back_witness:
  "\<exists>E. dreach echo_shards counter_rng sample_deployment E \<and> lastFencingToken (dp_store E) = 1 \<and>
     later (dp_store sample_deployment) (dp_store E)"
  using sample_deployment_run deployment_never_takes_back by blast

text \<open>C39: An epoch cycle can come to rest for good. Suppose that the cycle in the store is \<^verbatim>\<open>failed\<close>, or that it
  is \<^verbatim>\<open>active\<close> while no coordinator has an active epoch in memory (the process of the coordinator that
  started it has ended). Then whatever calls, timers, ticks, promotions and autoscalers do at whatever
  coordinators, and whichever coordinators end or start, the cycle stays where it is, and every \<^verbatim>\<open>StartEpoch\<close>, at any coordinator and with any
  arguments, is refused. The store has a transition out of \<^verbatim>\<open>failed\<close>, which no handler makes.\<close>

theorem epoch_cycle_rests_forever:
  assumes "at_rest D" "dreach R G D E"
  shows "at_rest E \<and> (\<forall>i < length (dp_coords E). \<forall>clk d e u.
     isl (fst (coord_StartEpoch mem_control_ops R clk d e u (dp_coords E ! i, dp_store E, dp_shards E))))"
proof -
  from assms(2) have "at_rest E" by (induction rule: dreach.induct) (use assms(1) rest_step in blast)+
  then show ?thesis by (simp add: rest_refuses)
qed

text \<open>The process of the coordinator that runs epoch 1 ends; coordinator b is left.\<close>

definition running_deployment :: "(int, nat) deployment" where
  "running_deployment = \<lparr>dp_coords = [ending_coordinator, sample_coordinator ''b''], dp_store = ending_store,
     dp_sessions = NewMemorySessionStore, dp_rng = 1, dp_shards = 0\<rparr>"

theorem epoch_cycle_rests_forever_witness:
  "\<exists>E. dstep echo_shards counter_rng running_deployment E \<and> dp_coords E = [sample_coordinator ''b''] \<and> at_rest E \<and>
     isl (fst (coord_StartEpoch mem_control_ops echo_shards (\<lambda>_. 50) 60 0 0 (sample_coordinator ''b'', dp_store E, dp_shards E)))"
proof -
  let ?E = "running_deployment\<lparr>dp_coords := [sample_coordinator ''b'']\<rparr>"
  have "dstep echo_shards counter_rng running_deployment ?E"
    using dstep.Stop [of 0 running_deployment echo_shards counter_rng] by (simp add: running_deployment_def)
  moreover have rest: "at_rest ?E"
    by (simp add: at_rest_def running_deployment_def sample_coordinator_def no_epoch_def ending_store_def cycle_state_def)
  ultimately show ?thesis
    using epoch_cycle_rests_forever [OF rest dreach.Refl [of echo_shards counter_rng]] by (intro exI [of _ ?E]) simp
qed

end
