(* ===== verification/Coordinator_Status.thy ===== *)
theory Coordinator_Status
  imports Shard_Promotion
begin

text \<open>
  The status report of the coordinator (\<^verbatim>\<open>Status\<close> of \<^verbatim>\<open>src/coordinator/coordinator.go\<close>), from which clients learn how
  many rows there are and operators what a scaling decision or a promotion would do.

  The name of the session store's backend is a parameter. The two readings of the clock are \<open>clk 0\<close> (the
  refresh of the health) and \<open>clk 1\<close>. \<^verbatim>\<open>Status\<close> writes to no store.

  Shown here: the report changes nothing but the health of the shards; its table height is exactly the number
  of rows that uploads can be routed to; and it announces an applicable recommendation exactly when the
  coordinator would apply one.
\<close>

section \<open>Definitions\<close>

record CoordinatorStatusReply =
  sy_Healthy :: bool
  sy_Role :: string
  sy_LeaderAddr :: string
  sy_SessionStoreBackend :: string
  sy_GlobalTableHeight :: int
  sy_EpochID :: int
  sy_State :: string
  sy_StartUnix :: int
  sy_EndUnix :: int
  sy_DurationSecs :: int
  sy_Accepting :: bool
  sy_LeaseHolder :: string
  sy_LeaseFencingToken :: int
  sy_LeaseExpiresUnixMs :: int
  sy_LeaseActive :: bool
  sy_ActiveHolder :: string
  sy_CurrentShardCount :: int
  sy_RecommendedNextShardCount :: int
  sy_TargetRowsPerShard :: int
  sy_ScalingAction :: string
  sy_ScalingReason :: string
  sy_RequestDensity :: float64
  sy_ScalingEpochID :: int
  sy_ScalingAcceptedRequests :: int
  sy_ScalingDurationSecs :: int
  sy_LatestScalingEpochID :: int
  sy_LatestScalingAction :: string
  sy_LatestScalingRecommendedShards :: int
  sy_ScalingApplyStatus :: string
  sy_ScalingApplyReason :: string
  sy_EpochCycleState :: string
  sy_EpochCycleEpochID :: int
  sy_EpochCycleReason :: string
  sy_Shards :: "CoordinatorShardStatus list"

definition scalingStatusSnapshot :: "int \<Rightarrow> Coordinator \<Rightarrow> EpochScalingMetrics \<times> ScalingRecommendation" where
  "scalingStatusSnapshot currentShardCount c =
     (if hasLastScalingMetrics c then (lastScalingMetrics c, lastScalingRecommendation c)
      else let rec = defaultCoordinatorScalingRecommendation currentShardCount in
        (zero_metrics\<lparr>mt_CurrentShardCount := rec_CurrentShardCount rec,
           mt_AcceptedRequestCount := wrap64 (wrap64 (rec_CurrentShardCount rec * rec_TargetRowsPerShard rec) * 2),
           mt_DurationSeconds := 1\<rparr>, rec))"

record statusSnapshot =
  sn_epoch :: EpochMeta
  sn_lease :: CoordinatorLease
  sn_role :: string
  sn_health :: "int \<rightharpoonup> shardHealthSnapshot"
  sn_autoPromotion :: "int \<rightharpoonup> autoPromotionShardState"
  sn_scalingMetrics :: EpochScalingMetrics
  sn_scaling :: ScalingRecommendation

definition coordinatorStatusSnapshot :: "int \<Rightarrow> Coordinator \<Rightarrow> statusSnapshot" where
  "coordinatorStatusSnapshot currentShardCount c =
     \<lparr>sn_epoch = co_epoch c, sn_lease = co_lease c, sn_role = co_role c, sn_health = co_health c,
      sn_autoPromotion = autoPromotionState c,
      sn_scalingMetrics = fst (scalingStatusSnapshot currentShardCount c),
      sn_scaling = snd (scalingStatusSnapshot currentShardCount c)\<rparr>"

text \<open>The fields of the lease, as \<^verbatim>\<open>populateCoordinatorLeaseStatus\<close> sets them, and those of the scaling decision.\<close>

definition populateCoordinatorLeaseStatus ::
  "CoordinatorLease \<Rightarrow> gotime \<Rightarrow> CoordinatorStatusReply \<Rightarrow> CoordinatorStatusReply" where
  "populateCoordinatorLeaseStatus lease now reply =
     (let reply = reply\<lparr>sy_LeaseHolder := Holder lease, sy_LeaseFencingToken := FencingToken lease\<rparr>;
          reply = (if \<not> IsZero (ExpiresAt lease) then reply\<lparr>sy_LeaseExpiresUnixMs := UnixMilli (ExpiresAt lease)\<rparr> else reply)
      in reply\<lparr>sy_LeaseActive := Holder lease \<noteq> '''' \<and> Before now (ExpiresAt lease)\<rparr>)"

definition activeHolderFromControlStore :: "'s control_ops \<Rightarrow> gotime \<Rightarrow> 's \<Rightarrow> string" where
  "activeHolderFromControlStore S now s =
     (case ct_CurrentLease S now s of None \<Rightarrow> '''' | Some lease \<Rightarrow> Holder lease)"

definition populateScalingApplyStatus :: "scalingApplyEvaluation \<Rightarrow> CoordinatorStatusReply \<Rightarrow> CoordinatorStatusReply" where
  "populateScalingApplyStatus ev reply =
     reply\<lparr>sy_LatestScalingEpochID := sg_EpochID (ev_recommendation ev),
       sy_LatestScalingAction := sg_Action (ev_recommendation ev),
       sy_LatestScalingRecommendedShards := sg_RecommendedShardCount (ev_recommendation ev),
       sy_ScalingApplyStatus := ev_status ev, sy_ScalingApplyReason := ev_reason ev\<rparr>"

text \<open>One entry of the list of shards.\<close>

definition status_entry :: "statusSnapshot \<Rightarrow> ShardConfig \<Rightarrow> CoordinatorShardStatus" where
  "status_entry snapshot shard =
     (let entry = zero_shard_status\<lparr>st_ID := sc_ID shard, st_StartRow := StartRow shard, st_EndRow := EndRow shard,
            st_ActiveLeaderAddr := LeaderAddr (Active shard), st_ActiveFollowerAddr := FollowerAddr (Active shard)\<rparr>;
          entry = (case Standby shard of
             None \<Rightarrow> entry
           | Some pair \<Rightarrow> entry\<lparr>st_HasStandby := True, st_StandbyLeaderAddr := LeaderAddr pair,
                               st_StandbyFollowerAddr := FollowerAddr pair\<rparr>);
          shardHealth = (case sn_health snapshot (sc_ID shard) of None \<Rightarrow> zero_health | Some h \<Rightarrow> h);
          entry = entry\<lparr>st_ActiveReachable := Reachable (sh_Active shardHealth), st_ActiveStatus := hs_Status (sh_Active shardHealth),
            st_ActiveStatusError := hs_Error (sh_Active shardHealth),
            st_ActiveLastChecked := lastCheckedUnix (CheckedAt (sh_Active shardHealth)),
            st_StandbyReachable := Reachable (sh_Standby shardHealth), st_StandbyStatus := hs_Status (sh_Standby shardHealth),
            st_StandbyStatusError := hs_Error (sh_Standby shardHealth),
            st_StandbyLastChecked := lastCheckedUnix (CheckedAt (sh_Standby shardHealth))\<rparr>;
          entry = populateAutoPromotionStatus
            (case sn_autoPromotion snapshot (sc_ID shard) of None \<Rightarrow> zero_auto_state | Some st \<Rightarrow> st)
            (populateStandbyPromotionReadiness entry)
      in entry\<lparr>st_Reachable := st_ActiveReachable entry, st_Status := st_ActiveStatus entry,
           st_StatusError := st_ActiveStatusError entry\<rparr>)"

text \<open>The reply, from a snapshot of the coordinator.\<close>

definition status_reply ::
  "'s control_ops \<Rightarrow> string \<Rightarrow> ShardConfigRecord \<Rightarrow> statusSnapshot \<Rightarrow> scalingApplyEvaluation \<Rightarrow> gotime \<Rightarrow> 's \<Rightarrow> CoordinatorStatusReply" where
  "status_reply S backend shardConfig snapshot scalingApply now s =
     (let ep = sn_epoch snapshot;
          cycle = (case ct_GetEpochCycle S s of
             Inr (Some cycle) \<Rightarrow> cycle
           | _ \<Rightarrow> zero_cycle\<lparr>cy_State := EpochCycleStateIdle\<rparr>)
      in populateScalingApplyStatus scalingApply (populateCoordinatorLeaseStatus (sn_lease snapshot) now
        \<lparr>sy_Healthy = True, sy_Role = sn_role snapshot, sy_LeaderAddr = '''', sy_SessionStoreBackend = backend,
         sy_GlobalTableHeight = GlobalTableHeight shardConfig, sy_EpochID = ep_ID ep, sy_State = DbState_String (ep_State ep),
         sy_StartUnix = Unix (ep_StartTime ep), sy_EndUnix = Unix (ep_EndTime ep), sy_DurationSecs = ep_DurationSeconds ep,
         sy_Accepting = acceptingFromControlStore S ep s,
         sy_LeaseHolder = '''', sy_LeaseFencingToken = 0, sy_LeaseExpiresUnixMs = 0, sy_LeaseActive = False,
         sy_ActiveHolder = activeHolderFromControlStore S now s, sy_CurrentShardCount = ShardCount shardConfig,
         sy_RecommendedNextShardCount = rec_RecommendedShardCount (sn_scaling snapshot),
         sy_TargetRowsPerShard = rec_TargetRowsPerShard (sn_scaling snapshot),
         sy_ScalingAction = rec_Action (sn_scaling snapshot), sy_ScalingReason = rec_Reason (sn_scaling snapshot),
         sy_RequestDensity = rec_RequestDensity (sn_scaling snapshot),
         sy_ScalingEpochID = mt_EpochID (sn_scalingMetrics snapshot),
         sy_ScalingAcceptedRequests = mt_AcceptedRequestCount (sn_scalingMetrics snapshot),
         sy_ScalingDurationSecs = mt_DurationSeconds (sn_scalingMetrics snapshot),
         sy_LatestScalingEpochID = 0, sy_LatestScalingAction = '''', sy_LatestScalingRecommendedShards = 0,
         sy_ScalingApplyStatus = '''', sy_ScalingApplyReason = '''',
         sy_EpochCycleState = cy_State cycle, sy_EpochCycleEpochID = cy_EpochID cycle, sy_EpochCycleReason = cy_Reason cycle,
         sy_Shards = map (status_entry snapshot) (Shards shardConfig)\<rparr>))"

definition coord_Status ::
  "'s control_ops \<Rightarrow> 'w shard_ops \<Rightarrow> string \<Rightarrow> (nat \<Rightarrow> gotime) \<Rightarrow> int option \<Rightarrow> 's \<Rightarrow> 'w \<Rightarrow> Coordinator
     \<Rightarrow> CoordinatorStatusReply \<times> Coordinator" where
  "coord_Status S R backend clk args s w c =
     (let timeout = (case args of
             Some ms \<Rightarrow> if ms > 0 then wrap64 (ms * millisecond) else defaultShardStatusTimeout
           | None \<Rightarrow> defaultShardStatusTimeout);
          c = (if needsShardHealthRefresh S s c then refreshShardHealth S R timeout (clk 0) s w c else c);
          shardConfig = shardConfigForStatus S (availableShards c) s;
          snapshot = coordinatorStatusSnapshot (ShardCount shardConfig) c;
          scalingApply = (case evaluateScalingApply S (availableShards c) s of
             Inl err \<Rightarrow> evaluation scalingApplyStatusNotApplicable (error_text err) zero_config
           | Inr ev \<Rightarrow> ev)
      in (status_reply S backend shardConfig snapshot scalingApply (clk 1) s, c))"

section \<open>Routing on a stored map\<close>

text \<open>The map is routed in its stored order, which need not be that of the rows.\<close>

lemma routeShard_in:
  "routeShard ss row = Inr shard \<Longrightarrow> shard \<in> set ss \<and> StartRow shard \<le> row \<and> row < EndRow shard"
  by (induction ss) (auto split: if_splits)

lemma routeShard_some:
  "shard \<in> set ss \<Longrightarrow> StartRow shard \<le> row \<Longrightarrow> row < EndRow shard \<Longrightarrow> \<exists>t. routeShard ss row = Inr t"
  by (induction ss) auto

lemma stored_tile:
  assumes "validateShardConfigRecord config = Inr ()" "shard \<in> set (Shards config)"
  obtains i where "i < length (Shards config)" "tile i shard"
proof -
  have "shards_tile (sort_shards (Shards config))" "shard \<in> set (sort_shards (Shards config))"
    using assms by (simp_all add: validate_record_iff)
  then show ?thesis using that by (auto simp: shards_tile_def in_set_conv_nth simp del: set_sort_shards)
qed

lemma route_stored_row:
  assumes "validateShardConfigRecord config = Inr ()" "routeShard (Shards config) row = Inr shard"
  shows "row - StartRow shard = row mod int TABLE_HEIGHT"
proof -
  note s = routeShard_in [OF assms(2)]
  obtain i where t: "tile i shard" using stored_tile [OF assms(1) conjunct1 [OF s]] by blast
  then have "row div int TABLE_HEIGHT = int i" using row_in_tile [OF t, of row] s by (auto simp: TABLE_HEIGHT_eq)
  then show ?thesis using t by (simp add: tile_def minus_div_mult_eq_mod [symmetric])
qed

lemma stored_height:
  assumes "validateShardConfigRecord config = Inr ()"
  shows "GlobalTableHeight config = int (length (Shards config)) * int TABLE_HEIGHT"
  using assms by (auto simp: validate_record_iff config_header_check_def split: if_splits)

lemma routed_iff:
  assumes v: "validateShardConfigRecord config = Inr ()"
  shows "(\<exists>shard. routeShard (Shards config) row = Inr shard) \<longleftrightarrow> 0 \<le> row \<and> row < GlobalTableHeight config"
proof
  assume "\<exists>shard. routeShard (Shards config) row = Inr shard"
  then obtain shard where s: "shard \<in> set (Shards config)" "StartRow shard \<le> row \<and> row < EndRow shard" by (auto dest: routeShard_in)
  obtain i where i: "i < length (Shards config)" "tile i shard" using stored_tile [OF v s(1)] .
  then have "(int i + 1) * int TABLE_HEIGHT \<le> int (length (Shards config)) * int TABLE_HEIGHT" by (intro mult_right_mono) auto
  then show "0 \<le> row \<and> row < GlobalTableHeight config"
    using s(2) row_in_tile [OF i(2), of row] i(2) by (auto simp: stored_height [OF v] tile_def)
next
  assume r: "0 \<le> row \<and> row < GlobalTableHeight config"
  let ?ss = "sort_shards (Shards config)" and ?i = "nat (row div int TABLE_HEIGHT)"
  have i: "?i < length ?ss" using r by (auto simp: stored_height [OF v] TABLE_HEIGHT_eq nat_less_iff)
  then have "tile ?i (?ss ! ?i)" using v by (simp add: validate_record_iff shards_tile_def)
  from row_in_tile [OF this, of row] have "StartRow (?ss ! ?i) \<le> row" "row < EndRow (?ss ! ?i)" using r by auto
  then show "\<exists>shard. routeShard (Shards config) row = Inr shard"
    using routeShard_some [of "?ss ! ?i" "Shards config" row] nth_mem [OF i] by simp
qed

section \<open>What the report says\<close>

lemma refresh_inventory [simp]:
  "availableShards (refreshShardHealth S R timeout now s w c) = availableShards c"
  by (simp add: refreshShardHealth_def Let_def)

lemma status_entry_ID [simp]: "st_ID (status_entry snapshot shard) = sc_ID shard"
  by (simp add: status_entry_def populateStandbyPromotionReadiness_def populateAutoPromotionStatus_def Let_def
      split: option.splits prod.splits if_splits)

lemma status_reply_simps [simp]:
  "sy_GlobalTableHeight (status_reply S backend config snapshot ev now s) = GlobalTableHeight config"
  "sy_ScalingApplyStatus (status_reply S backend config snapshot ev now s) = ev_status ev"
  "map st_ID (sy_Shards (status_reply S backend config snapshot ev now s)) = map sc_ID (Shards config)"
  by (simp_all add: status_reply_def populateScalingApplyStatus_def populateCoordinatorLeaseStatus_def Let_def)

lemma applicable_iff:
  "evaluateScalingApply S inventory s = Inr ev \<Longrightarrow> ev_applicable ev \<longleftrightarrow> ev_status ev = scalingApplyStatusApplicable"
  by (auto simp: evaluateScalingApply_def evaluate_latest_def evaluation_def scalingApplyStatusNotApplicable_def
      scalingApplyStatusApplicable_def scalingApplyStatusBlockedActiveEpoch_def scalingApplyStatusMissing_def
      scalingApplyStatusBlockedMissingShards_def split: sum.splits option.splits if_splits)

lemma evaluate_lease_update [simp]:
  "evaluateScalingApply mem_control_ops inventory (s\<lparr>mc_lease := L\<rparr>) = evaluateScalingApply mem_control_ops inventory s"
  by (simp add: evaluateScalingApply_def epoch_open_def store_CurrentEpoch_def Accepting_def GetLatestScalingRecommendation_def
      cong: option.case_cong sum.case_cong if_cong)

lemma dry_run_iff:
  assumes "\<not> isl (fst (requireCoordinatorLease mem_control_ops (clk 0) (c, s)))"
  shows "isl (fst (ApplyScalingRecommendation mem_control_ops R clk True w (c, s))) \<longleftrightarrow>
     \<not> (\<exists>ev. evaluateScalingApply mem_control_ops (availableShards c) s = Inr ev \<and> ev_applicable ev)"
proof -
  obtain q c1 s1 where run: "requireCoordinatorLease mem_control_ops (clk 0) (c, s) = (q, c1, s1)" by (rule prod_cases3)
  obtain L where "s1 = s\<lparr>mc_lease := L\<rparr>" using run by (rule mem_require_store)
  moreover obtain L' x where "c1 = c\<lparr>co_lease := L', co_role := x\<rparr>" using run by (rule require_frame)
  ultimately show ?thesis
    using assms run by (cases q) (auto simp: ApplyScalingRecommendation_def requireScalingApplyApplicable_def split: sum.splits)
qed

lemma status_run:
  assumes "coord_Status S R backend clk args s w c = (reply, c')"
  obtains h snapshot where "c' = c\<lparr>co_health := h\<rparr>"
    "reply = status_reply S backend (shardConfigForStatus S (availableShards c) s) snapshot
       (case evaluateScalingApply S (availableShards c) s of
          Inl err \<Rightarrow> evaluation scalingApplyStatusNotApplicable (error_text err) zero_config | Inr ev \<Rightarrow> ev) (clk 1) s"
proof (cases "needsShardHealthRefresh S s c")
  case True
  then show ?thesis using assms that [of "co_health c'"] by (auto simp: coord_Status_def Let_def) (simp add: refreshShardHealth_def Let_def)
next
  case False
  then show ?thesis using assms that [of "co_health c"] by (auto simp: coord_Status_def Let_def)
qed

section \<open>Properties\<close>

text \<open>C28: The status report agrees with what the coordinator does. Reporting changes nothing of the coordinator
  but the health of its shards. When the stored shard map is valid, the reported table height is exactly
  the number of rows that an upload can be routed to, and the shards are listed in the order of the map.
  A coordinator that holds the lease reports an applicable scaling recommendation exactly when a dry
  run of applying it succeeds.\<close>

theorem status_report_agrees:
  "case coord_Status mem_control_ops R backend clk args s w c of (reply, c') \<Rightarrow>
     (\<exists>h. c' = c\<lparr>co_health := h\<rparr>) \<and>
     (\<forall>config. activeShardConfig mem_control_ops s = Inr config \<longrightarrow>
        map st_ID (sy_Shards reply) = map sc_ID (Shards config) \<and>
        (\<forall>row. (\<exists>shard. routeShard (Shards config) row = Inr shard) \<longleftrightarrow> 0 \<le> row \<and> row < sy_GlobalTableHeight reply)) \<and>
     (\<not> isl (fst (requireCoordinatorLease mem_control_ops (clk' 0) (c, s))) \<longrightarrow>
        (sy_ScalingApplyStatus reply = scalingApplyStatusApplicable \<longleftrightarrow>
         \<not> isl (fst (ApplyScalingRecommendation mem_control_ops R clk' True w (c, s)))))"
proof -
  obtain reply c' where run: "coord_Status mem_control_ops R backend clk args s w c = (reply, c')" by fastforce
  then obtain h snapshot where r: "c' = c\<lparr>co_health := h\<rparr>"
    "reply = status_reply mem_control_ops backend (shardConfigForStatus mem_control_ops (availableShards c) s) snapshot
       (case evaluateScalingApply mem_control_ops (availableShards c) s of
          Inl err \<Rightarrow> evaluation scalingApplyStatusNotApplicable (error_text err) zero_config | Inr ev \<Rightarrow> ev) (clk 1) s"
    by (rule status_run)
  have "shardConfigForStatus mem_control_ops (availableShards c) s = config \<and> validateShardConfigRecord config = Inr ()"
    if "activeShardConfig mem_control_ops s = Inr config" for config
    using that by (auto simp: activeShardConfig_def shardConfigForStatus_def split: option.splits sum.splits)
  moreover have "sy_ScalingApplyStatus reply = scalingApplyStatusApplicable \<longleftrightarrow>
      \<not> isl (fst (ApplyScalingRecommendation mem_control_ops R clk' True w (c, s)))"
    if "\<not> isl (fst (requireCoordinatorLease mem_control_ops (clk' 0) (c, s)))"
  proof (cases "evaluateScalingApply mem_control_ops (availableShards c) s")
    case (Inl err)
    then show ?thesis using dry_run_iff [where clk = clk', OF that, of R w]
      by (simp add: r(2) evaluation_def scalingApplyStatusNotApplicable_def scalingApplyStatusApplicable_def)
  next
    case (Inr ev)
    then show ?thesis using dry_run_iff [where clk = clk', OF that, of R w] by (simp add: r(2) applicable_iff)
  qed
  ultimately show ?thesis using r(1) by (simp add: run routed_iff) (auto simp: r(2) routed_iff)
qed

lemma apply_implies_dry_run:
  assumes "ApplyScalingRecommendation S R clk False w (c, s) = (Inr reply, c', s')"
  shows "\<not> isl (fst (requireCoordinatorLease S (clk 0) (c, s)))"
    "\<not> isl (fst (ApplyScalingRecommendation S R clk True w (c, s)))"
  using assms by (auto simp: ApplyScalingRecommendation_def split: prod.splits sum.splits)

theorem status_report_agrees_witness:
  "\<exists>reply c'. coord_Status mem_control_ops echo_shards ''memory'' (\<lambda>_. 4) None shrink_store 0 (sample_coordinator ''a'') = (reply, c') \<and>
     sy_ScalingApplyStatus reply = scalingApplyStatusApplicable \<and> map st_ID (sy_Shards reply) = [7, 3]"
proof -
  let ?c = "sample_coordinator ''a''"
  obtain reply c' where run: "coord_Status mem_control_ops echo_shards ''memory'' (\<lambda>_. 4) None shrink_store 0 ?c = (reply, c')" by fastforce
  have cfg: "activeShardConfig mem_control_ops shrink_store = Inr sample_config"
    using sample_config_record
    by (simp add: activeShardConfig_def GetShardConfig_def shrink_store_def ready_store_def)
  have ids: "map sc_ID (Shards sample_config) = [7, 3]" by (simp add: sample_inventory_def)
  from shrink_applies obtain r c1 s1
    where "ApplyScalingRecommendation mem_control_ops echo_shards (\<lambda>_. 4) False 0 (?c, shrink_store) = (Inr r, c1, s1)" by blast
  note ap = apply_implies_dry_run [OF this]
  show ?thesis
    using status_report_agrees [where R = echo_shards and backend = "''memory''" and clk = "\<lambda>_. 4" and args = None and
        s = shrink_store and w = 0 and c = ?c and clk' = "\<lambda>_. 4"] run cfg ids ap by auto
qed

end
