(* ===== verification/Client.thy ===== *)
theory Client
  imports Shard_Fleet Coordinator_Status
begin

text \<open>
  The client program (\<^verbatim>\<open>src/client/client.go\<close>).

  What the client talks to is a record of operations, \<open>service\<close>: dialling, the three upload calls, the ping,
  the status and sleeping, each on a world that is passed along. \<open>coordinator_service\<close> and \<open>leader_service\<close> are the
  coordinator and a database leader of the development, over net/rpc.

  A loop that may run for ever is a partial function: \<open>None\<close> means that it does not return. Within it the result
  \<open>Panic\<close> (or \<open>Err\<close>) means that the process has ended. The state of the process is a record; the
  connection of a worker is a flag beside it. Logging is left out, as are the certificates.

  The workers of \<^verbatim>\<open>-hammer\<close> run concurrently; they are interleaved at the iterations of their loops.

  Shown here: a request of the client always lies in the table and on the row that the coordinator
  derives for it; an upload that succeeds has put one message into the queue of the right leader, and
  that message writes exactly the client's text; a retry loop returns exactly when an attempt gives a
  final answer, and waits as configured; and the workers stop once no epoch is active.
\<close>

section \<open>Requests\<close>

record uploadRequest =
  ur_msg :: Plaintext
  ur_routeRow :: int

type_synonym 'r messageProvider = "'r \<Rightarrow> uploadRequest res \<times> 'r"

definition randomLocalUploadRequest :: "'r rng \<Rightarrow> 'r messageProvider" where
  "randomLocalUploadRequest G r =
     (let (msg, r) = RandomMessage G r in (Inr \<lparr>ur_msg = msg, ur_routeRow = Y msg\<rparr>, r))"

definition randomCoordinatorUploadRequest :: "'r rng \<Rightarrow> int \<Rightarrow> 'r messageProvider" where
  "randomCoordinatorUploadRequest G globalTableHeight r =
     (if globalTableHeight \<le> 0 then (Inl (ErrorString ''global table height must be positive''), r)
      else let (x, r) = RandIntShort G (int TABLE_WIDTH) r;
               (globalRow, r) = RandIntShort G globalTableHeight r;
               (m, r) = RandomSlot G r
           in (Inr \<lparr>ur_msg = \<lparr>Message = m, X = x, Y = globalRow mod int TABLE_HEIGHT\<rparr>, ur_routeRow = globalRow\<rparr>, r))"

text \<open>\<^verbatim>\<open>copy(msg.Message[:], []byte(payload))\<close>.\<close>

definition payload_slot :: "string \<Rightarrow> byte list" where
  "payload_slot payload =
     (let b = take SLOT_LENGTH (map of_char payload) in b @ replicate (SLOT_LENGTH - length b) 0)"

definition resolveMessageProvider :: "'r rng \<Rightarrow> int \<Rightarrow> int \<Rightarrow> string \<Rightarrow> int \<Rightarrow> 'r messageProvider res" where
  "resolveMessageProvider G x y payload globalTableHeight =
     (let exactRequested = x \<ge> 0 \<or> y \<ge> 0 \<or> payload \<noteq> '''' in
      if \<not> exactRequested
      then if globalTableHeight > int TABLE_HEIGHT then Inr (randomCoordinatorUploadRequest G globalTableHeight)
           else Inr (randomLocalUploadRequest G)
      else if x < 0 \<or> y < 0 \<or> payload = '''' then Inl (ErrorString ''must specify all of -x, -y, and -payload'')
      else if x \<ge> int TABLE_WIDTH then Inl (ErrorString (''-x must be in [0,'' @ show_int (int TABLE_WIDTH) @ '')''))
      else let rowLimit = (if globalTableHeight > int TABLE_HEIGHT then globalTableHeight else int TABLE_HEIGHT) in
      if y \<ge> rowLimit then Inl (ErrorString (''-y must be in [0,'' @ show_int rowLimit @ '')''))
      else if length payload > SLOT_LENGTH
      then Inl (ErrorString (''-payload must be at most '' @ show_int (int SLOT_LENGTH) @ '' bytes''))
      else Inr (\<lambda>r. (Inr \<lparr>ur_msg = \<lparr>Message = payload_slot payload, X = x, Y = y mod int TABLE_HEIGHT\<rparr>,
                          ur_routeRow = y\<rparr>, r)))"

section \<open>The service and the process\<close>

record 'w service =
  sv_Dial :: "'w \<Rightarrow> unit res \<times> 'w"
  sv_Upload1 :: "UploadArgs1 \<Rightarrow> 'w \<Rightarrow> UploadReply1 res \<times> 'w"
  sv_Upload2 :: "UploadArgs2 \<Rightarrow> 'w \<Rightarrow> UploadReply2 res \<times> 'w"
  sv_Upload3 :: "UploadArgs3 \<Rightarrow> 'w \<Rightarrow> unit res \<times> 'w"
  sv_DoNothing :: "'w \<Rightarrow> unit res \<times> 'w"
  sv_Status :: "'w \<Rightarrow> CoordinatorStatusReply res \<times> 'w"
  sv_Sleep :: "duration \<Rightarrow> 'w \<Rightarrow> 'w"

record ('r, 'w) process =
  p_rng :: 'r
  p_count :: int
  p_stop :: bool
  p_world :: 'w

text \<open>A worker is its connection (\<^verbatim>\<open>u.client != nil\<close>) and the process.\<close>

type_synonym ('r, 'w) worker = "bool \<times> ('r, 'w) process"

definition zero_args1 :: UploadArgs1 where
  "zero_args1 = \<lparr>RouteRow = 0, UseAssignedSession = False, AssignedUUID = 0, AssignedHashKey = replicate 32 0, a1_Query = []\<rparr>"

definition uploader_connect :: "'w service \<Rightarrow> ('r, 'w) worker \<Rightarrow> unit res \<times> ('r, 'w) worker" where
  "uploader_connect V = (\<lambda>(conn, p).
     if conn then (Inr (), conn, p)
     else case sv_Dial V (p_world p) of
       (Inl err, w) \<Rightarrow> (Inl (Wrapped ''could not connect: '' err ''''), False, p\<lparr>p_world := w\<rparr>)
     | (Inr _, w) \<Rightarrow> (Inr (), True, p\<lparr>p_world := w\<rparr>))"

definition tryUpload ::
  "'r rng \<Rightarrow> crypto \<Rightarrow> 'r sealing \<Rightarrow> 'w service \<Rightarrow> uploadRequest \<Rightarrow> ('r, 'w) process \<Rightarrow> (unit res \<times> ('r, 'w) process) go" where
  "tryUpload G C S V req p =
     (case InitializeUploadArgs G C S zero_args1 (ur_msg req) (p_rng p) of
        Ok (upArgs1, msgBitShares, r) \<Rightarrow>
          let upArgs1 = upArgs1\<lparr>RouteRow := ur_routeRow req\<rparr> in
          (case sv_Upload1 V upArgs1 (p_world p) of
             (Inl err, w) \<Rightarrow> Ok (Inl err, p\<lparr>p_rng := r, p_world := w\<rparr>)
           | (Inr upRes1, w) \<Rightarrow>
               go_bind (SetUploadArgs2 G C S msgBitShares upRes1 r) (\<lambda>(mint, upArgs2, r).
               case sv_Upload2 V upArgs2 w of
                 (Inl err, w) \<Rightarrow> Ok (Inl err, p\<lparr>p_rng := r, p_world := w\<rparr>)
               | (Inr upRes2, w) \<Rightarrow>
                   go_bind (SetUploadArgs3 G C S (ur_msg req) mint upRes1 upRes2 r) (\<lambda>(upArgs3, r).
                   case sv_Upload3 V upArgs3 w of
                     (Inl err, w) \<Rightarrow> Ok (Inl err, p\<lparr>p_rng := r, p_world := w\<rparr>)
                   | (Inr _, w) \<Rightarrow> Ok (Inr (), p\<lparr>p_rng := r, p_world := w\<rparr>))))
      | _ \<Rightarrow> Panic)"

definition uploader_upload ::
  "'r rng \<Rightarrow> crypto \<Rightarrow> 'r sealing \<Rightarrow> 'w service \<Rightarrow> uploadRequest \<Rightarrow> ('r, 'w) worker \<Rightarrow> (unit res \<times> ('r, 'w) worker) go" where
  "uploader_upload G C S V req x =
     (case uploader_connect V x of
        (Inl err, x) \<Rightarrow> Ok (Inl err, x)
      | (Inr _, conn, p) \<Rightarrow> go_bind (tryUpload G C S V req p) (\<lambda>(q, p). Ok (q, conn, p)))"

section \<open>Errors and waiting\<close>

definition isNoActiveEpochError :: "unit res \<Rightarrow> bool" where
  "isNoActiveEpochError q = (case q of Inr _ \<Rightarrow> False | Inl err \<Rightarrow> contains (error_text err) ''No active epoch'')"

definition isCoordinatorNotActiveError :: "unit res \<Rightarrow> bool" where
  "isCoordinatorNotActiveError q = (case q of Inr _ \<Rightarrow> False | Inl err \<Rightarrow> contains (error_text err) ''Coordinator not active'')"

definition isShardSessionLostError :: "unit res \<Rightarrow> bool" where
  "isShardSessionLostError q = (case q of Inr _ \<Rightarrow> False | Inl err \<Rightarrow> contains (error_text err) ''Shard session lost'')"

definition isCoordinatorRetryableError :: "unit res \<Rightarrow> bool" where
  "isCoordinatorRetryableError q = (isCoordinatorNotActiveError q \<or> isShardSessionLostError q)"

definition isOverloadError :: "unit res \<Rightarrow> bool" where
  "isOverloadError q = (case q of Inr _ \<Rightarrow> False | Inl err \<Rightarrow> contains (error_text err) ''server overloaded: ready queue full'')"

definition nextBackoff :: "duration \<Rightarrow> duration \<Rightarrow> duration" where
  "nextBackoff backoff maximum =
     (if backoff < maximum
      then let backoff = wrap64 (backoff * 2) in if backoff > maximum then maximum else backoff
      else backoff)"

record retryConfig =
  rt_enabled :: bool
  initialBackoff :: duration
  maxBackoff :: duration

text \<open>The two retry loops differ only in the errors they retry on; an error that is not retried is the result.\<close>

partial_function (option) retry_loop ::
  "(unit res \<Rightarrow> bool) \<Rightarrow> retryConfig \<Rightarrow> ('s \<Rightarrow> (unit res \<times> 's) go option) \<Rightarrow> (duration \<Rightarrow> 's \<Rightarrow> 's) \<Rightarrow> duration \<Rightarrow> 's
     \<Rightarrow> (unit res \<times> 's) go option" where
  "retry_loop again config upload sleep backoff s =
     Option.bind (upload s) (\<lambda>y.
       case y of
         Ok (q, s) \<Rightarrow>
           if q = Inr () then Some y
           else if \<not> rt_enabled config \<or> \<not> again q then Some y
           else retry_loop again config upload sleep (nextBackoff backoff (maxBackoff config)) (sleep backoff s)
       | Err e \<Rightarrow> Some y
       | Panic \<Rightarrow> Some y)"

definition uploadWithOverloadRetry ::
  "retryConfig \<Rightarrow> ('s \<Rightarrow> (unit res \<times> 's) go option) \<Rightarrow> (duration \<Rightarrow> 's \<Rightarrow> 's) \<Rightarrow> 's \<Rightarrow> (unit res \<times> 's) go option" where
  "uploadWithOverloadRetry config upload sleep s =
     retry_loop isOverloadError config upload sleep (initialBackoff config) s"

definition uploadWithCoordinatorRetry ::
  "retryConfig \<Rightarrow> ('s \<Rightarrow> (unit res \<times> 's) go option) \<Rightarrow> (duration \<Rightarrow> 's \<Rightarrow> 's) \<Rightarrow> 's \<Rightarrow> (unit res \<times> 's) go option" where
  "uploadWithCoordinatorRetry config upload sleep s =
     retry_loop isCoordinatorRetryableError config upload sleep (initialBackoff config) s"

text \<open>The configuration of the waiting times. \<^verbatim>\<open>uint\<close> values are below \<open>2 ^ 64\<close>; converting and multiplying them wraps.\<close>

definition zero_retry :: retryConfig where
  "zero_retry = \<lparr>rt_enabled = False, initialBackoff = 0, maxBackoff = 0\<rparr>"

definition resolveBackoffConfig :: "bool \<Rightarrow> int \<Rightarrow> int \<Rightarrow> retryConfig res" where
  "resolveBackoffConfig enabled initialMS maxMS =
     (if \<not> enabled then Inr zero_retry
      else if initialMS = 0 then Inl (ErrorString ''-overload-backoff-initial-ms must be positive'')
      else if maxMS = 0 then Inl (ErrorString ''-overload-backoff-max-ms must be positive'')
      else let initial = wrap64 (initialMS * millisecond); maximum = wrap64 (maxMS * millisecond) in
        if maximum < initial
        then Inl (ErrorString ''-overload-backoff-max-ms must be greater than or equal to -overload-backoff-initial-ms'')
        else Inr (zero_retry\<lparr>initialBackoff := initial, maxBackoff := maximum\<rparr>))"

definition resolveOverloadRetryConfig :: "bool \<Rightarrow> int \<Rightarrow> int \<Rightarrow> retryConfig res" where
  "resolveOverloadRetryConfig enabled initialMS maxMS =
     (case resolveBackoffConfig enabled initialMS maxMS of
        Inl err \<Rightarrow> Inl err
      | Inr config \<Rightarrow> Inr (config\<lparr>rt_enabled := enabled\<rparr>))"

definition resolveHammerConcurrency :: "int \<Rightarrow> int res" where
  "resolveHammerConcurrency v =
     (if v = 0 then Inl (ErrorString ''-concurrency must be positive'') else Inr (wrap64 v))"

definition resolveTargetAddress :: "string \<Rightarrow> string \<Rightarrow> string res" where
  "resolveTargetAddress coordinatorAddr leaderAddr =
     (if coordinatorAddr \<noteq> '''' \<and> leaderAddr \<noteq> '''' then Inl (ErrorString ''must specify only one of -coordinator or -leader'')
      else if coordinatorAddr \<noteq> '''' then Inr coordinatorAddr
      else if leaderAddr \<noteq> '''' then Inr leaderAddr
      else Inl (ErrorString ''must specify one of -coordinator or -leader''))"

section \<open>The loop of a worker\<close>

text \<open>One iteration: \<open>Some q\<close> ends the loop with \<open>q\<close>. \<open>stop\<close> is whether the shared flag is given (\<^verbatim>\<open>shouldStop\<close> and
  \<^verbatim>\<open>signalStop\<close> are both nil for a single request).\<close>

definition client_iteration ::
  "bool \<Rightarrow> bool \<Rightarrow> (('r, 'w) worker \<Rightarrow> (unit res \<times> ('r, 'w) worker) go option) \<Rightarrow> ('r, 'w) worker
     \<Rightarrow> (unit res option \<times> ('r, 'w) worker) go option" where
  "client_iteration hammer stop doUpload x =
     (if hammer \<and> stop \<and> p_stop (snd x) then Some (Ok (Some (Inr ()), x))
      else Option.bind (doUpload x) (\<lambda>y. case y of
        Ok (Inl err, conn, p) \<Rightarrow>
          Some (Ok (Some (Inl err), conn, if isNoActiveEpochError (Inl err) \<and> stop then p\<lparr>p_stop := True\<rparr> else p))
      | Ok (Inr _, x) \<Rightarrow> Some (Ok (if hammer then None else Some (Inr ()), x))
      | Err e \<Rightarrow> Some (Err e)
      | Panic \<Rightarrow> Some Panic))"

partial_function (option) runClientLoop ::
  "bool \<Rightarrow> bool \<Rightarrow> (('r, 'w) worker \<Rightarrow> (unit res \<times> ('r, 'w) worker) go option) \<Rightarrow> ('r, 'w) worker
     \<Rightarrow> (unit res \<times> ('r, 'w) worker) go option" where
  "runClientLoop hammer stop doUpload x =
     Option.bind (client_iteration hammer stop doUpload x) (\<lambda>y. case y of
       Ok (Some q, x) \<Rightarrow> Some (Ok (q, x))
     | Ok (None, x) \<Rightarrow> runClientLoop hammer stop doUpload x
     | Err e \<Rightarrow> Some (Err e)
     | Panic \<Rightarrow> Some Panic)"

section \<open>The program\<close>

record client_flags =
  fl_donothing :: bool
  fl_hammer :: bool
  fl_concurrency :: int
  fl_retryOverload :: bool
  fl_backoffInitial :: int
  fl_backoffMax :: int
  fl_coordinator :: string
  fl_leader :: string
  fl_x :: int
  fl_y :: int
  fl_payload :: string

definition worker_sleep :: "'w service \<Rightarrow> duration \<Rightarrow> ('r, 'w) worker \<Rightarrow> ('r, 'w) worker" where
  "worker_sleep V d = (\<lambda>(conn, p). (conn, p\<lparr>p_world := sv_Sleep V d (p_world p)\<rparr>))"

text \<open>An upload with both retry loops; after an error that the outer loop retries on the connection is closed.\<close>

definition upload_with_retries ::
  "'r rng \<Rightarrow> crypto \<Rightarrow> 'r sealing \<Rightarrow> 'w service \<Rightarrow> retryConfig \<Rightarrow> retryConfig \<Rightarrow> uploadRequest \<Rightarrow> ('r, 'w) worker
     \<Rightarrow> (unit res \<times> ('r, 'w) worker) go option" where
  "upload_with_retries G C S V overloadConfig coordinatorConfig req =
     uploadWithCoordinatorRetry coordinatorConfig
       (uploadWithOverloadRetry overloadConfig
          (\<lambda>x. Some (go_bind (uploader_upload G C S V req x) (\<lambda>(q, conn, p).
             Ok (q, if rt_enabled coordinatorConfig \<and> isCoordinatorRetryableError q then False else conn, p))))
          (worker_sleep V))
       (worker_sleep V)"

text \<open>The closure that \<^verbatim>\<open>runClientWithStop\<close> hands to the loop.\<close>

definition client_request ::
  "'r rng \<Rightarrow> crypto \<Rightarrow> 'r sealing \<Rightarrow> 'w service \<Rightarrow> client_flags \<Rightarrow> 'r messageProvider \<Rightarrow> retryConfig \<Rightarrow> retryConfig
     \<Rightarrow> ('r, 'w) worker \<Rightarrow> (unit res \<times> ('r, 'w) worker) go option" where
  "client_request G C S V f nextMessage overloadConfig coordinatorConfig = (\<lambda>(conn, p).
     let p = p\<lparr>p_count := p_count p + 1\<rparr> in
     if fl_donothing f
     then (case uploader_connect V (conn, p) of
             (Inl err, x) \<Rightarrow> Some (Ok (Inl err, x))
           | (Inr _, conn, p) \<Rightarrow>
               (case sv_DoNothing V (p_world p) of (q, w) \<Rightarrow> Some (Ok (q, conn, p\<lparr>p_world := w\<rparr>))))
     else case nextMessage (p_rng p) of
       (Inl err, r) \<Rightarrow> Some (Ok (Inl err, conn, p\<lparr>p_rng := r\<rparr>))
     | (Inr req, r) \<Rightarrow> upload_with_retries G C S V overloadConfig coordinatorConfig req (conn, p\<lparr>p_rng := r\<rparr>))"

definition runClientWithStop ::
  "'r rng \<Rightarrow> crypto \<Rightarrow> 'r sealing \<Rightarrow> 'w service \<Rightarrow> client_flags \<Rightarrow> 'r messageProvider \<Rightarrow> retryConfig \<Rightarrow> retryConfig \<Rightarrow> bool
     \<Rightarrow> ('r, 'w) process \<Rightarrow> (unit res \<times> ('r, 'w) process) go option" where
  "runClientWithStop G C S V f nextMessage overloadConfig coordinatorConfig stop p =
     map_option (map_go (apsnd snd))
       (runClientLoop (fl_hammer f) stop (client_request G C S V f nextMessage overloadConfig coordinatorConfig) (False, p))"

text \<open>What a worker resolves from the flags before its loop. The provider is not used with \<^verbatim>\<open>-donothing\<close>.\<close>

definition worker_config :: "'r rng \<Rightarrow> client_flags \<Rightarrow> int \<Rightarrow> ('r messageProvider \<times> retryConfig \<times> retryConfig) res" where
  "worker_config G f globalTableHeight =
     (let overloadEnabled = fl_hammer f \<and> fl_retryOverload f;
          coordinatorRetryEnabled = fl_coordinator f \<noteq> ''''
      in case resolveBackoffConfig (overloadEnabled \<or> coordinatorRetryEnabled) (fl_backoffInitial f) (fl_backoffMax f) of
        Inl err \<Rightarrow> Inl err
      | Inr config \<Rightarrow>
          let overloadConfig = config\<lparr>rt_enabled := overloadEnabled\<rparr>;
              coordinatorConfig = config\<lparr>rt_enabled := coordinatorRetryEnabled\<rparr>
          in if fl_donothing f
             then Inr (\<lambda>r. (Inl (ErrorString ''nil message provider''), r), overloadConfig, coordinatorConfig)
             else map_sum (\<lambda>e. e) (\<lambda>nextMessage. (nextMessage, overloadConfig, coordinatorConfig))
                    (resolveMessageProvider G (fl_x f) (fl_y f) (fl_payload f) globalTableHeight))"

definition runClientWorker ::
  "'r rng \<Rightarrow> crypto \<Rightarrow> 'r sealing \<Rightarrow> 'w service \<Rightarrow> client_flags \<Rightarrow> int \<Rightarrow> bool \<Rightarrow> ('r, 'w) process
     \<Rightarrow> (unit res \<times> ('r, 'w) process) go option" where
  "runClientWorker G C S V f globalTableHeight stop p =
     (case worker_config G f globalTableHeight of
        Inl err \<Rightarrow> Some (Ok (Inl err, p))
      | Inr (nextMessage, overloadConfig, coordinatorConfig) \<Rightarrow>
          runClientWithStop G C S V f nextMessage overloadConfig coordinatorConfig stop p)"

definition queryCoordinatorGlobalTableHeight :: "'w service \<Rightarrow> 'w \<Rightarrow> int res \<times> 'w" where
  "queryCoordinatorGlobalTableHeight V w =
     (case sv_Dial V w of
        (Inl err, w) \<Rightarrow> (Inl err, w)
      | (Inr _, w) \<Rightarrow>
          (case sv_Status V w of
             (Inl err, w) \<Rightarrow> (Inl err, w)
           | (Inr reply, w) \<Rightarrow> (Inr (sy_GlobalTableHeight reply), w)))"

text \<open>\<^verbatim>\<open>main\<close> up to the workers: the target and the height of the table.\<close>

definition client_setup :: "'w service \<Rightarrow> client_flags \<Rightarrow> 'w \<Rightarrow> int res \<times> 'w" where
  "client_setup V f w =
     (case resolveTargetAddress (fl_coordinator f) (fl_leader f) of
        Inl err \<Rightarrow> (Inl err, w)
      | Inr target \<Rightarrow>
          if fl_coordinator f \<noteq> '''' then queryCoordinatorGlobalTableHeight V w
          else (Inr (int TABLE_HEIGHT), w))"

text \<open>\<^verbatim>\<open>main\<close> without \<^verbatim>\<open>-hammer\<close>.\<close>

definition client_main ::
  "'r rng \<Rightarrow> crypto \<Rightarrow> 'r sealing \<Rightarrow> 'w service \<Rightarrow> client_flags \<Rightarrow> ('r, 'w) process \<Rightarrow> (unit res \<times> ('r, 'w) process) go option" where
  "client_main G C S V f p =
     (case client_setup V f (p_world p) of
        (Inl err, w) \<Rightarrow> Some (Ok (Inl err, p\<lparr>p_world := w\<rparr>))
      | (Inr globalTableHeight, w) \<Rightarrow> runClientWorker G C S V f globalTableHeight False (p\<lparr>p_world := w\<rparr>))"

section \<open>Hammering\<close>

text \<open>The workers that \<^verbatim>\<open>runHammerClients\<close> starts: each is running, with its connection, or has ended; the
  channel holds the results in the order in which the workers ended. \<open>req\<close> is the request of one iteration.\<close>

record ('r, 'w) hammer =
  h_workers :: "(bool \<times> bool) list"
  h_errs :: "unit res list"
  h_process :: "('r, 'w) process"

abbreviation running :: "('r, 'w) hammer \<Rightarrow> nat \<Rightarrow> bool" where
  "running h i \<equiv> i < length (h_workers h) \<and> fst (h_workers h ! i)"

definition worker_ends :: "nat \<Rightarrow> bool \<Rightarrow> unit res \<Rightarrow> ('r, 'w) process \<Rightarrow> ('r, 'w) hammer \<Rightarrow> ('r, 'w) hammer" where
  "worker_ends i conn q p h =
     h\<lparr>h_workers := (h_workers h)[i := (False, conn)], h_errs := h_errs h @ [q],
       h_process := if isNoActiveEpochError q then p\<lparr>p_stop := True\<rparr> else p\<rparr>"

inductive hammer_step ::
  "(('r, 'w) worker \<Rightarrow> (unit res \<times> ('r, 'w) worker) go option) \<Rightarrow> ('r, 'w) hammer \<Rightarrow> ('r, 'w) hammer \<Rightarrow> bool"
  for req where
  Continues: "running h i \<Longrightarrow> client_iteration True True req (snd (h_workers h ! i), h_process h) = Some (Ok (None, conn, p)) \<Longrightarrow>
     hammer_step req h (h\<lparr>h_workers := (h_workers h)[i := (True, conn)], h_process := p\<rparr>)"
| Ends: "running h i \<Longrightarrow> client_iteration True True req (snd (h_workers h ! i), h_process h) = Some (Ok (Some q, conn, p)) \<Longrightarrow>
     hammer_step req h (worker_ends i conn q p h)"

definition start_hammer :: "nat \<Rightarrow> ('r, 'w) process \<Rightarrow> ('r, 'w) hammer" where
  "start_hammer concurrent p = \<lparr>h_workers = replicate concurrent (True, False), h_errs = [], h_process = p\<lparr>p_stop := False\<rparr>\<rparr>"

text \<open>The result: the first error in the channel that does not say that no epoch is active.\<close>

fun hammer_result :: "unit res list \<Rightarrow> unit res" where
  "hammer_result [] = Inr ()"
| "hammer_result (q # qs) = (if q = Inr () \<or> isNoActiveEpochError q then hammer_result qs else q)"

section \<open>What an upload needs of the service\<close>

text \<open>\<open>writes_message\<close>: any two servers that process the queued upload \<open>m\<close> find no fault, commit it, and then
  reveal exactly \<open>msg\<close> in addition.\<close>

definition writes_message :: "'r rng \<Rightarrow> crypto \<Rightarrow> 'r sealing \<Rightarrow> CompletedUploadMessage \<Rightarrow> Plaintext \<Rightarrow> bool" where
  "writes_message G C S m msg \<longleftrightarrow>
     (\<forall>s0 s1 order rs. server_ok 0 s0 \<and> server_ok 1 s1 \<and> set order \<subseteq> {0, 1} \<longrightarrow>
        (\<exists>r ps ps' row. submitPrepares G C S (Inr ()) order m rs [Up s0, Up s1] = (Inr True, [], r, ps) \<and>
           submitCommits (Inr ()) order (m_Uuid m) True ps = (Inr (), ps') \<and> MessageToRow msg = Some row \<and>
           revealed ps' = xor_matrix (revealed [Up s0, Up s1]) (zero_matrix[nat (Y msg) := row])))"

definition request_ok :: "int \<Rightarrow> uploadRequest \<Rightarrow> bool" where
  "request_ok globalTableHeight req \<longleftrightarrow>
     length (Message (ur_msg req)) = SLOT_LENGTH \<and> 0 \<le> X (ur_msg req) \<and> X (ur_msg req) < int TABLE_WIDTH \<and>
     0 \<le> ur_routeRow req \<and> ur_routeRow req < max globalTableHeight (int TABLE_HEIGHT) \<and>
     Y (ur_msg req) = ur_routeRow req mod int TABLE_HEIGHT"

lemma request_row: "request_ok h req \<Longrightarrow> 0 \<le> Y (ur_msg req) \<and> Y (ur_msg req) < int TABLE_HEIGHT"
  by (simp add: request_ok_def TABLE_HEIGHT_eq)

lemma submitPrepares_args1:
  "a1_Query x = a1_Query (m_Args1 m) \<Longrightarrow> submitPrepares G C S peers order (m\<lparr>m_Args1 := x\<rparr>) r ps = submitPrepares G C S peers order m r ps"
proof -
  assume "a1_Query x = a1_Query (m_Args1 m)"
  then have "preps (m\<lparr>m_Args1 := x\<rparr>) = preps m" by (simp add: preps_def fun_eq_iff)
  then show ?thesis by (simp only: submitPrepares_def)
qed

lemma tryUpload_ok:
  assumes "tryUpload G C S V req p = Ok (Inr (), p')"
    and i: "InitializeUploadArgs G C S zero_args1 (ur_msg req) (p_rng p) = Ok (args1, shares, r1)"
  obtains rep w1 mint b r2 rep2 w2 d r3 where "sv_Upload1 V (args1\<lparr>RouteRow := ur_routeRow req\<rparr>) (p_world p) = (Inr rep, w1)"
    "SetUploadArgs2 G C S shares rep r1 = Ok (mint, b, r2)" "sv_Upload2 V b w1 = (Inr rep2, w2)"
    "SetUploadArgs3 G C S (ur_msg req) mint rep rep2 r2 = Ok (d, r3)" "sv_Upload3 V d w2 = (Inr (), p_world p')"
proof -
  obtain q w1 where u1: "sv_Upload1 V (args1\<lparr>RouteRow := ur_routeRow req\<rparr>) (p_world p) = (q, w1)" by fastforce
  with assms obtain rep where q: "q = Inr rep" by (cases q) (auto simp: tryUpload_def)
  with assms u1 obtain mint b r2 where s2: "SetUploadArgs2 G C S shares rep r1 = Ok (mint, b, r2)"
    by (auto simp: tryUpload_def go_bind_eq_Ok)
  obtain q2 w2 where u2: "sv_Upload2 V b w1 = (q2, w2)" by fastforce
  with assms u1 q s2 obtain rep2 where q2: "q2 = Inr rep2" by (cases q2) (auto simp: tryUpload_def)
  with assms u1 q s2 u2 obtain d r3 where s3: "SetUploadArgs3 G C S (ur_msg req) mint rep rep2 r2 = Ok (d, r3)"
    by (auto simp: tryUpload_def go_bind_eq_Ok)
  obtain q3 w3 where u3: "sv_Upload3 V d w2 = (q3, w3)" by fastforce
  have "q3 = Inr () \<and> w3 = p_world p'" using assms u1 q s2 u2 q2 s3 u3 by (cases q3) (auto simp: tryUpload_def)
  then show ?thesis using that u1 q s2 u2 q2 s3 u3 by blast
qed

lemma upload_args_exist:
  assumes "rng_ok G" "crypto_ok C" "sealing_ok S" "request_ok h req"
  obtains args1 shares r1 where "InitializeUploadArgs G C S args (ur_msg req) r = Ok (args1, shares, r1)"
    "\<And>res1 res2. \<exists>mint args2 r2 args3 r3. SetUploadArgs2 G C S shares res1 r1 = Ok (mint, args2, r2) \<and>
       SetUploadArgs3 G C S (ur_msg req) mint res1 res2 r2 = Ok (args3, r3)"
proof -
  have v: "length (Message (ur_msg req)) = SLOT_LENGTH" "0 \<le> X (ur_msg req)" "X (ur_msg req) < int TABLE_WIDTH"
    "0 \<le> Y (ur_msg req)" "Y (ur_msg req) < int TABLE_HEIGHT"
    using assms(4) request_row [OF assms(4)] by (auto simp: request_ok_def)
  note h = honest_upload [OF assms(1-3) v sample_server_ok sample_server_ok, of "[]", simplified, of args r]
  from h obtain args1 shares r1 where i: "InitializeUploadArgs G C S args (ur_msg req) r = Ok (args1, shares, r1)" by blast
  show ?thesis by (rule that [OF i]) (use h i in fastforce)
qed

lemma tryUpload_total:
  assumes "rng_ok G" "crypto_ok C" "sealing_ok S" "request_ok h req"
  shows "\<exists>q p'. tryUpload G C S V req p = Ok (q, p')"
proof -
  obtain args1 shares r1 where i: "InitializeUploadArgs G C S zero_args1 (ur_msg req) (p_rng p) = Ok (args1, shares, r1)"
    and a: "\<And>res1 res2. \<exists>mint args2 r2 args3 r3. SetUploadArgs2 G C S shares res1 r1 = Ok (mint, args2, r2) \<and>
       SetUploadArgs3 G C S (ur_msg req) mint res1 res2 r2 = Ok (args3, r3)"
    by (rule upload_args_exist [OF assms]) blast
  obtain q w1 where u1: "sv_Upload1 V (args1\<lparr>RouteRow := ur_routeRow req\<rparr>) (p_world p) = (q, w1)" by fastforce
  show ?thesis
  proof (cases q)
    case (Inr rep)
    obtain mint b r2 where b: "SetUploadArgs2 G C S shares rep r1 = Ok (mint, b, r2)" using a by blast
    obtain q2 w2 where u2: "sv_Upload2 V b w1 = (q2, w2)" by fastforce
    show ?thesis
    proof (cases q2)
      case rep2: (Inr rep2)
      obtain d r3 where d: "SetUploadArgs3 G C S (ur_msg req) mint rep rep2 r2 = Ok (d, r3)" using a [of rep rep2] b by auto
      show ?thesis using i u1 Inr b u2 rep2 d by (auto simp: tryUpload_def split: prod.splits sum.splits)
    qed (use i u1 Inr b u2 in \<open>auto simp: tryUpload_def\<close>)
  qed (use i u1 in \<open>auto simp: tryUpload_def\<close>)
qed

locale upload_service =
  fixes V :: "'w service" and ready :: "'w \<Rightarrow> bool"
    and delivers :: "int \<Rightarrow> CompletedUploadMessage \<Rightarrow> 'w \<Rightarrow> 'w \<Rightarrow> bool"
  assumes flow: "ready w \<Longrightarrow> sv_Upload1 V a w = (Inr rep, w1) \<Longrightarrow> a2_Uuid b = r1_Uuid rep \<Longrightarrow> a2_HashKey b = r1_HashKey rep \<Longrightarrow>
      a3_Uuid d = r1_Uuid rep \<Longrightarrow> a3_HashKey d = r1_HashKey rep \<Longrightarrow>
      \<exists>ch w2. sv_Upload2 V b w1 = (Inr \<lparr>Challenge = ch\<rparr>, w2) \<and>
        (\<forall>w3. sv_Upload3 V d w2 = (Inr (), w3) \<longrightarrow>
           (\<exists>m. delivers (RouteRow a) m w w3 \<and> m_HashKey m = r1_HashKey rep \<and> m_Challenge m = ch \<and>
                a1_Query (m_Args1 m) = a1_Query a \<and> m_Args2 m = b \<and> m_Args3 m = d))"
begin

lemma upload_delivers:
  assumes ok: "rng_ok G" "crypto_ok C" "sealing_ok S" "request_ok h req" "ready (p_world p)"
    and run: "tryUpload G C S V req p = Ok (Inr (), p')"
  shows "\<exists>m. delivers (ur_routeRow req) m (p_world p) (p_world p') \<and> writes_message G C S m (ur_msg req)"
proof -
  obtain args1 shares r1 where i: "InitializeUploadArgs G C S zero_args1 (ur_msg req) (p_rng p) = Ok (args1, shares, r1)"
    by (rule upload_args_exist [OF ok(1-4)])
  let ?a = "args1\<lparr>RouteRow := ur_routeRow req\<rparr>"
  from run i obtain rep w1 mint b r2 rep2 w2 d r3 where u: "sv_Upload1 V ?a (p_world p) = (Inr rep, w1)"
    "SetUploadArgs2 G C S shares rep r1 = Ok (mint, b, r2)" "sv_Upload2 V b w1 = (Inr rep2, w2)"
    "SetUploadArgs3 G C S (ur_msg req) mint rep rep2 r2 = Ok (d, r3)" "sv_Upload3 V d w2 = (Inr (), p_world p')"
    by (rule tryUpload_ok)
  have k: "a2_Uuid b = r1_Uuid rep" "a2_HashKey b = r1_HashKey rep" "a3_Uuid d = r1_Uuid rep" "a3_HashKey d = r1_HashKey rep"
    using u(2,4) by (auto simp: SetUploadArgs2_def SetUploadArgs3_def go_bind_eq_Ok Let_def)
  from flow [OF ok(5) u(1) k] u(3,5) obtain m where m: "delivers (ur_routeRow req) m (p_world p) (p_world p')" "m_HashKey m = r1_HashKey rep"
    "m_Challenge m = Challenge rep2" "a1_Query (m_Args1 m) = a1_Query args1" "m_Args2 m = b" "m_Args3 m = d"
    by auto
  have "writes_message G C S m (ur_msg req)"
    unfolding writes_message_def
  proof (intro allI impI, elim conjE)
    fix s0 s1 order rs
    assume s: "server_ok 0 s0" "server_ok 1 s1" "set order \<subseteq> {0, 1 :: nat}"
    have v: "length (Message (ur_msg req)) = SLOT_LENGTH" "0 \<le> X (ur_msg req)" "X (ur_msg req) < int TABLE_WIDTH"
      "0 \<le> Y (ur_msg req)" "Y (ur_msg req) < int TABLE_HEIGHT"
      using ok(4) request_row [OF ok(4)] by (auto simp: request_ok_def)
    have e: "m\<lparr>m_HashKey := r1_HashKey rep, m_Challenge := Challenge rep2, m_Args1 := args1, m_Args2 := b, m_Args3 := d\<rparr>
        = m\<lparr>m_Args1 := args1\<rparr>"
      using m by simp
    from honest_upload [OF ok(1-3) v s, where args = zero_args1 and r = "p_rng p" and ?res1.0 = rep and ?res2.0 = rep2 and cu = m and rs = rs]
    show "\<exists>r ps ps' row. submitPrepares G C S (Inr ()) order m rs [Up s0, Up s1] = (Inr True, [], r, ps) \<and>
        submitCommits (Inr ()) order (m_Uuid m) True ps = (Inr (), ps') \<and> MessageToRow (ur_msg req) = Some row \<and>
        revealed ps' = xor_matrix (revealed [Up s0, Up s1]) (zero_matrix[nat (Y (ur_msg req)) := row])"
      using i u(2,4) by (auto simp: e submitPrepares_args1 m(4))
  qed
  then show ?thesis using m(1) by blast
qed

end

section \<open>The coordinator and the leader as services\<close>

type_synonym ('s, 'h, 'q, 'r) backend_world = "Coordinator \<times> 's \<times> MemorySessionStore \<times> 'h \<times> ('q, 'r) fleet"

text \<open>The coordinator has no method \<^verbatim>\<open>DoNothing\<close>, which net/rpc reports.\<close>

definition coordinator_service ::
  "'s control_ops \<Rightarrow> ('q, 'r) fleet shard_ops \<Rightarrow> 'h rng \<Rightarrow> gotime \<Rightarrow> string \<Rightarrow> ('s, 'h, 'q, 'r) backend_world service" where
  "coordinator_service S R H now backend =
     \<lparr>sv_Dial = (\<lambda>w. (Inr (), w)),
      sv_Upload1 = (\<lambda>a (c, s, x, r, w). case coord_Upload1 S mem_session_ops R H now a (c, s, x, r, w) of
         (q, c, x, r, w) \<Rightarrow> (rpc_result q, c, s, x, r, w)),
      sv_Upload2 = (\<lambda>b (c, s, x, r, w). case coord_Upload2 S mem_session_ops R b (c, s, x, w) of
         (q, c, x, w) \<Rightarrow> (rpc_result q, c, s, x, r, w)),
      sv_Upload3 = (\<lambda>d (c, s, x, r, w). case coord_Upload3 S mem_session_ops R d (c, s, x, w) of
         (q, c, x, w) \<Rightarrow> (rpc_result q, c, s, x, r, w)),
      sv_DoNothing = (\<lambda>w. (Inl (ErrorString ''rpc: can't find method Server.DoNothing''), w)),
      sv_Status = (\<lambda>(c, s, x, r, w). case coord_Status S R backend (\<lambda>_. now) (Some 0) s w c of
         (reply, c) \<Rightarrow> (Inr reply, c, s, x, r, w)),
      sv_Sleep = (\<lambda>d w. w)\<rparr>"

text \<open>A leader, reached directly. Its \<^verbatim>\<open>Status\<close> is not called by the client and is a parameter.\<close>

definition leader_service ::
  "'q queue_ops \<Rightarrow> 'r rng \<Rightarrow> gotime \<Rightarrow> ('r \<times> 'q leader \<Rightarrow> CoordinatorStatusReply res \<times> 'r \<times> 'q leader) \<Rightarrow> ('r \<times> 'q leader) service" where
  "leader_service Q G now status =
     \<lparr>sv_Dial = (\<lambda>w. (Inr (), w)),
      sv_Upload1 = (\<lambda>a (r, l). case Upload1 G a r l of (q, r, l) \<Rightarrow> (rpc_result q, r, l)),
      sv_Upload2 = (\<lambda>b (r, l). case Upload2 b l of (q, l) \<Rightarrow> (rpc_result q, r, l)),
      sv_Upload3 = (\<lambda>d (r, l). case Upload3 Q now d l of (q, _, l) \<Rightarrow> (rpc_result q, r, l)),
      sv_DoNothing = (\<lambda>w. (Inr (), w)),
      sv_Status = status,
      sv_Sleep = (\<lambda>d w. w)\<rparr>"

text \<open>What it means that the upload for a row has been delivered: one message was taken by the queue of a leader,
  and no other leader has changed.\<close>

definition queued_at ::
  "'q queue_ops \<Rightarrow> gotime \<Rightarrow> CompletedUploadMessage \<Rightarrow> 'q leader \<Rightarrow> 'q leader \<Rightarrow> bool" where
  "queued_at Q now m l l' \<longleftrightarrow> (\<exists>msgID. q_enqueue Q now m (ld_queue l) = (Inr msgID, ld_queue l'))"

definition coordinator_delivers ::
  "'s control_ops \<Rightarrow> 'q queue_ops \<Rightarrow> gotime \<Rightarrow> int \<Rightarrow> CompletedUploadMessage
     \<Rightarrow> ('s, 'h, 'q, 'r) backend_world \<Rightarrow> ('s, 'h, 'q, 'r) backend_world \<Rightarrow> bool" where
  "coordinator_delivers S Q now row m = (\<lambda>(c, s, x, r, w) (c', s', x', r', w').
     \<exists>ep shard addr l l'. route_upload S row c s = Inr (ep, shard, addr) \<and> fl_leaders w addr = Some l \<and>
       fl_leaders w' = (fl_leaders w)(addr \<mapsto> l') \<and> queued_at Q now m l l' \<and>
       m_LocalRow m = row - StartRow shard \<and> m_GlobalRow m = ld_globalRowStart l + (row - StartRow shard))"

definition leader_delivers ::
  "'q queue_ops \<Rightarrow> gotime \<Rightarrow> int \<Rightarrow> CompletedUploadMessage \<Rightarrow> 'r \<times> 'q leader \<Rightarrow> 'r \<times> 'q leader \<Rightarrow> bool" where
  "leader_delivers Q now row m = (\<lambda>(r, l) (r', l').
     queued_at Q now m l l' \<and> m_LocalRow m = row \<and> m_GlobalRow m = ld_globalRowStart l + row)"

definition epoch_positive :: "'s control_ops \<Rightarrow> gotime \<Rightarrow> ('s, 'h, 'q, 'r) backend_world \<Rightarrow> bool" where
  "epoch_positive S now = (\<lambda>(c, s, _). \<not> IsZero now \<and> (\<forall>ep. ct_CurrentEpoch S s = Some ep \<longrightarrow> 0 < ep_ID ep))"

interpretation via_coordinator: upload_service "coordinator_service S (fleet_ops Q G now status) H now backend"
  "epoch_positive S now" "coordinator_delivers S Q now"
proof unfold_locales
  fix v a rep v1 and b :: UploadArgs2 and d :: UploadArgs3
  assume r: "epoch_positive S now v"
    and u1: "sv_Upload1 (coordinator_service S (fleet_ops Q G now status) H now backend) a v = (Inr rep, v1)"
    and k: "a2_Uuid b = r1_Uuid rep" "a2_HashKey b = r1_HashKey rep" "a3_Uuid d = r1_Uuid rep" "a3_HashKey d = r1_HashKey rep"
  let ?V = "coordinator_service S (fleet_ops Q G now status) H now backend"
  obtain c s x r0 w where v: "v = (c, s, x, r0, w)" by (cases v)
  from u1 obtain c1 x1 r1 w1 where run: "coord_Upload1 S mem_session_ops (fleet_ops Q G now status) H now a (c, s, x, r0, w) = (Inr rep, c1, x1, r1, w1)"
    and v1: "v1 = (c1, s, x1, r1, w1)"
    by (auto simp: coordinator_service_def v split: prod.splits)
  have n: "\<not> IsZero now" "\<forall>ep. ct_CurrentEpoch S s = Some ep \<longrightarrow> 0 < ep_ID ep" using r by (simp_all add: epoch_positive_def v)
  from coordinated_upload [OF run n k] obtain ep shard addr l ch w2 l3
    where f: "route_upload S (RouteRow a) c s = Inr (ep, shard, addr)" "fl_leaders w addr = Some l"
      "coord_Upload2 S mem_session_ops (fleet_ops Q G now status) b (c1, s, x1, w1) = (Inr \<lparr>Challenge = ch\<rparr>, c1, x1, w2)"
      and g: "let a' = shard_args1 a shard (new_session (ep_ID ep) shard (RouteRow a) now (r1_Uuid rep) (r1_HashKey rep));
          msg = session_message l (r1_Uuid rep) (r1_HashKey rep) ch a' b d; (er, q) = q_enqueue Q now msg (ld_queue l);
          (res, c3, x3, w3) = coord_Upload3 S mem_session_ops (fleet_ops Q G now status) d (c1, s, x1, w2)
      in m_LocalRow msg = RouteRow a - StartRow shard \<and> m_GlobalRow msg = ld_globalRowStart l - StartRow shard + RouteRow a \<and>
         isl res = isl er \<and> fl_leaders w3 = (fl_leaders w)(addr \<mapsto> l3) \<and> ld_queue l3 = q \<and>
         (isl er \<or> live_sessions x3 = live_sessions x \<and> co_sessions c3 = (co_sessions c)(r1_Uuid rep := None))"
    by blast
  let ?m = "session_message l (r1_Uuid rep) (r1_HashKey rep) ch
    (shard_args1 a shard (new_session (ep_ID ep) shard (RouteRow a) now (r1_Uuid rep) (r1_HashKey rep))) b d"
  have "\<exists>m. coordinator_delivers S Q now (RouteRow a) m v w3 \<and> m_HashKey m = r1_HashKey rep \<and> m_Challenge m = ch \<and>
      a1_Query (m_Args1 m) = a1_Query a \<and> m_Args2 m = b \<and> m_Args3 m = d"
    if "sv_Upload3 ?V d (c1, s, x1, r1, w2) = (Inr (), w3)" for w3
  proof -
    from that obtain c3 x3 w' where u3: "coord_Upload3 S mem_session_ops (fleet_ops Q G now status) d (c1, s, x1, w2) = (Inr (), c3, x3, w')"
      "w3 = (c3, s, x3, r1, w')"
      by (auto simp: coordinator_service_def split: prod.splits)
    obtain er q where e: "q_enqueue Q now ?m (ld_queue l) = (er, q)" by fastforce
    have "\<not> isl er" "fl_leaders w' = (fl_leaders w)(addr \<mapsto> l3)" "ld_queue l3 = q"
      "m_LocalRow ?m = RouteRow a - StartRow shard" "m_GlobalRow ?m = ld_globalRowStart l - StartRow shard + RouteRow a"
      using g by (simp_all add: Let_def e u3(1))
    moreover from this e have "queued_at Q now ?m l l3" by (cases er) (auto simp: queued_at_def)
    ultimately have "coordinator_delivers S Q now (RouteRow a) ?m v w3"
      using f(1,2) by (auto simp: coordinator_delivers_def v u3(2))
    then show ?thesis by (intro exI [of _ ?m]) (simp add: session_message_def shard_args1_def)
  qed
  moreover have "sv_Upload2 ?V b v1 = (Inr \<lparr>Challenge = ch\<rparr>, c1, s, x1, r1, w2)"
    using f(3) by (simp add: coordinator_service_def v1)
  ultimately show "\<exists>ch w2. sv_Upload2 ?V b v1 = (Inr \<lparr>Challenge = ch\<rparr>, w2) \<and>
      (\<forall>w3. sv_Upload3 ?V d w2 = (Inr (), w3) \<longrightarrow>
         (\<exists>m. coordinator_delivers S Q now (RouteRow a) m v w3 \<and> m_HashKey m = r1_HashKey rep \<and> m_Challenge m = ch \<and>
              a1_Query (m_Args1 m) = a1_Query a \<and> m_Args2 m = b \<and> m_Args3 m = d))"
    by blast
qed

interpretation via_leader: upload_service "leader_service Q G now status" "\<lambda>_. True" "leader_delivers Q now"
proof unfold_locales
  fix v a rep v1 and b :: UploadArgs2 and d :: UploadArgs3
  assume u1: "sv_Upload1 (leader_service Q G now status) a v = (Inr rep, v1)"
    and k: "a2_Uuid b = r1_Uuid rep" "a2_HashKey b = r1_HashKey rep" "a3_Uuid d = r1_Uuid rep" "a3_HashKey d = r1_HashKey rep"
  obtain r l where v: "v = (r, l)" by (cases v)
  from u1 obtain r' l1 where run: "Upload1 G a r l = (Inr rep, r', l1)" and v1: "v1 = (r', l1)"
    by (cases v1) (auto simp: leader_service_def v split: prod.splits)
  from leader_flow [OF run k, of Q now] obtain ch l2 ns l3 where f: "Upload2 b l1 = (Inr \<lparr>Challenge = ch\<rparr>, l2)"
    and g: "let (er, q) = q_enqueue Q now (session_message l (r1_Uuid rep) (r1_HashKey rep) ch a b d) (ld_queue l)
      in Upload3 Q now d l2 = (map_sum id (\<lambda>_. ()) er, ns, l3) \<and> ld_queue l3 = q"
    by blast
  let ?m = "session_message l (r1_Uuid rep) (r1_HashKey rep) ch a b d"
  obtain er q where e: "q_enqueue Q now ?m (ld_queue l) = (er, q)" by fastforce
  have d3: "leader_delivers Q now (RouteRow a) ?m v w3" if "sv_Upload3 (leader_service Q G now status) d (r', l2) = (Inr (), w3)" for w3
    using that g e by (cases er) (auto simp: leader_service_def leader_delivers_def queued_at_def session_message_def v rpc_result_def)
  then show "\<exists>ch w2. sv_Upload2 (leader_service Q G now status) b v1 = (Inr \<lparr>Challenge = ch\<rparr>, w2) \<and>
      (\<forall>w3. sv_Upload3 (leader_service Q G now status) d w2 = (Inr (), w3) \<longrightarrow>
         (\<exists>m. leader_delivers Q now (RouteRow a) m v w3 \<and> m_HashKey m = r1_HashKey rep \<and> m_Challenge m = ch \<and>
              a1_Query (m_Args1 m) = a1_Query a \<and> m_Args2 m = b \<and> m_Args3 m = d))"
    using f by (intro exI [of _ ch] exI [of _ "(r', l2)"] conjI allI impI exI [of _ ?m])
      (auto simp: leader_service_def v1 session_message_def)
qed

section \<open>Requests lie in the table\<close>

lemma length_payload_slot: "length (payload_slot payload) = SLOT_LENGTH"
  by (simp add: payload_slot_def Let_def)

lemma RandIntShort_bounds:
  "rng_ok G \<Longrightarrow> 0 < m \<Longrightarrow> RandIntShort G m r = (i, r') \<Longrightarrow> 0 \<le> i \<and> i < m"
  by (metis RandIntShort_def RandInt64_def RandInt_def fst_conv rng_ok_def)

lemma RandomSlot_length: "rng_ok G \<Longrightarrow> RandomSlot G r = (m, r') \<Longrightarrow> length m = SLOT_LENGTH"
  by (metis RandBytes_def RandomSlot_def fst_conv rng_ok_def)

lemma provider_request:
  assumes G: "rng_ok G" and "resolveMessageProvider G x y payload h = Inr provider"
  obtains req r' where "provider r = (Inr req, r')" "request_ok h req"
proof -
  have W: "0 < int TABLE_WIDTH" "0 < int TABLE_HEIGHT" by (simp_all add: TABLE_WIDTH_def TABLE_HEIGHT_eq)
  consider "provider = randomCoordinatorUploadRequest G h" "int TABLE_HEIGHT < h" | "provider = randomLocalUploadRequest G"
    | "provider = (\<lambda>r. (Inr \<lparr>ur_msg = \<lparr>Message = payload_slot payload, X = x, Y = y mod int TABLE_HEIGHT\<rparr>, ur_routeRow = y\<rparr>, r))"
      "0 \<le> x" "x < int TABLE_WIDTH" "0 \<le> y" "y < max h (int TABLE_HEIGHT)"
    using assms(2) by (auto simp: resolveMessageProvider_def Let_def split: if_splits)
  then show ?thesis
  proof cases
    case 1
    obtain i r1 where i: "RandIntShort G (int TABLE_WIDTH) r = (i, r1)" by fastforce
    obtain j r2 where j: "RandIntShort G h r1 = (j, r2)" by fastforce
    obtain m r3 where m: "RandomSlot G r2 = (m, r3)" by fastforce
    show ?thesis
      using 1 W RandIntShort_bounds [OF G _ i] RandIntShort_bounds [OF G _ j] RandomSlot_length [OF G m]
      by (intro that [of "\<lparr>ur_msg = \<lparr>Message = m, X = i, Y = j mod int TABLE_HEIGHT\<rparr>, ur_routeRow = j\<rparr>" r3])
        (auto simp: randomCoordinatorUploadRequest_def i j m request_ok_def)
  next
    case 2
    obtain i r1 where i: "RandIntShort G (int TABLE_WIDTH) r = (i, r1)" by fastforce
    obtain j r2 where j: "RandIntShort G (int TABLE_HEIGHT) r1 = (j, r2)" by fastforce
    obtain m r3 where m: "RandomSlot G r2 = (m, r3)" by fastforce
    show ?thesis
      using 2 W RandIntShort_bounds [OF G _ i] RandIntShort_bounds [OF G _ j] RandomSlot_length [OF G m]
      by (intro that [of "\<lparr>ur_msg = \<lparr>Message = m, X = i, Y = j\<rparr>, ur_routeRow = j\<rparr>" r3])
        (auto simp: randomLocalUploadRequest_def RandomMessage_def i j m request_ok_def)
  next
    case 3
    then show ?thesis by (intro that) (auto simp: request_ok_def length_payload_slot)
  qed
qed

section \<open>Retrying\<close>

definition retried :: "(unit res \<Rightarrow> bool) \<Rightarrow> bool \<Rightarrow> (unit res \<times> 's) go \<Rightarrow> bool" where
  "retried again enabled y = (case y of Ok (q, _) \<Rightarrow> enabled \<and> q \<noteq> Inr () \<and> again q | _ \<Rightarrow> False)"

text \<open>The state before the attempt number \<open>k\<close>, if all earlier attempts were retried, waiting \<open>B i\<close> after
  the attempt number \<open>i\<close>.\<close>

primrec retry_state ::
  "(unit res \<Rightarrow> bool) \<Rightarrow> bool \<Rightarrow> ('s \<Rightarrow> (unit res \<times> 's) go option) \<Rightarrow> (duration \<Rightarrow> 's \<Rightarrow> 's) \<Rightarrow> nat \<Rightarrow> (nat \<Rightarrow> duration) \<Rightarrow> 's \<Rightarrow> 's option" where
  "retry_state again enabled upload sleep 0 B s = Some s"
| "retry_state again enabled upload sleep (Suc k) B s =
     (case upload s of
        Some (Ok (q, s')) \<Rightarrow>
          if retried again enabled (Ok (q, s')) then retry_state again enabled upload sleep k (\<lambda>i. B (Suc i)) (sleep (B 0) s') else None
      | _ \<Rightarrow> None)"

lemma retry_loop_sound:
  "retry_loop again config upload sleep b s = Some y \<Longrightarrow> (\<And>i. B (Suc i) = nextBackoff (B i) (maxBackoff config)) \<Longrightarrow> B 0 = b \<Longrightarrow>
     \<exists>k s'. retry_state again (rt_enabled config) upload sleep k B s = Some s' \<and> upload s' = Some y \<and> \<not> retried again (rt_enabled config) y"
proof (induction arbitrary: B rule: retry_loop.raw_induct [rotated, consumes 1])
  case (1 loop again config upload sleep b s y)
  obtain z where z: "upload s = Some z" using 1(2) by (cases "upload s") auto
  show ?case
  proof (cases "retried again (rt_enabled config) z")
    case False
    then have "y = z" using 1(2) z by (auto simp: retried_def split: go.splits prod.splits if_splits)
    then show ?thesis using False z by (intro exI [of _ 0] exI [of _ s]) simp
  next
    case True
    then obtain q s' where q: "z = Ok (q, s')" by (cases z) (auto simp: retried_def)
    then have "loop again config upload sleep (nextBackoff b (maxBackoff config)) (sleep b s') = Some y"
      using 1(2) z True by (auto simp: retried_def)
    from 1(1) [OF this, of "\<lambda>i. B (Suc i)"] 1(3,4) obtain k s'' where
      "retry_state again (rt_enabled config) upload sleep k (\<lambda>i. B (Suc i)) (sleep b s') = Some s''" "upload s'' = Some y"
      "\<not> retried again (rt_enabled config) y" by auto
    then show ?thesis using z q True 1(4) by (intro exI [of _ "Suc k"] exI [of _ s'']) auto
  qed
qed

lemma retry_loop_complete:
  "retry_state again (rt_enabled config) upload sleep k B s = Some s' \<Longrightarrow> upload s' = Some y \<Longrightarrow> \<not> retried again (rt_enabled config) y \<Longrightarrow>
     (\<And>i. B (Suc i) = nextBackoff (B i) (maxBackoff config)) \<Longrightarrow> retry_loop again config upload sleep (B 0) s = Some y"
proof (induction k arbitrary: B s)
  case 0
  then show ?case by (subst retry_loop.simps) (auto simp: retried_def split: go.splits prod.splits)
next
  case (Suc k)
  then obtain q s1 where q: "upload s = Some (Ok (q, s1))" "retried again (rt_enabled config) (Ok (q, s1))"
    "retry_state again (rt_enabled config) upload sleep k (\<lambda>i. B (Suc i)) (sleep (B 0) s1) = Some s'"
    by (auto split: option.splits go.splits prod.splits if_splits)
  from Suc.IH [OF this(3) Suc.prems(2,3)] Suc.prems(4) have "retry_loop again config upload sleep (B 1) (sleep (B 0) s1) = Some y" by simp
  then show ?case using q(1,2) Suc.prems(4) [of 0] by (subst retry_loop.simps) (simp add: retried_def)
qed

lemma wrap64_double: "0 \<le> t \<Longrightarrow> t < 2 ^ 62 \<Longrightarrow> wrap64 (t * 2) = t * 2"
  by (rule wrap64_id) (simp add: in_int64_def)

lemma nextBackoff_doubles:
  assumes "0 < b" "b \<le> m" "m \<le> 2 ^ 62"
  shows "nextBackoff (min (b * 2 ^ k) m) m = min (b * 2 ^ Suc k) m"
proof (cases "b * 2 ^ k < m")
  case True
  have "0 \<le> b * 2 ^ k" using assms(1) by simp
  then have "wrap64 (b * 2 ^ k * 2) = b * 2 ^ k * 2" using True assms(3) by (intro wrap64_double) linarith+
  then show ?thesis using True by (auto simp: nextBackoff_def Let_def min_def)
next
  case False
  then show ?thesis using assms by (auto simp: nextBackoff_def min_def)
qed

lemma resolved_backoff:
  assumes "resolveBackoffConfig True initialMS maxMS = Inr config" "0 \<le> initialMS" "0 \<le> maxMS"
    "initialMS * millisecond \<le> 2 ^ 62" "maxMS * millisecond \<le> 2 ^ 62"
  shows "initialBackoff config = initialMS * millisecond" "maxBackoff config = maxMS * millisecond"
    "0 < initialBackoff config" "initialBackoff config \<le> maxBackoff config"
proof -
  have w: "wrap64 (initialMS * millisecond) = initialMS * millisecond" "wrap64 (maxMS * millisecond) = maxMS * millisecond"
    using assms(2-5) by (intro wrap64_id; simp add: in_int64_def millisecond_def)+
  have z: "initialMS \<noteq> 0" "maxMS \<noteq> 0" using assms(1) by (auto simp: resolveBackoffConfig_def split: if_splits)
  have c: "config = zero_retry\<lparr>initialBackoff := initialMS * millisecond, maxBackoff := maxMS * millisecond\<rparr>"
    "\<not> maxMS * millisecond < initialMS * millisecond"
    using assms(1) z by (auto simp: resolveBackoffConfig_def w Let_def split: if_splits)
  then show "initialBackoff config = initialMS * millisecond" "maxBackoff config = maxMS * millisecond"
    "0 < initialBackoff config" "initialBackoff config \<le> maxBackoff config"
    using assms(2) z by (simp_all add: millisecond_def)
qed

lemma retry_loop_iff:
  assumes "0 < initialBackoff config" "initialBackoff config \<le> maxBackoff config" "maxBackoff config \<le> 2 ^ 62"
  shows "retry_loop again config upload sleep (initialBackoff config) s = Some y \<longleftrightarrow>
     (\<exists>k s'. retry_state again (rt_enabled config) upload sleep k (\<lambda>i. min (initialBackoff config * 2 ^ i) (maxBackoff config)) s = Some s' \<and>
        upload s' = Some y \<and> \<not> retried again (rt_enabled config) y)"
proof -
  let ?B = "\<lambda>i. min (initialBackoff config * 2 ^ i) (maxBackoff config)"
  have B: "?B (Suc i) = nextBackoff (?B i) (maxBackoff config)" for i using nextBackoff_doubles [OF assms, of i] by simp
  have 0: "?B 0 = initialBackoff config" using assms(2) by simp
  show ?thesis
    using retry_loop_sound [of again config upload sleep "initialBackoff config" s y ?B] retry_loop_complete [of again config upload sleep _ ?B s _ y] B 0
    by metis
qed

section \<open>Workers that stop\<close>

definition running_workers :: "('r, 'w) hammer \<Rightarrow> nat set" where
  "running_workers h = {i. running h i}"

lemma finite_running [simp]: "finite (running_workers h)"
  by (simp add: running_workers_def)

lemma running_after_end:
  "running h i \<Longrightarrow> running_workers (worker_ends i conn q p h) = running_workers h - {i}"
  by (auto simp: running_workers_def worker_ends_def nth_list_update)

lemma no_active_stops:
  assumes "hammer_step req h h'" "(\<exists>q \<in> set (h_errs h). isNoActiveEpochError q) \<longrightarrow> p_stop (h_process h)"
    "\<exists>q \<in> set (h_errs h'). isNoActiveEpochError q"
  shows "p_stop (h_process h')"
  using assms by (cases rule: hammer_step.cases) (auto simp: worker_ends_def client_iteration_def split: if_splits)

lemma reachable_stops:
  assumes "(hammer_step req)\<^sup>*\<^sup>* (start_hammer n p) h"
  shows "(\<exists>q \<in> set (h_errs h). isNoActiveEpochError q) \<longrightarrow> p_stop (h_process h)"
  using assms by (induction rule: rtranclp_induct) (auto simp: start_hammer_def intro: no_active_stops)

lemma stopped_step:
  assumes "hammer_step req h h'" "p_stop (h_process h)"
  obtains i where "running h i" "running_workers h' = running_workers h - {i}" "h_process h' = h_process h"
    "h_errs h' = h_errs h @ [Inr ()]"
  using assms
proof (cases rule: hammer_step.cases)
  case (Ends i q conn p)
  then have "q = Inr ()" "p = h_process h" using assms(2) by (auto simp: client_iteration_def)
  then show ?thesis
    using Ends that [of i] running_after_end [of i h conn q p] by (simp add: worker_ends_def isNoActiveEpochError_def)
qed (simp add: client_iteration_def)

lemma stopped_run:
  "(hammer_step req ^^ k) h h' \<Longrightarrow> p_stop (h_process h) \<Longrightarrow>
     k + card (running_workers h') = card (running_workers h) \<and> h_process h' = h_process h \<and> h_errs h' = h_errs h @ replicate k (Inr ())"
proof (induction k arbitrary: h')
  case (Suc k)
  then obtain g where g: "(hammer_step req ^^ k) h g" "hammer_step req g h'" by auto
  note IH = Suc.IH [OF g(1) Suc.prems(2)]
  then have "p_stop (h_process g)" using Suc.prems(2) by simp
  with g(2) obtain i where i: "running g i" "running_workers h' = running_workers g - {i}" "h_process h' = h_process g"
    "h_errs h' = h_errs g @ [Inr ()]" by (rule stopped_step)
  have "Suc (card (running_workers h')) = card (running_workers g)"
    unfolding i(2) by (rule card_Suc_Diff1) (use i(1) in \<open>simp_all add: running_workers_def\<close>)
  then show ?case using IH i(3,4) by (simp add: replicate_append_same)
qed simp

lemma stopped_progress:
  assumes "p_stop (h_process h)" "0 < card (running_workers h)"
  shows "\<exists>h'. hammer_step req h h'"
proof -
  obtain i where "running h i" using assms(2) by (auto simp: running_workers_def card_gt_0_iff)
  then show ?thesis using assms(1) hammer_step.Ends [of i h req "Inr ()" "snd (h_workers h ! i)" "h_process h"]
    by (auto simp: client_iteration_def)
qed

lemma hammer_result_nil: "hammer_result (qs @ replicate k (Inr ())) = hammer_result qs"
proof (induction qs)
  case Nil
  show ?case by (induction k) auto
qed auto

section \<open>Properties\<close>

text \<open>C2: A client's upload, from end to end. Let an upload of the client through the coordinator have succeeded, for a
  request of the client's own making. Then exactly one message was handed to a queue: that of the leader
  serving the shard the coordinator routes the row to; no other leader was touched. The message carries the client's
  row, in the shard's numbering and (when the leader was started with the shard's first row) in the global one;
  and any two servers that process it find no fault, commit it, and reveal exactly the client's text in
  its slot in addition to what they revealed before.\<close>

theorem client_upload_end_to_end:
  fixes w :: "('q, 'r) fleet"
  assumes "rng_ok G" "crypto_ok C" "sealing_ok Se" "request_ok h req"
    and "\<not> IsZero now" "\<forall>ep. ct_CurrentEpoch S s = Some ep \<longrightarrow> 0 < ep_ID ep"
    and "p_world p = (c, s, x, r, w)" "p_world p' = (c', s', x', r', w')"
    and "tryUpload G C Se (coordinator_service S (fleet_ops Q H now status) K now backend) req p = Ok (Inr (), p')"
  shows "\<exists>m ep shard addr l l'. route_upload S (ur_routeRow req) c s = Inr (ep, shard, addr) \<and> fl_leaders w addr = Some l \<and>
     fl_leaders w' = (fl_leaders w)(addr \<mapsto> l') \<and> queued_at Q now m l l' \<and> m_LocalRow m = Y (ur_msg req) \<and>
     (ld_globalRowStart l = StartRow shard \<longrightarrow> m_GlobalRow m = ur_routeRow req) \<and> writes_message G C Se m (ur_msg req)"
proof -
  have "epoch_positive S now (p_world p)" using assms(5-7) by (simp add: epoch_positive_def)
  from via_coordinator.upload_delivers [OF assms(1-4) this assms(9)] obtain m ep shard addr l l'
    where m: "writes_message G C Se m (ur_msg req)" "route_upload S (ur_routeRow req) c s = Inr (ep, shard, addr)"
      "fl_leaders w addr = Some l" "fl_leaders w' = (fl_leaders w)(addr \<mapsto> l')" "queued_at Q now m l l'"
      "m_LocalRow m = ur_routeRow req - StartRow shard" "m_GlobalRow m = ld_globalRowStart l + (ur_routeRow req - StartRow shard)"
    by (auto simp: coordinator_delivers_def assms(7,8))
  from m(2) obtain config where "validateShardConfigRecord config = Inr ()" "routeShard (Shards config) (ur_routeRow req) = Inr shard"
    by (auto simp: route_upload_def activeShardConfig_def split: sum.splits option.splits)
  from route_stored_row [OF this] have "ur_routeRow req - StartRow shard = Y (ur_msg req)" using assms(4) by (simp add: request_ok_def)
  then show ?thesis using m by (intro exI [of _ m] exI [of _ ep] exI [of _ shard] exI [of _ addr] exI [of _ l] exI [of _ l']) auto
qed

abbreviation open_world :: "(MemoryControlStore, int, memoryCompletedUploadQueue, int) backend_world" where
  "open_world \<equiv> (sample_coordinator ''a'', open_store, NewMemorySessionStore, 9, open_fleet)"

abbreviation open_service :: "(MemoryControlStore, int, memoryCompletedUploadQueue, int) backend_world service" where
  "open_service \<equiv> coordinator_service mem_control_ops (fleet_ops mem_queue_ops counter_rng 4 (\<lambda>a w. None)) counter_rng 4 ''memory''"

definition sample_request :: uploadRequest where
  "sample_request = \<lparr>ur_msg = \<lparr>Message = payload_slot ''hello'', X = 3, Y = 44\<rparr>, ur_routeRow = 300\<rparr>"

lemma sample_request_ok: "request_ok 512 sample_request"
  by (simp add: request_ok_def sample_request_def length_payload_slot TABLE_WIDTH_def TABLE_HEIGHT_eq)

lemma open_upload1_any:
  "RouteRow a = 300 \<Longrightarrow> \<exists>c1 x1 r1 w1. coord_Upload1 mem_control_ops mem_session_ops (fleet_ops mem_queue_ops counter_rng 4 (\<lambda>a w. None)) counter_rng 4
     a open_world = (Inr \<lparr>r1_Uuid = 9, r1_HashKey = replicate 32 10\<rparr>, c1, x1, r1, w1)"
  by (simp add: coord_Upload1_def route_upload_def acceptingEpochFromControlStore_def open_store_simps sample_inventory_def
      sample_coordinator_def counter_rng_def max_int64_def RandBytes_def numeral_eq_Suc new_session_def PutSession_def
      NewMemorySessionStore_def call_upload1_def shard_args1_def IsZero_def zero_time_def Let_def fleet_ops_def fleet_Upload1_def
      open_fleet_def active_leader_def sample_leader_def initial_runtime_def Upload1_def upload_guard_def isLeader_def
      upload1Command_def CompletedUploadReplicaStandby_def TABLE_HEIGHT_eq rpc_result_def)

lemma open_enqueue:
  assumes "fl_leaders open_fleet addr = Some l"
  shows "\<not> isl (fst (q_enqueue mem_queue_ops 4 (session_message l 9 k ch a b d) (ld_queue l)))"
proof -
  have "l = active_leader\<lparr>ld_ShardID := 7, ld_globalRowStart := 256\<rparr>" using assms by (auto simp: open_fleet_def split: if_splits)
  then show ?thesis
    by (simp add: active_leader_def sample_leader_def initial_runtime_def session_message_def mem_queue_ops_def Enqueue_def
        newMemoryCompletedUploadQueue_def Let_def)
qed

lemma open_upload: "\<exists>p'. tryUpload counter_rng toy_crypto toy_sealing open_service sample_request \<lparr>p_rng = 0, p_count = 0, p_stop = False,
    p_world = open_world\<rparr> = Ok (Inr (), p')"
proof -
  obtain args1 shares r1 where i: "InitializeUploadArgs counter_rng toy_crypto toy_sealing zero_args1 (ur_msg sample_request) 0 = Ok (args1, shares, r1)"
    and a: "\<And>res1 res2. \<exists>mint args2 r2 args3 r3. SetUploadArgs2 counter_rng toy_crypto toy_sealing shares res1 r1 = Ok (mint, args2, r2) \<and>
       SetUploadArgs3 counter_rng toy_crypto toy_sealing (ur_msg sample_request) mint res1 res2 r2 = Ok (args3, r3)"
    by (rule upload_args_exist [OF counter_rng_ok toy_crypto_ok toy_sealing_ok sample_request_ok, of zero_args1 0]) blast
  let ?a = "args1\<lparr>RouteRow := ur_routeRow sample_request\<rparr>" and ?rep = "\<lparr>r1_Uuid = 9, r1_HashKey = replicate 32 10\<rparr>"
  let ?R = "fleet_ops mem_queue_ops counter_rng 4 (\<lambda>a w. None)"
  obtain c1 x1 r2 w1 where u1: "coord_Upload1 mem_control_ops mem_session_ops ?R counter_rng 4 ?a open_world = (Inr ?rep, c1, x1, r2, w1)"
    using open_upload1_any [of ?a] by (auto simp: sample_request_def)
  obtain mint b r3 where b: "SetUploadArgs2 counter_rng toy_crypto toy_sealing shares ?rep r1 = Ok (mint, b, r3)" using a by blast
  have n: "\<not> IsZero 4" "\<forall>ep. ct_CurrentEpoch mem_control_ops open_store = Some ep \<longrightarrow> 0 < ep_ID ep"
    by (simp_all add: IsZero_def zero_time_def open_store_simps)
  have kb: "a2_Uuid b = r1_Uuid ?rep" "a2_HashKey b = r1_HashKey ?rep"
    using b by (auto simp: SetUploadArgs2_def go_bind_eq_Ok Let_def)
  obtain ch w2 where u2: "coord_Upload2 mem_control_ops mem_session_ops ?R b (c1, open_store, x1, w1) = (Inr \<lparr>Challenge = ch\<rparr>, c1, x1, w2)"
    using coordinated_upload [OF u1 n kb, of "\<lparr>a3_Uuid = 9, a3_HashKey = replicate 32 10, a3_Query = []\<rparr>"] by auto
  obtain d r4 where d: "SetUploadArgs3 counter_rng toy_crypto toy_sealing (ur_msg sample_request) mint ?rep \<lparr>Challenge = ch\<rparr> r3 = Ok (d, r4)"
    using a [of ?rep "\<lparr>Challenge = ch\<rparr>"] b by auto
  have kd: "a3_Uuid d = r1_Uuid ?rep" "a3_HashKey d = r1_HashKey ?rep"
    using d by (auto simp: SetUploadArgs3_def go_bind_eq_Ok Let_def)
  obtain res c3 x3 w3 where u3: "coord_Upload3 mem_control_ops mem_session_ops ?R d (c1, open_store, x1, w2) = (res, c3, x3, w3)"
    by (rule prod_cases4)
  have "\<not> isl res"
    using coordinated_upload [OF u1 n kb kd] u2 u3 by (auto simp: Let_def case_prod_beta dest: open_enqueue)
  then obtain u where "res = Inr u" by (cases res) auto
  then show ?thesis
    using i u1 b u2 d u3 by (simp add: tryUpload_def coordinator_service_def sample_request_def rpc_result_def)
qed

theorem client_upload_end_to_end_witness:
  "\<exists>p' m ep shard addr l. tryUpload counter_rng toy_crypto toy_sealing open_service sample_request
       \<lparr>p_rng = 0, p_count = 0, p_stop = False, p_world = open_world\<rparr> = Ok (Inr (), p') \<and>
     route_upload mem_control_ops 300 (sample_coordinator ''a'') open_store = Inr (ep, shard, addr) \<and> fl_leaders open_fleet addr = Some l \<and>
     m_LocalRow m = 44 \<and> writes_message counter_rng toy_crypto toy_sealing m (ur_msg sample_request)"
proof -
  obtain p' where p: "tryUpload counter_rng toy_crypto toy_sealing open_service sample_request
      \<lparr>p_rng = 0, p_count = 0, p_stop = False, p_world = open_world\<rparr> = Ok (Inr (), p')" using open_upload by blast
  obtain c' s' x' r' w' where w: "p_world p' = (c', s', x', r', w')" by (rule prod_cases5)
  have n: "\<not> IsZero 4" "\<forall>ep. ct_CurrentEpoch mem_control_ops open_store = Some ep \<longrightarrow> 0 < ep_ID ep"
    by (simp_all add: IsZero_def zero_time_def open_store_simps)
  from client_upload_end_to_end [OF counter_rng_ok toy_crypto_ok toy_sealing_ok sample_request_ok n _ w p]
  show ?thesis using p by (auto simp: sample_request_def)
qed

text \<open>The requests that a client makes are requests that the coordinator can serve. Let the client have learned the
  height of the table from the status of a coordinator whose stored shard map is valid, and let its
  flags be accepted. Then every request of its message provider is well formed, its row is routed to
  a shard, and the row within that shard is the one the client has encoded the message for; and an
  upload of it never ends the process, whatever the service answers.\<close>

theorem client_requests_are_routed:
  assumes "rng_ok G" "crypto_ok C" "sealing_ok Se"
    and "queryCoordinatorGlobalTableHeight (coordinator_service mem_control_ops R H now backend) (c, s, x, r0, w) = (Inr height, v)"
    and "activeShardConfig mem_control_ops s = Inr config"
    and "resolveMessageProvider G xFlag yFlag payload height = Inr provider"
  shows "\<exists>req r' shard. provider r = (Inr req, r') \<and> request_ok height req \<and>
     routeShard (Shards config) (ur_routeRow req) = Inr shard \<and> ur_routeRow req - StartRow shard = Y (ur_msg req) \<and>
     (\<forall>p. \<exists>q p'. tryUpload G C Se V req p = Ok (q, p'))"
proof -
  have v: "validateShardConfigRecord config = Inr ()" and g: "GetShardConfig s = Some config"
    using assms(5) by (auto simp: activeShardConfig_def split: option.splits sum.splits)
  obtain reply c' where st: "coord_Status mem_control_ops R backend (\<lambda>_. now) (Some 0) s w c = (reply, c')" by fastforce
  have "height = sy_GlobalTableHeight reply"
    using assms(4) st by (auto simp: queryCoordinatorGlobalTableHeight_def coordinator_service_def)
  then have h: "height = GlobalTableHeight config"
    using st g by (auto elim!: status_run simp: shardConfigForStatus_def)
  have "int TABLE_HEIGHT \<le> height"
    using v by (cases "Shards config") (auto simp: h stored_height validate_record_iff TABLE_HEIGHT_eq)
  obtain req r' where q: "provider r = (Inr req, r')" "request_ok height req" by (rule provider_request [OF assms(1,6)])
  then have "\<exists>shard. routeShard (Shards config) (ur_routeRow req) = Inr shard"
    using routed_iff [OF v] \<open>int TABLE_HEIGHT \<le> height\<close> by (simp add: h request_ok_def)
  then show ?thesis using q route_stored_row [OF v] tryUpload_total [OF assms(1-3) q(2)] by (auto simp: request_ok_def)
qed

theorem client_requests_are_routed_witness:
  "\<exists>req r' shard. randomCoordinatorUploadRequest counter_rng 512 9 = (Inr req, r') \<and> request_ok 512 req \<and>
     routeShard sample_inventory (ur_routeRow req) = Inr shard \<and> ur_routeRow req - StartRow shard = Y (ur_msg req)"
proof -
  have cfg: "activeShardConfig mem_control_ops open_store = Inr sample_config" by (simp add: open_store_simps)
  have h: "GlobalTableHeight sample_config = 512" using stored_height [OF sample_config_record] by (simp add: sample_inventory_def TABLE_HEIGHT_eq)
  have p: "resolveMessageProvider counter_rng (- 1) (- 1) '''' 512 = Inr (randomCoordinatorUploadRequest counter_rng 512)"
    by (simp add: resolveMessageProvider_def TABLE_HEIGHT_eq)
  let ?R = "fleet_ops mem_queue_ops counter_rng 4 (\<lambda>a w. None)"
  obtain reply c' where st: "coord_Status mem_control_ops ?R ''memory'' (\<lambda>_. 4) (Some 0) open_store open_fleet (sample_coordinator ''a'') = (reply, c')"
    by fastforce
  then have "sy_GlobalTableHeight reply = 512"
    using cfg h by (auto elim!: status_run simp: shardConfigForStatus_def activeShardConfig_def split: option.splits sum.splits)
  then have "\<exists>v. queryCoordinatorGlobalTableHeight open_service open_world = (Inr 512, v)"
    using st by (simp add: queryCoordinatorGlobalTableHeight_def coordinator_service_def)
  then obtain v where "queryCoordinatorGlobalTableHeight open_service open_world = (Inr 512, v)" by blast
  from client_requests_are_routed [OF counter_rng_ok toy_crypto_ok toy_sealing_ok this cfg p, where r = 9]
  show ?thesis by (simp only: sample_config_shards) blast
qed

text \<open>C34: The retry loops return exactly when an attempt gives a final answer. With waiting times that the flags
  may set (up to 146 years, where the arithmetic does not wrap), a loop returns \<open>y\<close> exactly when some attempt gives
  \<open>y\<close>, which is not an error to retry on, after all earlier attempts gave one; and after the attempt
  number \<open>i\<close> it waits \<open>initial * 2 ^ i\<close> milliseconds, but at most the configured maximum. In particular it returns
  as soon as one attempt is final, and only then.\<close>

theorem client_retry_returns:
  assumes "resolveBackoffConfig True initialMS maxMS = Inr config" "0 \<le> initialMS" "0 \<le> maxMS"
    and "initialMS * millisecond \<le> 2 ^ 62" "maxMS * millisecond \<le> 2 ^ 62"
  shows "(uploadWithCoordinatorRetry (config\<lparr>rt_enabled := enabled\<rparr>) upload sleep s = Some y \<longleftrightarrow>
       (\<exists>k s'. retry_state isCoordinatorRetryableError enabled upload sleep k (\<lambda>i. min (initialMS * 2 ^ i) maxMS * millisecond) s = Some s' \<and>
          upload s' = Some y \<and> \<not> retried isCoordinatorRetryableError enabled y)) \<and>
     (uploadWithOverloadRetry (config\<lparr>rt_enabled := enabled\<rparr>) upload sleep s = Some y \<longleftrightarrow>
       (\<exists>k s'. retry_state isOverloadError enabled upload sleep k (\<lambda>i. min (initialMS * 2 ^ i) maxMS * millisecond) s = Some s' \<and>
          upload s' = Some y \<and> \<not> retried isOverloadError enabled y))"
proof -
  note c = resolved_backoff [OF assms]
  have B: "min (initialBackoff config * 2 ^ i) (maxBackoff config) = min (initialMS * 2 ^ i) maxMS * millisecond" for i
    by (simp add: c(1,2) min_mult_distrib_right millisecond_def algebra_simps)
  have w: "maxBackoff config \<le> 2 ^ 62" using c(2) assms(5) by simp
  note l = retry_loop_iff [of "config\<lparr>rt_enabled := enabled\<rparr>", simplified, OF c(3,4) w [simplified], unfolded B]
  show ?thesis by (simp add: uploadWithCoordinatorRetry_def uploadWithOverloadRetry_def l)
qed

text \<open>A service that refuses twice and then accepts; the state is the number of refusals left and the time waited.\<close>

definition refusing :: "nat \<times> duration \<Rightarrow> (unit res \<times> nat \<times> duration) go option" where
  "refusing = (\<lambda>(n, t). Some (Ok (if n = 0 then Inr () else Inl (ErrorString ''Shard session lost''), n - 1, t)))"

theorem client_retry_returns_witness:
  "\<exists>config. resolveBackoffConfig True 10 15 = Inr config \<and>
     uploadWithCoordinatorRetry (config\<lparr>rt_enabled := True\<rparr>) refusing (\<lambda>d (n, t). (n, t + d)) (2, 0)
       = Some (Ok (Inr (), 0, 25000000))"
proof -
  obtain config where c: "resolveBackoffConfig True 10 15 = Inr config"
    by (simp add: resolveBackoffConfig_def wrap64_def millisecond_def)
  have lost: "isCoordinatorRetryableError (Inl (ErrorString ''Shard session lost''))"
    by (simp add: isCoordinatorRetryableError_def isShardSessionLostError_def)
  have st: "retry_state isCoordinatorRetryableError True refusing (\<lambda>d (n, t). (n, t + d)) 2 (\<lambda>i. min (10 * 2 ^ i) 15 * millisecond) (2, 0)
      = Some (0, 25000000)"
    using lost by (simp add: numeral_2_eq_2 refusing_def retried_def millisecond_def)
  have "refusing (0, 25000000) = Some (Ok (Inr (), 0, 25000000)) \<and> \<not> retried isCoordinatorRetryableError True (Ok (Inr (), 0 :: nat, 25000000 :: int))"
    by (simp add: refusing_def retried_def)
  with st client_retry_returns [OF c, of True refusing "\<lambda>d (n, t). (n, t + d)" "(2, 0)" "Ok (Inr (), 0, 25000000)"] c
  show ?thesis by (auto simp: millisecond_def)
qed

text \<open>The workers of a hammering client stop once no epoch is active. When one worker has ended because no epoch
  is active, no worker sends another request: in every further run of \<open>k\<close> steps the process is unchanged, each
  step ends one worker without an error, so there are at most as many steps as workers left; while a worker is
  left there is a next step; and the result of the program is already decided.\<close>

theorem hammer_workers_stop:
  assumes "(hammer_step req)\<^sup>*\<^sup>* (start_hammer n p) h" "\<exists>q \<in> set (h_errs h). isNoActiveEpochError q"
    and "(hammer_step req ^^ k) h h'"
  shows "k \<le> card (running_workers h) \<and> h_process h' = h_process h \<and> h_errs h' = h_errs h @ replicate k (Inr ()) \<and>
     (k < card (running_workers h) \<longrightarrow> (\<exists>h''. hammer_step req h' h'')) \<and>
     hammer_result (h_errs h') = hammer_result (h_errs h)"
proof -
  have s: "p_stop (h_process h)" using reachable_stops [OF assms(1)] assms(2) by blast
  note r = stopped_run [OF assms(3) s]
  have "p_stop (h_process h')" using r s by simp
  then show ?thesis using r stopped_progress [of h' req] by (auto simp: hammer_result_nil)
qed

definition closed_request :: "(int, int) worker \<Rightarrow> (unit res \<times> (int, int) worker) go option" where
  "closed_request x = Some (Ok (Inl (ErrorString ''No active epoch''), x))"

theorem hammer_workers_stop_witness:
  "\<exists>h h'. (hammer_step closed_request)\<^sup>*\<^sup>* (start_hammer 2 \<lparr>p_rng = 0, p_count = 0, p_stop = False, p_world = 0\<rparr>) h \<and>
     hammer_step closed_request h h' \<and> h_errs h' = [Inl (ErrorString ''No active epoch''), Inr ()] \<and> h_process h' = h_process h"
proof -
  let ?e = "Inl (ErrorString ''No active epoch'') :: unit res"
  let ?s = "start_hammer 2 \<lparr>p_rng = 0, p_count = 0, p_stop = False, p_world = 0\<rparr> :: (int, int) hammer"
  have e: "isNoActiveEpochError ?e" by (simp add: isNoActiveEpochError_def)
  let ?h = "worker_ends 0 False ?e ((h_process ?s)\<lparr>p_stop := True\<rparr>) ?s"
  have "hammer_step closed_request ?s ?h"
    by (rule hammer_step.Ends) (simp_all add: start_hammer_def client_iteration_def closed_request_def e)
  then have h: "(hammer_step closed_request)\<^sup>*\<^sup>* ?s ?h" by simp
  have errs: "h_errs ?h = [?e]" "\<exists>q \<in> set (h_errs ?h). isNoActiveEpochError q" using e by (simp_all add: worker_ends_def start_hammer_def)
  let ?h' = "worker_ends 1 False (Inr ()) (h_process ?h) ?h"
  have s: "hammer_step closed_request ?h ?h'"
    by (rule hammer_step.Ends) (simp_all add: start_hammer_def worker_ends_def client_iteration_def closed_request_def e)
  then have "(hammer_step closed_request ^^ 1) ?h ?h'" by (simp only: relpowp_1)
  from hammer_workers_stop [OF h errs(2) this] errs(1) h s show ?thesis by (intro exI [of _ ?h] exI [of _ ?h']) simp
qed

end
