(* ===== verification/Dynamo_Table.thy ===== *)
theory Dynamo_Table
  imports Riposte_Prelude
begin

text \<open>
  What the code uses of Amazon DynamoDB: attribute values, the helpers of \<^verbatim>\<open>src/controlstore/dynamodb.go\<close>
  (and their copies in \<^verbatim>\<open>src/db/completed_upload_ledger_dynamodb.go\<close>) that read and write them, and the
  requests. An expression string of a request is its syntax tree here; \<open>#name\<close> and \<open>:value\<close>
  placeholders are kept and resolved through the tables of the request, as the service does it.

  The service itself is a parameter, a record of the three calls of the interface \<^verbatim>\<open>DynamoDBClient\<close>.
  \<open>dynamo_ok\<close> is what its documentation promises and the code relies on: an update is one atomic
  step on one item, it takes place only if its condition holds, a call that succeeds has taken
  place, and a call that fails may have taken place or not (the answer can be lost). Nothing is
  assumed about reads, because the code uses eventually consistent ones; \<open>reads_ok\<close> is the
  promise of a strongly consistent read. Conditions are evaluated in three-valued logic: \<open>None\<close>
  is a comparison outside the fragment that the code uses, about which nothing is promised.

  Shown here: the round trip of the numbers, and the effect of an update request.
\<close>

section \<open>Attribute values\<close>

datatype attr =
    AttrS string
  | AttrN string
  | AttrBOOL bool
  | AttrL "attr list"
  | AttrM "(string \<times> attr) list"

type_synonym item = "(string, attr) gomap"

definition is_digit :: "char \<Rightarrow> bool" where
  "is_digit c \<longleftrightarrow> 48 \<le> (of_char c :: nat) \<and> (of_char c :: nat) \<le> 57"

text \<open>A decimal integer of any size; \<^verbatim>\<open>strconv.ParseInt(s, 10, 64)\<close> and \<^verbatim>\<open>Atoi\<close> refuse what does not fit.\<close>

definition read_digits :: "string \<Rightarrow> int option" where
  "read_digits s = (if s \<noteq> [] \<and> list_all is_digit s then Some (int (read_nat s)) else None)"

fun read_int :: "string \<Rightarrow> int option" where
  "read_int [] = None"
| "read_int (c # s) =
     (if c = CHR ''-'' then map_option uminus (read_digits s)
      else if c = CHR ''+'' then read_digits s
      else read_digits (c # s))"

definition ParseInt :: "string \<Rightarrow> int res" where
  "ParseInt s =
     (case read_int s of
        None \<Rightarrow> Inl (ErrorString (''strconv.ParseInt: parsing '' @ s @ '': invalid syntax''))
      | Some i \<Rightarrow> if in_int64 i then Inr i
          else Inl (ErrorString (''strconv.ParseInt: parsing '' @ s @ '': value out of range'')))"

lemma is_digit_char: "d < 10 \<Longrightarrow> is_digit (digit_char d)"
  by (simp add: is_digit_def of_char_digit)

lemma show_nat_not_Nil [simp]: "show_nat n \<noteq> []"
  by (simp add: show_nat.simps [of n])

lemma read_digits_show [simp]: "read_digits (show_nat n) = Some (int n)"
  by (auto simp: read_digits_def read_show_nat list_all_iff is_digit_char dest!: set_show_nat)

lemma read_int_show [simp]: "read_int (show_int i) = Some i"
proof (cases "i < 0")
  case False
  obtain c s where c: "show_nat (nat i) = c # s" by (cases "show_nat (nat i)") auto
  then have "is_digit c" using set_show_nat [of c "nat i"] is_digit_char by auto
  then have "c \<noteq> CHR ''-''" "c \<noteq> CHR ''+''" by (auto simp: is_digit_def)
  then show ?thesis using False c read_digits_show [of "nat i"] by (simp add: show_int_def)
qed (simp add: show_int_def)

lemma ParseInt_show [simp]: "in_int64 i \<Longrightarrow> ParseInt (show_int i) = Inr i"
  by (simp add: ParseInt_def)

definition stringAttr :: "item \<Rightarrow> string \<Rightarrow> string" where
  "stringAttr item name = (case gm_get item name of Some (AttrS v) \<Rightarrow> v | _ \<Rightarrow> '''')"

definition boolAttr :: "item \<Rightarrow> string \<Rightarrow> bool" where
  "boolAttr item name = (case gm_get item name of Some (AttrBOOL v) \<Rightarrow> v | _ \<Rightarrow> False)"

definition int64Attr :: "item \<Rightarrow> string \<Rightarrow> int" where
  "int64Attr item name =
     (case gm_get item name of Some (AttrN v) \<Rightarrow> (case ParseInt v of Inl _ \<Rightarrow> 0 | Inr i \<Rightarrow> i) | _ \<Rightarrow> 0)"

definition intAttr :: "item \<Rightarrow> string \<Rightarrow> int" where
  "intAttr item name = int64Attr item name"

definition numberAttr :: "int \<Rightarrow> attr" where
  "numberAttr value = AttrN (show_int value)"

lemma numberAttr_inject [simp]: "numberAttr i = numberAttr j \<longleftrightarrow> i = j"
  by (simp add: numberAttr_def)

lemma attr_simps [simp]:
  "gm_get it n = Some (AttrS v) \<Longrightarrow> stringAttr it n = v"
  "gm_get it n = Some a \<Longrightarrow> boolAttr it n = (case a of AttrBOOL b \<Rightarrow> b | _ \<Rightarrow> False)"
  "gm_get it n = Some (numberAttr i) \<Longrightarrow> in_int64 i \<Longrightarrow> int64Attr it n = i"
  "gm_get it n = Some (numberAttr i) \<Longrightarrow> in_int64 i \<Longrightarrow> intAttr it n = i"
  by (simp_all add: stringAttr_def boolAttr_def int64Attr_def intAttr_def numberAttr_def)

lemma int64Attr_range: "in_int64 (int64Attr it n)"
  by (auto simp: int64Attr_def ParseInt_def in_int64_def split: option.splits attr.splits sum.splits)

section \<open>Requests\<close>

datatype comparator = CmpEq | CmpNe | CmpLe | CmpGt

datatype condition =
    AttributeNotExists string
  | AttributeExists string
  | Compare string comparator string
  | CondAnd condition condition
  | CondOr condition condition

text \<open>\<open>IncrementFrom p z o\<close> is \<open>if_not_exists(p, z) + o\<close>.\<close>

datatype set_value = SetTo string | IncrementFrom string string string

record UpdateItemInput =
  ui_TableName :: string
  ui_Key :: item
  ui_Set :: "(string \<times> set_value) list"
  ui_Remove :: "string list"
  ui_ConditionExpression :: condition
  ui_ExpressionAttributeNames :: "(string, string) gomap"
  ui_ExpressionAttributeValues :: item
  ui_ReturnAllNew :: bool

record DeleteItemInput =
  di_TableName :: string
  di_Key :: item
  di_ConditionExpression :: condition

record 'd dynamo =
  GetItem :: "string \<Rightarrow> item \<Rightarrow> 'd \<Rightarrow> item res"
  UpdateItem :: "UpdateItemInput \<Rightarrow> 'd \<Rightarrow> item res \<times> 'd"
  DeleteItem :: "DeleteItemInput \<Rightarrow> 'd \<Rightarrow> unit res \<times> 'd"
  Background :: "'d \<Rightarrow> 'd"   \<comment> \<open>what the service does between calls: replication\<close>

definition ConditionalCheckFailedException :: go_error where
  "ConditionalCheckFailedException = Sentinel ''ConditionalCheckFailedException''"

definition isConditionalCheckFailed :: "go_error \<Rightarrow> bool" where
  "isConditionalCheckFailed err = errors_Is err ConditionalCheckFailedException"

definition dynamoControlPKName :: string where "dynamoControlPKName = ''pk''"

definition dynamoKey :: "string \<Rightarrow> item" where
  "dynamoKey pk = [(dynamoControlPKName, AttrS pk)]"

section \<open>What the service promises\<close>

definition resolve :: "(string, string) gomap \<Rightarrow> string \<Rightarrow> string" where
  "resolve names p = (case gm_get names p of Some n \<Rightarrow> n | None \<Rightarrow> p)"

fun compare_attrs :: "comparator \<Rightarrow> attr \<Rightarrow> attr \<Rightarrow> bool option" where
  "compare_attrs CmpEq (AttrS a) (AttrS b) = Some (a = b)"
| "compare_attrs CmpNe (AttrS a) (AttrS b) = Some (a \<noteq> b)"
| "compare_attrs c (AttrN a) (AttrN b) =
     (case (read_int a, read_int b) of
        (Some i, Some j) \<Rightarrow>
          Some (case c of CmpEq \<Rightarrow> i = j | CmpNe \<Rightarrow> i \<noteq> j | CmpLe \<Rightarrow> i \<le> j | CmpGt \<Rightarrow> i > j)
      | _ \<Rightarrow> None)"
| "compare_attrs _ _ _ = None"

definition and3 :: "bool option \<Rightarrow> bool option \<Rightarrow> bool option" where
  "and3 a b = (if a = Some False \<or> b = Some False then Some False else if a = Some True then b else
     if b = Some True then a else None)"

definition or3 :: "bool option \<Rightarrow> bool option \<Rightarrow> bool option" where
  "or3 a b = (if a = Some True \<or> b = Some True then Some True else if a = Some False then b else
     if b = Some False then a else None)"

text \<open>A comparison with an attribute that the item does not have is false (\<open><>\<close> is left open).\<close>

primrec eval_condition :: "(string, string) gomap \<Rightarrow> item \<Rightarrow> item \<Rightarrow> condition \<Rightarrow> bool option" where
  "eval_condition names vals it (AttributeNotExists p) = Some (gm_get it (resolve names p) = None)"
| "eval_condition names vals it (AttributeExists p) = Some (gm_get it (resolve names p) \<noteq> None)"
| "eval_condition names vals it (Compare p c v) =
     (case gm_get vals v of
        None \<Rightarrow> None
      | Some w \<Rightarrow>
          (case gm_get it (resolve names p) of
             None \<Rightarrow> if c = CmpNe then None else Some False
           | Some a \<Rightarrow> compare_attrs c a w))"
| "eval_condition names vals it (CondAnd c d) = and3 (eval_condition names vals it c) (eval_condition names vals it d)"
| "eval_condition names vals it (CondOr c d) = or3 (eval_condition names vals it c) (eval_condition names vals it d)"

text \<open>The operands of an update are evaluated on the item as it was.\<close>

fun add_numbers :: "attr \<Rightarrow> attr \<Rightarrow> attr option" where
  "add_numbers (AttrN a) (AttrN b) =
     (case (read_int a, read_int b) of (Some i, Some j) \<Rightarrow> Some (numberAttr (i + j)) | _ \<Rightarrow> None)"
| "add_numbers _ _ = None"

fun set_attr :: "(string, string) gomap \<Rightarrow> item \<Rightarrow> item \<Rightarrow> set_value \<Rightarrow> attr option" where
  "set_attr names vals old (SetTo v) = gm_get vals v"
| "set_attr names vals old (IncrementFrom p z n) =
     (case (case gm_get old (resolve names p) of Some a \<Rightarrow> Some a | None \<Rightarrow> gm_get vals z) of
        None \<Rightarrow> None
      | Some a \<Rightarrow> (case gm_get vals n of None \<Rightarrow> None | Some b \<Rightarrow> add_numbers a b))"

fun apply_sets :: "(string, string) gomap \<Rightarrow> item \<Rightarrow> item \<Rightarrow> (string \<times> set_value) list \<Rightarrow> item \<Rightarrow> item option" where
  "apply_sets names vals old [] it = Some it"
| "apply_sets names vals old ((p, e) # es) it =
     (case set_attr names vals old e of
        None \<Rightarrow> None
      | Some a \<Rightarrow> apply_sets names vals old es (gm_put (resolve names p) a it))"

definition remove_attrs :: "string list \<Rightarrow> item \<Rightarrow> item" where
  "remove_attrs ps it = foldl (\<lambda>it p. gm_del p it) it ps"

type_synonym tables = "string \<Rightarrow> string \<rightharpoonup> item"

definition old_item :: "tables \<Rightarrow> string \<Rightarrow> string \<Rightarrow> item" where
  "old_item m T k = (case m T k of None \<Rightarrow> [] | Some it \<Rightarrow> it)"

definition update_condition :: "UpdateItemInput \<Rightarrow> item \<Rightarrow> bool option" where
  "update_condition u it =
     eval_condition (ui_ExpressionAttributeNames u) (ui_ExpressionAttributeValues u) it (ui_ConditionExpression u)"

definition updated_item :: "UpdateItemInput \<Rightarrow> item \<Rightarrow> item option" where
  "updated_item u it =
     map_option (remove_attrs (map (resolve (ui_ExpressionAttributeNames u)) (ui_Remove u)))
       (apply_sets (ui_ExpressionAttributeNames u) (ui_ExpressionAttributeValues u) it (ui_Set u)
          (if it = [] then ui_Key u else it))"

definition put_item :: "string \<Rightarrow> string \<Rightarrow> item option \<Rightarrow> tables \<Rightarrow> tables" where
  "put_item T k v m = m(T := (m T)(k := v))"

lemma put_item_get [simp]: "put_item T k v m T' k' = (if T' = T \<and> k' = k then v else m T' k')"
  by (simp add: put_item_def)

text \<open>The update is applied, the answer lost or not; or nothing happens and the call fails, with
  \<^verbatim>\<open>ConditionalCheckFailedException\<close> only if the condition did not hold. (After a lost answer the client's
  retry can report that exception for an update that was applied.)\<close>

definition update_outcome :: "UpdateItemInput \<Rightarrow> string \<Rightarrow> tables \<Rightarrow> item res \<Rightarrow> tables \<Rightarrow> bool" where
  "update_outcome u k m q m' \<longleftrightarrow>
     (let it = old_item m (ui_TableName u) k in
      \<forall>b new. update_condition u it = Some b \<longrightarrow> updated_item u it = Some new \<longrightarrow>
        (isl q \<and> m' = m \<and> (b \<longrightarrow> \<not> isConditionalCheckFailed (projl q))) \<or>
        (b \<and> m' = put_item (ui_TableName u) k (Some new) m \<and> (isl q \<or> q = Inr (if ui_ReturnAllNew u then new else []))))"

definition delete_outcome :: "DeleteItemInput \<Rightarrow> string \<Rightarrow> tables \<Rightarrow> unit res \<Rightarrow> tables \<Rightarrow> bool" where
  "delete_outcome u k m q m' \<longleftrightarrow>
     (\<forall>b. eval_condition [] [] (old_item m (di_TableName u) k) (di_ConditionExpression u) = Some b \<longrightarrow>
        (isl q \<and> m' = m) \<or> (b \<and> m' = put_item (di_TableName u) k None m))"

definition frame :: "string \<Rightarrow> string \<Rightarrow> tables \<Rightarrow> tables \<Rightarrow> bool" where
  "frame T k m m' \<longleftrightarrow> (\<forall>T' k'. (T', k') \<noteq> (T, k) \<longrightarrow> m' T' k' = m T' k')"

definition dynamo_ok :: "'d dynamo \<Rightarrow> ('d \<Rightarrow> tables) \<Rightarrow> bool" where
  "dynamo_ok D tab \<longleftrightarrow>
     (\<forall>u k d. ui_Key u = dynamoKey k \<longrightarrow>
        (case UpdateItem D u d of (q, d') \<Rightarrow>
           frame (ui_TableName u) k (tab d) (tab d') \<and> update_outcome u k (tab d) q (tab d'))) \<and>
     (\<forall>u k d. di_Key u = dynamoKey k \<longrightarrow>
        (case DeleteItem D u d of (q, d') \<Rightarrow>
           frame (di_TableName u) k (tab d) (tab d') \<and> delete_outcome u k (tab d) q (tab d'))) \<and>
     (\<forall>d. tab (Background D d) = tab d)"

text \<open>A strongly consistent read that does not fail.\<close>

definition reads_ok :: "'d dynamo \<Rightarrow> ('d \<Rightarrow> tables) \<Rightarrow> bool" where
  "reads_ok D tab \<longleftrightarrow> (\<forall>T k d. GetItem D T (dynamoKey k) d = Inr (old_item (tab d) T k))"

text \<open>Every item has its key among its attributes.\<close>

definition keyed :: "tables \<Rightarrow> string \<Rightarrow> string \<Rightarrow> bool" where
  "keyed m T k \<longleftrightarrow> (\<forall>it. m T k = Some it \<longrightarrow> gm_get it dynamoControlPKName = Some (AttrS k))"

lemma ok_Update:
  assumes "dynamo_ok D tab" "ui_Key u = dynamoKey k" "UpdateItem D u d = (q, d')"
  shows "frame (ui_TableName u) k (tab d) (tab d')" "update_outcome u k (tab d) q (tab d')"
proof -
  have "frame (ui_TableName u) k (tab d) (tab d') \<and> update_outcome u k (tab d) q (tab d')"
    using assms unfolding dynamo_ok_def by (auto split: prod.splits)
  then show "frame (ui_TableName u) k (tab d) (tab d')" "update_outcome u k (tab d) q (tab d')" by auto
qed

lemma ok_Delete:
  assumes "dynamo_ok D tab" "di_Key u = dynamoKey k" "DeleteItem D u d = (q, d')"
  shows "frame (di_TableName u) k (tab d) (tab d')" "delete_outcome u k (tab d) q (tab d')"
proof -
  have "frame (di_TableName u) k (tab d) (tab d') \<and> delete_outcome u k (tab d) q (tab d')"
    using assms unfolding dynamo_ok_def by (auto split: prod.splits)
  then show "frame (di_TableName u) k (tab d) (tab d')" "delete_outcome u k (tab d) q (tab d')" by auto
qed

lemma ok_Background [simp]: "dynamo_ok D tab \<Longrightarrow> tab (Background D d) = tab d"
  by (simp add: dynamo_ok_def)

lemma logic3_simps [simp]:
  "or3 (Some True) b = Some True" "or3 b (Some True) = Some True" "or3 (Some False) b = b" "or3 b (Some False) = b"
  "and3 (Some False) b = Some False" "and3 b (Some False) = Some False" "and3 (Some True) b = b" "and3 b (Some True) = b"
  by (auto simp: and3_def or3_def)

lemma logic3_total [simp]:
  "or3 (Some x) (Some y) = Some (x \<or> y)" "and3 (Some x) (Some y) = Some (x \<and> y)"
  by (cases x; cases y; simp)+

lemma compare_numbers [simp]:
  "compare_attrs CmpEq (numberAttr i) (numberAttr j) = Some (i = j)"
  "compare_attrs CmpNe (numberAttr i) (numberAttr j) = Some (i \<noteq> j)"
  "compare_attrs CmpLe (numberAttr i) (numberAttr j) = Some (i \<le> j)"
  "compare_attrs CmpGt (numberAttr i) (numberAttr j) = Some (i > j)"
  by (simp_all add: numberAttr_def)

lemma add_numbers_number [simp]: "add_numbers (numberAttr i) (numberAttr j) = Some (numberAttr (i + j))"
  by (simp add: numberAttr_def)

text \<open>The integer in an attribute, of any size, and comparisons of stored milliseconds with a time.\<close>

definition number_in :: "item \<Rightarrow> string \<Rightarrow> int" where
  "number_in it n = (case gm_get it n of Some (AttrN s) \<Rightarrow> (case read_int s of Some i \<Rightarrow> i | None \<Rightarrow> 0) | _ \<Rightarrow> 0)"

lemma number_in_simp [simp]: "gm_get it n = Some (numberAttr i) \<Longrightarrow> number_in it n = i"
  by (simp add: number_in_def numberAttr_def)

lemma before_ms [simp]: "time_UnixMilli e \<le> t \<longleftrightarrow> e \<le> UnixMilli t" "t < time_UnixMilli e \<longleftrightarrow> UnixMilli t < e"
  by (auto simp: time_UnixMilli_def UnixMilli_def)

section \<open>A service for examples\<close>

text \<open>Tables in memory and a replica that reads are served from, which \<open>Background\<close> brings up to date.\<close>

definition toy_dynamo :: "(tables \<times> tables) dynamo" where
  "toy_dynamo = \<lparr>
     GetItem = (\<lambda>T key (m, r). case gm_get key dynamoControlPKName of
        Some (AttrS k) \<Rightarrow> Inr (old_item r T k) | _ \<Rightarrow> Inl (ErrorString ''ValidationException'')),
     UpdateItem = (\<lambda>u (m, r). case gm_get (ui_Key u) dynamoControlPKName of
        Some (AttrS k) \<Rightarrow>
          (let it = old_item m (ui_TableName u) k in
           case (update_condition u it, updated_item u it) of
             (Some True, Some new) \<Rightarrow>
               (Inr (if ui_ReturnAllNew u then new else []), put_item (ui_TableName u) k (Some new) m, r)
           | (Some False, _) \<Rightarrow> (Inl ConditionalCheckFailedException, m, r)
           | _ \<Rightarrow> (Inl (ErrorString ''ValidationException''), m, r))
      | _ \<Rightarrow> (Inl (ErrorString ''ValidationException''), m, r)),
     DeleteItem = (\<lambda>u (m, r). case gm_get (di_Key u) dynamoControlPKName of
        Some (AttrS k) \<Rightarrow>
          (case eval_condition [] [] (old_item m (di_TableName u) k) (di_ConditionExpression u) of
             Some True \<Rightarrow> (Inr (), put_item (di_TableName u) k None m, r)
           | Some False \<Rightarrow> (Inl ConditionalCheckFailedException, m, r)
           | None \<Rightarrow> (Inl (ErrorString ''ValidationException''), m, r))
      | _ \<Rightarrow> (Inl (ErrorString ''ValidationException''), m, r)),
     Background = (\<lambda>(m, r). (m, m))\<rparr>"

lemma frame_simps [simp]: "frame T k m m" "frame T k m (put_item T k v m)"
  by (auto simp: frame_def)

lemma toy_dynamo_ok: "dynamo_ok toy_dynamo fst"
  by (auto simp: dynamo_ok_def toy_dynamo_def dynamoKey_def update_outcome_def delete_outcome_def Let_def
      split: option.splits bool.splits)

lemma toy_Update:
  assumes "ui_Key u = dynamoKey k" "update_condition u (old_item m (ui_TableName u) k) = Some b"
    and "updated_item u (old_item m (ui_TableName u) k) = Some new"
  shows "UpdateItem toy_dynamo u (m, r) =
     (if b then (Inr (if ui_ReturnAllNew u then new else []), put_item (ui_TableName u) k (Some new) m, r)
      else (Inl ConditionalCheckFailedException, m, r))"
  using assms by (simp add: toy_dynamo_def dynamoKey_def split: bool.split)

lemma toy_Get [simp]: "GetItem toy_dynamo T (dynamoKey k) (m, r) = Inr (old_item r T k)"
  by (simp add: toy_dynamo_def dynamoKey_def)

text \<open>The same tables with strongly consistent reads.\<close>

definition synced_dynamo :: "(tables \<times> tables) dynamo" where
  "synced_dynamo = toy_dynamo\<lparr>GetItem := \<lambda>T key (m, r). case gm_get key dynamoControlPKName of
        Some (AttrS k) \<Rightarrow> Inr (old_item m T k) | _ \<Rightarrow> Inl (ErrorString ''ValidationException'')\<rparr>"

lemma synced_Update [simp]:
  "UpdateItem synced_dynamo = UpdateItem toy_dynamo" "DeleteItem synced_dynamo = DeleteItem toy_dynamo"
  "Background synced_dynamo = Background toy_dynamo"
  by (simp_all add: synced_dynamo_def)

lemma synced_dynamo_ok: "dynamo_ok synced_dynamo fst" "reads_ok synced_dynamo fst"
proof -
  show "dynamo_ok synced_dynamo fst"
    using toy_dynamo_ok unfolding dynamo_ok_def synced_Update .
  show "reads_ok synced_dynamo fst" by (auto simp: reads_ok_def synced_dynamo_def dynamoKey_def)
qed

definition no_items :: "tables \<times> tables" where
  "no_items = (\<lambda>_. Map.empty, \<lambda>_. Map.empty)"

lemma no_items_simps [simp]: "fst no_items T k = None"
  by (simp add: no_items_def)

end
