(* ===== verification/Dynamo_Ledger.thy ===== *)
theory Dynamo_Ledger
  imports Ingestion_Worker Dynamo_Table
begin

text \<open>
  The ledger of completed uploads on DynamoDB (\<^verbatim>\<open>src/db/completed_upload_ledger_dynamodb.go\<close>), with the service of
  \<open>Dynamo_Table\<close>. The attribute helpers of the file are copies of those of the control store.

  Shown here, for every service that keeps \<open>dynamo_ok\<close>: a lease that carries an attempt id was really
  granted, it excludes every other one until it expires, and a commit is final. With strongly
  consistent reads every successful \<^verbatim>\<open>BeginProcessing\<close> either reports a commit or grants such a lease.
  With the eventually consistent reads that the code asks for it does not: after a lost race it
  can return success with an empty lease, and the worker then applies an upload that another
  worker is applying.
\<close>

record 'd dynamoDBCompletedUploadLedger =
  dl_client :: "'d dynamo"
  dl_table :: string

definition NewDynamoDBCompletedUploadLedger :: "'d dynamo option \<Rightarrow> string \<Rightarrow> 'd dynamoDBCompletedUploadLedger res" where
  "NewDynamoDBCompletedUploadLedger client tableName =
     (case client of
        None \<Rightarrow> Inl (ErrorString ''dynamodb completed upload ledger client is required'')
      | Some client \<Rightarrow>
          if tableName = '''' then Inl (ErrorString ''dynamodb completed upload ledger table is required'')
          else Inr \<lparr>dl_client = client, dl_table = tableName\<rparr>)"

definition ledgerRecordFromItem :: "item \<Rightarrow> completedUploadLedgerRecord" where
  "ledgerRecordFromItem item =
     \<lparr>lr_State = stringAttr item ''state'', lr_AttemptID = stringAttr item ''attempt_id'',
      ProcessingExpiresAt = time_UnixMilli (int64Attr item ''processing_expires_unix_ms''),
      CommittedAt = time_UnixMilli (int64Attr item ''committed_unix_ms''),
      UpdatedAt = time_UnixMilli (int64Attr item ''updated_unix_ms'')\<rparr>"

definition getRecord :: "'d dynamoDBCompletedUploadLedger \<Rightarrow> string \<Rightarrow> 'd \<Rightarrow> completedUploadLedgerRecord option res" where
  "getRecord L key d =
     (case GetItem (dl_client L) (dl_table L) (dynamoKey key) d of
        Inl err \<Rightarrow> Inl err
      | Inr item \<Rightarrow> if item = [] then Inr None else Inr (Some (ledgerRecordFromItem item)))"

definition no_grant :: CompletedUploadLedgerBeginResult where
  "no_grant = \<lparr>AlreadyCommitted = False, br_Lease = zero_lease\<rparr>"

definition classifyCompletedUploadLedgerRecord ::
  "completedUploadLedgerRecord \<Rightarrow> gotime \<Rightarrow> CompletedUploadLedgerBeginResult res" where
  "classifyCompletedUploadLedgerRecord record now =
     (if lr_State record = LedgerStateCommitted then Inr \<lparr>AlreadyCommitted = True, br_Lease = zero_lease\<rparr>
      else if lr_State record = LedgerStateProcessing \<and> Before now (ProcessingExpiresAt record)
      then Inl errCompletedUploadProcessingBusy
      else Inr no_grant)"

definition begin_request ::
  "'d dynamoDBCompletedUploadLedger \<Rightarrow> string \<Rightarrow> CompletedUploadProcessingLease \<Rightarrow> gotime \<Rightarrow> duration \<Rightarrow> UpdateItemInput" where
  "begin_request L key lease now ttl =
     \<lparr>ui_TableName = dl_table L, ui_Key = dynamoKey key,
      ui_Set = [(''replica_id'', SetTo '':replica_id''), (''shard_id'', SetTo '':shard_id''), (''epoch_id'', SetTo '':epoch_id''),
        (''#uuid'', SetTo '':uuid''), (''#state'', SetTo '':processing''), (''attempt_id'', SetTo '':attempt_id''),
        (''processing_expires_unix_ms'', SetTo '':expires''), (''updated_unix_ms'', SetTo '':updated'')],
      ui_Remove = [],
      ui_ConditionExpression = CondOr (AttributeNotExists ''pk'')
        (CondAnd (Compare ''#state'' CmpNe '':committed'')
          (CondOr (AttributeNotExists ''processing_expires_unix_ms'') (Compare ''processing_expires_unix_ms'' CmpLe '':now''))),
      ui_ExpressionAttributeNames = [(''#state'', ''state''), (''#uuid'', ''uuid'')],
      ui_ExpressionAttributeValues =
        [('':replica_id'', AttrS (pl_ReplicaID lease)), ('':shard_id'', numberAttr (pl_ShardID lease)),
         ('':epoch_id'', numberAttr (pl_EpochID lease)), ('':uuid'', numberAttr (pl_Uuid lease)),
         ('':processing'', AttrS LedgerStateProcessing), ('':committed'', AttrS LedgerStateCommitted),
         ('':attempt_id'', AttrS (pl_AttemptID lease)), ('':expires'', numberAttr (UnixMilli (now + ttl))),
         ('':updated'', numberAttr (UnixMilli now)), ('':now'', numberAttr (UnixMilli now))],
      ui_ReturnAllNew = False\<rparr>"

definition dl_BeginProcessing ::
  "'d dynamoDBCompletedUploadLedger \<Rightarrow> go_error option \<Rightarrow> gotime \<Rightarrow> CompletedUploadMessage \<Rightarrow> gotime \<Rightarrow> duration \<Rightarrow> 'd
     \<Rightarrow> CompletedUploadLedgerBeginResult res \<times> 'd" where
  "dl_BeginProcessing L ctx clock message now ttl d =
     (case ctx of Some err \<Rightarrow> (Inl err, d) | None \<Rightarrow>
      if ttl \<le> 0 then (Inl (ErrorString ''completed upload processing ttl must be positive''), d)
      else case validateCompletedUploadLedgerIdentity (m_ShardID message) (m_EpochID message) (m_Uuid message) of
        Inl err \<Rightarrow> (Inl err, d)
      | Inr _ \<Rightarrow>
      case validateCompletedUploadReplicaID (m_ReplicaID message) of
        Inl err \<Rightarrow> (Inl err, d)
      | Inr _ \<Rightarrow>
      let now = (if IsZero now then clock else now);
          replicaID = (if m_ReplicaID message = '''' then CompletedUploadReplicaActive else m_ReplicaID message);
          key = completedUploadLedgerKeyForReplica replicaID (m_ShardID message) (m_EpochID message) (m_Uuid message);
          lease = \<lparr>pl_ReplicaID = replicaID, pl_ShardID = m_ShardID message, pl_EpochID = m_EpochID message,
                   pl_Uuid = m_Uuid message, pl_AttemptID = show_int now @ ''-'' @ show_int (m_Uuid message)\<rparr>;
          grant = (case UpdateItem (dl_client L) (begin_request L key lease now ttl) d of
              (Inl err, d) \<Rightarrow>
                if isConditionalCheckFailed err
                then (case getRecord L key d of
                        Inl getErr \<Rightarrow> (Inl getErr, d)
                      | Inr (Some record) \<Rightarrow> (classifyCompletedUploadLedgerRecord record now, d)
                      | Inr None \<Rightarrow> (Inl errCompletedUploadProcessingBusy, d))
                else (Inl err, d)
            | (Inr _, d) \<Rightarrow> (Inr \<lparr>AlreadyCommitted = False, br_Lease = lease\<rparr>, d))
      in case getRecord L key d of
           Inl err \<Rightarrow> (Inl err, d)
         | Inr None \<Rightarrow> grant
         | Inr (Some record) \<Rightarrow>
             (case classifyCompletedUploadLedgerRecord record now of
                Inl err \<Rightarrow> (Inl err, d)
              | Inr result \<Rightarrow> if AlreadyCommitted result then (Inr result, d) else grant))"

definition commit_request :: "'d dynamoDBCompletedUploadLedger \<Rightarrow> string \<Rightarrow> CompletedUploadProcessingLease \<Rightarrow> gotime \<Rightarrow> UpdateItemInput" where
  "commit_request L key lease now =
     \<lparr>ui_TableName = dl_table L, ui_Key = dynamoKey key,
      ui_Set = [(''#state'', SetTo '':committed''), (''committed_unix_ms'', SetTo '':committed_at''),
        (''updated_unix_ms'', SetTo '':updated'')],
      ui_Remove = [''processing_expires_unix_ms''],
      ui_ConditionExpression = CondAnd (Compare ''#state'' CmpEq '':processing'') (Compare ''attempt_id'' CmpEq '':attempt_id''),
      ui_ExpressionAttributeNames = [(''#state'', ''state'')],
      ui_ExpressionAttributeValues =
        [('':committed'', AttrS LedgerStateCommitted), ('':processing'', AttrS LedgerStateProcessing),
         ('':attempt_id'', AttrS (pl_AttemptID lease)), ('':committed_at'', numberAttr (UnixMilli now)),
         ('':updated'', numberAttr (UnixMilli now))],
      ui_ReturnAllNew = False\<rparr>"

definition dl_CompleteProcessing ::
  "'d dynamoDBCompletedUploadLedger \<Rightarrow> go_error option \<Rightarrow> gotime \<Rightarrow> CompletedUploadProcessingLease \<Rightarrow> gotime \<Rightarrow> 'd
     \<Rightarrow> unit res \<times> 'd" where
  "dl_CompleteProcessing L ctx clock lease now d =
     (case ctx of Some err \<Rightarrow> (Inl err, d) | None \<Rightarrow>
      case validateCompletedUploadLedgerIdentity (pl_ShardID lease) (pl_EpochID lease) (pl_Uuid lease) of
        Inl err \<Rightarrow> (Inl err, d)
      | Inr _ \<Rightarrow>
      case validateCompletedUploadReplicaID (pl_ReplicaID lease) of
        Inl err \<Rightarrow> (Inl err, d)
      | Inr _ \<Rightarrow>
      if pl_AttemptID lease = ''''
      then (Inl (ErrorString ''completed upload processing attempt id is required''), d)
      else
      let now = (if IsZero now then clock else now);
          replicaID = (if pl_ReplicaID lease = '''' then CompletedUploadReplicaActive else pl_ReplicaID lease);
          key = completedUploadLedgerKeyForReplica replicaID (pl_ShardID lease) (pl_EpochID lease) (pl_Uuid lease)
      in case UpdateItem (dl_client L) (commit_request L key lease now) d of
           (Inl err, d) \<Rightarrow>
             if isConditionalCheckFailed err
             then (case getRecord L key d of
                     Inl getErr \<Rightarrow> (Inl getErr, d)
                   | Inr found \<Rightarrow>
                       (case found of
                          Some record \<Rightarrow>
                            if lr_State record = LedgerStateCommitted then (Inr (), d)
                            else (Inl errCompletedUploadProcessingBusy, d)
                        | None \<Rightarrow> (Inl errCompletedUploadProcessingBusy, d)))
             else (Inl err, d)
         | (Inr _, d) \<Rightarrow> (Inr (), d))"

definition dynamo_ledger_ops :: "'d dynamoDBCompletedUploadLedger \<Rightarrow> 'd ledger_ops" where
  "dynamo_ledger_ops L = \<lparr>lo_begin = (\<lambda>m t ttl d. dl_BeginProcessing L None t m t ttl d),
     lo_complete = (\<lambda>lease t d. dl_CompleteProcessing L None t lease t d)\<rparr>"

section \<open>The items of the ledger\<close>

text \<open>State, attempt and expiry of an upload, as the table has them.\<close>

definition ledger_view :: "tables \<Rightarrow> string \<Rightarrow> string \<Rightarrow> (string \<times> string \<times> int option) option" where
  "ledger_view m T k = map_option (\<lambda>it. (stringAttr it ''state'', stringAttr it ''attempt_id'',
     map_option (\<lambda>_. number_in it ''processing_expires_unix_ms'') (gm_get it ''processing_expires_unix_ms''))) (m T k)"

definition ledger_item_wf :: "string \<Rightarrow> item \<Rightarrow> bool" where
  "ledger_item_wf k it \<longleftrightarrow> gm_get it ''pk'' = Some (AttrS k) \<and> (\<exists>a. gm_get it ''attempt_id'' = Some (AttrS a)) \<and>
     (gm_get it ''state'' = Some (AttrS LedgerStateCommitted) \<and> gm_get it ''processing_expires_unix_ms'' = None \<or>
      gm_get it ''state'' = Some (AttrS LedgerStateProcessing) \<and>
        (\<exists>e. gm_get it ''processing_expires_unix_ms'' = Some (numberAttr e)))"

definition ledger_wf :: "tables \<Rightarrow> string \<Rightarrow> bool" where
  "ledger_wf m T \<longleftrightarrow> (\<forall>k it. m T k = Some it \<longrightarrow> ledger_item_wf k it)"

lemma ledger_item_cases:
  assumes "ledger_wf m T"
  obtains (none) "m T k = None" "ledger_view m T k = None" "old_item m T k = []"
  | (committed) it a where "m T k = Some it" "old_item m T k = it" "it \<noteq> []" "gm_get it ''pk'' = Some (AttrS k)"
      "gm_get it ''state'' = Some (AttrS LedgerStateCommitted)" "gm_get it ''attempt_id'' = Some (AttrS a)"
      "gm_get it ''processing_expires_unix_ms'' = None" "ledger_view m T k = Some (LedgerStateCommitted, a, None)"
  | (processing) it a e where "m T k = Some it" "old_item m T k = it" "it \<noteq> []" "gm_get it ''pk'' = Some (AttrS k)"
      "gm_get it ''state'' = Some (AttrS LedgerStateProcessing)" "gm_get it ''attempt_id'' = Some (AttrS a)"
      "gm_get it ''processing_expires_unix_ms'' = Some (numberAttr e)"
      "ledger_view m T k = Some (LedgerStateProcessing, a, Some e)"
proof (cases "m T k")
  case (Some it)
  with assms have wf: "ledger_item_wf k it" by (simp add: ledger_wf_def)
  then obtain a where a: "gm_get it ''attempt_id'' = Some (AttrS a)" by (auto simp: ledger_item_wf_def)
  have "it \<noteq> []" using a by auto
  then show ?thesis using wf a Some committed processing
    by (auto simp: ledger_item_wf_def ledger_view_def old_item_def)
qed (use none in \<open>simp add: ledger_view_def old_item_def\<close>)

lemmas ledger_eval = update_condition_def updated_item_def remove_attrs_def resolve_def begin_request_def commit_request_def

definition begun_item :: "CompletedUploadProcessingLease \<Rightarrow> gotime \<Rightarrow> duration \<Rightarrow> item \<Rightarrow> item" where
  "begun_item lease now ttl it = gm_put ''updated_unix_ms'' (numberAttr (UnixMilli now))
     (gm_put ''processing_expires_unix_ms'' (numberAttr (UnixMilli (now + ttl)))
     (gm_put ''attempt_id'' (AttrS (pl_AttemptID lease)) (gm_put ''state'' (AttrS LedgerStateProcessing)
     (gm_put ''uuid'' (numberAttr (pl_Uuid lease)) (gm_put ''epoch_id'' (numberAttr (pl_EpochID lease))
     (gm_put ''shard_id'' (numberAttr (pl_ShardID lease)) (gm_put ''replica_id'' (AttrS (pl_ReplicaID lease)) it)))))))"

definition committed_item :: "gotime \<Rightarrow> item \<Rightarrow> item" where
  "committed_item now it = gm_del ''processing_expires_unix_ms'' (gm_put ''updated_unix_ms'' (numberAttr (UnixMilli now))
     (gm_put ''committed_unix_ms'' (numberAttr (UnixMilli now)) (gm_put ''state'' (AttrS LedgerStateCommitted) it)))"

text \<open>An update of the ledger leaves the other uploads alone and the table well-formed.\<close>

lemma ledger_wf_put: "ledger_wf m T \<Longrightarrow> ledger_item_wf k it \<Longrightarrow> ledger_wf (put_item T k (Some it) m) T"
  by (simp add: ledger_wf_def)

lemma begin_tables:
  assumes wf: "ledger_wf m (dl_table L)" and out: "update_outcome (begin_request L k lease t ttl) k m q m'"
  shows "isl q \<and> m' = m \<or>
     ledger_wf m' (dl_table L) \<and> (\<forall>k'. k' \<noteq> k \<longrightarrow> ledger_view m' (dl_table L) k' = ledger_view m (dl_table L) k') \<and>
     ledger_view m' (dl_table L) k = Some (LedgerStateProcessing, pl_AttemptID lease, Some (UnixMilli (t + ttl))) \<and>
     (\<forall>s a x. ledger_view m (dl_table L) k = Some (s, a, x) \<longrightarrow> s \<noteq> LedgerStateCommitted \<and> (\<forall>e. x = Some e \<longrightarrow> e \<le> UnixMilli t))"
proof -
  let ?T = "dl_table L" and ?u = "begin_request L k lease t ttl"
  have put: "ledger_wf (put_item ?T k (Some (begun_item lease t ttl it)) m) ?T \<and>
     (\<forall>k'. k' \<noteq> k \<longrightarrow> ledger_view (put_item ?T k (Some (begun_item lease t ttl it)) m) ?T k' = ledger_view m ?T k') \<and>
     ledger_view (put_item ?T k (Some (begun_item lease t ttl it)) m) ?T k
       = Some (LedgerStateProcessing, pl_AttemptID lease, Some (UnixMilli (t + ttl)))"
    if "gm_get it ''pk'' = Some (AttrS k)" for it
    using that by (intro conjI ledger_wf_put wf) (simp_all add: ledger_item_wf_def begun_item_def ledger_view_def)
  from wf show ?thesis
  proof (cases rule: ledger_item_cases [where k = k])
    case none
    have "update_condition ?u [] = Some True" "updated_item ?u [] = Some (begun_item lease t ttl (dynamoKey k))"
      by (simp_all add: ledger_eval begun_item_def)
    then have "isl q \<and> m' = m \<or> m' = put_item ?T k (Some (begun_item lease t ttl (dynamoKey k))) m"
      using out none by (auto simp: update_outcome_def Let_def begin_request_def)
    then show ?thesis using put [of "dynamoKey k"] none(2) by (auto simp: dynamoKey_def dynamoControlPKName_def)
  next
    case (committed it a)
    have "update_condition ?u it = Some False" "updated_item ?u it \<noteq> None" using committed(3-7) by (simp_all add: ledger_eval)
    then show ?thesis using out committed(2) by (auto simp: update_outcome_def Let_def begin_request_def)
  next
    case (processing it a e)
    have "update_condition ?u it = Some (e \<le> UnixMilli t)" "updated_item ?u it = Some (begun_item lease t ttl it)"
      using processing(3-7) by (simp_all add: ledger_eval begun_item_def)
    then have "isl q \<and> m' = m \<or> e \<le> UnixMilli t \<and> m' = put_item ?T k (Some (begun_item lease t ttl it)) m"
      using out processing(2) by (auto simp: update_outcome_def Let_def begin_request_def)
    then show ?thesis using put [OF processing(4)] processing(8) by auto
  qed
qed

lemma commit_tables:
  assumes wf: "ledger_wf m (dl_table L)" and out: "update_outcome (commit_request L k lease t) k m q m'"
  shows "isl q \<and> m' = m \<or>
     ledger_wf m' (dl_table L) \<and> (\<forall>k'. k' \<noteq> k \<longrightarrow> ledger_view m' (dl_table L) k' = ledger_view m (dl_table L) k') \<and>
     (\<exists>e. ledger_view m (dl_table L) k = Some (LedgerStateProcessing, pl_AttemptID lease, Some e)) \<and>
     ledger_view m' (dl_table L) k = Some (LedgerStateCommitted, pl_AttemptID lease, None)"
proof -
  let ?T = "dl_table L" and ?u = "commit_request L k lease t"
  from wf show ?thesis
  proof (cases rule: ledger_item_cases [where k = k])
    case none
    have "update_condition ?u [] = Some False" "updated_item ?u [] \<noteq> None" by (simp_all add: ledger_eval)
    then show ?thesis using out none by (auto simp: update_outcome_def Let_def commit_request_def)
  next
    case (committed it a)
    have "update_condition ?u it = Some False" "updated_item ?u it \<noteq> None" using committed(3-7) by (simp_all add: ledger_eval)
    then show ?thesis using out committed(2) by (auto simp: update_outcome_def Let_def commit_request_def)
  next
    case (processing it a e)
    let ?new = "committed_item t it"
    have "update_condition ?u it = Some (a = pl_AttemptID lease)" "updated_item ?u it = Some ?new"
      using processing(3-7) by (simp_all add: ledger_eval committed_item_def)
    then have "isl q \<and> m' = m \<or> a = pl_AttemptID lease \<and> m' = put_item ?T k (Some ?new) m"
      using out processing(2) by (auto simp: update_outcome_def Let_def commit_request_def)
    moreover have "ledger_wf (put_item ?T k (Some ?new) m) ?T"
      using processing(4-7) by (intro ledger_wf_put wf) (simp add: ledger_item_wf_def committed_item_def)
    moreover have "ledger_view (put_item ?T k (Some ?new) m) ?T k = Some (LedgerStateCommitted, a, None)"
      "k' \<noteq> k \<Longrightarrow> ledger_view (put_item ?T k (Some ?new) m) ?T k' = ledger_view m ?T k'" for k'
      using processing(4-7) by (simp_all add: ledger_view_def committed_item_def)
    ultimately show ?thesis using processing(8) by auto
  qed
qed

section \<open>What the operations do to the table\<close>

text \<open>The lease of an attempt, and results that carry one.\<close>

definition attempt_lease :: "CompletedUploadMessage \<Rightarrow> gotime \<Rightarrow> CompletedUploadProcessingLease" where
  "attempt_lease m t = \<lparr>pl_ReplicaID = (if m_ReplicaID m = '''' then CompletedUploadReplicaActive else m_ReplicaID m),
     pl_ShardID = m_ShardID m, pl_EpochID = m_EpochID m, pl_Uuid = m_Uuid m,
     pl_AttemptID = show_int t @ ''-'' @ show_int (m_Uuid m)\<rparr>"

definition granted :: "CompletedUploadLedgerBeginResult res \<Rightarrow> bool" where
  "granted q \<longleftrightarrow> (case q of Inl _ \<Rightarrow> False | Inr r \<Rightarrow> pl_AttemptID (br_Lease r) \<noteq> '''')"

lemma granted_simps [simp]: "\<not> granted (Inl e)" "\<not> granted (classifyCompletedUploadLedgerRecord r t)"
  "\<not> granted (Inr no_grant)" "\<not> granted (Inr \<lparr>AlreadyCommitted = b, br_Lease = zero_lease\<rparr>)"
  by (simp_all add: granted_def classifyCompletedUploadLedgerRecord_def no_grant_def zero_lease_def)

abbreviation ledger_begin where "ledger_begin L m t ttl d \<equiv> dl_BeginProcessing L None t m t ttl d"
abbreviation ledger_complete where "ledger_complete L lease t d \<equiv> dl_CompleteProcessing L None t lease t d"

lemma begin_cases:
  assumes "ledger_begin L m t ttl d = (q, d')"
  obtains (skipped) "d' = d" "\<not> granted q" "\<forall>r. q = Inr r \<longrightarrow> AlreadyCommitted r \<and>
       (\<exists>rec. getRecord L (message_key m) d = Inr (Some rec) \<and> lr_State rec = LedgerStateCommitted)"
  | (tried) q1 where "UpdateItem (dl_client L) (begin_request L (message_key m) (attempt_lease m t) t ttl) d = (q1, d')"
      "if isl q1 then \<not> granted q \<and> (\<forall>r. q = Inr r \<longrightarrow> isConditionalCheckFailed (projl q1) \<and>
           (\<exists>rec. getRecord L (message_key m) d' = Inr (Some rec) \<and> classifyCompletedUploadLedgerRecord rec t = Inr r))
       else q = Inr \<lparr>AlreadyCommitted = False, br_Lease = attempt_lease m t\<rparr>"
proof -
  obtain q2 d2 where u: "UpdateItem (dl_client L) (begin_request L (message_key m) (attempt_lease m t) t ttl) d = (q2, d2)"
    by fastforce
  define grant where "grant = (case UpdateItem (dl_client L) (begin_request L (message_key m) (attempt_lease m t) t ttl) d of
      (Inl err, d) \<Rightarrow> if isConditionalCheckFailed err
        then (case getRecord L (message_key m) d of
                Inl getErr \<Rightarrow> (Inl getErr, d)
              | Inr (Some record) \<Rightarrow> (classifyCompletedUploadLedgerRecord record t, d)
              | Inr None \<Rightarrow> (Inl errCompletedUploadProcessingBusy, d))
        else (Inl err, d)
    | (Inr _, d) \<Rightarrow> (Inr \<lparr>AlreadyCommitted = False, br_Lease = attempt_lease m t\<rparr>, d))"
  have key: "completedUploadLedgerKeyForReplica (if m_ReplicaID m = '''' then CompletedUploadReplicaActive else m_ReplicaID m)
      (m_ShardID m) (m_EpochID m) (m_Uuid m) = message_key m"
    by (simp add: message_key_def message_key_active)
  have eq: "ledger_begin L m t ttl d = (if ttl \<le> 0 then (Inl (ErrorString ''completed upload processing ttl must be positive''), d)
      else case validateCompletedUploadLedgerIdentity (m_ShardID m) (m_EpochID m) (m_Uuid m) of
        Inl err \<Rightarrow> (Inl err, d)
      | Inr _ \<Rightarrow>
      case validateCompletedUploadReplicaID (m_ReplicaID m) of
        Inl err \<Rightarrow> (Inl err, d)
      | Inr _ \<Rightarrow>
      case getRecord L (message_key m) d of
           Inl err \<Rightarrow> (Inl err, d)
         | Inr None \<Rightarrow> grant
         | Inr (Some record) \<Rightarrow>
             (case classifyCompletedUploadLedgerRecord record t of
                Inl err \<Rightarrow> (Inl err, d)
              | Inr result \<Rightarrow> if AlreadyCommitted result then (Inr result, d) else grant))"
    unfolding dl_BeginProcessing_def Let_def key attempt_lease_def [symmetric] grant_def option.case if_cancel by (rule refl)
  have tried': thesis if "(q, d') = grant"
    by (rule tried [of q2])
      (use that u in \<open>auto simp: grant_def split: sum.splits option.splits if_splits\<close>)
  have committed: "AlreadyCommitted r \<Longrightarrow> classifyCompletedUploadLedgerRecord rec t = Inr r \<Longrightarrow> lr_State rec = LedgerStateCommitted" for r rec
    by (auto simp: classifyCompletedUploadLedgerRecord_def no_grant_def split: if_splits)
  have ng: "classifyCompletedUploadLedgerRecord rec t = Inr r \<Longrightarrow> \<not> granted (Inr r)" for rec r
    using granted_simps(2) [of rec t] by simp
  define body where "body = (case getRecord L (message_key m) d of
           Inl err \<Rightarrow> (Inl err, d)
         | Inr None \<Rightarrow> grant
         | Inr (Some record) \<Rightarrow>
             (case classifyCompletedUploadLedgerRecord record t of
                Inl err \<Rightarrow> (Inl err, d)
              | Inr result \<Rightarrow> if AlreadyCommitted result then (Inr result, d) else grant))"
  have "(\<exists>e. q = Inl e \<and> d' = d) \<or> (q, d') = body"
    using assms unfolding eq body_def [symmetric] by (auto split: if_splits sum.splits)
  moreover have "(\<exists>e. q = Inl e \<and> d' = d) \<or>
      (\<exists>rec r. getRecord L (message_key m) d = Inr (Some rec) \<and> classifyCompletedUploadLedgerRecord rec t = Inr r \<and>
         AlreadyCommitted r \<and> q = Inr r \<and> d' = d) \<or> (q, d') = grant" if "(q, d') = body"
  proof (cases "getRecord L (message_key m) d")
    case (Inr found)
    then show ?thesis using that
      by (cases found; cases "classifyCompletedUploadLedgerRecord (the found) t") (simp_all add: body_def split: if_splits)
  qed (use that in \<open>simp add: body_def\<close>)
  ultimately have "(\<exists>e. q = Inl e \<and> d' = d) \<or>
      (\<exists>rec r. getRecord L (message_key m) d = Inr (Some rec) \<and> classifyCompletedUploadLedgerRecord rec t = Inr r \<and>
         AlreadyCommitted r \<and> q = Inr r \<and> d' = d) \<or> (q, d') = grant" by blast
  then consider (1) e where "q = Inl e" "d' = d"
    | (2) rec r where "getRecord L (message_key m) d = Inr (Some rec)" "classifyCompletedUploadLedgerRecord rec t = Inr r"
        "AlreadyCommitted r" "q = Inr r" "d' = d"
    | (3) "(q, d') = grant" by blast
  then show ?thesis
  proof cases
    case (1 e)
    show ?thesis by (rule skipped) (use 1 in simp_all)
  next
    case (2 rec r)
    show ?thesis by (rule skipped) (use 2 committed [OF 2(3,2)] ng [OF 2(2)] in auto)
  qed (rule tried')
qed

lemma attempt_lease_simps [simp]: "pl_AttemptID (attempt_lease m t) \<noteq> ''''" "lease_key (attempt_lease m t) = message_key m"
  by (simp_all add: attempt_lease_def lease_key_def message_key_def message_key_active)

lemma begin_effect:
  assumes ok: "dynamo_ok (dl_client L) tab" and wf: "ledger_wf (tab d) (dl_table L)" and b: "ledger_begin L m t ttl d = (q, d')"
  shows "tab d' = tab d \<and> \<not> granted q \<or>
     ledger_wf (tab d') (dl_table L) \<and>
     (\<forall>k. k \<noteq> message_key m \<longrightarrow> ledger_view (tab d') (dl_table L) k = ledger_view (tab d) (dl_table L) k) \<and>
     ledger_view (tab d') (dl_table L) (message_key m)
       = Some (LedgerStateProcessing, pl_AttemptID (attempt_lease m t), Some (UnixMilli (t + ttl))) \<and>
     (\<forall>s a x. ledger_view (tab d) (dl_table L) (message_key m) = Some (s, a, x) \<longrightarrow>
        s \<noteq> LedgerStateCommitted \<and> (\<forall>e. x = Some e \<longrightarrow> e \<le> UnixMilli t)) \<and>
     (granted q \<longrightarrow> q = Inr \<lparr>AlreadyCommitted = False, br_Lease = attempt_lease m t\<rparr>)"
  using b
proof (cases rule: begin_cases)
  case (tried q1)
  have k: "ui_Key (begin_request L (message_key m) (attempt_lease m t) t ttl) = dynamoKey (message_key m)"
    by (simp add: begin_request_def)
  from begin_tables [OF wf ok_Update(2) [OF ok k tried(1)]] tried(2) show ?thesis
    by (cases q1) auto
qed auto

lemma complete_effect:
  assumes ok: "dynamo_ok (dl_client L) tab" and wf: "ledger_wf (tab d) (dl_table L)" and c: "ledger_complete L lease t d = (q, d')"
  shows "tab d' = tab d \<or>
     ledger_wf (tab d') (dl_table L) \<and>
     (\<forall>k. k \<noteq> lease_key lease \<longrightarrow> ledger_view (tab d') (dl_table L) k = ledger_view (tab d) (dl_table L) k) \<and>
     (\<exists>e. ledger_view (tab d) (dl_table L) (lease_key lease) = Some (LedgerStateProcessing, pl_AttemptID lease, Some e)) \<and>
     ledger_view (tab d') (dl_table L) (lease_key lease) = Some (LedgerStateCommitted, pl_AttemptID lease, None)"
proof -
  let ?u = "commit_request L (lease_key lease) lease t"
  have key: "completedUploadLedgerKeyForReplica (if pl_ReplicaID lease = '''' then CompletedUploadReplicaActive else pl_ReplicaID lease)
      (pl_ShardID lease) (pl_EpochID lease) (pl_Uuid lease) = lease_key lease"
    by (simp add: lease_key_def message_key_active)
  have "d' = d \<or> (\<exists>q1. UpdateItem (dl_client L) ?u d = (q1, d'))"
    using c unfolding dl_CompleteProcessing_def Let_def key option.case if_cancel
    by (auto split: if_splits sum.splits option.splits prod.splits)
  moreover have "ui_Key ?u = dynamoKey (lease_key lease)" by (simp add: commit_request_def)
  ultimately show ?thesis using commit_tables [OF wf ok_Update(2) [OF ok]] by blast
qed

section \<open>Sequences of calls\<close>

text \<open>Calls of any workers, and \<open>None\<close> for what the service does on its own.\<close>

definition dl_step :: "'d dynamoDBCompletedUploadLedger \<Rightarrow> ledger_op option \<Rightarrow> 'd \<Rightarrow> 'd" where
  "dl_step L x d = (case x of
     None \<Rightarrow> Background (dl_client L) d
   | Some (LBegin m t ttl) \<Rightarrow> snd (ledger_begin L m t ttl d)
   | Some (LComplete lease t) \<Rightarrow> snd (ledger_complete L lease t d))"

definition dl_run :: "'d dynamoDBCompletedUploadLedger \<Rightarrow> ledger_op option list \<Rightarrow> 'd \<Rightarrow> 'd" where
  "dl_run L ops d = foldl (\<lambda>d x. dl_step L x d) d ops"

text \<open>An upload is taken until \<open>e\<close>: committed, or in processing with a lease that lasts until \<open>e\<close>. A
  committed one is taken for ever.\<close>

definition taken :: "int option \<Rightarrow> (string \<times> string \<times> int option) option \<Rightarrow> bool" where
  "taken e v \<longleftrightarrow> (\<exists>a. v = Some (LedgerStateCommitted, a, None) \<or>
     (\<exists>e'. e = Some e' \<and> v = Some (LedgerStateProcessing, a, Some e')))"

definition before :: "gotime \<Rightarrow> int option \<Rightarrow> bool" where
  "before t e \<longleftrightarrow> (\<forall>e'. e = Some e' \<longrightarrow> UnixMilli t < e')"

lemma taken_begin:
  assumes ok: "dynamo_ok (dl_client L) tab" and wf: "ledger_wf (tab d) (dl_table L)"
    and t: "taken e (ledger_view (tab d) (dl_table L) k)" "message_key m = k \<Longrightarrow> before t e"
    and b: "ledger_begin L m t ttl d = (q, d')"
  shows "ledger_wf (tab d') (dl_table L)" "ledger_view (tab d') (dl_table L) k = ledger_view (tab d) (dl_table L) k"
    "message_key m = k \<Longrightarrow> \<not> granted q"
proof -
  have "ledger_wf (tab d') (dl_table L) \<and> ledger_view (tab d') (dl_table L) k = ledger_view (tab d) (dl_table L) k \<and>
    (message_key m = k \<longrightarrow> \<not> granted q)"
  proof (cases "message_key m = k")
    case True
    have "tab d' = tab d \<and> \<not> granted q"
      using begin_effect [OF ok wf b] t True by (auto simp: taken_def before_def)
    then show ?thesis using wf by simp
  next
    case False
    then show ?thesis using begin_effect [OF ok wf b] wf by metis
  qed
  then show "ledger_wf (tab d') (dl_table L)" "ledger_view (tab d') (dl_table L) k = ledger_view (tab d) (dl_table L) k"
    "message_key m = k \<Longrightarrow> \<not> granted q" by auto
qed

lemma taken_step:
  assumes ok: "dynamo_ok (dl_client L) tab" and wf: "ledger_wf (tab d) (dl_table L)"
    and t: "taken e (ledger_view (tab d) (dl_table L) k)"
    and x: "\<forall>m t ttl. x = Some (LBegin m t ttl) \<and> message_key m = k \<longrightarrow> before t e"
  shows "ledger_wf (tab (dl_step L x d)) (dl_table L) \<and> taken e (ledger_view (tab (dl_step L x d)) (dl_table L) k)"
proof (cases x)
  case None
  then show ?thesis using ok wf t by (simp add: dl_step_def)
next
  case (Some op)
  show ?thesis
  proof (cases op)
    case (LBegin m s ttl)
    obtain q d' where b: "ledger_begin L m s ttl d = (q, d')" by fastforce
    show ?thesis using taken_begin [OF ok wf t _ b] x Some LBegin b t by (auto simp: dl_step_def)
  next
    case (LComplete lease s)
    obtain q d' where c: "ledger_complete L lease s d = (q, d')" by fastforce
    have "ledger_wf (tab d') (dl_table L) \<and> taken e (ledger_view (tab d') (dl_table L) k)"
      using complete_effect [OF ok wf c] wf t by (cases "k = lease_key lease") (auto simp: taken_def)
    then show ?thesis using Some LComplete c by (simp add: dl_step_def)
  qed
qed

lemma taken_run:
  "dynamo_ok (dl_client L) tab \<Longrightarrow> ledger_wf (tab d) (dl_table L) \<Longrightarrow> taken e (ledger_view (tab d) (dl_table L) k) \<Longrightarrow>
   \<forall>m t ttl. Some (LBegin m t ttl) \<in> set ops \<and> message_key m = k \<longrightarrow> before t e \<Longrightarrow>
   ledger_wf (tab (dl_run L ops d)) (dl_table L) \<and> taken e (ledger_view (tab (dl_run L ops d)) (dl_table L) k)"
proof (induction ops arbitrary: d)
  case (Cons x ops)
  have "ledger_wf (tab (dl_step L x d)) (dl_table L) \<and> taken e (ledger_view (tab (dl_step L x d)) (dl_table L) k)"
    by (rule taken_step [OF Cons.prems(1-3)]) (use Cons.prems(4) in auto)
  then have "ledger_wf (tab (dl_run L ops (dl_step L x d))) (dl_table L) \<and>
      taken e (ledger_view (tab (dl_run L ops (dl_step L x d))) (dl_table L) k)"
    using Cons.prems(4) by (intro Cons.IH [OF Cons.prems(1)]) auto
  then show ?case by (simp add: dl_run_def)
qed (simp add: dl_run_def)

section \<open>Consistent reads\<close>

lemma read_record:
  assumes "reads_ok (dl_client L) tab" "ledger_wf (tab d) (dl_table L)" "getRecord L k d = Inr (Some rec)"
  shows "\<exists>a x. ledger_view (tab d) (dl_table L) k = Some (lr_State rec, a, x) \<and>
     (\<forall>e. x = Some e \<and> in_int64 e \<longrightarrow> ProcessingExpiresAt rec = time_UnixMilli e)"
proof -
  have "getRecord L k d = (if old_item (tab d) (dl_table L) k = [] then Inr None
      else Inr (Some (ledgerRecordFromItem (old_item (tab d) (dl_table L) k))))"
    using assms(1) by (simp add: getRecord_def reads_ok_def)
  with assms(3) have rec: "rec = ledgerRecordFromItem (old_item (tab d) (dl_table L) k)" "old_item (tab d) (dl_table L) k \<noteq> []"
    by (simp_all split: if_splits)
  from assms(2) show ?thesis
  proof (cases rule: ledger_item_cases [where k = k])
    case none
    then show ?thesis using rec(2) by simp
  next
    case (committed it a)
    then show ?thesis using rec(1) by (simp add: ledgerRecordFromItem_def)
  next
    case (processing it a e)
    then show ?thesis using rec(1) by (auto simp: ledgerRecordFromItem_def)
  qed
qed

text \<open>After a failed condition the upload is committed, or somebody's lease is running, or the update had
  been applied before its answer was lost.\<close>

lemma begin_refused:
  assumes wf: "ledger_wf m (dl_table L)" and out: "update_outcome (begin_request L k lease t ttl) k m q m'"
    and q: "isl q" "isConditionalCheckFailed (projl q)"
  shows "(\<exists>a. ledger_view m' (dl_table L) k = Some (LedgerStateCommitted, a, None)) \<or>
     (\<exists>a e. ledger_view m' (dl_table L) k = Some (LedgerStateProcessing, a, Some e) \<and> (UnixMilli t < e \<or> e = UnixMilli (t + ttl)))"
proof -
  let ?T = "dl_table L" and ?u = "begin_request L k lease t ttl"
  have applied: "ledger_view (put_item ?T k (Some (begun_item lease t ttl it)) m) ?T k
       = Some (LedgerStateProcessing, pl_AttemptID lease, Some (UnixMilli (t + ttl)))" for it
    by (simp add: begun_item_def ledger_view_def)
  from wf show ?thesis
  proof (cases rule: ledger_item_cases [where k = k])
    case none
    have "update_condition ?u [] = Some True" "updated_item ?u [] = Some (begun_item lease t ttl (dynamoKey k))"
      by (simp_all add: ledger_eval begun_item_def)
    then show ?thesis using out none q applied by (auto simp: update_outcome_def Let_def begin_request_def)
  next
    case (committed it a)
    have "update_condition ?u it = Some False" "updated_item ?u it \<noteq> None" using committed(3-7) by (simp_all add: ledger_eval)
    then show ?thesis using out committed(2,8) by (auto simp: update_outcome_def Let_def begin_request_def)
  next
    case (processing it a e)
    have "update_condition ?u it = Some (e \<le> UnixMilli t)" "updated_item ?u it = Some (begun_item lease t ttl it)"
      using processing(3-7) by (simp_all add: ledger_eval begun_item_def)
    then have "e > UnixMilli t \<and> m' = m \<or> m' = put_item ?T k (Some (begun_item lease t ttl it)) m"
      using out processing(2) q by (auto simp: update_outcome_def Let_def begin_request_def)
    then show ?thesis using processing(8) applied by auto
  qed
qed

section \<open>A lost race with a stale replica\<close>

lemma begin_unfold:
  assumes "begin_valid m ttl"
  shows "ledger_begin L m t ttl d =
     (case getRecord L (message_key m) d of
        Inl err \<Rightarrow> (Inl err, d)
      | Inr found \<Rightarrow>
          (case (case found of None \<Rightarrow> Inr no_grant | Some record \<Rightarrow> classifyCompletedUploadLedgerRecord record t) of
             Inl err \<Rightarrow> (Inl err, d)
           | Inr result \<Rightarrow> if AlreadyCommitted result then (Inr result, d)
               else (case UpdateItem (dl_client L) (begin_request L (message_key m) (attempt_lease m t) t ttl) d of
                 (Inl err, d) \<Rightarrow>
                   if isConditionalCheckFailed err
                   then (case getRecord L (message_key m) d of
                           Inl getErr \<Rightarrow> (Inl getErr, d)
                         | Inr (Some record) \<Rightarrow> (classifyCompletedUploadLedgerRecord record t, d)
                         | Inr None \<Rightarrow> (Inl errCompletedUploadProcessingBusy, d))
                   else (Inl err, d)
               | (Inr _, d) \<Rightarrow> (Inr \<lparr>AlreadyCommitted = False, br_Lease = attempt_lease m t\<rparr>, d))))"
proof -
  have key: "completedUploadLedgerKeyForReplica (if m_ReplicaID m = '''' then CompletedUploadReplicaActive else m_ReplicaID m)
      (m_ShardID m) (m_EpochID m) (m_Uuid m) = message_key m"
    by (simp add: message_key_def message_key_active)
  have v: "validateCompletedUploadLedgerIdentity (m_ShardID m) (m_EpochID m) (m_Uuid m) = Inr ()"
      "validateCompletedUploadReplicaID (m_ReplicaID m) = Inr ()" "\<not> ttl \<le> 0"
    using assms by (simp_all add: begin_valid_def)
  show ?thesis
    unfolding dl_BeginProcessing_def Let_def key attempt_lease_def [symmetric] option.case if_cancel v sum.case
    by (cases "getRecord L (message_key m) d"; cases "projr (getRecord L (message_key m) d)")
      (simp_all add: v(3) no_grant_def)
qed

definition toy_ledger :: "(tables \<times> tables) dynamoDBCompletedUploadLedger" where
  "toy_ledger = \<lparr>dl_client = toy_dynamo, dl_table = ''ledger''\<rparr>"

definition ledger_item :: "string \<Rightarrow> int \<Rightarrow> item" where
  "ledger_item a e = [(''pk'', AttrS (message_key sample_cu)), (''state'', AttrS LedgerStateProcessing),
     (''attempt_id'', AttrS a), (''processing_expires_unix_ms'', numberAttr e)]"

definition done_item :: item where
  "done_item = [(''pk'', AttrS (message_key sample_cu)), (''state'', AttrS LedgerStateCommitted), (''attempt_id'', AttrS ''w'')]"

definition with_item :: "item \<Rightarrow> tables" where
  "with_item it = put_item ''ledger'' (message_key sample_cu) (Some it) (\<lambda>_. Map.empty)"

lemma with_item_simps [simp]:
  "old_item (with_item it) ''ledger'' (message_key sample_cu) = it"
  "with_item it ''ledger'' k = (if k = message_key sample_cu then Some it else None)"
  by (simp_all add: with_item_def old_item_def)

lemma with_item_put [simp]: "put_item ''ledger'' (message_key sample_cu) (Some x) (with_item it) = with_item x"
  by (simp add: with_item_def put_item_def fun_eq_iff)

lemma toy_ledger_simps [simp]: "dl_client toy_ledger = toy_dynamo" "dl_table toy_ledger = ''ledger''"
  by (simp_all add: toy_ledger_def)

lemma begin_request_simps [simp]:
  "ui_Key (begin_request L k lease t ttl) = dynamoKey k" "ui_TableName (begin_request L k lease t ttl) = dl_table L"
  "ui_ReturnAllNew (begin_request L k lease t ttl) = False"
  by (simp_all add: begin_request_def)

lemma with_item_wf: "ledger_wf (with_item (ledger_item a e)) ''ledger''" "ledger_wf (with_item done_item) ''ledger''"
  by (simp_all add: ledger_wf_def ledger_item_wf_def ledger_item_def done_item_def)

lemma sample_begin_valid: "begin_valid sample_cu (10 * millisecond)"
  using sample_valid(2) by (simp add: begin_valid_def millisecond_def)

lemma toy_getRecord: "getRecord toy_ledger (message_key sample_cu) (m, with_item (ledger_item a e)) =
   Inr (Some (ledgerRecordFromItem (ledger_item a e)))"
  by (simp add: getRecord_def toy_ledger_def ledger_item_def)

lemma expired_record:
  "in_int64 e \<Longrightarrow> e \<le> UnixMilli t \<Longrightarrow> classifyCompletedUploadLedgerRecord (ledgerRecordFromItem (ledger_item a e)) t = Inr no_grant"
  by (simp add: classifyCompletedUploadLedgerRecord_def ledgerRecordFromItem_def ledger_item_def Before_def)

lemma expired_w:
  "classifyCompletedUploadLedgerRecord (ledgerRecordFromItem (ledger_item ''w'' 5)) (20 * millisecond) = Inr no_grant"
  "classifyCompletedUploadLedgerRecord (ledgerRecordFromItem (ledger_item ''w'' 5)) (21 * millisecond) = Inr no_grant"
  by (rule expired_record; simp add: in_int64_def max_int64_def UnixMilli_def millisecond_def)+

lemma no_grant_open [simp]: "\<not> AlreadyCommitted no_grant"
  by (simp add: no_grant_def)

text \<open>An expired lease in the table and in the replica. The first worker takes it over; the second one,
  a millisecond later, still reads the old record and loses the race.\<close>

abbreviation race_start :: "tables \<times> tables" where
  "race_start \<equiv> (with_item (ledger_item ''w'' 5), with_item (ledger_item ''w'' 5))"

abbreviation race_won :: "tables \<times> tables" where
  "race_won \<equiv> (with_item (begun_item (attempt_lease sample_cu (20 * millisecond)) (20 * millisecond) (10 * millisecond) (ledger_item ''w'' 5)),
     with_item (ledger_item ''w'' 5))"

lemma race_first:
  "ledger_begin toy_ledger sample_cu (20 * millisecond) (10 * millisecond) race_start
     = (Inr \<lparr>AlreadyCommitted = False, br_Lease = attempt_lease sample_cu (20 * millisecond)\<rparr>, race_won)"
proof -
  let ?u = "begin_request toy_ledger (message_key sample_cu) (attempt_lease sample_cu (20 * millisecond)) (20 * millisecond) (10 * millisecond)"
  have "update_condition ?u (ledger_item ''w'' 5) = Some True"
    "updated_item ?u (ledger_item ''w'' 5) = Some (begun_item (attempt_lease sample_cu (20 * millisecond)) (20 * millisecond) (10 * millisecond) (ledger_item ''w'' 5))"
    by (simp_all add: ledger_eval ledger_item_def begun_item_def UnixMilli_def millisecond_def LedgerStateProcessing_def LedgerStateCommitted_def)
  then have "UpdateItem toy_dynamo ?u race_start = (Inr [], race_won)"
    using toy_Update [of ?u "message_key sample_cu" "with_item (ledger_item ''w'' 5)" True _ "with_item (ledger_item ''w'' 5)"]
    by simp
  then show ?thesis
    by (simp add: begin_unfold [OF sample_begin_valid] toy_getRecord expired_w)
qed

lemma race_second:
  "ledger_begin toy_ledger sample_cu (21 * millisecond) (10 * millisecond) race_won = (Inr no_grant, race_won)"
proof -
  let ?it = "begun_item (attempt_lease sample_cu (20 * millisecond)) (20 * millisecond) (10 * millisecond) (ledger_item ''w'' 5)"
  let ?u = "begin_request toy_ledger (message_key sample_cu) (attempt_lease sample_cu (21 * millisecond)) (21 * millisecond) (10 * millisecond)"
  have "update_condition ?u ?it = Some False" "updated_item ?u ?it \<noteq> None"
    by (simp_all add: ledger_eval ledger_item_def begun_item_def UnixMilli_def millisecond_def)
  then have "UpdateItem toy_dynamo ?u race_won = (Inl ConditionalCheckFailedException, race_won)"
    using toy_Update [of ?u "message_key sample_cu" "fst race_won" False _ "snd race_won"]
    by auto
  then show ?thesis
    by (simp add: begin_unfold [OF sample_begin_valid] toy_getRecord expired_w isConditionalCheckFailed_def)
qed

section \<open>Properties\<close>

text \<open>C12: A processing lease on DynamoDB excludes other workers. For every service that keeps \<open>dynamo_ok\<close>, with
  stale reads and lost answers: after \<^verbatim>\<open>BeginProcessing\<close> returned a lease with an attempt id at
  time \<open>t\<close>, and after any further calls that begin before it expires, no \<^verbatim>\<open>BeginProcessing\<close> of the same
  upload before the expiry returns a lease with an attempt id; and once an upload is committed in
  the table, no call at any time ever changes that or returns such a lease.\<close>

theorem dynamo_ledger_lease_excludes:
  assumes "dynamo_ok (dl_client L) tab" "ledger_wf (tab d) (dl_table L)"
    and "(\<exists>r. dl_BeginProcessing L None t m t ttl d = (Inr r, d') \<and> pl_AttemptID (br_Lease r) \<noteq> '''' \<and>
            (\<forall>m' t' ttl'. Some (LBegin m' t' ttl') \<in> set ops \<longrightarrow> t' < time_UnixMilli (UnixMilli (t + ttl))) \<and>
            t' < time_UnixMilli (UnixMilli (t + ttl))) \<or>
         d' = d \<and> (\<exists>a. ledger_view (tab d) (dl_table L) (message_key m) = Some (LedgerStateCommitted, a, None))"
    and "message_key m' = message_key m"
    and "dl_BeginProcessing L None t' m' t' ttl' (dl_run L ops d') = (Inr r', d'')"
  shows "pl_AttemptID (br_Lease r') = ''''"
proof -
  let ?T = "dl_table L" and ?k = "message_key m"
  obtain e where e: "ledger_wf (tab d') ?T" "taken e (ledger_view (tab d') ?T ?k)" "before t' e"
      "\<forall>m t ttl. Some (LBegin m t ttl) \<in> set ops \<and> message_key m = ?k \<longrightarrow> before t e"
    using assms(3)
  proof (elim disjE exE conjE)
    fix r assume b: "dl_BeginProcessing L None t m t ttl d = (Inr r, d')" and a: "pl_AttemptID (br_Lease r) \<noteq> ''''"
      and o: "\<forall>m' t' ttl'. Some (LBegin m' t' ttl') \<in> set ops \<longrightarrow> t' < time_UnixMilli (UnixMilli (t + ttl))"
        "t' < time_UnixMilli (UnixMilli (t + ttl))"
    have "ledger_wf (tab d') ?T" "taken (Some (UnixMilli (t + ttl))) (ledger_view (tab d') ?T ?k)"
      using begin_effect [OF assms(1,2) b] a by (auto simp: granted_def taken_def)
    then show ?thesis using o by (intro that [of "Some (UnixMilli (t + ttl))"]) (auto simp: before_def)
  next
    fix a assume "d' = d" "ledger_view (tab d) ?T ?k = Some (LedgerStateCommitted, a, None)"
    then show ?thesis using assms(2) by (intro that [of None]) (auto simp: taken_def before_def)
  qed
  have "ledger_wf (tab (dl_run L ops d')) ?T" "taken e (ledger_view (tab (dl_run L ops d')) ?T ?k)"
    using taken_run [OF assms(1) e(1,2,4)] by auto
  from taken_begin(3) [OF assms(1) this _ assms(5) assms(4)] e(3) show ?thesis by (auto simp: granted_def)
qed

theorem dynamo_ledger_lease_excludes_witness:
  "\<exists>r. dl_BeginProcessing toy_ledger None (21 * millisecond) sample_cu (21 * millisecond) (10 * millisecond)
       (dl_run toy_ledger [] race_won) = (Inr r, race_won) \<and> pl_AttemptID (br_Lease r) = ''''"
proof -
  have ok: "dynamo_ok (dl_client toy_ledger) fst" by (simp add: toy_dynamo_ok)
  have wf: "ledger_wf (fst race_start) (dl_table toy_ledger)" by (simp add: with_item_wf)
  have b: "dl_BeginProcessing toy_ledger None (21 * millisecond) sample_cu (21 * millisecond) (10 * millisecond)
       (dl_run toy_ledger [] race_won) = (Inr no_grant, race_won)" by (simp add: dl_run_def race_second)
  have "pl_AttemptID (br_Lease no_grant) = ''''"
    by (rule dynamo_ledger_lease_excludes [OF ok wf _ refl b, where t = "20 * millisecond" and ttl = "10 * millisecond"])
      (simp add: race_first, simp add: UnixMilli_def millisecond_def)
  with b show ?thesis by blast
qed

text \<open>With strongly consistent reads the ledger on DynamoDB keeps its contract: a successful \<^verbatim>\<open>BeginProcessing\<close> with a
  lease time of at least a millisecond either reports a commit that the table has, or has put its
  own attempt into the table and returns the lease of it.\<close>

theorem dynamo_ledger_consistent_reads:
  assumes "dynamo_ok (dl_client L) tab" "reads_ok (dl_client L) tab" "ledger_wf (tab d) (dl_table L)"
    and "dl_BeginProcessing L None t m t ttl d = (Inr r, d')" "in_int64 (UnixMilli (t + ttl))" "UnixMilli t < UnixMilli (t + ttl)"
    and "\<forall>s a e. ledger_view (tab d) (dl_table L) (message_key m) = Some (s, a, Some e) \<longrightarrow> in_int64 e"
  shows "if AlreadyCommitted r then \<exists>a. ledger_view (tab d') (dl_table L) (message_key m) = Some (LedgerStateCommitted, a, None)
     else pl_AttemptID (br_Lease r) \<noteq> '''' \<and> ledger_view (tab d') (dl_table L) (message_key m)
       = Some (LedgerStateProcessing, pl_AttemptID (br_Lease r), Some (UnixMilli (t + ttl)))"
  using assms(4)
proof (cases rule: begin_cases)
  case skipped
  then obtain rec where rec: "AlreadyCommitted r" "getRecord L (message_key m) d = Inr (Some rec)" "lr_State rec = LedgerStateCommitted"
    by auto
  from assms(3) show ?thesis
    using read_record [OF assms(2,3) rec(2)] rec(1,3) skipped(1)
    by (cases rule: ledger_item_cases [where k = "message_key m"]) auto
next
  case (tried q1)
  let ?k = "message_key m" and ?T = "dl_table L"
  have u: "ui_Key (begin_request L ?k (attempt_lease m t) t ttl) = dynamoKey ?k" by (simp add: begin_request_def)
  note out = ok_Update(2) [OF assms(1) u tried(1)]
  show ?thesis
  proof (cases "isl q1")
    case True
    then obtain rec where rec: "getRecord L ?k d' = Inr (Some rec)" "classifyCompletedUploadLedgerRecord rec t = Inr r"
      and ccf: "isConditionalCheckFailed (projl q1)" using tried(2) by auto
    have wf: "ledger_wf (tab d') ?T" using begin_tables [OF assms(3) out] assms(3) by auto
    obtain a x where v: "ledger_view (tab d') ?T ?k = Some (lr_State rec, a, x)"
        "\<forall>e. x = Some e \<and> in_int64 e \<longrightarrow> ProcessingExpiresAt rec = time_UnixMilli e"
      using read_record [OF assms(2) wf rec(1)] by blast
    have rng: "x = Some e \<Longrightarrow> in_int64 e" for e
      using begin_tables [OF assms(3) out] v(1) assms(5,7) by auto
    from begin_refused [OF assms(3) out True ccf] show ?thesis
    proof (elim disjE exE conjE)
      fix a' assume "ledger_view (tab d') ?T ?k = Some (LedgerStateCommitted, a', None)"
      then show ?thesis using v(1) rec(2) by (auto simp: classifyCompletedUploadLedgerRecord_def)
    next
      fix a' e assume "ledger_view (tab d') ?T ?k = Some (LedgerStateProcessing, a', Some e)" "UnixMilli t < e"
      then show ?thesis using v rng rec(2) by (auto simp: classifyCompletedUploadLedgerRecord_def Before_def)
    next
      fix a' e assume "ledger_view (tab d') ?T ?k = Some (LedgerStateProcessing, a', Some e)" "e = UnixMilli (t + ttl)"
      then show ?thesis using v rng rec(2) assms(6) by (auto simp: classifyCompletedUploadLedgerRecord_def Before_def)
    qed
  next
    case False
    then show ?thesis using tried(2) begin_tables [OF assms(3) out] by auto
  qed
qed

definition synced_ledger :: "(tables \<times> tables) dynamoDBCompletedUploadLedger" where
  "synced_ledger = \<lparr>dl_client = synced_dynamo, dl_table = ''ledger''\<rparr>"

theorem dynamo_ledger_consistent_reads_witness:
  "\<exists>r. dl_BeginProcessing synced_ledger None (20 * millisecond) sample_cu (20 * millisecond) (10 * millisecond)
       (with_item done_item, with_item (ledger_item ''w'' 5)) = (Inr r, with_item done_item, with_item (ledger_item ''w'' 5)) \<and>
     AlreadyCommitted r \<and> (\<exists>a. ledger_view (with_item done_item) ''ledger'' (message_key sample_cu) = Some (LedgerStateCommitted, a, None))"
proof -
  let ?d = "(with_item done_item, with_item (ledger_item ''w'' 5))"
  let ?r = "\<lparr>AlreadyCommitted = True, br_Lease = zero_lease\<rparr>"
  have s: "dl_client synced_ledger = synced_dynamo" "dl_table synced_ledger = ''ledger''" by (simp_all add: synced_ledger_def)
  have ok: "dynamo_ok (dl_client synced_ledger) fst" "reads_ok (dl_client synced_ledger) fst" by (simp_all add: s synced_dynamo_ok)
  have g: "getRecord synced_ledger (message_key sample_cu) ?d = Inr (Some (ledgerRecordFromItem done_item))"
    using ok(2) by (simp add: getRecord_def s reads_ok_def) (simp add: done_item_def)
  have b: "dl_BeginProcessing synced_ledger None (20 * millisecond) sample_cu (20 * millisecond) (10 * millisecond) ?d = (Inr ?r, ?d)"
    unfolding begin_unfold [OF sample_begin_valid] g
    by (simp add: classifyCompletedUploadLedgerRecord_def ledgerRecordFromItem_def done_item_def)
  have wf: "ledger_wf (fst ?d) (dl_table synced_ledger)" by (simp add: with_item_wf s)
  have "if AlreadyCommitted ?r then \<exists>a. ledger_view (fst ?d) (dl_table synced_ledger) (message_key sample_cu) = Some (LedgerStateCommitted, a, None)
     else pl_AttemptID (br_Lease ?r) \<noteq> '''' \<and> ledger_view (fst ?d) (dl_table synced_ledger) (message_key sample_cu)
       = Some (LedgerStateProcessing, pl_AttemptID (br_Lease ?r), Some (UnixMilli (20 * millisecond + 10 * millisecond)))"
    by (rule dynamo_ledger_consistent_reads [OF ok wf b])
      (simp_all add: s UnixMilli_def millisecond_def in_int64_def max_int64_def ledger_view_def done_item_def)
  with b show ?thesis by (simp add: s)
qed

definition race_worker :: "(memoryCompletedUploadQueue, tables \<times> tables, nat) worker" where
  "race_worker = \<lparr>wk_leader = wk_leader (flying_worker False), wk_ledger = race_won, wk_diag = wk_diag sample_worker,
     wk_clientsServed = 0, wk_batchSize = 1, wk_errorBackoff = 1, wk_ttl = 10 * millisecond, wk_demoFail = False,
     wk_demoFailed = False, wk_world = 0\<rparr>"

text \<open>C13: With the reads that the code asks for, two workers can process one upload at the same time. There is a service
  that keeps \<open>dynamo_ok\<close> and a moment at which one worker has taken an expired lease over for ten
  milliseconds, and a second worker, one millisecond later, is told by \<^verbatim>\<open>BeginProcessing\<close> to go on
  (success, not committed, an empty lease): its failed conditional write is followed by a second
  stale read, which still shows the expired record. The worker applies the upload.\<close>

theorem dynamo_ledger_stale_read_processes_twice:
  "dynamo_ok (dl_client toy_ledger) fst \<and>
   dl_BeginProcessing toy_ledger None (20 * millisecond) sample_cu (20 * millisecond) (10 * millisecond) race_start
     = (Inr \<lparr>AlreadyCommitted = False, br_Lease = attempt_lease sample_cu (20 * millisecond)\<rparr>, race_won) \<and>
   dl_BeginProcessing toy_ledger None (21 * millisecond) sample_cu (21 * millisecond) (10 * millisecond) race_won
     = (Inr no_grant, race_won) \<and>
   wk_world (snd (processIngestionJob mem_queue_ops (dynamo_ledger_ops toy_ledger) count_fns (21 * millisecond) sample_item race_worker))
     = Suc (wk_world race_worker)"
proof (intro conjI)
  have m: "(Message_of sample_item)\<lparr>m_ReplicaID := ld_replicaID (wk_leader race_worker)\<rparr> = sample_cu"
    using flying_key [of False] by (simp add: race_worker_def)
  have b: "lo_begin (dynamo_ledger_ops toy_ledger) sample_cu (21 * millisecond) (wk_ttl race_worker) (wk_ledger race_worker)
      = (Inr no_grant, race_won)"
    using race_second by (simp add: dynamo_ledger_ops_def race_worker_def)
  have "\<exists>e. lo_complete (dynamo_ledger_ops toy_ledger) (br_Lease no_grant) (21 * millisecond) race_won = (Inl e, race_won)"
    by (auto simp: dynamo_ledger_ops_def dl_CompleteProcessing_def no_grant_def zero_lease_def
        validateCompletedUploadLedgerIdentity_def)
  then show "wk_world (snd (processIngestionJob mem_queue_ops (dynamo_ledger_ops toy_ledger) count_fns (21 * millisecond) sample_item race_worker))
     = Suc (wk_world race_worker)"
    unfolding processIngestionJob_def Let_def m b
    by (auto simp: count_fns_def complete_job_def recordIngestionProcessed_def recordCompletedUploadLedgerError_def race_worker_def)
qed (simp_all add: toy_dynamo_ok race_first race_second)

end
