(* ===== verification/SQS_Queue.thy ===== *)
theory SQS_Queue
  imports Leader_Control Dynamo_Table
begin

text \<open>
  The queue of completed uploads on Amazon SQS and S3 (\<^verbatim>\<open>src/db/ingestion_sqs.go\<close>, \<^verbatim>\<open>src/db/ingestion_payload.go\<close>): the payload of
  an upload is an S3 object named after its identity, and the queue carries a pointer to it.

  The two services are parameters, records of the calls of the interfaces \<^verbatim>\<open>SQSCompletedUploadClient\<close> and
  \<^verbatim>\<open>S3CompletedUploadPayloadClient\<close> over one state; \<open>sqs_ok\<close> and \<open>s3_ok\<close> say what their documentation
  promises: a message that was sent is handed out, unchanged, any number of times and in any order
  until it is deleted, and a read of an object returns what was written last. A call that fails
  may have taken effect. \<^verbatim>\<open>encoding/json\<close> is the parameter \<open>upload_codec\<close> with its round trip for texts of
  ASCII characters.

  Shown here: whatever is delivered for an upload is the message that was enqueued for it; a wrong
  pointer or payload is refused; and when the queue's attributes cannot be read, a leader takes the
  queue for drained and starts the merge.
\<close>

section \<open>Data\<close>

record completedUploadPointerMessage =
  pt_SchemaVersion :: int
  pt_EpochID :: int
  pt_ShardID :: int
  pt_Uuid :: int
  pt_Bucket :: string
  pt_Key :: string
  pt_EnqueuedAt :: gotime

record completedUploadPayloadReference =
  ref_Bucket :: string
  ref_Key :: string

record completedUploadPayloadEnvelope =
  ev_SchemaVersion :: int
  ev_EncodedAt :: gotime
  ev_Message :: CompletedUploadMessage

definition completedUploadPointerSchemaVersion :: int where "completedUploadPointerSchemaVersion = 1"
definition completedUploadPayloadSchemaVersion :: int where "completedUploadPayloadSchemaVersion = 1"
definition defaultSQSCompletedUploadWaitSeconds :: int where "defaultSQSCompletedUploadWaitSeconds = 10"
definition defaultSQSCompletedUploadVisibilityTimeoutSeconds :: int where
  "defaultSQSCompletedUploadVisibilityTimeoutSeconds = 300"

record upload_codec =
  Marshal_pointer :: "completedUploadPointerMessage \<Rightarrow> string res"
  Unmarshal_pointer :: "string \<Rightarrow> completedUploadPointerMessage res"
  Marshal_envelope :: "completedUploadPayloadEnvelope \<Rightarrow> byte list res"
  Unmarshal_envelope :: "byte list \<Rightarrow> completedUploadPayloadEnvelope res"

record sqs_message =
  sm_Body :: "string option"
  sm_ReceiptHandle :: "string option"

record 's sqs =
  SendMessage :: "string \<Rightarrow> string \<Rightarrow> 's \<Rightarrow> string option res \<times> 's"
  ReceiveMessage :: "string \<Rightarrow> int \<Rightarrow> int \<Rightarrow> int \<Rightarrow> 's \<Rightarrow> sqs_message list res \<times> 's"
  DeleteMessage :: "string \<Rightarrow> string \<Rightarrow> 's \<Rightarrow> unit res \<times> 's"
  GetQueueAttributes :: "string \<Rightarrow> string list \<Rightarrow> 's \<Rightarrow> (string, string) gomap res"

record 's s3 =
  PutObject :: "string \<Rightarrow> string \<Rightarrow> byte list \<Rightarrow> 's \<Rightarrow> unit res \<times> 's"
  GetObject :: "string \<Rightarrow> string \<Rightarrow> 's \<Rightarrow> byte list res"   \<comment> \<open>with the \<open>io.ReadAll\<close> of the body\<close>

record 's s3CompletedUploadPayloadStore =
  ps_client :: "'s s3"
  ps_bucket :: string

record 's sqsCompletedUploadQueue =
  sq_client :: "'s sqs"
  sq_payloadStore :: "'s s3CompletedUploadPayloadStore"
  sq_queueURL :: string
  sq_standbyQueueURL :: string
  sq_waitTimeSeconds :: int
  sq_visibilityTimeoutSeconds :: int

record SQSCompletedUploadQueueOptions =
  op_WaitTimeSeconds :: int
  op_VisibilityTimeoutSeconds :: int
  op_StandbyQueueURL :: string

definition newS3CompletedUploadPayloadStore :: "'s s3 option \<Rightarrow> string \<Rightarrow> 's s3CompletedUploadPayloadStore res" where
  "newS3CompletedUploadPayloadStore client bucket =
     (case client of
        None \<Rightarrow> Inl (ErrorString ''s3 payload client is required'')
      | Some client \<Rightarrow>
          if bucket = '''' then Inl (ErrorString ''s3 payload bucket is required'')
          else Inr \<lparr>ps_client = client, ps_bucket = bucket\<rparr>)"

definition newSQSCompletedUploadQueueWithPayloadStore ::
  "'s sqs option \<Rightarrow> 's s3CompletedUploadPayloadStore option \<Rightarrow> string \<Rightarrow> SQSCompletedUploadQueueOptions
     \<Rightarrow> 's sqsCompletedUploadQueue res" where
  "newSQSCompletedUploadQueueWithPayloadStore sqsClient payloadStore queueURL options =
     (case sqsClient of None \<Rightarrow> Inl (ErrorString ''sqs completed upload client is required'') | Some client \<Rightarrow>
      case payloadStore of None \<Rightarrow> Inl (ErrorString ''completed upload payload store is required'') | Some store \<Rightarrow>
      if queueURL = '''' then Inl (ErrorString ''sqs completed upload queue url is required'')
      else
      let visibility = (if op_VisibilityTimeoutSeconds options = 0
             then defaultSQSCompletedUploadVisibilityTimeoutSeconds else op_VisibilityTimeoutSeconds options)
      in if op_WaitTimeSeconds options < 0 \<or> op_WaitTimeSeconds options > 20
         then Inl (ErrorString ''sqs completed upload wait seconds must be between 0 and 20'')
         else if visibility \<le> 0
         then Inl (ErrorString ''sqs completed upload visibility timeout seconds must be positive'')
         else Inr \<lparr>sq_client = client, sq_payloadStore = store, sq_queueURL = queueURL,
                   sq_standbyQueueURL = op_StandbyQueueURL options, sq_waitTimeSeconds = op_WaitTimeSeconds options,
                   sq_visibilityTimeoutSeconds = visibility\<rparr>)"

definition NewSQSCompletedUploadQueueWithOptions ::
  "'s sqs option \<Rightarrow> 's s3 option \<Rightarrow> string \<Rightarrow> string \<Rightarrow> SQSCompletedUploadQueueOptions \<Rightarrow> 's sqsCompletedUploadQueue res" where
  "NewSQSCompletedUploadQueueWithOptions sqsClient s3Client queueURL payloadBucket options =
     (case newS3CompletedUploadPayloadStore s3Client payloadBucket of
        Inl err \<Rightarrow> Inl err
      | Inr payloadStore \<Rightarrow> newSQSCompletedUploadQueueWithPayloadStore sqsClient (Some payloadStore) queueURL options)"

definition NewSQSCompletedUploadQueue ::
  "'s sqs option \<Rightarrow> 's s3 option \<Rightarrow> string \<Rightarrow> string \<Rightarrow> 's sqsCompletedUploadQueue res" where
  "NewSQSCompletedUploadQueue sqsClient s3Client queueURL payloadBucket =
     NewSQSCompletedUploadQueueWithOptions sqsClient s3Client queueURL payloadBucket
       \<lparr>op_WaitTimeSeconds = defaultSQSCompletedUploadWaitSeconds,
        op_VisibilityTimeoutSeconds = defaultSQSCompletedUploadVisibilityTimeoutSeconds, op_StandbyQueueURL = ''''\<rparr>"

section \<open>Payloads\<close>

definition encodeCompletedUploadPayload :: "upload_codec \<Rightarrow> gotime \<Rightarrow> CompletedUploadMessage \<Rightarrow> byte list res" where
  "encodeCompletedUploadPayload J clock message =
     Marshal_envelope J \<lparr>ev_SchemaVersion = completedUploadPayloadSchemaVersion, ev_EncodedAt = clock, ev_Message = message\<rparr>"

definition decodeCompletedUploadPayload :: "upload_codec \<Rightarrow> byte list \<Rightarrow> CompletedUploadMessage res" where
  "decodeCompletedUploadPayload J data =
     (case Unmarshal_envelope J data of
        Inl err \<Rightarrow> Inl err
      | Inr envelope \<Rightarrow>
          if ev_SchemaVersion envelope \<noteq> completedUploadPayloadSchemaVersion
          then Inl (ErrorString (''unsupported completed upload payload schema version '' @ show_int (ev_SchemaVersion envelope)))
          else if m_EpochID (ev_Message envelope) \<le> 0
          then Inl (ErrorString ''completed upload payload epoch id must be positive'')
          else if m_Uuid (ev_Message envelope) \<le> 0
          then Inl (ErrorString ''completed upload payload uuid must be positive'')
          else Inr (ev_Message envelope))"

definition payload_path :: "int \<times> int \<times> int \<Rightarrow> string" where
  "payload_path = (\<lambda>(shard, ep, uuid). ''completed-uploads/shard-'' @ show_int shard @ ''/epoch-'' @ show_int ep
     @ ''/uuid-'' @ show_int uuid @ ''.json'')"

definition completedUploadPayloadKey :: "CompletedUploadMessage \<Rightarrow> string res" where
  "completedUploadPayloadKey message =
     (if m_ShardID message < 0 then Inl (ErrorString ''completed upload payload shard id must be non-negative'')
      else if m_EpochID message \<le> 0 then Inl (ErrorString ''completed upload payload epoch id must be positive'')
      else if m_Uuid message \<le> 0 then Inl (ErrorString ''completed upload payload uuid must be positive'')
      else Inr (payload_path (m_ShardID message, m_EpochID message, m_Uuid message)))"

definition ps_Put ::
  "upload_codec \<Rightarrow> 's s3CompletedUploadPayloadStore \<Rightarrow> gotime \<Rightarrow> CompletedUploadMessage \<Rightarrow> 's
     \<Rightarrow> completedUploadPayloadReference res \<times> 's" where
  "ps_Put J P clock message s =
     (case completedUploadPayloadKey message of
        Inl err \<Rightarrow> (Inl err, s)
      | Inr key \<Rightarrow>
      case encodeCompletedUploadPayload J clock message of
        Inl err \<Rightarrow> (Inl err, s)
      | Inr payload \<Rightarrow>
          (case PutObject (ps_client P) (ps_bucket P) key payload s of
             (Inl err, s) \<Rightarrow> (Inl err, s)
           | (Inr _, s) \<Rightarrow> (Inr \<lparr>ref_Bucket = ps_bucket P, ref_Key = key\<rparr>, s)))"

definition ps_Get ::
  "upload_codec \<Rightarrow> 's s3CompletedUploadPayloadStore \<Rightarrow> completedUploadPayloadReference \<Rightarrow> 's \<Rightarrow> CompletedUploadMessage res" where
  "ps_Get J P ref s =
     (if ref_Bucket ref = '''' \<or> ref_Key ref = ''''
      then Inl (ErrorString ''completed upload payload reference requires bucket and key'')
      else case GetObject (ps_client P) (ref_Bucket ref) (ref_Key ref) s of
             Inl err \<Rightarrow> Inl err
           | Inr data \<Rightarrow> decodeCompletedUploadPayload J data)"

section \<open>Pointers\<close>

definition encodeCompletedUploadPointer :: "upload_codec \<Rightarrow> gotime \<Rightarrow> completedUploadPointerMessage \<Rightarrow> string res" where
  "encodeCompletedUploadPointer J clock pointer =
     (let pointer = (if pt_SchemaVersion pointer = 0
            then pointer\<lparr>pt_SchemaVersion := completedUploadPointerSchemaVersion\<rparr> else pointer)
      in if pt_SchemaVersion pointer \<noteq> completedUploadPointerSchemaVersion
      then Inl (ErrorString (''unsupported completed upload pointer schema version '' @ show_int (pt_SchemaVersion pointer)))
      else if pt_EpochID pointer \<le> 0 then Inl (ErrorString ''completed upload pointer epoch id must be positive'')
      else if pt_ShardID pointer < 0 then Inl (ErrorString ''completed upload pointer shard id must be non-negative'')
      else if pt_Uuid pointer \<le> 0 then Inl (ErrorString ''completed upload pointer uuid must be positive'')
      else if pt_Bucket pointer = '''' \<or> pt_Key pointer = ''''
      then Inl (ErrorString ''completed upload pointer requires payload bucket and key'')
      else Marshal_pointer J (if IsZero (pt_EnqueuedAt pointer) then pointer\<lparr>pt_EnqueuedAt := clock\<rparr> else pointer))"

definition decodeCompletedUploadPointer :: "upload_codec \<Rightarrow> string \<Rightarrow> completedUploadPointerMessage res" where
  "decodeCompletedUploadPointer J body =
     (case Unmarshal_pointer J body of
        Inl err \<Rightarrow> Inl err
      | Inr pointer \<Rightarrow>
          if pt_SchemaVersion pointer \<noteq> completedUploadPointerSchemaVersion
          then Inl (ErrorString (''unsupported completed upload pointer schema version '' @ show_int (pt_SchemaVersion pointer)))
          else if pt_EpochID pointer \<le> 0 then Inl (ErrorString ''completed upload pointer epoch id must be positive'')
          else if pt_ShardID pointer < 0 then Inl (ErrorString ''completed upload pointer shard id must be non-negative'')
          else if pt_Uuid pointer \<le> 0 then Inl (ErrorString ''completed upload pointer uuid must be positive'')
          else if pt_Bucket pointer = '''' \<or> pt_Key pointer = ''''
          then Inl (ErrorString ''completed upload pointer requires payload bucket and key'')
          else Inr pointer)"

section \<open>The queue\<close>

definition sendPointer :: "'s sqsCompletedUploadQueue \<Rightarrow> string \<Rightarrow> string \<Rightarrow> 's \<Rightarrow> string option res \<times> 's" where
  "sendPointer q queueURL body s = SendMessage (sq_client q) queueURL body s"

text \<open>Sending to the standby queue, if there is one, comes first.\<close>

definition sqs_Enqueue ::
  "upload_codec \<Rightarrow> 's sqsCompletedUploadQueue \<Rightarrow> go_error option \<Rightarrow> gotime \<Rightarrow> CompletedUploadMessage \<Rightarrow> 's \<Rightarrow> string res \<times> 's" where
  "sqs_Enqueue J q ctx clock message s =
     (case ctx of Some err \<Rightarrow> (Inl err, s) | None \<Rightarrow>
      let message = (if IsZero (m_EnqueuedAt message) then message\<lparr>m_EnqueuedAt := clock\<rparr> else message)
      in case ps_Put J (sq_payloadStore q) clock message s of
        (Inl err, s) \<Rightarrow> (Inl err, s)
      | (Inr ref, s) \<Rightarrow>
      case encodeCompletedUploadPointer J clock
             \<lparr>pt_SchemaVersion = 0, pt_EpochID = m_EpochID message, pt_ShardID = m_ShardID message, pt_Uuid = m_Uuid message,
              pt_Bucket = ref_Bucket ref, pt_Key = ref_Key ref, pt_EnqueuedAt = m_EnqueuedAt message\<rparr> of
        Inl err \<Rightarrow> (Inl err, s)
      | Inr body \<Rightarrow>
      case (if sq_standbyQueueURL q \<noteq> '''' then sendPointer q (sq_standbyQueueURL q) body s else (Inr None, s)) of
        (Inl err, s) \<Rightarrow> (Inl err, s)
      | (Inr _, s) \<Rightarrow>
      case sendPointer q (sq_queueURL q) body s of
        (Inl err, s) \<Rightarrow> (Inl err, s)
      | (Inr None, s) \<Rightarrow> (Inr '''', s)
      | (Inr (Some messageId), s) \<Rightarrow> (Inr messageId, s))"

fun received_items :: "upload_codec \<Rightarrow> 's sqsCompletedUploadQueue \<Rightarrow> 's \<Rightarrow> sqs_message list \<Rightarrow> QueuedCompletedUploadMessage list res" where
  "received_items J q s [] = Inr []"
| "received_items J q s (raw # raws) =
     (case sm_Body raw of None \<Rightarrow> Inl (ErrorString ''sqs completed upload message missing body'') | Some body \<Rightarrow>
      case sm_ReceiptHandle raw of None \<Rightarrow> Inl (ErrorString ''sqs completed upload message missing receipt handle'') | Some receipt \<Rightarrow>
      case decodeCompletedUploadPointer J body of Inl err \<Rightarrow> Inl err | Inr pointer \<Rightarrow>
      case ps_Get J (sq_payloadStore q) \<lparr>ref_Bucket = pt_Bucket pointer, ref_Key = pt_Key pointer\<rparr> s of
        Inl err \<Rightarrow> Inl err
      | Inr msg \<Rightarrow>
      case received_items J q s raws of Inl err \<Rightarrow> Inl err
      | Inr items \<Rightarrow> Inr (\<lparr>Message_of = msg, ReceiptHandle = receipt\<rparr> # items))"

definition sqs_Receive ::
  "upload_codec \<Rightarrow> 's sqsCompletedUploadQueue \<Rightarrow> int \<Rightarrow> 's \<Rightarrow> QueuedCompletedUploadMessage list res \<times> 's" where
  "sqs_Receive J q maxMessages s =
     (if maxMessages \<le> 0 then (Inl (ErrorString ''receive max messages must be positive''), s)
      else
      let maxMessages = (if maxMessages > 10 then 10 else maxMessages)
      in case ReceiveMessage (sq_client q) (sq_queueURL q) maxMessages (sq_waitTimeSeconds q) (sq_visibilityTimeoutSeconds q) s of
           (Inl err, s) \<Rightarrow> (Inl err, s)
         | (Inr raws, s) \<Rightarrow> (received_items J q s raws, s))"

definition sqs_Ack :: "'s sqsCompletedUploadQueue \<Rightarrow> string \<Rightarrow> 's \<Rightarrow> unit res \<times> 's" where
  "sqs_Ack q receiptHandle s =
     (if receiptHandle = '''' then (Inl (ErrorString ''sqs completed upload receipt handle is required''), s)
      else DeleteMessage (sq_client q) (sq_queueURL q) receiptHandle s)"

definition parseSQSApproximateCount :: "string \<Rightarrow> int" where
  "parseSQSApproximateCount value =
     (if value = '''' then 0
      else case ParseInt value of Inl _ \<Rightarrow> 0 | Inr n \<Rightarrow> if n < 0 then 0 else n)"

definition sqs_Stats :: "'s sqsCompletedUploadQueue \<Rightarrow> 's \<Rightarrow> IngestionQueueStats" where
  "sqs_Stats q s =
     (case GetQueueAttributes (sq_client q) (sq_queueURL q)
             [''ApproximateNumberOfMessages'', ''ApproximateNumberOfMessagesNotVisible''] s of
        Inl err \<Rightarrow> \<lparr>Depth = 0, Inflight = 0\<rparr>
      | Inr attrs \<Rightarrow>
          (let value = (\<lambda>n. case gm_get attrs n of None \<Rightarrow> '''' | Some v \<Rightarrow> v)
           in \<lparr>Depth = parseSQSApproximateCount (value ''ApproximateNumberOfMessages''),
               Inflight = parseSQSApproximateCount (value ''ApproximateNumberOfMessagesNotVisible'')\<rparr>))"

definition sqs_queue_ops :: "upload_codec \<Rightarrow> 's sqsCompletedUploadQueue \<Rightarrow> 's queue_ops" where
  "sqs_queue_ops J q = \<lparr>q_enqueue = (\<lambda>t m s. sqs_Enqueue J q None t m s), q_receive = (\<lambda>n s. Some (sqs_Receive J q n s)),
     q_ack = sqs_Ack q, q_stats = sqs_Stats q\<rparr>"

section \<open>What the services promise\<close>

type_synonym objects = "string \<Rightarrow> string \<rightharpoonup> byte list"
type_synonym pending = "string \<Rightarrow> string multiset"

text \<open>\<open>pend s url\<close> are the bodies of the messages sent to a queue and not deleted, \<open>objs s\<close> the objects.\<close>

definition sqs_ok :: "'s sqs \<Rightarrow> ('s \<Rightarrow> pending) \<Rightarrow> ('s \<Rightarrow> objects) \<Rightarrow> bool" where
  "sqs_ok Q pend objs \<longleftrightarrow>
     (\<forall>url body s. case SendMessage Q url body s of (r, s') \<Rightarrow> objs s' = objs s \<and>
        (isl r \<and> pend s' = pend s \<or> pend s' = (pend s)(url := add_mset body (pend s url)))) \<and>
     (\<forall>url n w v s. case ReceiveMessage Q url n w v s of (r, s') \<Rightarrow> objs s' = objs s \<and> pend s' = pend s \<and>
        (\<forall>ms x b. r = Inr ms \<and> x \<in> set ms \<and> sm_Body x = Some b \<longrightarrow> b \<in># pend s url)) \<and>
     (\<forall>url h s. case DeleteMessage Q url h s of (r, s') \<Rightarrow> objs s' = objs s \<and>
        (\<forall>url'. pend s' url' \<subseteq># pend s url'))"

definition s3_ok :: "'s s3 \<Rightarrow> ('s \<Rightarrow> pending) \<Rightarrow> ('s \<Rightarrow> objects) \<Rightarrow> bool" where
  "s3_ok O3 pend objs \<longleftrightarrow>
     (\<forall>b k data s. case PutObject O3 b k data s of (r, s') \<Rightarrow> pend s' = pend s \<and>
        (isl r \<and> objs s' = objs s \<or> objs s' = (objs s)(b := (objs s b)(k \<mapsto> data)))) \<and>
     (\<forall>b k data s. GetObject O3 b k s = Inr data \<longrightarrow> objs s b k = Some data)"

definition ascii :: "string \<Rightarrow> bool" where
  "ascii s \<longleftrightarrow> list_all (\<lambda>c. (of_char c :: nat) < 128) s"

definition upload_codec_ok :: "upload_codec \<Rightarrow> bool" where
  "upload_codec_ok J \<longleftrightarrow>
     (\<forall>p body. ascii (pt_Bucket p) \<longrightarrow> ascii (pt_Key p) \<longrightarrow> Marshal_pointer J p = Inr body \<longrightarrow> Unmarshal_pointer J body = Inr p) \<and>
     (\<forall>e data. ascii (m_ID (ev_Message e)) \<longrightarrow> ascii (m_ReplicaID (ev_Message e)) \<longrightarrow>
        Marshal_envelope J e = Inr data \<longrightarrow> Unmarshal_envelope J data = Inr e)"

section \<open>Names of payloads\<close>

lemma is_digit_show: "c \<in> set (show_nat n) \<Longrightarrow> is_digit c"
  using set_show_nat is_digit_char by blast

lemma slash_notin_show_int [simp]: "CHR ''/'' \<notin> set (show_int i)" "CHR ''.'' \<notin> set (show_int i)"
  by (auto simp: show_int_def is_digit_def dest!: is_digit_show)

lemma payload_path_inject [simp]: "payload_path a = payload_path b \<longleftrightarrow> a = b"
proof
  obtain s e u s' e' u' where ab: "a = (s, e, u)" "b = (s', e', u')" by (cases a; cases b) auto
  assume "payload_path a = payload_path b"
  then have "show_int s @ CHR ''/'' # ''epoch-'' @ show_int e @ ''/uuid-'' @ show_int u @ ''.json''
      = show_int s' @ CHR ''/'' # ''epoch-'' @ show_int e' @ ''/uuid-'' @ show_int u' @ ''.json''"
    by (simp add: payload_path_def ab)
  from append_sep_inject [OF this] have s: "s = s'"
    and "show_int e @ CHR ''/'' # ''uuid-'' @ show_int u @ ''.json'' = show_int e' @ CHR ''/'' # ''uuid-'' @ show_int u' @ ''.json''"
    by simp_all
  from append_sep_inject [OF this(2)] have e: "e = e'"
    and "show_int u @ ''.json'' = show_int u' @ ''.json''" by simp_all
  then show "a = b" using s by (simp add: ab)
qed simp

lemma ascii_simps [simp]: "ascii []" "ascii (c # s) \<longleftrightarrow> (of_char c :: nat) < 128 \<and> ascii s" "ascii (s @ t) \<longleftrightarrow> ascii s \<and> ascii t"
  by (simp_all add: ascii_def)

lemma ascii_show_int [simp]: "ascii (show_int i)"
  by (auto simp: show_int_def ascii_def list_all_iff is_digit_def dest!: is_digit_show)

lemma ascii_path [simp]: "ascii (payload_path x)"
  by (cases x) (simp add: payload_path_def)

section \<open>What is in the queue\<close>

text \<open>Every payload is named after the identity of the message in it, and every pending pointer names the payload
  of the identity that it carries.\<close>

definition named_payloads :: "upload_codec \<Rightarrow> string \<Rightarrow> objects \<Rightarrow> bool" where
  "named_payloads J bucket ob \<longleftrightarrow> (\<forall>i data m. ob bucket (payload_path i) = Some data \<longrightarrow>
     decodeCompletedUploadPayload J data = Inr m \<longrightarrow> upload_id m = i)"

definition named_pointers :: "upload_codec \<Rightarrow> string \<Rightarrow> string multiset \<Rightarrow> bool" where
  "named_pointers J bucket bodies \<longleftrightarrow> (\<forall>body \<in># bodies. \<exists>p. Unmarshal_pointer J body = Inr p \<and> pt_Bucket p = bucket \<and>
     pt_Key p = payload_path (pt_ShardID p, pt_EpochID p, pt_Uuid p))"

definition sqs_wf :: "upload_codec \<Rightarrow> 's sqsCompletedUploadQueue \<Rightarrow> ('s \<Rightarrow> pending) \<Rightarrow> ('s \<Rightarrow> objects) \<Rightarrow> 's \<Rightarrow> bool" where
  "sqs_wf J q pend objs s \<longleftrightarrow> named_payloads J (ps_bucket (sq_payloadStore q)) (objs s) \<and>
     named_pointers J (ps_bucket (sq_payloadStore q)) (pend s (sq_queueURL q))"

definition sent_message :: "gotime \<Rightarrow> CompletedUploadMessage \<Rightarrow> CompletedUploadMessage" where
  "sent_message t m = (if IsZero (m_EnqueuedAt m) then m\<lparr>m_EnqueuedAt := t\<rparr> else m)"

lemma sent_message_simps [simp]:
  "upload_id (sent_message t m) = upload_id m" "m_ID (sent_message t m) = m_ID m" "m_ReplicaID (sent_message t m) = m_ReplicaID m"
  by (simp_all add: sent_message_def upload_id_def)

text \<open>The payload of an upload, and that it decodes to a given message.\<close>

definition holds_payload :: "upload_codec \<Rightarrow> string \<Rightarrow> objects \<Rightarrow> CompletedUploadMessage \<Rightarrow> bool" where
  "holds_payload J bucket ob m \<longleftrightarrow> (\<exists>data. ob bucket (payload_path (upload_id m)) = Some data \<and>
     decodeCompletedUploadPayload J data = Inr m)"

lemma payload_decodes:
  assumes "upload_codec_ok J" "encodeCompletedUploadPayload J t m = Inr data" "completedUploadPayloadKey m = Inr k"
    and "ascii (m_ID m)" "ascii (m_ReplicaID m)"
  shows "decodeCompletedUploadPayload J data = Inr m" "k = payload_path (upload_id m)"
proof -
  have "Unmarshal_envelope J data
      = Inr \<lparr>ev_SchemaVersion = completedUploadPayloadSchemaVersion, ev_EncodedAt = t, ev_Message = m\<rparr>"
    using assms(1,2,4,5) by (simp add: upload_codec_ok_def encodeCompletedUploadPayload_def)
  then show "decodeCompletedUploadPayload J data = Inr m"
    using assms(3) by (auto simp: decodeCompletedUploadPayload_def completedUploadPayloadKey_def split: if_splits)
  show "k = payload_path (upload_id m)"
    using assms(3) by (auto simp: completedUploadPayloadKey_def upload_id_def split: if_splits)
qed

lemma Put_effect:
  assumes o: "s3_ok (ps_client P) pend objs" and J: "upload_codec_ok J" "ascii (m_ID m)" "ascii (m_ReplicaID m)"
    and p: "ps_Put J P t m s = (r, s')"
  shows "pend s' = pend s \<and>
     (isl r \<and> objs s' = objs s \<or>
      (\<exists>data. objs s' = (objs s)(ps_bucket P := (objs s (ps_bucket P))(payload_path (upload_id m) \<mapsto> data)) \<and>
         decodeCompletedUploadPayload J data = Inr m \<and>
         (\<forall>ref. r = Inr ref \<longrightarrow> ref = \<lparr>ref_Bucket = ps_bucket P, ref_Key = payload_path (upload_id m)\<rparr>)))"
proof (cases "completedUploadPayloadKey m")
  case (Inr k)
  show ?thesis
  proof (cases "encodeCompletedUploadPayload J t m")
    case data: (Inr data)
    note d = payload_decodes [OF J(1) data Inr J(2,3)]
    obtain r1 s1 where u: "PutObject (ps_client P) (ps_bucket P) k data s = (r1, s1)" by fastforce
    have out: "pend s1 = pend s \<and> (isl r1 \<and> objs s1 = objs s \<or> objs s1 = (objs s)(ps_bucket P := (objs s (ps_bucket P))(k \<mapsto> data)))"
      using o u unfolding s3_ok_def by (auto split: prod.splits)
    have "s' = s1" "isl r = isl r1" "\<forall>ref. r = Inr ref \<longrightarrow> ref = \<lparr>ref_Bucket = ps_bucket P, ref_Key = k\<rparr>"
      using p u by (cases r1; auto simp: ps_Put_def Inr data)+
    then show ?thesis using out d by auto
  next
    case (Inl e)
    then show ?thesis using p by (auto simp: ps_Put_def Inr)
  qed
next
  case (Inl e)
  then show ?thesis using p by (auto simp: ps_Put_def)
qed

lemma Send_effect:
  assumes "sqs_ok (sq_client q) pend objs" "sendPointer q url body s = (r, s')"
  shows "objs s' = objs s \<and> (isl r \<and> pend s' = pend s \<or> pend s' = (pend s)(url := add_mset body (pend s url)))"
  using assms unfolding sqs_ok_def sendPointer_def by (auto split: prod.splits)

lemma named_pointers_add:
  "named_pointers J b M \<Longrightarrow> \<exists>p. Unmarshal_pointer J body = Inr p \<and> pt_Bucket p = b \<and>
     pt_Key p = payload_path (pt_ShardID p, pt_EpochID p, pt_Uuid p) \<Longrightarrow> named_pointers J b (add_mset body M)"
  by (auto simp: named_pointers_def)

lemma Send_wf:
  assumes "sqs_ok (sq_client q) pend objs" "sqs_wf J q pend objs s" "sendPointer q url body s = (r, s')"
    and "\<exists>p. Unmarshal_pointer J body = Inr p \<and> pt_Bucket p = ps_bucket (sq_payloadStore q) \<and>
       pt_Key p = payload_path (pt_ShardID p, pt_EpochID p, pt_Uuid p)"
  shows "sqs_wf J q pend objs s'" "objs s' = objs s"
  using Send_effect [OF assms(1,3)] assms(2,4) by (auto simp: sqs_wf_def named_pointers_add)

lemma encode_pointer:
  assumes "upload_codec_ok J" "ascii (pt_Bucket p)" "ascii (pt_Key p)" "encodeCompletedUploadPointer J t p = Inr body" "pt_SchemaVersion p = 0"
  shows "\<exists>p'. Unmarshal_pointer J body = Inr p' \<and> pt_Bucket p' = pt_Bucket p \<and> pt_Key p' = pt_Key p \<and>
     pt_ShardID p' = pt_ShardID p \<and> pt_EpochID p' = pt_EpochID p \<and> pt_Uuid p' = pt_Uuid p"
proof -
  define p' where "p' = (if IsZero (pt_EnqueuedAt p) then p\<lparr>pt_SchemaVersion := 1, pt_EnqueuedAt := t\<rparr> else p\<lparr>pt_SchemaVersion := 1\<rparr>)"
  have "Marshal_pointer J p' = Inr body"
    using assms(4,5) by (auto simp: encodeCompletedUploadPointer_def completedUploadPointerSchemaVersion_def p'_def Let_def
        split: if_splits)
  moreover have "ascii (pt_Bucket p')" "ascii (pt_Key p')" using assms(2,3) by (simp_all add: p'_def)
  ultimately have "Unmarshal_pointer J body = Inr p'" using assms(1) by (simp add: upload_codec_ok_def)
  then show ?thesis by (auto simp: p'_def)
qed

lemma enqueue_effect:
  assumes q: "sqs_ok (sq_client q) pend objs" and o: "s3_ok (ps_client (sq_payloadStore q)) pend objs"
    and J: "upload_codec_ok J" "ascii (ps_bucket (sq_payloadStore q))" "ascii (m_ID m)" "ascii (m_ReplicaID m)"
    and wf: "sqs_wf J q pend objs s" and e: "sqs_Enqueue J q None t m s = (r, s')"
  shows "sqs_wf J q pend objs s' \<and>
     (\<forall>i. i \<noteq> upload_id m \<longrightarrow> objs s' (ps_bucket (sq_payloadStore q)) (payload_path i) = objs s (ps_bucket (sq_payloadStore q)) (payload_path i)) \<and>
     (\<forall>x. r = Inr x \<longrightarrow> holds_payload J (ps_bucket (sq_payloadStore q)) (objs s') (sent_message t m))"
proof -
  let ?B = "ps_bucket (sq_payloadStore q)"
  define M where "M = sent_message t m"
  have eq: "sqs_Enqueue J q None t m s =
     (case ps_Put J (sq_payloadStore q) t M s of
        (Inl err, s) \<Rightarrow> (Inl err, s)
      | (Inr ref, s) \<Rightarrow>
      case encodeCompletedUploadPointer J t
             \<lparr>pt_SchemaVersion = 0, pt_EpochID = m_EpochID M, pt_ShardID = m_ShardID M, pt_Uuid = m_Uuid M,
              pt_Bucket = ref_Bucket ref, pt_Key = ref_Key ref, pt_EnqueuedAt = m_EnqueuedAt M\<rparr> of
        Inl err \<Rightarrow> (Inl err, s)
      | Inr body \<Rightarrow>
      case (if sq_standbyQueueURL q \<noteq> '''' then sendPointer q (sq_standbyQueueURL q) body s else (Inr None, s)) of
        (Inl err, s) \<Rightarrow> (Inl err, s)
      | (Inr _, s) \<Rightarrow>
      case sendPointer q (sq_queueURL q) body s of
        (Inl err, s) \<Rightarrow> (Inl err, s)
      | (Inr None, s) \<Rightarrow> (Inr '''', s)
      | (Inr (Some messageId), s) \<Rightarrow> (Inr messageId, s))"
    unfolding sqs_Enqueue_def Let_def option.case M_def sent_message_def by (rule refl)
  have M: "upload_id M = upload_id m" "m_ID M = m_ID m" "m_ReplicaID M = m_ReplicaID m" by (simp_all add: M_def)
  obtain r1 s1 where p: "ps_Put J (sq_payloadStore q) t M s = (r1, s1)" by fastforce
  have put: "sqs_wf J q pend objs s1 \<and> (\<forall>i. i \<noteq> upload_id m \<longrightarrow> objs s1 ?B (payload_path i) = objs s ?B (payload_path i)) \<and>
      (\<not> isl r1 \<longrightarrow> holds_payload J ?B (objs s1) M \<and> r1 = Inr \<lparr>ref_Bucket = ?B, ref_Key = payload_path (upload_id m)\<rparr>)"
    using Put_effect [OF o J(1) _ _ p] J(3,4) wf M
    by (cases r1) (auto simp: sqs_wf_def named_payloads_def holds_payload_def split: if_splits)
  show ?thesis
  proof (cases r1)
    case (Inl err)
    then show ?thesis using e [unfolded eq p] put by auto
  next
    case (Inr ref)
    have ref: "ref = \<lparr>ref_Bucket = ?B, ref_Key = payload_path (upload_id m)\<rparr>" using put Inr by simp
    let ?p = "\<lparr>pt_SchemaVersion = 0, pt_EpochID = m_EpochID M, pt_ShardID = m_ShardID M,
       pt_Uuid = m_Uuid M, pt_Bucket = ?B, pt_Key = payload_path (upload_id m), pt_EnqueuedAt = m_EnqueuedAt M\<rparr>"
    have id: "upload_id m = (m_ShardID M, m_EpochID M, m_Uuid M)"
      using M(1) by (simp only: upload_id_def)
    show ?thesis
    proof (cases "encodeCompletedUploadPointer J t ?p")
      case (Inl err)
      then show ?thesis using e [unfolded eq p Inr ref] put by auto
    next
      case body: (Inr body)
      have bp: "\<exists>p. Unmarshal_pointer J body = Inr p \<and> pt_Bucket p = ?B \<and> pt_Key p = payload_path (pt_ShardID p, pt_EpochID p, pt_Uuid p)"
        using encode_pointer [OF J(1) _ _ body] J(2) id by auto
      obtain r2 s2 where sb: "(if sq_standbyQueueURL q \<noteq> '''' then sendPointer q (sq_standbyQueueURL q) body s1 else (Inr None, s1)) = (r2, s2)"
        by fastforce
      have w2: "sqs_wf J q pend objs s2" "objs s2 = objs s1"
        using sb Send_wf [OF q conjunct1 [OF put] _ bp] put by (auto split: if_splits)
      obtain r3 s3 where sa: "sendPointer q (sq_queueURL q) body s2 = (r3, s3)" by fastforce
      have w3: "sqs_wf J q pend objs s3" "objs s3 = objs s2" using Send_wf [OF q w2(1) sa bp] by auto
      have "s' = s2 \<or> s' = s3"
        using e [unfolded eq p Inr ref] body sb sa by (simp split: sum.splits option.splits)
      then show ?thesis using w2 w3 put Inr by (auto simp: M_def)
    qed
  qed
qed

lemma s3_get: "s3_ok O3 pend objs \<Longrightarrow> GetObject O3 b k s = Inr data \<Longrightarrow> objs s b k = Some data"
  by (simp add: s3_ok_def)

lemma receive_effect:
  assumes q: "sqs_ok (sq_client q) pend objs" and o: "s3_ok (ps_client (sq_payloadStore q)) pend objs"
    and wf: "sqs_wf J q pend objs s" and e: "sqs_Receive J q n s = (r, s')"
  shows "sqs_wf J q pend objs s'" "objs s' = objs s"
    and "\<And>items x. r = Inr items \<Longrightarrow> x \<in> set items \<Longrightarrow>
       (\<exists>data. objs s (ps_bucket (sq_payloadStore q)) (payload_path (upload_id (Message_of x))) = Some data \<and>
          decodeCompletedUploadPayload J data = Inr (Message_of x))"
proof -
  let ?B = "ps_bucket (sq_payloadStore q)"
  obtain r1 s1 where v: "ReceiveMessage (sq_client q) (sq_queueURL q) (if n > 10 then 10 else n) (sq_waitTimeSeconds q)
      (sq_visibilityTimeoutSeconds q) s = (r1, s1)" by fastforce
  have rv: "objs s1 = objs s" "pend s1 = pend s" "\<forall>ms x b. r1 = Inr ms \<and> x \<in> set ms \<and> sm_Body x = Some b \<longrightarrow> b \<in># pend s (sq_queueURL q)"
    using q v unfolding sqs_ok_def by (auto split: prod.splits)
  have s': "s' = s \<or> s' = s1" "\<And>items. r = Inr items \<Longrightarrow> s' = s1 \<and> (\<exists>raws. r1 = Inr raws \<and> received_items J q s1 raws = Inr items)"
    using e v by (auto simp: sqs_Receive_def Let_def split: if_splits sum.splits)
  then show "sqs_wf J q pend objs s'" "objs s' = objs s" using wf rv by (auto simp: sqs_wf_def)
  have items: "\<exists>data. objs s ?B (payload_path (upload_id (Message_of x))) = Some data \<and> decodeCompletedUploadPayload J data = Inr (Message_of x)"
    if "received_items J q s1 raws = Inr items" "x \<in> set items" "\<forall>y \<in> set raws. \<forall>b. sm_Body y = Some b \<longrightarrow> b \<in># pend s (sq_queueURL q)" for raws items x
    using that
  proof (induction raws arbitrary: items)
    case (Cons raw raws)
    obtain body receipt p msg rest where raw: "sm_Body raw = Some body" "decodeCompletedUploadPointer J body = Inr p"
        "ps_Get J (sq_payloadStore q) \<lparr>ref_Bucket = pt_Bucket p, ref_Key = pt_Key p\<rparr> s1 = Inr msg"
        "received_items J q s1 raws = Inr rest" "items = \<lparr>Message_of = msg, ReceiptHandle = receipt\<rparr> # rest"
      using Cons.prems(1) by (auto split: option.splits sum.splits)
    have up: "Unmarshal_pointer J body = Inr p" using raw(2) by (auto simp: decodeCompletedUploadPointer_def split: sum.splits if_splits)
    have "body \<in># pend s (sq_queueURL q)" using Cons.prems(3) raw(1) by simp
    then have pw: "pt_Bucket p = ?B" "pt_Key p = payload_path (pt_ShardID p, pt_EpochID p, pt_Uuid p)"
      using wf up by (auto simp: sqs_wf_def named_pointers_def)
    obtain data where data: "objs s ?B (pt_Key p) = Some data" "decodeCompletedUploadPayload J data = Inr msg"
      using raw(3) rv(1) pw(1) by (auto simp: ps_Get_def split: if_splits sum.splits dest: s3_get [OF o])
    have "upload_id msg = (pt_ShardID p, pt_EpochID p, pt_Uuid p)"
      using wf data pw(2) by (auto simp: sqs_wf_def named_payloads_def)
    then have "objs s ?B (payload_path (upload_id msg)) = Some data" using data(1) pw(2) by simp
    then show ?case using Cons.IH [OF raw(4)] Cons.prems(2,3) raw(5) data(2) by auto
  qed simp
  show "\<exists>data. objs s ?B (payload_path (upload_id (Message_of x))) = Some data \<and> decodeCompletedUploadPayload J data = Inr (Message_of x)"
    if r: "r = Inr items" and x: "x \<in> set items" for items x
  proof -
    obtain raws where raws: "r1 = Inr raws" "received_items J q s1 raws = Inr items" using s'(2) [OF r] by blast
    have "\<forall>y \<in> set raws. \<forall>b. sm_Body y = Some b \<longrightarrow> b \<in># pend s (sq_queueURL q)" using rv(3) raws(1) by simp
    then show ?thesis by (rule items [OF raws(2) x])
  qed
qed

lemma ack_effect:
  assumes q: "sqs_ok (sq_client q) pend objs" and wf: "sqs_wf J q pend objs s"
  shows "sqs_wf J q pend objs (snd (sqs_Ack q h s)) \<and> objs (snd (sqs_Ack q h s)) = objs s"
proof (cases "h = ''''")
  case False
  obtain r s' where d: "DeleteMessage (sq_client q) (sq_queueURL q) h s = (r, s')" by fastforce
  have "objs s' = objs s" "pend s' (sq_queueURL q) \<subseteq># pend s (sq_queueURL q)"
    using q d unfolding sqs_ok_def by (auto split: prod.splits)
  then show ?thesis using wf d False by (auto simp: sqs_Ack_def sqs_wf_def named_pointers_def dest: mset_subset_eqD)
qed (use wf in \<open>simp add: sqs_Ack_def\<close>)

section \<open>Histories\<close>

fun sqs_step :: "upload_codec \<Rightarrow> 's sqsCompletedUploadQueue \<Rightarrow> queue_op \<Rightarrow> 's \<Rightarrow> 's" where
  "sqs_step J q (OpEnqueue m t) s = snd (sqs_Enqueue J q None t m s)"
| "sqs_step J q (OpReceive n) s = snd (sqs_Receive J q n s)"
| "sqs_step J q (OpAck h) s = snd (sqs_Ack q h s)"

abbreviation sqs_run :: "upload_codec \<Rightarrow> 's sqsCompletedUploadQueue \<Rightarrow> queue_op list \<Rightarrow> 's \<Rightarrow> 's" where
  "sqs_run J q \<equiv> fold (sqs_step J q)"

text \<open>The messages that a history enqueues, and that their texts are ASCII.\<close>

fun enqueues :: "queue_op \<Rightarrow> CompletedUploadMessage option" where
  "enqueues (OpEnqueue m t) = Some m"
| "enqueues (OpReceive n) = None"
| "enqueues (OpAck h) = None"

definition plain_text :: "CompletedUploadMessage \<Rightarrow> bool" where
  "plain_text m \<longleftrightarrow> ascii (m_ID m) \<and> ascii (m_ReplicaID m)"

text \<open>The services, the codec and the bucket that a queue works with.\<close>

definition queue_setup_ok ::
  "upload_codec \<Rightarrow> 's sqsCompletedUploadQueue \<Rightarrow> ('s \<Rightarrow> pending) \<Rightarrow> ('s \<Rightarrow> objects) \<Rightarrow> bool" where
  "queue_setup_ok J q pend objs \<longleftrightarrow> sqs_ok (sq_client q) pend objs \<and> s3_ok (ps_client (sq_payloadStore q)) pend objs \<and>
     upload_codec_ok J \<and> ascii (ps_bucket (sq_payloadStore q))"

lemma step_effect:
  assumes S: "queue_setup_ok J q pend objs" and wf: "sqs_wf J q pend objs s"
    and plain: "\<And>m. enqueues a = Some m \<Longrightarrow> plain_text m"
  shows "sqs_wf J q pend objs (sqs_step J q a s)"
    and "\<And>i. (\<And>m. enqueues a = Some m \<Longrightarrow> upload_id m \<noteq> i) \<Longrightarrow>
       objs (sqs_step J q a s) (ps_bucket (sq_payloadStore q)) (payload_path i) = objs s (ps_bucket (sq_payloadStore q)) (payload_path i)"
proof -
  note S' = S [unfolded queue_setup_ok_def]
  have "sqs_wf J q pend objs (sqs_step J q a s) \<and> (\<forall>i. (\<forall>m. enqueues a = Some m \<longrightarrow> upload_id m \<noteq> i) \<longrightarrow>
       objs (sqs_step J q a s) (ps_bucket (sq_payloadStore q)) (payload_path i) = objs s (ps_bucket (sq_payloadStore q)) (payload_path i))"
  proof (cases a)
    case (OpEnqueue m t)
    obtain r s' where e: "sqs_Enqueue J q None t m s = (r, s')" by fastforce
    show ?thesis using enqueue_effect [OF _ _ _ _ _ _ wf e] S' plain [of m] by (auto simp: OpEnqueue e plain_text_def)
  next
    case (OpReceive n)
    obtain r s' where e: "sqs_Receive J q n s = (r, s')" by fastforce
    show ?thesis using receive_effect(1,2) [OF _ _ wf e] S' by (simp add: OpReceive e)
  next
    case (OpAck h)
    show ?thesis using ack_effect [OF _ wf] S' by (simp add: OpAck)
  qed
  then show "sqs_wf J q pend objs (sqs_step J q a s)"
    "\<And>i. (\<And>m. enqueues a = Some m \<Longrightarrow> upload_id m \<noteq> i) \<Longrightarrow>
       objs (sqs_step J q a s) (ps_bucket (sq_payloadStore q)) (payload_path i) = objs s (ps_bucket (sq_payloadStore q)) (payload_path i)"
    by blast+
qed

lemma run_effect:
  assumes S: "queue_setup_ok J q pend objs"
  shows "sqs_wf J q pend objs s \<Longrightarrow> \<forall>m \<in> set (List.map_filter enqueues ops). plain_text m \<Longrightarrow> sqs_wf J q pend objs (sqs_run J q ops s)"
    and "sqs_wf J q pend objs s \<Longrightarrow> \<forall>m \<in> set (List.map_filter enqueues ops). plain_text m \<and> upload_id m \<noteq> i \<Longrightarrow>
       objs (sqs_run J q ops s) (ps_bucket (sq_payloadStore q)) (payload_path i) = objs s (ps_bucket (sq_payloadStore q)) (payload_path i)"
proof (induction ops arbitrary: s)
  case (Cons a ops)
  { case 1
    then show ?case using Cons.IH(1) step_effect(1) [OF S 1(1), of a] by (simp add: map_filter_simps split: option.splits)
  next
    case 2
    then show ?case using Cons.IH(2) step_effect [OF S 2(1), of a] by (simp add: map_filter_simps split: option.splits) }
qed simp_all

text \<open>C32: Round trip through SQS and S3. Start with an empty queue and no payloads, let the queue be used in any
  way, and enqueue an upload successfully. However the queue is used from then on (messages may be
  received repeatedly, calls may fail with or without an effect), as long as the upload is not
  enqueued a second time, everything delivered for it is the message that was enqueued, with the
  time of the call if it had none.\<close>

theorem sqs_round_trip:
  assumes S: "queue_setup_ok J q pend objs"
    and start: "pend s0 (sq_queueURL q) = {#}" "objs s0 (ps_bucket (sq_payloadStore q)) = Map.empty"
    and plain: "\<forall>m' \<in> set (List.map_filter enqueues earlier). plain_text m'" "plain_text m"
      "\<forall>m' \<in> set (List.map_filter enqueues later). plain_text m' \<and> upload_id m' \<noteq> upload_id m"
    and e: "sqs_Enqueue J q None t m (sqs_run J q earlier s0) = (Inr messageID, s1)"
    and r: "sqs_Receive J q n (sqs_run J q later s1) = (Inr items, s2)"
    and x: "x \<in> set items" "upload_id (Message_of x) = upload_id m"
  shows "Message_of x = sent_message t m"
proof -
  let ?B = "ps_bucket (sq_payloadStore q)" and ?s = "sqs_run J q later s1"
  note S' = S [unfolded queue_setup_ok_def]
  have "sqs_wf J q pend objs s0" using start by (simp add: sqs_wf_def named_payloads_def named_pointers_def)
  from run_effect(1) [OF S this plain(1)] have "sqs_wf J q pend objs (sqs_run J q earlier s0)" .
  then have s1: "sqs_wf J q pend objs s1" "holds_payload J ?B (objs s1) (sent_message t m)"
    using enqueue_effect [where pend = pend and objs = objs, OF _ _ _ _ _ _ _ e] S' plain(2) by (auto simp: plain_text_def)
  have s: "sqs_wf J q pend objs ?s" "objs ?s ?B (payload_path (upload_id m)) = objs s1 ?B (payload_path (upload_id m))"
    using run_effect [OF S s1(1)] plain(3) by simp_all
  obtain data where "objs ?s ?B (payload_path (upload_id m)) = Some data" "decodeCompletedUploadPayload J data = Inr (Message_of x)"
    using receive_effect(3) [OF _ _ s(1) r refl x(1)] S' x(2) by auto
  then show ?thesis using s1(2) s(2) by (simp add: holds_payload_def)
qed

section \<open>Instances of the services\<close>

text \<open>Queues and buckets kept in memory: a message is delivered until it is deleted, and its receipt handle is its
  body. The second argument says whether \<^verbatim>\<open>GetQueueAttributes\<close> can be reached.\<close>

type_synonym toy_cloud = "(string \<times> string) list \<times> ((string \<times> string) \<times> byte list) list"

definition toy_pend :: "toy_cloud \<Rightarrow> pending" where
  "toy_pend c url = mset (map snd (filter (\<lambda>x. fst x = url) (fst c)))"

definition toy_objs :: "toy_cloud \<Rightarrow> objects" where
  "toy_objs c b k = map_of (snd c) (b, k)"

definition toy_sqs :: "bool \<Rightarrow> toy_cloud sqs" where
  "toy_sqs reachable = \<lparr>
     SendMessage = (\<lambda>url body c. (Inr (Some ''message''), (fst c @ [(url, body)], snd c))),
     ReceiveMessage = (\<lambda>url n w v c. (Inr (map (\<lambda>x. \<lparr>sm_Body = Some (snd x), sm_ReceiptHandle = Some (snd x)\<rparr>)
        (take (nat n) (filter (\<lambda>x. fst x = url) (fst c)))), c)),
     DeleteMessage = (\<lambda>url h c. (Inr (), (filter (\<lambda>x. x \<noteq> (url, h)) (fst c), snd c))),
     GetQueueAttributes = (\<lambda>url names c. if reachable
        then Inr [(''ApproximateNumberOfMessages'', show_int (int (length (filter (\<lambda>x. fst x = url) (fst c)))))]
        else Inl (ErrorString ''RequestTimeout''))\<rparr>"

definition toy_s3 :: "toy_cloud s3" where
  "toy_s3 = \<lparr>PutObject = (\<lambda>b k data c. (Inr (), (fst c, ((b, k), data) # snd c))),
     GetObject = (\<lambda>b k c. case map_of (snd c) (b, k) of None \<Rightarrow> Inl (ErrorString ''NoSuchKey'') | Some data \<Rightarrow> Inr data)\<rparr>"

lemma toy_services_ok: "sqs_ok (toy_sqs reachable) toy_pend toy_objs" "s3_ok toy_s3 toy_pend toy_objs"
proof -
  have kept: "toy_pend (filter (\<lambda>x. x \<noteq> (url, h)) xs, os) url' \<subseteq># toy_pend (xs, os) url'" for url' url h xs os
  proof -
    have "filter (\<lambda>x. fst x = url') (filter (\<lambda>x. x \<noteq> (url, h)) xs) = filter (\<lambda>x. x \<noteq> (url, h)) (filter (\<lambda>x. fst x = url') xs)"
      by (simp add: conj_commute)
    then show ?thesis by (simp only: toy_pend_def fst_conv mset_map mset_filter image_mset_subseteq_mono multiset_filter_subset)
  qed
  have sent: "toy_pend (xs @ [(url, b)], os) = (toy_pend (xs, os))(url := add_mset b (toy_pend (xs, os) url))" for xs url b os
    by (simp add: toy_pend_def fun_eq_iff)
  have held: "b \<in># toy_pend (xs, os) url" if "(u, b) \<in> set (take n (filter (\<lambda>x. fst x = url) xs))" for u b n url xs os
    using in_set_takeD [OF that] by (force simp: toy_pend_def)
  have objs: "toy_objs (xs, os) = toy_objs (ys, os)" for xs ys os by (simp add: toy_objs_def fun_eq_iff)
  show "sqs_ok (toy_sqs reachable) toy_pend toy_objs"
    using objs by (auto simp: sqs_ok_def toy_sqs_def kept sent held)
  show "s3_ok toy_s3 toy_pend toy_objs"
    by (auto simp: s3_ok_def toy_s3_def toy_objs_def toy_pend_def fun_eq_iff split: option.splits)
qed

text \<open>A codec that encodes one upload and refuses all others.\<close>

definition sample_queued :: CompletedUploadMessage where
  "sample_queued = session_message active_leader 9 [] [] sample_args1 \<lparr>a2_Uuid = 9, a2_HashKey = [], a2_Query = []\<rparr>
     \<lparr>a3_Uuid = 9, a3_HashKey = [], a3_Query = []\<rparr>"

definition sample_pointer :: completedUploadPointerMessage where
  "sample_pointer = \<lparr>pt_SchemaVersion = 1, pt_EpochID = 1, pt_ShardID = 0, pt_Uuid = 9, pt_Bucket = ''payloads'',
     pt_Key = payload_path (0, 1, 9), pt_EnqueuedAt = 5\<rparr>"

definition sample_envelope :: completedUploadPayloadEnvelope where
  "sample_envelope = \<lparr>ev_SchemaVersion = 1, ev_EncodedAt = 5, ev_Message = sent_message 5 sample_queued\<rparr>"

definition sample_codec :: upload_codec where
  "sample_codec = \<lparr>
     Marshal_pointer = (\<lambda>p. if p = sample_pointer then Inr ''pointer'' else Inl (ErrorString ''json'')),
     Unmarshal_pointer = (\<lambda>b. if b = ''pointer'' then Inr sample_pointer else Inl (ErrorString ''json'')),
     Marshal_envelope = (\<lambda>e. if e = sample_envelope then Inr [1] else Inl (ErrorString ''json'')),
     Unmarshal_envelope = (\<lambda>d. if d = [1] then Inr sample_envelope else Inl (ErrorString ''json''))\<rparr>"

definition toy_queue :: "bool \<Rightarrow> toy_cloud sqsCompletedUploadQueue" where
  "toy_queue reachable = \<lparr>sq_client = toy_sqs reachable, sq_payloadStore = \<lparr>ps_client = toy_s3, ps_bucket = ''payloads''\<rparr>,
     sq_queueURL = ''active'', sq_standbyQueueURL = ''standby'', sq_waitTimeSeconds = 10, sq_visibilityTimeoutSeconds = 300\<rparr>"

lemma toy_setup: "queue_setup_ok sample_codec (toy_queue reachable) toy_pend toy_objs"
  using toy_services_ok by (auto simp: queue_setup_ok_def toy_queue_def upload_codec_ok_def sample_codec_def split: if_splits)

definition filled_cloud :: toy_cloud where
  "filled_cloud = ([(''standby'', ''pointer''), (''active'', ''pointer'')], [((''payloads'', payload_path (0, 1, 9)), [1])])"

lemma sample_upload_fields:
  "m_EpochID (sent_message 5 sample_queued) = 1" "m_ShardID (sent_message 5 sample_queued) = 0"
  "m_Uuid (sent_message 5 sample_queued) = 9" "m_EnqueuedAt (sent_message 5 sample_queued) = 5"
  by (simp_all add: sent_message_def sample_queued_def session_message_def active_leader_def sample_leader_def IsZero_def)

lemma sample_enqueue:
  "sqs_Enqueue sample_codec (toy_queue reachable) None 5 sample_queued ([], []) = (Inr ''message'', filled_cloud)"
proof -
  have e: "encodeCompletedUploadPayload sample_codec 5 (sent_message 5 sample_queued) = Inr [1]"
    by (simp add: encodeCompletedUploadPayload_def completedUploadPayloadSchemaVersion_def sample_codec_def sample_envelope_def)
  have k: "completedUploadPayloadKey (sent_message 5 sample_queued) = Inr (payload_path (0, 1, 9))"
    by (simp add: completedUploadPayloadKey_def sample_upload_fields)
  have p: "encodeCompletedUploadPointer sample_codec 5 \<lparr>pt_SchemaVersion = 0, pt_EpochID = 1, pt_ShardID = 0, pt_Uuid = 9,
      pt_Bucket = ''payloads'', pt_Key = payload_path (0, 1, 9), pt_EnqueuedAt = 5\<rparr> = Inr ''pointer''"
    by (simp add: encodeCompletedUploadPointer_def completedUploadPointerSchemaVersion_def payload_path_def IsZero_def
        sample_codec_def sample_pointer_def)
  show ?thesis
    unfolding sqs_Enqueue_def option.case Let_def sent_message_def [symmetric]
    by (simp add: ps_Put_def e k p sample_upload_fields toy_queue_def toy_s3_def toy_sqs_def sendPointer_def filled_cloud_def)
qed

lemma sample_receive:
  "sqs_Receive sample_codec (toy_queue reachable) 20 filled_cloud
     = (Inr [\<lparr>Message_of = sent_message 5 sample_queued, ReceiptHandle = ''pointer''\<rparr>], filled_cloud)"
proof -
  have d: "decodeCompletedUploadPayload sample_codec [1] = Inr (sent_message 5 sample_queued)"
    by (simp add: decodeCompletedUploadPayload_def completedUploadPayloadSchemaVersion_def sample_codec_def sample_envelope_def
        sample_upload_fields)
  have p: "decodeCompletedUploadPointer sample_codec ''pointer'' = Inr sample_pointer" "pt_Bucket sample_pointer = ''payloads''"
      "pt_Key sample_pointer = payload_path (0, 1, 9)" "payload_path (0, 1, 9) \<noteq> ''''"
    by (simp_all add: decodeCompletedUploadPointer_def completedUploadPointerSchemaVersion_def sample_codec_def sample_pointer_def
        payload_path_def)
  show ?thesis by (simp add: sqs_Receive_def toy_queue_def toy_sqs_def toy_s3_def filled_cloud_def ps_Get_def d p)
qed

theorem sqs_round_trip_witness:
  "Message_of \<lparr>Message_of = sent_message 5 sample_queued, ReceiptHandle = ''pointer''\<rparr> = sent_message 5 sample_queued"
proof (rule sqs_round_trip [OF toy_setup [of True], where ?s0.0 = "([], [])" and earlier = "[OpReceive 3]" and t = 5 and
      later = "[OpReceive 20]" and n = 20])
  have empty: "sqs_step sample_codec (toy_queue True) (OpReceive 3) ([], []) = ([], [])"
    by (simp add: sqs_Receive_def toy_queue_def toy_sqs_def)
  show "sqs_Enqueue sample_codec (toy_queue True) None 5 sample_queued (sqs_run sample_codec (toy_queue True) [OpReceive 3] ([], []))
      = (Inr ''message'', filled_cloud)"
    by (simp only: fold_simps empty sample_enqueue id_apply)
  show "sqs_Receive sample_codec (toy_queue True) 20 (sqs_run sample_codec (toy_queue True) [OpReceive 20] filled_cloud)
      = (Inr [\<lparr>Message_of = sent_message 5 sample_queued, ReceiptHandle = ''pointer''\<rparr>], filled_cloud)"
    by (simp add: sample_receive)
qed (simp_all add: toy_pend_def toy_objs_def toy_queue_def fun_eq_iff plain_text_def map_filter_simps sample_queued_def
    session_message_def)

text \<open>C40: A leader that closes an epoch without open sessions starts the merge as soon as it cannot read the attributes
  of its SQS queue: \<^verbatim>\<open>Stats\<close> answers a failed \<^verbatim>\<open>GetQueueAttributes\<close> with zeros, which the leader takes for a
  drained queue, whatever is still queued.\<close>

theorem sqs_stats_error_starts_merge:
  assumes "GetQueueAttributes (sq_client q) (sq_queueURL q)
       [''ApproximateNumberOfMessages'', ''ApproximateNumberOfMessagesNotVisible''] (ld_queue s) = Inl err"
    and "ep_State (epoch (ld_ctl s)) = EpochStateClosing" "accepted (ld_ctl s) = []"
    and "ingestionQueueDrainedCommand (sqs_queue_ops J q) s = (ns, s')"
  shows "ep_State (epoch (ld_ctl s')) = EpochStateMerging \<and> ld_queue s' = ld_queue s"
  using assms by (auto simp: ingestionQueueDrainedCommand_def startMergeIfDrained_def ingestionQueueDrained_def sqs_queue_ops_def
      sqs_Stats_def Let_def)

definition closing_leader :: "toy_cloud leader" where
  "closing_leader = \<lparr>ld_ServerIdx = 0, ld_ShardID = 0, ld_replicaID = ''active'', ld_standbyFanout = False,
     ld_globalRowStart = 0, ld_rpcClients = [True, True], ld_queue = filled_cloud,
     ld_ctl = initial_runtime\<lparr>epoch := no_epoch\<lparr>ep_ID := 1, ep_State := EpochStateClosing\<rparr>\<rparr>\<rparr>"

theorem sqs_stats_error_starts_merge_witness:
  "\<exists>s'. snd (ingestionQueueDrainedCommand (sqs_queue_ops sample_codec (toy_queue False)) closing_leader) = s' \<and>
     ep_State (epoch (ld_ctl s')) = EpochStateMerging \<and> ''pointer'' \<in># toy_pend (ld_queue s') ''active''"
proof -
  obtain ns s' where c: "ingestionQueueDrainedCommand (sqs_queue_ops sample_codec (toy_queue False)) closing_leader = (ns, s')"
    by fastforce
  have "ep_State (epoch (ld_ctl s')) = EpochStateMerging \<and> ld_queue s' = ld_queue closing_leader"
    by (rule sqs_stats_error_starts_merge [OF _ _ _ c])
      (simp_all add: closing_leader_def initial_runtime_def toy_queue_def toy_sqs_def)
  moreover have "''pointer'' \<in># toy_pend filled_cloud ''active''" by (simp add: toy_pend_def filled_cloud_def image_iff)
  ultimately show ?thesis using c by (simp add: closing_leader_def)
qed

end
