(* ===== verification/Hex_Text.thy ===== *)
theory Hex_Text
  imports Riposte_Prelude
begin

text \<open>
  \<^verbatim>\<open>encoding/hex\<close>: the text of fingerprints and hash keys in the DynamoDB store and of the embedded server
  keys. Decoding reverses encoding; a text that decodes has twice as many characters as the result has bytes.
\<close>

definition hex_digit :: "nat \<Rightarrow> char" where
  "hex_digit n = char_of (if n < 10 then 48 + n else 87 + n)"

definition EncodeToString :: "byte list \<Rightarrow> string" where
  "EncodeToString bs = concat (map (\<lambda>b. [hex_digit (unat b div 16), hex_digit (unat b mod 16)]) bs)"

definition hex_value :: "char \<Rightarrow> nat option" where
  "hex_value c =
     (let n = (of_char c :: nat) in
      if 48 \<le> n \<and> n \<le> 57 then Some (n - 48)
      else if 97 \<le> n \<and> n \<le> 102 then Some (n - 87)
      else if 65 \<le> n \<and> n \<le> 70 then Some (n - 55) else None)"

fun DecodeString :: "string \<Rightarrow> byte list option" where
  "DecodeString [] = Some []"
| "DecodeString [c] = None"
| "DecodeString (c # c' # s) =
     (case (hex_value c, hex_value c', DecodeString s) of
        (Some h, Some l, Some bs) \<Rightarrow> Some (word_of_nat (16 * h + l) # bs)
      | _ \<Rightarrow> None)"

lemma hex_value_digit: "n < 16 \<Longrightarrow> hex_value (hex_digit n) = Some n"
  by (simp add: hex_value_def hex_digit_def Let_def)

lemma Decode_Encode [simp]: "DecodeString (EncodeToString bs) = Some bs"
proof (induction bs)
  case (Cons b bs)
  have "unat b < 256" using unsigned_less [of b, where ?'a = nat] by simp
  then have "hex_value (hex_digit (unat b div 16)) = Some (unat b div 16)"
    "hex_value (hex_digit (unat b mod 16)) = Some (unat b mod 16)"
    by (auto intro: hex_value_digit)
  then show ?case using Cons by (simp add: EncodeToString_def)
qed (simp add: EncodeToString_def)

lemma length_DecodeString: "DecodeString s = Some bs \<Longrightarrow> length s = 2 * length bs"
  by (induction s arbitrary: bs rule: DecodeString.induct) (auto split: option.splits)

end
