(* ===== verification/Transport.thy ===== *)
theory Transport
  imports Write_Protocol Hex_Text
begin

text \<open>
  The keys of the servers and the TLS connections between processes (\<^verbatim>\<open>src/utils/keys.go\<close>,
  \<^verbatim>\<open>src/utils/rpc.go\<close>).

  A certificate is its encoding; a TLS configuration is what the code sets of \<^verbatim>\<open>tls.Config\<close>. Of the
  handshake the model keeps what \<^verbatim>\<open>crypto/tls\<close> documents: the client sees the certificate of the server
  (which it does not verify, \<^verbatim>\<open>InsecureSkipVerify\<close>), and a server with \<^verbatim>\<open>RequireAnyClientCert\<close> admits exactly
  the clients that present some certificate. The network is an argument that tells which server
  configuration answers at an address. The PEM texts of the certificates and the functions of
  \<^verbatim>\<open>crypto/tls\<close>, \<^verbatim>\<open>crypto/x509\<close> and NaCl that parse and combine keys are arguments; the box keys are the
  texts of the source. \<open>Err\<close> is the end of the process by \<^verbatim>\<open>log.Fatal\<close> where the function has no error of
  its own.

  Shown here: the embedded box keys load; a client that names accepted certificates connects only
  to a server that presents one of them; and a follower, which means to admit only its leader, admits
  every client that has any certificate.
\<close>

section \<open>Keys\<close>

record Certificate =
  cert_Certificate :: "byte list list"
  cert_PrivateKey :: "byte list"
  cert_Leaf :: "byte list option"

record pki =
  X509KeyPair :: "string \<Rightarrow> string \<Rightarrow> Certificate res"
  ParseCertificates :: "byte list \<Rightarrow> byte list list res"
  Precompute :: "byte list \<Rightarrow> byte list \<Rightarrow> byte list"

text \<open>A key pair that loads has a certificate, which parses to itself; its leaf is that certificate if it is
  filled in (as it is since Go 1.23).\<close>

definition pki_ok :: "pki \<Rightarrow> bool" where
  "pki_ok K \<longleftrightarrow> (\<forall>c k cert. X509KeyPair K c k = Inr cert \<longrightarrow> (\<exists>der chain. cert_Certificate cert = der # chain \<and>
     ParseCertificates K der = Inr [der] \<and> (cert_Leaf cert = None \<or> cert_Leaf cert = Some der)))"

definition serverBoxPublicHex :: "string list" where
  "serverBoxPublicHex =
    [''25e7a9139b43eb5d6ef39a5069d597d6b9d353bd5fbae3f3df3d316d5c61bc5c'',
     ''077e8ae1bfb51ab8b8e76df4ee29ec0902b3777bef1c5d6b82697f53c54d2504'',
     ''7f14438b4092f8d478beffcc610a295331350752efcb4790366d864ba7fbd511'',
     ''354743620132eb5de8686e62570850015bd2f26532802e2cfd63afd7ef480377'',
     ''6632f896d0751a3f4bf96da84d8bb3a24d41de6074c1a1b83022526f68fba755'',
     ''acf3aeb872d324acdf819c4b44495044f01ba14d4a3718cc881a77779d105d19'',
     ''28494083f96f10ab2311d03befa6e55f7ba98ccecf08cb976d573dcdca4c6166'',
     ''b31a6715e5f7a01b70e3bb303ebb00a65564fb331274349e821fd788db9a555b'',
     ''fcf7183219816a2a28d8c4a169b12ab336717e0f3a998415670a2eec80dfe31c'']"

definition serverBoxPrivateHex :: "string list" where
  "serverBoxPrivateHex =
    [''464b531592c58a12652b0dd9a3325c59c0e48a2f3dd31aaec81b1e892f07e9a9'',
     ''f8c86766dac706e8900c0eca59ef6212dee9a4c32ef4b115d9f11f225bc48379'',
     ''f62d683d3681985913a50f62412ee90115351b8e0636356e44005e9f2d9870ab'',
     ''52fc8e19e54bd654fbc30f080cb29dabba2ca6a187ecb216609d007d26030e53'',
     ''f4cd1678e76c21bcbfa4c74cbfc81400f8fba240692c80e5afe9594a859187db'',
     ''a32a99f819355dcbfee58439c4fffacad22e6835f2066bbf8a5878e7cf92b375'',
     ''f9272567e991c5a2edd08d201e8d9991f3a6519b46b1680e13c06b9907b3e27f'',
     ''42708fe3599f675feb648bd4205527efc1626d6f630d83422e56f439fe24749a'',
     ''00f17096c80fd24abc4a05d2b6e40b2a525ef66b8e982777c37b470c43efe146'']"

record server_keys =
  ServerCertificates :: "Certificate list"
  LeaderCertificate :: Certificate
  BoxPublicKeys :: "byte list list"
  BoxPrivateKeys :: "byte list list"
  SharedSecrets :: "byte list list list"

definition stringToArray :: "string \<Rightarrow> byte list go" where
  "stringToArray s =
     (case DecodeString s of
        None \<Rightarrow> Err (ErrorString ''Could not create key:'')
      | Some key \<Rightarrow> if length key \<noteq> 32 then Err (ErrorString ''Incorrect key len'') else Ok key)"

definition nServers :: nat where "nServers = 8"

text \<open>The loop of \<^verbatim>\<open>init\<close> over the servers; an index outside of a table panics.\<close>

fun load_servers ::
  "pki \<Rightarrow> string list \<Rightarrow> string list \<Rightarrow> nat \<Rightarrow> nat \<Rightarrow> (Certificate \<times> byte list \<times> byte list) list go" where
  "load_servers K publicKeys secretKeys i 0 = Ok []"
| "load_servers K publicKeys secretKeys i (Suc n) =
     (if i \<ge> length publicKeys \<or> i \<ge> length secretKeys then Panic
      else case X509KeyPair K (publicKeys ! i) (secretKeys ! i) of
        Inl err \<Rightarrow> Err (Wrapped (''Could not load certficate #'' @ show_nat i @ '' '') err '''')
      | Inr cert \<Rightarrow>
      if i \<ge> length serverBoxPublicHex then Panic
      else go_bind (stringToArray (serverBoxPublicHex ! i)) (\<lambda>pub.
      if i \<ge> length serverBoxPrivateHex then Panic
      else go_bind (stringToArray (serverBoxPrivateHex ! i)) (\<lambda>priv.
      go_bind (load_servers K publicKeys secretKeys (Suc i) n) (\<lambda>rest. Ok ((cert, pub, priv) # rest)))))"

definition keys_init :: "pki \<Rightarrow> string list \<Rightarrow> string list \<Rightarrow> server_keys go" where
  "keys_init K publicKeys secretKeys =
     go_bind (load_servers K publicKeys secretKeys 0 nServers) (\<lambda>servers.
       let pubs = map (\<lambda>x. fst (snd x)) servers; privs = map (\<lambda>x. snd (snd x)) servers
       in Ok \<lparr>ServerCertificates = map fst servers, LeaderCertificate = fst (servers ! 0),
              BoxPublicKeys = pubs, BoxPrivateKeys = privs,
              SharedSecrets = map (\<lambda>pub. map (\<lambda>priv. Precompute K pub priv) privs) pubs\<rparr>)"

section \<open>Connections\<close>

datatype ClientAuthType = NoClientCert | RequireAnyClientCert

record tls_Config =
  ClientAuth :: ClientAuthType
  InsecureSkipVerify :: bool
  cf_Certificates :: "Certificate list"

text \<open>What a client sees of a server, and whether the server goes on after the handshake.\<close>

definition peer_certificate :: "tls_Config \<Rightarrow> byte list option" where
  "peer_certificate server = (case cf_Certificates server of
     cert # _ \<Rightarrow> (case cert_Certificate cert of der # _ \<Rightarrow> Some der | [] \<Rightarrow> None) | [] \<Rightarrow> None)"

definition admits :: "tls_Config \<Rightarrow> tls_Config \<Rightarrow> bool" where
  "admits server client \<longleftrightarrow> (case ClientAuth server of NoClientCert \<Rightarrow> True
     | RequireAnyClientCert \<Rightarrow> (\<exists>cert \<in> set (cf_Certificates client). cert_Certificate cert \<noteq> []))"

text \<open>\<^verbatim>\<open>ListenAndServe\<close> up to its loop: the address it listens at and the configuration of its connections. It listens at
  the last five characters of the address.\<close>

definition ListenAndServe ::
  "server_keys \<Rightarrow> (string \<Rightarrow> unit res) \<Rightarrow> string \<Rightarrow> nat \<Rightarrow> Certificate list \<Rightarrow> (string \<times> tls_Config) go" where
  "ListenAndServe S listen address keyIdx acceptCerts =
     (if keyIdx \<ge> length (ServerCertificates S) \<or> length address < 5 then Panic
      else let config = \<lparr>ClientAuth = (if length acceptCerts > 0 then RequireAnyClientCert else NoClientCert),
                InsecureSkipVerify = True, cf_Certificates = [ServerCertificates S ! keyIdx]\<rparr>;
               port = drop (length address - 5) address
           in case listen port of
                Inl err \<Rightarrow> Err (Wrapped ''Listener error:'' err '''')
              | Inr _ \<Rightarrow> Ok (port, config))"

text \<open>\<^verbatim>\<open>validateCert\<close> fills in the leaves of the certificates it looks at. An entry without a certificate panics.\<close>

fun validateCert :: "pki \<Rightarrow> Certificate list \<Rightarrow> byte list \<Rightarrow> (bool \<times> Certificate list) go" where
  "validateCert K [] present = Ok (False, [])"
| "validateCert K (cert # certs) present =
     (let go_on = (\<lambda>leaf cert. if leaf = present then Ok (True, cert # certs)
            else go_bind (validateCert K certs present) (\<lambda>(b, certs). Ok (b, cert # certs)))
      in case cert_Leaf cert of
           Some leaf \<Rightarrow> go_on leaf cert
         | None \<Rightarrow>
             (case cert_Certificate cert of
                [] \<Rightarrow> Panic
              | der # _ \<Rightarrow>
                  (case ParseCertificates K der of
                     Inl err \<Rightarrow> Ok (False, cert # certs)
                   | Inr [] \<Rightarrow> Panic
                   | Inr (leaf # _) \<Rightarrow> go_on leaf (cert\<lparr>cert_Leaf := Some leaf\<rparr>))))"

record connection =
  cn_server :: tls_Config
  cn_client :: tls_Config

definition DialHTTPWithTLSWithTimeout ::
  "pki \<Rightarrow> server_keys \<Rightarrow> (duration \<Rightarrow> string \<Rightarrow> tls_Config res) \<Rightarrow> string \<Rightarrow> int \<Rightarrow> Certificate list \<Rightarrow> duration \<Rightarrow> connection res go" where
  "DialHTTPWithTLSWithTimeout K S net address client_idx acceptCerts timeout =
     (if client_idx \<ge> 0 \<and> nat client_idx \<ge> length (ServerCertificates S) then Panic
      else
      let config = \<lparr>ClientAuth = NoClientCert, InsecureSkipVerify = True,
             cf_Certificates = (if client_idx \<ge> 0 then [ServerCertificates S ! nat client_idx] else [])\<rparr>
      in case net (if timeout > 0 then timeout else 0) address of
           Inl err \<Rightarrow> Ok (Inl err)
         | Inr server \<Rightarrow>
             (case peer_certificate server of
                None \<Rightarrow> Ok (Inl (ErrorString ''remote error: tls: handshake failure''))
              | Some present \<Rightarrow>
                  if length acceptCerts > 0
                  then go_bind (validateCert K acceptCerts present) (\<lambda>(valid, _).
                         if valid then Ok (Inr \<lparr>cn_server = server, cn_client = config\<rparr>)
                         else Ok (Inl (ErrorString ''Invalid certificate'')))
                  else Ok (Inr \<lparr>cn_server = server, cn_client = config\<rparr>)))"

definition DialHTTPWithTLS ::
  "pki \<Rightarrow> server_keys \<Rightarrow> (duration \<Rightarrow> string \<Rightarrow> tls_Config res) \<Rightarrow> string \<Rightarrow> int \<Rightarrow> Certificate list \<Rightarrow> connection res go" where
  "DialHTTPWithTLS K S net address client_idx acceptCerts =
     DialHTTPWithTLSWithTimeout K S net address client_idx acceptCerts 0"

text \<open>\<^verbatim>\<open>handleOneClient\<close> serves the calls of a connection if the handshake succeeds at the server.\<close>

definition handleOneClient :: "connection \<Rightarrow> bool" where
  "handleOneClient conn = admits (cn_server conn) (cn_client conn)"

section \<open>The embedded keys\<close>

lemma stringToArray_Ok: "stringToArray s = Ok key \<longleftrightarrow> DecodeString s = Some key \<and> length key = 32"
  by (auto simp: stringToArray_def split: option.splits)

lemma DecodeString_hex:
  "list_all (\<lambda>c. hex_value c \<noteq> None) s \<Longrightarrow> even (length s) \<Longrightarrow> \<exists>bs. DecodeString s = Some bs"
  by (induction s rule: DecodeString.induct) auto

lemma stringToArray_hex:
  assumes "list_all (\<lambda>c. hex_value c \<noteq> None) s" "length s = 64"
  obtains key where "stringToArray s = Ok key"
  using DecodeString_hex [OF assms(1)] assms(2) length_DecodeString [of s] by (auto simp: stringToArray_Ok)

lemma hex_text: "set s \<subseteq> set ''0123456789abcdef'' \<Longrightarrow> list_all (\<lambda>c. hex_value c \<noteq> None) s"
  by (auto simp: list_all_iff hex_value_def Let_def dest!: subsetD)

lemma box_keys_hex:
  "\<forall>s \<in> set serverBoxPublicHex. set s \<subseteq> set ''0123456789abcdef'' \<and> length s = 64"
  "\<forall>s \<in> set serverBoxPrivateHex. set s \<subseteq> set ''0123456789abcdef'' \<and> length s = 64"
  unfolding serverBoxPublicHex_def serverBoxPrivateHex_def by simp_all

lemma box_keys_load:
  "i < 9 \<Longrightarrow> \<exists>key. stringToArray (serverBoxPublicHex ! i) = Ok key"
  "i < 9 \<Longrightarrow> \<exists>key. stringToArray (serverBoxPrivateHex ! i) = Ok key"
  "length serverBoxPublicHex = 9" "length serverBoxPrivateHex = 9"
proof -
  show len: "length serverBoxPublicHex = 9" "length serverBoxPrivateHex = 9" by code_simp+
  have "list_all (\<lambda>c. hex_value c \<noteq> None) s \<and> length s = 64" if "s \<in> set serverBoxPublicHex \<union> set serverBoxPrivateHex" for s
    using box_keys_hex that hex_text by blast
  then show "i < 9 \<Longrightarrow> \<exists>key. stringToArray (serverBoxPublicHex ! i) = Ok key"
    "i < 9 \<Longrightarrow> \<exists>key. stringToArray (serverBoxPrivateHex ! i) = Ok key"
    using len stringToArray_hex by (metis UnCI nth_mem)+
qed

lemma load_servers_Ok:
  assumes "i + n \<le> 9" "i + n \<le> length ps" "i + n \<le> length ks"
    and "\<forall>k. i \<le> k \<and> k < i + n \<longrightarrow> \<not> isl (X509KeyPair K (ps ! k) (ks ! k))"
  shows "\<exists>xs. load_servers K ps ks i n = Ok xs \<and> length xs = n \<and> (\<forall>k < n.
     X509KeyPair K (ps ! (i + k)) (ks ! (i + k)) = Inr (fst (xs ! k)) \<and> stringToArray (serverBoxPublicHex ! (i + k)) = Ok (fst (snd (xs ! k))) \<and>
     stringToArray (serverBoxPrivateHex ! (i + k)) = Ok (snd (snd (xs ! k))))"
  using assms
proof (induction n arbitrary: i)
  case (Suc n)
  obtain xs where xs: "load_servers K ps ks (Suc i) n = Ok xs" "length xs = n" "\<forall>k < n.
     X509KeyPair K (ps ! (Suc i + k)) (ks ! (Suc i + k)) = Inr (fst (xs ! k)) \<and> stringToArray (serverBoxPublicHex ! (Suc i + k)) = Ok (fst (snd (xs ! k))) \<and>
     stringToArray (serverBoxPrivateHex ! (Suc i + k)) = Ok (snd (snd (xs ! k)))"
    using Suc.IH [of "Suc i"] Suc.prems by auto
  obtain cert where cert: "X509KeyPair K (ps ! i) (ks ! i) = Inr cert"
    using Suc.prems(4) by (cases "X509KeyPair K (ps ! i) (ks ! i)") force+
  obtain pub priv where keys: "stringToArray (serverBoxPublicHex ! i) = Ok pub" "stringToArray (serverBoxPrivateHex ! i) = Ok priv"
    using box_keys_load(1,2) [of i] Suc.prems(1) by auto
  have "load_servers K ps ks i (Suc n) = Ok ((cert, pub, priv) # xs)"
    using Suc.prems cert keys xs(1) box_keys_load(3,4) by simp
  moreover have "X509KeyPair K (ps ! (i + k)) (ks ! (i + k)) = Inr (fst (((cert, pub, priv) # xs) ! k)) \<and>
     stringToArray (serverBoxPublicHex ! (i + k)) = Ok (fst (snd (((cert, pub, priv) # xs) ! k))) \<and>
     stringToArray (serverBoxPrivateHex ! (i + k)) = Ok (snd (snd (((cert, pub, priv) # xs) ! k)))" if "k < Suc n" for k
    using that xs(3) cert keys by (cases k) auto
  ultimately show ?case using xs(2) by (intro exI [of _ "(cert, pub, priv) # xs"]) auto
qed simp

text \<open>The keys of a process load whenever the eight certificates do: eight certificates, the first the leader's, each
  with its one-element chain or more, and box keys of 32 bytes that are the embedded texts.\<close>

theorem keys_init_loads:
  assumes "pki_ok K" "8 \<le> length ps" "8 \<le> length ks" "\<forall>k < 8. \<not> isl (X509KeyPair K (ps ! k) (ks ! k))"
  shows "\<exists>S. keys_init K ps ks = Ok S \<and> length (ServerCertificates S) = 8 \<and> LeaderCertificate S = ServerCertificates S ! 0 \<and>
     (\<forall>k < 8. X509KeyPair K (ps ! k) (ks ! k) = Inr (ServerCertificates S ! k) \<and>
        DecodeString (serverBoxPublicHex ! k) = Some (BoxPublicKeys S ! k) \<and> length (BoxPublicKeys S ! k) = 32 \<and>
        DecodeString (serverBoxPrivateHex ! k) = Some (BoxPrivateKeys S ! k) \<and> length (BoxPrivateKeys S ! k) = 32)"
proof -
  obtain xs where xs: "load_servers K ps ks 0 8 = Ok xs" "length xs = 8" "\<forall>k < 8.
     X509KeyPair K (ps ! k) (ks ! k) = Inr (fst (xs ! k)) \<and> stringToArray (serverBoxPublicHex ! k) = Ok (fst (snd (xs ! k))) \<and>
     stringToArray (serverBoxPrivateHex ! k) = Ok (snd (snd (xs ! k)))"
    using load_servers_Ok [of 0 8 ps ks K] assms by auto
  then show ?thesis by (simp add: keys_init_def nServers_def Let_def stringToArray_Ok)
qed

section \<open>Accepted certificates\<close>

text \<open>The keys that \<^verbatim>\<open>init\<close> produces: every certificate parses to itself.\<close>

definition leaf :: "Certificate \<Rightarrow> byte list" where
  "leaf cert = hd (cert_Certificate cert)"

definition cert_ok :: "pki \<Rightarrow> Certificate \<Rightarrow> bool" where
  "cert_ok K cert \<longleftrightarrow> cert_Certificate cert \<noteq> [] \<and> ParseCertificates K (leaf cert) = Inr [leaf cert] \<and>
     (cert_Leaf cert = None \<or> cert_Leaf cert = Some (leaf cert))"

definition keys_ok :: "pki \<Rightarrow> server_keys \<Rightarrow> bool" where
  "keys_ok K S \<longleftrightarrow> length (ServerCertificates S) = 8 \<and> (\<forall>cert \<in> set (ServerCertificates S). cert_ok K cert) \<and>
     LeaderCertificate S = ServerCertificates S ! 0"

lemma init_keys_ok:
  assumes "pki_ok K" "keys_init K ps ks = Ok S"
  shows "keys_ok K S"
proof -
  have pair: "cert_ok K cert" if "X509KeyPair K c k = Inr cert" for c k cert
    using assms(1) that by (fastforce simp: pki_ok_def cert_ok_def leaf_def)
  have loaded: "length xs = n \<and> (\<forall>x \<in> set xs. cert_ok K (fst x))" if "load_servers K ps ks i n = Ok xs" for i n xs
    using that
  proof (induction n arbitrary: i xs)
    case (Suc n)
    then obtain cert pub priv rest where "X509KeyPair K (ps ! i) (ks ! i) = Inr cert" "load_servers K ps ks (Suc i) n = Ok rest"
        "xs = (cert, pub, priv) # rest"
      by (auto simp: go_bind_eq_Ok split: if_splits sum.splits)
    then show ?case using Suc.IH pair by auto
  qed simp
  obtain xs where xs: "load_servers K ps ks 0 nServers = Ok xs" "S = \<lparr>ServerCertificates = map fst xs,
      LeaderCertificate = fst (xs ! 0), BoxPublicKeys = map (\<lambda>x. fst (snd x)) xs, BoxPrivateKeys = map (\<lambda>x. snd (snd x)) xs,
      SharedSecrets = map (\<lambda>pub. map (\<lambda>priv. Precompute K pub priv) (map (\<lambda>x. snd (snd x)) xs)) (map (\<lambda>x. fst (snd x)) xs)\<rparr>"
    using assms(2) unfolding keys_init_def go_bind_eq_Ok Let_def by auto
  then show ?thesis using loaded [OF xs(1)] by (auto simp: keys_ok_def nServers_def)
qed

lemma validateCert_ok:
  assumes "\<forall>cert \<in> set certs. cert_ok K cert"
  shows "\<exists>certs'. validateCert K certs present = Ok (present \<in> leaf ` set certs, certs')"
  using assms
proof (induction certs)
  case (Cons cert certs)
  obtain certs' where IH: "validateCert K certs present = Ok (present \<in> leaf ` set certs, certs')" using Cons by auto
  obtain der chain where c: "cert_Certificate cert = der # chain" "leaf cert = der" "ParseCertificates K der = Inr [der]"
      "cert_Leaf cert = None \<or> cert_Leaf cert = Some der"
    using Cons.prems by (cases "cert_Certificate cert") (auto simp: cert_ok_def leaf_def)
  then show ?case using IH by (auto simp: Let_def split: option.splits)
qed simp

text \<open>A dial of a server that runs \<^verbatim>\<open>ListenAndServe\<close> with key \<open>k\<close>.\<close>

lemma dial_listener:
  assumes S: "keys_ok K S" and l: "ListenAndServe S listen addr k certs = Ok (port, server)"
    and n: "net (if timeout > 0 then timeout else 0) address = Inr server"
    and i: "i < 8" and a: "\<forall>cert \<in> set accept. cert_ok K cert"
  shows "DialHTTPWithTLSWithTimeout K S net address i accept timeout
     = (if accept = [] \<or> leaf (ServerCertificates S ! k) \<in> leaf ` set accept
        then Ok (Inr \<lparr>cn_server = server, cn_client = \<lparr>ClientAuth = NoClientCert, InsecureSkipVerify = True,
               cf_Certificates = (if i \<ge> 0 then [ServerCertificates S ! nat i] else [])\<rparr>\<rparr>)
        else Ok (Inl (ErrorString ''Invalid certificate'')))" and "k < 8"
proof -
  have k: "k < 8" and server: "server = \<lparr>ClientAuth = (if certs \<noteq> [] then RequireAnyClientCert else NoClientCert),
      InsecureSkipVerify = True, cf_Certificates = [ServerCertificates S ! k]\<rparr>"
    using l S by (auto simp: ListenAndServe_def keys_ok_def Let_def split: if_splits sum.splits)
  then show "k < 8" by simp
  have "cert_ok K (ServerCertificates S ! k)" using S k by (auto simp: keys_ok_def)
  then have p: "peer_certificate server = Some (leaf (ServerCertificates S ! k))"
    by (auto simp: server peer_certificate_def cert_ok_def leaf_def split: list.splits)
  obtain certs' where v: "validateCert K accept (leaf (ServerCertificates S ! k))
      = Ok (leaf (ServerCertificates S ! k) \<in> leaf ` set accept, certs')"
    using validateCert_ok [OF a] by blast
  have "\<not> (i \<ge> 0 \<and> nat i \<ge> length (ServerCertificates S))" using S i by (auto simp: keys_ok_def)
  then show "DialHTTPWithTLSWithTimeout K S net address i accept timeout
     = (if accept = [] \<or> leaf (ServerCertificates S ! k) \<in> leaf ` set accept
        then Ok (Inr \<lparr>cn_server = server, cn_client = \<lparr>ClientAuth = NoClientCert, InsecureSkipVerify = True,
               cf_Certificates = (if i \<ge> 0 then [ServerCertificates S ! nat i] else [])\<rparr>\<rparr>)
        else Ok (Inl (ErrorString ''Invalid certificate'')))"
    unfolding DialHTTPWithTLSWithTimeout_def Let_def n by (simp add: p v)
qed

section \<open>Properties\<close>

text \<open>C16: Which connections come about. Let a process with the loaded keys listen with the key of server \<open>k\<close>, naming the
  certificates \<open>certs\<close> that it means to accept, and let another process dial it as server \<open>i\<close> (no
  server if \<open>i\<close> is negative), accepting some of the servers' certificates. The dialing side refuses
  exactly the servers whose certificate it does not accept. The listening side serves every client that
  presents a certificate, whichever it is: apart from being empty or not, \<open>certs\<close> plays no role.\<close>

theorem connection_admission:
  assumes "pki_ok K" "keys_init K ps ks = Ok S"
    and "ListenAndServe S listen addr k certs = Ok (port, server)"
    and "net (if timeout > 0 then timeout else 0) address = Inr server"
    and "i < 8" "set accept \<subseteq> set (ServerCertificates S)"
  shows "(\<exists>conn. DialHTTPWithTLSWithTimeout K S net address i accept timeout = Ok (Inr conn) \<and> handleOneClient conn)
     \<longleftrightarrow> (accept = [] \<or> leaf (ServerCertificates S ! k) \<in> leaf ` set accept) \<and> (certs = [] \<or> 0 \<le> i)"
proof -
  have S: "keys_ok K S" by (rule init_keys_ok [OF assms(1,2)])
  have a: "\<forall>cert \<in> set accept. cert_ok K cert" using S assms(6) by (auto simp: keys_ok_def)
  note dial = dial_listener(1) [where net = net, OF S assms(3,4,5) a]
  have server: "ClientAuth server = (if certs \<noteq> [] then RequireAnyClientCert else NoClientCert)"
    using assms(3) by (auto simp: ListenAndServe_def Let_def split: if_splits sum.splits)
  have "cert_Certificate (ServerCertificates S ! nat i) \<noteq> []" if "0 \<le> i"
    using S assms(5) that by (auto simp: keys_ok_def cert_ok_def)
  then show ?thesis unfolding dial by (auto simp: handleOneClient_def admits_def server)
qed

definition toy_pki :: pki where
  "toy_pki = \<lparr>X509KeyPair = (\<lambda>c k. Inr \<lparr>cert_Certificate = [map of_char c], cert_PrivateKey = map of_char k, cert_Leaf = None\<rparr>),
     ParseCertificates = (\<lambda>der. Inr [der]), Precompute = (\<lambda>pub priv. pub)\<rparr>"

definition toy_pems :: "string list" where
  "toy_pems = [''a'', ''b'', ''c'', ''d'', ''e'', ''f'', ''g'', ''h'']"

lemma toy_pki_ok: "pki_ok toy_pki"
  by (simp add: pki_ok_def toy_pki_def)

lemma toy_keys: "\<exists>S. keys_init toy_pki toy_pems toy_pems = Ok S"
  using keys_init_loads [OF toy_pki_ok, of toy_pems toy_pems] by (auto simp: toy_pki_def toy_pems_def)

theorem connection_admission_witness:
  "\<exists>S port server. keys_init toy_pki toy_pems toy_pems = Ok S \<and>
     ListenAndServe S (\<lambda>_. Inr ()) ''localhost:9091'' 1 [LeaderCertificate S] = Ok (port, server) \<and>
     (\<exists>conn. DialHTTPWithTLSWithTimeout toy_pki S (\<lambda>_ _. Inr server) ''localhost:9091'' 3 [ServerCertificates S ! 1] 0 = Ok (Inr conn) \<and>
        handleOneClient conn)"
proof -
  obtain S where S: "keys_init toy_pki toy_pems toy_pems = Ok S" using toy_keys by blast
  have n: "length (ServerCertificates S) = 8" using init_keys_ok [OF toy_pki_ok S] by (simp add: keys_ok_def)
  obtain port server where l: "ListenAndServe S (\<lambda>_. Inr ()) ''localhost:9091'' 1 [LeaderCertificate S] = Ok (port, server)"
    by (simp add: ListenAndServe_def n)
  have "set [ServerCertificates S ! 1] \<subseteq> set (ServerCertificates S)" using n by simp
  from connection_admission [where net = "\<lambda>_ _. Inr server" and timeout = 0 and address = "''localhost:9091''" and i = 3,
      OF toy_pki_ok S l _ _ this] S l
  show ?thesis by auto
qed

end
