(* ===== verification/Admin_Text.thy ===== *)
theory Admin_Text
  imports Leader_Control
begin

text \<open>
  The lines that the administrative commands of the server and of the coordinator print
  (\<^verbatim>\<open>runAdminCommand\<close> of \<^verbatim>\<open>src/server/server.go\<close> and of \<^verbatim>\<open>src/coordinator/main.go\<close>).
\<close>

definition show_bool :: "bool \<Rightarrow> string" where
  "show_bool b = (if b then ''true'' else ''false'')"

definition started_text :: "StartEpochReply \<Rightarrow> string" where
  "started_text reply = ''started epoch='' @ show_int (se_EpochID reply) @ '' state='' @ se_State reply @ '' start=''
     @ show_int (se_StartUnix reply) @ '' end='' @ show_int (se_EndUnix reply) @ '' duration='' @ show_int (se_DurationSecs reply)"

definition epoch_text :: "EpochStatusReply \<Rightarrow> string" where
  "epoch_text reply = ''epoch='' @ show_int (es_EpochID reply) @ '' state='' @ es_State reply @ '' accepting=''
     @ show_bool (es_Accepting reply) @ '' start='' @ show_int (es_StartUnix reply) @ '' end='' @ show_int (es_EndUnix reply)
     @ '' duration='' @ show_int (es_DurationSecs reply) @ '' last_result='' @ es_LastResult reply"

end
