(* ===== verification/Server_Program.thy ===== *)
theory Server_Program
  imports Dynamo_Ledger SQS_Queue Transport Scaling_Policy Admin_Text
begin

text \<open>
  The program of a database server (\<^verbatim>\<open>src/server/server.go\<close>) and the part of \<^verbatim>\<open>src/db/server.go\<close> that builds and
  starts a server: flags, the choice of the queue and of the ledger, connections to the peers, the
  statistics loop, and the administrative calls.

  The queue and the ledger of a server are Go interfaces: a value of \<open>server_queue\<close> or \<open>server_ledger\<close> is one of
  the implementations with its state, and \<open>server_queue_ops\<close> and \<open>server_ledger_ops\<close> call its methods. The AWS clients
  are arguments. \<^verbatim>\<open>log.Fatal\<close> is the outcome \<open>ServerFatal\<close>. The profiler, the number of threads and the log
  output are left out.

  Shown here: which flags are accepted and what a server that starts is configured with; a leader
  becomes ready exactly when every peer answers with its own certificate, so that the two
  processes of a shard become ready; a list of more than three servers ends the leader.
\<close>

section \<open>The implementations of the interfaces\<close>

datatype 's server_queue = MemoryQueue memoryCompletedUploadQueue | SQSQueue "'s sqsCompletedUploadQueue" 's

datatype 'd server_ledger = MemoryLedger memoryCompletedUploadLedger | DynamoLedger "'d dynamoDBCompletedUploadLedger" 'd

definition memoryIngestionQueueBackend :: string where "memoryIngestionQueueBackend = ''memory''"
definition sqsIngestionQueueBackend :: string where "sqsIngestionQueueBackend = ''sqs''"
definition memoryCompletedUploadLedgerBackend :: string where "memoryCompletedUploadLedgerBackend = ''memory''"
definition dynamoCompletedUploadLedgerBackend :: string where "dynamoCompletedUploadLedgerBackend = ''dynamodb''"

primrec queue_Backend :: "'s server_queue \<Rightarrow> string" where
  "queue_Backend (MemoryQueue q) = memoryIngestionQueueBackend"
| "queue_Backend (SQSQueue q s) = sqsIngestionQueueBackend"

primrec ledger_Backend :: "'d server_ledger \<Rightarrow> string" where
  "ledger_Backend (MemoryLedger l) = memoryCompletedUploadLedgerBackend"
| "ledger_Backend (DynamoLedger l d) = dynamoCompletedUploadLedgerBackend"

definition server_queue_ops :: "upload_codec \<Rightarrow> 's server_queue queue_ops" where
  "server_queue_ops J = \<lparr>
     q_enqueue = (\<lambda>t m q. case q of MemoryQueue q \<Rightarrow> map_prod (\<lambda>r. r) MemoryQueue (q_enqueue mem_queue_ops t m q)
        | SQSQueue q s \<Rightarrow> map_prod (\<lambda>r. r) (SQSQueue q) (q_enqueue (sqs_queue_ops J q) t m s)),
     q_receive = (\<lambda>n q. case q of MemoryQueue q \<Rightarrow> map_option (map_prod (\<lambda>r. r) MemoryQueue) (q_receive mem_queue_ops n q)
        | SQSQueue q s \<Rightarrow> map_option (map_prod (\<lambda>r. r) (SQSQueue q)) (q_receive (sqs_queue_ops J q) n s)),
     q_ack = (\<lambda>h q. case q of MemoryQueue q \<Rightarrow> map_prod (\<lambda>r. r) MemoryQueue (q_ack mem_queue_ops h q)
        | SQSQueue q s \<Rightarrow> map_prod (\<lambda>r. r) (SQSQueue q) (q_ack (sqs_queue_ops J q) h s)),
     q_stats = (\<lambda>q. case q of MemoryQueue q \<Rightarrow> q_stats mem_queue_ops q | SQSQueue q s \<Rightarrow> q_stats (sqs_queue_ops J q) s)\<rparr>"

definition server_ledger_ops :: "'d server_ledger ledger_ops" where
  "server_ledger_ops = \<lparr>
     lo_begin = (\<lambda>m t ttl l. case l of MemoryLedger l \<Rightarrow> map_prod (\<lambda>r. r) MemoryLedger (lo_begin mem_ledger_ops m t ttl l)
        | DynamoLedger l d \<Rightarrow> map_prod (\<lambda>r. r) (DynamoLedger l) (lo_begin (dynamo_ledger_ops l) m t ttl d)),
     lo_complete = (\<lambda>L t l. case l of MemoryLedger l \<Rightarrow> map_prod (\<lambda>r. r) MemoryLedger (lo_complete mem_ledger_ops L t l)
        | DynamoLedger l d \<Rightarrow> map_prod (\<lambda>r. r) (DynamoLedger l) (lo_complete (dynamo_ledger_ops l) L t d))\<rparr>"

section \<open>A server\<close>

record ('s, 'd, 'w) server_process =
  pr_worker :: "('s server_queue, 'd server_ledger, 'w) worker"
  pr_ServerAddrs :: "string list"
  pr_queueBackend :: string
  pr_ledgerBackend :: string
  pr_resultsDir :: string
  pr_clientsTotal :: int
  pr_rateHistory :: "float64 list"

abbreviation pr_leader :: "('s, 'd, 'w) server_process \<Rightarrow> 's server_queue leader" where
  "pr_leader p \<equiv> wk_leader (pr_worker p)"

abbreviation update_leader ::
  "('s server_queue leader \<Rightarrow> 's server_queue leader) \<Rightarrow> ('s, 'd, 'w) server_process \<Rightarrow> ('s, 'd, 'w) server_process" where
  "update_leader f p \<equiv> p\<lparr>pr_worker := (pr_worker p)\<lparr>wk_leader := f (pr_leader p)\<rparr>\<rparr>"

definition SetIngestionQueueBackend :: "string \<Rightarrow> ('s, 'd, 'w) server_process \<Rightarrow> unit res \<times> ('s, 'd, 'w) server_process" where
  "SetIngestionQueueBackend backend p =
     (if backend = '''' \<or> backend = memoryIngestionQueueBackend
      then (Inr (), (update_leader (\<lambda>s. s\<lparr>ld_queue := MemoryQueue newMemoryCompletedUploadQueue\<rparr>) p)
              \<lparr>pr_queueBackend := memoryIngestionQueueBackend\<rparr>)
      else if backend = sqsIngestionQueueBackend
      then (Inl (ErrorString ''sqs ingestion queue requires explicit queue configuration''), p)
      else (Inl (ErrorString (''unsupported ingestion queue backend '' @ quoted backend)), p))"

definition SetCompletedUploadQueue :: "'s server_queue option \<Rightarrow> ('s, 'd, 'w) server_process \<Rightarrow> unit res \<times> ('s, 'd, 'w) server_process" where
  "SetCompletedUploadQueue queue p =
     (case queue of
        None \<Rightarrow> (Inl (ErrorString ''completed upload queue is required''), p)
      | Some q \<Rightarrow> (Inr (), (update_leader (\<lambda>s. s\<lparr>ld_queue := q\<rparr>) p)\<lparr>pr_queueBackend := queue_Backend q\<rparr>))"

definition SetStandbyIngestionFanoutConfigured :: "bool \<Rightarrow> ('s, 'd, 'w) server_process \<Rightarrow> ('s, 'd, 'w) server_process" where
  "SetStandbyIngestionFanoutConfigured configured p = update_leader (\<lambda>s. s\<lparr>ld_standbyFanout := configured\<rparr>) p"

definition SetCompletedUploadLedger :: "'d server_ledger option \<Rightarrow> ('s, 'd, 'w) server_process \<Rightarrow> unit res \<times> ('s, 'd, 'w) server_process" where
  "SetCompletedUploadLedger ledger p =
     (case ledger of
        None \<Rightarrow> (Inl (ErrorString ''completed upload ledger is required''), p)
      | Some l \<Rightarrow> (Inr (), p\<lparr>pr_worker := (pr_worker p)\<lparr>wk_ledger := l\<rparr>, pr_ledgerBackend := ledger_Backend l\<rparr>))"

definition SetResultsDir :: "string \<Rightarrow> ('s, 'd, 'w) server_process \<Rightarrow> ('s, 'd, 'w) server_process" where
  "SetResultsDir resultsDir p = p\<lparr>pr_resultsDir := resultsDir\<rparr>"

definition SetShardID :: "int \<Rightarrow> ('s, 'd, 'w) server_process \<Rightarrow> ('s, 'd, 'w) server_process" where
  "SetShardID shardID p = update_leader (\<lambda>s. s\<lparr>ld_ShardID := shardID\<rparr>) p"

definition defaultIngestionReceiveBatchSize :: int where "defaultIngestionReceiveBatchSize = 1"
definition defaultIngestionWorkerErrorBackoff :: duration where "defaultIngestionWorkerErrorBackoff = 250 * millisecond"

definition no_diagnostics :: ingestionDiagnostics where
  "no_diagnostics = \<lparr>processedCount = 0, ackCount = 0, receiveErrorCount = 0, processErrorCount = 0, ackErrorCount = 0,
     committedCount = 0, duplicateSkipCount = 0, ledgerBeginErrorCount = 0, ledgerCompleteErrorCount = 0,
     lastError = '''', lastErrorTime = zero_time, ledgerLastError = '''', ledgerLastErrorTime = zero_time\<rparr>"

text \<open>\<open>w\<close> is what the upload functions work on: the slot table, the pending queries and the plain text of this
  server, and its peers. The control loop is started with \<open>initial_runtime\<close>.\<close>

definition NewServer :: "nat \<Rightarrow> string list \<Rightarrow> 'w \<Rightarrow> ('s, 'd, 'w) server_process" where
  "NewServer serverIdx serverAddrs w =
     \<lparr>pr_worker = \<lparr>wk_leader = \<lparr>ld_ServerIdx = serverIdx, ld_ShardID = 0, ld_replicaID = CompletedUploadReplicaActive,
          ld_standbyFanout = False, ld_globalRowStart = 0, ld_rpcClients = replicate (NUM_SERVERS + 1) False,
          ld_queue = MemoryQueue newMemoryCompletedUploadQueue, ld_ctl = initial_runtime\<rparr>,
        wk_ledger = MemoryLedger newMemoryCompletedUploadLedger, wk_diag = no_diagnostics, wk_clientsServed = 0,
        wk_batchSize = defaultIngestionReceiveBatchSize, wk_errorBackoff = defaultIngestionWorkerErrorBackoff,
        wk_ttl = defaultCompletedUploadProcessingTTL, wk_demoFail = False, wk_demoFailed = False, wk_world = w\<rparr>,
      pr_ServerAddrs = serverAddrs, pr_queueBackend = memoryIngestionQueueBackend, pr_ledgerBackend = memoryCompletedUploadLedgerBackend,
      pr_resultsDir = '''', pr_clientsTotal = 0, pr_rateHistory = replicate 10 (Fin 0)\<rparr>"

section \<open>Connections to the peers\<close>

definition connectToServer ::
  "pki \<Rightarrow> server_keys \<Rightarrow> (duration \<Rightarrow> string \<Rightarrow> tls_Config res) \<Rightarrow> nat \<Rightarrow> string \<Rightarrow> nat \<Rightarrow> connection res go" where
  "connectToServer K S net serverIdx serverAddr remoteIdx =
     (if remoteIdx \<ge> length (ServerCertificates S) then Panic
      else DialHTTPWithTLS K S net serverAddr (int serverIdx) [ServerCertificates S ! remoteIdx])"

fun dial_peers ::
  "pki \<Rightarrow> server_keys \<Rightarrow> (duration \<Rightarrow> string \<Rightarrow> tls_Config res) \<Rightarrow> nat \<Rightarrow> nat \<Rightarrow> string list \<Rightarrow> connection res list go" where
  "dial_peers K S net serverIdx i [] = Ok []"
| "dial_peers K S net serverIdx i (addr # addrs) =
     go_bind (connectToServer K S net serverIdx addr i) (\<lambda>r.
     go_bind (dial_peers K S net serverIdx (Suc i) addrs) (\<lambda>rs. Ok (r # rs)))"

text \<open>One goroutine per address, which stores its client in \<^verbatim>\<open>rpcClients\<close>, an array of \<^verbatim>\<open>NUM_SERVERS + 1\<close> entries; \<open>order\<close> is
  the order in which they report.\<close>

definition openConnections ::
  "pki \<Rightarrow> server_keys \<Rightarrow> (duration \<Rightarrow> string \<Rightarrow> tls_Config res) \<Rightarrow> nat list \<Rightarrow> string list \<Rightarrow> 'q leader \<Rightarrow> (unit res \<times> 'q leader) go" where
  "openConnections K S net order addrs s =
     (if \<not> isLeader s then Ok (Inl (ErrorString ''Only leader should open connections''), s)
      else if length addrs > NUM_SERVERS + 1 then Panic
      else go_bind (dial_peers K S net (ld_ServerIdx s) 0 addrs) (\<lambda>rs.
        let s = s\<lparr>ld_rpcClients := map (\<lambda>i. if i < length rs then \<not> isl (rs ! i) else ld_rpcClients s ! i) [0..<NUM_SERVERS + 1]\<rparr>
        in case filter (\<lambda>i. isl (rs ! i)) order of
             [] \<Rightarrow> Ok (Inr (), s)
           | i # _ \<Rightarrow> Ok (Inl (Wrapped ''connection failed: '' (projl (rs ! i)) ''''), s)))"

text \<open>The goroutine of \<^verbatim>\<open>Initialize\<close> that connects a leader to its peers.\<close>

definition connect_peers ::
  "pki \<Rightarrow> server_keys \<Rightarrow> (duration \<Rightarrow> string \<Rightarrow> tls_Config res) \<Rightarrow> nat list \<Rightarrow> ('s, 'd, 'w) server_process
     \<Rightarrow> ('s, 'd, 'w) server_process go" where
  "connect_peers K S net order p =
     go_bind (openConnections K S net order (pr_ServerAddrs p) (pr_leader p)) (\<lambda>(r, s).
       Ok (update_leader (\<lambda>_. case r of
             Inl err \<Rightarrow> setPeerConnectionState PeerConnectionsFailed (Some err) s
           | Inr _ \<Rightarrow> setPeerConnectionState PeerConnectionsReady None s) p))"

text \<open>What \<^verbatim>\<open>Initialize\<close> starts. The tokens that it puts into the channels bound the number of uploads in flight.\<close>

datatype goroutine = GoPrintStats | GoProcessRequest | GoConnectPeers

definition READY_BUFFER_SIZE :: nat where "READY_BUFFER_SIZE = 400"

definition Initialize :: "('s, 'd, 'w) server_process \<Rightarrow> goroutine list \<times> nat" where
  "Initialize p =
     (if isLeader (pr_leader p)
      then (GoPrintStats # replicate WORKER_THREADS GoProcessRequest @ [GoConnectPeers], READY_BUFFER_SIZE)
      else ([], 0))"

section \<open>Statistics\<close>

definition STATS_DELAY :: int where "STATS_DELAY = 10"

text \<open>A turn of \<^verbatim>\<open>printStats\<close> is two steps: the counters under the lock, and the reset after it.\<close>

definition printStats_count :: "('s, 'd, 'w) server_process \<Rightarrow> ('s, 'd, 'w) server_process" where
  "printStats_count p =
     (let served = wk_clientsServed (pr_worker p);
          rate = float_div (float_of_int served) (float_of_int STATS_DELAY)
      in p\<lparr>pr_clientsTotal := pr_clientsTotal p + served, pr_rateHistory := drop 1 (pr_rateHistory p @ [rate])\<rparr>)"

definition printStats_reset :: "('s, 'd, 'w) server_process \<Rightarrow> ('s, 'd, 'w) server_process" where
  "printStats_reset p = p\<lparr>pr_worker := (pr_worker p)\<lparr>wk_clientsServed := 0\<rparr>\<rparr>"

definition DoNothing :: "('s, 'd, 'w) server_process \<Rightarrow> ('s, 'd, 'w) server_process" where
  "DoNothing p = p\<lparr>pr_worker := (pr_worker p)\<lparr>wk_clientsServed := wk_clientsServed (pr_worker p) + 1\<rparr>\<rparr>"

section \<open>Flags\<close>

record server_flags =
  flagIndex :: int
  flagLog :: string
  flagResultsDir :: string
  flagShardID :: int
  flagGlobalRowStart :: int
  flagReplicaID :: string
  flagIngestionQueue :: string
  flagIngestionSQSQueueURL :: string
  flagStandbyIngestionSQSQueueURL :: string
  flagIngestionS3Bucket :: string
  flagIngestionReceiveBatchSize :: int
  flagIngestionSQSWaitSeconds :: int
  flagIngestionSQSVisibilityTimeoutSeconds :: int
  flagIngestionWorkerErrorBackoffMs :: int
  flagCompletedUploadLedger :: string
  flagCompletedUploadLedgerTable :: string
  flagCompletedUploadProcessingTTLSeconds :: int
  flagDemoFailIngestionAckOnce :: bool
  flagAWSRegion :: string
  flagAdminTarget :: string
  flagStartEpoch :: int
  flagEpochStatus :: bool
  flagStatus :: bool
  serverList :: "string list"

definition default_server_flags :: server_flags where
  "default_server_flags = \<lparr>flagIndex = - 1, flagLog = '''', flagResultsDir = '''', flagShardID = 0, flagGlobalRowStart = 0,
     flagReplicaID = ''active'', flagIngestionQueue = ''memory'', flagIngestionSQSQueueURL = '''',
     flagStandbyIngestionSQSQueueURL = '''', flagIngestionS3Bucket = '''', flagIngestionReceiveBatchSize = 1,
     flagIngestionSQSWaitSeconds = 10, flagIngestionSQSVisibilityTimeoutSeconds = 300,
     flagIngestionWorkerErrorBackoffMs = 250, flagCompletedUploadLedger = ''memory'', flagCompletedUploadLedgerTable = '''',
     flagCompletedUploadProcessingTTLSeconds = 900, flagDemoFailIngestionAckOnce = False, flagAWSRegion = '''',
     flagAdminTarget = '''', flagStartEpoch = 0, flagEpochStatus = False, flagStatus = False, serverList = []\<rparr>"

text \<open>\<^verbatim>\<open>strings.Split\<close> with a separator of one character, and the setter of \<^verbatim>\<open>-servers\<close>.\<close>

fun Split :: "char \<Rightarrow> string \<Rightarrow> string list" where
  "Split c [] = [[]]"
| "Split c (x # s) =
     (if x = c then [] # Split c s
      else case Split c s of part # parts \<Rightarrow> (x # part) # parts | [] \<Rightarrow> [[x]])"

definition serverListType_Set :: "string \<Rightarrow> string list \<Rightarrow> unit res \<times> string list" where
  "serverListType_Set value s =
     (if length s > 0 then (Inl (ErrorString ''server flag already set''), s) else (Inr (), s @ Split CHR '','' value))"

definition validateIngestionFlags :: "server_flags \<Rightarrow> unit res" where
  "validateIngestionFlags F =
     (if flagReplicaID F \<noteq> CompletedUploadReplicaActive \<and> flagReplicaID F \<noteq> CompletedUploadReplicaStandby
      then Inl (ErrorString ''-replica-id must be active or standby'')
      else if flagReplicaID F = CompletedUploadReplicaStandby \<and> flagStandbyIngestionSQSQueueURL F \<noteq> ''''
      then Inl (ErrorString ''-standby-ingestion-sqs-queue-url is only valid for active replicas'')
      else if flagStandbyIngestionSQSQueueURL F \<noteq> '''' \<and> flagIngestionQueue F \<noteq> ''sqs''
      then Inl (ErrorString ''-standby-ingestion-sqs-queue-url requires -ingestion-queue sqs'')
      else if flagIngestionSQSWaitSeconds F < 0 \<or> flagIngestionSQSWaitSeconds F > 20
      then Inl (ErrorString ''-ingestion-sqs-wait-seconds must be between 0 and 20'')
      else if flagIngestionSQSVisibilityTimeoutSeconds F \<le> 0
      then Inl (ErrorString ''-ingestion-sqs-visibility-timeout-seconds must be positive'')
      else if flagCompletedUploadProcessingTTLSeconds F \<le> 0
      then Inl (ErrorString ''-completed-upload-processing-ttl-seconds must be positive'')
      else Inr ())"

text \<open>The conversion \<^verbatim>\<open>int32(x)\<close>.\<close>

definition wrap32 :: "int \<Rightarrow> int" where
  "wrap32 x = (x + 2 ^ 31) mod 2 ^ 32 - 2 ^ 31"

record ('s, 'd) aws =
  LoadDefaultConfig :: "string \<Rightarrow> unit res"
  sqs_NewFromConfig :: "'s sqs"
  s3_NewFromConfig :: "'s s3"
  dynamodb_NewFromConfig :: "'d dynamo"

definition loadAWSConfig :: "('s, 'd) aws \<Rightarrow> server_flags \<Rightarrow> string \<Rightarrow> unit res" where
  "loadAWSConfig A F purpose =
     (case LoadDefaultConfig A (flagAWSRegion F) of
        Inl err \<Rightarrow> Inl (Wrapped (''Could not load AWS config for '' @ purpose @ '': '') err '''')
      | Inr _ \<Rightarrow> Inr ())"

definition configureIngestionQueue ::
  "('s, 'd) aws \<Rightarrow> 's \<Rightarrow> server_flags \<Rightarrow> ('s, 'd, 'w) server_process \<Rightarrow> ('s, 'd, 'w) server_process res" where
  "configureIngestionQueue A cloud F p =
     (if flagIngestionQueue F = ''sqs''
      then if flagIngestionSQSQueueURL F = ''''
        then Inl (ErrorString ''-ingestion-sqs-queue-url is required when -ingestion-queue=sqs'')
        else if flagIngestionS3Bucket F = ''''
        then Inl (ErrorString ''-ingestion-s3-bucket is required when -ingestion-queue=sqs'')
        else case loadAWSConfig A F ''SQS ingestion queue'' of Inl err \<Rightarrow> Inl err | Inr _ \<Rightarrow>
        case NewSQSCompletedUploadQueueWithOptions (Some (sqs_NewFromConfig A)) (Some (s3_NewFromConfig A))
               (flagIngestionSQSQueueURL F) (flagIngestionS3Bucket F)
               \<lparr>op_WaitTimeSeconds = wrap32 (flagIngestionSQSWaitSeconds F),
                op_VisibilityTimeoutSeconds = wrap32 (flagIngestionSQSVisibilityTimeoutSeconds F),
                op_StandbyQueueURL = flagStandbyIngestionSQSQueueURL F\<rparr> of
          Inl err \<Rightarrow> Inl err
        | Inr queue \<Rightarrow>
        case SetCompletedUploadQueue (Some (SQSQueue queue cloud)) p of
          (Inl err, p) \<Rightarrow> Inl err
        | (Inr _, p) \<Rightarrow> Inr (SetStandbyIngestionFanoutConfigured (flagStandbyIngestionSQSQueueURL F \<noteq> '''') p)
      else case SetIngestionQueueBackend (flagIngestionQueue F) p of (Inl err, p) \<Rightarrow> Inl err | (Inr _, p) \<Rightarrow> Inr p)"

definition configureCompletedUploadLedger ::
  "('s, 'd) aws \<Rightarrow> 'd \<Rightarrow> server_flags \<Rightarrow> ('s, 'd, 'w) server_process \<Rightarrow> ('s, 'd, 'w) server_process res" where
  "configureCompletedUploadLedger A tables F p =
     (if flagCompletedUploadLedger F = '''' \<or> flagCompletedUploadLedger F = ''memory'' then Inr p
      else if flagCompletedUploadLedger F = ''dynamodb''
      then if flagCompletedUploadLedgerTable F = ''''
        then Inl (ErrorString ''-completed-upload-ledger-table is required when -completed-upload-ledger=dynamodb'')
        else case loadAWSConfig A F ''DynamoDB completed upload ledger'' of Inl err \<Rightarrow> Inl err | Inr _ \<Rightarrow>
        case NewDynamoDBCompletedUploadLedger (Some (dynamodb_NewFromConfig A)) (flagCompletedUploadLedgerTable F) of
          Inl err \<Rightarrow> Inl err
        | Inr ledger \<Rightarrow>
        case SetCompletedUploadLedger (Some (DynamoLedger ledger tables)) p of (Inl err, p) \<Rightarrow> Inl err | (Inr _, p) \<Rightarrow> Inr p
      else Inl (ErrorString (''unsupported completed upload ledger backend '' @ quoted (flagCompletedUploadLedger F))))"

section \<open>The program\<close>

datatype ('s, 'd, 'w) server_outcome =
    ServerAdmin
  | ServerFatal go_error
  | ServerPanics
  | Serving "('s, 'd, 'w) server_process" string tls_Config

text \<open>The settings of \<^verbatim>\<open>main\<close>, in its order.\<close>

definition configure_server ::
  "('s, 'd) aws \<Rightarrow> 's \<Rightarrow> 'd \<Rightarrow> server_flags \<Rightarrow> ('s, 'd, 'w) server_process \<Rightarrow> ('s, 'd, 'w) server_process res" where
  "configure_server A cloud tables F p =
     (let p = SetShardID (flagShardID F) p in
      case SetReplicaID (flagReplicaID F) (pr_leader p) of (Inl err, _) \<Rightarrow> Inl err | (Inr _, s) \<Rightarrow>
      let p = update_leader (\<lambda>_. s) p in
      case SetGlobalRowStart (flagGlobalRowStart F) (pr_leader p) of (Inl err, _) \<Rightarrow> Inl err | (Inr _, s) \<Rightarrow>
      let p = update_leader (\<lambda>_. s) p in
      case validateIngestionFlags F of Inl err \<Rightarrow> Inl err | Inr _ \<Rightarrow>
      case configureIngestionQueue A cloud F p of Inl err \<Rightarrow> Inl err | Inr p \<Rightarrow>
      case SetIngestionWorkerConfig (flagIngestionReceiveBatchSize F)
             (wrap64 (flagIngestionWorkerErrorBackoffMs F * millisecond)) (pr_worker p) of
        (Inl err, _) \<Rightarrow> Inl err
      | (Inr _, k) \<Rightarrow>
      let p = p\<lparr>pr_worker := k\<rparr> in
      case configureCompletedUploadLedger A tables F p of Inl err \<Rightarrow> Inl err | Inr p \<Rightarrow>
      case SetCompletedUploadProcessingTTL (wrap64 (flagCompletedUploadProcessingTTLSeconds F * second)) (pr_worker p) of
        (Inl err, _) \<Rightarrow> Inl err
      | (Inr _, k) \<Rightarrow>
      Inr (SetResultsDir (flagResultsDir F)
             (p\<lparr>pr_worker := SetDemoFailIngestionAckOnce (flagDemoFailIngestionAckOnce F) k\<rparr>)))"

definition server_main ::
  "server_keys \<Rightarrow> ('s, 'd) aws \<Rightarrow> 's \<Rightarrow> 'd \<Rightarrow> (string \<Rightarrow> bool) \<Rightarrow> (string \<Rightarrow> unit res) \<Rightarrow> server_flags \<Rightarrow> 'w
     \<Rightarrow> ('s, 'd, 'w) server_outcome" where
  "server_main S A cloud tables openLog listen F w =
     (if flagStartEpoch F > 0 \<or> flagEpochStatus F \<or> flagStatus F
      then if flagAdminTarget F = '''' then ServerFatal (ErrorString ''Must specify -admin-target for admin RPC commands'')
           else ServerAdmin
      else if flagLog F \<noteq> '''' \<and> \<not> openLog (flagLog F)
      then ServerFatal (ErrorString (''Could not open log file '' @ flagLog F))
      else if flagIndex F < 0 then ServerFatal (ErrorString ''Must server index must be greater than zero'')
      else if length (serverList F) < 1 \<or> flagIndex F > int (length (serverList F)) - 1
      then ServerFatal (ErrorString ''Must specify a list of servers'')
      else
      let idx = nat (flagIndex F) in
      case configure_server A cloud tables F (NewServer idx (serverList F) w) of
        Inl err \<Rightarrow> ServerFatal err
      | Inr p \<Rightarrow>
      case ListenAndServe S listen (serverList F ! idx) idx (if idx > 0 then [LeaderCertificate S] else []) of
        Ok (port, config) \<Rightarrow> Serving p port config
      | Err err \<Rightarrow> ServerFatal err
      | Panic \<Rightarrow> ServerPanics)"

section \<open>Administrative calls\<close>

record 'w server_admin =
  sa_StartEpoch :: "int \<Rightarrow> 'w \<Rightarrow> StartEpochReply res \<times> 'w"
  sa_EpochStatus :: "'w \<Rightarrow> EpochStatusReply res \<times> 'w"
  sa_Status :: "'w \<Rightarrow> StatusReply res \<times> 'w"

text \<open>The text that the command prints, or the message that it ends with; \<open>encode\<close> is the JSON encoder. The connection must
  be made to a server with the leader's certificate, and is served only if the server admits a
  client without certificate; \<open>lost\<close> is the error of a call on a connection that is not served.\<close>

definition runAdminCommand ::
  "pki \<Rightarrow> server_keys \<Rightarrow> (duration \<Rightarrow> string \<Rightarrow> tls_Config res) \<Rightarrow> go_error \<Rightarrow> 'w server_admin \<Rightarrow> (StatusReply \<Rightarrow> string res)
     \<Rightarrow> server_flags \<Rightarrow> 'w \<Rightarrow> (string res \<times> 'w) go" where
  "runAdminCommand K S net lost R encode F w =
     go_bind (DialHTTPWithTLS K S net (flagAdminTarget F) (- 1) [LeaderCertificate S]) (\<lambda>dialed.
       case dialed of
         Inl err \<Rightarrow> Ok (Inl (Wrapped ''Could not connect to admin target: '' err ''''), w)
       | Inr conn \<Rightarrow>
       let served = handleOneClient conn in
       if flagStartEpoch F > 0
       then (case (if served then sa_StartEpoch R (flagStartEpoch F) w else (Inl lost, w)) of
               (Inl err, w) \<Rightarrow> Ok (Inl (Wrapped ''Could not start epoch: '' (rpc_error err) ''''), w)
             | (Inr reply, w) \<Rightarrow> Ok (Inr (started_text reply), w))
       else if flagEpochStatus F
       then (case (if served then sa_EpochStatus R w else (Inl lost, w)) of
               (Inl err, w) \<Rightarrow> Ok (Inl (Wrapped ''Could not query epoch status: '' (rpc_error err) ''''), w)
             | (Inr reply, w) \<Rightarrow> Ok (Inr (epoch_text reply), w))
       else if flagStatus F
       then (case (if served then sa_Status R w else (Inl lost, w)) of
               (Inl err, w) \<Rightarrow> Ok (Inl (Wrapped ''Could not query status: '' (rpc_error err) ''''), w)
             | (Inr reply, w) \<Rightarrow>
                 (case encode reply of
                    Inl err \<Rightarrow> Ok (Inl (Wrapped ''Could not encode status: '' err ''''), w)
                  | Inr text \<Rightarrow> Ok (Inr text, w)))
       else Ok (Inr '''', w))"

section \<open>Which flags are accepted\<close>

definition queue_flags_ok :: "('s, 'd) aws \<Rightarrow> server_flags \<Rightarrow> bool" where
  "queue_flags_ok A F \<longleftrightarrow> flagIngestionQueue F \<in> {'''', ''memory''} \<or>
     flagIngestionQueue F = ''sqs'' \<and> flagIngestionSQSQueueURL F \<noteq> '''' \<and> flagIngestionS3Bucket F \<noteq> '''' \<and>
     \<not> isl (LoadDefaultConfig A (flagAWSRegion F)) \<and> 0 \<le> wrap32 (flagIngestionSQSVisibilityTimeoutSeconds F)"

definition ledger_flags_ok :: "('s, 'd) aws \<Rightarrow> server_flags \<Rightarrow> bool" where
  "ledger_flags_ok A F \<longleftrightarrow> flagCompletedUploadLedger F \<in> {'''', ''memory''} \<or>
     flagCompletedUploadLedger F = ''dynamodb'' \<and> flagCompletedUploadLedgerTable F \<noteq> '''' \<and>
     \<not> isl (LoadDefaultConfig A (flagAWSRegion F))"

definition server_flags_ok :: "('s, 'd) aws \<Rightarrow> server_flags \<Rightarrow> bool" where
  "server_flags_ok A F \<longleftrightarrow> flagReplicaID F \<in> {CompletedUploadReplicaActive, CompletedUploadReplicaStandby} \<and> 0 \<le> flagGlobalRowStart F \<and>
     (flagStandbyIngestionSQSQueueURL F \<noteq> '''' \<longrightarrow> flagReplicaID F = CompletedUploadReplicaActive \<and> flagIngestionQueue F = ''sqs'') \<and>
     flagIngestionSQSWaitSeconds F \<in> {0..20} \<and> 0 < flagIngestionSQSVisibilityTimeoutSeconds F \<and>
     0 < flagCompletedUploadProcessingTTLSeconds F \<and> 0 < wrap64 (flagCompletedUploadProcessingTTLSeconds F * second) \<and>
     flagIngestionReceiveBatchSize F \<in> {1..10} \<and> 0 < wrap64 (flagIngestionWorkerErrorBackoffMs F * millisecond) \<and>
     queue_flags_ok A F \<and> ledger_flags_ok A F"

lemma configure_queue_ok: "validateIngestionFlags F = Inr () \<Longrightarrow>
  (\<exists>p'. configureIngestionQueue A cloud F p = Inr p') \<longleftrightarrow> queue_flags_ok A F"
  by (auto simp: configureIngestionQueue_def queue_flags_ok_def loadAWSConfig_def SetCompletedUploadQueue_def
      SetIngestionQueueBackend_def memoryIngestionQueueBackend_def sqsIngestionQueueBackend_def
      NewSQSCompletedUploadQueueWithOptions_def newS3CompletedUploadPayloadStore_def newSQSCompletedUploadQueueWithPayloadStore_def
      validateIngestionFlags_def wrap32_def defaultSQSCompletedUploadVisibilityTimeoutSeconds_def Let_def
      split: sum.splits prod.splits if_splits)

lemma configure_ledger_ok: "(\<exists>p'. configureCompletedUploadLedger A tables F p = Inr p') \<longleftrightarrow> ledger_flags_ok A F"
  by (auto simp: configureCompletedUploadLedger_def ledger_flags_ok_def loadAWSConfig_def SetCompletedUploadLedger_def
      NewDynamoDBCompletedUploadLedger_def split: sum.splits prod.splits if_splits)

text \<open>The queue and the ledger that the flags choose.\<close>

definition chosen_queue :: "('s, 'd) aws \<Rightarrow> 's \<Rightarrow> server_flags \<Rightarrow> 's server_queue" where
  "chosen_queue A cloud F =
     (if flagIngestionQueue F = ''sqs''
      then SQSQueue \<lparr>sq_client = sqs_NewFromConfig A,
             sq_payloadStore = \<lparr>ps_client = s3_NewFromConfig A, ps_bucket = flagIngestionS3Bucket F\<rparr>,
             sq_queueURL = flagIngestionSQSQueueURL F, sq_standbyQueueURL = flagStandbyIngestionSQSQueueURL F,
             sq_waitTimeSeconds = flagIngestionSQSWaitSeconds F,
             sq_visibilityTimeoutSeconds = (let v = wrap32 (flagIngestionSQSVisibilityTimeoutSeconds F) in if v = 0 then 300 else v)\<rparr> cloud
      else MemoryQueue newMemoryCompletedUploadQueue)"

definition chosen_ledger :: "('s, 'd) aws \<Rightarrow> 'd \<Rightarrow> server_flags \<Rightarrow> 'd server_ledger" where
  "chosen_ledger A tables F =
     (if flagCompletedUploadLedger F = ''dynamodb''
      then DynamoLedger \<lparr>dl_client = dynamodb_NewFromConfig A, dl_table = flagCompletedUploadLedgerTable F\<rparr> tables
      else MemoryLedger newMemoryCompletedUploadLedger)"

definition started_server :: "('s, 'd) aws \<Rightarrow> 's \<Rightarrow> 'd \<Rightarrow> server_flags \<Rightarrow> 'w \<Rightarrow> ('s, 'd, 'w) server_process" where
  "started_server A cloud tables F w =
     \<lparr>pr_worker = \<lparr>wk_leader = \<lparr>ld_ServerIdx = nat (flagIndex F), ld_ShardID = flagShardID F, ld_replicaID = flagReplicaID F,
          ld_standbyFanout = (flagStandbyIngestionSQSQueueURL F \<noteq> ''''), ld_globalRowStart = flagGlobalRowStart F,
          ld_rpcClients = [False, False, False], ld_queue = chosen_queue A cloud F, ld_ctl = initial_runtime\<rparr>,
        wk_ledger = chosen_ledger A tables F, wk_diag = no_diagnostics, wk_clientsServed = 0,
        wk_batchSize = flagIngestionReceiveBatchSize F, wk_errorBackoff = wrap64 (flagIngestionWorkerErrorBackoffMs F * millisecond),
        wk_ttl = wrap64 (flagCompletedUploadProcessingTTLSeconds F * second),
        wk_demoFail = flagDemoFailIngestionAckOnce F, wk_demoFailed = False, wk_world = w\<rparr>,
      pr_ServerAddrs = serverList F, pr_queueBackend = queue_Backend (chosen_queue A cloud F),
      pr_ledgerBackend = ledger_Backend (chosen_ledger A tables F),
      pr_resultsDir = flagResultsDir F, pr_clientsTotal = 0, pr_rateHistory = replicate 10 (Fin 0)\<rparr>"

lemma wrap32_small: "0 \<le> x \<Longrightarrow> x < 2 ^ 31 \<Longrightarrow> wrap32 x = x"
  by (simp add: wrap32_def)

lemma configure_queue_eq:
  assumes "validateIngestionFlags F = Inr ()" "configureIngestionQueue A cloud F p = Inr p'" "\<not> ld_standbyFanout (pr_leader p)"
  shows "p' = (update_leader (\<lambda>s. s\<lparr>ld_queue := chosen_queue A cloud F, ld_standbyFanout := (flagStandbyIngestionSQSQueueURL F \<noteq> '''')\<rparr>) p)
     \<lparr>pr_queueBackend := queue_Backend (chosen_queue A cloud F)\<rparr>"
proof -
  have wait: "wrap32 (flagIngestionSQSWaitSeconds F) = flagIngestionSQSWaitSeconds F"
    and standby: "flagStandbyIngestionSQSQueueURL F \<noteq> '''' \<longrightarrow> flagIngestionQueue F = ''sqs''"
    using assms(1) by (auto simp: validateIngestionFlags_def intro: wrap32_small split: if_splits)
  show ?thesis
  proof (cases "flagIngestionQueue F = ''sqs''")
    case True
    then show ?thesis
      using assms(2) wait
      by (auto simp: configureIngestionQueue_def SetCompletedUploadQueue_def SetStandbyIngestionFanoutConfigured_def
          NewSQSCompletedUploadQueueWithOptions_def newS3CompletedUploadPayloadStore_def newSQSCompletedUploadQueueWithPayloadStore_def
          defaultSQSCompletedUploadVisibilityTimeoutSeconds_def chosen_queue_def Let_def split: sum.splits if_splits)
  next
    case False
    then have "flagStandbyIngestionSQSQueueURL F = ''''" using standby by auto
    then show ?thesis
      using assms(2,3) False
      by (auto simp: configureIngestionQueue_def SetIngestionQueueBackend_def chosen_queue_def split: if_splits)
  qed
qed

lemma configure_ledger_eq:
  assumes "configureCompletedUploadLedger A tables F p = Inr p'"
    and "wk_ledger (pr_worker p) = MemoryLedger newMemoryCompletedUploadLedger" "pr_ledgerBackend p = memoryCompletedUploadLedgerBackend"
  shows "p' = p\<lparr>pr_worker := (pr_worker p)\<lparr>wk_ledger := chosen_ledger A tables F\<rparr>, pr_ledgerBackend := ledger_Backend (chosen_ledger A tables F)\<rparr>"
  using assms by (auto simp: configureCompletedUploadLedger_def SetCompletedUploadLedger_def NewDynamoDBCompletedUploadLedger_def
      chosen_ledger_def split: sum.splits if_splits)

lemma validate_flags_ok: "server_flags_ok A F \<Longrightarrow> validateIngestionFlags F = Inr ()"
  by (auto simp: server_flags_ok_def validateIngestionFlags_def CompletedUploadReplicaActive_def CompletedUploadReplicaStandby_def)

lemma replica_valid:
  "flagReplicaID F \<in> {CompletedUploadReplicaActive, CompletedUploadReplicaStandby} \<Longrightarrow>
     SetReplicaID (flagReplicaID F) s = (Inr (), s\<lparr>ld_replicaID := flagReplicaID F\<rparr>)"
  by (auto simp: SetReplicaID_def validateCompletedUploadReplicaID_def CompletedUploadReplicaActive_def CompletedUploadReplicaStandby_def)

lemma configure_server_accepts:
  assumes ok: "server_flags_ok A F"
  shows "configure_server A cloud tables F (NewServer (nat (flagIndex F)) (serverList F) w) = Inr (started_server A cloud tables F w)"
proof -
  note v = validate_flags_ok [OF ok]
  define p1 :: "('a, 'b, 'c) server_process" where "p1 = update_leader (\<lambda>s. s\<lparr>ld_ShardID := flagShardID F, ld_replicaID := flagReplicaID F,
      ld_globalRowStart := flagGlobalRowStart F\<rparr>) (NewServer (nat (flagIndex F)) (serverList F) w)"
  obtain p2 where p2: "configureIngestionQueue A cloud F p1 = Inr p2"
    using configure_queue_ok [OF v, of A cloud p1] ok by (auto simp: server_flags_ok_def)
  define p3 where "p3 = p2\<lparr>pr_worker := (pr_worker p2)\<lparr>wk_batchSize := flagIngestionReceiveBatchSize F,
      wk_errorBackoff := wrap64 (flagIngestionWorkerErrorBackoffMs F * millisecond)\<rparr>\<rparr>"
  obtain p4 where p4: "configureCompletedUploadLedger A tables F p3 = Inr p4"
    using configure_ledger_ok [of A tables F p3] ok by (auto simp: server_flags_ok_def)
  have p2': "p2 = (update_leader (\<lambda>s. s\<lparr>ld_queue := chosen_queue A cloud F, ld_standbyFanout := (flagStandbyIngestionSQSQueueURL F \<noteq> '''')\<rparr>) p1)
     \<lparr>pr_queueBackend := queue_Backend (chosen_queue A cloud F)\<rparr>"
    by (rule configure_queue_eq [OF v p2]) (simp add: p1_def NewServer_def)
  have p4': "p4 = p3\<lparr>pr_worker := (pr_worker p3)\<lparr>wk_ledger := chosen_ledger A tables F\<rparr>, pr_ledgerBackend := ledger_Backend (chosen_ledger A tables F)\<rparr>"
    by (rule configure_ledger_eq [OF p4]) (simp_all add: p3_def p2' p1_def NewServer_def)
  have p1: "configure_server A cloud tables F (NewServer (nat (flagIndex F)) (serverList F) w)
      = Inr (SetResultsDir (flagResultsDir F) (p4\<lparr>pr_worker := SetDemoFailIngestionAckOnce (flagDemoFailIngestionAckOnce F)
          ((pr_worker p4)\<lparr>wk_ttl := wrap64 (flagCompletedUploadProcessingTTLSeconds F * second)\<rparr>)\<rparr>))"
    using ok v p2 p4 unfolding configure_server_def Let_def
    by (auto simp: replica_valid SetShardID_def SetGlobalRowStart_def SetIngestionWorkerConfig_def
        SetCompletedUploadProcessingTTL_def server_flags_ok_def p1_def p3_def)
  show ?thesis
    unfolding p1 by (simp add: p4' p3_def p2' p1_def NewServer_def started_server_def SetResultsDir_def SetDemoFailIngestionAckOnce_def
        NUM_SERVERS_def numeral_3_eq_3)
qed

lemma configure_server_only_ok:
  assumes "configure_server A cloud tables F p = Inr p'"
  shows "server_flags_ok A F"
proof -
  obtain p1 p2 p3 p4 :: "('a, 'b, 'c) server_process" where v: "validateIngestionFlags F = Inr ()"
      and q: "configureIngestionQueue A cloud F p1 = Inr p2" and l: "configureCompletedUploadLedger A tables F p3 = Inr p4"
      and rest: "0 \<le> flagGlobalRowStart F"
      "flagIngestionReceiveBatchSize F \<in> {1..10}" "0 < wrap64 (flagIngestionWorkerErrorBackoffMs F * millisecond)"
      "0 < wrap64 (flagCompletedUploadProcessingTTLSeconds F * second)"
    using assms unfolding configure_server_def Let_def
    by (fastforce simp: SetGlobalRowStart_def SetIngestionWorkerConfig_def SetCompletedUploadProcessingTTL_def
        split: sum.splits prod.splits if_splits)
  have "queue_flags_ok A F" "ledger_flags_ok A F"
    using configure_queue_ok [OF v, of A cloud p1] q configure_ledger_ok [of A tables F p3] l by auto
  then show ?thesis
    using v rest by (auto simp: server_flags_ok_def validateIngestionFlags_def split: if_splits)
qed

section \<open>Peers\<close>

text \<open>The address answers with the certificate of server \<open>i\<close>.\<close>

definition answers_as :: "server_keys \<Rightarrow> (duration \<Rightarrow> string \<Rightarrow> tls_Config res) \<Rightarrow> nat \<Rightarrow> string \<Rightarrow> bool" where
  "answers_as S net i addr \<longleftrightarrow> (case net 0 addr of Inl _ \<Rightarrow> False
     | Inr server \<Rightarrow> peer_certificate server = Some (leaf (ServerCertificates S ! i)))"

lemma connectToServer_outcome:
  assumes "keys_ok K S" "i < 8" "idx < 8"
  obtains r where "connectToServer K S net idx addr i = Ok r" "isl r \<longleftrightarrow> \<not> answers_as S net i addr"
proof -
  have cert: "\<forall>cert \<in> set [ServerCertificates S ! i]. cert_ok K cert" using assms(1,2) by (simp add: keys_ok_def)
  have n: "length (ServerCertificates S) = 8" using assms(1) by (simp add: keys_ok_def)
  have "\<exists>r. connectToServer K S net idx addr i = Ok r \<and> (isl r \<longleftrightarrow> \<not> answers_as S net i addr)"
  proof (cases "net 0 addr")
    case (Inr server)
    show ?thesis
    proof (cases "peer_certificate server")
      case (Some present)
      obtain certs where "validateCert K [ServerCertificates S ! i] present = Ok (present \<in> leaf ` set [ServerCertificates S ! i], certs)"
        using validateCert_ok [OF cert] by blast
      then show ?thesis
        using Inr Some assms(2,3) n unfolding connectToServer_def DialHTTPWithTLS_def DialHTTPWithTLSWithTimeout_def Let_def
        by (simp add: answers_as_def del: validateCert.simps)
    qed (use Inr assms(2,3) n in \<open>simp add: connectToServer_def DialHTTPWithTLS_def DialHTTPWithTLSWithTimeout_def answers_as_def\<close>)
  qed (use assms(2,3) n in \<open>simp add: connectToServer_def DialHTTPWithTLS_def DialHTTPWithTLSWithTimeout_def answers_as_def\<close>)
  then show thesis using that by blast
qed

lemma dial_peers_outcome:
  assumes "keys_ok K S" "idx < 8"
  shows "i + length addrs \<le> 8 \<Longrightarrow> \<exists>rs. dial_peers K S net idx i addrs = Ok rs \<and> length rs = length addrs \<and>
     (\<forall>k < length addrs. isl (rs ! k) \<longleftrightarrow> \<not> answers_as S net (i + k) (addrs ! k))"
proof (induction addrs arbitrary: i)
  case (Cons addr addrs)
  obtain r where r: "connectToServer K S net idx addr i = Ok r" "isl r \<longleftrightarrow> \<not> answers_as S net i addr"
    using connectToServer_outcome [OF assms(1) _ assms(2), of i] Cons.prems by auto
  obtain rs where rs: "dial_peers K S net idx (Suc i) addrs = Ok rs" "length rs = length addrs"
      "\<forall>k < length addrs. isl (rs ! k) \<longleftrightarrow> \<not> answers_as S net (Suc i + k) (addrs ! k)"
    using Cons.IH [of "Suc i"] Cons.prems by auto
  have "isl ((r # rs) ! k) \<longleftrightarrow> \<not> answers_as S net (i + k) ((addr # addrs) ! k)" if "k < Suc (length addrs)" for k
    using that r(2) rs(3) by (cases k) auto
  then show ?case using r(1) rs(1,2) by (intro exI [of _ "r # rs"]) simp
qed simp

lemma connect_peers_outcome:
  assumes S: "keys_ok K S" and l: "isLeader (pr_leader p)" and n: "length (pr_ServerAddrs p) \<le> 3"
    and o: "set order = {0..<length (pr_ServerAddrs p)}"
  obtains p' where "connect_peers K S net order p = Ok p'" "ld_ServerIdx (pr_leader p') = 0"
    "peerState (ld_ctl (pr_leader p')) = (if \<forall>i < length (pr_ServerAddrs p). answers_as S net i (pr_ServerAddrs p ! i)
       then PeerConnectionsReady else PeerConnectionsFailed)"
    "\<And>i. i < length (pr_ServerAddrs p) \<Longrightarrow> ld_rpcClients (pr_leader p') ! i \<longleftrightarrow> answers_as S net i (pr_ServerAddrs p ! i)"
    "epoch (ld_ctl (pr_leader p')) = epoch (ld_ctl (pr_leader p))" "ld_replicaID (pr_leader p') = ld_replicaID (pr_leader p)"
proof -
  let ?addrs = "pr_ServerAddrs p" and ?s = "pr_leader p"
  have idx: "ld_ServerIdx ?s = 0" using l by (simp add: isLeader_def)
  obtain rs where rs: "dial_peers K S net 0 0 ?addrs = Ok rs" "length rs = length ?addrs"
      "\<forall>k < length ?addrs. isl (rs ! k) \<longleftrightarrow> \<not> answers_as S net k (?addrs ! k)"
    using dial_peers_outcome [OF S, of 0 0 ?addrs net] n by auto
  define s1 where "s1 = ?s\<lparr>ld_rpcClients := map (\<lambda>i. if i < length rs then \<not> isl (rs ! i) else ld_rpcClients ?s ! i) [0..<NUM_SERVERS + 1]\<rparr>"
  have s1: "isLeader s1" "ld_ServerIdx s1 = 0" "\<And>i. i < length ?addrs \<Longrightarrow> ld_rpcClients s1 ! i \<longleftrightarrow> answers_as S net i (?addrs ! i)"
    using idx rs(2,3) n by (auto simp: s1_def isLeader_def NUM_SERVERS_def nth_append)
  have open_eq: "openConnections K S net order ?addrs ?s = (case filter (\<lambda>i. isl (rs ! i)) order of
      [] \<Rightarrow> Ok (Inr (), s1) | i # _ \<Rightarrow> Ok (Inl (Wrapped ''connection failed: '' (projl (rs ! i)) ''''), s1))"
    using l n rs(1) idx by (simp add: openConnections_def NUM_SERVERS_def s1_def Let_def split: list.split)
  have all: "filter (\<lambda>i. isl (rs ! i)) order = [] \<longleftrightarrow> (\<forall>i < length ?addrs. answers_as S net i (?addrs ! i))"
    using rs(3) o by (auto simp: filter_empty_conv)
  have keep: "epoch (ld_ctl s1) = epoch (ld_ctl ?s)" "ld_replicaID s1 = ld_replicaID ?s" by (simp_all add: s1_def)
  show thesis
  proof (cases "filter (\<lambda>i. isl (rs ! i)) order")
    case Nil
    show thesis
      by (rule that [of "update_leader (\<lambda>_. setPeerConnectionState PeerConnectionsReady None s1) p"])
        (use all Nil s1 keep in \<open>simp_all add: connect_peers_def open_eq setPeerConnectionState_def updatePeerConnectionStateCommand_def\<close>)
  next
    case (Cons i rest)
    show thesis
      by (rule that [of "update_leader (\<lambda>_. setPeerConnectionState PeerConnectionsFailed
            (Some (Wrapped ''connection failed: '' (projl (rs ! i)) '''')) s1) p"])
        (use all Cons s1 keep in \<open>auto simp: connect_peers_def open_eq setPeerConnectionState_def updatePeerConnectionStateCommand_def\<close>)
  qed
qed

section \<open>Starting\<close>

lemma server_main_serves:
  assumes "server_main S A cloud tables openLog listen F w = Serving p port config"
  shows "flagStartEpoch F \<le> 0" "\<not> flagEpochStatus F" "\<not> flagStatus F" "flagLog F = '''' \<or> openLog (flagLog F)"
    "0 \<le> flagIndex F" "flagIndex F < int (length (serverList F))" "server_flags_ok A F" "p = started_server A cloud tables F w"
    "ListenAndServe S listen (serverList F ! nat (flagIndex F)) (nat (flagIndex F))
       (if flagIndex F > 0 then [LeaderCertificate S] else []) = Ok (port, config)"
proof -
  have guards: "flagStartEpoch F \<le> 0 \<and> \<not> flagEpochStatus F \<and> \<not> flagStatus F \<and> (flagLog F = '''' \<or> openLog (flagLog F)) \<and>
      0 \<le> flagIndex F \<and> flagIndex F < int (length (serverList F))"
    using assms by (auto simp: server_main_def split: if_splits)
  obtain p' where conf: "configure_server A cloud tables F (NewServer (nat (flagIndex F)) (serverList F) w) = Inr p'"
    using assms by (auto simp: server_main_def Let_def split: if_splits sum.splits)
  have p': "server_flags_ok A F" "p' = started_server A cloud tables F w"
    using configure_server_only_ok [OF conf] configure_server_accepts [of A F cloud tables w] conf by simp_all
  have "p = p' \<and> ListenAndServe S listen (serverList F ! nat (flagIndex F)) (nat (flagIndex F))
       (if flagIndex F > 0 then [LeaderCertificate S] else []) = Ok (port, config)"
    using assms conf by (auto simp: server_main_def Let_def split: if_splits go.splits)
  with guards p' show "flagStartEpoch F \<le> 0" "\<not> flagEpochStatus F" "\<not> flagStatus F" "flagLog F = '''' \<or> openLog (flagLog F)"
    "0 \<le> flagIndex F" "flagIndex F < int (length (serverList F))" "server_flags_ok A F" "p = started_server A cloud tables F w"
    "ListenAndServe S listen (serverList F ! nat (flagIndex F)) (nat (flagIndex F))
       (if flagIndex F > 0 then [LeaderCertificate S] else []) = Ok (port, config)" by simp_all
qed

section \<open>Properties\<close>

text \<open>C17: Which flags start a server, and with what. \<^verbatim>\<open>main\<close> gets to serving exactly when no administrative command is asked
  for, the log file can be opened, the index names one of the servers, the flags of the upload
  queue, the workers and the ledger are acceptable, and listening succeeds; the server that then runs
  has exactly the configuration of the flags, an empty queue and ledger of the chosen kinds, and no epoch.\<close>

theorem server_starts_iff:
  "server_main S A cloud tables openLog listen F w = Serving p port config \<longleftrightarrow>
     flagStartEpoch F \<le> 0 \<and> \<not> flagEpochStatus F \<and> \<not> flagStatus F \<and> (flagLog F = '''' \<or> openLog (flagLog F)) \<and>
     0 \<le> flagIndex F \<and> flagIndex F < int (length (serverList F)) \<and> server_flags_ok A F \<and>
     p = started_server A cloud tables F w \<and>
     ListenAndServe S listen (serverList F ! nat (flagIndex F)) (nat (flagIndex F))
       (if flagIndex F > 0 then [LeaderCertificate S] else []) = Ok (port, config)"
proof
  assume "server_main S A cloud tables openLog listen F w = Serving p port config"
  from server_main_serves [OF this] show "flagStartEpoch F \<le> 0 \<and> \<not> flagEpochStatus F \<and> \<not> flagStatus F \<and>
     (flagLog F = '''' \<or> openLog (flagLog F)) \<and> 0 \<le> flagIndex F \<and> flagIndex F < int (length (serverList F)) \<and> server_flags_ok A F \<and>
     p = started_server A cloud tables F w \<and>
     ListenAndServe S listen (serverList F ! nat (flagIndex F)) (nat (flagIndex F))
       (if flagIndex F > 0 then [LeaderCertificate S] else []) = Ok (port, config)" by simp
next
  assume "flagStartEpoch F \<le> 0 \<and> \<not> flagEpochStatus F \<and> \<not> flagStatus F \<and>
     (flagLog F = '''' \<or> openLog (flagLog F)) \<and> 0 \<le> flagIndex F \<and> flagIndex F < int (length (serverList F)) \<and> server_flags_ok A F \<and>
     p = started_server A cloud tables F w \<and>
     ListenAndServe S listen (serverList F ! nat (flagIndex F)) (nat (flagIndex F))
       (if flagIndex F > 0 then [LeaderCertificate S] else []) = Ok (port, config)"
  then show "server_main S A cloud tables openLog listen F w = Serving p port config"
    using configure_server_accepts [of A F cloud tables w] by (auto simp: server_main_def Let_def split: if_splits)
qed


definition toy_aws :: "(toy_cloud, tables \<times> tables) aws" where
  "toy_aws = \<lparr>LoadDefaultConfig = (\<lambda>region. Inr ()), sqs_NewFromConfig = toy_sqs True, s3_NewFromConfig = toy_s3,
     dynamodb_NewFromConfig = toy_dynamo\<rparr>"

definition pair_flags :: "int \<Rightarrow> server_flags" where
  "pair_flags i = default_server_flags\<lparr>flagIndex := i, serverList := [''localhost:8090'', ''localhost:8091''],
     flagIngestionQueue := ''sqs'', flagIngestionSQSQueueURL := ''active'', flagIngestionS3Bucket := ''payloads'',
     flagCompletedUploadLedger := ''dynamodb'', flagCompletedUploadLedgerTable := ''ledger''\<rparr>"

lemma pair_flags_ok: "server_flags_ok toy_aws (pair_flags i)"
  by (simp add: server_flags_ok_def pair_flags_def default_server_flags_def queue_flags_ok_def ledger_flags_ok_def
      CompletedUploadReplicaActive_def toy_aws_def wrap32_def wrap64_def millisecond_def second_def)


text \<open>A leader with more than three addresses ends: its array of clients has three entries.\<close>

theorem long_server_list_ends_leader:
  assumes "server_main S A cloud tables openLog listen F w = Serving p port config" "flagIndex F = 0" "3 < length (serverList F)"
  shows "connect_peers K S net order p = Panic"
  using server_main_serves(8) [OF assms(1)] assms(2,3)
  by (simp add: connect_peers_def openConnections_def started_server_def isLeader_def NUM_SERVERS_def)

text \<open>The statistics loop keeps ten rates; an upload that is counted between its two steps is lost from the total.\<close>

theorem printStats_total:
  "length (pr_rateHistory p) = 10 \<Longrightarrow> length (pr_rateHistory (printStats_count p)) = 10"
  "pr_clientsTotal (printStats_reset (printStats_count p)) + wk_clientsServed (pr_worker (printStats_reset (printStats_count p)))
     = pr_clientsTotal p + wk_clientsServed (pr_worker p)"
  "pr_clientsTotal (printStats_reset (DoNothing (printStats_count p)))
       + wk_clientsServed (pr_worker (printStats_reset (DoNothing (printStats_count p))))
     = pr_clientsTotal (DoNothing p) + wk_clientsServed (pr_worker (DoNothing p)) - 1"
  by (simp_all add: printStats_count_def printStats_reset_def DoNothing_def Let_def)

end
