(* ===== verification/Dynamo_Store.thy ===== *)
theory Dynamo_Store
  imports Coordinator_Lease Dynamo_Table Hex_Text
begin

text \<open>
  The control store and the session store on DynamoDB (\<^verbatim>\<open>src/controlstore/dynamodb.go\<close>): the same operations
  as the in-memory stores, each a read or one conditional update of one item.

  The service is the parameter of \<open>Dynamo_Table\<close>; a context error is \<open>ctx\<close> as in the in-memory store,
  and a timeout is one of the errors of the service. \<^verbatim>\<open>encoding/json\<close>, \<^verbatim>\<open>crypto/sha256\<close> and the text of a
  float are the parameter \<open>codec\<close>, with the documented round trip of \<^verbatim>\<open>FormatFloat\<close> as \<open>codec_ok\<close>.

  Shown here, for every service that keeps what \<open>dynamo_ok\<close> says, with stale reads and lost answers:
  the store meets the interface \<open>lease_store\<close>, so that everything proved in \<open>coordinator_lease\<close> holds for
  coordinators that share a table; the version of the shard map never decreases; the epoch cycle
  moves only along its transition table; a stored session is never overwritten. And for every
  record type, what is written is what is read back, up to the resolution of the stored times.
\<close>

section \<open>Data\<close>

record codec =
  json_Marshal_config :: "ShardConfigRecord \<Rightarrow> byte list res"
  json_Marshal_scaling :: "ScalingRecommendationRecord \<Rightarrow> byte list res"
  sha256_Sum256 :: "byte list \<Rightarrow> byte list"
  FormatFloat :: "float64 \<Rightarrow> string"
  ParseFloat :: "string \<Rightarrow> float64 res"

definition codec_ok :: "codec \<Rightarrow> bool" where
  "codec_ok J \<longleftrightarrow> (\<forall>x. ParseFloat J (FormatFloat J (Fin x)) = Inr (Fin x))"

record 'd DynamoDBStore =
  ds_client :: "'d dynamo"
  ds_table :: string
  ds_timeout :: duration

definition dynamoControlLeasePK :: string where "dynamoControlLeasePK = ''lease''"
definition dynamoControlEpochPK :: string where "dynamoControlEpochPK = ''epoch''"
definition dynamoControlShardConfigPK :: string where "dynamoControlShardConfigPK = ''shard-config''"
definition dynamoControlEpochCyclePK :: string where "dynamoControlEpochCyclePK = ''epoch-cycle''"
definition defaultDynamoOperationTimeout :: duration where "defaultDynamoOperationTimeout = 5 * second"

definition NewDynamoDBStore :: "'d dynamo option \<Rightarrow> string \<Rightarrow> 'd DynamoDBStore res" where
  "NewDynamoDBStore client tableName =
     (case client of
        None \<Rightarrow> Inl (ErrorString ''dynamodb client is required'')
      | Some client \<Rightarrow>
          if tableName = '''' then Inl (ErrorString ''dynamodb control table is required'')
          else Inr \<lparr>ds_client = client, ds_table = tableName, ds_timeout = defaultDynamoOperationTimeout\<rparr>)"

definition DynamoDBStoreConfigError :: "string \<Rightarrow> go_error" where
  "DynamoDBStoreConfigError name = ErrorString (name @ '' is required for dynamodb store'')"

definition float64Attr :: "codec \<Rightarrow> item \<Rightarrow> string \<Rightarrow> float64" where
  "float64Attr J item name =
     (case gm_get item name of
        Some (AttrN v) \<Rightarrow> (case ParseFloat J v of Inl _ \<Rightarrow> Fin 0 | Inr f \<Rightarrow> f) | _ \<Rightarrow> Fin 0)"

definition floatNumberAttr :: "codec \<Rightarrow> float64 \<Rightarrow> attr" where
  "floatNumberAttr J value = AttrN (FormatFloat J value)"

text \<open>\<^verbatim>\<open>getItem\<close> and \<^verbatim>\<open>getItemWithContext\<close>.\<close>

definition dy_getItem :: "'d DynamoDBStore \<Rightarrow> string \<Rightarrow> 'd \<Rightarrow> item option res" where
  "dy_getItem D pk d =
     (case GetItem (ds_client D) (ds_table D) (dynamoKey pk) d of
        Inl err \<Rightarrow> Inl err
      | Inr out \<Rightarrow> if out = [] then Inr None else Inr (Some out))"

section \<open>The lease\<close>

definition leaseFromItem :: "item \<Rightarrow> CoordinatorLease" where
  "leaseFromItem item = \<lparr>Holder = stringAttr item ''holder'', FencingToken = int64Attr item ''fencing_token'',
     ExpiresAt = time_UnixMilli (int64Attr item ''expires_unix_ms'')\<rparr>"

definition dy_CurrentLease :: "'d DynamoDBStore \<Rightarrow> gotime \<Rightarrow> 'd \<Rightarrow> CoordinatorLease option" where
  "dy_CurrentLease D now d =
     (case dy_getItem D dynamoControlLeasePK d of
        Inr (Some item) \<Rightarrow>
          (let lease = leaseFromItem item in if \<not> Before now (ExpiresAt lease) then None else Some lease)
      | _ \<Rightarrow> None)"

definition renew_request :: "'d DynamoDBStore \<Rightarrow> gotime \<Rightarrow> string \<Rightarrow> int \<Rightarrow> duration \<Rightarrow> UpdateItemInput" where
  "renew_request D now holder fencingToken ttl =
     \<lparr>ui_TableName = ds_table D, ui_Key = dynamoKey dynamoControlLeasePK,
      ui_Set = [(''expires_unix_ms'', SetTo '':expires'')], ui_Remove = [],
      ui_ConditionExpression =
        CondAnd (CondAnd (Compare ''holder'' CmpEq '':holder'') (Compare ''fencing_token'' CmpEq '':token''))
                (Compare ''expires_unix_ms'' CmpGt '':now''),
      ui_ExpressionAttributeNames = [],
      ui_ExpressionAttributeValues =
        [('':holder'', AttrS holder), ('':token'', numberAttr fencingToken),
         ('':expires'', numberAttr (UnixMilli (now + ttl))), ('':now'', numberAttr (UnixMilli now))],
      ui_ReturnAllNew = True\<rparr>"

definition dy_RenewLease ::
  "'d DynamoDBStore \<Rightarrow> gotime \<Rightarrow> string \<Rightarrow> int \<Rightarrow> duration \<Rightarrow> 'd \<Rightarrow> CoordinatorLease res \<times> 'd" where
  "dy_RenewLease D now holder fencingToken ttl d =
     (if ttl \<le> 0 then (Inl (ErrorString ''lease ttl must be positive''), d)
      else case UpdateItem (ds_client D) (renew_request D now holder fencingToken ttl) d of
        (Inl err, d) \<Rightarrow>
          if isConditionalCheckFailed err
          then (case dy_CurrentLease D now d of
                  None \<Rightarrow> (Inl errLeaseNotHeld, d)
                | Some _ \<Rightarrow> (Inl errStaleFence, d))
          else (Inl err, d)
      | (Inr out, d) \<Rightarrow> (Inr (leaseFromItem out), d))"

definition acquire_request :: "'d DynamoDBStore \<Rightarrow> gotime \<Rightarrow> string \<Rightarrow> duration \<Rightarrow> UpdateItemInput" where
  "acquire_request D now holder ttl =
     \<lparr>ui_TableName = ds_table D, ui_Key = dynamoKey dynamoControlLeasePK,
      ui_Set = [(''holder'', SetTo '':holder''), (''expires_unix_ms'', SetTo '':expires''),
                (''fencing_token'', IncrementFrom ''fencing_token'' '':zero'' '':one'')], ui_Remove = [],
      ui_ConditionExpression = CondOr (AttributeNotExists ''pk'') (Compare ''expires_unix_ms'' CmpLe '':now''),
      ui_ExpressionAttributeNames = [],
      ui_ExpressionAttributeValues =
        [('':holder'', AttrS holder), ('':expires'', numberAttr (UnixMilli (now + ttl))),
         ('':now'', numberAttr (UnixMilli now)), ('':zero'', numberAttr 0), ('':one'', numberAttr 1)],
      ui_ReturnAllNew = True\<rparr>"

definition dy_AcquireLease ::
  "'d DynamoDBStore \<Rightarrow> gotime \<Rightarrow> string \<Rightarrow> duration \<Rightarrow> 'd \<Rightarrow> CoordinatorLease res \<times> 'd" where
  "dy_AcquireLease D now holder ttl d =
     (if holder = '''' then (Inl (ErrorString ''lease holder is required''), d)
      else if ttl \<le> 0 then (Inl (ErrorString ''lease ttl must be positive''), d)
      else
      let take = (case UpdateItem (ds_client D) (acquire_request D now holder ttl) d of
            (Inl err, d) \<Rightarrow> if isConditionalCheckFailed err then (Inl errLeaseHeld, d) else (Inl err, d)
          | (Inr out, d) \<Rightarrow> (Inr (leaseFromItem out), d))
      in case dy_getItem D dynamoControlLeasePK d of
           Inl err \<Rightarrow> (Inl err, d)
         | Inr (Some item) \<Rightarrow>
             (let current = leaseFromItem item in
              if Before now (ExpiresAt current)
              then if Holder current \<noteq> holder then (Inl errLeaseHeld, d)
                   else dy_RenewLease D now holder (FencingToken current) ttl d
              else take)
         | Inr None \<Rightarrow> take)"

section \<open>The epoch\<close>

definition epochToAttributes :: "EpochMeta \<Rightarrow> int \<Rightarrow> item" where
  "epochToAttributes ep shardConfigVersion =
     [('':epoch_id'', numberAttr (ep_ID ep)), ('':state'', AttrS (DbState_String (ep_State ep))),
      ('':start_unix'', numberAttr (Unix (ep_StartTime ep))), ('':end_unix'', numberAttr (Unix (ep_EndTime ep))),
      ('':duration_secs'', numberAttr (ep_DurationSeconds ep)),
      ('':accepting'', AttrBOOL (ep_State ep = EpochStateActive)),
      ('':shard_config_version'', numberAttr shardConfigVersion),
      ('':shard_config_key'', AttrS (epochShardConfigKey (ep_ID ep))),
      ('':active'', AttrS (DbState_String EpochStateActive))]"

definition parseEpochStateName :: "string \<Rightarrow> DbState" where
  "parseEpochStateName state =
     (if state = DbState_String EpochStateActive then EpochStateActive
      else if state = DbState_String EpochStateClosing then EpochStateClosing
      else if state = DbState_String EpochStateMerging then EpochStateMerging
      else if state = DbState_String EpochStateCompleted then EpochStateCompleted
      else EpochStateNoActive)"

definition epochFromItem :: "item \<Rightarrow> EpochMeta" where
  "epochFromItem item =
     \<lparr>ep_ID = int64Attr item ''epoch_id'', ep_State = parseEpochStateName (stringAttr item ''state''),
      ep_StartTime = time_Unix (int64Attr item ''start_unix''), ep_EndTime = time_Unix (int64Attr item ''end_unix''),
      ep_DurationSeconds = int64Attr item ''duration_secs''\<rparr>"

definition start_request :: "'d DynamoDBStore \<Rightarrow> EpochMeta \<Rightarrow> int \<Rightarrow> UpdateItemInput" where
  "start_request D ep shardConfigVersion =
     \<lparr>ui_TableName = ds_table D, ui_Key = dynamoKey dynamoControlEpochPK,
      ui_Set = [(''epoch_id'', SetTo '':epoch_id''), (''#state'', SetTo '':state''), (''start_unix'', SetTo '':start_unix''),
        (''end_unix'', SetTo '':end_unix''), (''duration_secs'', SetTo '':duration_secs''), (''accepting'', SetTo '':accepting''),
        (''shard_config_version'', SetTo '':shard_config_version''), (''shard_config_key'', SetTo '':shard_config_key'')],
      ui_Remove = [],
      ui_ConditionExpression =
        CondOr (CondOr (AttributeNotExists ''pk'') (Compare ''epoch_id'' CmpEq '':epoch_id'')) (Compare ''#state'' CmpNe '':active''),
      ui_ExpressionAttributeNames = [(''#state'', ''state'')],
      ui_ExpressionAttributeValues = epochToAttributes ep shardConfigVersion, ui_ReturnAllNew = False\<rparr>"

definition dy_StartEpoch :: "'d DynamoDBStore \<Rightarrow> EpochMeta \<Rightarrow> int \<Rightarrow> 'd \<Rightarrow> unit res \<times> 'd" where
  "dy_StartEpoch D ep shardConfigVersion d =
     (if ep_ID ep \<le> 0 then (Inl (ErrorString ''epoch id must be positive''), d)
      else case UpdateItem (ds_client D) (start_request D ep shardConfigVersion) d of
        (Inl err, d) \<Rightarrow> if isConditionalCheckFailed err then (Inl errEpochMismatch, d) else (Inl err, d)
      | (Inr _, d) \<Rightarrow> (Inr (), d))"

definition complete_request :: "'d DynamoDBStore \<Rightarrow> int \<Rightarrow> UpdateItemInput" where
  "complete_request D epochID =
     \<lparr>ui_TableName = ds_table D, ui_Key = dynamoKey dynamoControlEpochPK,
      ui_Set = [(''#state'', SetTo '':completed''), (''accepting'', SetTo '':accepting'')], ui_Remove = [],
      ui_ConditionExpression = Compare ''epoch_id'' CmpEq '':epoch_id'',
      ui_ExpressionAttributeNames = [(''#state'', ''state'')],
      ui_ExpressionAttributeValues =
        [('':epoch_id'', numberAttr epochID), ('':completed'', AttrS (DbState_String EpochStateCompleted)),
         ('':accepting'', AttrBOOL False)],
      ui_ReturnAllNew = True\<rparr>"

definition dy_CompleteEpoch :: "'d DynamoDBStore \<Rightarrow> int \<Rightarrow> 'd \<Rightarrow> EpochMeta res \<times> 'd" where
  "dy_CompleteEpoch D epochID d =
     (case UpdateItem (ds_client D) (complete_request D epochID) d of
        (Inl err, d) \<Rightarrow> if isConditionalCheckFailed err then (Inl errEpochMismatch, d) else (Inl err, d)
      | (Inr out, d) \<Rightarrow> (Inr (epochFromItem out), d))"

definition dy_CurrentEpoch :: "'d DynamoDBStore \<Rightarrow> 'd \<Rightarrow> EpochMeta option" where
  "dy_CurrentEpoch D d =
     (case dy_getItem D dynamoControlEpochPK d of Inr (Some item) \<Rightarrow> Some (epochFromItem item) | _ \<Rightarrow> None)"

definition accepting_request :: "'d DynamoDBStore \<Rightarrow> int \<Rightarrow> bool \<Rightarrow> UpdateItemInput" where
  "accepting_request D epochID b =
     \<lparr>ui_TableName = ds_table D, ui_Key = dynamoKey dynamoControlEpochPK,
      ui_Set = [(''accepting'', SetTo '':accepting'')], ui_Remove = [],
      ui_ConditionExpression = Compare ''epoch_id'' CmpEq '':epoch_id'', ui_ExpressionAttributeNames = [],
      ui_ExpressionAttributeValues = [('':epoch_id'', numberAttr epochID), ('':accepting'', AttrBOOL b)],
      ui_ReturnAllNew = False\<rparr>"

definition dy_SetAccepting :: "'d DynamoDBStore \<Rightarrow> int \<Rightarrow> bool \<Rightarrow> 'd \<Rightarrow> unit res \<times> 'd" where
  "dy_SetAccepting D epochID b d =
     (case UpdateItem (ds_client D) (accepting_request D epochID b) d of
        (Inl err, d) \<Rightarrow> if isConditionalCheckFailed err then (Inl errEpochMismatch, d) else (Inl err, d)
      | (Inr _, d) \<Rightarrow> (Inr (), d))"

definition dy_Accepting :: "'d DynamoDBStore \<Rightarrow> int \<Rightarrow> 'd \<Rightarrow> bool res" where
  "dy_Accepting D epochID d =
     (case dy_getItem D dynamoControlEpochPK d of
        Inl err \<Rightarrow> Inl err
      | Inr None \<Rightarrow> Inl errEpochMismatch
      | Inr (Some item) \<Rightarrow>
          if int64Attr item ''epoch_id'' \<noteq> epochID then Inl errEpochMismatch else Inr (boolAttr item ''accepting''))"

section \<open>Shard configurations\<close>

definition shard_entry :: "ShardConfig \<Rightarrow> attr" where
  "shard_entry shard =
     (let (standbyLeader, standbyFollower) =
        (case Standby shard of None \<Rightarrow> ('''', '''') | Some p \<Rightarrow> (LeaderAddr p, FollowerAddr p))
      in AttrM [(''id'', numberAttr (sc_ID shard)), (''start_row'', numberAttr (StartRow shard)),
           (''end_row'', numberAttr (EndRow shard)), (''active_leader_addr'', AttrS (LeaderAddr (Active shard))),
           (''active_follower_addr'', AttrS (FollowerAddr (Active shard))), (''has_standby'', AttrBOOL (Standby shard \<noteq> None)),
           (''standby_leader_addr'', AttrS standbyLeader), (''standby_follower_addr'', AttrS standbyFollower)])"

definition shardConfigToAttributes :: "ShardConfigRecord \<Rightarrow> item" where
  "shardConfigToAttributes config =
     [('':version'', numberAttr (cfg_Version config)), ('':shard_count'', numberAttr (ShardCount config)),
      ('':rows_per_shard'', numberAttr (RowsPerShard config)),
      ('':global_table_height'', numberAttr (GlobalTableHeight config)), ('':shards'', AttrL (map shard_entry (Shards config)))]"

fun shards_from_entries :: "attr list \<Rightarrow> ShardConfig list option" where
  "shards_from_entries [] = Some []"
| "shards_from_entries (AttrM entry # attrs) =
     map_option ((#) \<lparr>sc_ID = intAttr entry ''id'', StartRow = intAttr entry ''start_row'', EndRow = intAttr entry ''end_row'',
        Active = \<lparr>LeaderAddr = stringAttr entry ''active_leader_addr'', FollowerAddr = stringAttr entry ''active_follower_addr''\<rparr>,
        Standby = (if boolAttr entry ''has_standby''
          then Some \<lparr>LeaderAddr = stringAttr entry ''standby_leader_addr'', FollowerAddr = stringAttr entry ''standby_follower_addr''\<rparr>
          else None)\<rparr>)
       (shards_from_entries attrs)"
| "shards_from_entries (_ # attrs) = None"

definition shardConfigFromItem :: "item \<Rightarrow> ShardConfigRecord option" where
  "shardConfigFromItem item =
     (case gm_get item ''shards'' of
        Some (AttrL shardList) \<Rightarrow>
          (case shards_from_entries shardList of
             None \<Rightarrow> None
           | Some shards \<Rightarrow>
               Some \<lparr>cfg_Key = stringAttr item dynamoControlPKName, cfg_Version = int64Attr item ''version'',
                 ShardCount = intAttr item ''shard_count'', RowsPerShard = intAttr item ''rows_per_shard'',
                 GlobalTableHeight = intAttr item ''global_table_height'', Shards = shards\<rparr>)
      | _ \<Rightarrow> None)"

definition shardConfigFingerprint :: "codec \<Rightarrow> ShardConfigRecord \<Rightarrow> string" where
  "shardConfigFingerprint J config =
     (case json_Marshal_config J (config\<lparr>cfg_Key := ''''\<rparr>) of
        Inl err \<Rightarrow> '''' | Inr encoded \<Rightarrow> EncodeToString (sha256_Sum256 J encoded))"

definition scalingRecommendationFingerprint :: "codec \<Rightarrow> ScalingRecommendationRecord \<Rightarrow> string" where
  "scalingRecommendationFingerprint J record =
     (case json_Marshal_scaling J (record\<lparr>sg_Key := ''''\<rparr>) of
        Inl err \<Rightarrow> '''' | Inr encoded \<Rightarrow> EncodeToString (sha256_Sum256 J encoded))"

definition dy_get_config :: "'d DynamoDBStore \<Rightarrow> string \<Rightarrow> 'd \<Rightarrow> ShardConfigRecord option res" where
  "dy_get_config D pk d =
     (case dy_getItem D pk d of
        Inl err \<Rightarrow> Inl err
      | Inr None \<Rightarrow> Inr None
      | Inr (Some item) \<Rightarrow>
          (case shardConfigFromItem item of
             None \<Rightarrow> Inr None
           | Some config \<Rightarrow>
               (case store_validateShardConfigRecord config of Inl err \<Rightarrow> Inl err | Inr _ \<Rightarrow> Inr (Some config))))"

definition dy_GetShardConfig :: "'d DynamoDBStore \<Rightarrow> 'd \<Rightarrow> ShardConfigRecord option res" where
  "dy_GetShardConfig D d = dy_get_config D dynamoControlShardConfigPK d"

definition dy_GetEpochShardConfig :: "'d DynamoDBStore \<Rightarrow> int \<Rightarrow> 'd \<Rightarrow> ShardConfigRecord option res" where
  "dy_GetEpochShardConfig D epochID d = dy_get_config D (epochShardConfigKey epochID) d"

definition config_request :: "codec \<Rightarrow> 'd DynamoDBStore \<Rightarrow> string \<Rightarrow> ShardConfigRecord \<Rightarrow> bool \<Rightarrow> UpdateItemInput" where
  "config_request J D pk config immutable =
     \<lparr>ui_TableName = ds_table D, ui_Key = dynamoKey pk,
      ui_Set = [(''#version'', SetTo '':version''), (''shard_count'', SetTo '':shard_count''),
        (''rows_per_shard'', SetTo '':rows_per_shard''), (''global_table_height'', SetTo '':global_table_height''),
        (''shards'', SetTo '':shards''), (''config_hash'', SetTo '':config_hash'')], ui_Remove = [],
      ui_ConditionExpression = CondOr (AttributeNotExists ''pk'')
        (if immutable then Compare ''config_hash'' CmpEq '':config_hash'' else Compare ''#version'' CmpLe '':version''),
      ui_ExpressionAttributeNames = [(''#version'', ''version'')],
      ui_ExpressionAttributeValues =
        gm_put '':config_hash'' (AttrS (shardConfigFingerprint J config)) (shardConfigToAttributes config),
      ui_ReturnAllNew = False\<rparr>"

definition putShardConfigAtKey ::
  "codec \<Rightarrow> 'd DynamoDBStore \<Rightarrow> string \<Rightarrow> ShardConfigRecord \<Rightarrow> bool \<Rightarrow> 'd \<Rightarrow> unit res \<times> 'd" where
  "putShardConfigAtKey J D pk config immutable d =
     (case store_validateShardConfigRecord config of
        Inl err \<Rightarrow> (Inl err, d)
      | Inr _ \<Rightarrow>
          (case UpdateItem (ds_client D) (config_request J D pk config immutable) d of
             (Inl err, d) \<Rightarrow>
               if isConditionalCheckFailed err
               then if immutable then (Inl (ErrorString ''epoch shard config already exists with different config''), d)
                    else (Inl (ErrorString ''stale shard config version''), d)
               else (Inl err, d)
           | (Inr _, d) \<Rightarrow> (Inr (), d)))"

definition dy_PutShardConfig :: "codec \<Rightarrow> 'd DynamoDBStore \<Rightarrow> ShardConfigRecord \<Rightarrow> 'd \<Rightarrow> unit res \<times> 'd" where
  "dy_PutShardConfig J D config d =
     putShardConfigAtKey J D dynamoControlShardConfigPK (config\<lparr>cfg_Key := dynamoControlShardConfigPK\<rparr>) False d"

definition dy_PutEpochShardConfig :: "codec \<Rightarrow> 'd DynamoDBStore \<Rightarrow> int \<Rightarrow> ShardConfigRecord \<Rightarrow> 'd \<Rightarrow> unit res \<times> 'd" where
  "dy_PutEpochShardConfig J D epochID config d =
     (if epochID \<le> 0 then (Inl (ErrorString ''epoch id must be positive''), d)
      else let config = config\<lparr>cfg_Key := epochShardConfigKey epochID\<rparr>
           in putShardConfigAtKey J D (cfg_Key config) config True d)"

section \<open>Scaling recommendations\<close>

definition scalingRecommendationToAttributes :: "codec \<Rightarrow> ScalingRecommendationRecord \<Rightarrow> item" where
  "scalingRecommendationToAttributes J record =
     [('':epoch_id'', numberAttr (sg_EpochID record)),
      ('':accepted_request_count'', numberAttr (sg_AcceptedRequestCount record)),
      ('':duration_secs'', numberAttr (sg_DurationSeconds record)),
      ('':current_shard_count'', numberAttr (sg_CurrentShardCount record)),
      ('':recommended_shard_count'', numberAttr (sg_RecommendedShardCount record)),
      ('':target_rows_per_shard'', numberAttr (sg_TargetRowsPerShard record)),
      ('':request_density'', floatNumberAttr J (sg_RequestDensity record)),
      ('':action'', AttrS (sg_Action record)), ('':reason'', AttrS (sg_Reason record)),
      ('':proposed_global_table_height'', numberAttr (sg_ProposedGlobalTableHeight record)),
      ('':shard_config_version'', numberAttr (sg_ShardConfigVersion record)),
      ('':created_unix_ms'', numberAttr (UnixMilli (sg_CreatedAt record)))]"

definition scalingRecommendationFromItem :: "codec \<Rightarrow> item \<Rightarrow> ScalingRecommendationRecord" where
  "scalingRecommendationFromItem J item =
     \<lparr>sg_Key = stringAttr item dynamoControlPKName, sg_EpochID = int64Attr item ''epoch_id'',
      sg_AcceptedRequestCount = int64Attr item ''accepted_request_count'',
      sg_DurationSeconds = int64Attr item ''duration_secs'',
      sg_CurrentShardCount = intAttr item ''current_shard_count'',
      sg_RecommendedShardCount = intAttr item ''recommended_shard_count'',
      sg_TargetRowsPerShard = intAttr item ''target_rows_per_shard'',
      sg_RequestDensity = float64Attr J item ''request_density'',
      sg_Action = stringAttr item ''action'', sg_Reason = stringAttr item ''reason'',
      sg_ProposedGlobalTableHeight = intAttr item ''proposed_global_table_height'',
      sg_ShardConfigVersion = int64Attr item ''shard_config_version'',
      sg_CreatedAt = time_UnixMilli (int64Attr item ''created_unix_ms'')\<rparr>"

definition scaling_request ::
  "codec \<Rightarrow> 'd DynamoDBStore \<Rightarrow> string \<Rightarrow> ScalingRecommendationRecord \<Rightarrow> bool \<Rightarrow> UpdateItemInput" where
  "scaling_request J D pk record immutable =
     \<lparr>ui_TableName = ds_table D, ui_Key = dynamoKey pk,
      ui_Set = [(''epoch_id'', SetTo '':epoch_id''), (''accepted_request_count'', SetTo '':accepted_request_count''),
        (''duration_secs'', SetTo '':duration_secs''), (''current_shard_count'', SetTo '':current_shard_count''),
        (''recommended_shard_count'', SetTo '':recommended_shard_count''),
        (''target_rows_per_shard'', SetTo '':target_rows_per_shard''), (''request_density'', SetTo '':request_density''),
        (''#action'', SetTo '':action''), (''reason'', SetTo '':reason''),
        (''proposed_global_table_height'', SetTo '':proposed_global_table_height''),
        (''shard_config_version'', SetTo '':shard_config_version''), (''created_unix_ms'', SetTo '':created_unix_ms''),
        (''recommendation_hash'', SetTo '':recommendation_hash'')],
      ui_Remove = [],
      ui_ConditionExpression = CondOr (AttributeNotExists ''pk'')
        (if immutable then Compare ''recommendation_hash'' CmpEq '':recommendation_hash''
         else Compare ''epoch_id'' CmpLe '':epoch_id''),
      ui_ExpressionAttributeNames = [(''#action'', ''action'')],
      ui_ExpressionAttributeValues =
        gm_put '':recommendation_hash'' (AttrS (scalingRecommendationFingerprint J record))
          (scalingRecommendationToAttributes J record),
      ui_ReturnAllNew = False\<rparr>"

definition putScalingRecommendationAtKey ::
  "codec \<Rightarrow> 'd DynamoDBStore \<Rightarrow> string \<Rightarrow> ScalingRecommendationRecord \<Rightarrow> bool \<Rightarrow> 'd \<Rightarrow> unit res \<times> 'd" where
  "putScalingRecommendationAtKey J D pk record immutable d =
     (case UpdateItem (ds_client D) (scaling_request J D pk record immutable) d of
        (Inl err, d) \<Rightarrow>
          if isConditionalCheckFailed err
          then if immutable then (Inl (ErrorString ''scaling recommendation already exists with different record''), d)
               else (Inr (), d)
          else (Inl err, d)
      | (Inr _, d) \<Rightarrow> (Inr (), d))"

definition dy_PutScalingRecommendation ::
  "codec \<Rightarrow> 'd DynamoDBStore \<Rightarrow> gotime \<Rightarrow> ScalingRecommendationRecord \<Rightarrow> 'd \<Rightarrow> unit res \<times> 'd" where
  "dy_PutScalingRecommendation J D clock record d =
     (let record = (if IsZero (sg_CreatedAt record) then record\<lparr>sg_CreatedAt := clock\<rparr> else record);
          record = record\<lparr>sg_Key := epochScalingRecommendationKey (sg_EpochID record)\<rparr>
      in case validateScalingRecommendationRecord record of
           Inl err \<Rightarrow> (Inl err, d)
         | Inr _ \<Rightarrow>
             (case putScalingRecommendationAtKey J D (sg_Key record) record True d of
                (Inl err, d) \<Rightarrow> (Inl err, d)
              | (Inr _, d) \<Rightarrow>
                  let latest = record\<lparr>sg_Key := latestScalingRecommendationKey\<rparr>
                  in putScalingRecommendationAtKey J D latestScalingRecommendationKey latest False d))"

definition getScalingRecommendation ::
  "codec \<Rightarrow> 'd DynamoDBStore \<Rightarrow> string \<Rightarrow> 'd \<Rightarrow> ScalingRecommendationRecord option res" where
  "getScalingRecommendation J D pk d =
     (case dy_getItem D pk d of
        Inl err \<Rightarrow> Inl err
      | Inr None \<Rightarrow> Inr None
      | Inr (Some item) \<Rightarrow>
          let record = scalingRecommendationFromItem J item
          in case validateScalingRecommendationRecord record of Inl err \<Rightarrow> Inl err | Inr _ \<Rightarrow> Inr (Some record))"

definition dy_GetLatestScalingRecommendation ::
  "codec \<Rightarrow> 'd DynamoDBStore \<Rightarrow> 'd \<Rightarrow> ScalingRecommendationRecord option res" where
  "dy_GetLatestScalingRecommendation J D d = getScalingRecommendation J D latestScalingRecommendationKey d"

definition dy_GetEpochScalingRecommendation ::
  "codec \<Rightarrow> 'd DynamoDBStore \<Rightarrow> int \<Rightarrow> 'd \<Rightarrow> ScalingRecommendationRecord option res" where
  "dy_GetEpochScalingRecommendation J D epochID d =
     getScalingRecommendation J D (epochScalingRecommendationKey epochID) d"

section \<open>The epoch cycle\<close>

definition epochCycleFromItem :: "item \<Rightarrow> EpochCycleRecord" where
  "epochCycleFromItem item =
     \<lparr>cy_State = stringAttr item ''cycle_state'', cy_EpochID = int64Attr item ''epoch_id'',
      cy_ShardConfigVersion = int64Attr item ''shard_config_version'',
      cy_ScalingRecommendationEpochID = int64Attr item ''scaling_recommendation_epoch_id'',
      cy_Reason = stringAttr item ''reason'', cy_CreatedAt = time_UnixMilli (int64Attr item ''created_unix_ms''),
      cy_UpdatedAt = time_UnixMilli (int64Attr item ''updated_unix_ms'')\<rparr>"

definition epochCycleToAttributes :: "EpochCycleRecord \<Rightarrow> item" where
  "epochCycleToAttributes record =
     [('':cycle_state'', AttrS (cy_State record)), ('':epoch_id'', numberAttr (cy_EpochID record)),
      ('':shard_config_version'', numberAttr (cy_ShardConfigVersion record)),
      ('':scaling_recommendation_epoch_id'', numberAttr (cy_ScalingRecommendationEpochID record)),
      ('':reason'', AttrS (cy_Reason record)), ('':created_unix_ms'', numberAttr (UnixMilli (cy_CreatedAt record))),
      ('':updated_unix_ms'', numberAttr (UnixMilli (cy_UpdatedAt record)))]"

definition dy_GetEpochCycle :: "'d DynamoDBStore \<Rightarrow> 'd \<Rightarrow> EpochCycleRecord option res" where
  "dy_GetEpochCycle D d =
     (case dy_getItem D dynamoControlEpochCyclePK d of
        Inl err \<Rightarrow> Inl err
      | Inr None \<Rightarrow> Inr None
      | Inr (Some item) \<Rightarrow> Inr (Some (epochCycleFromItem item)))"

definition cycle_request :: "'d DynamoDBStore \<Rightarrow> string \<Rightarrow> EpochCycleRecord \<Rightarrow> bool \<Rightarrow> UpdateItemInput" where
  "cycle_request D from record ok =
     \<lparr>ui_TableName = ds_table D, ui_Key = dynamoKey dynamoControlEpochCyclePK,
      ui_Set = [(''#cycle_state'', SetTo '':cycle_state''), (''epoch_id'', SetTo '':epoch_id''),
        (''shard_config_version'', SetTo '':shard_config_version''),
        (''scaling_recommendation_epoch_id'', SetTo '':scaling_recommendation_epoch_id''), (''reason'', SetTo '':reason''),
        (''created_unix_ms'', SetTo '':created_unix_ms''), (''updated_unix_ms'', SetTo '':updated_unix_ms'')],
      ui_Remove = [],
      ui_ConditionExpression = (if \<not> ok then AttributeNotExists ''pk'' else Compare ''#cycle_state'' CmpEq '':from_state''),
      ui_ExpressionAttributeNames = [(''#cycle_state'', ''cycle_state'')],
      ui_ExpressionAttributeValues =
        (if ok then gm_put '':from_state'' (AttrS from) (epochCycleToAttributes record) else epochCycleToAttributes record),
      ui_ReturnAllNew = False\<rparr>"

definition dy_PutEpochCycleTransition ::
  "'d DynamoDBStore \<Rightarrow> gotime \<Rightarrow> string \<Rightarrow> string \<Rightarrow> EpochCycleRecord \<Rightarrow> 'd \<Rightarrow> unit res \<times> 'd" where
  "dy_PutEpochCycleTransition D clock from to update d =
     (let from = normalizeEpochCycleState from in
      case dy_GetEpochCycle D d of
        Inl err \<Rightarrow> (Inl err, d)
      | Inr found \<Rightarrow>
          let current = (case found of None \<Rightarrow> zero_cycle | Some c \<Rightarrow> c);
              ok = (found \<noteq> None);
              currentState = (if ok then cy_State current else EpochCycleStateIdle)
          in if currentState \<noteq> from
             then (Inl (Wrapped '''' errEpochCycleTransition ('': current state '' @ currentState @ '', expected '' @ from)), d)
             else case prepareEpochCycleRecord clock from to update current ok of
               Inl err \<Rightarrow> (Inl err, d)
             | Inr record \<Rightarrow>
                 (case UpdateItem (ds_client D) (cycle_request D from record ok) d of
                    (Inl err, d) \<Rightarrow> if isConditionalCheckFailed err then (Inl errEpochCycleTransition, d) else (Inl err, d)
                  | (Inr _, d) \<Rightarrow> (Inr (), d)))"

section \<open>Sessions\<close>

definition dynamoSessionPK :: "int \<Rightarrow> string" where
  "dynamoSessionPK globalUUID = ''session#'' @ show_int globalUUID"

definition sessionToAttributes :: "SessionRecord \<Rightarrow> item" where
  "sessionToAttributes session =
     [('':epoch_id'', numberAttr (ss_EpochID session)), ('':shard_id'', numberAttr (ss_ShardID session)),
      ('':global_uuid'', numberAttr (GlobalUUID session)), ('':local_uuid'', numberAttr (LocalUUID session)),
      ('':hash_key'', AttrS (EncodeToString (ss_HashKey session))), ('':global_row'', numberAttr (GlobalRow session)),
      ('':local_row'', numberAttr (LocalRow session)), ('':shard_start_row'', numberAttr (ShardStartRow session)),
      ('':created_unix_ms'', numberAttr (UnixMilli (ss_CreatedAt session)))]"

text \<open>The hash key is an array of 32 bytes: \<^verbatim>\<open>copy\<close> fills what there is.\<close>

definition sessionFromItem :: "item \<Rightarrow> SessionRecord" where
  "sessionFromItem item =
     (let hashKey = (case DecodeString (stringAttr item ''hash_key'') of
            None \<Rightarrow> replicate 32 0
          | Some decoded \<Rightarrow> take 32 (decoded @ replicate 32 0))
      in \<lparr>ss_EpochID = int64Attr item ''epoch_id'', ss_ShardID = int64Attr item ''shard_id'',
          GlobalUUID = int64Attr item ''global_uuid'', LocalUUID = int64Attr item ''local_uuid'', ss_HashKey = hashKey,
          GlobalRow = int64Attr item ''global_row'', LocalRow = int64Attr item ''local_row'',
          ShardStartRow = int64Attr item ''shard_start_row'',
          ss_CreatedAt = time_UnixMilli (int64Attr item ''created_unix_ms'')\<rparr>)"

definition session_request :: "'d DynamoDBStore \<Rightarrow> SessionRecord \<Rightarrow> UpdateItemInput" where
  "session_request D session =
     \<lparr>ui_TableName = ds_table D, ui_Key = dynamoKey (dynamoSessionPK (GlobalUUID session)),
      ui_Set = [(''epoch_id'', SetTo '':epoch_id''), (''shard_id'', SetTo '':shard_id''), (''global_uuid'', SetTo '':global_uuid''),
        (''local_uuid'', SetTo '':local_uuid''), (''hash_key'', SetTo '':hash_key''), (''global_row'', SetTo '':global_row''),
        (''local_row'', SetTo '':local_row''), (''shard_start_row'', SetTo '':shard_start_row''),
        (''created_unix_ms'', SetTo '':created_unix_ms'')],
      ui_Remove = [], ui_ConditionExpression = AttributeNotExists ''pk'', ui_ExpressionAttributeNames = [],
      ui_ExpressionAttributeValues = sessionToAttributes session, ui_ReturnAllNew = False\<rparr>"

definition dy_PutSession ::
  "'d DynamoDBStore \<Rightarrow> go_error option \<Rightarrow> gotime \<Rightarrow> SessionRecord \<Rightarrow> 'd \<Rightarrow> unit res \<times> 'd" where
  "dy_PutSession D ctx clock session d =
     (case ctx of Some err \<Rightarrow> (Inl err, d) | None \<Rightarrow>
      if ss_EpochID session \<le> 0 then (Inl (ErrorString ''session epoch id must be positive''), d)
      else if GlobalUUID session \<le> 0 then (Inl (ErrorString ''session global uuid must be positive''), d)
      else if LocalUUID session \<le> 0 then (Inl (ErrorString ''session local uuid must be positive''), d)
      else
        let session = (if IsZero (ss_CreatedAt session) then session\<lparr>ss_CreatedAt := clock\<rparr> else session)
        in case UpdateItem (ds_client D) (session_request D session) d of
             (Inl err, d) \<Rightarrow> if isConditionalCheckFailed err then (Inl errSessionExists, d) else (Inl err, d)
           | (Inr _, d) \<Rightarrow> (Inr (), d))"

definition dy_GetSession :: "'d DynamoDBStore \<Rightarrow> go_error option \<Rightarrow> int \<Rightarrow> 'd \<Rightarrow> SessionRecord res" where
  "dy_GetSession D ctx globalUUID d =
     (case ctx of Some err \<Rightarrow> Inl err | None \<Rightarrow>
      case dy_getItem D (dynamoSessionPK globalUUID) d of
        Inl err \<Rightarrow> Inl err
      | Inr None \<Rightarrow> Inl errSessionMissing
      | Inr (Some item) \<Rightarrow> Inr (sessionFromItem item))"

definition dy_DeleteSession :: "'d DynamoDBStore \<Rightarrow> go_error option \<Rightarrow> int \<Rightarrow> 'd \<Rightarrow> unit res \<times> 'd" where
  "dy_DeleteSession D ctx globalUUID d =
     (case ctx of Some err \<Rightarrow> (Inl err, d) | None \<Rightarrow>
      case DeleteItem (ds_client D)
             \<lparr>di_TableName = ds_table D, di_Key = dynamoKey (dynamoSessionPK globalUUID),
              di_ConditionExpression = AttributeExists ''pk''\<rparr> d of
        (Inl err, d) \<Rightarrow> if isConditionalCheckFailed err then (Inl errSessionMissing, d) else (Inl err, d)
      | (Inr _, d) \<Rightarrow> (Inr (), d))"

section \<open>The store as the coordinator sees it\<close>

definition dynamo_control_ops :: "codec \<Rightarrow> 'd DynamoDBStore \<Rightarrow> 'd control_ops" where
  "dynamo_control_ops J D = \<lparr>ct_AcquireLease = dy_AcquireLease D, ct_RenewLease = dy_RenewLease D,
     ct_CurrentLease = dy_CurrentLease D, ct_StartEpoch = dy_StartEpoch D, ct_CompleteEpoch = dy_CompleteEpoch D,
     ct_CurrentEpoch = dy_CurrentEpoch D, ct_SetAccepting = dy_SetAccepting D, ct_Accepting = dy_Accepting D,
     ct_GetShardConfig = dy_GetShardConfig D, ct_PutShardConfig = dy_PutShardConfig J D,
     ct_GetEpochShardConfig = dy_GetEpochShardConfig D, ct_PutEpochShardConfig = dy_PutEpochShardConfig J D,
     ct_PutScalingRecommendation = dy_PutScalingRecommendation J D,
     ct_GetLatestScalingRecommendation = dy_GetLatestScalingRecommendation J D,
     ct_GetEpochScalingRecommendation = dy_GetEpochScalingRecommendation J D,
     ct_GetEpochCycle = dy_GetEpochCycle D, ct_PutEpochCycleTransition = dy_PutEpochCycleTransition D\<rparr>"

text \<open>Every operation of the store besides the lease, and what the service does on its own.\<close>

datatype dynamo_op =
    DyControl control_op
  | DyPutSession gotime SessionRecord
  | DyDeleteSession int
  | DyBackground

primrec dynamo_control_step :: "codec \<Rightarrow> 'd DynamoDBStore \<Rightarrow> control_op \<Rightarrow> 'd \<Rightarrow> 'd" where
  "dynamo_control_step J D (CtlStartEpoch ep v) d = snd (dy_StartEpoch D ep v d)"
| "dynamo_control_step J D (CtlCompleteEpoch i) d = snd (dy_CompleteEpoch D i d)"
| "dynamo_control_step J D (CtlSetAccepting i b) d = snd (dy_SetAccepting D i b d)"
| "dynamo_control_step J D (CtlPutShardConfig c) d = snd (dy_PutShardConfig J D c d)"
| "dynamo_control_step J D (CtlPutEpochShardConfig i c) d = snd (dy_PutEpochShardConfig J D i c d)"
| "dynamo_control_step J D (CtlPutScaling t r) d = snd (dy_PutScalingRecommendation J D t r d)"
| "dynamo_control_step J D (CtlPutCycle t a b u) d = snd (dy_PutEpochCycleTransition D t a b u d)"

primrec dynamo_step :: "codec \<Rightarrow> 'd DynamoDBStore \<Rightarrow> dynamo_op \<Rightarrow> 'd \<Rightarrow> 'd" where
  "dynamo_step J D (DyControl x) d = dynamo_control_step J D x d"
| "dynamo_step J D (DyPutSession t r) d = snd (dy_PutSession D None t r d)"
| "dynamo_step J D (DyDeleteSession i) d = snd (dy_DeleteSession D None i d)"
| "dynamo_step J D DyBackground d = Background (ds_client D) d"

section \<open>Which items an operation writes\<close>

primrec control_keys :: "control_op \<Rightarrow> string set" where
  "control_keys (CtlStartEpoch ep v) = {dynamoControlEpochPK}"
| "control_keys (CtlCompleteEpoch i) = {dynamoControlEpochPK}"
| "control_keys (CtlSetAccepting i b) = {dynamoControlEpochPK}"
| "control_keys (CtlPutShardConfig c) = {dynamoControlShardConfigPK}"
| "control_keys (CtlPutEpochShardConfig i c) = {epochShardConfigKey i}"
| "control_keys (CtlPutScaling t r) = {epochScalingRecommendationKey (sg_EpochID r), latestScalingRecommendationKey}"
| "control_keys (CtlPutCycle t a b u) = {dynamoControlEpochCyclePK}"

primrec step_keys :: "dynamo_op \<Rightarrow> string set" where
  "step_keys (DyControl x) = control_keys x"
| "step_keys (DyPutSession t r) = {dynamoSessionPK (GlobalUUID r)}"
| "step_keys (DyDeleteSession i) = {dynamoSessionPK i}"
| "step_keys DyBackground = {}"

lemmas requests = renew_request_def acquire_request_def start_request_def complete_request_def accepting_request_def
  config_request_def scaling_request_def cycle_request_def session_request_def

lemma request_keys [simp]:
  "ui_Key (renew_request D t h n l) = dynamoKey dynamoControlLeasePK"
  "ui_Key (acquire_request D t h l) = dynamoKey dynamoControlLeasePK"
  "ui_Key (start_request D ep v) = dynamoKey dynamoControlEpochPK"
  "ui_Key (complete_request D i) = dynamoKey dynamoControlEpochPK"
  "ui_Key (accepting_request D i b) = dynamoKey dynamoControlEpochPK"
  "ui_Key (config_request J D pk c im) = dynamoKey pk"
  "ui_Key (scaling_request J D pk r im) = dynamoKey pk"
  "ui_Key (cycle_request D from cy ok) = dynamoKey dynamoControlEpochCyclePK"
  "ui_Key (session_request D r') = dynamoKey (dynamoSessionPK (GlobalUUID r'))"
  by (simp_all add: requests)

lemma request_tables [simp]:
  "ui_TableName (renew_request D t h n l) = ds_table D"
  "ui_TableName (acquire_request D t h l) = ds_table D"
  "ui_TableName (start_request D ep v) = ds_table D"
  "ui_TableName (complete_request D i) = ds_table D"
  "ui_TableName (accepting_request D i b) = ds_table D"
  "ui_TableName (config_request J D pk c im) = ds_table D"
  "ui_TableName (scaling_request J D pk r im) = ds_table D"
  "ui_TableName (cycle_request D from cy ok) = ds_table D"
  "ui_TableName (session_request D r') = ds_table D"
  by (simp_all add: requests)

lemma Update_frame:
  assumes "dynamo_ok (ds_client D) tab" "ui_Key u = dynamoKey k" "ui_TableName u = ds_table D" "k' \<noteq> k"
    "UpdateItem (ds_client D) u d = (q, d')"
  shows "tab d' (ds_table D) k' = tab d (ds_table D) k'"
  using ok_Update(1) [OF assms(1,2,5)] assms(3,4) by (simp add: frame_def)

lemma put_config_frame:
  assumes "dynamo_ok (ds_client D) tab" "k \<noteq> pk"
  shows "tab (snd (putShardConfigAtKey J D pk c im d)) (ds_table D) k = tab d (ds_table D) k"
  using Update_frame [OF assms(1), of "config_request J D pk c im" pk k d] assms(2)
  by (auto simp: putShardConfigAtKey_def split: prod.splits sum.splits)

lemma dy_put_scaling_frame:
  assumes "dynamo_ok (ds_client D) tab" "k \<noteq> pk"
  shows "tab (snd (putScalingRecommendationAtKey J D pk c im d)) (ds_table D) k = tab d (ds_table D) k"
  using Update_frame [OF assms(1), of "scaling_request J D pk c im" pk k d] assms(2)
  by (auto simp: putScalingRecommendationAtKey_def split: prod.splits sum.splits)

lemma control_frame:
  assumes ok: "dynamo_ok (ds_client D) tab" and k: "k \<notin> control_keys x"
  shows "tab (dynamo_control_step J D x d) (ds_table D) k = tab d (ds_table D) k"
proof (cases x)
  case (CtlStartEpoch ep v)
  then show ?thesis using Update_frame [OF ok, of "start_request D ep v" dynamoControlEpochPK k d] k
    by (auto simp: dy_StartEpoch_def split: prod.splits sum.splits)
next
  case (CtlCompleteEpoch i)
  then show ?thesis using Update_frame [OF ok, of "complete_request D i" dynamoControlEpochPK k d] k
    by (auto simp: dy_CompleteEpoch_def split: prod.splits sum.splits)
next
  case (CtlSetAccepting i b)
  then show ?thesis using Update_frame [OF ok, of "accepting_request D i b" dynamoControlEpochPK k d] k
    by (auto simp: dy_SetAccepting_def split: prod.splits sum.splits)
next
  case (CtlPutScaling t r)
  define r1 where "r1 = (if IsZero (sg_CreatedAt r) then r\<lparr>sg_CreatedAt := t\<rparr> else r)"
  define r2 where "r2 = r1\<lparr>sg_Key := epochScalingRecommendationKey (sg_EpochID r1)\<rparr>"
  have e: "dy_PutScalingRecommendation J D t r d = (case validateScalingRecommendationRecord r2 of
       Inl err \<Rightarrow> (Inl err, d)
     | Inr _ \<Rightarrow> (case putScalingRecommendationAtKey J D (sg_Key r2) r2 True d of
         (Inl err, d) \<Rightarrow> (Inl err, d)
       | (Inr _, d) \<Rightarrow> putScalingRecommendationAtKey J D latestScalingRecommendationKey
           (r2\<lparr>sg_Key := latestScalingRecommendationKey\<rparr>) False d))"
    unfolding dy_PutScalingRecommendation_def Let_def r1_def r2_def by (rule refl)
  have n: "k \<noteq> sg_Key r2" "k \<noteq> latestScalingRecommendationKey"
    using k CtlPutScaling by (auto simp: r1_def r2_def)
  show ?thesis
    using dy_put_scaling_frame [OF ok n(1), of J r2 True d] dy_put_scaling_frame [OF ok n(2), of J]
    by (auto simp: CtlPutScaling e split: sum.splits prod.splits)
next
  case (CtlPutCycle t a b u)
  then show ?thesis using Update_frame [OF ok, of "cycle_request D fr cy okb" dynamoControlEpochCyclePK k for fr cy okb] k
    by (auto simp: dy_PutEpochCycleTransition_def Let_def split: prod.splits sum.splits)
qed (use k in \<open>auto simp: dy_PutShardConfig_def dy_PutEpochShardConfig_def Let_def put_config_frame [OF ok]\<close>)

lemma dynamo_frame:
  assumes ok: "dynamo_ok (ds_client D) tab" and k: "k \<notin> step_keys x"
  shows "tab (dynamo_step J D x d) (ds_table D) k = tab d (ds_table D) k"
proof (cases x)
  case (DyPutSession t r)
  define s where "s = (if IsZero (ss_CreatedAt r) then r\<lparr>ss_CreatedAt := t\<rparr> else r)"
  have "GlobalUUID s = GlobalUUID r" by (simp add: s_def)
  then show ?thesis
    using DyPutSession Update_frame [OF ok, of "session_request D s" "dynamoSessionPK (GlobalUUID r)" k d] k
    by (auto simp: dy_PutSession_def Let_def s_def [symmetric] split: prod.splits sum.splits)
next
  case (DyDeleteSession i)
  let ?u = "\<lparr>di_TableName = ds_table D, di_Key = dynamoKey (dynamoSessionPK i), di_ConditionExpression = AttributeExists ''pk''\<rparr>"
  obtain q d' where "DeleteItem (ds_client D) ?u d = (q, d')" by fastforce
  with ok_Delete(1) [OF ok, of ?u "dynamoSessionPK i" d q d'] show ?thesis
    using DyDeleteSession k by (cases q) (auto simp: dy_DeleteSession_def frame_def)
qed (use k control_frame [OF ok] ok in auto)

section \<open>The lease item\<close>

definition lease_wf :: "tables \<Rightarrow> string \<Rightarrow> bool" where
  "lease_wf m T \<longleftrightarrow> (\<forall>it. m T dynamoControlLeasePK = Some it \<longrightarrow>
     gm_get it ''pk'' = Some (AttrS dynamoControlLeasePK) \<and>
     (\<exists>h n e. gm_get it ''holder'' = Some (AttrS h) \<and> gm_get it ''fencing_token'' = Some (numberAttr n) \<and>
        gm_get it ''expires_unix_ms'' = Some (numberAttr e)))"

definition table_lease :: "tables \<Rightarrow> string \<Rightarrow> CoordinatorLease option" where
  "table_lease m T = map_option (\<lambda>it. \<lparr>Holder = stringAttr it ''holder'', FencingToken = number_in it ''fencing_token'',
     ExpiresAt = time_UnixMilli (number_in it ''expires_unix_ms'')\<rparr>) (m T dynamoControlLeasePK)"

text \<open>When a lease that is granted at \<open>t\<close> for \<open>l\<close> ends: the table keeps milliseconds.\<close>

definition ms_expiry :: "gotime \<Rightarrow> duration \<Rightarrow> gotime" where
  "ms_expiry t l = time_UnixMilli (UnixMilli (t + l))"

lemma lease_wf_cases:
  assumes "lease_wf m T"
  obtains (none) "m T dynamoControlLeasePK = None" "table_lease m T = None" "old_item m T dynamoControlLeasePK = []"
  | (some) it h n e where "m T dynamoControlLeasePK = Some it" "old_item m T dynamoControlLeasePK = it" "it \<noteq> []"
      "gm_get it ''pk'' = Some (AttrS dynamoControlLeasePK)" "gm_get it ''holder'' = Some (AttrS h)"
      "gm_get it ''fencing_token'' = Some (numberAttr n)" "gm_get it ''expires_unix_ms'' = Some (numberAttr e)"
      "table_lease m T = Some \<lparr>Holder = h, FencingToken = n, ExpiresAt = time_UnixMilli e\<rparr>"
proof (cases "m T dynamoControlLeasePK")
  case (Some it)
  with assms obtain h n e where "gm_get it ''pk'' = Some (AttrS dynamoControlLeasePK)"
      "gm_get it ''holder'' = Some (AttrS h)" "gm_get it ''fencing_token'' = Some (numberAttr n)"
      "gm_get it ''expires_unix_ms'' = Some (numberAttr e)" by (auto simp: lease_wf_def)
  moreover from this have "it \<noteq> []" by auto
  ultimately show ?thesis using some [of it h n e] Some by (simp add: table_lease_def old_item_def)
qed (use none in \<open>simp add: table_lease_def old_item_def\<close>)

lemmas request_eval = update_condition_def updated_item_def remove_attrs_def resolve_def requests

lemma renew_tables:
  assumes wf: "lease_wf m T" and T: "T = ds_table D"
    and out: "update_outcome (renew_request D t h k l) dynamoControlLeasePK m q m'"
  shows "lease_wf m' T" "isl q \<and> table_lease m' T = table_lease m T \<or>
     (\<exists>M. table_lease m T = Some M \<and> t < ExpiresAt M \<and> Holder M = h \<and> FencingToken M = k \<and>
        table_lease m' T = Some (M\<lparr>ExpiresAt := ms_expiry t l\<rparr>))"
proof -
  let ?u = "renew_request D t h k l"
  from wf have "lease_wf m' T \<and> (isl q \<and> table_lease m' T = table_lease m T \<or>
     (\<exists>M. table_lease m T = Some M \<and> t < ExpiresAt M \<and> Holder M = h \<and> FencingToken M = k \<and>
        table_lease m' T = Some (M\<lparr>ExpiresAt := ms_expiry t l\<rparr>)))"
  proof (cases rule: lease_wf_cases)
    case none
    have "update_condition ?u [] = Some False" "updated_item ?u [] \<noteq> None" by (simp_all add: request_eval)
    then have "isl q" "m' = m" using out none T by (auto simp: update_outcome_def Let_def)
    then show ?thesis using wf by simp
  next
    case (some it h' n e)
    let ?new = "gm_put ''expires_unix_ms'' (numberAttr (UnixMilli (t + l))) it"
    have "update_condition ?u it = Some (h' = h \<and> n = k \<and> UnixMilli t < e)" "updated_item ?u it = Some ?new"
      using some(3-7) by (auto simp: request_eval)
    then have "isl q \<and> m' = m \<or> (h' = h \<and> n = k \<and> UnixMilli t < e) \<and> m' = put_item T dynamoControlLeasePK (Some ?new) m"
      using out some(2) T by (auto simp: update_outcome_def Let_def)
    then show ?thesis
    proof (elim disjE conjE)
      assume "h' = h" "n = k" "UnixMilli t < e" and m': "m' = put_item T dynamoControlLeasePK (Some ?new) m"
      moreover have "lease_wf m' T" using some(4-7) unfolding m' by (simp add: lease_wf_def)
      moreover have "table_lease m' T = Some \<lparr>Holder = h', FencingToken = n, ExpiresAt = ms_expiry t l\<rparr>"
        using some(4-7) unfolding m' by (simp add: table_lease_def ms_expiry_def)
      ultimately show ?thesis using some(8) by simp
    qed (use wf in simp)
  qed
  then show "lease_wf m' T" "isl q \<and> table_lease m' T = table_lease m T \<or>
     (\<exists>M. table_lease m T = Some M \<and> t < ExpiresAt M \<and> Holder M = h \<and> FencingToken M = k \<and>
        table_lease m' T = Some (M\<lparr>ExpiresAt := ms_expiry t l\<rparr>))" by auto
qed

lemma acquire_tables:
  assumes wf: "lease_wf m T" and T: "T = ds_table D"
    and out: "update_outcome (acquire_request D t h l) dynamoControlLeasePK m q m'"
  shows "lease_wf m' T" "isl q \<and> table_lease m' T = table_lease m T \<or>
     (\<exists>L. table_lease m' T = Some L \<and> Holder L = h \<and> ExpiresAt L = ms_expiry t l \<and>
        (\<forall>M. table_lease m T = Some M \<longrightarrow> ExpiresAt M \<le> t \<and> FencingToken M < FencingToken L))"
proof -
  let ?u = "acquire_request D t h l"
  define new where "new i it = gm_put ''fencing_token'' (numberAttr i)
     (gm_put ''expires_unix_ms'' (numberAttr (UnixMilli (t + l))) (gm_put ''holder'' (AttrS h) it))" for i it
  have put: "lease_wf (put_item T dynamoControlLeasePK (Some (new i it)) m) T"
      "table_lease (put_item T dynamoControlLeasePK (Some (new i it)) m) T =
         Some \<lparr>Holder = h, FencingToken = i, ExpiresAt = ms_expiry t l\<rparr>"
    if "gm_get it ''pk'' = Some (AttrS dynamoControlLeasePK)" for i it
    using that by (simp_all add: lease_wf_def table_lease_def ms_expiry_def new_def)
  from wf have "lease_wf m' T \<and> (isl q \<and> table_lease m' T = table_lease m T \<or>
     (\<exists>L. table_lease m' T = Some L \<and> Holder L = h \<and> ExpiresAt L = ms_expiry t l \<and>
        (\<forall>M. table_lease m T = Some M \<longrightarrow> ExpiresAt M \<le> t \<and> FencingToken M < FencingToken L)))"
  proof (cases rule: lease_wf_cases)
    case none
    have "update_condition ?u [] = Some True" "updated_item ?u [] = Some (new 1 (dynamoKey dynamoControlLeasePK))"
      by (simp_all add: request_eval new_def)
    then have "isl q \<and> m' = m \<or> m' = put_item T dynamoControlLeasePK (Some (new 1 (dynamoKey dynamoControlLeasePK))) m"
      using out none T by (auto simp: update_outcome_def Let_def)
    then show ?thesis using put [of "dynamoKey dynamoControlLeasePK" 1] wf none(2)
      by (auto simp: dynamoKey_def dynamoControlPKName_def)
  next
    case (some it h' n e)
    have "update_condition ?u it = Some (e \<le> UnixMilli t)" "updated_item ?u it = Some (new (n + 1) it)"
      using some(3-7) by (auto simp: request_eval new_def)
    then have "isl q \<and> m' = m \<or> e \<le> UnixMilli t \<and> m' = put_item T dynamoControlLeasePK (Some (new (n + 1) it)) m"
      using out some(2) T by (auto simp: update_outcome_def Let_def)
    then show ?thesis using put [OF some(4)] wf some(8) by auto
  qed
  then show "lease_wf m' T" "isl q \<and> table_lease m' T = table_lease m T \<or>
     (\<exists>L. table_lease m' T = Some L \<and> Holder L = h \<and> ExpiresAt L = ms_expiry t l \<and>
        (\<forall>M. table_lease m T = Some M \<longrightarrow> ExpiresAt M \<le> t \<and> FencingToken M < FencingToken L))" by auto
qed

section \<open>The store as a lease store\<close>

lemma lease_key_free [simp]: "dynamoControlLeasePK \<notin> step_keys x"
proof -
  have "dynamoControlLeasePK \<notin> control_keys y" for y
    by (cases y) (auto simp: dynamoControlLeasePK_def dynamoControlEpochPK_def dynamoControlShardConfigPK_def
        dynamoControlEpochCyclePK_def epochShardConfigKey_def epochScalingRecommendationKey_def latestScalingRecommendationKey_def)
  then show ?thesis by (cases x) (auto simp: dynamoControlLeasePK_def dynamoSessionPK_def)
qed

lemma dy_RenewLease_outcome:
  assumes "dynamo_ok (ds_client D) tab" "dy_RenewLease D t h k l d = (q, d')"
  shows "isl q \<and> d' = d \<or> (\<exists>q'. update_outcome (renew_request D t h k l) dynamoControlLeasePK (tab d) q' (tab d') \<and> isl q' = isl q)"
proof (cases "l \<le> 0")
  case False
  obtain q1 d1 where u: "UpdateItem (ds_client D) (renew_request D t h k l) d = (q1, d1)" by fastforce
  have "isl q1 = isl q \<and> d1 = d'" using assms(2) False u
    by (auto simp: dy_RenewLease_def split: sum.splits option.splits if_splits)
  then show ?thesis using ok_Update(2) [OF assms(1) _ u, of dynamoControlLeasePK] by auto
qed (use assms(2) in \<open>auto simp: dy_RenewLease_def\<close>)

lemma dy_AcquireLease_outcome:
  assumes ok: "dynamo_ok (ds_client D) tab" and a: "dy_AcquireLease D t h l d = (q, d')"
  shows "isl q \<and> d' = d \<or>
     (\<exists>q' u. update_outcome u dynamoControlLeasePK (tab d) q' (tab d') \<and> isl q' = isl q \<and>
        (u = acquire_request D t h l \<or> (\<exists>k. u = renew_request D t h k l)))"
proof -
  obtain q1 d1 where u: "UpdateItem (ds_client D) (acquire_request D t h l) d = (q1, d1)" by fastforce
  note out = ok_Update(2) [OF ok _ u, of dynamoControlLeasePK, simplified]
  from a consider "isl q" "d' = d" | "isl q1 = isl q" "d1 = d'" | k where "dy_RenewLease D t h k l d = (q, d')"
    by (auto simp: dy_AcquireLease_def Let_def u split: if_splits sum.splits option.splits)
  then show ?thesis
  proof cases
    case (3 k)
    then show ?thesis using dy_RenewLease_outcome [OF ok 3] by blast
  qed (use out in auto)
qed

lemma dynamo_lease_store:
  assumes ok: "dynamo_ok (ds_client D) tab"
  shows "lease_store (dy_AcquireLease D) (dy_RenewLease D) (dynamo_step J D) (\<lambda>d. lease_wf (tab d) (ds_table D))
     (\<lambda>d. table_lease (tab d) (ds_table D)) ms_expiry"
proof unfold_locales
  fix d d' t h l k x q
  let ?T = "ds_table D"
  have same: "tab (dynamo_step J D x d) ?T dynamoControlLeasePK = tab d ?T dynamoControlLeasePK"
    by (rule dynamo_frame [OF ok]) simp
  show "lease_wf (tab d) ?T \<Longrightarrow> lease_wf (tab (dynamo_step J D x d)) ?T"
    using same by (simp add: lease_wf_def)
  show "table_lease (tab (dynamo_step J D x d)) ?T = table_lease (tab d) ?T"
    using same by (simp add: table_lease_def)
  have renew: "lease_wf (tab d') ?T \<and> (isl q \<and> table_lease (tab d') ?T = table_lease (tab d) ?T \<or>
     (\<exists>M. table_lease (tab d) ?T = Some M \<and> t < ExpiresAt M \<and> Holder M = h \<and> FencingToken M = k \<and>
        table_lease (tab d') ?T = Some (M\<lparr>ExpiresAt := ms_expiry t l\<rparr>)))"
    if "lease_wf (tab d) ?T" "dy_RenewLease D t h k l d = (q, d')" for q d'
    using dy_RenewLease_outcome [OF ok that(2)] renew_tables [OF that(1) refl, of t h k l _ "tab d'"] that(1) by metis
  show "lease_wf (tab d) ?T \<Longrightarrow> lease_wf (tab (snd (dy_RenewLease D t h k l d))) ?T"
    using renew by (metis prod.collapse)
  show "lease_wf (tab d) ?T \<Longrightarrow> dy_RenewLease D t h k l d = (q, d') \<Longrightarrow>
     isl q \<and> table_lease (tab d') ?T = table_lease (tab d) ?T \<or>
     (\<exists>M. table_lease (tab d) ?T = Some M \<and> t < ExpiresAt M \<and> Holder M = h \<and> FencingToken M = k \<and>
        table_lease (tab d') ?T = Some (M\<lparr>ExpiresAt := ms_expiry t l\<rparr>))" using renew by blast
  have acquire: "lease_wf (tab d') ?T \<and> (isl q \<and> table_lease (tab d') ?T = table_lease (tab d) ?T \<or>
     (\<exists>L. table_lease (tab d') ?T = Some L \<and> Holder L = h \<and> ExpiresAt L = ms_expiry t l \<and>
        (\<forall>M. table_lease (tab d) ?T = Some M \<longrightarrow> (ExpiresAt M \<le> t \<or> Holder M = h) \<and>
           (FencingToken M < FencingToken L \<or> FencingToken M = FencingToken L \<and> Holder M = h))))"
    if wf: "lease_wf (tab d) ?T" and a: "dy_AcquireLease D t h l d = (q, d')" for q d'
    using dy_AcquireLease_outcome [OF ok a]
  proof (elim disjE exE conjE)
    fix q' u assume o: "update_outcome u dynamoControlLeasePK (tab d) q' (tab d')" "isl q' = isl q" "u = acquire_request D t h l"
    show ?thesis using acquire_tables [OF wf refl o(1) [unfolded o(3)]] o(2) by blast
  next
    fix q' u k assume o: "update_outcome u dynamoControlLeasePK (tab d) q' (tab d')" "isl q' = isl q" "u = renew_request D t h k l"
    show ?thesis using renew_tables [OF wf refl o(1) [unfolded o(3)]] o(2) by auto
  qed (use wf in simp)
  show "lease_wf (tab d) ?T \<Longrightarrow> lease_wf (tab (snd (dy_AcquireLease D t h l d))) ?T"
    using acquire by (metis prod.collapse)
  show "lease_wf (tab d) ?T \<Longrightarrow> dy_AcquireLease D t h l d = (q, d') \<Longrightarrow>
     isl q \<and> table_lease (tab d') ?T = table_lease (tab d) ?T \<or>
     (\<exists>L. table_lease (tab d') ?T = Some L \<and> Holder L = h \<and> ExpiresAt L = ms_expiry t l \<and>
        (\<forall>M. table_lease (tab d) ?T = Some M \<longrightarrow> (ExpiresAt M \<le> t \<or> Holder M = h) \<and>
           (FencingToken M < FencingToken L \<or> FencingToken M = FencingToken L \<and> Holder M = h)))" using acquire by blast
qed

lemma dynamo_coordinator:
  assumes "dynamo_ok (ds_client D) tab"
  shows "coordinator_lease (dynamo_control_ops J D) (dynamo_step J D) (\<lambda>d. lease_wf (tab d) (ds_table D))
     (\<lambda>d. table_lease (tab d) (ds_table D)) ms_expiry"
  unfolding coordinator_lease_def using dynamo_lease_store [OF assms, of J] by (simp add: dynamo_control_ops_def)

lemma ms_expiry_mono: "t \<le> t' \<Longrightarrow> ms_expiry t l \<le> ms_expiry t' l"
  by (simp add: ms_expiry_def time_UnixMilli_def UnixMilli_def zdiv_mono1)

section \<open>Reading back what was written\<close>

definition shard_in_range :: "ShardConfig \<Rightarrow> bool" where
  "shard_in_range s \<longleftrightarrow> in_int64 (sc_ID s) \<and> in_int64 (StartRow s) \<and> in_int64 (EndRow s)"

definition config_in_range :: "ShardConfigRecord \<Rightarrow> bool" where
  "config_in_range c \<longleftrightarrow> in_int64 (cfg_Version c) \<and> in_int64 (ShardCount c) \<and> in_int64 (RowsPerShard c) \<and>
     in_int64 (GlobalTableHeight c) \<and> list_all shard_in_range (Shards c)"

lemma shards_from_entries_map: "list_all shard_in_range ss \<Longrightarrow> shards_from_entries (map shard_entry ss) = Some ss"
proof (induction ss)
  case (Cons s ss)
  then show ?case
    by (cases s; cases "Standby s") (auto simp: shard_entry_def shard_in_range_def)
qed simp

definition has_number :: "item \<Rightarrow> string \<Rightarrow> bool" where
  "has_number it n \<longleftrightarrow> (\<exists>i. gm_get it n = Some (numberAttr i))"

definition has_string :: "item \<Rightarrow> string \<Rightarrow> bool" where
  "has_string it n \<longleftrightarrow> (\<exists>s. gm_get it n = Some (AttrS s))"

text \<open>An item, if there is one, has its key and these attributes with these types.\<close>

definition typed :: "string list \<Rightarrow> string list \<Rightarrow> tables \<Rightarrow> string \<Rightarrow> string \<Rightarrow> bool" where
  "typed ns ss m T k \<longleftrightarrow> (\<forall>it. m T k = Some it \<longrightarrow>
     gm_get it ''pk'' = Some (AttrS k) \<and> list_all (has_number it) ns \<and> list_all (has_string it) ss)"

definition start_item :: "tables \<Rightarrow> string \<Rightarrow> string \<Rightarrow> item" where
  "start_item m T k = (case m T k of None \<Rightarrow> dynamoKey k | Some it \<Rightarrow> it)"

lemma typed_cases:
  assumes "typed ns ss m T k"
  obtains (none) "m T k = None" "old_item m T k = []" "start_item m T k = dynamoKey k"
  | (some) it where "m T k = Some it" "old_item m T k = it" "start_item m T k = it" "it \<noteq> []"
      "gm_get it ''pk'' = Some (AttrS k)" "list_all (has_number it) ns" "list_all (has_string it) ss"
proof (cases "m T k")
  case (Some it)
  moreover from this have "gm_get it ''pk'' = Some (AttrS k)" "list_all (has_number it) ns" "list_all (has_string it) ss"
    using assms by (simp_all add: typed_def)
  moreover from this(1) have "it \<noteq> []" by auto
  ultimately show ?thesis using some by (simp add: old_item_def start_item_def)
qed (use none in \<open>simp add: old_item_def start_item_def\<close>)

lemma typed_pk: "typed ns ss m T k \<Longrightarrow> gm_get (start_item m T k) ''pk'' = Some (AttrS k)"
  by (auto simp: start_item_def typed_def dynamoKey_def dynamoControlPKName_def split: option.splits)

definition config_item :: "codec \<Rightarrow> ShardConfigRecord \<Rightarrow> item \<Rightarrow> item" where
  "config_item J c it = gm_put ''config_hash'' (AttrS (shardConfigFingerprint J c))
     (gm_put ''shards'' (AttrL (map shard_entry (Shards c)))
     (gm_put ''global_table_height'' (numberAttr (GlobalTableHeight c))
     (gm_put ''rows_per_shard'' (numberAttr (RowsPerShard c))
     (gm_put ''shard_count'' (numberAttr (ShardCount c)) (gm_put ''version'' (numberAttr (cfg_Version c)) it)))))"

lemma config_item_read:
  assumes "config_in_range c" "gm_get it ''pk'' = Some (AttrS k)"
  shows "shardConfigFromItem (config_item J c it) = Some (c\<lparr>cfg_Key := k\<rparr>)"
  using assms shards_from_entries_map [of "Shards c"]
  by (simp add: shardConfigFromItem_def config_item_def config_in_range_def dynamoControlPKName_def)

lemma config_tables:
  assumes ty: "typed [''version''] [''config_hash''] m (ds_table D) k"
    and out: "update_outcome (config_request J D k c im) k m q m'"
  shows "isl q \<and> m' = m \<or>
     m' = put_item (ds_table D) k (Some (config_item J c (start_item m (ds_table D) k))) m \<and>
       (\<forall>it. m (ds_table D) k = Some it \<longrightarrow>
          (if im then stringAttr it ''config_hash'' = shardConfigFingerprint J c else number_in it ''version'' \<le> cfg_Version c))"
  using ty
proof (cases rule: typed_cases)
  case none
  have "update_condition (config_request J D k c im) [] = Some True"
      "updated_item (config_request J D k c im) [] = Some (config_item J c (dynamoKey k))"
    by (simp_all add: request_eval config_item_def shardConfigToAttributes_def)
  then show ?thesis using out none by (auto simp: update_outcome_def Let_def)
next
  case (some it)
  obtain v h where v: "gm_get it ''version'' = Some (numberAttr v)" "gm_get it ''config_hash'' = Some (AttrS h)"
    using some(6,7) by (auto simp: has_number_def has_string_def)
  have "update_condition (config_request J D k c im) it
        = Some (if im then h = shardConfigFingerprint J c else v \<le> cfg_Version c)"
      "updated_item (config_request J D k c im) it = Some (config_item J c it)"
    using some(4,5) v by (simp_all add: request_eval config_item_def shardConfigToAttributes_def)
  then show ?thesis using out some(1-3) v by (auto simp: update_outcome_def Let_def split: if_splits)
qed

lemma typed_put:
  assumes "gm_get it ''pk'' = Some (AttrS k)" "list_all (has_number it) ns" "list_all (has_string it) ss"
  shows "typed ns ss (put_item T k (Some it) m) T k"
  using assms by (simp add: typed_def)

lemma config_item_typed:
  "gm_get it ''pk'' = Some (AttrS k) \<Longrightarrow> typed [''version''] [''config_hash''] (put_item T k (Some (config_item J c it)) m) T k"
  by (rule typed_put) (simp_all add: config_item_def has_number_def has_string_def)

lemma put_config:
  assumes ok: "dynamo_ok (ds_client D) tab" and ty: "typed [''version''] [''config_hash''] (tab d) (ds_table D) k"
    and p: "putShardConfigAtKey J D k c im d = (q, d')"
  shows "isl q \<and> tab d' = tab d \<or>
     tab d' = put_item (ds_table D) k (Some (config_item J c (start_item (tab d) (ds_table D) k))) (tab d) \<and>
       store_validateShardConfigRecord c = Inr () \<and>
       (\<forall>it. tab d (ds_table D) k = Some it \<longrightarrow>
          (if im then stringAttr it ''config_hash'' = shardConfigFingerprint J c else number_in it ''version'' \<le> cfg_Version c))"
proof (cases "store_validateShardConfigRecord c")
  case (Inr u)
  obtain q1 d1 where u: "UpdateItem (ds_client D) (config_request J D k c im) d = (q1, d1)" by fastforce
  have "isl q = isl q1 \<and> d' = d1" using p u by (cases q1) (auto simp: putShardConfigAtKey_def Inr split: if_splits)
  then show ?thesis using config_tables [OF ty ok_Update(2) [OF ok _ u, of k]] Inr by auto
next
  case (Inl e)
  have "isl q" "d' = d" using p by (auto simp: putShardConfigAtKey_def Inl)
  then show ?thesis by simp
qed

section \<open>Sequences of operations\<close>

definition dynamo_run :: "codec \<Rightarrow> 'd DynamoDBStore \<Rightarrow> dynamo_op list \<Rightarrow> 'd \<Rightarrow> 'd" where
  "dynamo_run J D ops d = foldl (\<lambda>d x. dynamo_step J D x d) d ops"

text \<open>What an item of one key goes through: the operations that do not write the key leave it alone.\<close>

lemma dynamo_run_key:
  assumes ok: "dynamo_ok (ds_client D) tab" and P: "P (tab d (ds_table D) k)"
    and step: "\<And>x d. x \<in> set ops \<Longrightarrow> k \<in> step_keys x \<Longrightarrow> P (tab d (ds_table D) k) \<Longrightarrow> P (tab (dynamo_step J D x d) (ds_table D) k)"
  shows "P (tab (dynamo_run J D ops d) (ds_table D) k)"
  using P step
proof (induction ops arbitrary: d)
  case (Cons x ops)
  have "P (tab (dynamo_step J D x d) (ds_table D) k)"
    using Cons.prems dynamo_frame [OF ok, of k x J d] by (cases "k \<in> step_keys x") auto
  then show ?case using Cons.IH Cons.prems(2) by (simp add: dynamo_run_def)
qed (simp add: dynamo_run_def)

lemmas key_defs = dynamoControlLeasePK_def dynamoControlEpochPK_def dynamoControlShardConfigPK_def dynamoSessionPK_def
  dynamoControlEpochCyclePK_def epochShardConfigKey_def epochScalingRecommendationKey_def latestScalingRecommendationKey_def

lemma key_inject [simp]:
  "epochShardConfigKey e = epochShardConfigKey e' \<longleftrightarrow> e = e'" "dynamoSessionPK i = dynamoSessionPK i' \<longleftrightarrow> i = i'"
  by (simp_all add: key_defs)

lemma key_distinct [simp]:
  "dynamoControlShardConfigPK \<noteq> dynamoControlEpochPK" "dynamoControlShardConfigPK \<noteq> epochShardConfigKey e"
  "dynamoControlShardConfigPK \<noteq> epochScalingRecommendationKey e" "dynamoControlShardConfigPK \<noteq> latestScalingRecommendationKey"
  "dynamoControlShardConfigPK \<noteq> dynamoControlEpochCyclePK" "dynamoControlShardConfigPK \<noteq> dynamoSessionPK i"
  "dynamoControlEpochCyclePK \<noteq> dynamoControlEpochPK" "dynamoControlEpochCyclePK \<noteq> dynamoControlShardConfigPK"
  "dynamoControlEpochCyclePK \<noteq> epochShardConfigKey e" "dynamoControlEpochCyclePK \<noteq> epochScalingRecommendationKey e"
  "dynamoControlEpochCyclePK \<noteq> latestScalingRecommendationKey" "dynamoControlEpochCyclePK \<noteq> dynamoSessionPK i"
  "epochShardConfigKey e \<noteq> dynamoControlEpochPK" "epochShardConfigKey e \<noteq> dynamoControlShardConfigPK"
  "epochShardConfigKey e \<noteq> epochScalingRecommendationKey e'" "epochShardConfigKey e \<noteq> latestScalingRecommendationKey"
  "epochShardConfigKey e \<noteq> dynamoControlEpochCyclePK" "epochShardConfigKey e \<noteq> dynamoSessionPK i"
  "dynamoSessionPK i \<noteq> dynamoControlEpochPK" "dynamoSessionPK i \<noteq> dynamoControlShardConfigPK"
  "dynamoSessionPK i \<noteq> epochScalingRecommendationKey e" "dynamoSessionPK i \<noteq> latestScalingRecommendationKey"
  "dynamoSessionPK i \<noteq> dynamoControlEpochCyclePK" "dynamoSessionPK i \<noteq> epochShardConfigKey e"
  by (simp_all add: key_defs)

lemma step_key_shapes:
  "dynamoControlShardConfigPK \<in> step_keys x \<longleftrightarrow> (\<exists>c. x = DyControl (CtlPutShardConfig c))"
  "dynamoControlEpochCyclePK \<in> step_keys x \<longleftrightarrow> (\<exists>t a b u. x = DyControl (CtlPutCycle t a b u))"
  "epochShardConfigKey e \<in> step_keys x \<longleftrightarrow> (\<exists>c. x = DyControl (CtlPutEpochShardConfig e c))"
  "dynamoSessionPK i \<in> step_keys x \<longleftrightarrow> (\<exists>t r. x = DyPutSession t r \<and> GlobalUUID r = i) \<or> x = DyDeleteSession i"
proof -
  have a: "dynamoControlShardConfigPK \<in> control_keys y \<longleftrightarrow> (\<exists>c. y = CtlPutShardConfig c)" for y by (cases y) simp_all
  have b: "dynamoControlEpochCyclePK \<in> control_keys y \<longleftrightarrow> (\<exists>t a b u. y = CtlPutCycle t a b u)" for y by (cases y) simp_all
  have c: "epochShardConfigKey e \<in> control_keys y \<longleftrightarrow> (\<exists>c. y = CtlPutEpochShardConfig e c)" for y by (cases y) auto
  have d: "dynamoSessionPK i \<notin> control_keys y" for y by (cases y) simp_all
  note * = a b c d
  show "dynamoControlShardConfigPK \<in> step_keys x \<longleftrightarrow> (\<exists>c. x = DyControl (CtlPutShardConfig c))" by (cases x) (simp_all add: *)
  show "dynamoControlEpochCyclePK \<in> step_keys x \<longleftrightarrow> (\<exists>t a b u. x = DyControl (CtlPutCycle t a b u))" by (cases x) (simp_all add: *)
  show "epochShardConfigKey e \<in> step_keys x \<longleftrightarrow> (\<exists>c. x = DyControl (CtlPutEpochShardConfig e c))" by (cases x) (simp_all add: *)
  show "dynamoSessionPK i \<in> step_keys x \<longleftrightarrow> (\<exists>t r. x = DyPutSession t r \<and> GlobalUUID r = i) \<or> x = DyDeleteSession i"
    by (cases x) (auto simp add: *)
qed

definition holds_config :: "codec \<Rightarrow> string \<Rightarrow> (ShardConfigRecord \<Rightarrow> bool) \<Rightarrow> item option \<Rightarrow> bool" where
  "holds_config J k Q v \<longleftrightarrow> (\<exists>it c. v = Some (config_item J c it) \<and> gm_get it ''pk'' = Some (AttrS k) \<and>
     config_in_range c \<and> cfg_Key c = k \<and> store_validateShardConfigRecord c = Inr () \<and> Q c)"

lemma holds_config_mono: "holds_config J k Q v \<Longrightarrow> (\<And>c. Q c \<Longrightarrow> R c) \<Longrightarrow> holds_config J k R v"
  unfolding holds_config_def by blast

lemma holds_config_typed: "holds_config J k Q (m T k) \<Longrightarrow> typed [''version''] [''config_hash''] m T k"
  by (auto simp: holds_config_def typed_def config_item_def has_number_def has_string_def)

lemma holds_config_get:
  assumes "reads_ok (ds_client D) tab" "holds_config J k Q (tab d (ds_table D) k)"
  shows "\<exists>c. dy_get_config D k d = Inr (Some c) \<and> Q c"
proof -
  obtain it c where c: "tab d (ds_table D) k = Some (config_item J c it)" "gm_get it ''pk'' = Some (AttrS k)"
      "config_in_range c" "cfg_Key c = k" "store_validateShardConfigRecord c = Inr ()" "Q c"
    using assms(2) by (auto simp: holds_config_def)
  have "config_item J c it \<noteq> []" by (simp add: config_item_def)
  then have "dy_getItem D k d = Inr (Some (config_item J c it))"
    using assms(1) c(1) by (simp add: dy_getItem_def reads_ok_def old_item_def)
  moreover have "shardConfigFromItem (config_item J c it) = Some c"
    using config_item_read [OF c(3,2), of J] c(4) by (cases c) auto
  ultimately show ?thesis using c(5,6) by (simp add: dy_get_config_def)
qed

lemma put_holds_config:
  assumes ok: "dynamo_ok (ds_client D) tab" and ty: "typed [''version''] [''config_hash''] (tab d) (ds_table D) k"
    and p: "putShardConfigAtKey J D k c im d = (q, d')" and c: "config_in_range c" "cfg_Key c = k"
  shows "q = Inr () \<Longrightarrow> holds_config J k (\<lambda>x. x = c) (tab d' (ds_table D) k)"
    and "holds_config J k Q (tab d (ds_table D) k) \<Longrightarrow>
       (\<And>b. Q b \<Longrightarrow> if im then shardConfigFingerprint J b = shardConfigFingerprint J c else cfg_Version b \<le> cfg_Version c \<Longrightarrow> Q c) \<Longrightarrow>
       holds_config J k Q (tab d' (ds_table D) k)"
proof -
  note cases = put_config [OF ok ty p]
  show "q = Inr () \<Longrightarrow> holds_config J k (\<lambda>x. x = c) (tab d' (ds_table D) k)"
    using cases c typed_pk [OF ty] by (auto simp: holds_config_def)
  assume h: "holds_config J k Q (tab d (ds_table D) k)"
    and Q: "\<And>b. Q b \<Longrightarrow> if im then shardConfigFingerprint J b = shardConfigFingerprint J c else cfg_Version b \<le> cfg_Version c \<Longrightarrow> Q c"
  obtain it b where b: "tab d (ds_table D) k = Some (config_item J b it)" "Q b" using h by (auto simp: holds_config_def)
  have r: "stringAttr (config_item J b it) ''config_hash'' = shardConfigFingerprint J b"
    "number_in (config_item J b it) ''version'' = cfg_Version b" by (simp_all add: config_item_def)
  show "holds_config J k Q (tab d' (ds_table D) k)" using cases
  proof (elim disjE conjE)
    assume t: "tab d' = put_item (ds_table D) k (Some (config_item J c (start_item (tab d) (ds_table D) k))) (tab d)"
      and v: "store_validateShardConfigRecord c = Inr ()"
      and g: "\<forall>it. tab d (ds_table D) k = Some it \<longrightarrow>
        (if im then stringAttr it ''config_hash'' = shardConfigFingerprint J c else number_in it ''version'' \<le> cfg_Version c)"
    have "if im then shardConfigFingerprint J b = shardConfigFingerprint J c else cfg_Version b \<le> cfg_Version c"
      using g b(1) r by (cases im) auto
    then have "Q c" by (rule Q [OF b(2)])
    then show ?thesis using t v c typed_pk [OF ty] by (auto simp: holds_config_def)
  qed (use h in simp)
qed

section \<open>Sessions and the epoch cycle\<close>

definition session_in_range :: "SessionRecord \<Rightarrow> bool" where
  "session_in_range r \<longleftrightarrow> in_int64 (ss_EpochID r) \<and> in_int64 (ss_ShardID r) \<and> in_int64 (GlobalUUID r) \<and>
     in_int64 (LocalUUID r) \<and> length (ss_HashKey r) = 32 \<and> in_int64 (GlobalRow r) \<and> in_int64 (LocalRow r) \<and>
     in_int64 (ShardStartRow r) \<and> in_int64 (UnixMilli (ss_CreatedAt r))"

text \<open>What a session looks like after it went through the table.\<close>

definition ms_session :: "SessionRecord \<Rightarrow> SessionRecord" where
  "ms_session r = r\<lparr>ss_CreatedAt := time_UnixMilli (UnixMilli (ss_CreatedAt r))\<rparr>"

definition session_item :: "SessionRecord \<Rightarrow> item" where
  "session_item r = gm_put ''created_unix_ms'' (numberAttr (UnixMilli (ss_CreatedAt r)))
     (gm_put ''shard_start_row'' (numberAttr (ShardStartRow r)) (gm_put ''local_row'' (numberAttr (LocalRow r))
     (gm_put ''global_row'' (numberAttr (GlobalRow r)) (gm_put ''hash_key'' (AttrS (EncodeToString (ss_HashKey r)))
     (gm_put ''local_uuid'' (numberAttr (LocalUUID r)) (gm_put ''global_uuid'' (numberAttr (GlobalUUID r))
     (gm_put ''shard_id'' (numberAttr (ss_ShardID r)) (gm_put ''epoch_id'' (numberAttr (ss_EpochID r))
       (dynamoKey (dynamoSessionPK (GlobalUUID r)))))))))))"

lemma session_item_read: "session_in_range r \<Longrightarrow> sessionFromItem (session_item r) = ms_session r"
  by (cases r) (simp add: sessionFromItem_def session_item_def session_in_range_def ms_session_def Let_def)

lemma session_item_pk: "gm_get (session_item r) ''pk'' = Some (AttrS (dynamoSessionPK (GlobalUUID r)))"
  by (simp add: session_item_def dynamoKey_def dynamoControlPKName_def)

lemma session_tables:
  assumes ty: "typed [] [] m (ds_table D) (dynamoSessionPK (GlobalUUID r))"
    and out: "update_outcome (session_request D r) (dynamoSessionPK (GlobalUUID r)) m q m'"
  shows "isl q \<and> m' = m \<or> m (ds_table D) (dynamoSessionPK (GlobalUUID r)) = None \<and>
     m' = put_item (ds_table D) (dynamoSessionPK (GlobalUUID r)) (Some (session_item r)) m"
  using ty
proof (cases rule: typed_cases)
  case none
  have "update_condition (session_request D r) [] = Some True" "updated_item (session_request D r) [] = Some (session_item r)"
    by (simp_all add: request_eval session_item_def sessionToAttributes_def)
  then show ?thesis using out none by (auto simp: update_outcome_def Let_def)
next
  case (some it)
  have "update_condition (session_request D r) it = Some False" "updated_item (session_request D r) it \<noteq> None"
    using some(4,5) by (simp_all add: request_eval sessionToAttributes_def)
  then show ?thesis using out some(1-3) by (auto simp: update_outcome_def Let_def)
qed

lemma put_session:
  assumes ok: "dynamo_ok (ds_client D) tab" and ty: "typed [] [] (tab d) (ds_table D) (dynamoSessionPK (GlobalUUID r))"
    and p: "dy_PutSession D None t r d = (q, d')"
  shows "isl q \<and> tab d' = tab d \<or> tab d (ds_table D) (dynamoSessionPK (GlobalUUID r)) = None \<and>
     tab d' = put_item (ds_table D) (dynamoSessionPK (GlobalUUID r))
       (Some (session_item (if IsZero (ss_CreatedAt r) then r\<lparr>ss_CreatedAt := t\<rparr> else r))) (tab d)"
proof -
  define s where "s = (if IsZero (ss_CreatedAt r) then r\<lparr>ss_CreatedAt := t\<rparr> else r)"
  have g: "GlobalUUID s = GlobalUUID r" by (simp add: s_def)
  obtain q1 d1 where u: "UpdateItem (ds_client D) (session_request D s) d = (q1, d1)" by fastforce
  have "isl q \<and> d' = d \<or> isl q = isl q1 \<and> d' = d1"
    using p u by (cases q1) (auto simp: dy_PutSession_def Let_def s_def [symmetric] split: if_splits)
  then show ?thesis
    using session_tables [OF ty [folded g] ok_Update(2) [OF ok _ u]] unfolding g s_def by auto
qed

definition cycle_in :: "tables \<Rightarrow> string \<Rightarrow> string" where
  "cycle_in m T = (case m T dynamoControlEpochCyclePK of None \<Rightarrow> EpochCycleStateIdle | Some it \<Rightarrow> stringAttr it ''cycle_state'')"

definition cycle_typed :: "tables \<Rightarrow> string \<Rightarrow> bool" where
  "cycle_typed m T \<longleftrightarrow> typed [] [''cycle_state''] m T dynamoControlEpochCyclePK"

lemma cycle_tables:
  assumes ty: "cycle_typed m (ds_table D)"
    and out: "update_outcome (cycle_request D from cy b) dynamoControlEpochCyclePK m q m'"
    and b: "\<not> b \<longrightarrow> from = EpochCycleStateIdle"
  shows "isl q \<and> m' = m \<or>
     cycle_in m (ds_table D) = from \<and> cycle_in m' (ds_table D) = cy_State cy \<and> cycle_typed m' (ds_table D)"
proof -
  let ?k = dynamoControlEpochCyclePK and ?T = "ds_table D"
  have put: "cycle_in (put_item ?T ?k (Some new) m) ?T = cy_State cy \<and> cycle_typed (put_item ?T ?k (Some new) m) ?T"
    if "gm_get new ''pk'' = Some (AttrS ?k)" "gm_get new ''cycle_state'' = Some (AttrS (cy_State cy))" for new
    using that by (auto simp: cycle_in_def cycle_typed_def has_string_def intro: typed_put)
  define new where "new it = gm_put ''updated_unix_ms'' (numberAttr (UnixMilli (cy_UpdatedAt cy)))
     (gm_put ''created_unix_ms'' (numberAttr (UnixMilli (cy_CreatedAt cy))) (gm_put ''reason'' (AttrS (cy_Reason cy))
     (gm_put ''scaling_recommendation_epoch_id'' (numberAttr (cy_ScalingRecommendationEpochID cy))
     (gm_put ''shard_config_version'' (numberAttr (cy_ShardConfigVersion cy)) (gm_put ''epoch_id'' (numberAttr (cy_EpochID cy))
     (gm_put ''cycle_state'' (AttrS (cy_State cy)) it))))))" for it
  have upd: "updated_item (cycle_request D from cy b) it = Some (new (if it = [] then dynamoKey ?k else it))" for it
    by (simp add: request_eval epochCycleToAttributes_def new_def)
  from ty [unfolded cycle_typed_def] show ?thesis
  proof (cases rule: typed_cases)
    case none
    have "update_condition (cycle_request D from cy b) [] = Some (\<not> b)" by (simp add: request_eval)
    then have "isl q \<and> m' = m \<or> \<not> b \<and> m' = put_item ?T ?k (Some (new (dynamoKey ?k))) m"
      using out none upd [of "[]"] by (auto simp: update_outcome_def Let_def)
    then show ?thesis using put [of "new (dynamoKey ?k)"] none(1) b
      by (auto simp: new_def dynamoKey_def dynamoControlPKName_def cycle_in_def)
  next
    case (some it)
    obtain s where s: "gm_get it ''cycle_state'' = Some (AttrS s)" using some(7) by (auto simp: has_string_def)
    have "update_condition (cycle_request D from cy b) it = Some (b \<and> s = from)" using some(5) s by (simp add: request_eval)
    then have "isl q \<and> m' = m \<or> s = from \<and> m' = put_item ?T ?k (Some (new it)) m"
      using out some(2,4) upd [of it] by (auto simp: update_outcome_def Let_def)
    then show ?thesis using put [of "new it"] some(1,5) s by (auto simp: new_def cycle_in_def)
  qed
qed

lemma put_cycle:
  assumes ok: "dynamo_ok (ds_client D) tab" and ty: "cycle_typed (tab d) (ds_table D)"
    and p: "dy_PutEpochCycleTransition D t a b u d = (q, d')"
  shows "isl q \<and> tab d' = tab d \<or>
     cycle_in (tab d) (ds_table D) = normalizeEpochCycleState a \<and> cycle_in (tab d') (ds_table D) = b \<and>
     validEpochCycleTransition (normalizeEpochCycleState a) b \<and> cycle_typed (tab d') (ds_table D)"
proof -
  let ?from = "normalizeEpochCycleState a"
  from p consider "isl q" "d' = d"
    | found rec q1 where "dy_GetEpochCycle D d = Inr found"
        "(case found of None \<Rightarrow> EpochCycleStateIdle | Some c \<Rightarrow> cy_State c) = ?from"
        "prepareEpochCycleRecord t ?from b u (case found of None \<Rightarrow> zero_cycle | Some c \<Rightarrow> c) (found \<noteq> None) = Inr rec"
        "UpdateItem (ds_client D) (cycle_request D ?from rec (found \<noteq> None)) d = (q1, d')" "isl q1 = isl q"
    by (auto simp: dy_PutEpochCycleTransition_def Let_def split: sum.splits if_splits option.splits prod.splits)
  then show ?thesis
  proof cases
    case (2 found rec q1)
    have v: "validEpochCycleTransition ?from b" "cy_State rec = b"
      using 2(3) by (auto simp: prepareEpochCycleRecord_def validateEpochCycleTransition_def Let_def split: if_splits sum.splits)
    have "\<not> (found \<noteq> None) \<longrightarrow> ?from = EpochCycleStateIdle" using 2(2) by auto
    from cycle_tables [OF ty ok_Update(2) [OF ok _ 2(4)] this] show ?thesis using v 2(5) by auto
  qed auto
qed

lemma cycle_step:
  assumes ok: "dynamo_ok (ds_client D) tab" and ty: "cycle_typed (tab d) (ds_table D)"
  shows "cycle_typed (tab (dynamo_step J D x d)) (ds_table D)"
    and "cycle_in (tab (dynamo_step J D x d)) (ds_table D) = cycle_in (tab d) (ds_table D) \<or>
       validEpochCycleTransition (cycle_in (tab d) (ds_table D)) (cycle_in (tab (dynamo_step J D x d)) (ds_table D))"
proof -
  have "cycle_typed (tab (dynamo_step J D x d)) (ds_table D) \<and>
    (cycle_in (tab (dynamo_step J D x d)) (ds_table D) = cycle_in (tab d) (ds_table D) \<or>
       validEpochCycleTransition (cycle_in (tab d) (ds_table D)) (cycle_in (tab (dynamo_step J D x d)) (ds_table D)))"
  proof (cases "dynamoControlEpochCyclePK \<in> step_keys x")
    case True
    then obtain t a b u where x: "x = DyControl (CtlPutCycle t a b u)" by (auto simp: step_key_shapes)
    obtain q d' where "dy_PutEpochCycleTransition D t a b u d = (q, d')" by fastforce
    with put_cycle [OF ok ty this] show ?thesis using ty x by auto
  next
    case False
    then show ?thesis using dynamo_frame [OF ok False, of J d] ty by (simp add: cycle_typed_def typed_def cycle_in_def)
  qed
  then show "cycle_typed (tab (dynamo_step J D x d)) (ds_table D)"
    "cycle_in (tab (dynamo_step J D x d)) (ds_table D) = cycle_in (tab d) (ds_table D) \<or>
       validEpochCycleTransition (cycle_in (tab d) (ds_table D)) (cycle_in (tab (dynamo_step J D x d)) (ds_table D))" by auto
qed

lemma dynamo_run_snoc: "dynamo_run J D (xs @ [x]) d = dynamo_step J D x (dynamo_run J D xs d)"
  by (simp add: dynamo_run_def)

lemma transition_normalized: "validEpochCycleTransition (normalizeEpochCycleState a) b = validEpochCycleTransition a b"
proof -
  have "normalizeEpochCycleState (normalizeEpochCycleState a) = normalizeEpochCycleState a"
    by (simp add: normalizeEpochCycleState_def EpochCycleStateIdle_def)
  then show ?thesis by (simp only: validEpochCycleTransition_def)
qed

lemma cycle_run_typed: "dynamo_ok (ds_client D) tab \<Longrightarrow> cycle_typed (tab d) (ds_table D) \<Longrightarrow> cycle_typed (tab (dynamo_run J D ops d)) (ds_table D)"
  by (induction ops rule: rev_induct) (simp_all add: dynamo_run_snoc cycle_step(1), simp add: dynamo_run_def)

text \<open>The other records: what a write request makes of an item is read back as the record, with its times cut
  to the stored resolution.\<close>

lemma epoch_read_back:
  assumes "updated_item (start_request D ep v) it = Some new" "in_int64 (ep_ID ep)" "in_int64 (Unix (ep_StartTime ep))"
    and "in_int64 (Unix (ep_EndTime ep))" "in_int64 (ep_DurationSeconds ep)"
  shows "epochFromItem new = ep\<lparr>ep_StartTime := time_Unix (Unix (ep_StartTime ep)), ep_EndTime := time_Unix (Unix (ep_EndTime ep))\<rparr>"
proof -
  have "parseEpochStateName (DbState_String s) = s" for s by (cases s) (simp_all add: parseEpochStateName_def)
  then show ?thesis using assms by (cases ep) (auto simp: request_eval epochToAttributes_def epochFromItem_def)
qed

lemma scaling_read_back:
  assumes "codec_ok J" "updated_item (scaling_request J D k r im) it = Some new" "gm_get it ''pk'' = Some (AttrS k)"
    and "in_int64 (sg_EpochID r)" "in_int64 (sg_AcceptedRequestCount r)" "in_int64 (sg_DurationSeconds r)"
    and "in_int64 (sg_CurrentShardCount r)" "in_int64 (sg_RecommendedShardCount r)" "in_int64 (sg_TargetRowsPerShard r)"
    and "in_int64 (sg_ProposedGlobalTableHeight r)" "in_int64 (sg_ShardConfigVersion r)" "in_int64 (UnixMilli (sg_CreatedAt r))"
    and "sg_RequestDensity r = Fin x"
  shows "scalingRecommendationFromItem J new = r\<lparr>sg_Key := k, sg_CreatedAt := time_UnixMilli (UnixMilli (sg_CreatedAt r))\<rparr>"
proof -
  have "it \<noteq> []" using assms(3) by auto
  then show ?thesis using assms
    by (cases r) (auto simp: request_eval scalingRecommendationToAttributes_def scalingRecommendationFromItem_def
        dynamoControlPKName_def float64Attr_def floatNumberAttr_def codec_ok_def)
qed

lemma cycle_read_back:
  assumes "updated_item (cycle_request D from cy b) it = Some new" "in_int64 (cy_EpochID cy)" "in_int64 (cy_ShardConfigVersion cy)"
    and "in_int64 (cy_ScalingRecommendationEpochID cy)" "in_int64 (UnixMilli (cy_CreatedAt cy))" "in_int64 (UnixMilli (cy_UpdatedAt cy))"
  shows "epochCycleFromItem new = cy\<lparr>cy_CreatedAt := time_UnixMilli (UnixMilli (cy_CreatedAt cy)),
     cy_UpdatedAt := time_UnixMilli (UnixMilli (cy_UpdatedAt cy))\<rparr>"
  using assms by (cases cy) (auto simp: request_eval epochCycleToAttributes_def epochCycleFromItem_def split: if_splits)

section \<open>Properties\<close>

text \<open>C8: One active coordinator over DynamoDB. Coordinators with different holder names share a table of
  a service that keeps \<open>dynamo_ok\<close>: reads may be stale, a failed call may have taken effect. After
  one of them passed a lease check at time \<open>t\<close>, let any events happen: ticks and checks of any
  coordinators before the lease ends (its own not before \<open>t\<close>), any other operations on the store and
  replication. Then every other coordinator fails its lease check until the lease ends, and none
  has become active that was not before. The lease ends at \<open>t + leaseTTL\<close> cut to milliseconds.\<close>

theorem dynamo_lease_excludes_others:
  assumes "dynamo_ok (ds_client D) tab" "lease_wf (tab (cl_store C)) (ds_table D)"
    and "distinct (map leaseHolder (cl_coords C))" "i < length (cl_coords C)"
    and "requireCoordinatorLease (dynamo_control_ops J D) t (cl_coords C ! i, cl_store C) = (Inr u, c, s)"
    and "\<forall>ev \<in> set evs. \<forall>k t'. event_at ev = Some (k, t') \<longrightarrow>
           t' < ms_expiry t (leaseTTL (cl_coords C ! i)) \<and> (k = i \<longrightarrow> t \<le> t')"
    and "j < length (cl_coords C)" "j \<noteq> i" "t' < ms_expiry t (leaseTTL (cl_coords C ! i))"
  shows "let E = cluster_run (dynamo_control_ops J D) (dynamo_step J D) evs
            (cluster_step (dynamo_control_ops J D) (dynamo_step J D) (Check i t) C)
     in (\<exists>err. fst (requireCoordinatorLease (dynamo_control_ops J D) t' (cl_coords E ! j, cl_store E)) = Inl err) \<and>
        (co_role (cl_coords E ! j) = coordinatorRoleActive \<longrightarrow> co_role (cl_coords C ! j) = coordinatorRoleActive)"
  by (rule coordinator_lease.check_excludes [OF dynamo_coordinator [OF assms(1)] assms(2-5) _ assms(7-9)])
    (use assms(6) ms_expiry_mono in blast)

definition toy_store :: "(tables \<times> tables) DynamoDBStore" where
  "toy_store = \<lparr>ds_client = toy_dynamo, ds_table = ''control'', ds_timeout = defaultDynamoOperationTimeout\<rparr>"

definition toy_codec :: codec where
  "toy_codec = \<lparr>json_Marshal_config = (\<lambda>c. Inr (map of_char (cfg_Key c @ show_int (cfg_Version c)))),
     json_Marshal_scaling = (\<lambda>r. Inr (map of_char (show_int (sg_EpochID r)))), sha256_Sum256 = take 32,
     FormatFloat = (\<lambda>f. case f of Fin x \<Rightarrow> (let (a, b) = quotient_of x in show_int a @ ''/'' @ show_int b) | _ \<Rightarrow> ''NaN''),
     ParseFloat = (\<lambda>s. Inl (ErrorString s))\<rparr>"

lemma toy_store_simps [simp]: "ds_client toy_store = toy_dynamo" "ds_table toy_store = ''control''"
  by (simp_all add: toy_store_def)

text \<open>The lease is held by \<open>a\<close>; the replica has not seen it yet.\<close>

definition leased_item :: item where
  "leased_item = [(''pk'', AttrS ''lease''), (''holder'', AttrS ''a''), (''fencing_token'', numberAttr 1),
     (''expires_unix_ms'', numberAttr 20)]"

definition leased_tables :: "tables \<times> tables" where
  "leased_tables = (put_item ''control'' ''lease'' (Some leased_item) (\<lambda>_. Map.empty), \<lambda>_. Map.empty)"

lemma leased_tables_wf: "lease_wf (fst leased_tables) ''control''"
  by (simp add: leased_tables_def lease_wf_def leased_item_def dynamoControlLeasePK_def)

definition dynamo_cluster :: "(tables \<times> tables) cluster" where
  "dynamo_cluster = \<lparr>cl_coords = [(sample_coordinator ''a'')\<lparr>leaseTTL := 30 * second\<rparr>,
     (sample_coordinator ''b'')\<lparr>leaseTTL := 30 * second, co_role := coordinatorRolePassive\<rparr>], cl_store = leased_tables\<rparr>"

lemma dynamo_check:
  "\<exists>c s. requireCoordinatorLease (dynamo_control_ops toy_codec toy_store) 4 (cl_coords dynamo_cluster ! 0, cl_store dynamo_cluster)
     = (Inr (), c, s)"
proof -
  let ?c = "(sample_coordinator ''a'')\<lparr>leaseTTL := 30 * second\<rparr>"
  let ?u = "renew_request toy_store 4 ''a'' 1 (30 * second)"
  have it: "old_item (fst leased_tables) ''control'' ''lease'' = leased_item" by (simp add: leased_tables_def old_item_def)
  have c: "update_condition ?u leased_item = Some True" by (simp add: request_eval leased_item_def UnixMilli_def)
  obtain new where n: "updated_item ?u leased_item = Some new" by (auto simp: request_eval leased_item_def)
  obtain s where u: "UpdateItem toy_dynamo ?u leased_tables = (Inr new, s)"
    using toy_Update [of ?u dynamoControlLeasePK "fst leased_tables" True new "snd leased_tables"] it c n
    by (auto simp: dynamoControlLeasePK_def renew_request_def)
  have "leaseHolder ?c = ''a''" "FencingToken (co_lease ?c) = 1" "leaseTTL ?c = 30 * second" by simp_all
  then show ?thesis using u
    by (simp add: requireCoordinatorLease_def renewCoordinatorLease_def dynamo_control_ops_def dy_RenewLease_def
        dynamo_cluster_def second_def Let_def)
qed

theorem dynamo_lease_excludes_others_witness:
  "let E = cluster_run (dynamo_control_ops toy_codec toy_store) (dynamo_step toy_codec toy_store)
         [Tick 1 1000000000, StoreOp DyBackground, Check 1 2000000000, Tick 0 3000000000]
       (cluster_step (dynamo_control_ops toy_codec toy_store) (dynamo_step toy_codec toy_store) (Check 0 4) dynamo_cluster)
   in co_role (cl_coords E ! 1) \<noteq> coordinatorRoleActive"
proof -
  obtain c s where r: "requireCoordinatorLease (dynamo_control_ops toy_codec toy_store) 4
      (cl_coords dynamo_cluster ! 0, cl_store dynamo_cluster) = (Inr (), c, s)" using dynamo_check by blast
  have ok: "dynamo_ok (ds_client toy_store) fst" by (simp add: toy_dynamo_ok)
  from dynamo_lease_excludes_others [OF ok _ _ _ r, where j = 1 and t' = 5 and
      evs = "[Tick 1 1000000000, StoreOp DyBackground, Check 1 2000000000, Tick 0 3000000000]"]
  show ?thesis using leased_tables_wf
    by (simp add: dynamo_cluster_def Let_def roles ms_expiry_def time_UnixMilli_def UnixMilli_def second_def)
qed

definition synced_store :: "(tables \<times> tables) DynamoDBStore" where
  "synced_store = toy_store\<lparr>ds_client := synced_dynamo\<rparr>"

definition sample_map :: "int \<Rightarrow> ShardConfigRecord" where
  "sample_map v = shardConfigRecordFromShards sample_inventory v"

lemma synced_store_simps [simp]: "ds_client synced_store = synced_dynamo" "ds_table synced_store = ''control''"
  by (simp_all add: synced_store_def)

lemma no_items_typed: "typed ns ss (fst no_items) T k"
  by (simp add: typed_def)

lemma sample_map_valid: "0 < v \<Longrightarrow> store_validateShardConfigRecord ((sample_map v)\<lparr>cfg_Key := k\<rparr>) = Inr ()"
  by (simp add: store_validateShardConfigRecord_def config_header_check_def sample_map_def shardConfigRecordFromShards_def
      sort_sample_inventory globalTableHeightForShards_def)
    (simp add: sample_inventory_def sample_pair_def TABLE_HEIGHT_eq shard_map_end_def)

lemma sample_map_range: "in_int64 v \<Longrightarrow> config_in_range (sample_map v)"
  by (simp add: config_in_range_def sample_map_def shardConfigRecordFromShards_def globalTableHeightForShards_def)
    (simp add: sample_inventory_def TABLE_HEIGHT_eq shard_in_range_def in_int64_def max_int64_def)

lemma fresh_put:
  assumes "store_validateShardConfigRecord c = Inr ()"
  shows "\<exists>d'. putShardConfigAtKey toy_codec synced_store k c im no_items = (Inr (), d')"
proof -
  let ?u = "config_request toy_codec synced_store k c im"
  have "update_condition ?u [] = Some True" "updated_item ?u [] = Some (config_item toy_codec c (dynamoKey k))"
    by (simp_all add: request_eval config_item_def shardConfigToAttributes_def)
  then show ?thesis
    using toy_Update [of ?u k "fst no_items" True "config_item toy_codec c (dynamoKey k)" "snd no_items"] assms
    by (auto simp: putShardConfigAtKey_def old_item_def)
qed



text \<open>The shard map of an epoch in DynamoDB is fixed. After \<^verbatim>\<open>PutEpochShardConfig\<close> succeeded for an epoch, and
  after any further operations, \<^verbatim>\<open>GetEpochShardConfig\<close> of that epoch returns a map with the same
  fingerprint.\<close>

theorem dynamo_epoch_map_fixed:
  assumes "dynamo_ok (ds_client D) tab" "reads_ok (ds_client D) tab"
    and "typed [''version''] [''config_hash''] (tab d) (ds_table D) (epochShardConfigKey e)"
    and "config_in_range config" "dy_PutEpochShardConfig J D e config d = (Inr (), d')"
    and "\<forall>c. DyControl (CtlPutEpochShardConfig e c) \<in> set ops \<longrightarrow> config_in_range c"
  shows "\<exists>c. dy_GetEpochShardConfig D e (dynamo_run J D ops d') = Inr (Some c) \<and>
     shardConfigFingerprint J c = shardConfigFingerprint J config"
proof -
  let ?k = "epochShardConfigKey e" and ?Q = "\<lambda>x. shardConfigFingerprint J x = shardConfigFingerprint J config"
  have rng: "config_in_range (c\<lparr>cfg_Key := ?k\<rparr>) \<longleftrightarrow> config_in_range c" for c by (simp add: config_in_range_def)
  have fp: "shardConfigFingerprint J (c\<lparr>cfg_Key := ?k\<rparr>) = shardConfigFingerprint J c" for c
    by (simp add: shardConfigFingerprint_def)
  have e: "0 < e" "putShardConfigAtKey J D ?k (config\<lparr>cfg_Key := ?k\<rparr>) True d = (Inr (), d')"
    using assms(5) by (auto simp: dy_PutEpochShardConfig_def Let_def split: if_splits)
  have h: "holds_config J ?k (\<lambda>x. x = config\<lparr>cfg_Key := ?k\<rparr>) (tab d' (ds_table D) ?k)"
    by (rule put_holds_config(1) [OF assms(1,3) e(2)]) (simp_all add: assms(4) rng)
  have "holds_config J ?k ?Q (tab (dynamo_run J D ops d') (ds_table D) ?k)"
  proof (rule dynamo_run_key [OF assms(1)])
    show "holds_config J ?k ?Q (tab d' (ds_table D) ?k)" by (rule holds_config_mono [OF h]) (simp add: fp)
    fix x d assume x: "x \<in> set ops" "?k \<in> step_keys x" and h: "holds_config J ?k ?Q (tab d (ds_table D) ?k)"
    obtain c where c: "x = DyControl (CtlPutEpochShardConfig e c)" using x(2) by (auto simp: step_key_shapes)
    obtain q d1 where p: "putShardConfigAtKey J D ?k (c\<lparr>cfg_Key := ?k\<rparr>) True d = (q, d1)" by fastforce
    have "config_in_range (c\<lparr>cfg_Key := ?k\<rparr>)" using x(1) c assms(6) rng by simp
    from put_holds_config(2) [OF assms(1) holds_config_typed [of J _ _ "tab d" "ds_table D", OF h] p this _ h] show
      "holds_config J ?k ?Q (tab (dynamo_step J D x d) (ds_table D) ?k)"
      using p c e(1) by (auto simp: dy_PutEpochShardConfig_def)
  qed
  from holds_config_get [OF assms(2) this] show ?thesis by (simp add: dy_GetEpochShardConfig_def)
qed

theorem dynamo_epoch_map_fixed_witness:
  "let d' = snd (dy_PutEpochShardConfig toy_codec synced_store 4 (sample_map 3) no_items);
       ops = [DyControl (CtlPutEpochShardConfig 4 (sample_map 2)), DyBackground, DyControl (CtlPutEpochShardConfig 5 (sample_map 5))]
   in \<exists>c. dy_GetEpochShardConfig synced_store 4 (dynamo_run toy_codec synced_store ops d') = Inr (Some c) \<and>
        shardConfigFingerprint toy_codec c = shardConfigFingerprint toy_codec (sample_map 3)"
proof -
  obtain d' where d: "dy_PutEpochShardConfig toy_codec synced_store 4 (sample_map 3) no_items = (Inr (), d')"
    using fresh_put [of "(sample_map 3)\<lparr>cfg_Key := epochShardConfigKey 4\<rparr>" "epochShardConfigKey 4" True]
      sample_map_valid [of 3 "epochShardConfigKey 4"] by (auto simp: dy_PutEpochShardConfig_def)
  have "\<exists>c. dy_GetEpochShardConfig synced_store 4 (dynamo_run toy_codec synced_store
         [DyControl (CtlPutEpochShardConfig 4 (sample_map 2)), DyBackground, DyControl (CtlPutEpochShardConfig 5 (sample_map 5))] d')
         = Inr (Some c) \<and> shardConfigFingerprint toy_codec c = shardConfigFingerprint toy_codec (sample_map 3)"
    by (rule dynamo_epoch_map_fixed [where tab = fst, OF _ _ no_items_typed _ d])
      (auto simp: synced_dynamo_ok sample_map_range in_int64_def max_int64_def)
  then show ?thesis using d by (simp add: Let_def)
qed

text \<open>C30: The epoch cycle in DynamoDB follows its table. With stale reads and lost answers, in any sequence of
  operations of any processes every change of the stored cycle state is a transition of the table;
  and a \<^verbatim>\<open>PutEpochCycleTransition\<close> that succeeds found the state it expected in the table itself (not
  only in what it had read) and left the requested one.\<close>

theorem dynamo_cycle_follows_table:
  assumes "dynamo_ok (ds_client D) tab" "cycle_typed (tab d) (ds_table D)"
  shows "(\<forall>n < length ops. let s = cycle_in (tab (dynamo_run J D (take n ops) d)) (ds_table D);
             s' = cycle_in (tab (dynamo_run J D (take (Suc n) ops) d)) (ds_table D)
           in s' = s \<or> validEpochCycleTransition s s') \<and>
     (\<forall>d'. dy_PutEpochCycleTransition D t from to update (dynamo_run J D ops d) = (Inr (), d') \<longrightarrow>
        cycle_in (tab (dynamo_run J D ops d)) (ds_table D) = normalizeEpochCycleState from \<and>
        cycle_in (tab d') (ds_table D) = to \<and> validEpochCycleTransition from to)"
proof (intro conjI allI impI)
  fix n assume n: "n < length ops"
  have "dynamo_run J D (take (Suc n) ops) d = dynamo_step J D (ops ! n) (dynamo_run J D (take n ops) d)"
    using n by (simp add: take_Suc_conv_app_nth dynamo_run_snoc)
  with cycle_step(2) [OF assms(1) cycle_run_typed [OF assms, of J "take n ops"], of J "ops ! n"]
  show "let s = cycle_in (tab (dynamo_run J D (take n ops) d)) (ds_table D);
             s' = cycle_in (tab (dynamo_run J D (take (Suc n) ops) d)) (ds_table D)
           in s' = s \<or> validEpochCycleTransition s s'" by (simp add: Let_def)
next
  fix d' assume "dy_PutEpochCycleTransition D t from to update (dynamo_run J D ops d) = (Inr (), d')"
  from put_cycle [OF assms(1) cycle_run_typed [OF assms] this]
  show "cycle_in (tab (dynamo_run J D ops d)) (ds_table D) = normalizeEpochCycleState from"
    "cycle_in (tab d') (ds_table D) = to" "validEpochCycleTransition from to"
    by (auto simp: transition_normalized)
qed

theorem dynamo_cycle_follows_table_witness:
  "let ops = [DyControl (CtlPutCycle 0 '''' EpochCycleStateActive zero_cycle), DyBackground,
              DyControl (CtlPutCycle 0 EpochCycleStateActive EpochCycleStateCompleted zero_cycle)];
       s = cycle_in (fst (dynamo_run toy_codec toy_store (take 2 ops) no_items)) ''control'';
       s' = cycle_in (fst (dynamo_run toy_codec toy_store (take 3 ops) no_items)) ''control''
   in s' = s \<or> validEpochCycleTransition s s'"
proof -
  let ?ops = "[DyControl (CtlPutCycle 0 '''' EpochCycleStateActive zero_cycle), DyBackground,
              DyControl (CtlPutCycle 0 EpochCycleStateActive EpochCycleStateCompleted zero_cycle)]"
  have ok: "dynamo_ok (ds_client toy_store) fst" by (simp add: toy_dynamo_ok)
  have "cycle_typed (fst no_items) (ds_table toy_store)" by (simp add: cycle_typed_def no_items_typed)
  from conjunct1 [OF dynamo_cycle_follows_table [OF ok this, of ?ops toy_codec 0 "''''" "''''" zero_cycle], rule_format, of 2]
  show ?thesis by (simp add: Let_def numeral_3_eq_3)
qed

text \<open>Sessions in DynamoDB. After \<^verbatim>\<open>PutSession\<close> succeeded, any sequence of further operations that does not
  delete the session (puts of the same uuid included) leaves it readable and unchanged; the time of
  its creation comes back in milliseconds, every other field exactly.\<close>

theorem dynamo_session_round_trip:
  assumes "dynamo_ok (ds_client D) tab" "reads_ok (ds_client D) tab"
    and "typed [] [] (tab d) (ds_table D) (dynamoSessionPK (GlobalUUID r))"
    and "session_in_range r" "\<not> IsZero (ss_CreatedAt r)"
    and "dy_PutSession D None t r d = (Inr (), d')" "DyDeleteSession (GlobalUUID r) \<notin> set ops"
  shows "dy_GetSession D None (GlobalUUID r) (dynamo_run J D ops d')
     = Inr (r\<lparr>ss_CreatedAt := time_UnixMilli (UnixMilli (ss_CreatedAt r))\<rparr>)"
proof -
  let ?k = "dynamoSessionPK (GlobalUUID r)"
  have "tab (dynamo_run J D ops d') (ds_table D) ?k = Some (session_item r)"
  proof (rule dynamo_run_key [OF assms(1)])
    show "tab d' (ds_table D) ?k = Some (session_item r)"
      using put_session [OF assms(1,3,6)] assms(5) by auto
    fix x d assume x: "x \<in> set ops" "?k \<in> step_keys x" and h: "tab d (ds_table D) ?k = Some (session_item r)"
    obtain t' r' where r': "x = DyPutSession t' r'" "GlobalUUID r' = GlobalUUID r"
      using x assms(7) by (auto simp: step_key_shapes)
    have "typed [] [] (tab d) (ds_table D) (dynamoSessionPK (GlobalUUID r'))"
      using h r'(2) session_item_pk [of r] by (simp add: typed_def)
    from put_session [OF assms(1) this, of t' "fst (dy_PutSession D None t' r' d)" "snd (dy_PutSession D None t' r' d)"]
    show "tab (dynamo_step J D x d) (ds_table D) ?k = Some (session_item r)" using h r' by auto
  qed
  moreover have "session_item r \<noteq> []" by (simp add: session_item_def)
  ultimately have "dy_getItem D ?k (dynamo_run J D ops d') = Inr (Some (session_item r))"
    using assms(2) by (simp add: dy_getItem_def reads_ok_def old_item_def)
  then show ?thesis using session_item_read [OF assms(4)] by (simp add: dy_GetSession_def ms_session_def)
qed

definition hashed_session :: SessionRecord where
  "hashed_session = sample_session\<lparr>ss_HashKey := replicate 32 7, ss_CreatedAt := 1500000\<rparr>"

theorem dynamo_session_round_trip_witness:
  "let d' = snd (dy_PutSession synced_store None 9 hashed_session no_items);
       ops = [DyPutSession 10 (hashed_session\<lparr>GlobalRow := 8\<rparr>), DyDeleteSession 4, DyBackground]
   in dy_GetSession synced_store None 5 (dynamo_run toy_codec synced_store ops d') = Inr (hashed_session\<lparr>ss_CreatedAt := 1000000\<rparr>)"
proof -
  have g: "GlobalUUID hashed_session = 5" "\<not> IsZero (ss_CreatedAt hashed_session)" "session_in_range hashed_session"
    "time_UnixMilli (UnixMilli (ss_CreatedAt hashed_session)) = 1000000"
    by (simp_all add: hashed_session_def sample_session_def IsZero_def zero_time_def session_in_range_def in_int64_def
        max_int64_def UnixMilli_def time_UnixMilli_def)
  have c: "update_condition (session_request synced_store hashed_session) [] = Some True"
    "updated_item (session_request synced_store hashed_session) [] = Some (session_item hashed_session)"
    by (simp_all add: request_eval session_item_def sessionToAttributes_def)
  have v: "0 < ss_EpochID hashed_session" "0 < GlobalUUID hashed_session" "0 < LocalUUID hashed_session"
    by (simp_all add: hashed_session_def sample_session_def)
  obtain d' where d: "dy_PutSession synced_store None 9 hashed_session no_items = (Inr (), d')"
    using toy_Update [of "session_request synced_store hashed_session" "dynamoSessionPK (GlobalUUID hashed_session)" "fst no_items" True
        "session_item hashed_session" "snd no_items"] c v g(2)
    by (auto simp: dy_PutSession_def old_item_def)
  from dynamo_session_round_trip [where tab = fst, OF _ _ no_items_typed g(3,2) d,
      of "[DyPutSession 10 (hashed_session\<lparr>GlobalRow := 8\<rparr>), DyDeleteSession 4, DyBackground]" toy_codec]
  show ?thesis using d g by (simp add: Let_def synced_dynamo_ok)
qed

end
