(* ===== verification/Coordinator_Program.thy ===== *)
theory Coordinator_Program
  imports Coordinator_Config Coordinator_Status Dynamo_Store Transport Admin_Text
begin

text \<open>
  The program of a coordinator around the parts of \<open>Coordinator_Config\<close>: which stores the flags choose,
  the start of the process, and the administrative calls (\<^verbatim>\<open>src/coordinator/main.go\<close>).

  The flags extend those of \<open>Coordinator_Config\<close>. The AWS client is an argument, as are the connection that
  an administrative call is made on and the service that answers it.

  Shown here: a coordinator on the in-memory store is always active; on a DynamoDB table it is
  not while the lease of another runs: it starts as a passive standby if the flags ask for that, and ends
  otherwise. An administrative command makes exactly the one call that the flags name.
\<close>

section \<open>Flags and stores\<close>

record program_flags = coordinator_flags +
  flagLog :: string
  flagAdminTarget :: string
  flagStartEpoch :: int
  flagEpochStatus :: bool
  flagStatus :: bool
  flagApplyScalingRecommendation :: bool
  flagDryRunScalingRecommendation :: bool
  flagSkipScalingRecommendation :: bool
  flagPromoteShardStandby :: bool
  flagPromoteShardID :: int
  flagForcePromoteShard :: bool
  flagControlStore :: string
  flagControlTable :: string
  flagSessionStore :: string
  flagSessionTable :: string
  flagAWSRegion :: string

record 'd dynamo_aws =
  LoadDefaultConfig :: "string \<Rightarrow> unit res"
  NewFromConfig :: "'d dynamo"

datatype 'd control_choice = ControlMemory | ControlDynamo "'d DynamoDBStore"
datatype 'd session_choice = SessionMemory | SessionDynamo "'d DynamoDBStore"

text \<open>\<open>host\<close> is the outcome of \<^verbatim>\<open>os.Hostname\<close>.\<close>

definition defaultCoordinatorID :: "string res \<Rightarrow> nat \<Rightarrow> string" where
  "defaultCoordinatorID host pid =
     (let h = (case host of Inl _ \<Rightarrow> ''coordinator'' | Inr h \<Rightarrow> if h = '''' then ''coordinator'' else h) in h @ ''-'' @ show_nat pid)"

definition buildControlStore :: "'d dynamo_aws \<Rightarrow> program_flags \<Rightarrow> 'd control_choice res" where
  "buildControlStore A F =
     (if flagControlStore F = ''memory'' then Inr ControlMemory
      else if flagControlStore F = ''dynamodb''
      then if flagControlTable F = '''' then Inl (DynamoDBStoreConfigError ''-control-table'')
           else case LoadDefaultConfig A (flagAWSRegion F) of
             Inl err \<Rightarrow> Inl err
           | Inr _ \<Rightarrow> map_sum (\<lambda>e. e) ControlDynamo (NewDynamoDBStore (Some (NewFromConfig A)) (flagControlTable F))
      else Inl (ErrorString (''unknown -control-store '' @ quoted (flagControlStore F))))"

definition buildSessionStore :: "'d dynamo_aws \<Rightarrow> program_flags \<Rightarrow> ('d session_choice \<times> string) res" where
  "buildSessionStore A F =
     (if flagSessionStore F = ''memory'' then Inr (SessionMemory, ''memory'')
      else if flagSessionStore F = ''dynamodb''
      then let t = (if flagSessionTable F = '''' then flagControlTable F else flagSessionTable F)
           in if t = '''' then Inl (DynamoDBStoreConfigError ''-session-table'')
              else case LoadDefaultConfig A (flagAWSRegion F) of
                Inl err \<Rightarrow> Inl err
              | Inr _ \<Rightarrow> map_sum (\<lambda>e. e) (\<lambda>s. (SessionDynamo s, ''dynamodb'')) (NewDynamoDBStore (Some (NewFromConfig A)) t)
      else Inl (ErrorString (''unknown -session-store '' @ quoted (flagSessionStore F))))"

section \<open>Administrative calls\<close>

datatype admin_call =
    CallStartEpoch int
  | CallEpochStatus
  | CallStatus
  | CallApplyScaling bool
  | CallSkipScaling
  | CallPromote int bool string

datatype admin_reply =
    ReplyStartEpoch StartEpochReply
  | ReplyEpochStatus EpochStatusReply
  | ReplyStatus CoordinatorStatusReply
  | ReplyApplyScaling ApplyScalingRecommendationReply
  | ReplySkipScaling SkipScalingRecommendationReply
  | ReplyPromote PromoteShardStandbyReply

definition apply_text :: "bool \<Rightarrow> ApplyScalingRecommendationReply \<Rightarrow> string" where
  "apply_text dryRun reply = ''applied='' @ show_bool (as_Applied reply) @ '' dry_run='' @ show_bool dryRun
     @ '' recommendation_epoch='' @ show_int (as_RecommendationEpochID reply)
     @ '' version='' @ show_int (as_PreviousVersion reply) @ ''->'' @ show_int (as_NewVersion reply)
     @ '' shards='' @ show_int (as_PreviousShardCount reply) @ ''->'' @ show_int (as_NewShardCount reply)
     @ '' global_table_height='' @ show_int (as_PreviousGlobalTableHeight reply) @ ''->'' @ show_int (as_NewGlobalTableHeight reply)
     @ '' status='' @ as_Status reply @ '' reason='' @ as_Reason reply"

definition skip_text :: "SkipScalingRecommendationReply \<Rightarrow> string" where
  "skip_text reply = ''skipped='' @ show_bool (sk_Skipped reply) @ '' recommendation_epoch='' @ show_int (sk_RecommendationEpochID reply)
     @ '' shard_config_version='' @ show_int (sk_ShardConfigVersion reply) @ '' action='' @ sk_Action reply @ '' reason='' @ sk_Reason reply"

definition promote_text :: "PromoteShardStandbyReply \<Rightarrow> string" where
  "promote_text reply = ''promoted='' @ show_bool (pr_Promoted reply) @ '' shard='' @ show_int (pr_ShardID reply)
     @ '' version='' @ show_int (pr_PreviousVersion reply) @ ''->'' @ show_int (pr_NewVersion reply)
     @ '' old_active='' @ pr_OldActiveLeaderAddr reply @ '' new_active='' @ pr_NewActiveLeaderAddr reply
     @ '' status='' @ pr_Status reply @ '' reason='' @ pr_Reason reply"

text \<open>\<open>call\<close> is \<^verbatim>\<open>client.Call\<close> on the connection. A reply of another kind than the call cannot arrive; it is treated as an error.\<close>

definition admin_result ::
  "(admin_call \<Rightarrow> 'w \<Rightarrow> admin_reply res \<times> 'w) \<Rightarrow> admin_call \<Rightarrow> string \<Rightarrow> (admin_reply \<Rightarrow> string res) \<Rightarrow> 'w \<Rightarrow> string res \<times> 'w" where
  "admin_result call c failed text w =
     (case call c w of
        (Inl err, w) \<Rightarrow> (Inl (Wrapped failed (rpc_error err) ''''), w)
      | (Inr reply, w) \<Rightarrow> (text reply, w))"

definition mismatch :: go_error where "mismatch = ErrorString ''gob: type mismatch''"

definition admin_commands ::
  "(admin_call \<Rightarrow> 'w \<Rightarrow> admin_reply res \<times> 'w) \<Rightarrow> (CoordinatorStatusReply \<Rightarrow> string res) \<Rightarrow> program_flags \<Rightarrow> 'w \<Rightarrow> string res \<times> 'w" where
  "admin_commands call encode F w =
     (if flagStartEpoch F > 0
      then admin_result call (CallStartEpoch (flagStartEpoch F)) ''Could not start epoch: ''
             (\<lambda>r. case r of ReplyStartEpoch reply \<Rightarrow> Inr (started_text reply) | _ \<Rightarrow> Inl mismatch) w
      else if flagEpochStatus F
      then admin_result call CallEpochStatus ''Could not query epoch status: ''
             (\<lambda>r. case r of ReplyEpochStatus reply \<Rightarrow> Inr (epoch_text reply) | _ \<Rightarrow> Inl mismatch) w
      else if flagStatus F
      then admin_result call CallStatus ''Could not query status: ''
             (\<lambda>r. case r of ReplyStatus reply \<Rightarrow>
                (case encode reply of Inl err \<Rightarrow> Inl (Wrapped ''Could not encode status: '' err '''') | Inr text \<Rightarrow> Inr text)
              | _ \<Rightarrow> Inl mismatch) w
      else if flagApplyScalingRecommendation F \<or> flagDryRunScalingRecommendation F
      then admin_result call (CallApplyScaling (flagDryRunScalingRecommendation F))
             (if flagDryRunScalingRecommendation F then ''Could not dry-run scaling recommendation: ''
              else ''Could not apply scaling recommendation: '')
             (\<lambda>r. case r of ReplyApplyScaling reply \<Rightarrow> Inr (apply_text (flagDryRunScalingRecommendation F) reply) | _ \<Rightarrow> Inl mismatch) w
      else if flagSkipScalingRecommendation F
      then admin_result call CallSkipScaling ''Could not skip scaling recommendation: ''
             (\<lambda>r. case r of ReplySkipScaling reply \<Rightarrow> Inr (skip_text reply) | _ \<Rightarrow> Inl mismatch) w
      else if flagPromoteShardStandby F
      then admin_result call (CallPromote (flagPromoteShardID F) (flagForcePromoteShard F) ''manual admin promotion'')
             ''Could not promote shard standby: ''
             (\<lambda>r. case r of ReplyPromote reply \<Rightarrow> Inr (promote_text reply) | _ \<Rightarrow> Inl mismatch) w
      else (Inl (ErrorString ''no admin command requested''), w))"

text \<open>The whole command: the connection must be made to a server with the leader's certificate, and is served only if
  that server admits a client without certificate; \<open>lost\<close> is the error of a call on a connection that is
  not served.\<close>

definition coordinator_runAdminCommand ::
  "pki \<Rightarrow> server_keys \<Rightarrow> (duration \<Rightarrow> string \<Rightarrow> tls_Config res) \<Rightarrow> go_error \<Rightarrow> (admin_call \<Rightarrow> 'w \<Rightarrow> admin_reply res \<times> 'w)
     \<Rightarrow> (CoordinatorStatusReply \<Rightarrow> string res) \<Rightarrow> program_flags \<Rightarrow> 'w \<Rightarrow> (string res \<times> 'w) go" where
  "coordinator_runAdminCommand K S net lost call encode F w =
     go_bind (DialHTTPWithTLS K S net (flagAdminTarget F) (- 1) [LeaderCertificate S]) (\<lambda>dialed.
       case dialed of
         Inl err \<Rightarrow> Ok (Inl (Wrapped ''Could not connect to admin target: '' err ''''), w)
       | Inr conn \<Rightarrow> Ok (admin_commands (if handleOneClient conn then call else (\<lambda>_ w. (Inl lost, w))) encode F w))"

section \<open>The program\<close>

datatype 'd coordinator_outcome =
    CoordinatorFatal
  | CoordinatorAdmin
  | CoordinatorServes Coordinator "'d session_choice" string "string \<times> tls_Config"

definition start_on ::
  "codec \<Rightarrow> 'w shard_ops \<Rightarrow> gotime \<Rightarrow> string \<Rightarrow> program_flags \<Rightarrow> 'w \<Rightarrow> 'd control_choice \<Rightarrow> 'd \<Rightarrow> Coordinator option \<times> 'd" where
  "start_on J R now defaultID F w choice d =
     (case choice of
        ControlMemory \<Rightarrow> (fst (coordinator_main mem_control_ops R now defaultID (coordinator_flags.truncate F) w NewMemoryControlStore), d)
      | ControlDynamo D \<Rightarrow> coordinator_main (dynamo_control_ops J D) R now defaultID (coordinator_flags.truncate F) w d)"

definition coordinator_program ::
  "codec \<Rightarrow> server_keys \<Rightarrow> 'd dynamo_aws \<Rightarrow> 'w shard_ops \<Rightarrow> (string \<Rightarrow> bool) \<Rightarrow> (string \<Rightarrow> unit res) \<Rightarrow> gotime \<Rightarrow> string \<Rightarrow> program_flags
     \<Rightarrow> 'w \<Rightarrow> 'd \<Rightarrow> 'd coordinator_outcome \<times> 'd" where
  "coordinator_program J S A R openLog listen now defaultID F w d =
     (if adminCommandRequested (flagStartEpoch F) (flagEpochStatus F) (flagStatus F) (flagApplyScalingRecommendation F)
           (flagDryRunScalingRecommendation F) (flagSkipScalingRecommendation F) (flagPromoteShardStandby F)
      then (case validateAdminFlags (flagStartEpoch F) (flagEpochStatus F) (flagStatus F) (flagApplyScalingRecommendation F)
                   (flagDryRunScalingRecommendation F) (flagSkipScalingRecommendation F) (flagPromoteShardStandby F)
                   (flagPromoteShardID F) (flagAdminTarget F) of
              Inl err \<Rightarrow> (CoordinatorFatal, d)
            | Inr _ \<Rightarrow> (CoordinatorAdmin, d))
      else if flagLog F \<noteq> '''' \<and> \<not> openLog (flagLog F) then (CoordinatorFatal, d)
      else case buildControlStore A F of
        Inl err \<Rightarrow> (CoordinatorFatal, d)
      | Inr choice \<Rightarrow>
      case buildSessionStore A F of
        Inl err \<Rightarrow> (CoordinatorFatal, d)
      | Inr (sessions, backend) \<Rightarrow>
      case start_on J R now defaultID F w choice d of
        (None, d) \<Rightarrow> (CoordinatorFatal, d)
      | (Some c, d) \<Rightarrow>
      case ListenAndServe S listen (flagListen F) 0 [] of
        Ok l \<Rightarrow> (CoordinatorServes c sessions backend l, d)
      | _ \<Rightarrow> (CoordinatorFatal, d))"

section \<open>Starting beside another coordinator\<close>

lemma ensure_reader: "ensureShardConfig S inventory seed False s = (q, s') \<Longrightarrow> s' = s"
  by (auto simp: ensureShardConfig_def Let_def split: sum.splits option.splits)

text \<open>What a new coordinator becomes when the store refuses it the lease.\<close>

lemma new_without_lease:
  assumes "ct_AcquireLease S now holder ttl s = (Inl e, s1)"
    and "newCoordinator S now shards clients holder ttl renewInterval standby scaling n s = (q, s')"
  shows "s' \<in> {s, s1} \<and> (\<forall>c. q = Inr c \<longrightarrow> standby \<and> errors_Is e errLeaseHeld \<and> co_role c = coordinatorRolePassive)"
proof -
  have r: "coordinatorRolePassive \<noteq> coordinatorRoleActive" by (simp add: roles)
  show ?thesis using assms r unfolding newCoordinator_def
    by (auto simp: Let_def split: sum.splits prod.splits if_splits dest!: ensure_reader)
qed

lemma connect_role: "connectShards S R w (c, s) = (q, c') \<Longrightarrow> co_role c' = co_role c"
  by (auto simp: connectShards_def split: prod.splits)

lemma configure_role: "configureAutoPromotion cfg c = (q, c') \<Longrightarrow> co_role c' = co_role c"
  by (auto simp: configureAutoPromotion_def split: sum.splits)

lemma main_without_lease:
  assumes "ct_AcquireLease S now (configuredCoordinatorID defaultID F) (wrap64 (flagLeaseTTLSeconds F * second)) s = (Inl e, s1)"
    and "coordinator_main S R now defaultID F w s = (q, s')"
  shows "s' \<in> {s, s1} \<and> (\<forall>c. q = Some c \<longrightarrow> flagStandby F \<and> co_role c = coordinatorRolePassive)"
  using assms(2) unfolding coordinator_main_def
  by (auto split: if_splits sum.splits prod.splits dest!: new_without_lease [OF assms(1)] connect_role configure_role)

text \<open>What a coordinator with a store of its own becomes.\<close>

lemma new_with_lease:
  assumes "ct_AcquireLease S now holder ttl s = (Inr l, s1)"
    and "newCoordinator S now shards clients holder ttl renewInterval standby scaling n s = (Inr c, s')"
  shows "co_role c = coordinatorRoleActive"
  using assms unfolding newCoordinator_def by (auto simp: Let_def split: sum.splits prod.splits if_splits)

lemma main_in_memory:
  assumes "coordinator_main mem_control_ops R now defaultID F w NewMemoryControlStore = (Some c, s')"
  shows "co_role c = coordinatorRoleActive"
proof -
  let ?h = "configuredCoordinatorID defaultID F" let ?l = "wrap64 (flagLeaseTTLSeconds F * second)"
  let ?r = "wrap64 (flagLeaseRenewSeconds F * second)"
  have "\<exists>l s1. ct_AcquireLease mem_control_ops now ?h ?l NewMemoryControlStore = (Inr l, s1)"
    if "validateCoordinatorLeaseConfig ?h ?l ?r = Inr ()"
    using that by (auto simp: validateCoordinatorLeaseConfig_def mem_control_ops_def AcquireLease_def NewMemoryControlStore_def Let_def
        split: if_splits)
  moreover obtain shards c0 s0 where "newCoordinator mem_control_ops now shards Map.empty ?h ?l ?r (flagStandby F) (flagScaling F)
      (flagInitialActiveShards F) NewMemoryControlStore = (Inr c0, s0)" "co_role c = co_role c0"
    using assms unfolding coordinator_main_def
    by (auto split: if_splits sum.splits prod.splits dest!: connect_role configure_role)
  moreover from this(1) have "validateCoordinatorLeaseConfig ?h ?l ?r = Inr ()"
    by (auto simp: newCoordinator_def split: sum.splits)
  ultimately show ?thesis using new_with_lease by metis
qed

section \<open>Properties\<close>

text \<open>An administrative command line that is accepted makes the one call that it names, on a connection that is served.\<close>

definition requested_call :: "program_flags \<Rightarrow> admin_call" where
  "requested_call F =
     (if flagStartEpoch F > 0 then CallStartEpoch (flagStartEpoch F)
      else if flagEpochStatus F then CallEpochStatus
      else if flagStatus F then CallStatus
      else if flagSkipScalingRecommendation F then CallSkipScaling
      else if flagPromoteShardStandby F then CallPromote (flagPromoteShardID F) (flagForcePromoteShard F) ''manual admin promotion''
      else CallApplyScaling (flagDryRunScalingRecommendation F))"

lemma admin_command_calls:
  assumes "adminCommandRequested (flagStartEpoch F) (flagEpochStatus F) (flagStatus F) (flagApplyScalingRecommendation F)
           (flagDryRunScalingRecommendation F) (flagSkipScalingRecommendation F) (flagPromoteShardStandby F)"
    and "validateAdminFlags (flagStartEpoch F) (flagEpochStatus F) (flagStatus F) (flagApplyScalingRecommendation F)
           (flagDryRunScalingRecommendation F) (flagSkipScalingRecommendation F) (flagPromoteShardStandby F)
           (flagPromoteShardID F) (flagAdminTarget F) = Inr ()"
  shows "snd (admin_commands call encode F w) = snd (call (requested_call F) w)"
  using assms
  by (auto simp: admin_commands_def requested_call_def admin_result_def validateAdminFlags_def adminCommandRequested_def Let_def
      split: if_splits prod.splits sum.splits)

text \<open>C9: Two coordinators on one table are not active at once from the start. A coordinator that is started on a
  DynamoDB table in which the lease of another holder still runs does not take it: the lease stays as it is, and
  the program either serves as a passive standby, which needs the standby flag, or does not serve. On the
  in-memory store a coordinator that serves is active.\<close>

theorem coordinator_start_role:
  assumes "dynamo_ok (NewFromConfig A) tab" "lease_wf (tab d) (flagControlTable F)"
    and "table_lease (tab d) (flagControlTable F) = Some M" "now < ExpiresAt M"
    and "Holder M \<noteq> configuredCoordinatorID defaultID (coordinator_flags.truncate F)"
  shows "case coordinator_program J S A R openLog listen now defaultID F w d of
     (outcome, d') \<Rightarrow> table_lease (tab d') (flagControlTable F) = Some M \<and>
       (\<forall>c sessions backend l. outcome = CoordinatorServes c sessions backend l \<longrightarrow>
          (if flagControlStore F = ''memory'' then co_role c = coordinatorRoleActive
           else co_role c = coordinatorRolePassive \<and> flagStandby F))"
proof -
  let ?F = "coordinator_flags.truncate F"
  have start: "table_lease (tab d') (flagControlTable F) = Some M \<and>
      (\<forall>c. q = Some c \<longrightarrow> (if flagControlStore F = ''memory'' then co_role c = coordinatorRoleActive
         else co_role c = coordinatorRolePassive \<and> flagStandby F))"
    if b: "buildControlStore A F = Inr choice" and r: "start_on J R now defaultID F w choice d = (q, d')" for choice q d'
  proof (cases choice)
    case ControlMemory
    then have "flagControlStore F = ''memory''" using b
      by (auto simp: buildControlStore_def map_sum_Inr split: if_splits sum.splits)
    then show ?thesis using r assms(3) ControlMemory main_in_memory [of R now defaultID ?F w] unfolding start_on_def
      by (auto, metis prod.collapse)
  next
    case (ControlDynamo D)
    then have D: "flagControlStore F = ''dynamodb''" "ds_client D = NewFromConfig A" "ds_table D = flagControlTable F" using b
      by (auto simp: buildControlStore_def map_sum_Inr NewDynamoDBStore_def split: if_splits sum.splits)
    have wf: "lease_wf (tab d) (ds_table D)" using assms(2) D by simp
    obtain g d1 where g: "dy_AcquireLease D now (configuredCoordinatorID defaultID ?F) (wrap64 (flagLeaseTTLSeconds ?F * second)) d = (g, d1)"
      by fastforce
    have "isl g \<and> table_lease (tab d1) (ds_table D) = Some M"
      using lease_store.acquire_effect [OF dynamo_lease_store [of D tab, unfolded D(2), OF assms(1)] wf g] assms(3-5) D(3) by auto
    then obtain e where "g = Inl e" "table_lease (tab d1) (flagControlTable F) = Some M" using D(3) by (cases g) auto
    moreover from this g have "ct_AcquireLease (dynamo_control_ops J D) now (configuredCoordinatorID defaultID ?F)
        (wrap64 (flagLeaseTTLSeconds ?F * second)) d = (Inl e, d1)" by (simp add: dynamo_control_ops_def)
    ultimately show ?thesis using main_without_lease [of "dynamo_control_ops J D" now defaultID ?F d e d1 R w q d'] r ControlDynamo D(1) assms(3)
      by (auto simp: start_on_def coordinator_flags.truncate_def)
  qed
  show ?thesis
    using assms(3) start unfolding coordinator_program_def
    by (auto split: if_splits sum.splits prod.splits option.splits go.splits)
qed

definition standby_flags :: program_flags where
  "standby_flags = \<lparr>flagListen = '':8600'', shardFlags = map shard_flag sample_inventory, flagCoordinatorID = ''b'',
     flagLeaseTTLSeconds = 15, flagLeaseRenewSeconds = 5, flagStandby = True, flagScaling = sample_policy,
     flagInitialActiveShards = 0, flagAutoPromoteShardStandby = False, flagAutoPromoteCheckSeconds = 5,
     flagAutoPromoteFailureThreshold = 3, flagAutoPromoteCooldownSeconds = 30, flagLog = '''', flagAdminTarget = '''', flagStartEpoch = 0,
     flagEpochStatus = False, flagStatus = False, flagApplyScalingRecommendation = False, flagDryRunScalingRecommendation = False,
     flagSkipScalingRecommendation = False, flagPromoteShardStandby = False, flagPromoteShardID = - 1, flagForcePromoteShard = False,
     flagControlStore = ''dynamodb'', flagControlTable = ''control'', flagSessionStore = ''memory'', flagSessionTable = '''',
     flagAWSRegion = ''''\<rparr>"

definition toy_dynamo_aws :: "(tables \<times> tables) dynamo_aws" where
  "toy_dynamo_aws = \<lparr>LoadDefaultConfig = (\<lambda>_. Inr ()), NewFromConfig = toy_dynamo\<rparr>"

definition plain_keys :: server_keys where
  "plain_keys = \<lparr>ServerCertificates = [], LeaderCertificate = \<lparr>cert_Certificate = [], cert_PrivateKey = [], cert_Leaf = None\<rparr>, BoxPublicKeys = [],
     BoxPrivateKeys = [], SharedSecrets = []\<rparr>"

theorem coordinator_start_role_witness:
  "case coordinator_program toy_codec plain_keys toy_dynamo_aws echo_shards (\<lambda>_. True) (\<lambda>_. Inr ()) 4 ''host-1'' standby_flags 0 leased_tables of
     (outcome, d') \<Rightarrow> Holder (the (table_lease (fst d') ''control'')) = ''a'' \<and>
       (\<forall>c sessions backend l. outcome = CoordinatorServes c sessions backend l \<longrightarrow> co_role c = coordinatorRolePassive)"
proof -
  let ?M = "\<lparr>Holder = ''a'', FencingToken = 1, ExpiresAt = time_UnixMilli 20\<rparr>"
  have F: "flagControlTable standby_flags = ''control''" "flagControlStore standby_flags = ''dynamodb''"
    "configuredCoordinatorID x (coordinator_flags.truncate standby_flags) = ''b''" for x
    by (simp_all add: standby_flags_def configuredCoordinatorID_def coordinator_flags.truncate_def)
  have M: "table_lease (fst leased_tables) ''control'' = Some ?M"
    by (simp add: table_lease_def leased_tables_def leased_item_def dynamoControlLeasePK_def)
  have A: "dynamo_ok (NewFromConfig toy_dynamo_aws) fst" by (simp add: toy_dynamo_aws_def toy_dynamo_ok)
  from coordinator_start_role [OF A, of leased_tables standby_flags ?M 4 "''host-1''" toy_codec plain_keys echo_shards
      "\<lambda>_. True" "\<lambda>_. Inr ()" 0]
  show ?thesis using leased_tables_wf by (auto simp: F M time_UnixMilli_def split: prod.splits)
qed

end
