(* ===== verification/Autoscaler_Program.thy ===== *)
theory Autoscaler_Program
  imports Autoscaler Coordinator_Program
begin

text \<open>
  The main function of the autoscaler (\<^verbatim>\<open>src/autoscaler/main.go\<close>): its flags, the control store on DynamoDB
  that it opens, and the loop of \<open>Autoscaler\<close> over that store and a coordinator.

  Shown here: without \<^verbatim>\<open>-apply\<close> the process changes nothing on its own, whatever the service returns to its reads: all
  that happens to the table is what the coordinator does in dry runs.
\<close>

section \<open>The program\<close>

record autoscaler_flags =
  sf_Coordinator :: string
  sf_ControlTable :: string
  sf_AWSRegion :: string
  sf_IntervalSeconds :: int
  sf_Once :: bool
  sf_Apply :: bool
  sf_MinRecommendationEpoch :: int
  sf_Log :: string

text \<open>\<open>A\<close> is the coordinator behind \<^verbatim>\<open>-coordinator\<close>, \<open>net\<close> what becomes of a call to it, \<open>ctxErr\<close> the error of a context that
  is done. An error ends the process with \<^verbatim>\<open>log.Fatal\<close>.\<close>

definition autoscaler_main ::
  "codec \<Rightarrow> 'd dynamo_aws \<Rightarrow> (string \<Rightarrow> bool) \<Rightarrow> (bool \<Rightarrow> rpc_answer) \<Rightarrow> ('c, 'd) admin \<Rightarrow> autoscaler_flags \<Rightarrow> go_error
     \<Rightarrow> (nat \<Rightarrow> gotime) \<Rightarrow> (nat \<Rightarrow> gotime) list \<Rightarrow> 'c \<times> 'd \<Rightarrow> unit res \<times> 'c \<times> 'd" where
  "autoscaler_main J aws openLog net A F ctxErr clk clks x =
     (case validateFlags (sf_Coordinator F) (sf_ControlTable F) (sf_IntervalSeconds F) of
        Inl err \<Rightarrow> (Inl err, x)
      | Inr _ \<Rightarrow>
      if sf_Log F \<noteq> '''' \<and> \<not> openLog (sf_Log F) then (Inl (ErrorString (''Could not open log file '' @ sf_Log F)), x)
      else case LoadDefaultConfig aws (sf_AWSRegion F) of
        Inl err \<Rightarrow> (Inl err, x)
      | Inr _ \<Rightarrow>
      case NewDynamoDBStore (Some (NewFromConfig aws)) (sf_ControlTable F) of
        Inl err \<Rightarrow> (Inl err, x)
      | Inr D \<Rightarrow>
          autoscaler_run (dynamo_control_ops J D) (rpc_admin net A)
            \<lparr>as_apply = sf_Apply F, minRecommendationEpoch = sf_MinRecommendationEpoch F\<rparr>
            (wrap64 (sf_IntervalSeconds F * second)) (sf_Once F) ctxErr clk clks x)"

section \<open>Dry runs\<close>

lemma evaluate_observer:
  assumes "\<not> as_apply a"
  shows "snd (evaluateOnce S A clk a x) \<in> {x, snd (A True x)}"
  using assms
  by (cases x) (auto simp: evaluateOnce_def evaluate_ready_def admin_phase_def Let_def split: sum.splits option.splits prod.splits)

lemma loop_observer:
  assumes "\<not> as_apply a" "reflp P" "transp P" "\<And>x. P x (snd (A True x))"
  shows "P x (snd (autoscaler_loop S A a once ctxErr clk clks x))"
proof (induction clks arbitrary: clk x)
  case Nil
  obtain d err y where e: "evaluateOnce S A clk a x = ((d, err), y)" by (metis surj_pair)
  then have "y \<in> {x, snd (A True x)}" using evaluate_observer [OF assms(1), of S A clk x] by simp
  then have "P x y" using reflpD [OF assms(2), of x] assms(4) [of x] by fastforce
  then show ?case using e by simp
next
  case (Cons c clks)
  obtain d err y where e: "evaluateOnce S A clk a x = ((d, err), y)" by (metis surj_pair)
  then have "y \<in> {x, snd (A True x)}" using evaluate_observer [OF assms(1), of S A clk x] by simp
  then have "P x y" using reflpD [OF assms(2), of x] assms(4) [of x] by fastforce
  have "P x (snd (autoscaler_loop S A a once ctxErr c clks y))" by (rule transpD [OF assms(3) \<open>P x y\<close> Cons.IH])
  then show ?case using e \<open>P x y\<close> by (cases once; subst autoscaler_loop.simps) (simp_all del: autoscaler_loop.simps)
qed

text \<open>Whatever relates the state before and after every dry run of the coordinator, and is kept by repetition, relates the
  state before and after the process: it makes no change of its own.\<close>

theorem autoscaler_only_observes:
  assumes "\<not> sf_Apply F" "reflp P" "transp P" "\<And>x. P x (snd (A True x))"
  shows "P x (snd (autoscaler_main J aws openLog net A F ctxErr clk clks x))"
proof -
  have "P x (snd (rpc_admin net A True x))" for x
    using reflpD [OF assms(2), of x] assms(4) [of x] by (cases "A True x") (auto simp: rpc_admin_def split: rpc_answer.splits)
  note loop = loop_observer [where A = "rpc_admin net A" and P = P, OF _ assms(2,3) this]
  show ?thesis
    using assms(1) reflpD [OF assms(2)] loop by (auto simp: autoscaler_main_def autoscaler_run_def split: sum.splits)
qed

end
