(* ===== verification/Coordinator_Actor.thy ===== *)
theory Coordinator_Actor
  imports Riposte_Prelude
begin

text \<open>
  The actor of a coordinator: the goroutine that runs functions on the coordinator's state one after the
  other, for callers on other goroutines (\<^verbatim>\<open>src/coordinator/coordinator_actor.go\<close>), and the end of it in
  \<^verbatim>\<open>Close\<close> (\<^verbatim>\<open>src/coordinator/coordinator.go\<close>).

  Goroutines are interleaved: the callers of \<^verbatim>\<open>actorCall\<close>, the loop of the actor and one \<^verbatim>\<open>Close\<close>. A function
  takes time: it starts on the state that it finds and its effect is there when it ends, so that two functions that overlap
  lose an effect. A send on the unbuffered channel is one step with its receive.

  Shown here: while the coordinator has its actor, the calls have the results and the effect of a sequential
  execution in the order in which they were taken, which respects the order of calls that do not overlap, and all of
  them return. This is why the other theories make each such function one step. After \<^verbatim>\<open>Close\<close>
  it does not hold: a call can block for ever, and calls are no longer kept apart.
\<close>

section \<open>Goroutines\<close>

type_synonym ('s, 'r) call_fn = "'s \<Rightarrow> 'r \<times> 's"

text \<open>A caller of \<^verbatim>\<open>actorCall\<close>: before it reads the field \<^verbatim>\<open>actor\<close>, at its send, at its receive from \<^verbatim>\<open>done\<close>; or, if there was no
  actor, before and in its own execution of the function; and after its return.\<close>

datatype ('s, 'r) caller =
    Entering "('s, 'r) call_fn"
  | Sending "('s, 'r) call_fn"
  | Waiting
  | Direct "('s, 'r) call_fn"
  | DirectRunning "'r \<times> 's"
  | Returned 'r

text \<open>The loop \<^verbatim>\<open>run\<close>; the number of the caller, or \<open>None\<close> for \<^verbatim>\<open>Close\<close>, stands for the channel \<^verbatim>\<open>done\<close> of the command.\<close>

datatype ('s, 'r) loop =
    Receiving
  | Running "nat option" "'r \<times> 's"
  | StopReceived
  | Ended

datatype closer = NotClosing | CloseCalling | CloseWaiting | CloseRemoving | CloseStopping | CloseStopWaiting | Closed

text \<open>\<open>sy_actor\<close> tells whether the field \<^verbatim>\<open>actor\<close> is set. \<open>sy_log\<close> is not part of the program: it records the order in which
  the actor takes the calls.\<close>

record ('s, 'r) actor_system =
  sy_state :: 's
  sy_actor :: bool
  sy_callers :: "('s, 'r) caller list"
  sy_loop :: "('s, 'r) loop"
  sy_closer :: closer
  sy_log :: "(nat option \<times> ('s, 'r) call_fn) list"

definition newCoordinatorActor :: "'s \<Rightarrow> ('s, 'r) call_fn list \<Rightarrow> ('s, 'r) actor_system" where
  "newCoordinatorActor s fns = \<lparr>sy_state = s, sy_actor = True, sy_callers = map Entering fns, sy_loop = Receiving,
     sy_closer = NotClosing, sy_log = []\<rparr>"

section \<open>Steps\<close>

text \<open>\<^verbatim>\<open>actorCall\<close>: reading the field, and the execution of the function by the caller itself.\<close>

definition actorCall :: "nat \<Rightarrow> ('s, 'r) actor_system \<Rightarrow> ('s, 'r) actor_system option" where
  "actorCall i S =
     (if i < length (sy_callers S) then
        (case sy_callers S ! i of
           Entering f \<Rightarrow> Some (S\<lparr>sy_callers := (sy_callers S)[i := if sy_actor S then Sending f else Direct f]\<rparr>)
         | Direct f \<Rightarrow> Some (S\<lparr>sy_callers := (sy_callers S)[i := DirectRunning (f (sy_state S))]\<rparr>)
         | DirectRunning p \<Rightarrow> Some (S\<lparr>sy_state := snd p, sy_callers := (sy_callers S)[i := Returned (fst p)]\<rparr>)
         | _ \<Rightarrow> None)
      else None)"

text \<open>\<^verbatim>\<open>call\<close>: the send, which the loop receives.\<close>

definition actor_call :: "nat \<Rightarrow> ('s, 'r) actor_system \<Rightarrow> ('s, 'r) actor_system option" where
  "actor_call i S =
     (if i < length (sy_callers S) then
        (case (sy_callers S ! i, sy_loop S) of
           (Sending f, Receiving) \<Rightarrow> Some (S\<lparr>sy_callers := (sy_callers S)[i := Waiting],
              sy_loop := Running (Some i) (f (sy_state S)), sy_log := sy_log S @ [(Some i, f)]\<rparr>)
         | _ \<Rightarrow> None)
      else None)"

text \<open>\<^verbatim>\<open>run\<close>: the end of a function and the \<^verbatim>\<open>close(command.done)\<close> after it; the end of the loop.\<close>

definition actor_run :: "('s, 'r) actor_system \<Rightarrow> ('s, 'r) actor_system option" where
  "actor_run S =
     (case sy_loop S of
        Running (Some i) p \<Rightarrow> Some (S\<lparr>sy_state := snd p, sy_loop := Receiving, sy_callers := (sy_callers S)[i := Returned (fst p)]\<rparr>)
      | Running None p \<Rightarrow> Some (S\<lparr>sy_state := snd p, sy_loop := Receiving, sy_closer := CloseRemoving\<rparr>)
      | StopReceived \<Rightarrow> Some (S\<lparr>sy_loop := Ended\<rparr>)
      | _ \<Rightarrow> None)"

text \<open>\<^verbatim>\<open>Close\<close>: a last call, which stops the timer, the removal of the field, and \<^verbatim>\<open>stop\<close>.\<close>

definition Close :: "('s, 'r) call_fn \<Rightarrow> ('s, 'r) actor_system \<Rightarrow> ('s, 'r) actor_system option" where
  "Close stopTimer S =
     (case (sy_closer S, sy_loop S) of
        (NotClosing, _) \<Rightarrow> Some (S\<lparr>sy_closer := CloseCalling\<rparr>)
      | (CloseCalling, Receiving) \<Rightarrow> Some (S\<lparr>sy_closer := CloseWaiting, sy_loop := Running None (stopTimer (sy_state S)),
           sy_log := sy_log S @ [(None, stopTimer)]\<rparr>)
      | (CloseRemoving, _) \<Rightarrow> Some (S\<lparr>sy_closer := CloseStopping, sy_actor := False\<rparr>)
      | (CloseStopping, Receiving) \<Rightarrow> Some (S\<lparr>sy_closer := CloseStopWaiting, sy_loop := StopReceived\<rparr>)
      | (CloseStopWaiting, Ended) \<Rightarrow> Some (S\<lparr>sy_closer := Closed\<rparr>)
      | _ \<Rightarrow> None)"

datatype move = Calls nat | Sends nat | ActorTurn | Closes

primrec actor_move :: "('s, 'r) call_fn \<Rightarrow> move \<Rightarrow> ('s, 'r) actor_system \<Rightarrow> ('s, 'r) actor_system option" where
  "actor_move stopTimer (Calls i) S = actorCall i S"
| "actor_move stopTimer (Sends i) S = actor_call i S"
| "actor_move stopTimer ActorTurn S = actor_run S"
| "actor_move stopTimer Closes S = Close stopTimer S"

primrec actor_moves :: "('s, 'r) call_fn \<Rightarrow> move list \<Rightarrow> ('s, 'r) actor_system \<Rightarrow> ('s, 'r) actor_system option" where
  "actor_moves stopTimer [] S = Some S"
| "actor_moves stopTimer (m # ms) S = Option.bind (actor_move stopTimer m S) (actor_moves stopTimer ms)"

section \<open>Sequential execution\<close>

definition replay :: "'s \<Rightarrow> ('w \<times> ('s, 'r) call_fn) list \<Rightarrow> 's" where
  "replay s log = foldl (\<lambda>s (w, f). snd (f s)) s log"

lemma replay_simps [simp]: "replay s [] = s" "replay s (log @ [(w, f)]) = snd (f (replay s log))"
  by (simp_all add: replay_def)

text \<open>A call of \<open>f\<close> by \<open>i\<close> has the result \<open>r\<close> in the sequential execution of a log.\<close>

definition answered :: "'s \<Rightarrow> (nat option \<times> ('s, 'r) call_fn) list \<Rightarrow> nat \<Rightarrow> ('s, 'r) call_fn \<Rightarrow> 'r \<Rightarrow> bool" where
  "answered s log i f r \<longleftrightarrow> (\<exists>pre post. log = pre @ (Some i, f) # post \<and> r = fst (f (replay s pre)))"

lemma answered_append: "answered s log i f r \<Longrightarrow> answered s (log @ [x]) i f r"
  unfolding answered_def by (metis append_Cons append_assoc)

lemma answered_last: "answered s (pre @ [(Some i, f)]) i f (fst (f (replay s pre)))"
  unfolding answered_def by blast

definition untaken :: "nat option \<Rightarrow> ('s, 'r) actor_system \<Rightarrow> bool" where
  "untaken w S \<longleftrightarrow> w \<notin> fst ` set (sy_log S)"

primrec caller_ok :: "'s \<Rightarrow> ('s, 'r) call_fn \<Rightarrow> ('s, 'r) actor_system \<Rightarrow> nat \<Rightarrow> ('s, 'r) caller \<Rightarrow> bool" where
  "caller_ok s g S i (Entering f) \<longleftrightarrow> f = g \<and> untaken (Some i) S"
| "caller_ok s g S i (Sending f) \<longleftrightarrow> f = g \<and> untaken (Some i) S"
| "caller_ok s g S i Waiting \<longleftrightarrow> (\<exists>p. sy_loop S = Running (Some i) p)"
| "caller_ok s g S i (Direct f) \<longleftrightarrow> False"
| "caller_ok s g S i (DirectRunning p) \<longleftrightarrow> False"
| "caller_ok s g S i (Returned r) \<longleftrightarrow> answered s (sy_log S) i g r"

definition loop_ok :: "'s \<Rightarrow> ('s, 'r) call_fn list \<Rightarrow> ('s, 'r) actor_system \<Rightarrow> bool" where
  "loop_ok s fns S \<longleftrightarrow>
     (case sy_loop S of
        Receiving \<Rightarrow> sy_state S = replay s (sy_log S) \<and> sy_closer S \<noteq> CloseWaiting
      | Running w p \<Rightarrow> (\<exists>pre f. sy_log S = pre @ [(w, f)] \<and> sy_state S = replay s pre \<and> p = f (replay s pre) \<and>
           (case w of None \<Rightarrow> sy_closer S = CloseWaiting
            | Some i \<Rightarrow> i < length fns \<and> f = fns ! i \<and> sy_callers S ! i = Waiting \<and> sy_closer S \<noteq> CloseWaiting))
      | _ \<Rightarrow> False)"

definition serial :: "'s \<Rightarrow> ('s, 'r) call_fn list \<Rightarrow> ('s, 'r) actor_system \<Rightarrow> bool" where
  "serial s fns S \<longleftrightarrow> length (sy_callers S) = length fns \<and> distinct (map fst (sy_log S)) \<and>
     (\<forall>i < length fns. caller_ok s (fns ! i) S i (sy_callers S ! i)) \<and> loop_ok s fns S \<and>
     sy_closer S \<in> {NotClosing, CloseCalling, CloseWaiting, CloseRemoving} \<and>
     (sy_closer S \<in> {NotClosing, CloseCalling} \<longrightarrow> untaken None S)"

lemma serial_start: "serial s fns (newCoordinatorActor s fns)"
  by (simp add: serial_def newCoordinatorActor_def loop_ok_def untaken_def)

lemma caller_ok_cong:
  "sy_log S' = sy_log S \<Longrightarrow> sy_loop S' = sy_loop S \<Longrightarrow> caller_ok s g S' i c = caller_ok s g S i c"
  by (cases c) (simp_all add: untaken_def)

lemma loop_ok_caller:
  assumes "loop_ok s fns S" "sy_callers S ! i \<noteq> Waiting"
  shows "loop_ok s fns (S\<lparr>sy_callers := (sy_callers S)[i := c]\<rparr>)"
proof (cases "sy_loop S")
  case (Running w p)
  have "w = Some j \<Longrightarrow> j \<noteq> i" for j using assms Running by (auto simp: loop_ok_def)
  then show ?thesis using assms(1) Running by (cases w) (simp_all add: loop_ok_def)
qed (use assms(1) in \<open>simp_all add: loop_ok_def\<close>)

text \<open>What a caller relies on stays when another call is taken or ended.\<close>

lemma caller_ok_other:
  assumes "caller_ok s g S j c" "sy_log S' = sy_log S @ xs" "\<forall>x \<in> set xs. fst x \<noteq> Some j" "length xs \<le> 1"
    and "\<forall>p. sy_loop S \<noteq> Running (Some j) p"
  shows "caller_ok s g S' j c"
proof (cases c)
  case (Returned r)
  then show ?thesis using assms(1,2,4) answered_append by (cases xs) auto
qed (use assms in \<open>auto simp: untaken_def image_iff\<close>)

lemma serial_actorCall:
  assumes "serial s fns S" "sy_actor S" "actorCall i S = Some S'"
  shows "serial s fns S'"
proof -
  have i: "i < length fns" using assms by (auto simp: serial_def actorCall_def split: if_splits)
  then have ok: "caller_ok s (fns ! i) S i (sy_callers S ! i)" using assms(1) by (simp add: serial_def)
  then obtain f where f: "sy_callers S ! i = Entering f" "f = fns ! i" "untaken (Some i) S"
    using assms(3) by (cases "sy_callers S ! i") (auto simp: actorCall_def split: if_splits)
  have S': "S' = S\<lparr>sy_callers := (sy_callers S)[i := Sending f]\<rparr>"
    using assms i f(1) by (simp add: actorCall_def serial_def)
  have "loop_ok s fns S'" using assms(1) f(1) by (simp add: S' serial_def loop_ok_caller)
  moreover have "caller_ok s (fns ! j) S' j (sy_callers S' ! j)" if "j < length fns" for j
    using assms(1) that f i caller_ok_cong [of S' S s "fns ! j" j] by (auto simp: S' serial_def nth_list_update untaken_def)
  ultimately show ?thesis using assms(1) by (simp add: serial_def S' untaken_def)
qed

lemma serial_call:
  assumes "serial s fns S" "actor_call i S = Some S'"
  shows "serial s fns S'"
proof -
  obtain f where i: "i < length fns" and f: "sy_callers S ! i = Sending f" "sy_loop S = Receiving"
    and S': "S' = S\<lparr>sy_callers := (sy_callers S)[i := Waiting], sy_loop := Running (Some i) (f (sy_state S)),
      sy_log := sy_log S @ [(Some i, f)]\<rparr>"
    using assms by (auto simp: actor_call_def serial_def split: if_splits caller.splits loop.splits)
  have g: "f = fns ! i" "untaken (Some i) S" using assms(1) i f(1) by (auto simp: serial_def dest!: spec [of _ i])
  have "loop_ok s fns S'" using assms(1) f i g(1) by (auto simp: S' loop_ok_def serial_def)
  moreover have "caller_ok s (fns ! j) S' j (sy_callers S' ! j)" if "j < length fns" for j
  proof (cases "j = i")
    case False
    show ?thesis using caller_ok_other [of s "fns ! j" S j "sy_callers S ! j" S' "[(Some i, f)]"] assms(1) that False f(2)
      by (simp add: S' serial_def)
  qed (use assms(1) i in \<open>simp add: S' serial_def\<close>)
  ultimately show ?thesis using assms(1) g(2) by (auto simp: serial_def S' untaken_def)
qed

lemma serial_run:
  assumes "serial s fns S" "actor_run S = Some S'"
  shows "serial s fns S'"
proof -
  obtain w p where l: "sy_loop S = Running w p" using assms by (auto simp: serial_def actor_run_def loop_ok_def split: loop.splits)
  then obtain pre f where r: "sy_log S = pre @ [(w, f)]" "p = f (replay s pre)"
    "case w of None \<Rightarrow> sy_closer S = CloseWaiting
     | Some i \<Rightarrow> i < length fns \<and> f = fns ! i \<and> sy_callers S ! i = Waiting \<and> sy_closer S \<noteq> CloseWaiting"
    using assms(1) by (auto simp: serial_def loop_ok_def)
  have other: "caller_ok s (fns ! j) S' j (sy_callers S ! j)" if "j < length fns" "w \<noteq> Some j" "sy_log S' = sy_log S" for j
    using caller_ok_other [of s "fns ! j" S j "sy_callers S ! j" S' "[]"] assms(1) that l by (simp add: serial_def)
  show ?thesis
  proof (cases w)
    case None
    then have S': "S' = S\<lparr>sy_state := snd p, sy_loop := Receiving, sy_closer := CloseRemoving\<rparr>"
      using assms(2) l by (simp add: actor_run_def)
    then show ?thesis using assms(1) other r None by (auto simp: serial_def loop_ok_def)
  next
    case (Some i)
    then have S': "S' = S\<lparr>sy_state := snd p, sy_loop := Receiving, sy_callers := (sy_callers S)[i := Returned (fst p)]\<rparr>"
      using assms(2) l by (simp add: actor_run_def)
    have "caller_ok s (fns ! j) S' j (sy_callers S' ! j)" if "j < length fns" for j
      using other [of j] that assms(1) r Some answered_last by (cases "j = i") (auto simp: S' serial_def)
    then show ?thesis using assms(1) r Some by (simp add: S' serial_def loop_ok_def untaken_def)
  qed
qed

lemma serial_Close:
  assumes "serial s fns S" "Close tm S = Some S'" "sy_actor S'"
  shows "serial s fns S'"
proof -
  consider "sy_closer S = NotClosing" "S' = S\<lparr>sy_closer := CloseCalling\<rparr>"
    | "sy_closer S = CloseCalling" "sy_loop S = Receiving" "S' = S\<lparr>sy_closer := CloseWaiting,
        sy_loop := Running None (tm (sy_state S)), sy_log := sy_log S @ [(None, tm)]\<rparr>"
    using assms by (auto simp: Close_def serial_def split: closer.splits loop.splits)
  then show ?thesis
  proof cases
    case 1
    have "caller_ok s (fns ! j) S' j (sy_callers S ! j) = caller_ok s (fns ! j) S j (sy_callers S ! j)" for j
      by (rule caller_ok_cong) (simp_all add: 1)
    then show ?thesis using assms(1) 1 by (auto simp: serial_def loop_ok_def untaken_def split: loop.splits option.splits)
  next
    case 2
    have "caller_ok s (fns ! j) S' j (sy_callers S' ! j)" if "j < length fns" for j
      using caller_ok_other [of s "fns ! j" S j "sy_callers S ! j" S' "[(None, tm)]"] assms(1) that 2 by (simp add: serial_def)
    then show ?thesis using assms(1) 2 by (auto simp: serial_def loop_ok_def untaken_def)
  qed
qed

lemma actor_kept: "actor_move tm m S = Some S' \<Longrightarrow> sy_actor S' \<Longrightarrow> sy_actor S"
  by (cases m) (auto simp: actorCall_def actor_call_def actor_run_def Close_def
      split: if_splits caller.splits loop.splits option.splits closer.splits)

lemma actor_kept_moves: "actor_moves tm ms S = Some S' \<Longrightarrow> sy_actor S' \<Longrightarrow> sy_actor S"
  by (induction ms arbitrary: S) (auto simp: bind_eq_Some_conv dest: actor_kept)

lemma serial_moves: "actor_moves tm ms S = Some S' \<Longrightarrow> sy_actor S' \<Longrightarrow> serial s fns S \<Longrightarrow> serial s fns S'"
proof (induction ms arbitrary: S)
  case (Cons m ms)
  then obtain S1 where S1: "actor_move tm m S = Some S1" "actor_moves tm ms S1 = Some S'" by (auto simp: bind_eq_Some_conv)
  have a: "sy_actor S1" by (rule actor_kept_moves [OF S1(2) Cons.prems(2)])
  have "serial s fns S1"
    using S1(1) actor_kept [OF S1(1) a] a Cons.prems(3) serial_actorCall serial_call serial_run serial_Close by (cases m) auto
  then show ?case using Cons.IH [OF S1(2) Cons.prems(2)] by simp
qed simp

section \<open>Order and progress\<close>

lemma log_grows_move: "actor_move tm m S = Some S' \<Longrightarrow> \<exists>xs. sy_log S' = sy_log S @ xs"
  by (cases m) (auto simp: actorCall_def actor_call_def actor_run_def Close_def
      split: if_splits caller.splits loop.splits option.splits closer.splits)

lemma log_grows: "actor_moves tm ms S = Some S' \<Longrightarrow> \<exists>xs. sy_log S' = sy_log S @ xs"
  by (induction ms arbitrary: S) (fastforce simp: bind_eq_Some_conv dest!: log_grows_move)+

lemma actor_moves_append:
  "actor_moves tm (ms @ ms') S = Option.bind (actor_moves tm ms S) (actor_moves tm ms')"
proof (induction ms arbitrary: S)
  case (Cons m ms)
  then show ?case by (cases "actor_move tm m S") simp_all
qed simp

primrec steps_left :: "('s, 'r) caller \<Rightarrow> nat" where
  "steps_left (Entering f) = 3"
| "steps_left (Sending f) = 2"
| "steps_left Waiting = 1"
| "steps_left (Direct f) = 2"
| "steps_left (DirectRunning p) = 1"
| "steps_left (Returned r) = 0"

definition all_left :: "('s, 'r) actor_system \<Rightarrow> nat" where
  "all_left S = sum_list (map steps_left (sy_callers S))"

lemma sum_list_update: "i < length xs \<Longrightarrow> Suc (f v) = f (xs ! i) \<Longrightarrow> Suc (sum_list (map f (xs[i := v]))) = sum_list (map f xs)"
proof (induction xs arbitrary: i)
  case (Cons x xs)
  then show ?case by (cases i) auto
qed simp

text \<open>Without \<^verbatim>\<open>Close\<close>, every step is one step of one caller.\<close>

lemma step_of_a_caller:
  assumes "serial s fns S" "sy_actor S" "sy_closer S = NotClosing" "m \<noteq> Closes" "actor_move tm m S = Some S'"
  shows "Suc (all_left S') = all_left S \<and> sy_actor S' \<and> sy_closer S' = NotClosing"
proof -
  obtain i v where S': "i < length (sy_callers S)" "sy_callers S' = (sy_callers S)[i := v]" "Suc (steps_left v) = steps_left (sy_callers S ! i)"
    "sy_actor S' = sy_actor S" "sy_closer S' = sy_closer S"
  proof (cases m)
    case (Calls i)
    have "i < length fns" using Calls assms(1,5) by (auto simp: serial_def actorCall_def split: if_splits)
    then have "caller_ok s (fns ! i) S i (sy_callers S ! i)" using assms(1) by (simp add: serial_def)
    then show thesis using Calls assms(2,5) that [of i] by (cases "sy_callers S ! i") (auto simp: actorCall_def split: if_splits)
  next
    case (Sends i)
    then show thesis using assms(5) that [of i] by (auto simp: actor_call_def split: if_splits caller.splits loop.splits)
  next
    case ActorTurn
    then obtain i p where "sy_loop S = Running (Some i) p" "i < length fns" "sy_callers S ! i = Waiting"
      using assms(1,3,5) by (auto simp: actor_run_def serial_def loop_ok_def split: loop.splits option.splits)
    then show thesis using ActorTurn assms(1,5) that [of i "Returned (fst p)"] by (auto simp: actor_run_def serial_def)
  qed (use assms(4) in simp)
  then show ?thesis using sum_list_update [of i "sy_callers S" steps_left v] assms(2,3) by (simp add: all_left_def)
qed

lemma steps_counted:
  assumes "actor_moves tm ms S = Some S'" "Closes \<notin> set ms" "serial s fns S" "sy_actor S" "sy_closer S = NotClosing"
  shows "length ms + all_left S' = all_left S \<and> serial s fns S'"
  using assms
proof (induction ms arbitrary: S)
  case (Cons m ms)
  then obtain S1 where S1: "actor_move tm m S = Some S1" "actor_moves tm ms S1 = Some S'" by (auto simp: bind_eq_Some_conv)
  have a: "Suc (all_left S1) = all_left S" "sy_actor S1" "sy_closer S1 = NotClosing"
    using step_of_a_caller [OF Cons.prems(3,4,5) _ S1(1)] Cons.prems(2) by auto
  have "serial s fns S1" using serial_moves [of tm "[m]" S S1 s fns] S1(1) a(2) Cons.prems(3) by simp
  then show ?case using Cons.IH [OF S1(2) _ _ a(2,3)] Cons.prems(2) a(1) by simp
qed simp

lemma some_step_possible:
  assumes "serial s fns S" "i < length fns" "\<forall>r. sy_callers S ! i \<noteq> Returned r"
  shows "\<exists>m S'. m \<noteq> Closes \<and> actor_move tm m S = Some S'"
proof -
  have c: "caller_ok s (fns ! i) S i (sy_callers S ! i)" and l: "loop_ok s fns S" and n: "length (sy_callers S) = length fns"
    using assms(1,2) by (simp_all add: serial_def)
  have turn: "\<exists>S'. actor_move tm ActorTurn S = Some S'" if "sy_loop S = Running w p" for w p
    using that by (cases w) (simp_all add: actor_run_def)
  show ?thesis
  proof (cases "sy_callers S ! i")
    case (Entering f)
    then have "\<exists>S'. actor_move tm (Calls i) S = Some S'" using assms(2) n by (simp add: actorCall_def)
    then show ?thesis by blast
  next
    case (Sending f)
    then have "(\<exists>S'. actor_move tm (Sends i) S = Some S') \<or> (\<exists>w p. sy_loop S = Running w p)"
      using l assms(2) n by (cases "sy_loop S") (simp_all add: actor_call_def loop_ok_def)
    then show ?thesis using turn by blast
  next
    case Waiting
    then show ?thesis using c turn by (metis caller_ok.simps(3) move.distinct(11))
  qed (use c assms(3) in simp_all)
qed

lemma all_left_start: "all_left (newCoordinatorActor s fns) = 3 * length fns"
  by (simp add: all_left_def newCoordinatorActor_def comp_def sum_list_triv)

section \<open>Properties\<close>

text \<open>C10: The actor makes its calls sequential. In every interleaving of any number of callers, the actor and \<^verbatim>\<open>Close\<close>, as long
  as the coordinator has its actor: no call is taken twice; every call that has returned has the result that it has
  when the calls taken so far are executed one after the other in the order in which they were taken; whenever
  the actor is idle, the state is the outcome of that sequential execution; and a call that had returned
  before another one began was taken before it.\<close>

theorem actor_serialises_calls:
  assumes "actor_moves stopTimer ms (newCoordinatorActor s fns) = Some S" "sy_actor S"
  shows "distinct (map fst (sy_log S)) \<and>
    (\<forall>i < length fns. \<forall>r. sy_callers S ! i = Returned r \<longrightarrow>
       (\<exists>pre post. sy_log S = pre @ (Some i, fns ! i) # post \<and> r = fst ((fns ! i) (replay s pre)))) \<and>
    (sy_loop S = Receiving \<longrightarrow> sy_state S = replay s (sy_log S)) \<and>
    (\<forall>k S1 i j r f. actor_moves stopTimer (take k ms) (newCoordinatorActor s fns) = Some S1 \<and> i < length fns \<and> j < length fns \<and>
       sy_callers S1 ! i = Returned r \<and> sy_callers S1 ! j = Entering f \<longrightarrow>
       (\<exists>pre post. sy_log S = pre @ post \<and> Some i \<in> fst ` set pre \<and> Some j \<notin> fst ` set pre))"
proof (intro conjI allI impI, goal_cases)
  case 1
  show ?case using serial_moves [OF assms serial_start] by (simp add: serial_def)
next
  case (2 i r)
  then show ?case using serial_moves [OF assms serial_start] by (auto simp: serial_def answered_def dest!: spec [of _ i])
next
  case 3
  then show ?case using serial_moves [OF assms serial_start] by (simp add: serial_def loop_ok_def)
next
  case (4 k S1 i j r f)
  have S: "actor_moves stopTimer (drop k ms) S1 = Some S"
    using assms(1) 4 actor_moves_append [of stopTimer "take k ms" "drop k ms"] by simp
  have "serial s fns S1"
    by (rule serial_moves [OF _ actor_kept_moves [OF S assms(2)] serial_start]) (use 4 in blast)
  then have "caller_ok s (fns ! i) S1 i (sy_callers S1 ! i)" "caller_ok s (fns ! j) S1 j (sy_callers S1 ! j)"
    using 4 by (auto simp: serial_def)
  then have "Some i \<in> fst ` set (sy_log S1)" "Some j \<notin> fst ` set (sy_log S1)"
    using 4 by (auto simp: answered_def untaken_def image_iff)
  then show ?case using log_grows [OF S] by blast
qed

text \<open>C11: Calls of the actor return. Without \<^verbatim>\<open>Close\<close>, every interleaving of \<open>n\<close> calls comes to an end after exactly \<open>3 * n\<close> steps, with
  every call returned: a shorter one can always go on, and there is no longer one.\<close>

theorem actor_calls_return:
  assumes "actor_moves stopTimer ms (newCoordinatorActor s fns) = Some S" "Closes \<notin> set ms"
  shows "length ms \<le> 3 * length fns \<and>
    (length ms < 3 * length fns \<longrightarrow> (\<exists>m S'. m \<noteq> Closes \<and> actor_move stopTimer m S = Some S')) \<and>
    (length ms = 3 * length fns \<longrightarrow> (\<forall>i < length fns. \<exists>r. sy_callers S ! i = Returned r))"
proof -
  have c: "length ms + all_left S = 3 * length fns" "serial s fns S"
    using steps_counted [OF assms serial_start] by (simp_all add: all_left_start) (simp_all add: newCoordinatorActor_def)
  then have n: "length (sy_callers S) = length fns" by (simp add: serial_def)
  have ret: "\<exists>r. sy_callers S ! i = Returned r" if "all_left S = 0" "i < length fns" for i
  proof -
    have "sy_callers S ! i \<in> set (sy_callers S)" using n that(2) by simp
    then have "steps_left (sy_callers S ! i) = 0" using that(1) by (simp add: all_left_def)
    then show ?thesis by (cases "sy_callers S ! i") simp_all
  qed
  have "\<exists>m S'. m \<noteq> Closes \<and> actor_move stopTimer m S = Some S'" if left: "0 < all_left S"
  proof -
    from left have "all_left S \<noteq> 0" by simp
    then have "\<exists>c \<in> set (sy_callers S). steps_left c \<noteq> 0" unfolding all_left_def sum_list_eq_0_iff by auto
    then obtain i where "i < length fns" "steps_left (sy_callers S ! i) \<noteq> 0" using n by (auto simp: in_set_conv_nth)
    then show ?thesis using some_step_possible [OF c(2), of i] by (metis steps_left.simps(6))
  qed
  then show ?thesis using c(1) ret by auto
qed

text \<open>Without an actor, calls are not kept apart, and a call that read the field before \<^verbatim>\<open>Close\<close> removed it can be left behind: it
  is sent to a loop that has ended.\<close>

definition increment :: "(nat, nat) call_fn" where
  "increment s = (s, Suc s)"

definition timer_stop :: "(nat, nat) call_fn" where
  "timer_stop s = (0, s)"

lemmas actor_steps = actorCall_def actor_call_def actor_run_def Close_def newCoordinatorActor_def increment_def timer_stop_def

lemma left_behind_move:
  assumes "sy_loop S = Ended" "i < length (sy_callers S)" "sy_callers S ! i = Sending f" "actor_move tm m S = Some S'"
  shows "sy_loop S' = Ended \<and> i < length (sy_callers S') \<and> sy_callers S' ! i = Sending f"
  using assms by (cases m) (auto simp: actorCall_def actor_call_def actor_run_def Close_def nth_list_update
      split: if_splits caller.splits closer.splits)

lemma left_behind:
  "actor_moves tm ms S = Some S' \<Longrightarrow> sy_loop S = Ended \<Longrightarrow> i < length (sy_callers S) \<Longrightarrow> sy_callers S ! i = Sending f \<Longrightarrow>
     sy_callers S' ! i = Sending f"
proof (induction ms arbitrary: S)
  case (Cons m ms)
  then obtain S1 where S1: "actor_move tm m S = Some S1" "actor_moves tm ms S1 = Some S'" by (auto simp: bind_eq_Some_conv)
  show ?case using Cons.IH [OF S1(2)] left_behind_move [OF Cons.prems(2,3,4) S1(1)] by blast
qed simp

theorem closed_actor_fails:
  "\<exists>ms S. actor_moves timer_stop ms (newCoordinatorActor 0 [increment]) = Some S \<and> sy_closer S = Closed \<and>
     (\<forall>ms' S'. actor_moves timer_stop ms' S = Some S' \<longrightarrow> sy_callers S' ! 0 = Sending increment)"
  "\<exists>ms S. actor_moves timer_stop ms (newCoordinatorActor 0 [increment, increment]) = Some S \<and>
     sy_callers S = [Returned 0, Returned 0] \<and> sy_state S = 1"
proof -
  let ?ms = "[Calls 0, Closes, Closes, ActorTurn, Closes, Closes, ActorTurn, Closes]"
  obtain S where S: "actor_moves timer_stop ?ms (newCoordinatorActor 0 [increment]) = Some S" "sy_closer S = Closed"
    "sy_loop S = Ended" "sy_callers S = [Sending increment]"
    by (simp add: actor_steps)
  then show "\<exists>ms S. actor_moves timer_stop ms (newCoordinatorActor 0 [increment]) = Some S \<and> sy_closer S = Closed \<and>
     (\<forall>ms' S'. actor_moves timer_stop ms' S = Some S' \<longrightarrow> sy_callers S' ! 0 = Sending increment)"
    using left_behind [of timer_stop _ S _ 0 increment] by (intro exI [of _ ?ms] exI [of _ S]) simp
  let ?ms = "[Closes, Closes, ActorTurn, Closes, Calls 0, Calls 1, Calls 0, Calls 1, Calls 0, Calls 1]"
  show "\<exists>ms S. actor_moves timer_stop ms (newCoordinatorActor 0 [increment, increment]) = Some S \<and>
     sy_callers S = [Returned 0, Returned 0] \<and> sy_state S = 1"
    by (rule exI [of _ ?ms]) (simp add: actor_steps)
qed

section \<open>Witnesses\<close>

theorem actor_serialises_calls_witness:
  "\<exists>S. actor_moves timer_stop [Calls 0, Calls 1, Sends 1, Closes, ActorTurn, Sends 0, ActorTurn, Closes, ActorTurn]
       (newCoordinatorActor 5 [increment, increment]) = Some S \<and>
     map fst (sy_log S) = [Some 1, Some 0, None] \<and> sy_callers S = [Returned 6, Returned 5] \<and> sy_state S = replay 5 (sy_log S)"
proof -
  let ?ms = "[Calls 0, Calls 1, Sends 1, Closes, ActorTurn, Sends 0, ActorTurn, Closes, ActorTurn]"
  obtain S where S: "actor_moves timer_stop ?ms (newCoordinatorActor 5 [increment, increment]) = Some S" "sy_actor S"
    "sy_loop S = Receiving" "map fst (sy_log S) = [Some 1, Some 0, None]" "sy_callers S = [Returned 6, Returned 5]"
    by (simp add: actor_steps)
  have "sy_state S = replay 5 (sy_log S)" using actor_serialises_calls [OF S(1,2)] S(3) by (elim conjE) (rule mp)
  then show ?thesis using S(1,4,5) by (intro exI [of _ S] conjI)
qed

theorem actor_calls_return_witness:
  "\<exists>S. actor_moves timer_stop [Calls 0, Calls 1, Sends 1, ActorTurn, Sends 0, ActorTurn] (newCoordinatorActor 5 [increment, increment])
       = Some S \<and> (\<forall>i < 2. \<exists>r. sy_callers S ! i = Returned r)"
proof -
  let ?ms = "[Calls 0, Calls 1, Sends 1, ActorTurn, Sends 0, ActorTurn]"
  obtain S where S: "actor_moves timer_stop ?ms (newCoordinatorActor 5 [increment, increment]) = Some S"
    by (simp add: actor_steps)
  then show ?thesis using actor_calls_return [OF S] by (simp add: numeral_2_eq_2)
qed

end
