(* ===== verification/Prg_Stream.thy ===== *)
theory Prg_Stream
  imports Write_Protocol
begin

text \<open>
  The pseudo-random generator under the random source of the other theories (\<^verbatim>\<open>src/utils/rand.go\<close>, and
  \<^verbatim>\<open>ReplayPRG\<close> of \<^verbatim>\<open>src/prg\<close>): AES in counter mode behind a \<^verbatim>\<open>bufio.Reader\<close>, and \<^verbatim>\<open>rand.Int\<close> over it.

  The key stream of AES-CTR is an argument, a function from a key and a position to a byte. A call
  that writes into a buffer takes its old contents and returns the new ones. The loops that
  read until a buffer is full, and until a number below the bound is found, are partial functions:
  \<open>None\<close> is a loop that does not end.

  Shown here: however its bytes are asked for, in pieces shorter than the buffer, a reader delivers one
  stream; filling a buffer always ends; \<^verbatim>\<open>RandInt\<close> returns a number below its bound, the first that the
  stream offers, and ends exactly when there is one. The stream is not the key stream: every refill of the
  buffer is XORed into what the buffer held before.
\<close>

section \<open>The reader\<close>

type_synonym aes_ctr = "byte list \<Rightarrow> nat \<Rightarrow> byte"

definition BlockSize :: nat where "BlockSize = 16"
definition bufSize :: nat where "bufSize = 8192"

record PRGReader =
  rd_Key :: "byte list"
  rd_pos :: nat

definition NewPRG :: "byte list \<Rightarrow> PRGReader" where
  "NewPRG key = \<lparr>rd_Key = key, rd_pos = 0\<rparr>"

definition XORKeyStream :: "aes_ctr \<Rightarrow> byte list \<Rightarrow> PRGReader \<Rightarrow> byte list \<times> PRGReader" where
  "XORKeyStream A p s =
     (map (\<lambda>i. p ! i XOR A (rd_Key s) (rd_pos s + i)) [0..<length p], s\<lparr>rd_pos := rd_pos s + length p\<rparr>)"

definition PRGReader_Read :: "aes_ctr \<Rightarrow> byte list \<Rightarrow> PRGReader \<Rightarrow> byte list \<times> PRGReader" where
  "PRGReader_Read A p s =
     (if length p < BlockSize
      then let (buf, s) = XORKeyStream A (replicate BlockSize 0) s in (take (length p) buf, s)
      else XORKeyStream A p s)"

record BufPRGReader =
  bf_rd :: PRGReader
  bf_buf :: "byte list"
  bf_r :: nat
  bf_w :: nat

definition NewBufPRG :: "PRGReader \<Rightarrow> BufPRGReader" where
  "NewBufPRG prg = \<lparr>bf_rd = prg, bf_buf = replicate bufSize 0, bf_r = 0, bf_w = 0\<rparr>"

text \<open>\<^verbatim>\<open>bufio.Reader.Read\<close>: the number of bytes that it has put into \<open>p\<close>.\<close>

definition bufio_Read :: "aes_ctr \<Rightarrow> byte list \<Rightarrow> BufPRGReader \<Rightarrow> nat \<times> byte list \<times> BufPRGReader" where
  "bufio_Read A p b =
     (if p = [] then (0, p, b)
      else if bf_r b = bf_w b \<and> length p \<ge> length (bf_buf b)
      then let (p, s) = PRGReader_Read A p (bf_rd b) in (length p, p, b\<lparr>bf_rd := s\<rparr>)
      else
      let b = (if bf_r b = bf_w b
               then let (buf, s) = PRGReader_Read A (bf_buf b) (bf_rd b)
                    in \<lparr>bf_rd = s, bf_buf = buf, bf_r = 0, bf_w = length buf\<rparr>
               else b);
          n = min (length p) (bf_w b - bf_r b)
      in (n, take n (drop (bf_r b) (bf_buf b)) @ drop n p, b\<lparr>bf_r := bf_r b + n\<rparr>))"

text \<open>The loop of \<^verbatim>\<open>RandBytes\<close>, which is also that of \<^verbatim>\<open>io.ReadFull\<close>: read until the buffer is full.\<close>

partial_function (option) RandBytes_loop :: "aes_ctr \<Rightarrow> byte list \<Rightarrow> BufPRGReader \<Rightarrow> (byte list \<times> BufPRGReader) option" where
  "RandBytes_loop A out b =
     (if out = [] then Some ([], b)
      else let (n, out, b) = bufio_Read A out b in
        Option.bind (RandBytes_loop A (drop n out) b) (\<lambda>(rest, b). Some (take n out @ rest, b)))"

section \<open>Numbers\<close>

definition be_value :: "byte list \<Rightarrow> int" where
  "be_value bs = foldl (\<lambda>a b. 256 * a + uint b) 0 bs"

fun BitLen :: "nat \<Rightarrow> nat" where
  "BitLen n = (if n = 0 then 0 else Suc (BitLen (n div 2)))"

declare BitLen.simps [simp del]

text \<open>\<^verbatim>\<open>rand.Int\<close>: as many bytes as \<open>max - 1\<close> has, the surplus bits of the first one cleared, until the number is below \<open>max\<close>.\<close>

partial_function (option) rand_Int_loop :: "aes_ctr \<Rightarrow> int \<Rightarrow> nat \<Rightarrow> byte list \<Rightarrow> BufPRGReader \<Rightarrow> (int \<times> BufPRGReader) option" where
  "rand_Int_loop A maximum bits bytes b =
     Option.bind (RandBytes_loop A bytes b) (\<lambda>(bytes, b).
       let bytes = bytes[0 := bytes ! 0 AND mask bits]; n = be_value bytes
       in if n < maximum then Some (n, b) else rand_Int_loop A maximum bits bytes b)"

definition rand_Int :: "aes_ctr \<Rightarrow> int \<Rightarrow> BufPRGReader \<Rightarrow> (int \<times> BufPRGReader) go option" where
  "rand_Int A maximum b =
     (if maximum \<le> 0 then Some Panic
      else let bitLen = BitLen (nat (maximum - 1)) in
        if bitLen = 0 then Some (Ok (0, b))
        else map_option Ok (rand_Int_loop A maximum (if bitLen mod 8 = 0 then 8 else bitLen mod 8)
               (replicate ((bitLen + 7) div 8) 0) b))"

definition BufPRGReader_RandInt :: "aes_ctr \<Rightarrow> int \<Rightarrow> BufPRGReader \<Rightarrow> (int \<times> BufPRGReader) go option" where
  "BufPRGReader_RandInt A m b = rand_Int A m b"

section \<open>Replaying\<close>

record ReplayPRG =
  rp_rand :: "BufPRGReader option"
  rp_seed :: "byte list"
  rp_cur :: int

definition NewReplayPRG :: ReplayPRG where
  "NewReplayPRG = \<lparr>rp_rand = None, rp_seed = replicate BlockSize 0, rp_cur = 0\<rparr>"

definition Import :: "byte list \<Rightarrow> ReplayPRG \<Rightarrow> ReplayPRG" where
  "Import seed p = \<lparr>rp_rand = Some (NewBufPRG (NewPRG seed)), rp_seed = seed, rp_cur = 0\<rparr>"

definition replay_Get :: "aes_ctr \<Rightarrow> int \<Rightarrow> ReplayPRG \<Rightarrow> (int \<times> ReplayPRG) go option" where
  "replay_Get A m p =
     (case rp_rand p of
        None \<Rightarrow> Some Panic
      | Some b \<Rightarrow> map_option (\<lambda>g. go_bind g (\<lambda>(out, b). Ok (out, p\<lparr>rp_rand := Some b, rp_cur := rp_cur p + 1\<rparr>)))
                   (BufPRGReader_RandInt A m b))"

section \<open>The stream\<close>

text \<open>Byte \<open>i\<close> of the stream: the bytes of the key stream at the offset of \<open>i\<close> in every buffer up to its own, XORed.\<close>

fun xor_upto :: "(nat \<Rightarrow> byte) \<Rightarrow> nat \<Rightarrow> byte" where
  "xor_upto f 0 = f 0"
| "xor_upto f (Suc n) = xor_upto f n XOR f (Suc n)"

definition stream :: "aes_ctr \<Rightarrow> byte list \<Rightarrow> nat \<Rightarrow> byte" where
  "stream A key i = xor_upto (\<lambda>q. A key (bufSize * q + i mod bufSize)) (i div bufSize)"

definition stream_part :: "aes_ctr \<Rightarrow> byte list \<Rightarrow> nat \<Rightarrow> nat \<Rightarrow> byte list" where
  "stream_part A key i n = map (stream A key) [i..<i + n]"

text \<open>A reader that has delivered \<open>i\<close> bytes: nothing yet, or the buffer number \<open>m\<close> is in memory.\<close>

definition delivered :: "aes_ctr \<Rightarrow> byte list \<Rightarrow> nat \<Rightarrow> BufPRGReader \<Rightarrow> bool" where
  "delivered A key i b \<longleftrightarrow> rd_Key (bf_rd b) = key \<and> length (bf_buf b) = bufSize \<and>
     (if bf_w b = 0 then i = 0 \<and> bf_r b = 0 \<and> rd_pos (bf_rd b) = 0 \<and> bf_buf b = replicate bufSize 0
      else bf_w b = bufSize \<and> bf_r b \<le> bufSize \<and>
        (\<exists>m. rd_pos (bf_rd b) = bufSize * Suc m \<and> i = bufSize * m + bf_r b \<and> bf_buf b = stream_part A key (bufSize * m) bufSize))"

lemma delivered_start: "delivered A key 0 (NewBufPRG (NewPRG key))"
  by (simp add: delivered_def NewBufPRG_def NewPRG_def)

lemma bufSize_pos [simp]: "0 < bufSize" "\<not> bufSize < BlockSize"
  by (simp_all add: bufSize_def BlockSize_def)

lemma length_stream_part [simp]: "length (stream_part A key i n) = n"
  by (simp add: stream_part_def)

lemma stream_part_add: "stream_part A key i (m + n) = stream_part A key i m @ stream_part A key (i + m) n"
proof -
  have "[i..<i + (m + n)] = [i..<i + m] @ [i + m..<i + m + n]"
    using upt_add_eq_append [of i "i + m" n] by (simp add: add.assoc)
  then show ?thesis by (simp only: stream_part_def map_append)
qed

lemma take_drop_stream_part: "k + n \<le> l \<Longrightarrow> take n (drop k (stream_part A key i l)) = stream_part A key (i + k) n"
  by (simp add: stream_part_def drop_map take_map add.assoc)

lemma stream_buffer: "j < bufSize \<Longrightarrow> stream A key (bufSize * m + j) = xor_upto (\<lambda>q. A key (bufSize * q + j)) m"
  by (simp add: stream_def)

text \<open>A refill.\<close>

lemma refill:
  assumes "bf_r b = bf_w b" "delivered A key i b"
  obtains buf s m where "PRGReader_Read A (bf_buf b) (bf_rd b) = (buf, s)" "i = bufSize * m" "rd_Key s = key"
    "rd_pos s = bufSize * Suc m" "buf = stream_part A key i bufSize"
proof (cases "bf_w b = 0")
  case True
  then have b: "i = 0" "rd_pos (bf_rd b) = 0" "bf_buf b = replicate bufSize 0" "rd_Key (bf_rd b) = key"
    using assms by (auto simp: delivered_def)
  show thesis
    by (rule that [of "stream_part A key 0 bufSize" "(bf_rd b)\<lparr>rd_pos := bufSize\<rparr>" 0])
      (use b in \<open>auto simp: PRGReader_Read_def XORKeyStream_def stream_part_def stream_def intro!: nth_equalityI\<close>)
next
  case False
  then obtain m where b: "rd_pos (bf_rd b) = bufSize * Suc m" "i = bufSize * m + bufSize"
      "bf_buf b = stream_part A key (bufSize * m) bufSize" "rd_Key (bf_rd b) = key"
  proof -
    have w: "bf_r b = bufSize" "rd_Key (bf_rd b) = key" and "\<exists>m. rd_pos (bf_rd b) = bufSize * Suc m \<and> i = bufSize * m + bf_r b \<and>
        bf_buf b = stream_part A key (bufSize * m) bufSize"
      using assms False by (auto simp: delivered_def)
    then show thesis using that by auto
  qed
  have i: "i = bufSize * Suc m" using b(2) by simp
  have "stream A key (bufSize * m + j) XOR A key (bufSize * Suc m + j) = stream A key (bufSize * Suc m + j)" if "j < bufSize" for j
    unfolding stream_buffer [OF that] by simp
  then have "map (\<lambda>j. bf_buf b ! j XOR A key (bufSize * Suc m + j)) [0..<bufSize] = stream_part A key i bufSize"
    unfolding i by (intro nth_equalityI) (simp_all add: b(3) stream_part_def)
  then show thesis
    by (intro that [of "stream_part A key i bufSize" "(bf_rd b)\<lparr>rd_pos := bufSize * Suc (Suc m)\<rparr>" "Suc m"])
      (use b(1,3,4) i in \<open>simp_all add: PRGReader_Read_def XORKeyStream_def\<close>)
qed

lemma read_stream:
  assumes d: "delivered A key i b" and p: "p \<noteq> []" "length p < bufSize"
  obtains n b' where "bufio_Read A p b = (n, stream_part A key i n @ drop n p, b')" "0 < n" "n \<le> length p" "delivered A key (i + n) b'"
proof -
  have "\<exists>b1 m. delivered A key i b1 \<and> bf_r b1 < bufSize \<and> bf_w b1 = bufSize \<and> rd_pos (bf_rd b1) = bufSize * Suc m \<and>
      i = bufSize * m + bf_r b1 \<and> bf_buf b1 = stream_part A key (bufSize * m) bufSize \<and> rd_Key (bf_rd b1) = key \<and>
      bufio_Read A p b = (let n = min (length p) (bf_w b1 - bf_r b1)
        in (n, take n (drop (bf_r b1) (bf_buf b1)) @ drop n p, b1\<lparr>bf_r := bf_r b1 + n\<rparr>))"
  proof (cases "bf_r b = bf_w b")
    case True
    obtain buf s m where r: "PRGReader_Read A (bf_buf b) (bf_rd b) = (buf, s)" "i = bufSize * m" "rd_Key s = key"
        "rd_pos s = bufSize * Suc m" "buf = stream_part A key i bufSize"
      by (rule refill [OF True d])
    have len: "length (bf_buf b) = bufSize" using d by (simp add: delivered_def)
    show ?thesis
      by (intro exI [of _ "\<lparr>bf_rd = s, bf_buf = buf, bf_r = 0, bf_w = length buf\<rparr>"] exI [of _ m])
        (use r True p len in \<open>simp add: bufio_Read_def delivered_def Let_def\<close>)
  next
    case False
    then have "bf_w b \<noteq> 0" using d by (auto simp: delivered_def split: if_splits)
    then obtain m where m: "bf_w b = bufSize" "bf_r b \<le> bufSize" "rd_pos (bf_rd b) = bufSize * Suc m" "i = bufSize * m + bf_r b"
        "bf_buf b = stream_part A key (bufSize * m) bufSize" "rd_Key (bf_rd b) = key"
      using d unfolding delivered_def by (metis (no_types, lifting))
    show ?thesis
      by (intro exI [of _ b] exI [of _ m])
        (use m d False p in \<open>simp add: bufio_Read_def Let_def\<close>)
  qed
  then obtain b1 m where b1: "bf_r b1 < bufSize" "bf_w b1 = bufSize" "rd_pos (bf_rd b1) = bufSize * Suc m"
      "i = bufSize * m + bf_r b1" "bf_buf b1 = stream_part A key (bufSize * m) bufSize" "rd_Key (bf_rd b1) = key"
      "bufio_Read A p b = (let n = min (length p) (bf_w b1 - bf_r b1)
        in (n, take n (drop (bf_r b1) (bf_buf b1)) @ drop n p, b1\<lparr>bf_r := bf_r b1 + n\<rparr>))" by blast
  define n where "n = min (length p) (bufSize - bf_r b1)"
  have n: "0 < n" "n \<le> length p" "bf_r b1 + n \<le> bufSize" using p b1(1) by (auto simp: n_def)
  have "bufio_Read A p b = (n, stream_part A key i n @ drop n p, b1\<lparr>bf_r := bf_r b1 + n\<rparr>)"
    using b1(7) take_drop_stream_part [OF n(3), of A key "bufSize * m"] by (simp add: Let_def b1(2,4,5) flip: n_def)
  moreover have "delivered A key (i + n) (b1\<lparr>bf_r := bf_r b1 + n\<rparr>)"
    using b1 n(3) by (auto simp: delivered_def)
  ultimately show thesis using that n(1,2) by blast
qed

lemma RandBytes_stream:
  assumes "delivered A key i b" "length p < bufSize"
  shows "\<exists>b'. RandBytes_loop A p b = Some (stream_part A key i (length p), b') \<and> delivered A key (i + length p) b'"
  using assms
proof (induction "length p" arbitrary: p i b rule: less_induct)
  case less
  show ?case
  proof (cases "p = []")
    case True
    then show ?thesis using less.prems by (subst RandBytes_loop.simps) (simp add: stream_part_def)
  next
    case False
    obtain n b' where r: "bufio_Read A p b = (n, stream_part A key i n @ drop n p, b')" "0 < n" "n \<le> length p" "delivered A key (i + n) b'"
      by (rule read_stream [OF less.prems(1) False less.prems(2)])
    have len: "length (drop n p) < length p" "length (drop n p) < bufSize" using r(2) False less.prems(2) by auto
    obtain b'' where rest: "RandBytes_loop A (drop n p) b' = Some (stream_part A key (i + n) (length p - n), b'')"
        "delivered A key (i + n + (length p - n)) b''"
      using less.hyps [OF len(1) r(4) len(2)] by auto
    have "stream_part A key i (length p) = stream_part A key i n @ stream_part A key (i + n) (length p - n)"
      using stream_part_add [of A key i n "length p - n"] r(3) by simp
    then show ?thesis
      using rest r(3) False by (subst RandBytes_loop.simps) (simp add: r(1))
  qed
qed

section \<open>Numbers from the stream\<close>

definition chunk_size :: "int \<Rightarrow> nat" where
  "chunk_size m = (BitLen (nat (m - 1)) + 7) div 8"

definition top_bits :: "int \<Rightarrow> nat" where
  "top_bits m = (let n = BitLen (nat (m - 1)) in if n mod 8 = 0 then 8 else n mod 8)"

definition mask_first :: "nat \<Rightarrow> byte list \<Rightarrow> byte list" where
  "mask_first bits bytes = bytes[0 := bytes ! 0 AND mask bits]"

text \<open>The number that the chunk \<open>c\<close> of the stream from position \<open>i\<close> on offers below \<open>m\<close>.\<close>

definition offered :: "aes_ctr \<Rightarrow> byte list \<Rightarrow> nat \<Rightarrow> int \<Rightarrow> nat \<Rightarrow> int" where
  "offered A key i m c = be_value (mask_first (top_bits m) (stream_part A key (i + c * chunk_size m) (chunk_size m)))"

lemma be_value_nonneg: "0 \<le> be_value bs"
proof -
  have "0 \<le> a \<Longrightarrow> 0 \<le> foldl (\<lambda>a b. 256 * a + uint b) a bs" for a :: int and bs :: "byte list"
    by (induction bs arbitrary: a) auto
  then show ?thesis by (simp add: be_value_def)
qed

lemma offered_next: "offered A key (i + chunk_size m) m c = offered A key i m (Suc c)"
  by (simp add: offered_def add_ac)

lemma rand_Int_turn:
  assumes "delivered A key i b" "length bytes = chunk_size m" "chunk_size m < bufSize"
  obtains b' where "delivered A key (i + chunk_size m) b'"
    "rand_Int_loop A m (top_bits m) bytes b = (if offered A key i m 0 < m then Some (offered A key i m 0, b')
       else rand_Int_loop A m (top_bits m) (mask_first (top_bits m) (stream_part A key i (chunk_size m))) b')"
    "RandBytes_loop A bytes b = Some (stream_part A key i (chunk_size m), b')"
proof -
  obtain b' where r: "RandBytes_loop A bytes b = Some (stream_part A key i (chunk_size m), b')" "delivered A key (i + chunk_size m) b'"
    using RandBytes_stream [OF assms(1), of bytes] assms(2,3) by auto
  have "rand_Int_loop A m (top_bits m) bytes b = (if offered A key i m 0 < m then Some (offered A key i m 0, b')
       else rand_Int_loop A m (top_bits m) (mask_first (top_bits m) (stream_part A key i (chunk_size m))) b')"
    by (subst rand_Int_loop.simps) (simp add: r(1) offered_def mask_first_def)
  then show thesis using that r by blast
qed

lemma rand_Int_loop_returns:
  assumes "delivered A key i b" "length bytes = chunk_size m" "chunk_size m < bufSize"
    and "offered A key i m c < m" "\<forall>c' < c. m \<le> offered A key i m c'"
  shows "\<exists>b'. rand_Int_loop A m (top_bits m) bytes b = Some (offered A key i m c, b') \<and> delivered A key (i + Suc c * chunk_size m) b'"
  using assms
proof (induction c arbitrary: i b bytes)
  case 0
  obtain b' where b': "delivered A key (i + chunk_size m) b'"
    "rand_Int_loop A m (top_bits m) bytes b = (if offered A key i m 0 < m then Some (offered A key i m 0, b')
       else rand_Int_loop A m (top_bits m) (mask_first (top_bits m) (stream_part A key i (chunk_size m))) b')"
    by (rule rand_Int_turn [OF 0(1-3)])
  then show ?case using 0(4) by simp
next
  case (Suc c)
  obtain b' where b': "delivered A key (i + chunk_size m) b'"
    "rand_Int_loop A m (top_bits m) bytes b = (if offered A key i m 0 < m then Some (offered A key i m 0, b')
       else rand_Int_loop A m (top_bits m) (mask_first (top_bits m) (stream_part A key i (chunk_size m))) b')"
    by (rule rand_Int_turn [OF Suc.prems(1-3)])
  have "m \<le> offered A key i m 0" using Suc.prems(5) by simp
  moreover have "\<exists>b''. rand_Int_loop A m (top_bits m) (mask_first (top_bits m) (stream_part A key i (chunk_size m))) b'
      = Some (offered A key (i + chunk_size m) m c, b'') \<and> delivered A key (i + chunk_size m + Suc c * chunk_size m) b''"
  proof (rule Suc.IH [OF b'(1)])
    show "length (mask_first (top_bits m) (stream_part A key i (chunk_size m))) = chunk_size m" by (simp add: mask_first_def)
    show "\<forall>c' < c. m \<le> offered A key (i + chunk_size m) m c'" using Suc.prems(5) by (simp add: offered_next)
  qed (use Suc.prems in \<open>simp_all add: offered_next\<close>)
  ultimately show ?case using b'(2) by (auto simp: offered_next add.assoc)
qed

text \<open>A number is returned only if the stream offers one.\<close>

lemma rand_Int_loop_offered:
  assumes "rand_Int_loop A m (top_bits m) bytes b = Some y" "delivered A key i b" "length bytes = chunk_size m" "chunk_size m < bufSize"
  shows "\<exists>c. offered A key i m c < m"
proof -
  let ?P = "\<lambda>A m bits bytes b (y :: int \<times> BufPRGReader). \<forall>i. bits = top_bits m \<longrightarrow> delivered A key i b \<longrightarrow> length bytes = chunk_size m \<longrightarrow>
     chunk_size m < bufSize \<longrightarrow> (\<exists>c. offered A key i m c < m)"
  have "?P A m (top_bits m) bytes b y"
    using assms(1)
  proof (rule rand_Int_loop.raw_induct [where P = ?P, rotated])
    fix loop :: "aes_ctr \<Rightarrow> int \<Rightarrow> nat \<Rightarrow> byte list \<Rightarrow> BufPRGReader \<Rightarrow> (int \<times> BufPRGReader) option" and A m bits bytes b y
    assume IH: "\<And>A m bits bytes b y. loop A m bits bytes b = Some y \<Longrightarrow> ?P A m bits bytes b y"
      and step: "Option.bind (RandBytes_loop A bytes b) (\<lambda>(bytes, b).
        let bytes = bytes[0 := bytes ! 0 AND mask bits]; n = be_value bytes
        in if n < m then Some (n, b) else loop A m bits bytes b) = Some y"
    show "?P A m bits bytes b y"
    proof (intro allI impI)
      fix i assume bits: "bits = top_bits m" and d: "delivered A key i b" "length bytes = chunk_size m" "chunk_size m < bufSize"
      obtain b' where b': "delivered A key (i + chunk_size m) b'" "RandBytes_loop A bytes b = Some (stream_part A key i (chunk_size m), b')"
        by (rule rand_Int_turn [OF d])
      let ?bytes = "mask_first bits (stream_part A key i (chunk_size m))"
      show "\<exists>c. offered A key i m c < m"
      proof (cases "be_value ?bytes < m")
        case True
        then show ?thesis by (intro exI [of _ 0]) (simp add: offered_def bits)
      next
        case False
        then have "loop A m bits ?bytes b' = Some y"
          using step by (simp add: b'(2) mask_first_def Let_def)
        from IH [OF this] bits b'(1) d(3) have "\<exists>c. offered A key (i + chunk_size m) m c < m"
          by (simp add: mask_first_def)
        then show ?thesis by (auto simp: offered_next)
      qed
    qed
  qed
  then show ?thesis using assms(2-4) by blast
qed

section \<open>Properties\<close>

fun fill_all :: "aes_ctr \<Rightarrow> byte list list \<Rightarrow> BufPRGReader \<Rightarrow> (byte list \<times> BufPRGReader) option" where
  "fill_all A [] b = Some ([], b)"
| "fill_all A (out # outs) b =
     Option.bind (RandBytes_loop A out b) (\<lambda>(x, b). Option.bind (fill_all A outs b) (\<lambda>(xs, b). Some (x @ xs, b)))"

lemma fill_all_stream:
  "delivered A key i b \<Longrightarrow> \<forall>out \<in> set outs. length out < bufSize \<Longrightarrow>
     \<exists>b'. fill_all A outs b = Some (stream_part A key i (sum_list (map length outs)), b') \<and> delivered A key (i + sum_list (map length outs)) b'"
proof (induction outs arbitrary: i b)
  case Nil
  then show ?case by (simp add: stream_part_def)
next
  case (Cons out outs)
  obtain b1 where b1: "RandBytes_loop A out b = Some (stream_part A key i (length out), b1)" "delivered A key (i + length out) b1"
    using RandBytes_stream [OF Cons.prems(1), of out] Cons.prems(2) by auto
  then show ?case using Cons.IH [OF b1(2)] Cons.prems(2) by (auto simp: stream_part_add add.assoc)
qed

text \<open>C35: One stream behind every request. Buffers of any lengths below 8192, whatever they held, are filled one after the
  other with consecutive bytes of one stream, and filling always ends. The stream starts as the AES-CTR
  key stream; from byte 8192 on each byte is the XOR of the key stream at its offset in its own and in all
  earlier blocks of 8192.\<close>

theorem prg_delivers_one_stream:
  assumes "\<forall>out \<in> set outs. length out < bufSize"
  shows "(\<exists>b. fill_all A outs (NewBufPRG (NewPRG key)) = Some (map (stream A key) [0..<sum_list (map length outs)], b)) \<and>
     (\<forall>i < bufSize. stream A key i = A key i) \<and> (\<forall>i. stream A key (i + bufSize) = stream A key i XOR A key (i + bufSize))"
proof (intro conjI allI impI)
  show "\<exists>b. fill_all A outs (NewBufPRG (NewPRG key)) = Some (map (stream A key) [0..<sum_list (map length outs)], b)"
    using fill_all_stream [OF delivered_start assms, of A key] by (auto simp: stream_part_def)
  show "stream A key i = A key i" if "i < bufSize" for i
    using that by (simp add: stream_def)
  show "stream A key (i + bufSize) = stream A key i XOR A key (i + bufSize)" for i
  proof -
    have "bufSize * Suc (i div bufSize) + i mod bufSize = i + bufSize" using mult_div_mod_eq [of bufSize i] by simp
    then show ?thesis by (simp add: stream_def)
  qed
qed

theorem prg_delivers_one_stream_witness:
  "\<exists>b. fill_all (\<lambda>key n. word_of_nat n) [[7, 7], [], [1]] (NewBufPRG (NewPRG [])) = Some ([0, 1, 2], b)"
proof -
  have "stream (\<lambda>key n. word_of_nat n) [] 0 = 0" "stream (\<lambda>key n. word_of_nat n) [] 1 = 1" "stream (\<lambda>key n. word_of_nat n) [] 2 = 2"
    by (simp_all add: stream_def bufSize_def)
  then show ?thesis
    using conjunct1 [OF prg_delivers_one_stream [of "[[7, 7], [], [1]]" "\<lambda>key n. word_of_nat n" "[]"]]
    by (simp add: bufSize_def upt_rec numeral_2_eq_2 del: fill_all.simps)
qed

text \<open>C36: \<^verbatim>\<open>RandInt\<close> returns the first number below its bound that the stream offers, chunk by chunk, and takes exactly these chunks
  from the stream; in particular the number is in range. It does not return exactly when no chunk of the stream
  is below the bound.\<close>

theorem prg_randint_first_below:
  assumes "delivered A key i b" "0 < m" "chunk_size m < bufSize"
  shows "case BufPRGReader_RandInt A m b of
       None \<Rightarrow> \<forall>c. m \<le> offered A key i m c
     | Some r \<Rightarrow> \<exists>c b'. r = Ok (offered A key i m c, b') \<and> 0 \<le> offered A key i m c \<and> offered A key i m c < m \<and>
         (\<forall>c' < c. m \<le> offered A key i m c') \<and> delivered A key (i + Suc c * chunk_size m) b'"
proof (cases "BitLen (nat (m - 1)) = 0")
  case True
  then have "offered A key i m 0 = 0" "chunk_size m = 0"
    by (simp_all add: offered_def chunk_size_def mask_first_def stream_part_def be_value_def)
  then show ?thesis using assms True by (auto simp: BufPRGReader_RandInt_def rand_Int_def intro!: exI [of _ 0])
next
  case False
  then have r: "BufPRGReader_RandInt A m b = map_option Ok (rand_Int_loop A m (top_bits m) (replicate (chunk_size m) 0) b)"
    using assms(2) by (simp add: BufPRGReader_RandInt_def rand_Int_def top_bits_def chunk_size_def Let_def)
  show ?thesis
  proof (cases "\<exists>c. offered A key i m c < m")
    case True
    define c where "c = (LEAST c. offered A key i m c < m)"
    have c1: "offered A key i m c < m" unfolding c_def by (rule LeastI_ex [OF True])
    have c2: "\<forall>c' < c. m \<le> offered A key i m c'"
    proof (intro allI impI)
      fix c' assume "c' < c"
      then have "\<not> offered A key i m c' < m" unfolding c_def by (rule not_less_Least)
      then show "m \<le> offered A key i m c'" by simp
    qed
    obtain b' where "rand_Int_loop A m (top_bits m) (replicate (chunk_size m) 0) b = Some (offered A key i m c, b')"
        "delivered A key (i + Suc c * chunk_size m) b'"
      using rand_Int_loop_returns [OF assms(1) _ assms(3) c1 c2, of "replicate (chunk_size m) 0"] by auto
    moreover have "0 \<le> offered A key i m c" by (simp add: offered_def be_value_nonneg)
    ultimately show ?thesis using c1 c2 by (simp add: r) blast
  next
    case False
    then have "rand_Int_loop A m (top_bits m) (replicate (chunk_size m) 0) b = None"
      using rand_Int_loop_offered [OF _ assms(1) _ assms(3), of "replicate (chunk_size m) 0"] by (cases "rand_Int_loop A m (top_bits m) (replicate (chunk_size m) 0) b") auto
    then show ?thesis using False by (simp add: r linorder_not_less)
  qed
qed

theorem prg_randint_first_below_witness:
  "\<exists>b'. BufPRGReader_RandInt (\<lambda>key n. word_of_nat n) 5 (NewBufPRG (NewPRG [])) = Some (Ok (0, b')) \<and> delivered (\<lambda>key n. word_of_nat n) [] 1 b'"
proof -
  let ?A = "\<lambda>key n. word_of_nat n :: byte"
  have bits: "BitLen 4 = 3" by (simp add: BitLen.simps)
  then have k: "chunk_size 5 = 1" by (simp add: chunk_size_def)
  have o: "offered ?A [] 0 5 0 = 0"
    by (simp add: offered_def k mask_first_def stream_part_def stream_def bufSize_def be_value_def)
  have "chunk_size 5 < bufSize" by (simp add: k bufSize_def)
  from prg_randint_first_below [OF delivered_start [of ?A "[]"] _ this]
  have main: "case BufPRGReader_RandInt ?A 5 (NewBufPRG (NewPRG [])) of None \<Rightarrow> \<forall>c. 5 \<le> offered ?A [] 0 5 c
     | Some r \<Rightarrow> \<exists>c b'. r = Ok (offered ?A [] 0 5 c, b') \<and> 0 \<le> offered ?A [] 0 5 c \<and> offered ?A [] 0 5 c < 5 \<and>
         (\<forall>c' < c. 5 \<le> offered ?A [] 0 5 c') \<and> delivered ?A [] (0 + Suc c * chunk_size 5) b'" by simp
  show ?thesis
  proof (cases "BufPRGReader_RandInt ?A 5 (NewBufPRG (NewPRG []))")
    case None
    then show ?thesis using main o by (auto dest: spec [of _ 0])
  next
    case (Some r)
    then obtain c b' where c: "r = Ok (offered ?A [] 0 5 c, b')" "\<forall>c' < c. 5 \<le> offered ?A [] 0 5 c'" "delivered ?A [] (Suc c * chunk_size 5) b'"
      using main by auto
    have "c = 0" using c(2) o by (cases c) auto
    then show ?thesis using Some c o k by simp
  qed
qed

end
