(* ===== verification/Spec2Isabelle.thy ===== *)
theory Spec2Isabelle
  imports Deployment Client Server_Program Coordinator_Program Autoscaler_Program Coordinator_Actor Prg_Stream
begin

text \<open>
  A verification development of RiposteLinear (\<^verbatim>\<open>src/\<close>), an anonymous message board. Clients write
  messages to secret positions of a table that two servers hold as XOR shares; a shard is such a pair of
  servers; a coordinator routes uploads to shards, runs epochs and scales the set of shards.

  \<^bold>\<open>Parts of the program and where they are modelled\<close>

  \<^item> \<^verbatim>\<open>src/prg\<close>, \<^verbatim>\<open>src/utils/rand.go\<close>, \<^verbatim>\<open>src/mulproof\<close>: additive shares and the product proof of the write
    protocol: theory \<open>Field_Sharing\<close>, over a random source; the generator that provides it, with its buffer:
    \<open>Prg_Stream\<close>.
  \<^item> \<^verbatim>\<open>src/db/slot.go\<close>, \<^verbatim>\<open>proof.go\<close>, \<^verbatim>\<open>src/prf\<close>: rows, slots and the sketches servers compute: \<open>Slot_Rows\<close>.
  \<^item> \<^verbatim>\<open>src/db/table.go\<close>: the slot table with its worker matrices: \<open>Slot_Table\<close>.
  \<^item> \<^verbatim>\<open>src/db/args.go\<close>, \<^verbatim>\<open>encrypt.go\<close>, \<^verbatim>\<open>Prepare\<close>/\<^verbatim>\<open>Commit\<close>/\<^verbatim>\<open>DumpTable\<close> and the fan-out of \<^verbatim>\<open>server.go\<close>: what an
    upload consists of and what the two servers do with it: \<open>Write_Protocol\<close>.
  \<^item> \<^verbatim>\<open>src/db/ingestion_queue.go\<close>: the queue of completed uploads, as an interface and in memory:
    \<open>Ingestion_Queue\<close>; \<^verbatim>\<open>ingestion_sqs.go\<close> and \<^verbatim>\<open>ingestion_payload.go\<close>: the queue on SQS with its payloads on S3:
    \<open>SQS_Queue\<close>.
  \<^item> \<^verbatim>\<open>src/db/completed_upload_ledger.go\<close>: the ledger that keeps uploads from being applied twice:
    \<open>Upload_Ledger\<close>; \<^verbatim>\<open>completed_upload_ledger_dynamodb.go\<close>: the ledger on DynamoDB: \<open>Dynamo_Ledger\<close>.
  \<^item> \<^verbatim>\<open>runLeaderControl\<close> of \<^verbatim>\<open>src/db/server.go\<close> and the RPC handlers that send it commands: epochs and
    uploads at a shard leader: \<open>Leader_Control\<close>.
  \<^item> \<^verbatim>\<open>sendMergeRequest\<close>, \<^verbatim>\<open>extractPublishedSlots\<close>, \<^verbatim>\<open>writePublishedResult\<close>: \<open>Epoch_Publish\<close>.
  \<^item> \<^verbatim>\<open>processRequest\<close>, \<^verbatim>\<open>processIngestionJob\<close>, the diagnostics and \<^verbatim>\<open>Status\<close>: \<open>Ingestion_Worker\<close>.
  \<^item> \<^verbatim>\<open>src/coordinator/shard_config.go\<close>, \<^verbatim>\<open>src/controlstore/shard_config.go\<close>: the shard map: \<open>Shard_Topology\<close>.
  \<^item> \<^verbatim>\<open>src/coordinator/scaling.go\<close>: the scaling policy: \<open>Scaling_Policy\<close>.
  \<^item> \<^verbatim>\<open>src/controlstore/memory.go\<close>, \<^verbatim>\<open>epoch_cycle.go\<close>, \<^verbatim>\<open>scaling_persistence.go\<close>: lease, epoch, shard maps,
    recommendations and the epoch cycle: \<open>Control_Store\<close>; the sessions: \<open>Session_Store\<close>.
  \<^item> \<^verbatim>\<open>src/controlstore/dynamodb.go\<close>: both stores on DynamoDB: \<open>Dynamo_Table\<close> has the tables, requests and
    expressions of the service, \<open>Dynamo_Store\<close> the operations.
  \<^item> \<^verbatim>\<open>src/coordinator/coordinator.go\<close>, \<^verbatim>\<open>coordinator_actor.go\<close>, \<^verbatim>\<open>coordinator_lease.go\<close>, \<^verbatim>\<open>coordinator_errors.go\<close>,
    \<^verbatim>\<open>epoch_cycle.go\<close>, \<^verbatim>\<open>scaling_apply.go\<close>, \<^verbatim>\<open>coordinator_health.go\<close>, \<^verbatim>\<open>promotion_readiness.go\<close>,
    \<^verbatim>\<open>shard_promotion.go\<close>, \<^verbatim>\<open>auto_promotion.go\<close>, \<^verbatim>\<open>main.go\<close>: the coordinator: its state and lease in
    \<open>Coordinator_Lease\<close>, epochs in \<open>Coordinator_Epoch\<close>, scaling in \<open>Coordinator_Scaling\<close>, uploads in
    \<open>Coordinator_Uploads\<close>, health and promotion in \<open>Shard_Promotion\<close>, its report in \<open>Coordinator_Status\<close>, its
    command line in \<open>Coordinator_Config\<close>, the whole program with the choice of stores and the administrative
    calls in \<open>Coordinator_Program\<close>; the goroutine that keeps accesses to its state apart in \<open>Coordinator_Actor\<close>.
  \<^item> \<^verbatim>\<open>src/autoscaler\<close>: the program that decides recommendations: \<open>Autoscaler\<close>, its main function \<open>Autoscaler_Program\<close>.
  \<^item> \<^verbatim>\<open>src/client\<close>: the client with its retries, over a coordinator or a leader: \<open>Client\<close>.
  \<^item> \<^verbatim>\<open>src/server\<close> and the set-up of a server in \<^verbatim>\<open>src/db/server.go\<close>: flags, choice of queue and ledger,
    connections to the peers: \<open>Server_Program\<close>.
  \<^item> \<^verbatim>\<open>src/utils/keys.go\<close>, \<^verbatim>\<open>src/utils/rpc.go\<close>: the embedded keys, and who can connect to whom: \<open>Transport\<close>.
  \<^item> How the parts run together: \<open>Shard_Fleet\<close> puts the leaders of \<open>Leader_Control\<close> behind the shard clients
    of the coordinator; \<open>Deployment\<close> is the system of several coordinators, the stores and the shards.

  \<open>Riposte_Prelude\<close> holds what they share: errors, results, machine integers, time, Go maps, decimal
  text, random sources. \<open>Hex_Text\<close> has hexadecimal text, \<open>Admin_Text\<close> the lines that the two administrative command
  lines print alike.

  \<^bold>\<open>How the code is represented\<close>

  A struct is a record with the fields of the source (a prefix keeps equal field names apart); a
  method is a definition of the same name that takes and returns the state; a goroutine that owns a
  state (the control loop of a leader, the actor of a coordinator) makes each command one step;
  \<open>Coordinator_Actor\<close> shows for the latter that this is right. A
  loop over data is a structurally recursive function, and the bound of 16 attempts of the session allocation is
  the literal of the code. The four loops that need not end are partial functions into \<open>option\<close>, with the
  circumstances under which they return shown: the retries and the main loop of the client, the filling
  of a buffer from the generator and the rejection sampling of \<^verbatim>\<open>rand.Int\<close>. An error is a value of \<open>'a res\<close>, a
  panic or a blocked receive a value of \<open>option\<close> or \<open>go\<close>. Integers are unbounded with \<open>wrap64\<close> where a value
  from outside is added to or multiplied; a \<^verbatim>\<open>float64\<close> is a rational with rounding to 53 bits; bytes are
  8-bit words. The clock is an argument.

  Code outside the repository is an argument: AES, Poly1305, NaCl box, gob, the random source, JSON, SHA-256,
  the text of floating point numbers, X.509 and the TLS handshake, the file system, DynamoDB, SQS and S3, with the
  documented behaviour that is needed as a named hypothesis (\<open>crypto_ok\<close>, \<open>sealing_ok\<close>, \<open>rng_ok\<close>, \<open>pki_ok\<close>,
  \<open>dynamo_ok\<close>, \<open>reads_ok\<close>, \<open>queue_setup_ok\<close>) that a concrete instance meets in the witnesses. Of DynamoDB only
  the atomicity of a conditional write to one item is assumed by default: its answer may be lost, and what a read returns is
  arbitrary unless \<open>reads_ok\<close> is assumed. SQS delivers any message at any time and more than once.

  \<^bold>\<open>Interfaces\<close>

  A Go interface is a record of operations and a locale with its laws, interpreted on the
  implementation of the repository: \<open>completed_upload_queue\<close>, \<open>completed_upload_ledger\<close>,
  \<open>ingestion_worker\<close> (both together), \<open>lease_store\<close>, \<open>coordinator_lease\<close> (a coordinator over a lease
  store) and \<open>reporting_lease_store\<close> (one whose lease can also be read), \<open>session_store\<close>, \<open>deletable_sessions\<close>,
  \<open>shard_epochs\<close> (what a coordinator's start needs of its shards; database leaders provide it),
  \<open>upload_service\<close> (what the client calls; a coordinator over leaders and a leader provide it), \<open>scaling_admin\<close> (what the
  autoscaler calls; the coordinator provides it). The lease contracts hold for the in-memory store and for
  the DynamoDB store, so that mutual exclusion is proved once for both.

  \<^bold>\<open>What is shown\<close>

  \<^item> Writing: an honest upload is accepted and adds exactly its message to what the two servers reveal
    together; the table refines the XOR of its matrices; the product proof is complete and, at three
    points, sound; xorEq is the byte-wise XOR.
  \<^item> A shard: at most one merge per epoch, only when the queue is drained; the queue, the ledger and the
    workers together acknowledge an upload only after its commit; a merge publishes the XOR of the tables,
    slot by slot.
  \<^item> Topology and scaling: a shard map is accepted exactly when it tiles the rows, every row has one
    owner, recommendations stay in bounds, specifications are parsed and printed without loss.
  \<^item> Coordination: fencing tokens and mutual exclusion of leases, one active coordinator at a time,
    what starting, ending, scaling and promoting do, that a failed start is rolled back on every
    leader, that an upload through the coordinator reaches the queue of the right leader; what the status
    report says and what the autoscaler decides; that concurrent calls of a coordinator's actor are as good
    as sequential ones, and return.
  \<^item> DynamoDB and SQS: leases exclude each other with stale reads and lost answers; shard maps and
    sessions come back as they were written; the epoch cycle follows its table; a processing lease of the ledger
    excludes others; what the queue delivers for an upload is what was enqueued.
  \<^item> Programs: an upload of the client that succeeds has put its message into the queue of the right leader, and
    processing it writes exactly the text; the retries return exactly when an attempt is final; on which flags
    a server starts and with what; that the two processes of a shard become ready; which connections are
    served; that a coordinator started beside another one does not become active; that the generator delivers one
    stream, and what \<^verbatim>\<open>RandInt\<close> takes from it.
  \<^item> The deployment: in every run the stored state is well formed and never taken back.
  \<^item> Where the code does not do what it means to: a dump keeps the worker matrices; failed checks do
    not stop a commit; a malformed query ends the server; a failed merge blocks a leader; retries can
    cancel an upload; scaling undoes promotions; the epoch cycle can come to rest for good; a stale read lets
    two workers process one upload; an error of the queue's statistics starts a merge; a follower serves any client
    with a certificate; a long list of servers ends the leader.

  \<^bold>\<open>Not modelled\<close>

  \<^item> \<^verbatim>\<open>src/rcontrol\<close> and \<^verbatim>\<open>src/main.go\<close>, which start processes on the machines of an evaluation.
  \<^item> The texts of the embedded certificates (arguments of \<open>keys_init\<close>), the TLS protocol itself, the sockets and their byte
    counters; of \<^verbatim>\<open>src/utils/utils.go\<close> only \<^verbatim>\<open>RandomInt64\<close> is used, which is the source of session numbers, an argument.
  \<^item> Log output, the profiler, the printing of tables for debugging, and the reading of flags from the
    command line: the flags are records.
  \<^item> The channels of the leader's control loop, whose commands are the steps of the model.
  \<^item> Interleavings inside one handler: two handlers of one coordinator, or a lease that is lost between
    a handler's check and its write.
\<close>

end
